(* ===== verification/Factory_Prelude.thy ===== *)
theory Factory_Prelude
  imports Main "HOL-Library.Char_ord" "HOL-Library.List_Lexorder"
begin

text \<open>
  Shared vocabulary of the development: the service errors of
  \<^verbatim>\<open>internal/controlplane/store.go\<close>, the results of a transaction, clock values, and the
  handful of list operations that the SQL statements of the control plane are read as.

  A table is a list of rows. \<^verbatim>\<open>SELECT ... WHERE\<close> on a key is \<open>find\<close>, \<^verbatim>\<open>COUNT(*)\<close> is
  \<open>count_where\<close>, \<^verbatim>\<open>EXISTS\<close> is \<open>list_ex\<close> and \<^verbatim>\<open>UPDATE ... WHERE\<close> is
  \<open>update_where\<close>: it rewrites every row that satisfies the condition and keeps the others, in
  place. An operation of the store is one transaction: it returns \<open>Inl\<close> of a service error, and
  then the deferred \<^verbatim>\<open>tx.Rollback()\<close> leaves the tables as they were, or \<open>Inr\<close> of its
  result together with the committed tables.
\<close>

named_theorems table_simps \<open>how the table operations act on keys, membership and lookup\<close>

type_synonym ident = string
type_synonym millis = int

subsection \<open>Service errors\<close>

record service_error =
  se_code :: string
  se_message :: string
  se_status :: nat

definition err_not_found :: service_error where
  "err_not_found = \<lparr>se_code = ''not_found'', se_message = ''resource not found'', se_status = 404\<rparr>"

definition conflict :: "string \<Rightarrow> string \<Rightarrow> service_error" where
  "conflict code message = \<lparr>se_code = code, se_message = message, se_status = 409\<rparr>"

definition invalid :: "string \<Rightarrow> string \<Rightarrow> service_error" where
  "invalid code message = \<lparr>se_code = code, se_message = message, se_status = 400\<rparr>"

definition too_large :: "string \<Rightarrow> string \<Rightarrow> service_error" where
  "too_large code message = \<lparr>se_code = code, se_message = message, se_status = 413\<rparr>"

definition unavailable :: service_error where
  "unavailable = \<lparr>se_code = ''storage_unavailable'',
     se_message = ''control-plane storage is unavailable'', se_status = 503\<rparr>"

definition service_error_code :: "service_error \<Rightarrow> string \<Rightarrow> bool" where
  "service_error_code err code \<longleftrightarrow> se_code err = code"

lemma se_code_simps [simp]:
  "se_code (conflict c m) = c" "se_code (invalid c m) = c" "se_code (too_large c m) = c"
  "se_code err_not_found = ''not_found''" "se_code unavailable = ''storage_unavailable''"
  by (simp_all add: conflict_def invalid_def too_large_def err_not_found_def unavailable_def)

lemma se_status_simps [simp]:
  "se_status (conflict c m) = 409" "se_status (invalid c m) = 400" "se_status (too_large c m) = 413"
  "se_status err_not_found = 404" "se_status unavailable = 503"
  by (simp_all add: conflict_def invalid_def too_large_def err_not_found_def unavailable_def)

type_synonym 'a result = "service_error + 'a"

text \<open>
  \<open>and_then\<close> is the early return on \<^verbatim>\<open>err != nil\<close>. \<open>committed\<close> ends an operation: a failed
  transaction body leaves the database as it was, a successful one is committed, and the reply is
  then read from the committed database.
\<close>

definition and_then :: "'a result \<Rightarrow> ('a \<Rightarrow> 'b result) \<Rightarrow> 'b result" where
  "and_then m f = (case m of Inl e \<Rightarrow> Inl e | Inr x \<Rightarrow> f x)"

definition committed :: "'d \<Rightarrow> ('x \<times> 'd) result \<Rightarrow> ('d \<Rightarrow> 'x \<Rightarrow> 'a result) \<Rightarrow> 'a result \<times> 'd" where
  "committed d tx reply = (case tx of Inl e \<Rightarrow> (Inl e, d) | Inr (x, d') \<Rightarrow> (reply d' x, d'))"

lemma and_then_simps [simp]: "and_then (Inl e) f = Inl e" "and_then (Inr x) f = f x"
  by (simp_all add: and_then_def)

lemma and_then_Inr: "and_then m f = Inr y \<longleftrightarrow> (\<exists>x. m = Inr x \<and> f x = Inr y)"
  by (cases m) simp_all

lemma and_then_Inl: "and_then m f = Inl e \<longleftrightarrow> m = Inl e \<or> (\<exists>x. m = Inr x \<and> f x = Inl e)"
  by (cases m) simp_all

lemma if_Inl_eq_Inr [simp]: "(if c then Inl e else m) = Inr y \<longleftrightarrow> \<not> c \<and> m = Inr y"
  by simp

lemma committed_simps [simp]:
  "committed d (Inl e) reply = (Inl e, d)"
  "committed d (Inr (x, d')) reply = (reply d' x, d')"
  by (simp_all add: committed_def)

lemma committed_cases:
  assumes "committed d tx reply = (r, d')"
  obtains e where "tx = Inl e" "r = Inl e" "d' = d" | x where "tx = Inr (x, d')" "r = reply d' x"
  using assms by (auto simp: committed_def split: sum.splits)

subsection \<open>Clocks\<close>

text \<open>
  The store's clock is an instant in nanoseconds since the Unix epoch; \<^verbatim>\<open>UnixMilli\<close> rounds it
  down to the milliseconds that the tables hold.
\<close>

definition unix_milli :: "int \<Rightarrow> millis" where
  "unix_milli t = t div 1000000"

definition from_millis :: "millis \<Rightarrow> int" where
  "from_millis m = m * 1000000"

lemma unix_milli_from_millis [simp]: "unix_milli (from_millis m) = m"
  by (simp add: unix_milli_def from_millis_def)

lemma from_millis_unix_milli_le: "from_millis (unix_milli t) \<le> t"
  using pos_mod_sign [of 1000000 t]
  by (simp add: from_millis_def unix_milli_def minus_mod_eq_div_mult [symmetric])

lemma unix_milli_mono: "s \<le> t \<Longrightarrow> unix_milli s \<le> unix_milli t"
  by (simp add: unix_milli_def zdiv_mono1)

lemma unix_milli_add_millis: "unix_milli (t + from_millis m) = unix_milli t + m"
  by (simp add: unix_milli_def from_millis_def)

subsection \<open>Tables\<close>

definition count_where :: "('a \<Rightarrow> bool) \<Rightarrow> 'a list \<Rightarrow> nat" where
  "count_where P xs = length (filter P xs)"

definition update_where :: "('a \<Rightarrow> bool) \<Rightarrow> ('a \<Rightarrow> 'a) \<Rightarrow> 'a list \<Rightarrow> 'a list" where
  "update_where P f xs = map (\<lambda>x. if P x then f x else x) xs"

definition delete_where :: "('a \<Rightarrow> bool) \<Rightarrow> 'a list \<Rightarrow> 'a list" where
  "delete_where P xs = filter (\<lambda>x. \<not> P x) xs"

text \<open>\<^verbatim>\<open>COALESCE(NULLIF(v, ''), w)\<close> on non-null text, and \<^verbatim>\<open>nullString\<close> of state.go.\<close>

definition coalesce_nullif :: "string \<Rightarrow> string \<Rightarrow> string" where
  "coalesce_nullif v w = (if v = [] then w else v)"

definition null_string :: "string \<Rightarrow> string option" where
  "null_string v = (if v = [] then None else Some v)"

definition coalesce :: "'a option \<Rightarrow> 'a \<Rightarrow> 'a" where
  "coalesce v d = (case v of None \<Rightarrow> d | Some w \<Rightarrow> w)"

lemma update_where_Nil [simp]: "update_where P f [] = []"
  by (simp add: update_where_def)

lemma update_where_Cons [simp]:
  "update_where P f (x # xs) = (if P x then f x else x) # update_where P f xs"
  by (simp add: update_where_def)

lemma length_update_where [simp]: "length (update_where P f xs) = length xs"
  by (simp add: update_where_def)

lemma set_update_where [table_simps]:
  "set (update_where P f xs) = (\<lambda>x. if P x then f x else x) ` set xs"
  by (simp add: update_where_def)

lemma map_update_where [table_simps]:
  "(\<And>x. P x \<Longrightarrow> k (f x) = k x) \<Longrightarrow> map k (update_where P f xs) = map k xs"
  by (induction xs) auto

lemma find_update_where [table_simps]:
  "(\<And>x. P x \<Longrightarrow> Q (f x) = Q x) \<Longrightarrow>
   find Q (update_where P f xs) = map_option (\<lambda>x. if P x then f x else x) (find Q xs)"
  by (induction xs) auto

lemma count_where_Nil [simp]: "count_where P [] = 0"
  by (simp add: count_where_def)

lemma count_where_Cons [simp]:
  "count_where P (x # xs) = (if P x then Suc (count_where P xs) else count_where P xs)"
  by (simp add: count_where_def)

lemma count_where_append [simp]: "count_where P (xs @ ys) = count_where P xs + count_where P ys"
  by (simp add: count_where_def)

lemma count_where_eq_0 [table_simps]: "count_where P xs = 0 \<longleftrightarrow> (\<forall>x \<in> set xs. \<not> P x)"
  by (simp add: count_where_def filter_empty_conv)

lemma count_where_update_where_same [table_simps]:
  "(\<And>x. P x \<Longrightarrow> Q (f x) = Q x) \<Longrightarrow> count_where Q (update_where P f xs) = count_where Q xs"
  by (induction xs) auto

lemma count_where_mono:
  "(\<And>x. x \<in> set xs \<Longrightarrow> P x \<Longrightarrow> Q x) \<Longrightarrow> count_where P xs \<le> count_where Q xs"
  by (induction xs) auto

lemma count_where_cong:
  "(\<And>x. x \<in> set xs \<Longrightarrow> P x = Q x) \<Longrightarrow> count_where P xs = count_where Q xs"
  by (induction xs) auto

lemma find_Some_set: "find P xs = Some x \<Longrightarrow> x \<in> set xs \<and> P x"
  by (induction xs) (auto split: if_splits)

lemma find_None_set: "find P xs = None \<longleftrightarrow> (\<forall>x \<in> set xs. \<not> P x)"
  by (induction xs) auto

lemma find_append: "find P (xs @ ys) = (case find P xs of None \<Rightarrow> find P ys | Some x \<Rightarrow> Some x)"
  by (induction xs) auto

lemma find_key:
  "distinct (map k xs) \<Longrightarrow> x \<in> set xs \<Longrightarrow> k x = v \<Longrightarrow> find (\<lambda>y. k y = v) xs = Some x"
  by (induction xs) (auto simp: image_iff)

lemma key_unique:
  "distinct (map k xs) \<Longrightarrow> x \<in> set xs \<Longrightarrow> y \<in> set xs \<Longrightarrow> k x = k y \<Longrightarrow> x = y"
  by (induction xs) (auto simp: image_iff)

lemma count_key_le_one:
  "distinct (map k xs) \<Longrightarrow> (\<And>x y. x \<in> set xs \<Longrightarrow> y \<in> set xs \<Longrightarrow> P x \<Longrightarrow> P y \<Longrightarrow> k x = k y) \<Longrightarrow>
   count_where P xs \<le> 1"
proof (induction xs)
  case (Cons z zs)
  show ?case
  proof (cases "P z")
    case True
    have "\<not> P x" if "x \<in> set zs" for x
    proof
      assume "P x"
      then have "k x = k z" using Cons.prems(2) [of x z] that True by simp
      then show False using Cons.prems(1) that by (metis distinct.simps(2) image_eqI list.set_map list.simps(9))
    qed
    then have "count_where P zs = 0" by (simp add: count_where_eq_0)
    with True show ?thesis by simp
  next
    case False
    with Cons show ?thesis by simp
  qed
qed simp

lemma distinct_map_filter_key: "distinct (map k xs) \<Longrightarrow> distinct (map k (filter P xs))"
  by (rule distinct_map_filter)

lemma in_set_update_whereE:
  assumes "y \<in> set (update_where P f xs)"
  obtains x where "x \<in> set xs" "P x" "y = f x" | "y \<in> set xs" "\<not> P y"
  using assms by (auto simp: set_update_where split: if_splits)

lemma map_eq_weaken:
  assumes "map g ys = map g xs" "\<And>x. f x = h (g x)"
  shows "map f ys = map f xs"
proof -
  have "f = h \<circ> g" using assms(2) by auto
  then show ?thesis using arg_cong [OF assms(1), of "map h"] by simp
qed

text \<open>A table whose rows were rewritten where they stand.\<close>

definition in_place :: "('a \<Rightarrow> 'a) \<Rightarrow> 'a list \<Rightarrow> 'a list \<Rightarrow> bool" where
  "in_place f xs ys \<longleftrightarrow> ys = map f xs"

lemma in_place_same: "in_place (\<lambda>x. x) xs xs"
  by (simp add: in_place_def)

lemma in_place_update: "in_place (\<lambda>x. if P x then f x else x) xs (update_where P f xs)"
  by (simp add: in_place_def update_where_def)

lemma in_place_update_after:
  "in_place g xs ys \<Longrightarrow> in_place (\<lambda>x. if P (g x) then f (g x) else g x) xs (update_where P f ys)"
  by (simp add: in_place_def update_where_def)

lemmas in_place_intros = in_place_same in_place_update

end
