(* ===== verification/Go_Strings.thy ===== *)
theory Go_Strings
  imports Factory_Prelude "HOL-Library.Sublist"
begin

text \<open>
  What the program uses of Go's \<^verbatim>\<open>strings\<close>, \<^verbatim>\<open>unicode/utf8\<close> and \<^verbatim>\<open>strconv\<close> packages, on
  Go's own string type: a sequence of bytes. \<open>rune_size\<close> is the size of the UTF-8 sequence a string
  starts with (0 where Go's decoder answers \<^verbatim>\<open>RuneError\<close> of width 1), after the table of accepted
  byte ranges of \<^verbatim>\<open>utf8.DecodeRuneInString\<close>.
\<close>

subsection \<open>UTF-8\<close>

definition byte :: "char \<Rightarrow> nat" where
  "byte c = of_char c"

definition in_range :: "nat \<Rightarrow> nat \<Rightarrow> char \<Rightarrow> bool" where
  "in_range lo hi c \<longleftrightarrow> lo \<le> byte c \<and> byte c \<le> hi"

definition cont_bytes :: "nat \<Rightarrow> string \<Rightarrow> bool" where
  "cont_bytes n s \<longleftrightarrow> n \<le> length s \<and> list_all (in_range 128 191) (take n s)"

fun second_byte :: "nat \<Rightarrow> nat \<Rightarrow> string \<Rightarrow> bool" where
  "second_byte lo hi [] \<longleftrightarrow> False"
| "second_byte lo hi (c # s) \<longleftrightarrow> in_range lo hi c"

fun rune_size :: "string \<Rightarrow> nat" where
  "rune_size [] = 0"
| "rune_size (c # s) =
     (let b = byte c in
      if b < 128 then 1
      else if b < 194 then 0
      else if b < 224 then (if cont_bytes 1 s then 2 else 0)
      else if b < 240 then
        (if second_byte (if b = 224 then 160 else 128) (if b = 237 then 159 else 191) s \<and> cont_bytes 2 s
         then 3 else 0)
      else if b < 245 then
        (if second_byte (if b = 240 then 144 else 128) (if b = 244 then 143 else 191) s \<and> cont_bytes 3 s
         then 4 else 0)
      else 0)"

definition rune_width :: "string \<Rightarrow> nat" where
  "rune_width s = max 1 (rune_size s)"

lemma cont_bytes_length: "cont_bytes n s \<Longrightarrow> n \<le> length s"
  by (simp add: cont_bytes_def)

lemma rune_size_le_length: "rune_size s \<le> length s"
  by (cases s) (auto simp: Let_def dest: cont_bytes_length)

lemma rune_size_le_4: "rune_size s \<le> 4"
  by (cases s) (auto simp: Let_def)

lemma rune_width_pos: "0 < rune_width s"
  by (simp add: rune_width_def)

function utf8_chunks :: "string \<Rightarrow> string list" where
  "utf8_chunks s =
     (if s = [] then [] else take (rune_width s) s # utf8_chunks (drop (rune_width s) s))"
  by pat_completeness auto
termination
  by (relation "measure length") (auto simp: rune_width_def)

declare utf8_chunks.simps [simp del]

lemma utf8_chunks_Nil [simp]: "utf8_chunks [] = []"
  by (simp add: utf8_chunks.simps [of "[]"])

lemma utf8_chunks_nonempty:
  "s \<noteq> [] \<Longrightarrow> utf8_chunks s = take (rune_width s) s # utf8_chunks (drop (rune_width s) s)"
  by (simp add: utf8_chunks.simps [of s])

text \<open>\<^verbatim>\<open>utf8.ValidString\<close>, \<^verbatim>\<open>utf8.RuneCountInString\<close>, and the indices of
  \<^verbatim>\<open>for index := range s\<close>.\<close>

function utf8_valid :: "string \<Rightarrow> bool" where
  "utf8_valid s =
     (if s = [] then True
      else if rune_size s = 0 then False
      else utf8_valid (drop (rune_width s) s))"
  by pat_completeness auto
termination
  by (relation "measure length") (auto simp: rune_width_def)

declare utf8_valid.simps [simp del]

lemma utf8_valid_Nil [simp]: "utf8_valid []"
  by (simp add: utf8_valid.simps [of "[]"])

lemma utf8_valid_nonempty:
  "s \<noteq> [] \<Longrightarrow> utf8_valid s \<longleftrightarrow> 0 < rune_size s \<and> utf8_valid (drop (rune_width s) s)"
  by (simp add: utf8_valid.simps [of s])

definition rune_count :: "string \<Rightarrow> nat" where
  "rune_count s = length (utf8_chunks s)"

lemma concat_utf8_chunks [simp]: "concat (utf8_chunks s) = s"
  by (induction s rule: utf8_chunks.induct) (subst utf8_chunks.simps, auto)

lemma utf8_chunk_nonempty: "c \<in> set (utf8_chunks s) \<Longrightarrow> c \<noteq> []"
proof (induction s rule: utf8_chunks.induct)
  case (1 s)
  show ?case
  proof (cases "s = []")
    case False
    with 1 show ?thesis
      using rune_width_pos [of s] by (auto simp: utf8_chunks_nonempty)
  qed (use 1 in simp)
qed

text \<open>ASCII text is one rune per byte.\<close>

definition ascii :: "string \<Rightarrow> bool" where
  "ascii s \<longleftrightarrow> list_all (\<lambda>c. byte c < 128) s"

lemma ascii_rune_width: "ascii (c # s) \<Longrightarrow> rune_width (c # s) = 1"
  by (simp add: ascii_def rune_width_def in_range_def)

lemma utf8_chunks_ascii: "ascii s \<Longrightarrow> utf8_chunks s = map (\<lambda>c. [c]) s"
proof (induction s)
  case (Cons c s)
  then show ?case using ascii_rune_width [of c s] by (simp add: utf8_chunks_nonempty) (simp add: ascii_def)
qed simp

lemma rune_count_le_length: "rune_count s \<le> length s"
proof -
  have "length cs \<le> length (concat cs)" if "\<forall>c \<in> set cs. c \<noteq> []" for cs :: "string list"
    using that by (induction cs) (auto simp: Suc_le_eq add_strict_increasing)
  then have "length (utf8_chunks s) \<le> length (concat (utf8_chunks s))"
    using utf8_chunk_nonempty by blast
  then show ?thesis by (simp add: rune_count_def)
qed

subsection \<open>Trimming\<close>

text \<open>
  \<^verbatim>\<open>strings.TrimSpace\<close> drops the runes of \<^verbatim>\<open>unicode.IsSpace\<close> at both ends. Every such rune
  is one of the following byte sequences, and a string starts (ends) with the rune exactly when it
  starts (ends) with the sequence, since a leading byte decides how the decoder reads on.
\<close>

definition chars_of :: "nat list \<Rightarrow> string" where
  "chars_of = map char_of"

definition space_runes :: "string list" where
  "space_runes = map chars_of
     ([[9], [10], [11], [12], [13], [32], [194, 133], [194, 160], [225, 154, 128]]
      @ map (\<lambda>b. [226, 128, b]) [128, 129, 130, 131, 132, 133, 134, 135, 136, 137, 138, 168, 169, 175]
      @ [[226, 129, 159], [227, 128, 128]])"

lemma space_runes_nonempty: "q \<in> set space_runes \<Longrightarrow> q \<noteq> []"
  by (auto simp: space_runes_def chars_of_def)

function strip_left :: "string list \<Rightarrow> string \<Rightarrow> string" where
  "strip_left qs s =
     (case find (\<lambda>q. q \<noteq> [] \<and> prefix q s) qs of
        None \<Rightarrow> s
      | Some q \<Rightarrow> strip_left qs (drop (length q) s))"
  by pat_completeness auto
termination
  by (relation "measure (length \<circ> snd)") (auto dest!: find_Some_set prefix_length_le simp: prefix_def)

declare strip_left.simps [simp del]

definition trim_space :: "string \<Rightarrow> string" where
  "trim_space s = rev (strip_left (map rev space_runes) (rev (strip_left space_runes s)))"

lemma strip_left_suffix: "suffix (strip_left qs s) s"
proof (induction qs s rule: strip_left.induct)
  case (1 qs s)
  show ?case
  proof (cases "find (\<lambda>q. q \<noteq> [] \<and> prefix q s) qs")
    case None
    then show ?thesis by (subst strip_left.simps) simp
  next
    case (Some q)
    with 1 show ?thesis
      by (subst strip_left.simps) (auto intro: suffix_order.trans suffix_drop)
  qed
qed

lemma length_strip_left_le: "length (strip_left qs s) \<le> length s"
  by (rule suffix_length_le [OF strip_left_suffix])

lemma length_trim_space_le: "length (trim_space s) \<le> length s"
  using length_strip_left_le [of "map rev space_runes" "rev (strip_left space_runes s)"]
    length_strip_left_le [of space_runes s]
  by (simp add: trim_space_def)

lemma strip_left_fixed: "strip_left qs s = s \<longleftrightarrow> find (\<lambda>q. q \<noteq> [] \<and> prefix q s) qs = None"
proof (cases "find (\<lambda>q. q \<noteq> [] \<and> prefix q s) qs")
  case None
  then show ?thesis by (simp add: strip_left.simps [of qs s])
next
  case (Some q)
  then have "q \<noteq> []" "prefix q s" by (auto dest: find_Some_set)
  then have "length (drop (length q) s) < length s"
    by (auto simp: prefix_def)
  with Some length_strip_left_le [of qs "drop (length q) s"] show ?thesis
    by (auto simp: strip_left.simps [of qs s])
qed

lemma strip_left_idem [simp]: "strip_left qs (strip_left qs s) = strip_left qs s"
proof (induction qs s rule: strip_left.induct)
  case (1 qs s)
  show ?case
  proof (cases "find (\<lambda>q. q \<noteq> [] \<and> prefix q s) qs")
    case None
    then show ?thesis by (simp add: strip_left.simps [of qs s])
  next
    case (Some q)
    with 1 show ?thesis by (simp add: strip_left.simps [of qs s])
  qed
qed

text \<open>What trimming leaves does not start with a stripped sequence, even after its end is cut.\<close>

lemma find_prefix_None_mono:
  "find (\<lambda>q. q \<noteq> [] \<and> prefix q s) qs = None \<Longrightarrow> prefix t s \<Longrightarrow>
   find (\<lambda>q. q \<noteq> [] \<and> prefix q t) qs = None"
  by (auto simp: find_None_set dest: prefix_order.trans)

lemma trim_space_Nil [simp]: "trim_space [] = []"
  using length_trim_space_le [of "[]"] by simp

lemma trim_space_idem [simp]: "trim_space (trim_space s) = trim_space s"
proof -
  let ?l = "strip_left space_runes s"
  let ?r = "strip_left (map rev space_runes) (rev ?l)"
  have "find (\<lambda>q. q \<noteq> [] \<and> prefix q ?l) space_runes = None"
    using strip_left_idem [of space_runes s] strip_left_fixed by blast
  moreover have "prefix (rev ?r) ?l"
    using strip_left_suffix [of "map rev space_runes" "rev ?l"]
    by (metis rev_rev_ident suffix_to_prefix)
  ultimately have "strip_left space_runes (rev ?r) = rev ?r"
    using find_prefix_None_mono strip_left_fixed by blast
  then show ?thesis by (simp add: trim_space_def)
qed

lemma space_runes_ends: "q \<in> set space_runes \<Longrightarrow> \<not> in_range 33 126 (hd q) \<and> \<not> in_range 33 126 (last q)"
  by (auto simp: space_runes_def chars_of_def in_range_def byte_def)

text \<open>Text that starts and ends with a visible ASCII character is trimmed already.\<close>

lemma trim_space_visible:
  assumes "s \<noteq> []" "in_range 33 126 (hd s)" "in_range 33 126 (last s)"
  shows "trim_space s = s"
proof -
  have "\<not> prefix q s" if "q \<in> set space_runes" for q
    using space_runes_ends [OF that] space_runes_nonempty [OF that] assms(2) by (auto simp: prefix_def hd_append)
  then have left: "strip_left space_runes s = s" by (simp add: strip_left_fixed find_None_set)
  have "\<not> prefix (rev q) (rev s)" if "q \<in> set space_runes" for q
    using space_runes_ends [OF that] space_runes_nonempty [OF that] assms(3)
    by (metis last_appendR rev_rev_ident suffix_def suffix_to_prefix)
  then have "strip_left (map rev space_runes) (rev s) = rev s" by (auto simp: strip_left_fixed find_None_set)
  with left show ?thesis by (simp add: trim_space_def)
qed

subsection \<open>Decimal and hexadecimal text\<close>

definition digit_char :: "nat \<Rightarrow> char" where
  "digit_char d = char_of (if d < 10 then 48 + d else 87 + d)"

fun base_digits :: "nat \<Rightarrow> nat \<Rightarrow> string" where
  "base_digits b n =
     (if b < 2 \<or> n < b then [digit_char n] else base_digits b (n div b) @ [digit_char (n mod b)])"

declare base_digits.simps [simp del]

definition show_nat :: "nat \<Rightarrow> string" where
  "show_nat n = base_digits 10 n"

definition show_int :: "int \<Rightarrow> string" where
  "show_int i = (if i < 0 then CHR ''-'' # show_nat (nat (- i)) else show_nat (nat i))"

text \<open>\<^verbatim>\<open>hex.EncodeToString\<close>: two lower-case digits for every byte.\<close>

definition hex_byte :: "nat \<Rightarrow> string" where
  "hex_byte b = [digit_char (b div 16), digit_char (b mod 16)]"

definition hex_encode :: "nat list \<Rightarrow> string" where
  "hex_encode bs = concat (map hex_byte bs)"

lemma length_hex_encode [simp]: "length (hex_encode bs) = 2 * length bs"
  by (induction bs) (auto simp: hex_encode_def hex_byte_def)

subsection \<open>Bounded text\<close>

text \<open>\<^verbatim>\<open>boundedUTF8Bytes\<close> of tasks.go: cut to a number of bytes, then drop bytes until what is left is
  valid UTF-8.\<close>

function drop_invalid_tail :: "string \<Rightarrow> string" where
  "drop_invalid_tail s =
     (if s = [] then [] else if utf8_valid s then s else drop_invalid_tail (butlast s))"
  by pat_completeness auto
termination
  by (relation "measure length") auto

declare drop_invalid_tail.simps [simp del]

definition bounded_utf8_bytes :: "string \<Rightarrow> nat \<Rightarrow> string" where
  "bounded_utf8_bytes value maximum =
     (if length value \<le> maximum then value else drop_invalid_tail (take maximum value))"

lemma drop_invalid_tail_valid: "utf8_valid (drop_invalid_tail s)"
  by (induction s rule: drop_invalid_tail.induct) (subst drop_invalid_tail.simps, simp)

lemma drop_invalid_tail_prefix: "prefix (drop_invalid_tail s) s"
proof (induction s rule: drop_invalid_tail.induct)
  case (1 s)
  then have "s \<noteq> [] \<Longrightarrow> \<not> utf8_valid s \<Longrightarrow> prefix (drop_invalid_tail (butlast s)) s"
    using prefix_order.trans [OF _ prefixeq_butlast [of s]] by blast
  then show ?case by (subst drop_invalid_tail.simps) simp
qed

lemma bounded_utf8_bytes_prefix: "prefix (bounded_utf8_bytes value maximum) value"
  by (auto simp: bounded_utf8_bytes_def intro: prefix_order.trans [OF drop_invalid_tail_prefix] take_is_prefix)

lemma bounded_utf8_bytes_length: "length (bounded_utf8_bytes value maximum) \<le> maximum"
  using prefix_length_le [OF drop_invalid_tail_prefix, of "take maximum value"]
  by (auto simp: bounded_utf8_bytes_def)

lemma bounded_utf8_bytes_valid: "utf8_valid value \<Longrightarrow> utf8_valid (bounded_utf8_bytes value maximum)"
  by (simp add: bounded_utf8_bytes_def drop_invalid_tail_valid)

end
