(* ===== verification/Protocol.thy ===== *)
theory Protocol
  imports Sha256
begin

text \<open>
  The vocabulary of \<^verbatim>\<open>internal/protocol\<close>: lifecycle states with the text they are stored and
  sent as, limits, and the requests and replies that cross the Worker and operator APIs. Instants are
  the milliseconds the store keeps; \<^verbatim>\<open>*int64\<close> and \<^verbatim>\<open>*time.Time\<close> are options.
\<close>

subsection \<open>Limits\<close>

definition max_event_batch_bytes :: nat where "max_event_batch_bytes = 262144"
definition max_event_bytes :: nat where "max_event_bytes = 65536"
definition max_events_per_batch :: nat where "max_events_per_batch = 100"
definition max_attempt_event_bytes :: nat where "max_attempt_event_bytes = 10485760"
definition max_result_bytes :: nat where "max_result_bytes = 262144"
definition max_error_bytes :: nat where "max_error_bytes = 65536"
definition lease_duration :: millis where "lease_duration = 30000"
definition empty_claim_ttl :: millis where "empty_claim_ttl = 300000"
definition worker_online_window :: millis where "worker_online_window = 30000"
definition max_retained_per_repo :: nat where "max_retained_per_repo = 10"
definition max_managed_repositories :: nat where "max_managed_repositories = 1000"
definition max_repository_cache_entries :: nat where "max_repository_cache_entries = 100"
definition max_event_page_size :: nat where "max_event_page_size = 500"
definition claim_protocol_version :: nat where "claim_protocol_version = 5"
definition max_progress_bytes :: nat where "max_progress_bytes = 2048"
definition max_outcome_bytes :: nat where "max_outcome_bytes = 8192"
definition max_waiting_reason_bytes :: nat where "max_waiting_reason_bytes = 2048"
definition max_question_bytes :: nat where "max_question_bytes = 8192"
definition max_answer_bytes :: nat where "max_answer_bytes = 8192"
definition max_progress_per_attempt :: nat where "max_progress_per_attempt = 199"

lemmas protocol_limits =
  max_event_batch_bytes_def max_event_bytes_def max_events_per_batch_def max_attempt_event_bytes_def
  max_result_bytes_def max_error_bytes_def lease_duration_def empty_claim_ttl_def
  worker_online_window_def max_retained_per_repo_def max_managed_repositories_def max_repository_cache_entries_def
  max_event_page_size_def claim_protocol_version_def max_progress_bytes_def max_outcome_bytes_def
  max_waiting_reason_bytes_def max_question_bytes_def max_answer_bytes_def max_progress_per_attempt_def

subsection \<open>Lifecycle states\<close>

datatype session_state =
    SessionBlocked | SessionQueued | SessionPreparing | SessionRunning | SessionNeedsInput
  | SessionReady | SessionSucceeded | SessionFailed | SessionNoChange | SessionCancelled

datatype execution_state =
    ExecutionQueued | ExecutionPreparing | ExecutionRunning
  | ExecutionSucceeded | ExecutionFailed | ExecutionCancelled

datatype attempt_state =
    AttemptPreparing | AttemptRunning | AttemptSucceeded | AttemptFailed | AttemptCancelled | AttemptLost

datatype stage_run_state =
  StagePending | StageRunning | StageSucceeded | StageFailed | StageCancelled

datatype outcome_contract = OutcomeProcessExit | OutcomeAgentUpdate

datatype execution_owner =
  ExecutionOwnerNone | ExecutionOwnerWorkerAttempt | ExecutionOwnerOperator

datatype work_update_status =
  WorkUpdateRunning | WorkUpdateReady | WorkUpdateNeedsInput | WorkUpdateFailed | WorkUpdateNoChange

datatype work_update_actor =
  WorkUpdateActorAgent | WorkUpdateActorOperator | WorkUpdateActorSystem

datatype execution_backend = BackendPersistent | BackendFakeCloudRun

datatype worker_health = Healthy | Unhealthy

fun stage_state_text :: "stage_run_state \<Rightarrow> string" where
  "stage_state_text StagePending = ''pending''"
| "stage_state_text StageRunning = ''running''"
| "stage_state_text StageSucceeded = ''succeeded''"
| "stage_state_text StageFailed = ''failed''"
| "stage_state_text StageCancelled = ''cancelled''"

fun attempt_state_text :: "attempt_state \<Rightarrow> string" where
  "attempt_state_text AttemptPreparing = ''preparing''"
| "attempt_state_text AttemptRunning = ''running''"
| "attempt_state_text AttemptSucceeded = ''succeeded''"
| "attempt_state_text AttemptFailed = ''failed''"
| "attempt_state_text AttemptCancelled = ''cancelled''"
| "attempt_state_text AttemptLost = ''lost''"

fun update_status_text :: "work_update_status \<Rightarrow> string" where
  "update_status_text WorkUpdateRunning = ''running''"
| "update_status_text WorkUpdateReady = ''ready''"
| "update_status_text WorkUpdateNeedsInput = ''needs-input''"
| "update_status_text WorkUpdateFailed = ''failed''"
| "update_status_text WorkUpdateNoChange = ''no-change''"

fun update_actor_text :: "work_update_actor \<Rightarrow> string" where
  "update_actor_text WorkUpdateActorAgent = ''agent''"
| "update_actor_text WorkUpdateActorOperator = ''operator''"
| "update_actor_text WorkUpdateActorSystem = ''system''"

text \<open>\<^verbatim>\<open>SupportedWorkUpdateStatus\<close>, with the status it accepts.\<close>

definition work_update_status_of :: "string \<Rightarrow> work_update_status option" where
  "work_update_status_of v =
     (if v = ''running'' then Some WorkUpdateRunning
      else if v = ''ready'' then Some WorkUpdateReady
      else if v = ''needs-input'' then Some WorkUpdateNeedsInput
      else if v = ''failed'' then Some WorkUpdateFailed
      else if v = ''no-change'' then Some WorkUpdateNoChange
      else None)"

definition supported_work_update_status :: "string \<Rightarrow> bool" where
  "supported_work_update_status v \<longleftrightarrow> work_update_status_of v \<noteq> None"

lemma work_update_status_of_text [simp]: "work_update_status_of (update_status_text st) = Some st"
  by (cases st) (simp_all add: work_update_status_of_def)

lemma update_status_text_of:
  "work_update_status_of v = Some st \<Longrightarrow> update_status_text st = v"
  by (auto simp: work_update_status_of_def split: if_splits)

subsection \<open>Workers and repositories\<close>

record capability =
  cap_kind :: string
  cap_name :: string
  cap_status :: string
  cap_version :: string
  cap_message :: string

record source_access =
  sa_provider :: string
  sa_hostname :: string

record retained_worktree =
  rw_attempt_id :: ident
  rw_repository_id :: ident
  rw_path :: string
  rw_reason :: string
  rw_cleanup_command :: string

record repository_registration =
  rr_key :: string
  rr_remote_identity :: string
  rr_retained_count :: int

text \<open>The zero instant of \<^verbatim>\<open>ResetsAt\<close> is \<open>None\<close>.\<close>

record weekly_limit =
  wl_used_percent :: int
  wl_resets_at :: "int option"

text \<open>Labels are a map: their keys are distinct.\<close>

record worker_registration =
  wi_name :: string
  wi_labels :: "(string \<times> string) list"
  wi_worker_version :: string
  wi_claim_protocol_version :: int
  wi_runtime :: string
  wi_runtime_version :: string
  wi_capabilities :: "capability list"
  wi_capacity :: int
  wi_active_count :: int
  wi_health :: string
  wi_repositories :: "repository_registration list"
  wi_source_access :: "source_access list"
  wi_accepts_managed_repositories :: bool
  wi_managed_repository_ids :: "ident list"
  wi_retained_worktrees :: "retained_worktree list"
  wi_capacity_handoff_version :: int
  wi_disposed_attempt_ids :: "ident list"
  wi_weekly_limit :: "weekly_limit option"

record advertised_repository =
  ad_id :: ident
  ad_key :: string
  ad_remote_identity :: string
  ad_retained_count :: nat

record worker_view =
  ww_id :: ident
  ww_name :: string
  ww_labels :: "(string \<times> string) list"
  ww_worker_version :: string
  ww_runtime :: string
  ww_runtime_version :: string
  ww_capabilities :: "capability list"
  ww_capacity :: nat
  ww_active_count :: nat
  ww_health :: worker_health
  ww_online :: bool
  ww_synthetic :: bool
  ww_repositories :: "advertised_repository list"
  ww_source_access :: "source_access list"
  ww_accepts_managed_repositories :: bool
  ww_repository_cache_count :: nat
  ww_retained_worktrees :: "retained_worktree list"
  ww_current_run_title :: string
  ww_registered_at :: int
  ww_last_heartbeat :: int

record worker_summary =
  wsm_id :: ident
  wsm_name :: string
  wsm_runtime :: string
  wsm_capacity :: nat
  wsm_active_count :: nat
  wsm_health :: worker_health
  wsm_online :: bool
  wsm_last_heartbeat :: int

definition capability_kind_runtime :: string where "capability_kind_runtime = ''runtime''"
definition capability_ready :: string where "capability_ready = ''ready''"

subsection \<open>Tasks, Runs and Work\<close>

record pipeline_stage =
  pg_position :: nat
  pg_name :: string
  pg_prompt :: string

record pipeline_snapshot =
  pn_id :: ident
  pn_name :: string
  pn_generation :: nat
  pn_stages :: "pipeline_stage list"

record workflow_snapshot =
  wf_id :: string
  wf_title :: string
  wf_description :: string
  wf_path :: string
  wf_commit_sha :: string
  wf_digest :: string
  wf_instructions :: string

record task_repository =
  tr_id :: ident
  tr_remote_identity :: string

record task_snapshot =
  ts_id :: ident
  ts_name :: string
  ts_prompt :: string
  ts_runtime :: string
  ts_execution_profile_id :: string
  ts_workflow_id :: string
  ts_timeout_seconds :: nat
  ts_concurrency_limit :: nat
  ts_generation :: nat
  ts_outcome_contract :: outcome_contract
  ts_workflow :: workflow_snapshot
  ts_repository_workflows :: "(ident \<times> workflow_snapshot) list"
  ts_pipeline :: pipeline_snapshot
  ts_repositories :: "task_repository list"
  ts_schedule_cron :: string
  ts_schedule_timezone :: string

definition no_workflow :: workflow_snapshot where
  "no_workflow = \<lparr>wf_id = '''', wf_title = '''', wf_description = '''', wf_path = '''', wf_commit_sha = '''',
     wf_digest = '''', wf_instructions = ''''\<rparr>"

definition default_pipeline_id :: ident where
  "default_pipeline_id = ''00000000-0000-0000-0000-000000000001''"

definition persistent_auto_profile_id :: string where "persistent_auto_profile_id = ''persistent-auto''"
definition commit_resolve_per_attempt :: string where "commit_resolve_per_attempt = ''resolve_per_attempt''"

record work_target =
  tg_position :: nat
  tg_target_key :: string
  tg_target_kind :: string
  tg_source_kind :: string
  tg_source_key :: string
  tg_source_reference :: string
  tg_source_title :: string
  tg_context_snapshot :: string
  tg_publish_branch :: string

text \<open>The columns of a Work row hold the fields above; a target of a Run also names its Work and repository.\<close>

record run_target = work_target +
  rg_id :: ident
  rg_repository_id :: ident
  rg_repository_identity :: string

record execution_snapshot =
  es_profile_id :: string
  es_profile_version :: nat
  es_backend :: execution_backend
  es_runtime :: string
  es_provider :: string
  es_model :: string
  es_timeout_seconds :: nat
  es_resource_class :: string
  es_commit_resolution_policy :: string

record work_update =
  wu_id :: ident
  wu_work_id :: ident
  wu_attempt_id :: "ident option"
  wu_request_id :: ident
  wu_sequence :: nat
  wu_status :: work_update_status
  wu_message :: string
  wu_pull_request_url :: string
  wu_pull_request_head_branch :: string
  wu_pull_request_head_sha :: string
  wu_checkpoint_sha :: string
  wu_checkpoint_published :: bool
  wu_actor :: work_update_actor
  wu_accepted_at :: millis

record work_answer =
  wa_id :: ident
  wa_work_id :: ident
  wa_question_update_id :: ident
  wa_request_id :: ident
  wa_message :: string
  wa_accepted_at :: millis

subsection \<open>Requests\<close>

record claim_input =
  ci_request_id :: string
  ci_lease_token :: string

record start_attempt_request =
  sr_lease_token :: string
  sr_supervisor_pid :: "int option"
  sr_process_identity :: string
  sr_process_group_id :: "int option"
  sr_started_from_sha :: string
  sr_runtime_started :: bool

record start_stage_request =
  st_lease_token :: string
  st_supervisor_pid :: "int option"
  st_process_identity :: string
  st_process_group_id :: "int option"

record complete_stage_request =
  cs_lease_token :: string
  cs_state :: string
  cs_result :: string
  cs_error :: string

record complete_attempt_request =
  ca_lease_token :: string
  ca_state :: string
  ca_result :: string
  ca_error :: string

record attempt_event =
  ae_sequence :: int
  ae_kind :: string
  ae_payload :: string
  ae_server_time :: string

record event_batch_request =
  eb_lease_token :: string
  eb_events :: "attempt_event list"

record attempt_update_request =
  au_lease_token :: string
  au_replay_only :: bool
  au_request_id :: string
  au_status :: string
  au_message :: string
  au_pull_request_url :: string
  au_pull_request_head_branch :: string
  au_pull_request_head_sha :: string
  au_checkpoint_sha :: string
  au_checkpoint_published :: bool

record work_answer_request =
  ar_request_id :: string
  ar_message :: string

subsection \<open>Replies\<close>

record attempt_view =
  av_id :: ident
  av_execution_id :: ident
  av_worker_id :: ident
  av_attempt_number :: nat
  av_state :: attempt_state
  av_lease_expires_at :: millis
  av_supervisor_pid :: "int option"
  av_process_identity :: string
  av_process_group_id :: "int option"
  av_result :: string
  av_error :: string
  av_started_at :: "millis option"
  av_completed_at :: "millis option"
  av_created_at :: millis

record heartbeat_response =
  hb_lease_expires_at :: int
  hb_cancellation_requested :: bool

record stage_run =
  sv_position :: nat
  sv_name :: string
  sv_prompt :: string
  sv_state :: stage_run_state
  sv_result :: string
  sv_error :: string
  sv_started_at :: "millis option"
  sv_completed_at :: "millis option"

record 'a page =
  pg_items :: "'a list"
  pg_next_after :: int
  pg_has_more :: bool

record session_execution =
  xv_id :: ident
  xv_session_id :: ident
  xv_assigned_worker_id :: ident
  xv_required_runtime :: string
  xv_state :: execution_state
  xv_cancellation_requested :: bool
  xv_created_at :: millis
  xv_updated_at :: millis

record claimed_session =
  cl_id :: ident
  cl_run_id :: ident
  cl_task_name :: string
  cl_prompt :: string
  cl_stages :: "stage_run list"
  cl_worker_id :: ident
  cl_repository_id :: ident
  cl_required_runtime :: string
  cl_timeout_seconds :: nat
  cl_outcome_contract :: outcome_contract
  cl_target :: run_target
  cl_checkpoint_sha :: string
  cl_pending_resume_sha :: string
  cl_checkpoint_published :: bool
  cl_pull_request_url :: string
  cl_pull_request_head_branch :: string
  cl_pull_request_head_sha :: string
  cl_state :: execution_state
  cl_admitted_at :: millis

record claimed_repository =
  cr_id :: ident
  cr_key :: string
  cr_remote_identity :: string
  cr_retained_count :: nat

record claim =
  cm_attempt :: attempt_view
  cm_execution :: session_execution
  cm_session :: claimed_session
  cm_repository :: claimed_repository

end
