(* ===== verification/Store_Schema.thy ===== *)
theory Store_Schema
  imports Protocol
begin

text \<open>
  The tables of the control-plane store after the last migration, one record per row, and the joins
  and lookups that the operations share. Columns that no modelled operation reads or writes are left
  out. A nullable column is an option. \<open>db\<close> is the database of \<^verbatim>\<open>Store\<close> (store.go).
\<close>

subsection \<open>Rows\<close>

record worker =
  wk_id :: ident
  wk_name :: string
  wk_runtime :: string
  wk_capabilities :: "capability list"
  wk_capacity :: nat
  wk_active_count :: nat
  wk_health :: worker_health
  wk_last_heartbeat :: millis
  wk_claim_protocol_version :: nat
  wk_synthetic :: bool
  wk_source_access :: "source_access list"
  wk_accepts_managed_repositories :: bool
  wk_managed_repository_ids :: "ident list"
  wk_registered_at :: millis
  wk_labels :: "(string \<times> string) list"
  wk_worker_version :: string
  wk_runtime_version :: string
  wk_retained_worktrees :: "retained_worktree list"
  wk_weekly_limit_used_percent :: "int option"
  wk_weekly_limit_resets_at :: "millis option"

record repository =
  rp_id :: ident
  rp_remote_identity :: string
  rp_enabled :: bool
  rp_centrally_managed :: bool
  rp_issue_intake_enabled :: bool
  rp_created_at :: millis
  rp_updated_at :: millis

record repository_alias =
  ra_alias_id :: ident
  ra_repository_id :: ident

record worker_enrollment =
  we_id :: ident
  we_worker_id :: ident
  we_token_digest :: digest
  we_expires_at :: millis
  we_used_at :: "millis option"
  we_created_at :: millis

record worker_credential =
  wc_worker_id :: ident
  wc_token_digest :: digest
  wc_created_at :: millis
  wc_last_used_at :: millis

record worker_repository =
  wr_worker_id :: ident
  wr_display_key :: string
  wr_repository_id :: ident
  wr_worker_remote_identity :: string
  wr_retained_count :: nat
  wr_advertised :: bool
  wr_dynamic :: bool
  wr_updated_at :: millis

record task_row =
  tk_id :: ident
  tk_name :: string
  tk_name_key :: string
  tk_prompt :: string
  tk_runtime :: string
  tk_timeout_seconds :: nat
  tk_concurrency_limit :: nat
  tk_execution_profile_id :: "string option"
  tk_outcome_contract :: outcome_contract
  tk_pipeline_id :: "ident option"
  tk_workflow_id :: string
  tk_generation :: nat
  tk_archived :: bool
  tk_migration_only :: bool
  tk_read_only :: bool
  tk_schedule_enabled :: bool
  tk_cron :: "string option"
  tk_timezone :: "string option"
  tk_next_due_at :: "millis option"
  tk_pending_due_at :: "millis option"
  tk_pending_snapshot :: "task_snapshot option"
  tk_pending_repository_ids :: "ident list"
  tk_schedule_retry_at :: "millis option"
  tk_schedule_retry_count :: nat
  tk_last_discarded_due_at :: "millis option"
  tk_health_status :: string
  tk_health_code :: string
  tk_health_message :: string
  tk_created_at :: millis
  tk_updated_at :: millis

record task_repository_row =
  tp_task_id :: ident
  tp_position :: nat
  tp_repository_id :: ident

record pipeline_row =
  pl_id :: ident
  pl_name :: string
  pl_name_key :: string
  pl_generation :: nat
  pl_created_at :: millis
  pl_updated_at :: millis

record pipeline_stage_row =
  ps_pipeline_id :: ident
  ps_stage :: pipeline_stage

record workflow_catalog_row =
  wc_repository_id :: ident
  wc_commit_sha :: string
  wc_status :: string
  wc_error :: string
  wc_synced_at :: millis
  wc_total_bytes :: nat

record workflow_entry_row =
  we_repository_id :: ident
  we_workflow :: workflow_snapshot
  we_labels :: "string list"

record workflow_diagnostic_row =
  wd_repository_id :: ident
  wd_issue_number :: int
  wd_issue_url :: string
  wd_code :: string
  wd_message :: string
  wd_workflow_ids :: "string list"
  wd_updated_at :: millis

record issue_visit =
  iv_repository_id :: ident
  iv_issue_number :: int
  iv_visit_key :: string
  iv_active :: bool
  iv_last_seen_key :: string

record pull_request_wake =
  pw_repository_id :: ident
  pw_pull_request_url :: string
  pw_active :: bool
  pw_last_seen_key :: string

record run =
  run_id :: ident
  run_request_key :: string
  run_request_digest :: digest
  run_task_id :: ident
  run_task_snapshot :: task_snapshot
  run_source :: string
  run_scheduled_at :: "millis option"
  run_requested_profile_id :: "string option"
  run_execution :: execution_snapshot
  run_targets :: "run_target list"
  run_provider_snapshot :: "string option"
  run_outcome_contract :: outcome_contract
  run_admitted_at :: millis
  run_updated_at :: millis
  run_terminal_at :: "millis option"

record session =
  ss_id :: ident
  ss_run_id :: ident
  ss_repository_id :: ident
  ss_repository_identity :: string
  ss_resolved_prompt :: string
  ss_required_runtime :: string
  ss_execution :: execution_snapshot
  ss_timeout_seconds :: nat
  ss_state :: session_state
  ss_blocked_reason :: "string option"
  ss_assigned_worker_id :: "ident option"
  ss_cancellation_requested :: bool
  ss_retry_may_repeat_effects :: bool
  ss_admitted_at :: millis
  ss_started_at :: "millis option"
  ss_terminal_at :: "millis option"
  ss_result :: "string option"
  ss_failure_reason :: "string option"
  ss_target :: work_target
  ss_predecessor_work_id :: "ident option"
  ss_execution_owner :: execution_owner
  ss_waiting_reason :: string
  ss_latest_progress :: string
  ss_question :: string
  ss_checkpoint_sha :: string
  ss_pending_resume_sha :: string
  ss_checkpoint_published :: bool
  ss_answer :: string
  ss_pull_request_url :: string
  ss_pull_request_head_branch :: string
  ss_pull_request_head_sha :: string
  ss_terminal_message :: string
  ss_workflow :: workflow_snapshot

record execution =
  ex_id :: ident
  ex_session_id :: ident
  ex_assigned_worker_id :: ident
  ex_required_runtime :: string
  ex_state :: execution_state
  ex_cancellation_requested :: bool
  ex_retry_count :: nat
  ex_created_at :: millis
  ex_updated_at :: millis

record attempt =
  at_id :: ident
  at_execution_id :: ident
  at_worker_id :: ident
  at_number :: nat
  at_state :: attempt_state
  at_lease_digest :: digest
  at_lease_expires_at :: millis
  at_supervisor_pid :: "int option"
  at_process_identity :: "string option"
  at_process_group_id :: "int option"
  at_result :: "string option"
  at_error :: "string option"
  at_started_at :: "millis option"
  at_completed_at :: "millis option"
  at_created_at :: millis
  at_capacity_acknowledged :: bool

record claim_request =
  cq_worker_id :: ident
  cq_request_id :: string
  cq_lease_digest :: digest
  cq_attempt_id :: "ident option"
  cq_created_at :: millis

record stored_event =
  ev_attempt_id :: ident
  ev_sequence :: int
  ev_kind :: string
  ev_payload :: string
  ev_payload_bytes :: nat
  ev_server_time :: millis

record session_stage =
  sg_session_id :: ident
  sg_position :: nat
  sg_name :: string
  sg_prompt :: string
  sg_state :: stage_run_state
  sg_result :: string
  sg_error :: string
  sg_started_at :: "millis option"
  sg_completed_at :: "millis option"

record agent_update_request =
  aq_attempt_id :: ident
  aq_request_id :: string
  aq_request_digest :: digest
  aq_update_id :: ident
  aq_created_at :: millis

record db =
  workers :: "worker list"
  repositories :: "repository list"
  worker_repositories :: "worker_repository list"
  task_rows :: "task_row list"
  task_repositories :: "task_repository_row list"
  execution_profile_ids :: "string list"
  pipelines :: "pipeline_row list"
  pipeline_stages :: "pipeline_stage_row list"
  workflow_catalogs :: "workflow_catalog_row list"
  workflow_entries :: "workflow_entry_row list"
  runs :: "run list"
  sessions :: "session list"
  executions :: "execution list"
  attempts :: "attempt list"
  claim_requests :: "claim_request list"
  attempt_events :: "stored_event list"
  session_stages :: "session_stage list"
  work_updates :: "work_update list"
  agent_update_requests :: "agent_update_request list"
  work_answers :: "work_answer list"
  repository_aliases :: "repository_alias list"
  worker_enrollments :: "worker_enrollment list"
  worker_credentials :: "worker_credential list"
  workflow_diagnostics :: "workflow_diagnostic_row list"
  issue_visits :: "issue_visit list"
  pull_request_wakes :: "pull_request_wake list"

subsection \<open>States as the SQL conditions read them\<close>

text \<open>\<open>is_active\<close> and \<open>is_terminal\<close> are \<^verbatim>\<open>isActive\<close> and \<^verbatim>\<open>isTerminal\<close> of state.go; the session
  predicates are the \<^verbatim>\<open>state IN (...)\<close> lists of the statements.\<close>

definition is_active :: "attempt_state \<Rightarrow> bool" where
  "is_active st \<longleftrightarrow> st = AttemptPreparing \<or> st = AttemptRunning"

definition is_terminal :: "attempt_state \<Rightarrow> bool" where
  "is_terminal st \<longleftrightarrow> st = AttemptSucceeded \<or> st = AttemptFailed \<or> st = AttemptCancelled \<or> st = AttemptLost"

definition session_executing :: "session_state \<Rightarrow> bool" where
  "session_executing st \<longleftrightarrow> st = SessionPreparing \<or> st = SessionRunning"

definition session_occupies_slot :: "session_state \<Rightarrow> bool" where
  "session_occupies_slot st \<longleftrightarrow> st = SessionQueued \<or> session_executing st"

definition session_nonterminal :: "session_state \<Rightarrow> bool" where
  "session_nonterminal st \<longleftrightarrow> st = SessionBlocked \<or> session_occupies_slot st \<or> st = SessionNeedsInput"

definition execution_executing :: "execution_state \<Rightarrow> bool" where
  "execution_executing st \<longleftrightarrow> st = ExecutionPreparing \<or> st = ExecutionRunning"

lemmas state_predicates =
  is_active_def is_terminal_def session_executing_def session_occupies_slot_def
  session_nonterminal_def execution_executing_def

lemma active_or_terminal: "is_active st \<noteq> is_terminal st"
  by (cases st) (simp_all add: state_predicates)

subsection \<open>Lookups\<close>

definition find_worker :: "db \<Rightarrow> ident \<Rightarrow> worker option" where
  "find_worker d i = find (\<lambda>w. wk_id w = i) (workers d)"

definition find_repository :: "db \<Rightarrow> ident \<Rightarrow> repository option" where
  "find_repository d i = find (\<lambda>r. rp_id r = i) (repositories d)"

definition find_run :: "db \<Rightarrow> ident \<Rightarrow> run option" where
  "find_run d i = find (\<lambda>r. run_id r = i) (runs d)"

definition find_session :: "db \<Rightarrow> ident \<Rightarrow> session option" where
  "find_session d i = find (\<lambda>s. ss_id s = i) (sessions d)"

definition find_execution :: "db \<Rightarrow> ident \<Rightarrow> execution option" where
  "find_execution d i = find (\<lambda>e. ex_id e = i) (executions d)"

definition session_execution_row :: "db \<Rightarrow> ident \<Rightarrow> execution option" where
  "session_execution_row d i = find (\<lambda>e. ex_session_id e = i) (executions d)"

definition find_attempt :: "db \<Rightarrow> ident \<Rightarrow> attempt option" where
  "find_attempt d i = find (\<lambda>a. at_id a = i) (attempts d)"

definition find_worker_repository :: "db \<Rightarrow> ident \<Rightarrow> ident \<Rightarrow> worker_repository option" where
  "find_worker_repository d w r =
     find (\<lambda>x. wr_worker_id x = w \<and> wr_repository_id x = r) (worker_repositories d)"

definition session_stage_rows :: "db \<Rightarrow> ident \<Rightarrow> session_stage list" where
  "session_stage_rows d i = sort_key sg_position (filter (\<lambda>g. sg_session_id g = i) (session_stages d))"

text \<open>\<^verbatim>\<open>(SELECT session_id FROM executions WHERE id = ?)\<close>: no session where there is no row.\<close>

definition execution_session :: "db \<Rightarrow> ident \<Rightarrow> ident option" where
  "execution_session d i = map_option ex_session_id (find_execution d i)"

definition attempt_execution :: "db \<Rightarrow> attempt \<Rightarrow> execution option" where
  "attempt_execution d a = find_execution d (at_execution_id a)"

definition attempt_session :: "db \<Rightarrow> attempt \<Rightarrow> session option" where
  "attempt_session d a =
     (case attempt_execution d a of None \<Rightarrow> None | Some e \<Rightarrow> find_session d (ex_session_id e))"

text \<open>\<^verbatim>\<open>json_extract(run.task_snapshot, '$.concurrency_limit')\<close>: the member is \<^verbatim>\<open>omitempty\<close>, so
  a zero limit reads as \<^verbatim>\<open>NULL\<close>, and no count is below \<^verbatim>\<open>NULL\<close>.\<close>

definition concurrency_limit :: "run \<Rightarrow> nat option" where
  "concurrency_limit r =
     (let n = ts_concurrency_limit (run_task_snapshot r) in if n = 0 then None else Some n)"

definition below_limit :: "nat \<Rightarrow> nat option \<Rightarrow> bool" where
  "below_limit n limit = (case limit of None \<Rightarrow> False | Some m \<Rightarrow> n < m)"

definition run_session_count :: "(session_state \<Rightarrow> bool) \<Rightarrow> db \<Rightarrow> ident \<Rightarrow> nat" where
  "run_session_count P d i = count_where (\<lambda>s. ss_run_id s = i \<and> P (ss_state s)) (sessions d)"

text \<open>\<^verbatim>\<open>scanAttempt\<close>: the reply a row of \<^verbatim>\<open>attempts\<close> is read as.\<close>

definition scan_attempt :: "attempt \<Rightarrow> attempt_view" where
  "scan_attempt a =
     \<lparr>av_id = at_id a, av_execution_id = at_execution_id a, av_worker_id = at_worker_id a,
      av_attempt_number = at_number a, av_state = at_state a,
      av_lease_expires_at = at_lease_expires_at a, av_supervisor_pid = at_supervisor_pid a,
      av_process_identity = coalesce (at_process_identity a) '''',
      av_process_group_id = at_process_group_id a, av_result = coalesce (at_result a) '''',
      av_error = coalesce (at_error a) '''', av_started_at = at_started_at a,
      av_completed_at = at_completed_at a, av_created_at = at_created_at a\<rparr>"

definition attempt_reply :: "db \<Rightarrow> ident \<Rightarrow> attempt_view result" where
  "attempt_reply d i =
     (case find_attempt d i of None \<Rightarrow> Inl err_not_found | Some a \<Rightarrow> Inr (scan_attempt a))"

end
