(* ===== verification/Store_Invariant.thy ===== *)
theory Store_Invariant
  imports Store_Schema
begin

text \<open>
  The well-formedness of the store that every operation keeps: unique keys, references that resolve,
  the agreement between the three levels of an execution (the Work's \<^verbatim>\<open>sessions\<close> row, its
  \<^verbatim>\<open>executions\<close> row, its active \<^verbatim>\<open>attempts\<close> row), the row constraints that the schema
  declares, and a Run's terminal time. The lemmas reduce an operation that rewrites rows in place to
  conditions on single rows.
\<close>

subsection \<open>The parts of the invariant\<close>

definition keys_ok :: "db \<Rightarrow> bool" where
  "keys_ok d \<longleftrightarrow>
     distinct (map run_id (runs d)) \<and> distinct (map ss_id (sessions d)) \<and>
     distinct (map ex_id (executions d)) \<and> distinct (map ex_session_id (executions d)) \<and>
     distinct (map at_id (attempts d)) \<and>
     distinct (map (\<lambda>a. (at_execution_id a, at_number a)) (attempts d)) \<and>
     distinct (map (\<lambda>g. (sg_session_id g, sg_position g)) (session_stages d))"

definition refs_ok :: "db \<Rightarrow> bool" where
  "refs_ok d \<longleftrightarrow>
     at_execution_id ` set (attempts d) \<subseteq> ex_id ` set (executions d) \<and>
     ex_session_id ` set (executions d) \<subseteq> ss_id ` set (sessions d) \<and>
     ss_run_id ` set (sessions d) \<subseteq> run_id ` set (runs d)"

fun execution_of_attempt :: "attempt_state \<Rightarrow> execution_state" where
  "execution_of_attempt AttemptPreparing = ExecutionPreparing"
| "execution_of_attempt AttemptRunning = ExecutionRunning"
| "execution_of_attempt AttemptSucceeded = ExecutionSucceeded"
| "execution_of_attempt AttemptFailed = ExecutionFailed"
| "execution_of_attempt AttemptCancelled = ExecutionCancelled"
| "execution_of_attempt AttemptLost = ExecutionFailed"

definition states_agree :: "execution_state \<Rightarrow> session_state \<Rightarrow> bool" where
  "states_agree es st \<longleftrightarrow>
     (es = ExecutionQueued \<longleftrightarrow> st = SessionQueued) \<and>
     (es = ExecutionPreparing \<longleftrightarrow> st = SessionPreparing) \<and>
     (es = ExecutionRunning \<longleftrightarrow> st = SessionRunning)"

definition lifecycle_ok :: "db \<Rightarrow> bool" where
  "lifecycle_ok d \<longleftrightarrow>
     (\<forall>a \<in> set (attempts d). \<forall>e \<in> set (executions d).
        ex_id e = at_execution_id a \<longrightarrow> is_active (at_state a) \<longrightarrow>
        ex_state e = execution_of_attempt (at_state a)) \<and>
     (\<forall>a \<in> set (attempts d). \<forall>b \<in> set (attempts d).
        at_execution_id a = at_execution_id b \<longrightarrow> is_active (at_state a) \<longrightarrow> is_active (at_state b) \<longrightarrow>
        at_id a = at_id b) \<and>
     (\<forall>e \<in> set (executions d). execution_executing (ex_state e) \<longrightarrow>
        (\<exists>a \<in> set (attempts d). at_execution_id a = ex_id e \<and> is_active (at_state a))) \<and>
     (\<forall>e \<in> set (executions d). \<forall>s \<in> set (sessions d).
        ss_id s = ex_session_id e \<longrightarrow> states_agree (ex_state e) (ss_state s)) \<and>
     (\<forall>s \<in> set (sessions d). session_occupies_slot (ss_state s) \<longrightarrow>
        (\<exists>e \<in> set (executions d). ex_session_id e = ss_id s))"

text \<open>The \<^verbatim>\<open>CHECK\<close> constraints of \<^verbatim>\<open>sessions\<close> (migration 31). No operation of the store gives
  Work to an operator, so the invariant also excludes that owner.\<close>

definition session_row_ok :: "session \<Rightarrow> bool" where
  "session_row_ok s \<longleftrightarrow>
     (if session_executing (ss_state s) then ss_execution_owner s = ExecutionOwnerWorkerAttempt
      else ss_execution_owner s = ExecutionOwnerNone) \<and>
     (ss_state s = SessionNeedsInput \<longrightarrow>
        ss_question s \<noteq> [] \<and> ss_checkpoint_sha s \<noteq> [] \<and> ss_pending_resume_sha s \<noteq> []) \<and>
     (ss_state s = SessionReady \<longrightarrow> ss_pull_request_url s \<noteq> []) \<and>
     (ss_state s \<in> {SessionReady, SessionSucceeded, SessionFailed, SessionNoChange, SessionCancelled} \<longrightarrow>
        ss_terminal_at s \<noteq> None)"

definition session_rows_ok :: "db \<Rightarrow> bool" where
  "session_rows_ok d \<longleftrightarrow> list_all session_row_ok (sessions d)"

definition run_finished :: "db \<Rightarrow> ident \<Rightarrow> bool" where
  "run_finished d i \<longleftrightarrow> run_session_count session_nonterminal d i = 0"

definition runs_ok :: "db \<Rightarrow> bool" where
  "runs_ok d \<longleftrightarrow> list_all (\<lambda>r. (run_terminal_at r \<noteq> None) = run_finished d (run_id r)) (runs d)"

lemma run_finished_iff:
  "run_finished d i \<longleftrightarrow> (\<forall>s \<in> set (sessions d). ss_run_id s = i \<longrightarrow> \<not> session_nonterminal (ss_state s))"
  by (auto simp: run_finished_def run_session_count_def count_where_eq_0)

lemma run_finished_map:
  assumes "sessions d' = map fs (sessions d)"
    and "\<And>s. s \<in> set (sessions d) \<Longrightarrow> ss_run_id (fs s) = ss_run_id s"
    and "\<And>s. s \<in> set (sessions d) \<Longrightarrow> session_nonterminal (ss_state (fs s)) = session_nonterminal (ss_state s)"
  shows "run_finished d' i = run_finished d i"
  using assms by (auto simp: run_finished_iff)

lemma execution_of_active:
  "is_active st \<Longrightarrow> execution_executing (execution_of_attempt st)"
  by (cases st) (simp_all add: state_predicates)

lemma states_agree_executing:
  "states_agree es st \<Longrightarrow> execution_executing es \<longleftrightarrow> session_executing st"
  by (auto simp: states_agree_def state_predicates)

subsection \<open>Lookups under the invariant\<close>

lemma find_run_in: "keys_ok d \<Longrightarrow> r \<in> set (runs d) \<Longrightarrow> find_run d (run_id r) = Some r"
  by (simp add: keys_ok_def find_run_def find_key)

lemma find_session_in: "keys_ok d \<Longrightarrow> s \<in> set (sessions d) \<Longrightarrow> find_session d (ss_id s) = Some s"
  by (simp add: keys_ok_def find_session_def find_key)

lemma find_execution_in: "keys_ok d \<Longrightarrow> e \<in> set (executions d) \<Longrightarrow> find_execution d (ex_id e) = Some e"
  by (simp add: keys_ok_def find_execution_def find_key)

lemma session_execution_row_in:
  "keys_ok d \<Longrightarrow> e \<in> set (executions d) \<Longrightarrow> session_execution_row d (ex_session_id e) = Some e"
  by (simp add: keys_ok_def session_execution_row_def find_key)

lemma find_attempt_in: "keys_ok d \<Longrightarrow> a \<in> set (attempts d) \<Longrightarrow> find_attempt d (at_id a) = Some a"
  by (simp add: keys_ok_def find_attempt_def find_key)

lemma find_run_Some: "find_run d i = Some r \<Longrightarrow> r \<in> set (runs d) \<and> run_id r = i"
  unfolding find_run_def by (drule find_Some_set) simp

lemma find_session_Some: "find_session d i = Some s \<Longrightarrow> s \<in> set (sessions d) \<and> ss_id s = i"
  unfolding find_session_def by (drule find_Some_set) simp

lemma find_execution_Some: "find_execution d i = Some e \<Longrightarrow> e \<in> set (executions d) \<and> ex_id e = i"
  unfolding find_execution_def by (drule find_Some_set) simp

lemma session_execution_row_Some:
  "session_execution_row d i = Some e \<Longrightarrow> e \<in> set (executions d) \<and> ex_session_id e = i"
  unfolding session_execution_row_def by (drule find_Some_set) simp

lemma session_execution_row_None:
  "session_execution_row d i = None \<longleftrightarrow> (\<forall>e \<in> set (executions d). ex_session_id e \<noteq> i)"
  by (simp add: session_execution_row_def find_None_set)

lemma find_attempt_Some: "find_attempt d i = Some a \<Longrightarrow> a \<in> set (attempts d) \<and> at_id a = i"
  unfolding find_attempt_def by (drule find_Some_set) simp

lemma find_attempt_None: "find_attempt d i = None \<longleftrightarrow> (\<forall>a \<in> set (attempts d). at_id a \<noteq> i)"
  by (simp add: find_attempt_def find_None_set)

lemma find_worker_Some: "find_worker d i = Some w \<Longrightarrow> w \<in> set (workers d) \<and> wk_id w = i"
  unfolding find_worker_def by (drule find_Some_set) simp

lemmas lookup_Some =
  find_run_Some find_session_Some find_execution_Some session_execution_row_Some find_attempt_Some
  find_worker_Some

lemma session_unique:
  "keys_ok d \<Longrightarrow> s \<in> set (sessions d) \<Longrightarrow> t \<in> set (sessions d) \<Longrightarrow> ss_id s = ss_id t \<Longrightarrow> s = t"
  unfolding keys_ok_def using key_unique [of ss_id "sessions d" s t] by blast

lemma execution_unique:
  "keys_ok d \<Longrightarrow> e \<in> set (executions d) \<Longrightarrow> f \<in> set (executions d) \<Longrightarrow> ex_id e = ex_id f \<Longrightarrow> e = f"
  unfolding keys_ok_def using key_unique [of ex_id "executions d" e f] by blast

lemma execution_session_unique:
  "keys_ok d \<Longrightarrow> e \<in> set (executions d) \<Longrightarrow> f \<in> set (executions d) \<Longrightarrow> ex_session_id e = ex_session_id f \<Longrightarrow> e = f"
  unfolding keys_ok_def using key_unique [of ex_session_id "executions d" e f] by blast

lemma attempt_unique:
  "keys_ok d \<Longrightarrow> a \<in> set (attempts d) \<Longrightarrow> b \<in> set (attempts d) \<Longrightarrow> at_id a = at_id b \<Longrightarrow> a = b"
  unfolding keys_ok_def using key_unique [of at_id "attempts d" a b] by blast

lemma run_unique:
  "keys_ok d \<Longrightarrow> r \<in> set (runs d) \<Longrightarrow> q \<in> set (runs d) \<Longrightarrow> run_id r = run_id q \<Longrightarrow> r = q"
  unfolding keys_ok_def using key_unique [of run_id "runs d" r q] by blast

lemma attempt_execution_exists:
  assumes "refs_ok d" "a \<in> set (attempts d)"
  obtains e where "e \<in> set (executions d)" "ex_id e = at_execution_id a"
proof -
  have "at_execution_id a \<in> ex_id ` set (executions d)"
    using assms by (auto simp: refs_ok_def)
  with that show ?thesis by force
qed

lemma execution_session_exists:
  assumes "refs_ok d" "e \<in> set (executions d)"
  obtains s where "s \<in> set (sessions d)" "ss_id s = ex_session_id e"
proof -
  have "ex_session_id e \<in> ss_id ` set (sessions d)"
    using assms by (auto simp: refs_ok_def)
  with that show ?thesis by force
qed

lemma session_run_exists:
  assumes "refs_ok d" "s \<in> set (sessions d)"
  obtains r where "r \<in> set (runs d)" "run_id r = ss_run_id s"
proof -
  have "ss_run_id s \<in> run_id ` set (runs d)"
    using assms by (auto simp: refs_ok_def)
  with that show ?thesis by force
qed

subsection \<open>Consequences of the lifecycle agreement\<close>

lemma lifecycle_attempt_execution:
  "lifecycle_ok d \<Longrightarrow> a \<in> set (attempts d) \<Longrightarrow> e \<in> set (executions d) \<Longrightarrow> ex_id e = at_execution_id a \<Longrightarrow>
   is_active (at_state a) \<Longrightarrow> ex_state e = execution_of_attempt (at_state a)"
  unfolding lifecycle_ok_def by blast

lemma lifecycle_one_active:
  "lifecycle_ok d \<Longrightarrow> a \<in> set (attempts d) \<Longrightarrow> b \<in> set (attempts d) \<Longrightarrow>
   at_execution_id a = at_execution_id b \<Longrightarrow> is_active (at_state a) \<Longrightarrow> is_active (at_state b) \<Longrightarrow> at_id a = at_id b"
  unfolding lifecycle_ok_def by blast

lemma lifecycle_executing_attempt:
  assumes "lifecycle_ok d" "e \<in> set (executions d)" "execution_executing (ex_state e)"
  obtains a where "a \<in> set (attempts d)" "at_execution_id a = ex_id e" "is_active (at_state a)"
  using assms unfolding lifecycle_ok_def by blast

lemma lifecycle_states_agree:
  "lifecycle_ok d \<Longrightarrow> e \<in> set (executions d) \<Longrightarrow> s \<in> set (sessions d) \<Longrightarrow> ss_id s = ex_session_id e \<Longrightarrow>
   states_agree (ex_state e) (ss_state s)"
  unfolding lifecycle_ok_def by blast

lemma lifecycle_slot_execution:
  assumes "lifecycle_ok d" "s \<in> set (sessions d)" "session_occupies_slot (ss_state s)"
  obtains e where "e \<in> set (executions d)" "ex_session_id e = ss_id s"
  using assms unfolding lifecycle_ok_def by blast

lemma lifecycle_inactive:
  "lifecycle_ok d \<Longrightarrow> a \<in> set (attempts d) \<Longrightarrow> e \<in> set (executions d) \<Longrightarrow> ex_id e = at_execution_id a \<Longrightarrow>
   \<not> execution_executing (ex_state e) \<Longrightarrow> \<not> is_active (at_state a)"
  using lifecycle_attempt_execution execution_of_active by metis

subsection \<open>Operations that rewrite rows in place\<close>

lemma keys_ok_map:
  assumes "keys_ok d"
    and "map run_id (runs d') = map run_id (runs d)"
    and "map ss_id (sessions d') = map ss_id (sessions d)"
    and "map ex_id (executions d') = map ex_id (executions d)"
    and "map ex_session_id (executions d') = map ex_session_id (executions d)"
    and "map at_id (attempts d') = map at_id (attempts d)"
    and "map (\<lambda>a. (at_execution_id a, at_number a)) (attempts d') =
         map (\<lambda>a. (at_execution_id a, at_number a)) (attempts d)"
    and "map (\<lambda>g. (sg_session_id g, sg_position g)) (session_stages d') =
         map (\<lambda>g. (sg_session_id g, sg_position g)) (session_stages d)"
  shows "keys_ok d'"
  using assms by (simp add: keys_ok_def)

lemma refs_ok_map:
  assumes "refs_ok d"
    and "map run_id (runs d') = map run_id (runs d)"
    and "map ss_id (sessions d') = map ss_id (sessions d)"
    and "map ss_run_id (sessions d') = map ss_run_id (sessions d)"
    and "map ex_id (executions d') = map ex_id (executions d)"
    and "map ex_session_id (executions d') = map ex_session_id (executions d)"
    and "map at_execution_id (attempts d') = map at_execution_id (attempts d)"
  shows "refs_ok d'"
  using assms unfolding refs_ok_def by (metis list.set_map)

lemma lifecycle_map:
  assumes ok: "lifecycle_ok d"
    and tables: "sessions d' = map fs (sessions d)" "executions d' = map fe (executions d)"
      "attempts d' = map fa (attempts d)"
    and keys: "\<And>s. s \<in> set (sessions d) \<Longrightarrow> ss_id (fs s) = ss_id s"
      "\<And>e. e \<in> set (executions d) \<Longrightarrow> ex_id (fe e) = ex_id e \<and> ex_session_id (fe e) = ex_session_id e"
      "\<And>a. a \<in> set (attempts d) \<Longrightarrow> at_id (fa a) = at_id a \<and> at_execution_id (fa a) = at_execution_id a"
    and att: "\<And>a e. a \<in> set (attempts d) \<Longrightarrow> e \<in> set (executions d) \<Longrightarrow> ex_id e = at_execution_id a \<Longrightarrow>
        is_active (at_state (fa a)) \<Longrightarrow>
        is_active (at_state a) \<and> ex_state (fe e) = execution_of_attempt (at_state (fa a))"
    and refs: "refs_ok d"
    and exe: "\<And>a e. a \<in> set (attempts d) \<Longrightarrow> e \<in> set (executions d) \<Longrightarrow> ex_id e = at_execution_id a \<Longrightarrow>
        is_active (at_state a) \<Longrightarrow> execution_executing (ex_state (fe e)) \<Longrightarrow> is_active (at_state (fa a))"
    and idle: "\<And>e. e \<in> set (executions d) \<Longrightarrow> execution_executing (ex_state (fe e)) \<Longrightarrow>
        execution_executing (ex_state e)"
    and agree: "\<And>e s. e \<in> set (executions d) \<Longrightarrow> s \<in> set (sessions d) \<Longrightarrow> ss_id s = ex_session_id e \<Longrightarrow>
        states_agree (ex_state (fe e)) (ss_state (fs s))"
    and slot: "\<And>s. s \<in> set (sessions d) \<Longrightarrow> session_occupies_slot (ss_state (fs s)) \<Longrightarrow>
        \<exists>e \<in> set (executions d). ex_session_id e = ss_id s"
  shows "lifecycle_ok d'"
  unfolding lifecycle_ok_def tables list.set_map ball_simps bex_simps
proof (intro conjI ballI impI)
  fix a e
  assume "a \<in> set (attempts d)" "e \<in> set (executions d)" "ex_id (fe e) = at_execution_id (fa a)" "is_active (at_state (fa a))"
  then show "ex_state (fe e) = execution_of_attempt (at_state (fa a))"
    using att keys(2,3) by metis
next
  fix a b
  assume ab: "a \<in> set (attempts d)" "b \<in> set (attempts d)" "at_execution_id (fa a) = at_execution_id (fa b)"
    "is_active (at_state (fa a))" "is_active (at_state (fa b))"
  then have same: "at_execution_id a = at_execution_id b" using keys(3) by metis
  obtain e where e: "e \<in> set (executions d)" "ex_id e = at_execution_id a"
    using attempt_execution_exists [OF refs ab(1)] by metis
  have "is_active (at_state a)" "is_active (at_state b)"
    using att [OF ab(1) e ab(4)] att [OF ab(2) e(1) _ ab(5)] e(2) same by auto
  then show "at_id (fa a) = at_id (fa b)"
    using lifecycle_one_active [OF ok ab(1,2) same] keys(3) ab(1,2) by metis
next
  fix e assume e: "e \<in> set (executions d)" "execution_executing (ex_state (fe e))"
  then obtain a where "a \<in> set (attempts d)" "at_execution_id a = ex_id e" "is_active (at_state a)"
    using lifecycle_executing_attempt [OF ok e(1)] idle by metis
  with e exe keys(2,3) show "\<exists>a \<in> set (attempts d). at_execution_id (fa a) = ex_id (fe e) \<and> is_active (at_state (fa a))"
    by metis
next
  fix e s
  assume "e \<in> set (executions d)" "s \<in> set (sessions d)" "ss_id (fs s) = ex_session_id (fe e)"
  then show "states_agree (ex_state (fe e)) (ss_state (fs s))"
    using agree keys(1,2) by metis
next
  fix s assume s: "s \<in> set (sessions d)" "session_occupies_slot (ss_state (fs s))"
  then obtain e where "e \<in> set (executions d)" "ex_session_id e = ss_id s"
    using slot by metis
  with s show "\<exists>e \<in> set (executions d). ex_session_id (fe e) = ss_id (fs s)"
    using keys(1,2) by metis
qed

lemma session_rows_ok_map:
  assumes "session_rows_ok d" "sessions d' = map fs (sessions d)"
    and "\<And>s. s \<in> set (sessions d) \<Longrightarrow> session_row_ok s \<Longrightarrow> session_row_ok (fs s)"
  shows "session_rows_ok d'"
  using assms by (auto simp: session_rows_ok_def list_all_iff)

lemma runs_ok_same_nonterminal:
  assumes "runs_ok d" "sessions d' = map fs (sessions d)"
    and "map (\<lambda>r. (run_id r, run_terminal_at r)) (runs d') = map (\<lambda>r. (run_id r, run_terminal_at r)) (runs d)"
    and "\<And>s. s \<in> set (sessions d) \<Longrightarrow> ss_run_id (fs s) = ss_run_id s \<and>
       session_nonterminal (ss_state (fs s)) = session_nonterminal (ss_state s)"
  shows "runs_ok d'"
proof -
  have "run_finished d' i = run_finished d i" for i
    using assms(2,4) by (auto simp: run_finished_iff)
  moreover have "list_all (\<lambda>p. (snd p \<noteq> None) = run_finished d (fst p))
      (map (\<lambda>r. (run_id r, run_terminal_at r)) (runs d'))"
    using assms(1) by (simp only: assms(3)) (simp add: runs_ok_def list.pred_map comp_def)
  ultimately show ?thesis by (simp add: runs_ok_def list.pred_map comp_def)
qed

subsection \<open>The invariant\<close>

definition core_ok :: "db \<Rightarrow> bool" where
  "core_ok d \<longleftrightarrow> keys_ok d \<and> refs_ok d \<and> lifecycle_ok d \<and> session_rows_ok d"

definition store_ok :: "db \<Rightarrow> bool" where
  "store_ok d \<longleftrightarrow> core_ok d \<and> runs_ok d"

lemma core_okD:
  assumes "core_ok d"
  shows "keys_ok d" "refs_ok d" "lifecycle_ok d" "session_rows_ok d"
  using assms by (simp_all add: core_ok_def)

lemma store_okD:
  assumes "store_ok d"
  shows "keys_ok d" "refs_ok d" "lifecycle_ok d" "session_rows_ok d" "runs_ok d" "core_ok d"
  using assms by (simp_all add: store_ok_def core_ok_def)

lemma core_ok_session: "core_ok d \<Longrightarrow> s \<in> set (sessions d) \<Longrightarrow> session_row_ok s"
  by (auto simp: core_ok_def session_rows_ok_def list_all_iff)

text \<open>An operation that rewrites rows of the lifecycle tables in place.\<close>

definition same_keys :: "db \<Rightarrow> db \<Rightarrow> bool" where
  "same_keys d d' \<longleftrightarrow>
     map run_id (runs d') = map run_id (runs d) \<and>
     map (\<lambda>s. (ss_id s, ss_run_id s)) (sessions d') = map (\<lambda>s. (ss_id s, ss_run_id s)) (sessions d) \<and>
     map (\<lambda>e. (ex_id e, ex_session_id e)) (executions d') = map (\<lambda>e. (ex_id e, ex_session_id e)) (executions d) \<and>
     map (\<lambda>a. (at_id a, at_execution_id a, at_number a)) (attempts d') =
       map (\<lambda>a. (at_id a, at_execution_id a, at_number a)) (attempts d) \<and>
     map (\<lambda>g. (sg_session_id g, sg_position g)) (session_stages d') =
       map (\<lambda>g. (sg_session_id g, sg_position g)) (session_stages d)"

lemma same_keysD:
  assumes "same_keys d d'"
  shows "map run_id (runs d') = map run_id (runs d)"
    and "map ss_id (sessions d') = map ss_id (sessions d)"
    and "map ss_run_id (sessions d') = map ss_run_id (sessions d)"
    and "map ex_id (executions d') = map ex_id (executions d)"
    and "map ex_session_id (executions d') = map ex_session_id (executions d)"
    and "map at_id (attempts d') = map at_id (attempts d)"
    and "map at_execution_id (attempts d') = map at_execution_id (attempts d)"
    and "map (\<lambda>a. (at_execution_id a, at_number a)) (attempts d') =
         map (\<lambda>a. (at_execution_id a, at_number a)) (attempts d)"
    and "map (\<lambda>g. (sg_session_id g, sg_position g)) (session_stages d') =
         map (\<lambda>g. (sg_session_id g, sg_position g)) (session_stages d)"
proof -
  note k = assms [unfolded same_keys_def]
  show "map run_id (runs d') = map run_id (runs d)" using k by simp
  show "map ss_id (sessions d') = map ss_id (sessions d)"
    by (rule map_eq_weaken [OF k [THEN conjunct2, THEN conjunct1], where h = fst]) simp
  show "map ss_run_id (sessions d') = map ss_run_id (sessions d)"
    by (rule map_eq_weaken [OF k [THEN conjunct2, THEN conjunct1], where h = snd]) simp
  show "map ex_id (executions d') = map ex_id (executions d)"
    by (rule map_eq_weaken [OF k [THEN conjunct2, THEN conjunct2, THEN conjunct1], where h = fst]) simp
  show "map ex_session_id (executions d') = map ex_session_id (executions d)"
    by (rule map_eq_weaken [OF k [THEN conjunct2, THEN conjunct2, THEN conjunct1], where h = snd]) simp
  note ka = k [THEN conjunct2, THEN conjunct2, THEN conjunct2, THEN conjunct1]
  show "map at_id (attempts d') = map at_id (attempts d)" by (rule map_eq_weaken [OF ka, where h = fst]) simp
  show "map at_execution_id (attempts d') = map at_execution_id (attempts d)"
    by (rule map_eq_weaken [OF ka, where h = "fst \<circ> snd"]) simp
  show "map (\<lambda>a. (at_execution_id a, at_number a)) (attempts d') =
      map (\<lambda>a. (at_execution_id a, at_number a)) (attempts d)"
    by (rule map_eq_weaken [OF ka, where h = snd]) simp
  show "map (\<lambda>g. (sg_session_id g, sg_position g)) (session_stages d') =
      map (\<lambda>g. (sg_session_id g, sg_position g)) (session_stages d)" using k by simp
qed

lemma same_keys_ok:
  assumes "same_keys d d'" "keys_ok d" "refs_ok d"
  shows "keys_ok d'" "refs_ok d'"
  using keys_ok_map [OF assms(2) same_keysD(1,2,4,5,6,8,9) [OF assms(1)]]
    refs_ok_map [OF assms(3) same_keysD(1,2,3,4,5,7) [OF assms(1)]] by auto

lemma same_keys_refl [simp]: "same_keys d d"
  by (simp add: same_keys_def)

lemma same_keys_trans: "same_keys d d' \<Longrightarrow> same_keys d' d'' \<Longrightarrow> same_keys d d''"
  unfolding same_keys_def by (elim conjE, intro conjI) (erule trans, assumption)+

lemma core_ok_map:
  assumes ok: "core_ok d" and keys: "same_keys d d'"
    and tables: "in_place fs (sessions d) (sessions d')" "in_place fe (executions d) (executions d')"
      "in_place fa (attempts d) (attempts d')"
    and att: "\<And>a e. a \<in> set (attempts d) \<Longrightarrow> e \<in> set (executions d) \<Longrightarrow> ex_id e = at_execution_id a \<Longrightarrow>
        is_active (at_state (fa a)) \<Longrightarrow>
        is_active (at_state a) \<and> ex_state (fe e) = execution_of_attempt (at_state (fa a))"
    and exe: "\<And>a e. a \<in> set (attempts d) \<Longrightarrow> e \<in> set (executions d) \<Longrightarrow> ex_id e = at_execution_id a \<Longrightarrow>
        is_active (at_state a) \<Longrightarrow> execution_executing (ex_state (fe e)) \<Longrightarrow> is_active (at_state (fa a))"
    and idle: "\<And>e. e \<in> set (executions d) \<Longrightarrow> execution_executing (ex_state (fe e)) \<Longrightarrow>
        execution_executing (ex_state e)"
    and agree: "\<And>e s. e \<in> set (executions d) \<Longrightarrow> s \<in> set (sessions d) \<Longrightarrow> ss_id s = ex_session_id e \<Longrightarrow>
        states_agree (ex_state (fe e)) (ss_state (fs s))"
    and slot: "\<And>s. s \<in> set (sessions d) \<Longrightarrow> session_occupies_slot (ss_state (fs s)) \<Longrightarrow>
        \<exists>e \<in> set (executions d). ex_session_id e = ss_id s"
    and row: "\<And>s. s \<in> set (sessions d) \<Longrightarrow> session_row_ok s \<Longrightarrow> session_row_ok (fs s)"
  shows "core_ok d'"
  unfolding core_ok_def
proof (intro conjI)
  note ok' = core_okD [OF ok] and maps = tables [unfolded in_place_def]
  have same: "f (g x) = f x" if "map f (map g xs) = map f xs" "x \<in> set xs"
    for f :: "'a \<Rightarrow> 'b" and g xs x
    using that by simp
  show "keys_ok d'" "refs_ok d'" using same_keys_ok [OF keys ok'(1,2)] by auto
  show "session_rows_ok d'" by (rule session_rows_ok_map [OF ok'(4) maps(1) row])
  show "lifecycle_ok d'"
  proof (rule lifecycle_map [OF ok'(3) maps _ _ _ att ok'(2) exe idle agree slot])
    show "ss_id (fs s) = ss_id s" if "s \<in> set (sessions d)" for s
      by (rule same [OF _ that]) (use same_keysD(2) [OF keys] maps in simp)
    show "ex_id (fe e) = ex_id e \<and> ex_session_id (fe e) = ex_session_id e" if "e \<in> set (executions d)" for e
      by (intro conjI; rule same [OF _ that]) (use same_keysD(4,5) [OF keys] maps in simp_all)
    show "at_id (fa a) = at_id a \<and> at_execution_id (fa a) = at_execution_id a" if "a \<in> set (attempts d)" for a
      by (intro conjI; rule same [OF _ that]) (use same_keysD(6,7) [OF keys] maps in simp_all)
  qed
qed

text \<open>An operation that moves one execution whose attempt \<open>a\<close> is active.\<close>

lemma core_ok_active:
  assumes ok: "core_ok d" and keys: "same_keys d d'"
    and tables: "in_place fs (sessions d) (sessions d')" "in_place fe (executions d) (executions d')"
      "in_place fa (attempts d) (attempts d')"
    and rows: "a \<in> set (attempts d)" "e \<in> set (executions d)" "ex_id e = at_execution_id a"
      "s \<in> set (sessions d)" "ss_id s = ex_session_id e" "is_active (at_state a)"
    and others: "\<And>x. x \<in> set (attempts d) \<Longrightarrow> x \<noteq> a \<Longrightarrow> at_state (fa x) = at_state x"
      "\<And>x. x \<in> set (executions d) \<Longrightarrow> x \<noteq> e \<Longrightarrow> ex_state (fe x) = ex_state x"
      "\<And>x. x \<in> set (sessions d) \<Longrightarrow> x \<noteq> s \<Longrightarrow> fs x = x"
    and new: "is_active (at_state (fa a)) = execution_executing (ex_state (fe e))"
      "is_active (at_state (fa a)) \<Longrightarrow> ex_state (fe e) = execution_of_attempt (at_state (fa a))"
      "states_agree (ex_state (fe e)) (ss_state (fs s))" "session_row_ok (fs s)"
  shows "core_ok d'"
proof (rule core_ok_map [OF ok keys tables])
  note ok' = core_okD [OF ok]
  have executing: "execution_executing (ex_state e)"
    using lifecycle_attempt_execution [OF ok'(3) rows(1,2,3,6)] execution_of_active [OF rows(6)] by simp
  have only: "x = a" if "x \<in> set (attempts d)" "at_execution_id x = at_execution_id a" "is_active (at_state x)" for x
    using attempt_unique [OF ok'(1) that(1) rows(1)] lifecycle_one_active [OF ok'(3) that(1) rows(1) that(2,3) rows(6)]
    by simp
  have linked: "x = s \<longleftrightarrow> f = e" if "f \<in> set (executions d)" "x \<in> set (sessions d)" "ss_id x = ex_session_id f" for f x
    using that rows session_unique [OF ok'(1)] execution_session_unique [OF ok'(1)] by metis
  show "is_active (at_state x) \<and> ex_state (fe f) = execution_of_attempt (at_state (fa x))"
    if "x \<in> set (attempts d)" "f \<in> set (executions d)" "ex_id f = at_execution_id x" "is_active (at_state (fa x))" for x f
  proof (cases "x = a")
    case True
    then have "f = e" using execution_unique [OF ok'(1) that(2) rows(2)] that(3) rows(3) by simp
    with True that new(2) rows(6) show ?thesis by simp
  next
    case False
    then have act: "is_active (at_state x)" using others(1) that by simp
    moreover have "f \<noteq> e" using only [OF that(1) _ act] False that(3) rows(3) by auto
    ultimately show ?thesis
      using others(1) [OF that(1) False] others(2) [OF that(2)] lifecycle_attempt_execution [OF ok'(3) that(1,2,3) act] by simp
  qed
  show "is_active (at_state (fa x))"
    if "x \<in> set (attempts d)" "f \<in> set (executions d)" "ex_id f = at_execution_id x" "is_active (at_state x)"
      "execution_executing (ex_state (fe f))" for x f
  proof (cases "x = a")
    case True
    then have "f = e" using execution_unique [OF ok'(1) that(2) rows(2)] that(3) rows(3) by simp
    with True that new(1) show ?thesis by simp
  qed (use others(1) that in simp)
  show "execution_executing (ex_state f)" if "f \<in> set (executions d)" "execution_executing (ex_state (fe f))" for f
    using others(2) that executing by (cases "f = e") auto
  show "states_agree (ex_state (fe f)) (ss_state (fs x))"
    if "f \<in> set (executions d)" "x \<in> set (sessions d)" "ss_id x = ex_session_id f" for f x
    using linked [OF that] others(2) [OF that(1)] others(3) [OF that(2)] new(3) lifecycle_states_agree [OF ok'(3) that]
    by (cases "f = e") auto
  show "\<exists>f \<in> set (executions d). ex_session_id f = ss_id x"
    if "x \<in> set (sessions d)" "session_occupies_slot (ss_state (fs x))" for x
  proof (cases "x = s")
    case True
    with rows(2,5) show ?thesis by metis
  next
    case False
    with lifecycle_slot_execution [OF ok'(3) that(1)] others(3) [OF that(1)] that(2) show ?thesis by metis
  qed
  show "session_row_ok (fs x)" if "x \<in> set (sessions d)" "session_row_ok x" for x
    using others(3) [OF that(1)] that(2) new(4) by (cases "x = s") auto
qed

text \<open>An operation that moves one execution without an active attempt.\<close>

lemma core_ok_idle:
  assumes ok: "core_ok d" and keys: "same_keys d d'"
    and tables: "in_place fs (sessions d) (sessions d')" "in_place fe (executions d) (executions d')"
      "in_place fa (attempts d) (attempts d')"
    and rows: "e \<in> set (executions d)" "s \<in> set (sessions d)" "ss_id s = ex_session_id e"
      "\<not> execution_executing (ex_state e)"
    and others: "\<And>x. x \<in> set (attempts d) \<Longrightarrow> at_state (fa x) = at_state x"
      "\<And>x. x \<in> set (executions d) \<Longrightarrow> x \<noteq> e \<Longrightarrow> ex_state (fe x) = ex_state x"
      "\<And>x. x \<in> set (sessions d) \<Longrightarrow> x \<noteq> s \<Longrightarrow> fs x = x"
    and new: "\<not> execution_executing (ex_state (fe e))"
      "states_agree (ex_state (fe e)) (ss_state (fs s))" "session_row_ok (fs s)"
  shows "core_ok d'"
proof (rule core_ok_map [OF ok keys tables])
  note ok' = core_okD [OF ok]
  have linked: "x = s \<longleftrightarrow> f = e" if "f \<in> set (executions d)" "x \<in> set (sessions d)" "ss_id x = ex_session_id f" for f x
    using that rows session_unique [OF ok'(1)] execution_session_unique [OF ok'(1)] by metis
  have inactive: "f \<noteq> e" if "x \<in> set (attempts d)" "f \<in> set (executions d)" "ex_id f = at_execution_id x" "is_active (at_state x)" for x f
    using lifecycle_inactive [OF ok'(3) that(1) rows(1)] that rows(4) by auto
  show "is_active (at_state x) \<and> ex_state (fe f) = execution_of_attempt (at_state (fa x))"
    if "x \<in> set (attempts d)" "f \<in> set (executions d)" "ex_id f = at_execution_id x" "is_active (at_state (fa x))" for x f
    using that others(1,2) inactive [OF that(1,2,3)] lifecycle_attempt_execution [OF ok'(3) that(1,2,3)] by simp
  show "is_active (at_state (fa x))"
    if "x \<in> set (attempts d)" "f \<in> set (executions d)" "ex_id f = at_execution_id x" "is_active (at_state x)"
      "execution_executing (ex_state (fe f))" for x f
    using that others(1) by simp
  show "execution_executing (ex_state f)" if "f \<in> set (executions d)" "execution_executing (ex_state (fe f))" for f
    using others(2) that new(1) by (cases "f = e") auto
  show "states_agree (ex_state (fe f)) (ss_state (fs x))"
    if "f \<in> set (executions d)" "x \<in> set (sessions d)" "ss_id x = ex_session_id f" for f x
    using linked [OF that] others(2) [OF that(1)] others(3) [OF that(2)] new(2) lifecycle_states_agree [OF ok'(3) that]
    by (cases "f = e") auto
  show "\<exists>f \<in> set (executions d). ex_session_id f = ss_id x"
    if "x \<in> set (sessions d)" "session_occupies_slot (ss_state (fs x))" for x
  proof (cases "x = s")
    case True
    with rows(1,3) show ?thesis by metis
  next
    case False
    with lifecycle_slot_execution [OF ok'(3) that(1)] others(3) [OF that(1)] that(2) show ?thesis by metis
  qed
  show "session_row_ok (fs x)" if "x \<in> set (sessions d)" "session_row_ok x" for x
    using others(3) [OF that(1)] that(2) new(3) by (cases "x = s") auto
qed

text \<open>An operation that changes no state of an execution or attempt, and no Work row out of shape.\<close>

lemma core_ok_same_states:
  assumes ok: "core_ok d" and keys: "same_keys d d'"
    and tables: "in_place fs (sessions d) (sessions d')" "in_place fe (executions d) (executions d')"
      "in_place fa (attempts d) (attempts d')"
    and same: "\<And>x. x \<in> set (attempts d) \<Longrightarrow> at_state (fa x) = at_state x"
      "\<And>x. x \<in> set (executions d) \<Longrightarrow> ex_state (fe x) = ex_state x"
      "\<And>x. x \<in> set (sessions d) \<Longrightarrow> ss_state (fs x) = ss_state x"
      "\<And>x. x \<in> set (sessions d) \<Longrightarrow> session_row_ok x \<Longrightarrow> session_row_ok (fs x)"
  shows "core_ok d'"
proof (rule core_ok_map [OF ok keys tables])
  note ok' = core_okD [OF ok]
  show "is_active (at_state x) \<and> ex_state (fe f) = execution_of_attempt (at_state (fa x))"
    if "x \<in> set (attempts d)" "f \<in> set (executions d)" "ex_id f = at_execution_id x" "is_active (at_state (fa x))" for x f
    using that same lifecycle_attempt_execution [OF ok'(3) that(1,2,3)] by simp
  show "\<exists>f \<in> set (executions d). ex_session_id f = ss_id x"
    if "x \<in> set (sessions d)" "session_occupies_slot (ss_state (fs x))" for x
    using lifecycle_slot_execution [OF ok'(3) that(1)] same(3) [OF that(1)] that(2) by metis
qed (use same lifecycle_states_agree [OF core_okD(3) [OF ok]] in simp_all)

text \<open>The terminal time of the Runs, when the Work of one Run changed and its row was refreshed.\<close>

lemma runs_ok_refresh:
  assumes ok: "runs_ok d" and tables: "in_place fs (sessions d) (sessions d')"
    and runs: "runs d' = update_where (\<lambda>r. run_id r = i)
        (\<lambda>r. r\<lparr>run_updated_at := now, run_terminal_at := (if run_finished d' i then Some now else None)\<rparr>) (runs d)"
    and others: "\<And>s. s \<in> set (sessions d) \<Longrightarrow> ss_run_id (fs s) = ss_run_id s"
      "\<And>s. s \<in> set (sessions d) \<Longrightarrow> ss_run_id s \<noteq> i \<Longrightarrow>
        session_nonterminal (ss_state (fs s)) = session_nonterminal (ss_state s)"
  shows "runs_ok d'"
proof -
  have "run_finished d' j = run_finished d j" if "j \<noteq> i" for j
    using tables others that by (auto simp: run_finished_iff in_place_def)
  then show ?thesis
    using ok by (auto simp: runs_ok_def list_all_iff runs set_update_where)
qed

text \<open>An operation on the other tables.\<close>

lemma store_ok_frame:
  assumes "store_ok d" "runs d' = runs d" "sessions d' = sessions d" "executions d' = executions d"
    "attempts d' = attempts d"
    "map (\<lambda>g. (sg_session_id g, sg_position g)) (session_stages d') =
     map (\<lambda>g. (sg_session_id g, sg_position g)) (session_stages d)"
  shows "store_ok d'"
  using assms(1)
  unfolding store_ok_def core_ok_def keys_ok_def refs_ok_def lifecycle_ok_def session_rows_ok_def
    runs_ok_def run_finished_def run_session_count_def assms(2-6) .

end
