(* ===== verification/Identity.thy ===== *)
theory Identity
  imports Protocol
begin

text \<open>
  The validators and canonical forms of names that requests carry: lease tokens, UUIDs, commit SHAs,
  GitHub remotes and source access entries (store.go, work.go). A range over the runes of a string
  accepts only ASCII runes here, and a rune is ASCII exactly when it is one byte below 128, so the
  loops are written over bytes.
\<close>

definition ascii_lower :: "char \<Rightarrow> char" where
  "ascii_lower c = (if in_range 65 90 c then char_of (byte c + 32) else c)"

definition to_lower_ascii :: "string \<Rightarrow> string" where
  "to_lower_ascii = map ascii_lower"

definition is_lower :: "char \<Rightarrow> bool" where "is_lower c \<longleftrightarrow> in_range 97 122 c"
definition is_upper :: "char \<Rightarrow> bool" where "is_upper c \<longleftrightarrow> in_range 65 90 c"
definition is_decimal :: "char \<Rightarrow> bool" where "is_decimal c \<longleftrightarrow> in_range 48 57 c"
definition is_lower_hex :: "char \<Rightarrow> bool" where "is_lower_hex c \<longleftrightarrow> is_decimal c \<or> in_range 97 102 c"

definition validate_token :: "string \<Rightarrow> unit result" where
  "validate_token token =
     (if length token < 32 \<or> length token > 1024
      then Inl (invalid ''invalid_lease_token'' ''lease_token must contain at least 32 bytes'')
      else Inr ())"

definition valid_uuid :: "string \<Rightarrow> bool" where
  "valid_uuid value \<longleftrightarrow> length value = 36 \<and>
     list_all (\<lambda>(index, c). if index \<in> {8, 13, 18, 23} then c = CHR ''-'' else is_lower_hex c)
       (enumerate 0 value)"

definition valid_commit_sha :: "string \<Rightarrow> bool" where
  "valid_commit_sha value \<longleftrightarrow>
     (length value = 40 \<or> length value = 64) \<and> list_all is_lower_hex value"

lemma valid_commit_sha_nonempty: "valid_commit_sha value \<Longrightarrow> value \<noteq> []"
  by (auto simp: valid_commit_sha_def)

lemma valid_commit_sha_length: "valid_commit_sha value \<Longrightarrow> length value \<le> 64"
  by (auto simp: valid_commit_sha_def)

subsection \<open>Repository remotes\<close>

fun split_on :: "char \<Rightarrow> string \<Rightarrow> string list" where
  "split_on c [] = [[]]"
| "split_on c (x # xs) =
     (if x = c then [] # split_on c xs
      else (case split_on c xs of [] \<Rightarrow> [[x]] | p # ps \<Rightarrow> (x # p) # ps))"

fun join_with :: "char \<Rightarrow> string list \<Rightarrow> string" where
  "join_with c [] = []"
| "join_with c [p] = p"
| "join_with c (p # q # ps) = p @ c # join_with c (q # ps)"

definition trim_suffix :: "string \<Rightarrow> string \<Rightarrow> string" where
  "trim_suffix value suf = (if suffix suf value then take (length value - length suf) value else value)"

definition normalize_remote :: "string \<Rightarrow> string" where
  "normalize_remote value = trim_space value"

definition valid_github_owner :: "string \<Rightarrow> bool" where
  "valid_github_owner value \<longleftrightarrow>
     1 \<le> length value \<and> length value \<le> 39 \<and> hd value \<noteq> CHR ''-'' \<and> last value \<noteq> CHR ''-'' \<and>
     \<not> sublist ''--'' value \<and>
     list_all (\<lambda>c. is_lower c \<or> is_upper c \<or> is_decimal c \<or> c = CHR ''-'') value"

definition valid_github_repository :: "string \<Rightarrow> bool" where
  "valid_github_repository value \<longleftrightarrow>
     1 \<le> length value \<and> length value \<le> 100 \<and> value \<noteq> ''.'' \<and> value \<noteq> ''..'' \<and>
     list_all (\<lambda>c. is_lower c \<or> is_upper c \<or> is_decimal c \<or> c \<in> set ''-_.'') value"

definition normalize_managed_github_remote :: "string \<Rightarrow> string result" where
  "normalize_managed_github_remote value =
     (let parts = split_on (CHR ''/'') (trim_suffix (trim_space value) ''.git'') in
      if length parts \<noteq> 3 \<or> to_lower_ascii (parts ! 0) \<noteq> ''github.com'' \<or>
         \<not> valid_github_owner (parts ! 1) \<or> \<not> valid_github_repository (parts ! 2)
      then Inl (invalid ''invalid_repository''
                  ''remote_identity must use the canonical github.com/owner/repository form'')
      else Inr (to_lower_ascii (join_with (CHR ''/'') parts)))"

definition is_managed_github_remote :: "string \<Rightarrow> bool" where
  "is_managed_github_remote remote_identity \<longleftrightarrow>
     (case normalize_managed_github_remote remote_identity of Inl _ \<Rightarrow> False | Inr _ \<Rightarrow> True)"

definition normalize_registered_remote :: "string \<Rightarrow> string" where
  "normalize_registered_remote value =
     (let value = normalize_remote value; parts = split_on (CHR ''/'') value in
      if length parts = 3 \<and> to_lower_ascii (parts ! 0) = ''github.com'' then
        (case normalize_managed_github_remote value of Inr canonical \<Rightarrow> canonical | Inl _ \<Rightarrow> value)
      else value)"

subsection \<open>Source access\<close>

text \<open>
  \<^verbatim>\<open>strings.ToLower\<close> as far as \<^verbatim>\<open>validHostname\<close> can tell: ASCII letters, and the two other runes
  whose lower case is ASCII (the Kelvin sign and the dotted capital I). Every other rune stays outside
  ASCII, which the validator refuses whatever the rune is.
\<close>

definition lower_chunk :: "string \<Rightarrow> string" where
  "lower_chunk q =
     (if q = chars_of [226, 132, 170] then ''k''
      else if q = chars_of [196, 176] then ''i''
      else map ascii_lower q)"

definition to_lower_hostname :: "string \<Rightarrow> string" where
  "to_lower_hostname s = concat (map lower_chunk (utf8_chunks s))"

definition valid_provider :: "string \<Rightarrow> bool" where
  "valid_provider value \<longleftrightarrow>
     1 \<le> length value \<and> length value \<le> 50 \<and> is_lower (hd value) \<and>
     list_all (\<lambda>c. is_lower c \<or> is_decimal c \<or> c = CHR ''-'') (tl value)"

definition valid_hostname :: "string \<Rightarrow> bool" where
  "valid_hostname value \<longleftrightarrow>
     1 \<le> length value \<and> length value \<le> 253 \<and> \<not> list_ex (\<lambda>c. c \<in> set '' /:@'') value \<and>
     list_all (\<lambda>c. is_lower c \<or> is_decimal c \<or> c = CHR ''-'' \<or> c = CHR ''.'') value"

fun normalize_source_access_from ::
    "source_access list \<Rightarrow> source_access list \<Rightarrow> source_access list result" where
  "normalize_source_access_from seen [] = Inr []"
| "normalize_source_access_from seen (item # entries) =
     (let entry = \<lparr>sa_provider = trim_space (sa_provider item),
                   sa_hostname = to_lower_hostname (trim_space (sa_hostname item))\<rparr> in
      if \<not> valid_provider (sa_provider entry) \<or> \<not> valid_hostname (sa_hostname entry)
      then Inl (invalid ''invalid_source_access''
             ''source access provider and hostname must be lowercase bounded identifiers'')
      else if entry \<in> set seen
      then Inl (invalid ''invalid_source_access'' ''source access entries must be unique'')
      else and_then (normalize_source_access_from (entry # seen) entries) (\<lambda>rest. Inr (entry # rest)))"

definition normalize_source_access :: "source_access list \<Rightarrow> source_access list result" where
  "normalize_source_access entries =
     (if length entries > 10
      then Inl (invalid ''invalid_source_access'' ''a worker may advertise at most 10 source access entries'')
      else normalize_source_access_from [] entries)"

lemma normalize_source_access_from_result:
  "normalize_source_access_from seen entries = Inr result \<Longrightarrow>
   length result = length entries \<and> distinct result \<and> set result \<inter> set seen = {} \<and>
   (\<forall>entry \<in> set result. valid_provider (sa_provider entry) \<and> valid_hostname (sa_hostname entry))"
proof (induction seen entries arbitrary: result rule: normalize_source_access_from.induct)
  case (2 seen v vs)
  then show ?case by (fastforce simp: Let_def and_then_Inr split: if_splits)
qed simp

lemma to_lower_ascii_idem: "to_lower_ascii (to_lower_ascii s) = to_lower_ascii s"
  by (auto simp: to_lower_ascii_def ascii_lower_def in_range_def byte_def)

end
