(* ===== verification/Leases.thy ===== *)
theory Leases
  imports Store_Invariant Identity
begin

text \<open>
  Leases of Attempts (state.go): \<^verbatim>\<open>loadLease\<close>, \<^verbatim>\<open>verifyActiveLease\<close>, \<^verbatim>\<open>StartAttempt\<close>
  and \<^verbatim>\<open>Heartbeat\<close>. Every Worker-facing mutation goes through the first two, so the locale
  \<open>lease_guarded\<close> states once what a guarded operation may rely on and each operation interprets it.
\<close>

subsection \<open>Loading and verifying a lease\<close>

record lease_state =
  ls_attempt_state :: attempt_state
  ls_execution_id :: ident
  ls_execution_state :: execution_state
  ls_outcome_contract :: outcome_contract
  ls_digest :: digest
  ls_expiry :: millis
  ls_cancel :: bool

definition load_lease :: "db \<Rightarrow> ident \<Rightarrow> lease_state result" where
  "load_lease d attempt_id =
     (case find_attempt d attempt_id of None \<Rightarrow> Inl err_not_found | Some a \<Rightarrow>
      (case find_execution d (at_execution_id a) of None \<Rightarrow> Inl err_not_found | Some e \<Rightarrow>
      (case find_session d (ex_session_id e) of None \<Rightarrow> Inl err_not_found | Some s \<Rightarrow>
      (case find_run d (ss_run_id s) of None \<Rightarrow> Inl err_not_found | Some r \<Rightarrow>
        Inr \<lparr>ls_attempt_state = at_state a, ls_execution_id = at_execution_id a,
             ls_execution_state = ex_state e, ls_outcome_contract = run_outcome_contract r,
             ls_digest = at_lease_digest a, ls_expiry = at_lease_expires_at a,
             ls_cancel = ex_cancellation_requested e\<rparr>))))"

definition lease_not_owner :: service_error where
  "lease_not_owner = conflict ''lease_not_owner'' ''the lease token does not own an active attempt''"

definition verify_active_lease :: "lease_state \<Rightarrow> string \<Rightarrow> millis \<Rightarrow> unit result" where
  "verify_active_lease lease token now =
     and_then (validate_token token) (\<lambda>_.
       if \<not> equal_digest (ls_digest lease) (digest_token token) \<or>
          \<not> is_active (ls_attempt_state lease) \<or> ls_expiry lease \<le> now
       then Inl lease_not_owner
       else Inr ())"

text \<open>The attempt that a token owns at an instant: what a guarded operation has established.\<close>

definition owns_lease :: "db \<Rightarrow> millis \<Rightarrow> ident \<Rightarrow> string \<Rightarrow> bool" where
  "owns_lease d now attempt_id token \<longleftrightarrow>
     (\<exists>a \<in> set (attempts d). at_id a = attempt_id \<and> is_active (at_state a) \<and>
        at_lease_digest a = digest_token token \<and> now < at_lease_expires_at a)"

definition lease_of :: "run \<Rightarrow> execution \<Rightarrow> attempt \<Rightarrow> lease_state" where
  "lease_of r e a =
     \<lparr>ls_attempt_state = at_state a, ls_execution_id = at_execution_id a,
      ls_execution_state = ex_state e, ls_outcome_contract = run_outcome_contract r,
      ls_digest = at_lease_digest a, ls_expiry = at_lease_expires_at a,
      ls_cancel = ex_cancellation_requested e\<rparr>"

lemma load_lease_Inr:
  "load_lease d i = Inr lease \<longleftrightarrow>
   (\<exists>a e s r. find_attempt d i = Some a \<and> find_execution d (at_execution_id a) = Some e \<and>
      find_session d (ex_session_id e) = Some s \<and> find_run d (ss_run_id s) = Some r \<and>
      lease = lease_of r e a)"
  by (auto simp: load_lease_def lease_of_def split: option.splits)

lemma verify_active_lease_Inr:
  "verify_active_lease lease token now = Inr u \<longleftrightarrow>
   32 \<le> length token \<and> length token \<le> 1024 \<and> ls_digest lease = digest_token token \<and>
   is_active (ls_attempt_state lease) \<and> now < ls_expiry lease"
  by (auto simp: verify_active_lease_def validate_token_def equal_digest_def and_then_Inr split: if_splits)

lemma lease_guard:
  assumes "load_lease d i = Inr lease" "verify_active_lease lease token now = Inr u"
  shows "owns_lease d now i token"
  using assms unfolding load_lease_Inr verify_active_lease_Inr owns_lease_def
  by (auto simp: lease_of_def dest!: find_attempt_Some)

text \<open>What loading a lease yields in a well-formed store: the three rows and their agreement.\<close>

lemma load_lease_rows:
  assumes "load_lease d i = Inr lease"
  obtains a e s r where
    "a \<in> set (attempts d)" "at_id a = i" "e \<in> set (executions d)" "ex_id e = at_execution_id a"
    "s \<in> set (sessions d)" "ss_id s = ex_session_id e" "r \<in> set (runs d)" "run_id r = ss_run_id s"
    "lease = lease_of r e a"
  using assms unfolding load_lease_Inr by (auto dest!: lookup_Some)

lemma load_lease_in:
  assumes "keys_ok d" "refs_ok d" "a \<in> set (attempts d)"
  obtains e s r where
    "e \<in> set (executions d)" "ex_id e = at_execution_id a" "s \<in> set (sessions d)" "ss_id s = ex_session_id e"
    "r \<in> set (runs d)" "run_id r = ss_run_id s" "load_lease d (at_id a) = Inr (lease_of r e a)"
proof -
  obtain e where e: "e \<in> set (executions d)" "ex_id e = at_execution_id a"
    using assms by (metis attempt_execution_exists)
  obtain s where s: "s \<in> set (sessions d)" "ss_id s = ex_session_id e"
    using assms e by (metis execution_session_exists)
  obtain r where r: "r \<in> set (runs d)" "run_id r = ss_run_id s"
    using assms s by (metis session_run_exists)
  have "load_lease d (at_id a) = Inr (lease_of r e a)"
    unfolding load_lease_Inr
    using find_attempt_in [OF assms(1,3)] find_execution_in [OF assms(1) e(1)] find_session_in [OF assms(1) s(1)]
      find_run_in [OF assms(1) r(1)] e(2) s(2) r(2) by metis
  with e s r that show thesis by blast
qed

lemma lease_of_simps [simp]:
  "ls_attempt_state (lease_of r e a) = at_state a" "ls_execution_id (lease_of r e a) = at_execution_id a"
  "ls_execution_state (lease_of r e a) = ex_state e" "ls_outcome_contract (lease_of r e a) = run_outcome_contract r"
  "ls_digest (lease_of r e a) = at_lease_digest a" "ls_expiry (lease_of r e a) = at_lease_expires_at a"
  "ls_cancel (lease_of r e a) = ex_cancellation_requested e"
  by (simp_all add: lease_of_def)

subsection \<open>The guard as an interface\<close>

text \<open>
  An operation of the Worker API as its callers see it: whatever else it checks, it first loads and
  verifies the lease, and it leaves the database alone when it answers an error.
\<close>

locale lease_guarded =
  fixes operation :: "int \<Rightarrow> db \<Rightarrow> ident \<Rightarrow> 'i \<Rightarrow> 'r result \<times> db"
    and token_of :: "'i \<Rightarrow> string"
  assumes change_needs_lease:
      "operation now d i input = (reply, d') \<Longrightarrow> d' \<noteq> d \<Longrightarrow> owns_lease d (unix_milli now) i (token_of input)"
begin

lemma expired_lease_changes_nothing:
  assumes "\<forall>a \<in> set (attempts d). at_id a = i \<longrightarrow> at_lease_expires_at a \<le> unix_milli now"
  shows "snd (operation now d i input) = d"
proof (rule ccontr)
  assume "snd (operation now d i input) \<noteq> d"
  then have "owns_lease d (unix_milli now) i (token_of input)"
    using change_needs_lease [of now d i input "fst (operation now d i input)" "snd (operation now d i input)"]
    by simp
  with assms show False by (auto simp: owns_lease_def)
qed

lemma wrong_token_changes_nothing:
  assumes "\<forall>a \<in> set (attempts d). at_id a = i \<longrightarrow> at_lease_digest a \<noteq> digest_token (token_of input)"
  shows "snd (operation now d i input) = d"
proof (rule ccontr)
  assume "snd (operation now d i input) \<noteq> d"
  then have "owns_lease d (unix_milli now) i (token_of input)"
    using change_needs_lease [of now d i input "fst (operation now d i input)" "snd (operation now d i input)"]
    by simp
  with assms show False by (auto simp: owns_lease_def)
qed

lemma finished_attempt_changes_nothing:
  assumes "\<forall>a \<in> set (attempts d). at_id a = i \<longrightarrow> is_terminal (at_state a)"
  shows "snd (operation now d i input) = d"
proof (rule ccontr)
  assume "snd (operation now d i input) \<noteq> d"
  then have "owns_lease d (unix_milli now) i (token_of input)"
    using change_needs_lease [of now d i input "fst (operation now d i input)" "snd (operation now d i input)"]
    by simp
  with assms active_or_terminal show False by (auto simp: owns_lease_def)
qed

end

subsection \<open>StartAttempt\<close>

definition start_attempt_rows :: "millis \<Rightarrow> ident \<Rightarrow> ident \<Rightarrow> start_attempt_request \<Rightarrow> db \<Rightarrow> db" where
  "start_attempt_rows now attempt_id execution_id input d = d\<lparr>
     attempts := update_where (\<lambda>a. at_id a = attempt_id \<and> at_state a = AttemptPreparing)
       (\<lambda>a. a\<lparr>at_state := AttemptRunning, at_supervisor_pid := sr_supervisor_pid input,
               at_process_identity := null_string (sr_process_identity input),
               at_process_group_id := sr_process_group_id input, at_started_at := Some now\<rparr>) (attempts d),
     executions := update_where (\<lambda>e. ex_id e = execution_id \<and> ex_state e = ExecutionPreparing)
       (\<lambda>e. e\<lparr>ex_state := ExecutionRunning, ex_updated_at := now\<rparr>) (executions d),
     sessions := update_where
       (\<lambda>s. Some (ss_id s) = execution_session d execution_id \<and> ss_state s = SessionPreparing)
       (\<lambda>s. s\<lparr>ss_state := SessionRunning, ss_started_at := Some (coalesce (ss_started_at s) now),
               ss_execution_owner := ExecutionOwnerWorkerAttempt\<rparr>) (sessions d)\<rparr>"

definition clear_pending_resume :: "ident \<Rightarrow> string \<Rightarrow> db \<Rightarrow> db" where
  "clear_pending_resume execution_id sha d = d\<lparr>
     sessions := update_where
       (\<lambda>s. Some (ss_id s) = execution_session d execution_id \<and> ss_state s = SessionRunning)
       (\<lambda>s. s\<lparr>ss_pending_resume_sha :=
                 (if ss_pending_resume_sha s = sha then '''' else ss_pending_resume_sha s)\<rparr>) (sessions d)\<rparr>"

definition start_attempt_tx :: "int \<Rightarrow> db \<Rightarrow> ident \<Rightarrow> start_attempt_request \<Rightarrow> (unit \<times> db) result" where
  "start_attempt_tx now_ns d attempt_id input =
     (if sr_started_from_sha input \<noteq> [] \<and> \<not> valid_commit_sha (sr_started_from_sha input)
      then Inl (invalid ''invalid_started_commit'' ''started_from_sha must be a full commit SHA'')
      else
        let now = unix_milli now_ns in
        and_then (load_lease d attempt_id) (\<lambda>lease.
        and_then (verify_active_lease lease (sr_lease_token input) now) (\<lambda>_.
        case Option.bind (execution_session d (ls_execution_id lease)) (find_session d) of
          None \<Rightarrow> Inl unavailable
        | Some s \<Rightarrow>
          if ss_pending_resume_sha s \<noteq> [] \<and> sr_started_from_sha input \<noteq> ss_pending_resume_sha s
          then Inl (conflict ''resume_commit_mismatch''
                 ''the Attempt did not start from the authoritative pending resume commit'')
          else
            and_then
              (if ls_attempt_state lease = AttemptPreparing then
                 (if sr_runtime_started input
                  then Inl (conflict ''invalid_transition'' ''the runtime cannot start before the Attempt'')
                  else Inr (start_attempt_rows now attempt_id (ls_execution_id lease) input d))
               else if ls_attempt_state lease \<noteq> AttemptRunning then
                 Inl (conflict ''invalid_transition'' ''attempt cannot be started from its current state'')
               else Inr d)
              (\<lambda>d. Inr ((), if sr_runtime_started input
                             then clear_pending_resume (ls_execution_id lease) (sr_started_from_sha input) d
                             else d)))))"

definition start_attempt :: "int \<Rightarrow> db \<Rightarrow> ident \<Rightarrow> start_attempt_request \<Rightarrow> attempt_view result \<times> db" where
  "start_attempt now d attempt_id input =
     committed d (start_attempt_tx now d attempt_id input) (\<lambda>d' _. attempt_reply d' attempt_id)"

subsection \<open>Heartbeat\<close>

definition heartbeat_tx :: "int \<Rightarrow> db \<Rightarrow> ident \<Rightarrow> string \<Rightarrow> (heartbeat_response \<times> db) result" where
  "heartbeat_tx now d attempt_id token =
     and_then (load_lease d attempt_id) (\<lambda>lease.
     and_then (verify_active_lease lease token (unix_milli now)) (\<lambda>_.
       let expiry = now + from_millis lease_duration in
       Inr (\<lparr>hb_lease_expires_at = expiry, hb_cancellation_requested = ls_cancel lease\<rparr>,
            d\<lparr>attempts := update_where (\<lambda>a. at_id a = attempt_id)
                (\<lambda>a. a\<lparr>at_lease_expires_at := unix_milli expiry\<rparr>) (attempts d)\<rparr>)))"

definition heartbeat :: "int \<Rightarrow> db \<Rightarrow> ident \<Rightarrow> string \<Rightarrow> heartbeat_response result \<times> db" where
  "heartbeat now d attempt_id token = committed d (heartbeat_tx now d attempt_id token) (\<lambda>_ reply. Inr reply)"

subsection \<open>What the operations keep\<close>

lemma execution_session_in [simp]:
  "keys_ok d \<Longrightarrow> e \<in> set (executions d) \<Longrightarrow> execution_session d (ex_id e) = Some (ex_session_id e)"
  by (simp add: execution_session_def find_execution_in)

lemma start_attempt_rows_same_keys [simp]: "same_keys d (start_attempt_rows now i x input d)"
  by (simp add: same_keys_def start_attempt_rows_def map_update_where)

lemma clear_pending_resume_same_keys [simp]: "same_keys d (clear_pending_resume x sha d)"
  by (simp add: same_keys_def clear_pending_resume_def map_update_where)

lemma start_attempt_rows_core_ok:
  assumes ok: "core_ok d" and a: "a \<in> set (attempts d)" "at_state a = AttemptPreparing"
    and e: "e \<in> set (executions d)" "ex_id e = at_execution_id a"
    and s: "s \<in> set (sessions d)" "ss_id s = ex_session_id e"
  shows "core_ok (start_attempt_rows now (at_id a) (ex_id e) input d)"
proof -
  note ok' = core_okD [OF ok]
  have es: "ex_state e = ExecutionPreparing"
    using lifecycle_attempt_execution [OF ok'(3) a(1) e(1,2)] a(2) by (simp add: is_active_def)
  have ss: "ss_state s = SessionPreparing"
    using lifecycle_states_agree [OF ok'(3) e(1) s] es by (simp add: states_agree_def)
  show ?thesis
    unfolding start_attempt_rows_def execution_session_in [OF ok'(1) e(1)]
  proof (rule core_ok_active [OF ok _ _ _ _ a(1) e s], simp add: same_keys_def map_update_where,
      (simp, rule in_place_intros)+, goal_cases)
    case 1 show ?case using a(2) by (simp add: is_active_def)
  next
    case (2 x) then show ?case using attempt_unique [OF ok'(1) a(1), of x] by auto
  next
    case (3 x) then show ?case using execution_unique [OF ok'(1) e(1), of x] by auto
  next
    case (4 x) then show ?case using session_unique [OF ok'(1) s(1), of x] s(2) by auto
  qed (use a(2) es ss s core_ok_session [OF ok s(1)] in
        \<open>simp_all add: state_predicates states_agree_def session_row_ok_def\<close>)
qed

lemma start_attempt_rows_runs_ok:
  "runs_ok d \<Longrightarrow> runs_ok (start_attempt_rows now i x input d)"
  by (rule runs_ok_same_nonterminal [where fs = "\<lambda>s. if Some (ss_id s) = execution_session d x \<and> ss_state s = SessionPreparing
        then s\<lparr>ss_state := SessionRunning, ss_started_at := Some (coalesce (ss_started_at s) now),
               ss_execution_owner := ExecutionOwnerWorkerAttempt\<rparr> else s"])
    (auto simp: start_attempt_rows_def update_where_def state_predicates)

lemma clear_pending_resume_ok:
  assumes "store_ok d" shows "store_ok (clear_pending_resume x sha d)"
proof -
  let ?f = "\<lambda>s. s\<lparr>ss_pending_resume_sha := (if ss_pending_resume_sha s = sha then '''' else ss_pending_resume_sha s)\<rparr>"
  have "core_ok (clear_pending_resume x sha d)"
    unfolding clear_pending_resume_def
    by (rule core_ok_same_states [OF store_okD(6) [OF assms]], simp add: same_keys_def map_update_where,
        (simp, rule in_place_intros)+, auto simp: session_row_ok_def state_predicates)
  moreover have "runs_ok (clear_pending_resume x sha d)"
    by (rule runs_ok_same_nonterminal [OF store_okD(5) [OF assms],
          where fs = "\<lambda>s. if Some (ss_id s) = execution_session d x \<and> ss_state s = SessionRunning then ?f s else s"])
      (auto simp: clear_pending_resume_def update_where_def)
  ultimately show ?thesis by (simp add: store_ok_def)
qed

lemma start_attempt_ok:
  assumes "store_ok d" "start_attempt_tx now d i input = Inr (u, d')"
  shows "store_ok d'"
proof -
  from assms(2) obtain lease where lease: "load_lease d i = Inr lease"
    by (auto simp: start_attempt_tx_def and_then_Inr Let_def split: if_splits)
  obtain a e s r where rows: "a \<in> set (attempts d)" "at_id a = i" "e \<in> set (executions d)" "ex_id e = at_execution_id a"
    "s \<in> set (sessions d)" "ss_id s = ex_session_id e" "lease = lease_of r e a"
    using load_lease_rows [OF lease] by metis
  define d1 where "d1 = (if at_state a = AttemptPreparing
     then start_attempt_rows (unix_milli now) i (at_execution_id a) input d else d)"
  have d': "d' = d1 \<or> d' = clear_pending_resume (at_execution_id a) (sr_started_from_sha input) d1"
    using assms(2) lease rows(7)
    by (auto simp: start_attempt_tx_def and_then_Inr Let_def d1_def split: if_splits option.splits)
  have "store_ok d1"
    using assms(1) start_attempt_rows_core_ok [OF store_okD(6) [OF assms(1)] rows(1) _ rows(3,4,5,6)]
      start_attempt_rows_runs_ok [OF store_okD(5) [OF assms(1)]] rows(2,4)
    by (auto simp: d1_def store_ok_def)
  with d' clear_pending_resume_ok show ?thesis by blast
qed

lemma heartbeat_ok:
  assumes "store_ok d" "heartbeat_tx now d i token = Inr (reply, d')"
  shows "store_ok d'"
proof -
  let ?f = "\<lambda>a. a\<lparr>at_lease_expires_at := unix_milli (now + from_millis lease_duration)\<rparr>"
  have d': "d' = d\<lparr>attempts := update_where (\<lambda>a. at_id a = i) ?f (attempts d)\<rparr>"
    using assms(2) by (auto simp: heartbeat_tx_def and_then_Inr Let_def)
  have "core_ok d'"
    unfolding d'
    by (rule core_ok_same_states [OF store_okD(6) [OF assms(1)]], simp add: same_keys_def map_update_where,
        (simp, rule in_place_intros)+, auto)
  moreover have "runs_ok d'"
    using store_okD(5) [OF assms(1)] by (simp add: d' runs_ok_def run_finished_def run_session_count_def)
  ultimately show ?thesis by (simp add: store_ok_def)
qed

subsection \<open>The lease guards them\<close>

interpretation start_attempt: lease_guarded start_attempt sr_lease_token
proof unfold_locales
  fix now d i input and reply :: "attempt_view result" and d'
  assume op: "start_attempt now d i input = (reply, d')" and "d' \<noteq> d"
  then obtain x where "start_attempt_tx now d i input = Inr (x, d')"
    unfolding start_attempt_def by (auto elim: committed_cases)
  then show "owns_lease d (unix_milli now) i (sr_lease_token input)"
    by (auto simp: start_attempt_tx_def and_then_Inr Let_def intro: lease_guard split: if_splits)
qed

interpretation heartbeat: lease_guarded heartbeat "\<lambda>token. token"
proof unfold_locales
  fix now d i token and reply :: "heartbeat_response result" and d'
  assume op: "heartbeat now d i token = (reply, d')" and "d' \<noteq> d"
  then obtain x where "heartbeat_tx now d i token = Inr (x, d')"
    unfolding heartbeat_def by (auto elim: committed_cases)
  then show "owns_lease d (unix_milli now) i token"
    by (auto simp: heartbeat_tx_def and_then_Inr Let_def intro: lease_guard)
qed

end
