(* ===== verification/Stages.thy ===== *)
theory Stages
  imports Leases
begin

text \<open>
  Pipeline stages of a running Attempt (stage_runs.go): \<^verbatim>\<open>StartStage\<close>, \<^verbatim>\<open>CompleteStage\<close>
  and the reply \<^verbatim>\<open>stageRun\<close>. The invariant of this theory is the order of a pipeline: a stage
  that runs or has succeeded has only succeeded stages before it.
\<close>

subsection \<open>Operations\<close>

definition stage_reply :: "db \<Rightarrow> ident \<Rightarrow> nat \<Rightarrow> stage_run result" where
  "stage_reply d session_id position =
     (case find (\<lambda>g. sg_session_id g = session_id \<and> sg_position g = position) (session_stages d) of
        None \<Rightarrow> Inl err_not_found
      | Some g \<Rightarrow> Inr \<lparr>sv_position = sg_position g, sv_name = sg_name g, sv_prompt = '''', sv_state = sg_state g,
                        sv_result = '''', sv_error = '''', sv_started_at = sg_started_at g,
                        sv_completed_at = sg_completed_at g\<rparr>)"

text \<open>\<^verbatim>\<open>scanStageRun\<close>, the reading of a whole row that a claim carries.\<close>

definition scan_stage_run :: "session_stage \<Rightarrow> stage_run" where
  "scan_stage_run g =
     \<lparr>sv_position = sg_position g, sv_name = sg_name g, sv_prompt = sg_prompt g, sv_state = sg_state g,
      sv_result = sg_result g, sv_error = sg_error g, sv_started_at = sg_started_at g,
      sv_completed_at = sg_completed_at g\<rparr>"

definition attempt_stage :: "db \<Rightarrow> ident \<Rightarrow> nat \<Rightarrow> session_stage option" where
  "attempt_stage d attempt_id position =
     (case Option.bind (find_attempt d attempt_id) (attempt_execution d) of
        None \<Rightarrow> None
      | Some e \<Rightarrow> find (\<lambda>g. sg_session_id g = ex_session_id e \<and> sg_position g = position) (session_stages d))"

definition incomplete_before :: "db \<Rightarrow> ident \<Rightarrow> nat \<Rightarrow> nat" where
  "incomplete_before d session_id position =
     count_where (\<lambda>g. sg_session_id g = session_id \<and> sg_position g < position \<and> sg_state g \<noteq> StageSucceeded)
       (session_stages d)"

definition start_stage_rows ::
    "millis \<Rightarrow> ident \<Rightarrow> ident \<Rightarrow> nat \<Rightarrow> start_stage_request \<Rightarrow> db \<Rightarrow> db" where
  "start_stage_rows now attempt_id session_id position input d = d\<lparr>
     session_stages := update_where (\<lambda>g. sg_session_id g = session_id \<and> sg_position g = position)
       (\<lambda>g. g\<lparr>sg_state := StageRunning, sg_started_at := Some (coalesce (sg_started_at g) now)\<rparr>)
       (session_stages d),
     attempts := update_where (\<lambda>a. at_id a = attempt_id)
       (\<lambda>a. a\<lparr>at_supervisor_pid := st_supervisor_pid input,
               at_process_identity := null_string (st_process_identity input),
               at_process_group_id := st_process_group_id input\<rparr>) (attempts d)\<rparr>"

definition start_stage_tx ::
    "int \<Rightarrow> db \<Rightarrow> ident \<Rightarrow> nat \<Rightarrow> start_stage_request \<Rightarrow> (ident \<times> db) result" where
  "start_stage_tx now_ns d attempt_id position input =
     (let now = unix_milli now_ns in
      and_then (load_lease d attempt_id) (\<lambda>lease.
      and_then (verify_active_lease lease (st_lease_token input) now) (\<lambda>_.
      if ls_attempt_state lease \<noteq> AttemptRunning \<or> ls_execution_state lease \<noteq> ExecutionRunning
      then Inl (conflict ''attempt_not_running'' ''Pipeline stages require a running Attempt'')
      else if ls_cancel lease
      then Inl (conflict ''cancellation_requested'' ''the Attempt is being cancelled'')
      else case attempt_stage d attempt_id position of
        None \<Rightarrow> Inl err_not_found
      | Some g \<Rightarrow>
          if sg_state g \<noteq> StagePending \<and> sg_state g \<noteq> StageRunning
          then Inl (conflict ''stage_not_pending''
                 ''the Pipeline stage cannot be started from its current state'')
          else if incomplete_before d (sg_session_id g) position \<noteq> 0
          then Inl (conflict ''stage_predecessor_incomplete''
                 ''the previous Pipeline stage has not succeeded'')
          else Inr (sg_session_id g, start_stage_rows now attempt_id (sg_session_id g) position input d))))"

definition start_stage ::
    "int \<Rightarrow> nat \<Rightarrow> db \<Rightarrow> ident \<Rightarrow> start_stage_request \<Rightarrow> stage_run result \<times> db" where
  "start_stage now position d attempt_id input =
     committed d (start_stage_tx now d attempt_id position input) (\<lambda>d' session_id. stage_reply d' session_id position)"

text \<open>The states that a completion may carry, as the text the Worker sends.\<close>

definition terminal_stage_state :: "string \<Rightarrow> stage_run_state option" where
  "terminal_stage_state v =
     (if v = ''succeeded'' then Some StageSucceeded
      else if v = ''failed'' then Some StageFailed
      else if v = ''cancelled'' then Some StageCancelled
      else None)"

definition complete_stage_rows ::
    "millis \<Rightarrow> ident \<Rightarrow> nat \<Rightarrow> stage_run_state \<Rightarrow> string \<Rightarrow> string \<Rightarrow> db \<Rightarrow> db" where
  "complete_stage_rows now session_id position state reply failure d =
     (let completed = update_where
            (\<lambda>g. sg_session_id g = session_id \<and> sg_position g = position \<and> sg_state g = StageRunning)
            (\<lambda>g. g\<lparr>sg_state := state, sg_result := reply, sg_error := failure, sg_completed_at := Some now\<rparr>)
            (session_stages d)
      in d\<lparr>session_stages :=
        (if state \<noteq> StageSucceeded
         then update_where (\<lambda>g. sg_session_id g = session_id \<and> position < sg_position g \<and> sg_state g = StagePending)
                (\<lambda>g. g\<lparr>sg_state := StageCancelled, sg_completed_at := Some now\<rparr>) completed
         else completed)\<rparr>)"

definition complete_stage_tx ::
    "int \<Rightarrow> db \<Rightarrow> ident \<Rightarrow> nat \<Rightarrow> complete_stage_request \<Rightarrow> (ident \<times> db) result" where
  "complete_stage_tx now_ns d attempt_id position input =
     (case terminal_stage_state (cs_state input) of
        None \<Rightarrow> Inl (invalid ''invalid_stage_state'' ''state must be succeeded, failed, or cancelled'')
      | Some state \<Rightarrow>
        if length (cs_result input) > max_result_bytes \<or> length (cs_error input) > max_error_bytes
        then Inl (invalid ''stage_result_too_large'' ''stage result or error exceeds its storage limit'')
        else
          let now = unix_milli now_ns in
          and_then (load_lease d attempt_id) (\<lambda>lease.
          and_then (verify_active_lease lease (cs_lease_token input) now) (\<lambda>_.
          if ls_attempt_state lease \<noteq> AttemptRunning \<or> ls_execution_state lease \<noteq> ExecutionRunning
          then Inl (conflict ''attempt_not_running'' ''Pipeline stages require a running Attempt'')
          else case attempt_stage d attempt_id position of
            None \<Rightarrow> Inl err_not_found
          | Some g \<Rightarrow>
              if sg_state g \<noteq> StageRunning then
                (if sg_state g = state \<and> sg_result g = cs_result input \<and> sg_error g = cs_error input
                 then Inr (sg_session_id g, d)
                 else Inl (conflict ''stage_not_running''
                        ''the Pipeline stage cannot complete from its current state''))
              else Inr (sg_session_id g,
                     complete_stage_rows now (sg_session_id g) position state
                       (cs_result input) (cs_error input) d))))"

definition complete_stage ::
    "int \<Rightarrow> nat \<Rightarrow> db \<Rightarrow> ident \<Rightarrow> complete_stage_request \<Rightarrow> stage_run result \<times> db" where
  "complete_stage now position d attempt_id input =
     committed d (complete_stage_tx now d attempt_id position input) (\<lambda>d' session_id. stage_reply d' session_id position)"

subsection \<open>The order of a pipeline\<close>

definition stages_ok :: "db \<Rightarrow> bool" where
  "stages_ok d \<longleftrightarrow>
     (\<forall>g \<in> set (session_stages d). \<forall>h \<in> set (session_stages d).
        sg_session_id g = sg_session_id h \<longrightarrow> sg_position g < sg_position h \<longrightarrow>
        sg_state h = StageRunning \<or> sg_state h = StageSucceeded \<longrightarrow> sg_state g = StageSucceeded)"

lemma stages_okD:
  "stages_ok d \<Longrightarrow> g \<in> set (session_stages d) \<Longrightarrow> h \<in> set (session_stages d) \<Longrightarrow>
   sg_session_id g = sg_session_id h \<Longrightarrow> sg_position g < sg_position h \<Longrightarrow>
   sg_state h = StageRunning \<or> sg_state h = StageSucceeded \<Longrightarrow> sg_state g = StageSucceeded"
  unfolding stages_ok_def by blast

text \<open>Rewriting stages keeps the order when no stage is newly running or succeeded and a succeeded stage
  stays so unless nothing after it runs or has succeeded.\<close>

lemma stages_ok_map:
  assumes ok: "stages_ok d" and table: "in_place f (session_stages d) (session_stages d')"
    and keys: "\<And>g. sg_session_id (f g) = sg_session_id g" "\<And>g. sg_position (f g) = sg_position g"
    and step: "\<And>g h. g \<in> set (session_stages d) \<Longrightarrow> h \<in> set (session_stages d) \<Longrightarrow>
        sg_session_id g = sg_session_id h \<Longrightarrow> sg_position g < sg_position h \<Longrightarrow>
        (sg_state h = StageRunning \<or> sg_state h = StageSucceeded \<Longrightarrow> sg_state g = StageSucceeded) \<Longrightarrow>
        sg_state (f h) = StageRunning \<or> sg_state (f h) = StageSucceeded \<Longrightarrow> sg_state (f g) = StageSucceeded"
  shows "stages_ok d'"
  unfolding stages_ok_def table [unfolded in_place_def] list.set_map ball_simps keys
  using step stages_okD [OF ok] by metis

lemma stages_ok_frame: "stages_ok d \<Longrightarrow> session_stages d' = session_stages d \<Longrightarrow> stages_ok d'"
  by (simp add: stages_ok_def)

lemma attempt_stage_Some:
  "attempt_stage d i position = Some g \<Longrightarrow>
   g \<in> set (session_stages d) \<and> sg_position g = position \<and>
   (\<exists>a e. find_attempt d i = Some a \<and> find_execution d (at_execution_id a) = Some e \<and>
      sg_session_id g = ex_session_id e)"
  by (auto simp: attempt_stage_def attempt_execution_def dest: find_Some_set split: option.splits bind_splits)

lemma stage_unique:
  "keys_ok d \<Longrightarrow> g \<in> set (session_stages d) \<Longrightarrow> h \<in> set (session_stages d) \<Longrightarrow>
   sg_session_id g = sg_session_id h \<Longrightarrow> sg_position g = sg_position h \<Longrightarrow> g = h"
  unfolding keys_ok_def
  using key_unique [of "\<lambda>g. (sg_session_id g, sg_position g)" "session_stages d" g h] by simp

lemma start_stage_stages_ok:
  assumes "keys_ok d" "stages_ok d" "start_stage_tx now d i position input = Inr (sid, d')"
  shows "stages_ok d'"
proof -
  from assms(3) obtain g where g: "attempt_stage d i position = Some g" "sg_session_id g = sid"
      "sg_state g = StagePending \<or> sg_state g = StageRunning" "incomplete_before d sid position = 0"
    and d': "d' = start_stage_rows (unix_milli now) i sid position input d"
    by (auto simp: start_stage_tx_def and_then_Inr Let_def split: if_splits option.splits)
  have before: "sg_state h = StageSucceeded"
    if "h \<in> set (session_stages d)" "sg_session_id h = sid" "sg_position h < position" for h
    using g(4) that by (auto simp: incomplete_before_def count_where_eq_0)
  have at: "sg_state h \<noteq> StageSucceeded"
    if "h \<in> set (session_stages d)" "sg_session_id h = sid" "sg_position h = position" for h
    using stage_unique [OF assms(1) that(1), of g] attempt_stage_Some [OF g(1)] g(2,3) that by auto
  show ?thesis
    unfolding d' start_stage_rows_def
    by (rule stages_ok_map [OF assms(2)], simp, rule in_place_update)
      (use before at in \<open>auto split: if_splits\<close>)
qed

lemma complete_stage_rows_stages_ok:
  assumes "stages_ok d"
  shows "stages_ok (complete_stage_rows m sid position st reply failure d)"
proof (cases "st = StageSucceeded")
  case True
  show ?thesis
    unfolding complete_stage_rows_def Let_def True
    by (rule stages_ok_map [OF assms], simp, rule in_place_update) (auto split: if_splits)
next
  case False
  then have eq: "complete_stage_rows m sid position st reply failure d = d\<lparr>session_stages :=
      update_where (\<lambda>g. sg_session_id g = sid \<and> position < sg_position g \<and> sg_state g = StagePending)
        (\<lambda>g. g\<lparr>sg_state := StageCancelled, sg_completed_at := Some m\<rparr>)
        (update_where (\<lambda>g. sg_session_id g = sid \<and> sg_position g = position \<and> sg_state g = StageRunning)
          (\<lambda>g. g\<lparr>sg_state := st, sg_result := reply, sg_error := failure, sg_completed_at := Some m\<rparr>)
          (session_stages d))\<rparr>"
    by (simp add: complete_stage_rows_def)
  show ?thesis
    unfolding eq
    by (rule stages_ok_map [OF assms], simp, rule in_place_update_after, rule in_place_update)
      (use False in \<open>auto split: if_splits\<close>)
qed

lemma complete_stage_stages_ok:
  assumes "stages_ok d" "complete_stage_tx now d i position input = Inr (sid, d')"
  shows "stages_ok d'"
proof -
  from assms(2) obtain st where "d' = d \<or>
      d' = complete_stage_rows (unix_milli now) sid position st (cs_result input) (cs_error input) d"
    by (auto simp: complete_stage_tx_def and_then_Inr Let_def split: if_splits option.splits)
  with assms(1) complete_stage_rows_stages_ok show ?thesis by auto
qed

subsection \<open>The lifecycle tables\<close>

lemma start_stage_ok:
  assumes "store_ok d" "start_stage_tx now d i position input = Inr (sid, d')"
  shows "store_ok d'"
proof -
  from assms(2) have d': "d' = start_stage_rows (unix_milli now) i sid position input d"
    by (auto simp: start_stage_tx_def and_then_Inr Let_def split: if_splits option.splits)
  have "core_ok d'"
    unfolding d' start_stage_rows_def
    by (rule core_ok_same_states [OF store_okD(6) [OF assms(1)]], simp add: same_keys_def map_update_where,
        (simp, rule in_place_intros)+, auto)
  moreover have "runs_ok d'"
    using store_okD(5) [OF assms(1)]
    by (simp add: d' start_stage_rows_def runs_ok_def run_finished_def run_session_count_def)
  ultimately show ?thesis by (simp add: store_ok_def)
qed

lemma complete_stage_rows_ok:
  "store_ok d \<Longrightarrow> store_ok (complete_stage_rows m sid position st reply failure d)"
  by (erule store_ok_frame) (simp_all add: complete_stage_rows_def Let_def map_update_where)

lemma complete_stage_ok:
  assumes "store_ok d" "complete_stage_tx now d i position input = Inr (sid, d')"
  shows "store_ok d'"
proof -
  from assms(2) obtain st where "d' = d \<or>
      d' = complete_stage_rows (unix_milli now) sid position st (cs_result input) (cs_error input) d"
    by (auto simp: complete_stage_tx_def and_then_Inr Let_def split: if_splits option.splits)
  with assms(1) complete_stage_rows_ok show ?thesis by auto
qed

subsection \<open>The lease guards them\<close>

interpretation start_stage: lease_guarded "\<lambda>now. start_stage now position" st_lease_token for position
proof unfold_locales
  fix now d i input and reply :: "stage_run result" and d'
  assume op: "start_stage now position d i input = (reply, d')" and "d' \<noteq> d"
  then obtain x where "start_stage_tx now d i position input = Inr (x, d')"
    unfolding start_stage_def by (auto elim: committed_cases)
  then show "owns_lease d (unix_milli now) i (st_lease_token input)"
    by (auto simp: start_stage_tx_def and_then_Inr Let_def intro: lease_guard)
qed

interpretation complete_stage: lease_guarded "\<lambda>now. complete_stage now position" cs_lease_token for position
proof unfold_locales
  fix now d i input and reply :: "stage_run result" and d'
  assume op: "complete_stage now position d i input = (reply, d')" and "d' \<noteq> d"
  then obtain x where "complete_stage_tx now d i position input = Inr (x, d')"
    unfolding complete_stage_def by (auto elim: committed_cases)
  then show "owns_lease d (unix_milli now) i (cs_lease_token input)"
    by (auto simp: complete_stage_tx_def and_then_Inr Let_def intro: lease_guard split: option.splits)
qed

end
