(* ===== verification/Work_History.thy ===== *)
theory Work_History
  imports Stages
begin

text \<open>
  The semantic reports of agents, as they are stored: the outcome of an Attempt (\<^verbatim>\<open>attemptOutcome\<close>
  of work.go), the reports of one Work in order, and what their rows always satisfy. Recording a
  report is the theory Agent\_Updates.
\<close>

definition attempt_outcome :: "db \<Rightarrow> ident \<Rightarrow> work_update option" where
  "attempt_outcome d attempt_id =
     find (\<lambda>u. wu_attempt_id u = Some attempt_id \<and> wu_status u \<noteq> WorkUpdateRunning) (work_updates d)"

definition update_limit :: "work_update_status \<Rightarrow> nat" where
  "update_limit st = (if st = WorkUpdateRunning then max_progress_bytes else max_outcome_bytes)"

text \<open>The row constraints of \<^verbatim>\<open>work_updates\<close> (migration 31), and what \<^verbatim>\<open>AppendAgentUpdate\<close>
  checks beyond them.\<close>

definition update_row_ok :: "work_update \<Rightarrow> bool" where
  "update_row_ok u \<longleftrightarrow>
     wu_message u \<noteq> [] \<and> length (wu_message u) \<le> update_limit (wu_status u) \<and> 0 < wu_sequence u \<and>
     (wu_status u = WorkUpdateReady \<longrightarrow> wu_pull_request_url u \<noteq> []) \<and>
     (wu_status u = WorkUpdateNeedsInput \<longrightarrow> valid_commit_sha (wu_checkpoint_sha u))"

definition progress_count :: "db \<Rightarrow> ident \<Rightarrow> nat" where
  "progress_count d i =
     count_where (\<lambda>u. wu_attempt_id u = Some i \<and> wu_status u = WorkUpdateRunning) (work_updates d)"

definition outcome_count :: "db \<Rightarrow> ident \<Rightarrow> nat" where
  "outcome_count d i =
     count_where (\<lambda>u. wu_attempt_id u = Some i \<and> wu_status u \<noteq> WorkUpdateRunning) (work_updates d)"

definition history_ok :: "db \<Rightarrow> bool" where
  "history_ok d \<longleftrightarrow>
     list_all update_row_ok (work_updates d) \<and>
     distinct (map wu_id (work_updates d)) \<and>
     distinct (map (\<lambda>u. (wu_work_id u, wu_sequence u)) (work_updates d)) \<and>
     (\<forall>i. outcome_count d i \<le> 1) \<and>
     (\<forall>i. progress_count d i \<le> max_progress_per_attempt)"

lemma history_ok_row: "history_ok d \<Longrightarrow> u \<in> set (work_updates d) \<Longrightarrow> update_row_ok u"
  by (simp add: history_ok_def list_all_iff)

lemma history_ok_frame: "history_ok d \<Longrightarrow> work_updates d' = work_updates d \<Longrightarrow> history_ok d'"
  by (simp add: history_ok_def outcome_count_def progress_count_def)

lemma attempt_outcome_Some:
  "attempt_outcome d i = Some u \<Longrightarrow>
   u \<in> set (work_updates d) \<and> wu_attempt_id u = Some i \<and> wu_status u \<noteq> WorkUpdateRunning"
  unfolding attempt_outcome_def by (drule find_Some_set) simp

lemma attempt_outcome_row: "history_ok d \<Longrightarrow> attempt_outcome d i = Some u \<Longrightarrow> update_row_ok u"
  by (blast dest: attempt_outcome_Some history_ok_row)

end
