(* ===== verification/Completion.thy ===== *)
theory Completion
  imports Work_History
begin

text \<open>
  The end of an Attempt (state.go): \<^verbatim>\<open>CompleteAttempt\<close>, \<^verbatim>\<open>SweepExpired\<close> and
  \<^verbatim>\<open>updateRunLifecycle\<close> (task\_claim.go). A completion is first resolved against the outcome
  contract of its Run, then written to the stages, the Attempt, the execution, the Work and the Run.
\<close>

subsection \<open>The Run of an execution\<close>

definition execution_run :: "db \<Rightarrow> ident \<Rightarrow> ident option" where
  "execution_run d execution_id =
     map_option ss_run_id (Option.bind (execution_session d execution_id) (find_session d))"

definition refresh_run :: "millis \<Rightarrow> ident \<Rightarrow> db \<Rightarrow> db" where
  "refresh_run now i d = d\<lparr>runs := update_where (\<lambda>r. run_id r = i)
     (\<lambda>r. r\<lparr>run_updated_at := now, run_terminal_at := (if run_finished d i then Some now else None)\<rparr>) (runs d)\<rparr>"

definition update_run_lifecycle :: "ident \<Rightarrow> millis \<Rightarrow> db \<Rightarrow> db result" where
  "update_run_lifecycle execution_id now d =
     (case execution_run d execution_id of None \<Rightarrow> Inl unavailable | Some i \<Rightarrow> Inr (refresh_run now i d))"

subsection \<open>Resolving a completion\<close>

record completion =
  cp_state :: attempt_state
  cp_result :: string
  cp_error :: string
  cp_work_state :: session_state
  cp_failure_reason :: string
  cp_terminal_message :: string
  cp_missing_outcome :: bool

definition terminal_attempt_state :: "string \<Rightarrow> attempt_state option" where
  "terminal_attempt_state v =
     (if v = ''succeeded'' then Some AttemptSucceeded
      else if v = ''failed'' then Some AttemptFailed
      else if v = ''cancelled'' then Some AttemptCancelled
      else None)"

fun work_state_of :: "attempt_state \<Rightarrow> session_state" where
  "work_state_of AttemptSucceeded = SessionSucceeded"
| "work_state_of AttemptCancelled = SessionCancelled"
| "work_state_of _ = SessionFailed"

definition missing_outcome :: string where
  "missing_outcome = ''Agent exited without reporting an outcome.''"

definition resolve_completion ::
    "lease_state \<Rightarrow> work_update option \<Rightarrow> attempt_state \<Rightarrow> string \<Rightarrow> string \<Rightarrow> completion result" where
  "resolve_completion lease outcome state reply failure =
     (let plain = \<lparr>cp_state = state, cp_result = reply, cp_error = failure, cp_work_state = work_state_of state,
                   cp_failure_reason = failure, cp_terminal_message = '''', cp_missing_outcome = False\<rparr> in
      if ls_cancel lease then
        Inr (plain\<lparr>cp_state := AttemptCancelled, cp_result := '''', cp_error := '''',
              cp_work_state := SessionCancelled, cp_failure_reason := '''',
              cp_terminal_message := ''Cancelled by operator.''\<rparr>)
      else if ls_outcome_contract lease = OutcomeAgentUpdate \<and> state = AttemptSucceeded then
        (case outcome of
           None \<Rightarrow>
             Inr (plain\<lparr>cp_state := AttemptFailed, cp_result := '''', cp_error := missing_outcome,
                   cp_work_state := SessionFailed, cp_failure_reason := missing_outcome,
                   cp_terminal_message := missing_outcome, cp_missing_outcome := True\<rparr>)
         | Some u \<Rightarrow>
             (let reported = plain\<lparr>cp_result := '''', cp_error := '''', cp_terminal_message := wu_message u\<rparr> in
              case wu_status u of
                WorkUpdateReady \<Rightarrow> Inr (reported\<lparr>cp_work_state := SessionReady\<rparr>)
              | WorkUpdateNeedsInput \<Rightarrow> Inr (reported\<lparr>cp_work_state := SessionNeedsInput\<rparr>)
              | WorkUpdateFailed \<Rightarrow>
                  Inr (reported\<lparr>cp_work_state := SessionFailed, cp_failure_reason := wu_message u\<rparr>)
              | WorkUpdateNoChange \<Rightarrow> Inr (reported\<lparr>cp_work_state := SessionNoChange\<rparr>)
              | WorkUpdateRunning \<Rightarrow>
                  Inl (conflict ''outcome_missing'' ''the Attempt has no ending outcome report'')))
      else Inr plain)"

subsection \<open>The stages of a completed Attempt\<close>

definition last_position :: "db \<Rightarrow> ident \<Rightarrow> nat" where
  "last_position d session_id =
     Max (insert 0 (sg_position ` set (filter (\<lambda>g. sg_session_id g = session_id) (session_stages d))))"

definition fail_last_stage :: "millis \<Rightarrow> ident \<Rightarrow> string \<Rightarrow> db \<Rightarrow> db" where
  "fail_last_stage now session_id failure d = d\<lparr>session_stages := update_where
     (\<lambda>g. sg_session_id g = session_id \<and> sg_position g = last_position d session_id \<and> sg_state g = StageSucceeded)
     (\<lambda>g. g\<lparr>sg_state := StageFailed, sg_error := failure, sg_completed_at := Some now\<rparr>) (session_stages d)\<rparr>"

definition stage_count :: "db \<Rightarrow> ident \<Rightarrow> nat" where
  "stage_count d session_id = count_where (\<lambda>g. sg_session_id g = session_id) (session_stages d)"

definition succeeded_stage_count :: "db \<Rightarrow> ident \<Rightarrow> nat" where
  "succeeded_stage_count d session_id =
     count_where (\<lambda>g. sg_session_id g = session_id \<and> sg_state g = StageSucceeded) (session_stages d)"

definition stage_open :: "session_stage \<Rightarrow> bool" where
  "stage_open g \<longleftrightarrow> sg_state g = StagePending \<or> sg_state g = StageRunning"

definition single_stage_open :: "ident \<Rightarrow> session_stage \<Rightarrow> bool" where
  "single_stage_open session_id g \<longleftrightarrow> sg_session_id g = session_id \<and> sg_position g = 0 \<and> stage_open g"

definition succeed_single_stage :: "millis \<Rightarrow> ident \<Rightarrow> string \<Rightarrow> db \<Rightarrow> db" where
  "succeed_single_stage now session_id reply d = d\<lparr>session_stages := update_where (single_stage_open session_id)
     (\<lambda>g. g\<lparr>sg_state := StageSucceeded, sg_result := reply, sg_error := '''',
             sg_started_at := Some (coalesce (sg_started_at g) now), sg_completed_at := Some now\<rparr>)
     (session_stages d)\<rparr>"

definition close_open_stages :: "millis \<Rightarrow> ident \<Rightarrow> stage_run_state \<Rightarrow> string \<Rightarrow> db \<Rightarrow> db" where
  "close_open_stages now session_id stage_state failure d = d\<lparr>session_stages := update_where
     (\<lambda>g. sg_session_id g = session_id \<and> stage_open g)
     (\<lambda>g. g\<lparr>sg_state := (if sg_state g = StageRunning then stage_state else StageCancelled),
             sg_error := (if sg_state g = StageRunning then failure else sg_error g),
             sg_completed_at := Some now\<rparr>) (session_stages d)\<rparr>"

definition complete_stages :: "millis \<Rightarrow> ident \<Rightarrow> completion \<Rightarrow> db \<Rightarrow> db result" where
  "complete_stages now session_id c d =
     (let d1 = (if cp_missing_outcome c then fail_last_stage now session_id (cp_error c) d else d);
          stages = stage_count d1 session_id;
          succeeded = succeeded_stage_count d1 session_id;
          direct = cp_state c = AttemptSucceeded \<and> stages = 1 \<and> succeeded = 0;
          d2 = (if direct then succeed_single_stage now session_id (cp_result c) d1 else d1);
          done' = (if direct then succeeded + count_where (single_stage_open session_id) (session_stages d1)
                   else succeeded)
      in if cp_state c = AttemptSucceeded \<and> 0 < stages \<and> done' \<noteq> stages
         then Inl (conflict ''pipeline_incomplete''
                ''all Pipeline stages must succeed before the Attempt can succeed'')
         else if cp_state c \<noteq> AttemptSucceeded \<and> 0 < stages
         then Inr (close_open_stages now session_id
                (if cp_state c = AttemptCancelled then StageCancelled else StageFailed) (cp_error c) d2)
         else Inr d2)"

subsection \<open>The rows of a completed Attempt\<close>

definition finish_attempt_row :: "millis \<Rightarrow> completion \<Rightarrow> attempt \<Rightarrow> attempt" where
  "finish_attempt_row now c a = a\<lparr>at_state := cp_state c, at_result := null_string (cp_result c),
     at_error := null_string (cp_error c), at_completed_at := Some now\<rparr>"

definition finish_applies :: "completion \<Rightarrow> work_update option \<Rightarrow> session_state \<Rightarrow> bool" where
  "finish_applies c outcome st =
     (if outcome \<noteq> None \<and> (cp_work_state c = SessionNeedsInput \<or> cp_state c = AttemptSucceeded)
      then st = SessionRunning else session_executing st)"

definition finish_session_row :: "millis \<Rightarrow> completion \<Rightarrow> work_update option \<Rightarrow> session \<Rightarrow> session" where
  "finish_session_row now c outcome s =
     (let ended = s\<lparr>ss_state := cp_work_state c, ss_terminal_at := Some now,
            ss_result := null_string (cp_result c), ss_failure_reason := null_string (cp_failure_reason c),
            ss_terminal_message := cp_terminal_message c, ss_execution_owner := ExecutionOwnerNone\<rparr>
      in case outcome of
           None \<Rightarrow> ended
         | Some u \<Rightarrow>
             if cp_work_state c = SessionNeedsInput then
               s\<lparr>ss_state := SessionNeedsInput, ss_terminal_at := None, ss_result := None,
                 ss_failure_reason := None, ss_terminal_message := cp_terminal_message c,
                 ss_question := wu_message u, ss_checkpoint_sha := wu_checkpoint_sha u,
                 ss_pending_resume_sha := wu_checkpoint_sha u,
                 ss_checkpoint_published := wu_checkpoint_published u, ss_answer := '''',
                 ss_execution_owner := ExecutionOwnerNone\<rparr>
             else if cp_state c = AttemptSucceeded then
               ended\<lparr>ss_result := None,
                 ss_pull_request_url := coalesce_nullif (wu_pull_request_url u) (ss_pull_request_url s),
                 ss_pull_request_head_branch :=
                   coalesce_nullif (wu_pull_request_head_branch u) (ss_pull_request_head_branch s),
                 ss_pull_request_head_sha :=
                   coalesce_nullif (wu_pull_request_head_sha u) (ss_pull_request_head_sha s)\<rparr>
             else if wu_status u = WorkUpdateNeedsInput then
               ended\<lparr>ss_checkpoint_sha := wu_checkpoint_sha u, ss_pending_resume_sha := wu_checkpoint_sha u,
                 ss_checkpoint_published := wu_checkpoint_published u\<rparr>
             else if wu_status u = WorkUpdateReady then
               ended\<lparr>ss_pull_request_url := wu_pull_request_url u,
                 ss_pull_request_head_branch := wu_pull_request_head_branch u,
                 ss_pull_request_head_sha := wu_pull_request_head_sha u\<rparr>
             else ended)"

definition complete_rows ::
    "millis \<Rightarrow> ident \<Rightarrow> ident \<Rightarrow> completion \<Rightarrow> work_update option \<Rightarrow> db \<Rightarrow> db" where
  "complete_rows now attempt_id execution_id c outcome d = d\<lparr>
     attempts := update_where (\<lambda>a. at_id a = attempt_id \<and> is_active (at_state a))
       (finish_attempt_row now c) (attempts d),
     executions := update_where (\<lambda>e. ex_id e = execution_id \<and> execution_executing (ex_state e))
       (\<lambda>e. e\<lparr>ex_state := execution_of_attempt (cp_state c), ex_updated_at := now\<rparr>) (executions d),
     sessions := update_where
       (\<lambda>s. Some (ss_id s) = execution_session d execution_id \<and> finish_applies c outcome (ss_state s))
       (finish_session_row now c outcome) (sessions d)\<rparr>"

subsection \<open>CompleteAttempt\<close>

definition write_completion ::
    "millis \<Rightarrow> db \<Rightarrow> ident \<Rightarrow> lease_state \<Rightarrow> completion \<Rightarrow> work_update option \<Rightarrow> (unit \<times> db) result" where
  "write_completion now d attempt_id lease c outcome =
     (if cp_state c = AttemptSucceeded \<and> ls_attempt_state lease \<noteq> AttemptRunning
      then Inl (conflict ''invalid_transition'' ''only a running attempt can succeed'')
      else case execution_session d (ls_execution_id lease) of
        None \<Rightarrow> Inl unavailable
      | Some session_id \<Rightarrow>
          and_then (complete_stages now session_id c d) (\<lambda>d1.
          and_then (update_run_lifecycle (ls_execution_id lease) now
              (complete_rows now attempt_id (ls_execution_id lease) c outcome d1)) (\<lambda>d2.
          Inr ((), d2))))"

definition complete_attempt_tx ::
    "int \<Rightarrow> db \<Rightarrow> ident \<Rightarrow> complete_attempt_request \<Rightarrow> (unit \<times> db) result" where
  "complete_attempt_tx now_ns d attempt_id input =
     (case terminal_attempt_state (ca_state input) of
        None \<Rightarrow> Inl (invalid ''invalid_terminal_state'' ''state must be succeeded, failed, or cancelled'')
      | Some state \<Rightarrow>
        if length (ca_result input) > max_result_bytes \<or> length (ca_error input) > max_error_bytes
        then Inl (too_large ''result_too_large'' ''result or error exceeds its storage limit'')
        else
          let now = unix_milli now_ns in
          and_then (validate_token (ca_lease_token input)) (\<lambda>_.
          and_then (load_lease d attempt_id) (\<lambda>lease.
          if is_terminal (ls_attempt_state lease) then
            (if ls_attempt_state lease = AttemptLost \<or>
                \<not> equal_digest (ls_digest lease) (digest_token (ca_lease_token input))
             then Inl (conflict ''lease_not_owner'' ''the lease token does not own this terminal attempt'')
             else Inr ((), d))
          else
            and_then (verify_active_lease lease (ca_lease_token input) now) (\<lambda>_.
            let outcome = (if ls_outcome_contract lease = OutcomeAgentUpdate
                           then attempt_outcome d attempt_id else None) in
            and_then (resolve_completion lease outcome state (ca_result input) (ca_error input)) (\<lambda>c.
            write_completion now d attempt_id lease c outcome)))))"

definition complete_attempt ::
    "int \<Rightarrow> db \<Rightarrow> ident \<Rightarrow> complete_attempt_request \<Rightarrow> attempt_view result \<times> db" where
  "complete_attempt now d attempt_id input =
     committed d (complete_attempt_tx now d attempt_id input) (\<lambda>d' _. attempt_reply d' attempt_id)"

subsection \<open>SweepExpired\<close>

definition attempt_backend_persistent :: "db \<Rightarrow> attempt \<Rightarrow> bool" where
  "attempt_backend_persistent d a =
     (case attempt_session d a of None \<Rightarrow> False | Some s \<Rightarrow> es_backend (ss_execution s) = BackendPersistent)"

definition lease_expired :: "db \<Rightarrow> millis \<Rightarrow> attempt \<Rightarrow> bool" where
  "lease_expired d now a \<longleftrightarrow>
     is_active (at_state a) \<and> at_lease_expires_at a \<le> now \<and> attempt_backend_persistent d a"

definition expired_leases :: "db \<Rightarrow> millis \<Rightarrow> (ident \<times> ident) list" where
  "expired_leases d now = map (\<lambda>a. (at_id a, at_execution_id a)) (filter (lease_expired d now) (attempts d))"

definition lease_expired_text :: string where
  "lease_expired_text = ''lease expired''"

text \<open>Evidence that a lost Attempt had already reported, and then the failure itself.\<close>

definition keep_evidence :: "work_update option \<Rightarrow> session \<Rightarrow> session" where
  "keep_evidence outcome s =
     (case outcome of
        None \<Rightarrow> s
      | Some u \<Rightarrow>
          if wu_status u = WorkUpdateNeedsInput then
            s\<lparr>ss_checkpoint_sha := wu_checkpoint_sha u, ss_pending_resume_sha := wu_checkpoint_sha u,
              ss_checkpoint_published := wu_checkpoint_published u\<rparr>
          else if wu_status u = WorkUpdateReady then
            s\<lparr>ss_pull_request_url := wu_pull_request_url u,
              ss_pull_request_head_branch := wu_pull_request_head_branch u,
              ss_pull_request_head_sha := wu_pull_request_head_sha u\<rparr>
          else s)"

definition lose_session_row :: "millis \<Rightarrow> work_update option \<Rightarrow> session \<Rightarrow> session" where
  "lose_session_row now outcome s = (keep_evidence outcome s)\<lparr>ss_state := SessionFailed,
     ss_terminal_at := Some now, ss_failure_reason := Some lease_expired_text,
     ss_terminal_message := lease_expired_text, ss_execution_owner := ExecutionOwnerNone\<rparr>"

definition lose_rows :: "millis \<Rightarrow> ident \<Rightarrow> ident \<Rightarrow> work_update option \<Rightarrow> db \<Rightarrow> db" where
  "lose_rows now attempt_id execution_id outcome d = d\<lparr>
     attempts := update_where (\<lambda>a. at_id a = attempt_id \<and> lease_expired d now a)
       (\<lambda>a. a\<lparr>at_state := AttemptLost, at_error := Some lease_expired_text, at_completed_at := Some now\<rparr>)
       (attempts d),
     executions := update_where (\<lambda>e. ex_id e = execution_id \<and> execution_executing (ex_state e))
       (\<lambda>e. e\<lparr>ex_state := ExecutionFailed, ex_updated_at := now\<rparr>) (executions d),
     sessions := update_where
       (\<lambda>s. Some (ss_id s) = execution_session d execution_id \<and> session_executing (ss_state s))
       (lose_session_row now outcome) (sessions d),
     session_stages := update_where
       (\<lambda>g. Some (sg_session_id g) = execution_session d execution_id \<and> stage_open g)
       (\<lambda>g. g\<lparr>sg_state := (if sg_state g = StageRunning then StageFailed else StageCancelled),
               sg_error := (if sg_state g = StageRunning then lease_expired_text else sg_error g),
               sg_completed_at := Some now\<rparr>) (session_stages d)\<rparr>"

definition sweep_one :: "millis \<Rightarrow> db \<Rightarrow> ident \<times> ident \<Rightarrow> db result" where
  "sweep_one now d lease =
     (let (attempt_id, execution_id) = lease in
      if count_where (\<lambda>a. at_id a = attempt_id \<and> lease_expired d now a) (attempts d) = 1
      then update_run_lifecycle execution_id now
             (lose_rows now attempt_id execution_id (attempt_outcome d attempt_id) d)
      else Inr d)"

fun sweep_all :: "millis \<Rightarrow> db \<Rightarrow> (ident \<times> ident) list \<Rightarrow> db result" where
  "sweep_all now d [] = Inr d"
| "sweep_all now d (lease # leases) = and_then (sweep_one now d lease) (\<lambda>d'. sweep_all now d' leases)"

definition drop_stale_claims :: "millis \<Rightarrow> db \<Rightarrow> db" where
  "drop_stale_claims now d = d\<lparr>claim_requests := delete_where
     (\<lambda>q. cq_attempt_id q = None \<and> cq_created_at q < now - empty_claim_ttl) (claim_requests d)\<rparr>"

definition sweep_expired_tx :: "int \<Rightarrow> db \<Rightarrow> ((ident \<times> ident) list \<times> db) result" where
  "sweep_expired_tx now_ns d =
     (let now = unix_milli now_ns; d1 = drop_stale_claims now d; leases = expired_leases d1 now in
      and_then (sweep_all now d1 leases) (\<lambda>d2. Inr (leases, d2)))"

definition sweep_expired :: "int \<Rightarrow> db \<Rightarrow> (ident \<times> ident) list result \<times> db" where
  "sweep_expired now d = committed d (sweep_expired_tx now d) (\<lambda>_ leases. Inr leases)"

subsection \<open>What a completion can be resolved to\<close>

definition completion_ok :: "completion \<Rightarrow> work_update option \<Rightarrow> bool" where
  "completion_ok c outcome \<longleftrightarrow>
     cp_state c \<in> {AttemptSucceeded, AttemptFailed, AttemptCancelled} \<and>
     cp_work_state c \<in> {SessionSucceeded, SessionFailed, SessionCancelled, SessionReady, SessionNeedsInput, SessionNoChange} \<and>
     (cp_work_state c = SessionNeedsInput \<longrightarrow>
        cp_state c = AttemptSucceeded \<and> (\<exists>u. outcome = Some u \<and> wu_status u = WorkUpdateNeedsInput)) \<and>
     (cp_work_state c = SessionReady \<longrightarrow>
        cp_state c = AttemptSucceeded \<and> (\<exists>u. outcome = Some u \<and> wu_status u = WorkUpdateReady)) \<and>
     (cp_missing_outcome c \<longrightarrow> cp_state c = AttemptFailed \<and> outcome = None)"

lemma terminal_attempt_state_Some:
  "terminal_attempt_state v = Some st \<Longrightarrow> st = AttemptSucceeded \<or> st = AttemptFailed \<or> st = AttemptCancelled"
  by (auto simp: terminal_attempt_state_def split: if_splits)

lemma resolve_completion_ok:
  assumes "st = AttemptSucceeded \<or> st = AttemptFailed \<or> st = AttemptCancelled"
    and "resolve_completion lease outcome st reply failure = Inr c"
  shows "completion_ok c outcome"
  using assms
  by (auto simp: resolve_completion_def completion_ok_def Let_def
      split: if_splits option.splits work_update_status.splits)

lemma completion_terminal:
  assumes "completion_ok c outcome"
  shows "is_terminal (cp_state c)" "\<not> is_active (cp_state c)" "cp_state c \<noteq> AttemptLost"
    "\<not> execution_executing (execution_of_attempt (cp_state c))" "execution_of_attempt (cp_state c) \<noteq> ExecutionQueued"
  using assms by (auto simp: completion_ok_def state_predicates)

lemma completion_states_agree:
  "completion_ok c outcome \<Longrightarrow> states_agree (execution_of_attempt (cp_state c)) (cp_work_state c)"
  by (auto simp: completion_ok_def states_agree_def)

lemma finish_session_row_state [simp]:
  "completion_ok c outcome \<Longrightarrow> ss_state (finish_session_row now c outcome s) = cp_work_state c"
  by (auto simp: finish_session_row_def Let_def split: option.splits)

lemma finish_session_row_ids [simp]:
  "ss_id (finish_session_row now c outcome s) = ss_id s"
  "ss_run_id (finish_session_row now c outcome s) = ss_run_id s"
  by (auto simp: finish_session_row_def Let_def split: option.splits)

lemma finish_session_row_ok:
  assumes c: "completion_ok c outcome" and u: "\<And>u. outcome = Some u \<Longrightarrow> update_row_ok u"
  shows "session_row_ok (finish_session_row now c outcome s)"
proof -
  have row: "cp_work_state c \<noteq> SessionNeedsInput \<Longrightarrow> \<not> session_executing (cp_work_state c)"
    using c by (auto simp: completion_ok_def state_predicates)
  show ?thesis
  proof (cases outcome)
    case None
    with c row show ?thesis
      by (auto simp: finish_session_row_def session_row_ok_def completion_ok_def)
  next
    case (Some u')
    note ok = u [OF Some, unfolded update_row_ok_def]
    show ?thesis
    proof (cases "cp_work_state c = SessionNeedsInput")
      case True
      with c Some ok show ?thesis
        by (auto simp: finish_session_row_def session_row_ok_def completion_ok_def state_predicates
            dest: valid_commit_sha_nonempty)
    next
      case False
      let ?s = "finish_session_row now c outcome s"
      have "ss_state ?s = cp_work_state c" "ss_execution_owner ?s = ExecutionOwnerNone" "ss_terminal_at ?s = Some now"
        using c False by (simp_all add: finish_session_row_def Some Let_def)
      moreover have "ss_pull_request_url ?s \<noteq> []" if "cp_work_state c = SessionReady"
        using c ok that by (auto simp: finish_session_row_def completion_ok_def Some Let_def coalesce_nullif_def)
      ultimately show ?thesis
        using row [OF False] False by (simp add: session_row_ok_def)
    qed
  qed
qed

lemma finish_applies_iff:
  assumes c: "completion_ok c outcome" and agree: "states_agree es st" "es = execution_of_attempt ast"
    and act: "is_active ast" and run: "cp_state c = AttemptSucceeded \<longrightarrow> ast = AttemptRunning"
  shows "finish_applies c outcome st"
proof -
  have "session_executing st"
    using act agree by (cases ast) (auto simp: states_agree_def state_predicates)
  moreover have "st = SessionRunning" if "cp_state c = AttemptSucceeded"
    using agree run that by (simp add: states_agree_def)
  moreover have "cp_state c = AttemptSucceeded" if "cp_work_state c = SessionNeedsInput"
    using c that by (simp add: completion_ok_def)
  ultimately show ?thesis by (auto simp: finish_applies_def)
qed

subsection \<open>The stages change alone\<close>

definition only_stages :: "db \<Rightarrow> db \<Rightarrow> bool" where
  "only_stages d d' \<longleftrightarrow> (\<exists>f. d' = d\<lparr>session_stages := f\<rparr>) \<and>
     map (\<lambda>g. (sg_session_id g, sg_position g)) (session_stages d') =
     map (\<lambda>g. (sg_session_id g, sg_position g)) (session_stages d)"

lemma only_stages_refl [simp]: "only_stages d d"
  by (auto simp: only_stages_def intro: exI [of _ "session_stages d"])

lemma only_stages_trans: "only_stages d d' \<Longrightarrow> only_stages d' d'' \<Longrightarrow> only_stages d d''"
  by (auto simp: only_stages_def)

lemma only_stages_tables:
  assumes "only_stages d d'"
  shows "runs d' = runs d" "sessions d' = sessions d" "executions d' = executions d" "attempts d' = attempts d"
    "work_updates d' = work_updates d"
  using assms by (auto simp: only_stages_def)

lemma only_stages_store_ok: "only_stages d d' \<Longrightarrow> store_ok d \<Longrightarrow> store_ok d'"
  by (erule store_ok_frame) (auto simp: only_stages_def)

lemma only_stages_steps [simp]:
  "only_stages d (fail_last_stage now i failure d)" "only_stages d (succeed_single_stage now i reply d)"
  "only_stages d (close_open_stages now i st failure d)"
  by (auto simp: only_stages_def fail_last_stage_def succeed_single_stage_def close_open_stages_def map_update_where)

lemma complete_stages_only: "complete_stages now i c d = Inr d' \<Longrightarrow> only_stages d d'"
  by (auto simp: complete_stages_def Let_def split: if_splits
      intro: only_stages_trans [OF only_stages_steps(1) only_stages_steps(3)]
        only_stages_trans [OF only_stages_steps(1) only_stages_steps(2)])

subsection \<open>The store after a completion\<close>

lemma refresh_run_store_ok:
  assumes "core_ok d'" "runs_ok d" "in_place fs (sessions d) (sessions d')" "runs d' = runs d"
    and "\<And>s. s \<in> set (sessions d) \<Longrightarrow> ss_run_id (fs s) = ss_run_id s"
    and "\<And>s. s \<in> set (sessions d) \<Longrightarrow> ss_run_id s \<noteq> i \<Longrightarrow>
        session_nonterminal (ss_state (fs s)) = session_nonterminal (ss_state s)"
  shows "store_ok (refresh_run now i d')"
  unfolding store_ok_def
proof
  have keys: "same_keys d' (refresh_run now i d')"
    by (simp add: same_keys_def refresh_run_def map_update_where)
  show "core_ok (refresh_run now i d')"
    unfolding refresh_run_def
    by (rule core_ok_same_states [OF assms(1) keys [unfolded refresh_run_def]], (simp, rule in_place_same)+, auto)
  show "runs_ok (refresh_run now i d')"
    by (rule runs_ok_refresh [OF assms(2) _ _ assms(5,6), where now = now])
      (use assms(3,4) in \<open>simp_all add: refresh_run_def run_finished_def run_session_count_def\<close>)
qed

lemma complete_rows_core_ok:
  assumes ok: "core_ok d" and a: "a \<in> set (attempts d)" "is_active (at_state a)"
    and e: "e \<in> set (executions d)" "ex_id e = at_execution_id a"
    and s: "s \<in> set (sessions d)" "ss_id s = ex_session_id e"
    and c: "completion_ok c outcome" and u: "\<And>u. outcome = Some u \<Longrightarrow> update_row_ok u"
    and run: "cp_state c = AttemptSucceeded \<longrightarrow> at_state a = AttemptRunning"
  shows "core_ok (complete_rows now (at_id a) (ex_id e) c outcome d)"
proof -
  note ok' = core_okD [OF ok]
  have es: "ex_state e = execution_of_attempt (at_state a)"
    by (rule lifecycle_attempt_execution [OF ok'(3) a(1) e a(2)])
  then have executing: "execution_executing (ex_state e)"
    using execution_of_active [OF a(2)] by simp
  have applies: "finish_applies c outcome (ss_state s)"
    by (rule finish_applies_iff [OF c lifecycle_states_agree [OF ok'(3) e(1) s] es a(2) run])
  show ?thesis
    unfolding complete_rows_def execution_session_in [OF ok'(1) e(1)]
  proof (rule core_ok_active [OF ok _ _ _ _ a(1) e s a(2)],
      simp add: same_keys_def map_update_where finish_attempt_row_def,
      (simp, rule in_place_intros)+, goal_cases)
    case (1 x) then show ?case using attempt_unique [OF ok'(1) a(1), of x] by auto
  next
    case (2 x) then show ?case using execution_unique [OF ok'(1) e(1), of x] by auto
  next
    case (3 x) then show ?case using session_unique [OF ok'(1) s(1), of x] s(2) by auto
  qed (use a executing applies s c completion_terminal [OF c] completion_states_agree [OF c]
        finish_session_row_ok [OF c u] in \<open>simp_all add: finish_attempt_row_def\<close>)
qed

lemma complete_rows_execution_run:
  assumes "keys_ok d" "e \<in> set (executions d)" "s \<in> set (sessions d)" "ss_id s = ex_session_id e"
  shows "execution_run (complete_rows now i (ex_id e) c outcome d) (ex_id e) = Some (ss_run_id s)"
proof -
  let ?d = "complete_rows now i (ex_id e) c outcome d"
  let ?g = "\<lambda>x. x\<lparr>ex_state := execution_of_attempt (cp_state c), ex_updated_at := now\<rparr>"
  have "find (\<lambda>x. ex_id x = ex_id e) (executions ?d) = Some (if execution_executing (ex_state e) then ?g e else e)"
    using find_execution_in [OF assms(1,2)]
    by (simp add: complete_rows_def find_execution_def find_update_where)
  then have "execution_session ?d (ex_id e) = Some (ss_id s)"
    using assms(4) by (simp add: execution_session_def find_execution_def)
  moreover obtain t where "find_session ?d (ss_id s) = Some t" "ss_run_id t = ss_run_id s"
    using find_session_in [OF assms(1,3)] by (simp add: complete_rows_def find_session_def find_update_where)
  ultimately show ?thesis by (simp add: execution_run_def)
qed

lemma write_completion_ok:
  assumes ok: "store_ok d" and a: "a \<in> set (attempts d)" "is_active (at_state a)" and lease: "lease = lease_of r e a"
    and e: "e \<in> set (executions d)" "ex_id e = at_execution_id a"
    and s: "s \<in> set (sessions d)" "ss_id s = ex_session_id e"
    and c: "completion_ok c outcome" and u: "\<And>u. outcome = Some u \<Longrightarrow> update_row_ok u"
    and w: "write_completion now d (at_id a) lease c outcome = Inr (v, d')"
  shows "store_ok d'"
proof -
  note ok' = store_okD [OF ok]
  have xs: "execution_session d (at_execution_id a) = Some (ex_session_id e)"
    using execution_session_in [OF ok'(1) e(1)] e(2) by simp
  from w xs obtain d1 d2 where run: "cp_state c = AttemptSucceeded \<longrightarrow> at_state a = AttemptRunning"
    and d1: "complete_stages now (ex_session_id e) c d = Inr d1"
    and d2: "d2 = complete_rows now (at_id a) (ex_id e) c outcome d1"
    and d': "update_run_lifecycle (ex_id e) now d2 = Inr d'"
    by (auto simp: write_completion_def lease and_then_Inr e(2) split: if_splits)
  note only = complete_stages_only [OF d1]
  note tabs = only_stages_tables [OF only]
  have ok1: "store_ok d1" by (rule only_stages_store_ok [OF only ok])
  note ok1' = store_okD [OF ok1]
  have core: "core_ok d2"
    unfolding d2 by (rule complete_rows_core_ok [OF ok1'(6)]) (use a e s c u run tabs in simp_all)
  let ?f = "\<lambda>t. if Some (ss_id t) = execution_session d1 (ex_id e) \<and> finish_applies c outcome (ss_state t)
      then finish_session_row now c outcome t else t"
  have place: "in_place ?f (sessions d1) (sessions d2)"
    unfolding d2 complete_rows_def by (simp, rule in_place_update)
  have e1: "e \<in> set (executions d1)" and s1: "s \<in> set (sessions d1)" using e s tabs by simp_all
  have xs1: "execution_session d1 (ex_id e) = Some (ss_id s)"
    using execution_session_in [OF ok1'(1) e1] s(2) by simp
  have "execution_run d2 (ex_id e) = Some (ss_run_id s)"
    unfolding d2 by (rule complete_rows_execution_run [OF ok1'(1) e1 s1 s(2)])
  with d' have d'_eq: "d' = refresh_run now (ss_run_id s) d2"
    by (simp add: update_run_lifecycle_def)
  show ?thesis
    unfolding d'_eq
  proof (rule refresh_run_store_ok [OF core ok1'(5) place])
    show "runs d2 = runs d1" by (simp add: d2 complete_rows_def)
    show "session_nonterminal (ss_state (?f t)) = session_nonterminal (ss_state t)"
      if "t \<in> set (sessions d1)" "ss_run_id t \<noteq> ss_run_id s" for t
      using session_unique [OF ok1'(1) that(1) s1] that(2) xs1 by auto
  qed simp
qed

lemma complete_attempt_ok:
  assumes ok: "store_ok d" "history_ok d" and w: "complete_attempt_tx now d i input = Inr (v, d')"
  shows "store_ok d'"
proof -
  from w obtain st lease where st: "terminal_attempt_state (ca_state input) = Some st"
    and lease: "load_lease d i = Inr lease"
    by (auto simp: complete_attempt_tx_def and_then_Inr Let_def split: if_splits option.splits)
  obtain a e s r where rows: "a \<in> set (attempts d)" "at_id a = i" "e \<in> set (executions d)" "ex_id e = at_execution_id a"
    "s \<in> set (sessions d)" "ss_id s = ex_session_id e" "lease = lease_of r e a"
    using load_lease_rows [OF lease] by metis
  show ?thesis
  proof (cases "is_terminal (at_state a)")
    case True
    with w st lease rows(7) ok(1) show ?thesis
      by (auto simp: complete_attempt_tx_def and_then_Inr Let_def split: if_splits)
  next
    case False
    define outcome where "outcome = (if ls_outcome_contract lease = OutcomeAgentUpdate then attempt_outcome d i else None)"
    from w st lease rows(7) False obtain c where
      c: "resolve_completion lease outcome st (ca_result input) (ca_error input) = Inr c"
      and w': "write_completion (unix_milli now) d i lease c outcome = Inr (v, d')"
      by (auto simp: complete_attempt_tx_def and_then_Inr Let_def outcome_def split: if_splits)
    have "completion_ok c outcome"
      by (rule resolve_completion_ok [OF terminal_attempt_state_Some [OF st] c])
    moreover have "update_row_ok u" if "outcome = Some u" for u
      using that attempt_outcome_row [OF ok(2)] by (auto simp: outcome_def split: if_splits)
    moreover have "is_active (at_state a)" using False active_or_terminal by blast
    ultimately show ?thesis
      using write_completion_ok [OF ok(1) rows(1) _ rows(7,3,4,5,6)] w' rows(2) by metis
  qed
qed

subsection \<open>The store after a sweep\<close>

lemma lose_session_row_simps [simp]:
  "ss_id (lose_session_row now outcome s) = ss_id s"
  "ss_run_id (lose_session_row now outcome s) = ss_run_id s"
  "ss_state (lose_session_row now outcome s) = SessionFailed"
  "session_row_ok (lose_session_row now outcome s)"
  by (auto simp: lose_session_row_def keep_evidence_def session_row_ok_def session_executing_def split: option.splits)

lemma lose_rows_same_keys: "same_keys d (lose_rows now i x outcome d)"
  by (simp add: same_keys_def lose_rows_def map_update_where)

lemma lose_rows_core_ok:
  assumes ok: "core_ok d" and a: "a \<in> set (attempts d)" "lease_expired d now a"
    and e: "e \<in> set (executions d)" "ex_id e = at_execution_id a"
    and s: "s \<in> set (sessions d)" "ss_id s = ex_session_id e"
  shows "core_ok (lose_rows now (at_id a) (ex_id e) outcome d)"
proof -
  note ok' = core_okD [OF ok]
  have act: "is_active (at_state a)" using a(2) by (simp add: lease_expired_def)
  have executing: "execution_executing (ex_state e)"
    using lifecycle_attempt_execution [OF ok'(3) a(1) e act] execution_of_active [OF act] by simp
  have sx: "session_executing (ss_state s)"
    using states_agree_executing [OF lifecycle_states_agree [OF ok'(3) e(1) s]] executing by simp
  show ?thesis
    unfolding lose_rows_def execution_session_in [OF ok'(1) e(1)]
  proof (rule core_ok_active [OF ok _ _ _ _ a(1) e s act], simp add: same_keys_def map_update_where,
      (simp, rule in_place_intros)+, goal_cases)
    case (1 x) then show ?case using attempt_unique [OF ok'(1) a(1), of x] by auto
  next
    case (2 x) then show ?case using execution_unique [OF ok'(1) e(1), of x] by auto
  next
    case (3 x) then show ?case using session_unique [OF ok'(1) s(1), of x] s(2) by auto
  qed (use a executing sx s in \<open>simp_all add: state_predicates states_agree_def\<close>)
qed

lemma lose_rows_execution_run:
  assumes "keys_ok d" "e \<in> set (executions d)" "s \<in> set (sessions d)" "ss_id s = ex_session_id e"
  shows "execution_run (lose_rows now i (ex_id e) outcome d) (ex_id e) = Some (ss_run_id s)"
proof -
  let ?d = "lose_rows now i (ex_id e) outcome d"
  have "find (\<lambda>y. ex_id y = ex_id e) (executions ?d) =
      Some (if execution_executing (ex_state e) then e\<lparr>ex_state := ExecutionFailed, ex_updated_at := now\<rparr> else e)"
    using find_execution_in [OF assms(1,2)] by (simp add: lose_rows_def find_execution_def find_update_where)
  then have "execution_session ?d (ex_id e) = Some (ss_id s)"
    using assms(4) by (simp add: execution_session_def find_execution_def)
  moreover obtain t where "find_session ?d (ss_id s) = Some t" "ss_run_id t = ss_run_id s"
    using find_session_in [OF assms(1,3)] by (simp add: lose_rows_def find_session_def find_update_where)
  ultimately show ?thesis by (simp add: execution_run_def)
qed

lemma sweep_one_ok:
  assumes ok: "store_ok d" and w: "sweep_one now d (i, x) = Inr d'"
    and x: "\<And>a. a \<in> set (attempts d) \<Longrightarrow> at_id a = i \<Longrightarrow> at_execution_id a = x"
  shows "store_ok d'"
proof (cases "count_where (\<lambda>a. at_id a = i \<and> lease_expired d now a) (attempts d) = 1")
  case False
  with w ok show ?thesis by (simp add: sweep_one_def)
next
  case True
  note ok' = store_okD [OF ok]
  let ?o = "attempt_outcome d i"
  define d2 where "d2 = lose_rows now i x ?o d"
  from True have "count_where (\<lambda>a. at_id a = i \<and> lease_expired d now a) (attempts d) \<noteq> 0" by simp
  then obtain a where a: "a \<in> set (attempts d)" "at_id a = i" "lease_expired d now a"
    unfolding count_where_eq_0 by blast
  obtain e where e: "e \<in> set (executions d)" "ex_id e = at_execution_id a"
    using attempt_execution_exists [OF ok'(2) a(1)] by metis
  obtain s where s: "s \<in> set (sessions d)" "ss_id s = ex_session_id e"
    using execution_session_exists [OF ok'(2) e(1)] by metis
  have xe: "x = ex_id e" using x [OF a(1,2)] e(2) by simp
  have core: "core_ok d2"
    using lose_rows_core_ok [OF ok'(6) a(1,3) e s] a(2) by (simp add: d2_def xe)
  let ?f = "\<lambda>t. if Some (ss_id t) = execution_session d x \<and> session_executing (ss_state t)
      then lose_session_row now ?o t else t"
  have place: "in_place ?f (sessions d) (sessions d2)"
    unfolding d2_def lose_rows_def by (simp, rule in_place_update)
  have xs: "execution_session d x = Some (ss_id s)"
    using execution_session_in [OF ok'(1) e(1)] s(2) xe by simp
  have "execution_run d2 x = Some (ss_run_id s)"
    unfolding d2_def xe by (rule lose_rows_execution_run [OF ok'(1) e(1) s])
  with w True have d'_eq: "d' = refresh_run now (ss_run_id s) d2"
    by (simp add: sweep_one_def update_run_lifecycle_def d2_def)
  show ?thesis
    unfolding d'_eq
  proof (rule refresh_run_store_ok [OF core ok'(5) place])
    show "runs d2 = runs d" by (simp add: d2_def lose_rows_def)
    show "session_nonterminal (ss_state (?f t)) = session_nonterminal (ss_state t)"
      if "t \<in> set (sessions d)" "ss_run_id t \<noteq> ss_run_id s" for t
      using session_unique [OF ok'(1) that(1) s(1)] that(2) xs by auto
  qed simp
qed

lemma refresh_run_tables [simp]:
  "attempts (refresh_run now i d) = attempts d" "executions (refresh_run now i d) = executions d"
  "sessions (refresh_run now i d) = sessions d" "session_stages (refresh_run now i d) = session_stages d"
  "work_updates (refresh_run now i d) = work_updates d"
  by (simp_all add: refresh_run_def)

lemma sweep_one_attempts:
  assumes "sweep_one now d (i, x) = Inr d'"
  shows "attempts d' = update_where (\<lambda>a. at_id a = i \<and> lease_expired d now a \<and>
           count_where (\<lambda>a. at_id a = i \<and> lease_expired d now a) (attempts d) = 1)
       (\<lambda>a. a\<lparr>at_state := AttemptLost, at_error := Some lease_expired_text, at_completed_at := Some now\<rparr>) (attempts d)"
  using assms
  by (auto simp: sweep_one_def update_run_lifecycle_def lose_rows_def update_where_def map_idI split: if_splits option.splits)

lemma sweep_all_ok:
  assumes "store_ok d" "sweep_all now d leases = Inr d'"
    and "\<And>i x a. (i, x) \<in> set leases \<Longrightarrow> a \<in> set (attempts d) \<Longrightarrow> at_id a = i \<Longrightarrow> at_execution_id a = x"
  shows "store_ok d'"
  using assms
proof (induction leases arbitrary: d)
  case (Cons lease leases)
  obtain i x where ix: "lease = (i, x)" by (cases lease)
  from Cons.prems(2) obtain d1 where d1: "sweep_one now d (i, x) = Inr d1" "sweep_all now d1 leases = Inr d'"
    by (auto simp: ix and_then_Inr)
  have ok1: "store_ok d1"
    by (rule sweep_one_ok [OF Cons.prems(1) d1(1)]) (use Cons.prems(3) ix in auto)
  show ?case
  proof (rule Cons.IH [OF ok1 d1(2)])
    show "at_execution_id a = y" if m: "(j, y) \<in> set leases" "a \<in> set (attempts d1)" "at_id a = j" for j y a
    proof -
      obtain b where "b \<in> set (attempts d)" "at_id b = at_id a" "at_execution_id b = at_execution_id a"
        using m(2) unfolding sweep_one_attempts [OF d1(1)] by (auto simp: set_update_where split: if_splits)
      then show ?thesis using Cons.prems(3) [of j y b] m ix by auto
    qed
  qed
qed simp

lemma sweep_expired_ok:
  assumes ok: "store_ok d" and w: "sweep_expired_tx now d = Inr (leases, d')"
  shows "store_ok d'"
proof -
  let ?d = "drop_stale_claims (unix_milli now) d"
  have ok1: "store_ok ?d" by (rule store_ok_frame [OF ok]) (simp_all add: drop_stale_claims_def)
  from w have l: "leases = expired_leases ?d (unix_milli now)" and s: "sweep_all (unix_milli now) ?d leases = Inr d'"
    by (auto simp: sweep_expired_tx_def Let_def and_then_Inr)
  show ?thesis
    by (rule sweep_all_ok [OF ok1 s])
      (use attempt_unique [OF store_okD(1) [OF ok1]] in \<open>auto simp: l expired_leases_def\<close>)
qed

subsection \<open>The order of the stages\<close>

lemma last_position_ge:
  "h \<in> set (session_stages d) \<Longrightarrow> sg_session_id h = i \<Longrightarrow> sg_position h \<le> last_position d i"
  unfolding last_position_def by (intro Max_ge) auto

lemma fail_last_stage_stages_ok: "stages_ok d \<Longrightarrow> stages_ok (fail_last_stage now i failure d)"
  unfolding fail_last_stage_def
  by (rule stages_ok_map, assumption, simp, rule in_place_update)
    (auto dest: last_position_ge split: if_splits)

lemma succeed_single_stage_stages_ok: "stages_ok d \<Longrightarrow> stages_ok (succeed_single_stage now i reply d)"
  unfolding succeed_single_stage_def
  by (rule stages_ok_map, assumption, simp, rule in_place_update)
    (auto simp: single_stage_open_def split: if_splits)

lemma close_open_stages_stages_ok:
  "stages_ok d \<Longrightarrow> st \<noteq> StageRunning \<Longrightarrow> st \<noteq> StageSucceeded \<Longrightarrow> stages_ok (close_open_stages now i st failure d)"
  unfolding close_open_stages_def
  by (rule stages_ok_map, assumption, simp, rule in_place_update)
    (auto simp: stage_open_def split: if_splits)

lemma complete_stages_stages_ok:
  "stages_ok d \<Longrightarrow> complete_stages now i c d = Inr d' \<Longrightarrow> stages_ok d'"
  by (auto simp: complete_stages_def Let_def split: if_splits
      intro!: fail_last_stage_stages_ok succeed_single_stage_stages_ok close_open_stages_stages_ok)

lemma complete_rows_stages [simp]: "session_stages (complete_rows now i x c outcome d) = session_stages d"
  by (simp add: complete_rows_def)

lemma update_run_lifecycle_tables:
  assumes "update_run_lifecycle x now d = Inr d'"
  shows "attempts d' = attempts d" "executions d' = executions d" "sessions d' = sessions d"
    "session_stages d' = session_stages d" "work_updates d' = work_updates d"
  using assms by (auto simp: update_run_lifecycle_def split: option.splits)

lemma complete_attempt_writes:
  assumes "complete_attempt_tx now d i input = Inr (v, d')"
  obtains "d' = d"
  | c outcome x sid d1 where "complete_stages (unix_milli now) sid c d = Inr d1"
      "update_run_lifecycle x (unix_milli now) (complete_rows (unix_milli now) i x c outcome d1) = Inr d'"
  using assms
  by (auto simp: complete_attempt_tx_def write_completion_def and_then_Inr Let_def split: if_splits option.splits)

lemma complete_attempt_stages_ok:
  assumes "stages_ok d" "complete_attempt_tx now d i input = Inr (v, d')"
  shows "stages_ok d'"
proof (rule complete_attempt_writes [OF assms(2)])
  fix c outcome x sid d1
  assume "complete_stages (unix_milli now) sid c d = Inr d1"
    and u: "update_run_lifecycle x (unix_milli now) (complete_rows (unix_milli now) i x c outcome d1) = Inr d'"
  then have "stages_ok d1" using assms(1) complete_stages_stages_ok by blast
  then show "stages_ok d'" by (rule stages_ok_frame) (simp add: update_run_lifecycle_tables(4) [OF u])
qed (use assms(1) in simp)

lemma lose_rows_stages_ok:
  assumes "stages_ok d" shows "stages_ok (lose_rows now i x outcome d)"
  unfolding lose_rows_def
  by (rule stages_ok_map [OF assms], simp, rule in_place_update) (auto simp: stage_open_def split: if_splits)

lemma sweep_all_stages_ok: "stages_ok d \<Longrightarrow> sweep_all now d leases = Inr d' \<Longrightarrow> stages_ok d'"
proof (induction leases arbitrary: d)
  case (Cons lease leases)
  then obtain d1 where d1: "sweep_one now d lease = Inr d1" "sweep_all now d1 leases = Inr d'"
    by (auto simp: and_then_Inr)
  have "stages_ok d1"
    using Cons.prems(1) d1(1) stages_ok_frame [OF lose_rows_stages_ok update_run_lifecycle_tables(4)]
    by (cases lease) (auto simp: sweep_one_def split: if_splits)
  with Cons.IH d1(2) show ?case by blast
qed simp

lemma sweep_expired_stages_ok:
  assumes "stages_ok d" "sweep_expired_tx now d = Inr (leases, d')"
  shows "stages_ok d'"
proof -
  have "stages_ok (drop_stale_claims (unix_milli now) d)"
    by (rule stages_ok_frame [OF assms(1)]) (simp add: drop_stale_claims_def)
  with assms(2) show ?thesis
    by (auto simp: sweep_expired_tx_def Let_def and_then_Inr intro: sweep_all_stages_ok)
qed

lemma complete_attempt_history:
  assumes "complete_attempt_tx now d i input = Inr (v, d')"
  shows "work_updates d' = work_updates d"
proof (rule complete_attempt_writes [OF assms])
  fix c outcome x sid d1
  assume s: "complete_stages (unix_milli now) sid c d = Inr d1"
    and u: "update_run_lifecycle x (unix_milli now) (complete_rows (unix_milli now) i x c outcome d1) = Inr d'"
  show ?thesis
    using update_run_lifecycle_tables(5) [OF u] only_stages_tables(5) [OF complete_stages_only [OF s]]
    by (simp add: complete_rows_def)
qed simp

lemma sweep_all_history: "sweep_all now d leases = Inr d' \<Longrightarrow> work_updates d' = work_updates d"
proof (induction leases arbitrary: d)
  case (Cons lease leases)
  then obtain d1 where d1: "sweep_one now d lease = Inr d1" "sweep_all now d1 leases = Inr d'"
    by (auto simp: and_then_Inr)
  have "work_updates d1 = work_updates d"
    using d1(1) by (cases lease) (auto simp: sweep_one_def lose_rows_def dest: update_run_lifecycle_tables(5) split: if_splits)
  with Cons.IH [OF d1(2)] show ?case by simp
qed simp

subsection \<open>What a sweep loses\<close>

definition lost_row :: "millis \<Rightarrow> attempt \<Rightarrow> attempt" where
  "lost_row now a = a\<lparr>at_state := AttemptLost, at_error := Some lease_expired_text, at_completed_at := Some now\<rparr>"

lemma lose_session_row_execution [simp]: "ss_execution (lose_session_row now outcome s) = ss_execution s"
  by (auto simp: lose_session_row_def keep_evidence_def split: option.splits)

lemma lose_rows_backend [simp]:
  "attempt_backend_persistent (lose_rows now i x outcome d) b = attempt_backend_persistent d b"
  by (auto simp: attempt_backend_persistent_def attempt_session_def attempt_execution_def lose_rows_def
      find_execution_def find_session_def find_update_where split: option.splits)

lemma refresh_run_backend [simp]: "attempt_backend_persistent (refresh_run now i d) b = attempt_backend_persistent d b"
proof -
  have "find_session (refresh_run now i d) = find_session d" by (rule ext) (simp add: find_session_def)
  then show ?thesis
    by (simp add: attempt_backend_persistent_def attempt_session_def attempt_execution_def find_execution_def
        cong: option.case_cong)
qed

lemma sweep_one_total:
  assumes ok: "store_ok d" and a: "a \<in> set (attempts d)"
  obtains d' where "sweep_one now d (at_id a, at_execution_id a) = Inr d'"
    "attempts d' = update_where (\<lambda>b. at_id b = at_id a \<and> lease_expired d now b) (lost_row now) (attempts d)"
    "\<And>b. attempt_backend_persistent d' b = attempt_backend_persistent d b"
proof (cases "lease_expired d now a")
  case True
  note ok' = store_okD [OF ok]
  obtain e where e: "e \<in> set (executions d)" "ex_id e = at_execution_id a"
    using attempt_execution_exists [OF ok'(2) a] by metis
  obtain s where s: "s \<in> set (sessions d)" "ss_id s = ex_session_id e"
    using execution_session_exists [OF ok'(2) e(1)] by metis
  let ?o = "attempt_outcome d (at_id a)"
  have run: "execution_run (lose_rows now (at_id a) (at_execution_id a) ?o d) (at_execution_id a) = Some (ss_run_id s)"
    using lose_rows_execution_run [OF ok'(1) e(1) s] e(2) by simp
  have le: "count_where (\<lambda>b. at_id b = at_id a \<and> lease_expired d now b) (attempts d) \<le> 1"
    by (rule count_key_le_one [where k = at_id]) (use ok'(1) in \<open>auto simp: keys_ok_def\<close>)
  have ne: "count_where (\<lambda>b. at_id b = at_id a \<and> lease_expired d now b) (attempts d) \<noteq> 0"
    unfolding count_where_eq_0 using a True by blast
  have "count_where (\<lambda>b. at_id b = at_id a \<and> lease_expired d now b) (attempts d) = 1"
    using le ne by linarith
  then have "sweep_one now d (at_id a, at_execution_id a) =
      Inr (refresh_run now (ss_run_id s) (lose_rows now (at_id a) (at_execution_id a) ?o d))"
    using run by (simp add: sweep_one_def update_run_lifecycle_def)
  then show thesis
  proof (rule that)
    show "attempts (refresh_run now (ss_run_id s) (lose_rows now (at_id a) (at_execution_id a) ?o d)) =
        update_where (\<lambda>b. at_id b = at_id a \<and> lease_expired d now b) (lost_row now) (attempts d)"
      by (simp add: lose_rows_def lost_row_def [abs_def])
  qed simp
next
  case False
  have none: "\<not> (at_id b = at_id a \<and> lease_expired d now b)" if "b \<in> set (attempts d)" for b
    using attempt_unique [OF store_okD(1) [OF ok] that a] False by auto
  then have zero: "count_where (\<lambda>b. at_id b = at_id a \<and> lease_expired d now b) (attempts d) = 0"
    by (simp add: count_where_eq_0)
  have "update_where (\<lambda>b. at_id b = at_id a \<and> lease_expired d now b) (lost_row now) (attempts d) = attempts d"
    unfolding update_where_def by (rule map_idI) (use none in auto)
  then show thesis
    by (intro that [of d]) (simp_all add: sweep_one_def zero)
qed

lemma lost_row_simps [simp]:
  "at_id (lost_row now a) = at_id a" "at_execution_id (lost_row now a) = at_execution_id a"
  "at_state (lost_row now a) = AttemptLost" "\<not> lease_expired d m (lost_row now a)"
  by (simp_all add: lost_row_def lease_expired_def is_active_def)

lemma lease_expired_cong:
  "attempt_backend_persistent d' a = attempt_backend_persistent d a \<Longrightarrow> lease_expired d' now a = lease_expired d now a"
  by (simp add: lease_expired_def)

lemma sweep_all_total:
  assumes "store_ok d" "\<And>i x. (i, x) \<in> set leases \<Longrightarrow> \<exists>a \<in> set (attempts d). at_id a = i \<and> at_execution_id a = x"
  shows "\<exists>d'. sweep_all now d leases = Inr d' \<and>
     attempts d' = update_where (\<lambda>b. at_id b \<in> fst ` set leases \<and> lease_expired d now b) (lost_row now) (attempts d) \<and>
     (\<forall>b. attempt_backend_persistent d' b = attempt_backend_persistent d b)"
  using assms
proof (induction leases arbitrary: d)
  case Nil
  then show ?case by (simp add: update_where_def)
next
  case (Cons lease leases)
  obtain a where a: "a \<in> set (attempts d)" "lease = (at_id a, at_execution_id a)"
    using Cons.prems(2) [of "fst lease" "snd lease"] by (cases lease) auto
  obtain d1 where d1: "sweep_one now d lease = Inr d1"
    "attempts d1 = update_where (\<lambda>b. at_id b = at_id a \<and> lease_expired d now b) (lost_row now) (attempts d)"
    "\<And>b. attempt_backend_persistent d1 b = attempt_backend_persistent d b"
    using sweep_one_total [OF Cons.prems(1) a(1)] unfolding a(2) by metis
  have ok1: "store_ok d1"
    by (rule sweep_one_ok [OF Cons.prems(1) d1(1) [unfolded a(2)]])
      (use attempt_unique [OF store_okD(1) [OF Cons.prems(1)] _ a(1)] in auto)
  have "\<exists>b \<in> set (attempts d1). at_id b = i \<and> at_execution_id b = x" if "(i, x) \<in> set leases" for i x
  proof -
    obtain b where "b \<in> set (attempts d)" "at_id b = i" "at_execution_id b = x"
      using Cons.prems(2) [of i x] \<open>(i, x) \<in> set leases\<close> by auto
    then show ?thesis
      unfolding d1(2) update_where_def
      by (intro bexI [of _ "if at_id b = at_id a \<and> lease_expired d now b then lost_row now b else b"]) auto
  qed
  with Cons.IH [OF ok1] obtain d' where d': "sweep_all now d1 leases = Inr d'"
    "attempts d' = update_where (\<lambda>b. at_id b \<in> fst ` set leases \<and> lease_expired d1 now b) (lost_row now) (attempts d1)"
    "\<forall>b. attempt_backend_persistent d' b = attempt_backend_persistent d1 b"
    by blast
  have "attempts d' = update_where (\<lambda>b. at_id b \<in> fst ` set (lease # leases) \<and> lease_expired d now b) (lost_row now) (attempts d)"
    unfolding d'(2) d1(2) a(2) update_where_def
    using lease_expired_cong [OF d1(3)] by auto
  with d1 d' show ?case by (simp add: and_then_def)
qed

subsection \<open>The lease guards a completion\<close>

interpretation complete_attempt: lease_guarded complete_attempt ca_lease_token
proof unfold_locales
  fix now d i input and reply :: "attempt_view result" and d'
  assume op: "complete_attempt now d i input = (reply, d')" and "d' \<noteq> d"
  then obtain x where tx: "complete_attempt_tx now d i input = Inr (x, d')"
    unfolding complete_attempt_def by (auto elim: committed_cases)
  then obtain lease where l: "load_lease d i = Inr lease"
    by (auto simp: complete_attempt_tx_def and_then_Inr Let_def split: if_splits option.splits)
  have "\<not> is_terminal (ls_attempt_state lease)"
  proof
    assume "is_terminal (ls_attempt_state lease)"
    with tx l have "d' = d"
      by (auto simp: complete_attempt_tx_def and_then_Inr Let_def split: if_splits option.splits)
    with \<open>d' \<noteq> d\<close> show False by simp
  qed
  with tx l obtain u where "verify_active_lease lease (ca_lease_token input) (unix_milli now) = Inr u"
    by (auto simp: complete_attempt_tx_def and_then_Inr Let_def split: if_splits option.splits)
  with l show "owns_lease d (unix_milli now) i (ca_lease_token input)" by (rule lease_guard)
qed

end
