(* ===== verification/Example_Store.thy ===== *)
theory Example_Store
  imports Completion
begin

text \<open>
  A small store for the witnesses: one Worker, one repository, one Run of an agent-directed Task with a
  Work item that one Attempt is executing through a pipeline of two stages, and a second, blocked Work
  item of the same Run. The rows are parametrised by the states the witnesses need.
\<close>

definition demo_token :: string where
  "demo_token = ''0123456789abcdef0123456789abcdef''"

definition demo_sha :: string where
  "demo_sha = ''0123456789abcdef0123456789abcdef01234567''"

definition demo_worker :: worker where
  "demo_worker = \<lparr>wk_id = ''worker-1'', wk_name = ''builder'', wk_runtime = ''codex'', wk_capabilities = [], wk_capacity = 2,
     wk_active_count = 0, wk_health = Healthy, wk_last_heartbeat = 1000000, wk_claim_protocol_version = 5,
     wk_synthetic = False, wk_source_access = [], wk_accepts_managed_repositories = False,
     wk_managed_repository_ids = [], wk_registered_at = 1,
     wk_labels = [], wk_worker_version = ''1.0'', wk_runtime_version = '''', wk_retained_worktrees = [],
     wk_weekly_limit_used_percent = None, wk_weekly_limit_resets_at = None\<rparr>"

definition demo_repository :: repository where
  "demo_repository = \<lparr>rp_id = ''repo-1'', rp_remote_identity = ''git.example.com/team/app'', rp_enabled = True,
     rp_centrally_managed = False, rp_issue_intake_enabled = False, rp_created_at = 1, rp_updated_at = 1\<rparr>"

definition demo_worker_repository :: worker_repository where
  "demo_worker_repository = \<lparr>wr_worker_id = ''worker-1'', wr_display_key = ''app'', wr_repository_id = ''repo-1'',
     wr_worker_remote_identity = ''git.example.com/team/app'', wr_retained_count = 0, wr_advertised = True,
     wr_dynamic = False, wr_updated_at = 1\<rparr>"

definition demo_snapshot :: task_snapshot where
  "demo_snapshot = \<lparr>ts_id = ''task-1'', ts_name = ''Fix'', ts_prompt = ''Fix it'', ts_runtime = ''codex'',
     ts_execution_profile_id = '''', ts_workflow_id = '''', ts_timeout_seconds = 60,
     ts_concurrency_limit = 1, ts_generation = 1, ts_outcome_contract = OutcomeAgentUpdate,
     ts_workflow = no_workflow, ts_repository_workflows = [],
     ts_pipeline = \<lparr>pn_id = default_pipeline_id, pn_name = ''Single agent'', pn_generation = 1,
       pn_stages = [\<lparr>pg_position = 0, pg_name = ''Do the task'', pg_prompt = ''{{ task.prompt }}''\<rparr>]\<rparr>,
     ts_repositories = [\<lparr>tr_id = ''repo-1'', tr_remote_identity = ''git.example.com/team/app''\<rparr>],
     ts_schedule_cron = '''', ts_schedule_timezone = ''''\<rparr>"

definition demo_execution_snapshot :: execution_snapshot where
  "demo_execution_snapshot = \<lparr>es_profile_id = ''persistent-auto'', es_profile_version = 1,
     es_backend = BackendPersistent, es_runtime = ''codex'', es_provider = ''worker'', es_model = ''worker-default'',
     es_timeout_seconds = 60, es_resource_class = ''worker'', es_commit_resolution_policy = ''resolve_per_attempt''\<rparr>"

definition demo_task :: task_row where
  "demo_task = \<lparr>tk_id = ''task-1'', tk_name = ''Fix'', tk_name_key = ''fix'', tk_prompt = ''Fix it'', tk_runtime = ''codex'',
     tk_timeout_seconds = 60, tk_concurrency_limit = 1, tk_execution_profile_id = None,
     tk_outcome_contract = OutcomeAgentUpdate, tk_pipeline_id = Some default_pipeline_id, tk_workflow_id = '''',
     tk_generation = 1, tk_archived = False, tk_migration_only = False, tk_read_only = False,
     tk_schedule_enabled = False, tk_cron = None, tk_timezone = None, tk_next_due_at = None, tk_pending_due_at = None,
     tk_pending_snapshot = None, tk_pending_repository_ids = [], tk_schedule_retry_at = None, tk_schedule_retry_count = 0,
     tk_last_discarded_due_at = None, tk_health_status = ''disabled'', tk_health_code = '''', tk_health_message = '''',
     tk_created_at = 1, tk_updated_at = 1\<rparr>"

definition demo_pipeline :: pipeline_row where
  "demo_pipeline = \<lparr>pl_id = default_pipeline_id, pl_name = ''Single agent'', pl_name_key = ''single agent'',
     pl_generation = 1, pl_created_at = 0, pl_updated_at = 0\<rparr>"

definition demo_pipeline_stage :: pipeline_stage_row where
  "demo_pipeline_stage = \<lparr>ps_pipeline_id = default_pipeline_id,
     ps_stage = \<lparr>pg_position = 0, pg_name = ''Do the task'', pg_prompt = ''{{ task.prompt }}''\<rparr>\<rparr>"

definition demo_run :: "millis option \<Rightarrow> run" where
  "demo_run terminal = \<lparr>run_id = ''run-1'', run_request_key = ''key-1'', run_request_digest = [], run_task_id = ''task-1'',
     run_task_snapshot = demo_snapshot, run_source = ''manual'', run_scheduled_at = None,
     run_requested_profile_id = None, run_execution = demo_execution_snapshot, run_targets = [], run_provider_snapshot = None,
     run_outcome_contract = OutcomeAgentUpdate, run_admitted_at = 1, run_updated_at = 1, run_terminal_at = terminal\<rparr>"

definition demo_target :: "nat \<Rightarrow> work_target" where
  "demo_target n = \<lparr>tg_position = n, tg_target_key = ''repository:repo-1'', tg_target_kind = ''repository'',
     tg_source_kind = ''repository'', tg_source_key = ''repo-1'', tg_source_reference = '''', tg_source_title = '''',
     tg_context_snapshot = '''', tg_publish_branch = ''factory/work-1''\<rparr>"

definition demo_session :: "ident \<Rightarrow> nat \<Rightarrow> session_state \<Rightarrow> execution_owner \<Rightarrow> session" where
  "demo_session i n st owner = \<lparr>ss_id = i, ss_run_id = ''run-1'', ss_repository_id = ''repo-1'',
     ss_repository_identity = ''git.example.com/team/app'', ss_resolved_prompt = ''Fix it'',
     ss_required_runtime = ''codex'', ss_execution = demo_execution_snapshot, ss_timeout_seconds = 60,
     ss_state = st, ss_blocked_reason = None, ss_assigned_worker_id = None, ss_cancellation_requested = False,
     ss_retry_may_repeat_effects = False, ss_admitted_at = 1, ss_started_at = None, ss_terminal_at = None,
     ss_result = None, ss_failure_reason = None, ss_target = demo_target n, ss_predecessor_work_id = None,
     ss_execution_owner = owner, ss_waiting_reason = '''', ss_latest_progress = '''', ss_question = '''',
     ss_checkpoint_sha = '''', ss_pending_resume_sha = '''', ss_checkpoint_published = False, ss_answer = '''',
     ss_pull_request_url = '''', ss_pull_request_head_branch = '''', ss_pull_request_head_sha = '''',
     ss_terminal_message = '''', ss_workflow = no_workflow\<rparr>"

definition demo_execution :: "execution_state \<Rightarrow> execution" where
  "demo_execution st = \<lparr>ex_id = ''execution-1'', ex_session_id = ''work-1'', ex_assigned_worker_id = ''worker-1'',
     ex_required_runtime = ''codex'', ex_state = st, ex_cancellation_requested = False, ex_retry_count = 0,
     ex_created_at = 1, ex_updated_at = 1\<rparr>"

definition demo_attempt :: "attempt_state \<Rightarrow> attempt" where
  "demo_attempt st = \<lparr>at_id = ''00000000-0000-4000-8000-00000000000a'', at_execution_id = ''execution-1'', at_worker_id = ''worker-1'',
     at_number = 1, at_state = st, at_lease_digest = digest_token demo_token, at_lease_expires_at = 1030000,
     at_supervisor_pid = None, at_process_identity = None, at_process_group_id = None, at_result = None,
     at_error = None, at_started_at = None, at_completed_at = None, at_created_at = 1000000,
     at_capacity_acknowledged = False\<rparr>"

definition demo_stage :: "nat \<Rightarrow> stage_run_state \<Rightarrow> session_stage" where
  "demo_stage n st = \<lparr>sg_session_id = ''work-1'', sg_position = n, sg_name = ''stage'', sg_prompt = ''Fix it'',
     sg_state = st, sg_result = '''', sg_error = '''', sg_started_at = None, sg_completed_at = None\<rparr>"

definition demo_update :: "work_update_status \<Rightarrow> work_update" where
  "demo_update st = \<lparr>wu_id = ''update-1'', wu_work_id = ''work-1'', wu_attempt_id = Some ''00000000-0000-4000-8000-00000000000a'',
     wu_request_id = ''request-1'', wu_sequence = 1, wu_status = st, wu_message = ''Which branch?'',
     wu_pull_request_url = ''https://github.com/team/app/pull/1'', wu_pull_request_head_branch = ''fix'',
     wu_pull_request_head_sha = demo_sha, wu_checkpoint_sha = demo_sha, wu_checkpoint_published = True,
     wu_actor = WorkUpdateActorAgent, wu_accepted_at = 1000001\<rparr>"

text \<open>An Attempt in the state \<open>st\<close>, with the reports and stages given.\<close>

definition demo_db :: "attempt_state \<Rightarrow> work_update list \<Rightarrow> stage_run_state \<Rightarrow> stage_run_state \<Rightarrow> db" where
  "demo_db st reports g0 g1 = \<lparr>workers = [demo_worker], repositories = [demo_repository],
     worker_repositories = [demo_worker_repository], task_rows = [demo_task],
     task_repositories = [\<lparr>tp_task_id = ''task-1'', tp_position = 0, tp_repository_id = ''repo-1''\<rparr>],
     execution_profile_ids = [], pipelines = [demo_pipeline], pipeline_stages = [demo_pipeline_stage], workflow_catalogs = [], workflow_entries = [],
     runs = [demo_run None],
     sessions = [demo_session ''work-1'' 0
         (if st = AttemptPreparing then SessionPreparing else SessionRunning) ExecutionOwnerWorkerAttempt,
       demo_session ''work-2'' 1 SessionBlocked ExecutionOwnerNone],
     executions = [demo_execution (execution_of_attempt st)], attempts = [demo_attempt st], claim_requests = [],
     attempt_events = [], session_stages = [demo_stage 0 g0, demo_stage 1 g1], work_updates = reports,
     agent_update_requests = [], work_answers = [], repository_aliases = [], worker_enrollments = [],
     worker_credentials = [], workflow_diagnostics = [], issue_visits = [], pull_request_wakes = []\<rparr>"

text \<open>A store in which the first Work item waits in the queue and no Attempt has been made.\<close>

definition demo_queued_db :: db where
  "demo_queued_db = (demo_db AttemptPreparing [] StagePending StagePending)\<lparr>
     sessions := [demo_session ''work-1'' 0 SessionQueued ExecutionOwnerNone,
       demo_session ''work-2'' 1 SessionBlocked ExecutionOwnerNone],
     executions := [demo_execution ExecutionQueued], attempts := []\<rparr>"

lemmas demo_rows =
  demo_worker_def demo_repository_def demo_worker_repository_def demo_snapshot_def demo_run_def demo_target_def
  demo_execution_snapshot_def demo_session_def demo_execution_def demo_attempt_def demo_stage_def demo_update_def

lemmas demo_stores = demo_db_def demo_queued_db_def

lemma demo_token_valid [simp]: "validate_token demo_token = Inr ()"
  by (simp add: validate_token_def demo_token_def)

lemma length_demo_token [simp]: "length demo_token = 32"
  by (simp add: demo_token_def)

lemma demo_sha_valid [simp]: "valid_commit_sha demo_sha"
  by (simp add: valid_commit_sha_def demo_sha_def is_lower_hex_def is_decimal_def in_range_def byte_def)

lemmas store_ok_defs =
  store_ok_def core_ok_def keys_ok_def refs_ok_def lifecycle_ok_def session_rows_ok_def session_row_ok_def
  runs_ok_def run_finished_def run_session_count_def states_agree_def state_predicates

lemma demo_db_ok [simp]: "is_active st \<Longrightarrow> store_ok (demo_db st reports g0 g1)"
  by (cases st) (simp_all add: demo_db_def demo_rows store_ok_defs)

lemma demo_queued_db_ok [simp]: "store_ok demo_queued_db"
  by (simp add: demo_stores demo_rows store_ok_defs)

lemma demo_history_ok [simp]:
  "history_ok (demo_db st [] g0 g1)"
  "s \<noteq> WorkUpdateRunning \<Longrightarrow> history_ok (demo_db st [demo_update s] g0 g1)"
  by (simp_all add: history_ok_def demo_db_def demo_rows update_row_ok_def outcome_count_def progress_count_def
      update_limit_def protocol_limits)

lemma demo_lookups [simp]:
  "find_attempt (demo_db st reports g0 g1) ''00000000-0000-4000-8000-00000000000a'' = Some (demo_attempt st)"
  "find_execution (demo_db st reports g0 g1) ''execution-1'' = Some (demo_execution (execution_of_attempt st))"
  by (simp_all add: find_attempt_def find_execution_def demo_db_def demo_rows)

lemma demo_load_lease:
  "load_lease (demo_db st reports g0 g1) ''00000000-0000-4000-8000-00000000000a'' =
   Inr (lease_of (demo_run None) (demo_execution (execution_of_attempt st)) (demo_attempt st))"
  by (simp add: load_lease_def lease_of_def find_session_def find_run_def demo_db_def demo_rows
      find_attempt_def find_execution_def)

lemma demo_owns_lease:
  "is_active st \<Longrightarrow> now < 1030000 \<Longrightarrow> owns_lease (demo_db st reports g0 g1) now ''00000000-0000-4000-8000-00000000000a'' demo_token"
  by (simp add: owns_lease_def demo_db_def demo_attempt_def)

subsection \<open>Evaluating the operations at the example\<close>

definition demo_now :: int where
  "demo_now = 1000001000000"

definition demo_completion :: "string \<Rightarrow> complete_attempt_request" where
  "demo_completion st = \<lparr>ca_lease_token = demo_token, ca_state = st, ca_result = ''done'', ca_error = ''''\<rparr>"

definition demo_needs_input_db :: db where
  "demo_needs_input_db = demo_db AttemptRunning [demo_update WorkUpdateNeedsInput] StageSucceeded StageSucceeded"

lemma demo_completes:
  obtains view d' where "complete_attempt demo_now demo_needs_input_db ''00000000-0000-4000-8000-00000000000a'' (demo_completion ''succeeded'') = (Inr view, d')"
    "av_state view = AttemptSucceeded" "demo_stage 1 StageSucceeded \<in> set (session_stages d')"
proof -
  let ?u = "demo_update WorkUpdateNeedsInput"
  let ?lease = "lease_of (demo_run None) (demo_execution ExecutionRunning) (demo_attempt AttemptRunning)"
  let ?c = "\<lparr>cp_state = AttemptSucceeded, cp_result = '''', cp_error = '''', cp_work_state = SessionNeedsInput,
     cp_failure_reason = '''', cp_terminal_message = ''Which branch?'', cp_missing_outcome = False\<rparr>"
  have lease: "load_lease demo_needs_input_db ''00000000-0000-4000-8000-00000000000a'' = Inr ?lease"
    by (simp add: demo_needs_input_db_def demo_load_lease)
  have verify: "verify_active_lease ?lease demo_token (unix_milli demo_now) = Inr ()"
    by (simp add: verify_active_lease_def demo_attempt_def is_active_def demo_now_def unix_milli_def)
  have outcome: "attempt_outcome demo_needs_input_db ''00000000-0000-4000-8000-00000000000a'' = Some ?u"
    by (simp add: attempt_outcome_def demo_needs_input_db_def demo_db_def demo_update_def)
  have resolve: "resolve_completion ?lease (Some ?u) AttemptSucceeded ''done'' '''' = Inr ?c"
    by (simp add: resolve_completion_def demo_rows Let_def)
  have session: "execution_session demo_needs_input_db ''execution-1'' = Some ''work-1''"
    by (simp add: execution_session_def demo_needs_input_db_def demo_execution_def)
  have stages: "complete_stages (unix_milli demo_now) ''work-1'' ?c demo_needs_input_db = Inr demo_needs_input_db"
    by (simp add: complete_stages_def Let_def stage_count_def succeeded_stage_count_def demo_needs_input_db_def
        demo_db_def demo_stage_def)
  let ?d = "complete_rows (unix_milli demo_now) ''00000000-0000-4000-8000-00000000000a'' ''execution-1'' ?c (Some ?u) demo_needs_input_db"
  have run: "execution_run ?d ''execution-1'' = Some ''run-1''"
    by (simp add: execution_run_def execution_session_def find_execution_def find_session_def complete_rows_def
        demo_needs_input_db_def demo_db_def demo_rows state_predicates finish_applies_def finish_session_row_def Let_def)
  have tx: "complete_attempt_tx demo_now demo_needs_input_db ''00000000-0000-4000-8000-00000000000a'' (demo_completion ''succeeded'') =
      Inr ((), refresh_run (unix_milli demo_now) ''run-1'' ?d)"
    using session run lease verify outcome resolve stages
    by (simp add: complete_attempt_tx_def demo_completion_def terminal_attempt_state_def protocol_limits Let_def
        write_completion_def update_run_lifecycle_def is_terminal_def demo_attempt_def demo_run_def)
  have reply: "find_attempt (refresh_run (unix_milli demo_now) ''run-1'' ?d) ''00000000-0000-4000-8000-00000000000a'' =
      Some (finish_attempt_row (unix_milli demo_now) ?c (demo_attempt AttemptRunning))"
    by (simp add: find_attempt_def complete_rows_def demo_needs_input_db_def demo_db_def demo_attempt_def is_active_def finish_attempt_row_def)
  have stage: "session_stages demo_needs_input_db = [demo_stage 0 StageSucceeded, demo_stage 1 StageSucceeded]"
    by (simp add: demo_needs_input_db_def demo_db_def)
  show thesis
    by (rule that, simp add: complete_attempt_def tx attempt_reply_def reply)
      (simp_all add: scan_attempt_def finish_attempt_row_def stage)
qed

lemma demo_needs_input_db_ok [simp]: "store_ok demo_needs_input_db" "history_ok demo_needs_input_db"
  by (simp_all add: demo_needs_input_db_def is_active_def)

text \<open>The example with a cancellation requested.\<close>

definition demo_cancel_db :: db where
  "demo_cancel_db = demo_needs_input_db\<lparr>
     executions := [(demo_execution ExecutionRunning)\<lparr>ex_cancellation_requested := True\<rparr>]\<rparr>"

lemma demo_cancel_db_ok [simp]: "store_ok demo_cancel_db"
  by (simp add: demo_cancel_db_def demo_needs_input_db_def demo_db_def demo_rows store_ok_defs)

lemma demo_cancel_lookups [simp]:
  "find_attempt demo_cancel_db ''00000000-0000-4000-8000-00000000000a'' = Some (demo_attempt AttemptRunning)"
  "find_execution demo_cancel_db ''execution-1'' =
     Some ((demo_execution ExecutionRunning)\<lparr>ex_cancellation_requested := True\<rparr>)"
  by (simp_all add: demo_cancel_db_def demo_needs_input_db_def demo_db_def demo_rows find_attempt_def find_execution_def)

lemma demo_needs_input_lookups [simp]:
  "find_attempt demo_needs_input_db ''00000000-0000-4000-8000-00000000000a'' = Some (demo_attempt AttemptRunning)"
  "find_execution demo_needs_input_db ''execution-1'' = Some (demo_execution ExecutionRunning)"
  "find_session demo_needs_input_db ''work-1'' = Some (demo_session ''work-1'' 0 SessionRunning ExecutionOwnerWorkerAttempt)"
  "find_run demo_needs_input_db ''run-1'' = Some (demo_run None)"
  "attempt_outcome demo_needs_input_db ''00000000-0000-4000-8000-00000000000a'' = Some (demo_update WorkUpdateNeedsInput)"
  by (simp_all add: demo_needs_input_db_def demo_db_def demo_rows find_session_def find_run_def attempt_outcome_def
      find_attempt_def find_execution_def)

end
