(* ===== verification/Execution_Properties.thy ===== *)
theory Execution_Properties
  imports Example_Store
begin

text \<open>
  Properties of the life of one Attempt: its lease, its stages, its completion and its loss, each with
  a witness at the store of Example\_Store.
\<close>

subsection \<open>Lemmas\<close>

lemma count_where_conj_all:
  "count_where (\<lambda>x. P x \<and> Q x) xs = count_where P xs \<Longrightarrow> x \<in> set xs \<Longrightarrow> P x \<Longrightarrow> Q x"
proof (induction xs)
  case (Cons y ys)
  have "count_where (\<lambda>x. P x \<and> Q x) ys \<le> count_where P ys" by (rule count_where_mono) simp
  with Cons show ?case by (auto split: if_splits)
qed simp

lemma single_stage_open_imp: "single_stage_open i g \<Longrightarrow> sg_session_id g = i \<and> sg_state g \<noteq> StageSucceeded"
  by (auto simp: single_stage_open_def stage_open_def)

lemma complete_stages_all_succeeded:
  assumes "complete_stages now i c d = Inr d'" "cp_state c = AttemptSucceeded" "g \<in> set (session_stages d')"
    "sg_session_id g = i" "\<not> cp_missing_outcome c"
  shows "sg_state g = StageSucceeded"
proof (cases "stage_count d i = 1 \<and> succeeded_stage_count d i = 0")
  case True
  then have d': "d' = succeed_single_stage now i (cp_result c) d"
    and n: "count_where (single_stage_open i) (session_stages d) = count_where (\<lambda>g. sg_session_id g = i) (session_stages d)"
    using assms(1,2,5) by (auto simp: complete_stages_def Let_def stage_count_def split: if_splits)
  have "count_where (\<lambda>g. sg_session_id g = i \<and> single_stage_open i g) (session_stages d) =
      count_where (single_stage_open i) (session_stages d)"
    by (rule count_where_cong) (auto dest: single_stage_open_imp)
  with n have all: "single_stage_open i h" if "h \<in> set (session_stages d)" "sg_session_id h = i" for h
    using count_where_conj_all [of "\<lambda>g. sg_session_id g = i" "single_stage_open i" "session_stages d" h] that by simp
  from assms(3) obtain h where "h \<in> set (session_stages d)"
    "g = (if single_stage_open i h then h\<lparr>sg_state := StageSucceeded, sg_result := cp_result c, sg_error := '''',
        sg_started_at := Some (coalesce (sg_started_at h) now), sg_completed_at := Some now\<rparr> else h)"
    unfolding d' succeed_single_stage_def by (auto simp: set_update_where)
  with assms(4) all show ?thesis by (auto split: if_splits)
next
  case False
  then have d': "d' = d"
    using assms(1,2,5) by (auto simp: complete_stages_def Let_def split: if_splits)
  have "0 < stage_count d i"
    using assms(3,4) d' by (auto simp: stage_count_def count_where_eq_0 simp flip: neq0_conv)
  with False assms(1,2,5) have "succeeded_stage_count d i = stage_count d i"
    by (auto simp: complete_stages_def Let_def split: if_splits)
  then show ?thesis
    using count_where_conj_all [of "\<lambda>g. sg_session_id g = i" "\<lambda>g. sg_state g = StageSucceeded" "session_stages d" g]
      assms(3,4) d' by (simp add: stage_count_def succeeded_stage_count_def)
qed

lemma close_open_stages_closed:
  assumes "g \<in> set (session_stages (close_open_stages now i st failure d))" "st \<noteq> StageRunning" "st \<noteq> StagePending"
    "sg_session_id g = i"
  shows "\<not> stage_open g"
proof -
  have "g \<in> set (update_where (\<lambda>g. sg_session_id g = i \<and> stage_open g)
      (\<lambda>g. g\<lparr>sg_state := (if sg_state g = StageRunning then st else StageCancelled),
             sg_error := (if sg_state g = StageRunning then failure else sg_error g),
             sg_completed_at := Some now\<rparr>) (session_stages d))"
    using assms(1) by (simp add: close_open_stages_def)
  then show ?thesis
  proof (cases rule: in_set_update_whereE)
    case (1 h)
    with assms(2,3) show ?thesis by (cases "sg_state h = StageRunning") (simp_all add: stage_open_def)
  next
    case 2
    with assms(4) show ?thesis by simp
  qed
qed

lemma complete_stages_closed:
  assumes "complete_stages now i c d = Inr d'" "cp_state c \<noteq> AttemptSucceeded" "g \<in> set (session_stages d')"
    "sg_session_id g = i"
  shows "\<not> stage_open g"
proof -
  define d1 where "d1 = (if cp_missing_outcome c then fail_last_stage now i (cp_error c) d else d)"
  have d': "d' = (if 0 < stage_count d1 i then close_open_stages now i
      (if cp_state c = AttemptCancelled then StageCancelled else StageFailed) (cp_error c) d1 else d1)"
    using assms(1,2) by (auto simp: complete_stages_def Let_def d1_def split: if_splits)
  show ?thesis
  proof (cases "0 < stage_count d1 i")
    case True
    define st where "st = (if cp_state c = AttemptCancelled then StageCancelled else StageFailed)"
    have "g \<in> set (session_stages (close_open_stages now i st (cp_error c) d1))"
      using assms(3) True by (simp add: d' st_def)
    then show ?thesis
      using assms(4) by (auto simp: st_def dest: close_open_stages_closed split: if_splits)
  next
    case False
    then have "stage_count d1 i = 0" by simp
    moreover have "d' = d1" using False by (simp add: d')
    ultimately show ?thesis
      using assms(3,4) by (auto simp: stage_count_def count_where_eq_0)
  qed
qed

lemma update_run_lifecycle_runs:
  "update_run_lifecycle x now d = Inr d' \<Longrightarrow> \<exists>i. d' = refresh_run now i d"
  by (auto simp: update_run_lifecycle_def split: option.splits)

text \<open>Everything a successful completion of an active Attempt does, in terms of the rows it concerns.\<close>

lemma complete_attempt_effect:
  assumes ok: "store_ok d" and w: "complete_attempt_tx now d i input = Inr (v, d')"
    and a: "find_attempt d i = Some a" "is_active (at_state a)"
  obtains st c outcome e s r d1 where
    "terminal_attempt_state (ca_state input) = Some st"
    "at_lease_digest a = digest_token (ca_lease_token input)" "unix_milli now < at_lease_expires_at a"
    "find_execution d (at_execution_id a) = Some e" "find_session d (ex_session_id e) = Some s"
    "find_run d (ss_run_id s) = Some r"
    "outcome = (if run_outcome_contract r = OutcomeAgentUpdate then attempt_outcome d i else None)"
    "resolve_completion (lease_of r e a) outcome st (ca_result input) (ca_error input) = Inr c"
    "completion_ok c outcome" "complete_stages (unix_milli now) (ss_id s) c d = Inr d1"
    "cp_state c = AttemptSucceeded \<longrightarrow> at_state a = AttemptRunning"
    "session_stages d' = session_stages d1"
    "find_attempt d' i = Some (finish_attempt_row (unix_milli now) c a)"
    "find_execution d' (ex_id e) = Some (e\<lparr>ex_state := execution_of_attempt (cp_state c), ex_updated_at := unix_milli now\<rparr>)"
    "find_session d' (ss_id s) = Some (finish_session_row (unix_milli now) c outcome s)"
proof -
  note ok' = store_okD [OF ok]
  from w obtain st where st: "terminal_attempt_state (ca_state input) = Some st"
    by (auto simp: complete_attempt_tx_def split: option.splits)
  from w st obtain lease where lease: "load_lease d i = Inr lease"
    by (auto simp: complete_attempt_tx_def and_then_Inr Let_def split: if_splits)
  then obtain e s r where rows: "find_execution d (at_execution_id a) = Some e" "find_session d (ex_session_id e) = Some s"
      "find_run d (ss_run_id s) = Some r" and l: "lease = lease_of r e a"
    using a(1) unfolding load_lease_Inr by auto
  have in_tables: "a \<in> set (attempts d)" "at_id a = i" "e \<in> set (executions d)" "ex_id e = at_execution_id a"
    "s \<in> set (sessions d)" "ss_id s = ex_session_id e"
    using find_attempt_Some [OF a(1)] find_execution_Some [OF rows(1)] find_session_Some [OF rows(2)] by simp_all
  define outcome where "outcome = (if run_outcome_contract r = OutcomeAgentUpdate then attempt_outcome d i else None)"
  have nt: "\<not> is_terminal (at_state a)" using a(2) active_or_terminal by blast
  from w st lease nt obtain c where
    own: "at_lease_digest a = digest_token (ca_lease_token input)" "unix_milli now < at_lease_expires_at a"
    and c: "resolve_completion (lease_of r e a) outcome st (ca_result input) (ca_error input) = Inr c"
    and wr: "write_completion (unix_milli now) d i (lease_of r e a) c outcome = Inr (v, d')"
    by (auto simp: complete_attempt_tx_def and_then_Inr Let_def outcome_def l verify_active_lease_Inr split: if_splits)
  have cok: "completion_ok c outcome"
    by (rule resolve_completion_ok [OF terminal_attempt_state_Some [OF st] c])
  have xs: "execution_session d (at_execution_id a) = Some (ss_id s)"
    using execution_session_in [OF ok'(1) in_tables(3)] in_tables(4,6) by simp
  from wr xs obtain d1 where run: "cp_state c = AttemptSucceeded \<longrightarrow> at_state a = AttemptRunning"
    and d1: "complete_stages (unix_milli now) (ss_id s) c d = Inr d1"
    and d': "update_run_lifecycle (at_execution_id a) (unix_milli now)
        (complete_rows (unix_milli now) i (at_execution_id a) c outcome d1) = Inr d'"
    by (auto simp: write_completion_def and_then_Inr split: if_splits)
  note tabs = only_stages_tables [OF complete_stages_only [OF d1]]
  have xs1: "execution_session d1 (at_execution_id a) = Some (ss_id s)"
    using xs by (simp add: execution_session_def find_execution_def tabs)
  from update_run_lifecycle_runs [OF d'] obtain q where
    d'_eq: "d' = refresh_run (unix_milli now) q (complete_rows (unix_milli now) i (at_execution_id a) c outcome d1)" by blast
  have es: "ex_state e = execution_of_attempt (at_state a)"
    by (rule lifecycle_attempt_execution [OF ok'(3) in_tables(1,3,4) a(2)])
  then have executing: "execution_executing (ex_state e)" using execution_of_active [OF a(2)] by simp
  have applies: "finish_applies c outcome (ss_state s)"
    by (rule finish_applies_iff [OF cok lifecycle_states_agree [OF ok'(3) in_tables(3,5,6)] es a(2) run])
  have fa: "find_attempt d' i = Some (finish_attempt_row (unix_milli now) c a)"
    using a in_tables(2)
    by (simp add: d'_eq find_attempt_def complete_rows_def tabs find_update_where finish_attempt_row_def)
  have fe: "find_execution d' (ex_id e) =
      Some (e\<lparr>ex_state := execution_of_attempt (cp_state c), ex_updated_at := unix_milli now\<rparr>)"
    using rows(1) executing in_tables(4)
    by (simp add: d'_eq find_execution_def complete_rows_def tabs find_update_where)
  have fs: "find_session d' (ss_id s) = Some (finish_session_row (unix_milli now) c outcome s)"
    using rows(2) applies xs1 in_tables(6)
    by (simp add: d'_eq find_session_def complete_rows_def tabs find_update_where)
  have stg: "session_stages d' = session_stages d1" by (simp add: d'_eq)
  show thesis
    by (rule that [OF st own rows outcome_def c cok d1 run stg fa fe fs])
qed

lemma complete_attempt_Inr:
  "complete_attempt now d i input = (Inr view, d') \<Longrightarrow>
   \<exists>v. complete_attempt_tx now d i input = Inr (v, d') \<and> attempt_reply d' i = Inr view"
  by (auto simp: complete_attempt_def elim: committed_cases)

lemma attempt_reply_Inr:
  "attempt_reply d i = Inr view \<longleftrightarrow> (\<exists>a. find_attempt d i = Some a \<and> view = scan_attempt a)"
  by (auto simp: attempt_reply_def split: option.splits)

text \<open>When a completion is accepted: an owner can always end an Attempt without success.\<close>

lemma complete_attempt_accepts:
  assumes ok: "store_ok d" and own: "owns_lease d (unix_milli now) i (ca_lease_token input)"
    and token: "validate_token (ca_lease_token input) = Inr ()"
    and size: "length (ca_result input) \<le> max_result_bytes" "length (ca_error input) \<le> max_error_bytes"
    and st: "terminal_attempt_state (ca_state input) = Some st"
    and "end": "st \<noteq> AttemptSucceeded \<or>
       (\<forall>a e. find_attempt d i = Some a \<longrightarrow> find_execution d (at_execution_id a) = Some e \<longrightarrow> ex_cancellation_requested e)"
  shows "\<exists>view d'. complete_attempt now d i input = (Inr view, d') \<and> av_state view \<noteq> AttemptSucceeded"
proof -
  note ok' = store_okD [OF ok]
  obtain a where a: "a \<in> set (attempts d)" "at_id a = i" "is_active (at_state a)"
    "at_lease_digest a = digest_token (ca_lease_token input)" "unix_milli now < at_lease_expires_at a"
    using own by (auto simp: owns_lease_def)
  obtain e s r where rows: "e \<in> set (executions d)" "ex_id e = at_execution_id a" "s \<in> set (sessions d)"
    "ss_id s = ex_session_id e" "load_lease d (at_id a) = Inr (lease_of r e a)"
    by (rule load_lease_in [OF ok'(1,2) a(1)])
  define outcome where "outcome = (if run_outcome_contract r = OutcomeAgentUpdate then attempt_outcome d i else None)"
  have nosucc: "st \<noteq> AttemptSucceeded \<or> ls_cancel (lease_of r e a)"
    using "end" find_attempt_in [OF ok'(1) a(1)] find_execution_in [OF ok'(1) rows(1)] a(2) rows(2) by auto
  have "\<exists>c. resolve_completion (lease_of r e a) outcome st (ca_result input) (ca_error input) = Inr c \<and>
      cp_state c \<noteq> AttemptSucceeded"
  proof (cases "ls_cancel (lease_of r e a)")
    case True
    then show ?thesis by (simp add: resolve_completion_def Let_def)
  next
    case False
    with nosucc have "st \<noteq> AttemptSucceeded" by simp
    with False show ?thesis by (simp add: resolve_completion_def Let_def)
  qed
  then obtain c where c: "resolve_completion (lease_of r e a) outcome st (ca_result input) (ca_error input) = Inr c"
      and notok: "cp_state c \<noteq> AttemptSucceeded"
    by blast
  obtain d1 where d1: "complete_stages (unix_milli now) (ss_id s) c d = Inr d1"
    by (cases "complete_stages (unix_milli now) (ss_id s) c d")
      (use notok in \<open>auto simp: complete_stages_def Let_def split: if_splits\<close>)
  note tabs = only_stages_tables [OF complete_stages_only [OF d1]]
  have ok1: "keys_ok d1" using only_stages_store_ok [OF complete_stages_only [OF d1] ok] by (blast dest: store_okD)
  have "execution_run (complete_rows (unix_milli now) i (ex_id e) c outcome d1) (ex_id e) = Some (ss_run_id s)"
    by (rule complete_rows_execution_run [OF ok1]) (use rows tabs in simp_all)
  then have "write_completion (unix_milli now) d i (lease_of r e a) c outcome =
      Inr ((), refresh_run (unix_milli now) (ss_run_id s) (complete_rows (unix_milli now) i (ex_id e) c outcome d1))"
    using notok execution_session_in [OF ok'(1) rows(1)] rows d1
    by (simp add: write_completion_def update_run_lifecycle_def)
  moreover have "verify_active_lease (lease_of r e a) (ca_lease_token input) (unix_milli now) = Inr ()"
    using token a by (simp add: verify_active_lease_def)
  moreover have "\<not> is_terminal (at_state a)" using a(3) active_or_terminal by blast
  ultimately have tx: "complete_attempt_tx now d i input =
      Inr ((), refresh_run (unix_milli now) (ss_run_id s) (complete_rows (unix_milli now) i (ex_id e) c outcome d1))"
      (is "_ = Inr ((), ?d')")
    using token size st rows(5) a(2) c by (simp add: complete_attempt_tx_def Let_def outcome_def)
  have "find_attempt d i = Some a" using find_attempt_in [OF ok'(1) a(1)] a(2) by simp
  then have "find_attempt ?d' i = Some (finish_attempt_row (unix_milli now) c a)"
    using a(2,3) by (simp add: find_attempt_def complete_rows_def tabs find_update_where finish_attempt_row_def)
  with tx notok show ?thesis
    by (simp add: complete_attempt_def attempt_reply_def scan_attempt_def finish_attempt_row_def)
qed

subsection \<open>Completion\<close>

text \<open>C5. The first accepted completion of an Attempt is final: whatever is sent later with the same lease
  token, the Attempt's recorded outcome is answered again and the store does not change.\<close>

theorem completion_is_final:
  assumes "store_ok d"
    and "complete_attempt now d i input = (Inr view, d')"
    and "ca_lease_token again = ca_lease_token input"
    and "terminal_attempt_state (ca_state again) \<noteq> None"
    and "length (ca_result again) \<le> max_result_bytes" "length (ca_error again) \<le> max_error_bytes"
  shows "complete_attempt later d' i again = (Inr view, d')"
proof -
  obtain v where tx: "complete_attempt_tx now d i input = Inr (v, d')" and reply: "attempt_reply d' i = Inr view"
    using complete_attempt_Inr [OF assms(2)] by blast
  from tx obtain lease where l: "load_lease d i = Inr lease" and tok: "validate_token (ca_lease_token input) = Inr ()"
    by (auto simp: complete_attempt_tx_def and_then_Inr Let_def split: if_splits option.splits)
  obtain a where a: "find_attempt d i = Some a" using l by (auto simp: load_lease_Inr)
  note ok' = store_okD [OF assms(1)]
  have "\<exists>b lease. find_attempt d' i = Some b \<and> load_lease d' i = Inr lease \<and> ls_attempt_state lease = at_state b \<and>
      ls_digest lease = at_lease_digest b \<and> is_terminal (at_state b) \<and> at_state b \<noteq> AttemptLost \<and>
      at_lease_digest b = digest_token (ca_lease_token input)"
  proof (cases "is_active (at_state a)")
    case True
    obtain c outcome e s r d1 where
      c: "completion_ok c outcome" and digest: "at_lease_digest a = digest_token (ca_lease_token input)"
      and r: "find_run d (ss_run_id s) = Some r"
      and e: "find_execution d (at_execution_id a) = Some e" and s: "find_session d (ex_session_id e) = Some s"
      and fa: "find_attempt d' i = Some (finish_attempt_row (unix_milli now) c a)"
      and fe: "find_execution d' (ex_id e) = Some (e\<lparr>ex_state := execution_of_attempt (cp_state c), ex_updated_at := unix_milli now\<rparr>)"
      and fs: "find_session d' (ss_id s) = Some (finish_session_row (unix_milli now) c outcome s)"
      using complete_attempt_effect [OF assms(1) tx a True] by metis
    have "\<exists>r'. find_run d' (ss_run_id s) = Some r'"
    proof (rule complete_attempt_writes [OF tx])
      fix c outcome x sid d1
      assume s: "complete_stages (unix_milli now) sid c d = Inr d1"
        and u: "update_run_lifecycle x (unix_milli now) (complete_rows (unix_milli now) i x c outcome d1) = Inr d'"
      from update_run_lifecycle_runs [OF u] only_stages_tables(1) [OF complete_stages_only [OF s]] r
      show ?thesis by (auto simp: refresh_run_def find_run_def complete_rows_def find_update_where)
    qed (use r in simp)
    then obtain r' where "find_run d' (ss_run_id s) = Some r'" by blast
    moreover have "ex_id e = at_execution_id a" "ss_id s = ex_session_id e"
      using find_execution_Some [OF e] find_session_Some [OF s] by simp_all
    ultimately have "load_lease d' i = Inr (lease_of r' (e\<lparr>ex_state := execution_of_attempt (cp_state c), ex_updated_at := unix_milli now\<rparr>)
        (finish_attempt_row (unix_milli now) c a))"
      using fa fe fs by (simp add: load_lease_Inr finish_attempt_row_def)
    with fa c digest show ?thesis
      using completion_terminal [OF c] by (auto simp: finish_attempt_row_def)
  next
    case False
    then have fin: "is_terminal (at_state a)" using active_or_terminal by blast
    obtain e s r where rows: "lease = lease_of r e a"
      using l a by (auto simp: load_lease_Inr)
    from tx fin l rows have "d' = d" "at_state a \<noteq> AttemptLost" "at_lease_digest a = digest_token (ca_lease_token input)"
      by (auto simp: complete_attempt_tx_def and_then_Inr Let_def equal_digest_def split: if_splits option.splits)
    with a l rows fin show ?thesis by auto
  qed
  then show ?thesis
    using assms(3-6) tok reply
    by (auto simp: complete_attempt_def complete_attempt_tx_def Let_def attempt_reply_def split: option.splits)
qed

lemma completion_is_final_witness:
  "\<exists>view d'. complete_attempt demo_now demo_needs_input_db ''00000000-0000-4000-8000-00000000000a'' (demo_completion ''succeeded'') = (Inr view, d') \<and>
     complete_attempt 0 d' ''00000000-0000-4000-8000-00000000000a'' (demo_completion ''failed'') = (Inr view, d')"
proof -
  obtain view d' where d': "complete_attempt demo_now demo_needs_input_db ''00000000-0000-4000-8000-00000000000a'' (demo_completion ''succeeded'') = (Inr view, d')"
    by (rule demo_completes)
  have "complete_attempt 0 d' ''00000000-0000-4000-8000-00000000000a'' (demo_completion ''failed'') = (Inr view, d')"
    by (rule completion_is_final [OF demo_needs_input_db_ok(1) d'])
      (simp_all add: demo_completion_def terminal_attempt_state_def protocol_limits)
  with d' show ?thesis by blast
qed

text \<open>C6. An active Attempt is recorded as succeeded only if it was running and every stage of its pipeline
  has succeeded.\<close>

theorem success_needs_every_stage:
  assumes "store_ok d" "find_attempt d i = Some a" "is_active (at_state a)"
    and "complete_attempt now d i input = (Inr view, d')" "av_state view = AttemptSucceeded"
    and "attempt_session d a = Some s" "g \<in> set (session_stages d')" "sg_session_id g = ss_id s"
  shows "at_state a = AttemptRunning \<and> sg_state g = StageSucceeded"
proof -
  obtain v where tx: "complete_attempt_tx now d i input = Inr (v, d')" and reply: "attempt_reply d' i = Inr view"
    using complete_attempt_Inr [OF assms(4)] by blast
  obtain c outcome e t r d1 where c: "completion_ok c outcome" and stages: "complete_stages (unix_milli now) (ss_id t) c d = Inr d1"
    and run: "cp_state c = AttemptSucceeded \<longrightarrow> at_state a = AttemptRunning"
    and e: "find_execution d (at_execution_id a) = Some e" and t: "find_session d (ex_session_id e) = Some t"
    and stg: "session_stages d' = session_stages d1"
    and fa: "find_attempt d' i = Some (finish_attempt_row (unix_milli now) c a)"
    by (rule complete_attempt_effect [OF assms(1) tx assms(2,3)])
  have ok: "cp_state c = AttemptSucceeded"
    using fa reply assms(5) by (auto simp: attempt_reply_Inr scan_attempt_def finish_attempt_row_def)
  have "t = s" using e t assms(6) by (simp add: attempt_session_def attempt_execution_def)
  moreover have "\<not> cp_missing_outcome c" using c ok by (auto simp: completion_ok_def)
  ultimately have "sg_state g = StageSucceeded"
    using complete_stages_all_succeeded [OF stages ok] assms(7,8) stg by simp
  with run ok show ?thesis by simp
qed

lemma success_needs_every_stage_witness:
  "\<exists>view d' g. complete_attempt demo_now demo_needs_input_db ''00000000-0000-4000-8000-00000000000a'' (demo_completion ''succeeded'') = (Inr view, d') \<and>
     g \<in> set (session_stages d') \<and> sg_state g = StageSucceeded"
proof -
  obtain view d' where d': "complete_attempt demo_now demo_needs_input_db ''00000000-0000-4000-8000-00000000000a'' (demo_completion ''succeeded'') = (Inr view, d')"
    and st: "av_state view = AttemptSucceeded" and g: "demo_stage 1 StageSucceeded \<in> set (session_stages d')"
    by (rule demo_completes)
  have a: "find_attempt demo_needs_input_db ''00000000-0000-4000-8000-00000000000a'' = Some (demo_attempt AttemptRunning)"
    by (simp add: demo_needs_input_db_def)
  have s: "attempt_session demo_needs_input_db (demo_attempt AttemptRunning) =
      Some (demo_session ''work-1'' 0 SessionRunning ExecutionOwnerWorkerAttempt)"
    by (simp add: demo_needs_input_db_def attempt_session_def attempt_execution_def find_session_def
        find_execution_def demo_db_def demo_rows)
  have "sg_state (demo_stage 1 StageSucceeded) = StageSucceeded"
    using success_needs_every_stage [OF demo_needs_input_db_ok(1) a _ d' st s g]
    by (simp add: demo_rows is_active_def)
  with d' g show ?thesis by blast
qed

text \<open>The states that a completion is due to give the Attempt and the Work: a requested cancellation prevails, then an
  exit that is no success; a success counts as it is unless the Run is under the agent-update contract, and then the report
  says what has come of the Work, and a missing report is a failure.\<close>

fun reported_state :: "work_update_status \<Rightarrow> session_state" where
  "reported_state WorkUpdateReady = SessionReady"
| "reported_state WorkUpdateNeedsInput = SessionNeedsInput"
| "reported_state WorkUpdateNoChange = SessionNoChange"
| "reported_state _ = SessionFailed"

definition due_states :: "bool \<Rightarrow> outcome_contract \<Rightarrow> work_update option \<Rightarrow> string \<Rightarrow> attempt_state \<times> session_state" where
  "due_states cancelled contract report exit_state =
     (if cancelled \<or> exit_state = ''cancelled'' then (AttemptCancelled, SessionCancelled)
      else if exit_state = ''failed'' then (AttemptFailed, SessionFailed)
      else if contract \<noteq> OutcomeAgentUpdate then (AttemptSucceeded, SessionSucceeded)
      else case report of
          None \<Rightarrow> (AttemptFailed, SessionFailed)
        | Some u \<Rightarrow> (AttemptSucceeded, reported_state (wu_status u)))"

lemma resolve_completion_due:
  assumes "resolve_completion lease outcome st reply failure = Inr c" "terminal_attempt_state v = Some st"
    and "ls_outcome_contract lease = OutcomeAgentUpdate \<Longrightarrow> outcome = report"
  shows "due_states (ls_cancel lease) (ls_outcome_contract lease) report v = (cp_state c, cp_work_state c)"
  using assms
  by (auto simp: resolve_completion_def terminal_attempt_state_def due_states_def Let_def
      split: if_splits option.splits work_update_status.splits)

lemma finish_session_row_states:
  assumes "completion_ok c outcome"
  shows "ss_state (finish_session_row now c outcome s) = cp_work_state c"
    "ss_terminal_at (finish_session_row now c outcome s) = (if cp_work_state c = SessionNeedsInput then None else Some now)"
    "ss_execution_owner (finish_session_row now c outcome s) = ExecutionOwnerNone"
  using assms by (auto simp: finish_session_row_def completion_ok_def Let_def split: option.splits)

text \<open>C7. A completion moves all levels at once, to the states that the cancellation, the exit and the report call for: the
  Attempt and its execution end in the same state, completed now; the Work takes its state, owned by nobody, and is over
  now unless it waits for an answer; the stages of the Work have all succeeded if the Attempt has, and none of them is open
  otherwise.\<close>

theorem completion_ends_every_level:
  assumes "store_ok d" "find_attempt d i = Some a" "is_active (at_state a)"
    and "complete_attempt now d i input = (Inr view, d')"
    and "find_execution d (at_execution_id a) = Some e" "find_session d (ex_session_id e) = Some s"
    and "find_run d (ss_run_id s) = Some r"
    and "due_states (ex_cancellation_requested e) (run_outcome_contract r) (attempt_outcome d i) (ca_state input) = (st, work)"
  shows "av_state view = st \<and> av_completed_at view = Some (unix_milli now) \<and>
     find_execution d' (ex_id e) = Some (e\<lparr>ex_state := execution_of_attempt st, ex_updated_at := unix_milli now\<rparr>) \<and>
     (\<exists>t. find_session d' (ss_id s) = Some t \<and> ss_state t = work \<and> ss_execution_owner t = ExecutionOwnerNone \<and>
        ss_terminal_at t = (if work = SessionNeedsInput then None else Some (unix_milli now))) \<and>
     (\<forall>g \<in> set (session_stages d'). sg_session_id g = ss_id s \<longrightarrow>
        (if st = AttemptSucceeded then sg_state g = StageSucceeded else \<not> stage_open g))"
proof -
  obtain v where tx: "complete_attempt_tx now d i input = Inr (v, d')" and reply: "attempt_reply d' i = Inr view"
    using complete_attempt_Inr [OF assms(4)] by blast
  obtain st' c outcome f t q d1 where st': "terminal_attempt_state (ca_state input) = Some st'"
    and f: "find_execution d (at_execution_id a) = Some f" and t: "find_session d (ex_session_id f) = Some t"
    and q: "find_run d (ss_run_id t) = Some q"
    and out: "outcome = (if run_outcome_contract q = OutcomeAgentUpdate then attempt_outcome d i else None)"
    and res: "resolve_completion (lease_of q f a) outcome st' (ca_result input) (ca_error input) = Inr c"
    and c: "completion_ok c outcome" and stages: "complete_stages (unix_milli now) (ss_id t) c d = Inr d1"
    and stg: "session_stages d' = session_stages d1"
    and fa: "find_attempt d' i = Some (finish_attempt_row (unix_milli now) c a)"
    and fe: "find_execution d' (ex_id f) = Some (f\<lparr>ex_state := execution_of_attempt (cp_state c), ex_updated_at := unix_milli now\<rparr>)"
    and fs: "find_session d' (ss_id t) = Some (finish_session_row (unix_milli now) c outcome t)"
    by (rule complete_attempt_effect [OF assms(1) tx assms(2,3)])
  have same: "f = e" "t = s" "q = r" using f t q assms(5-7) by auto
  have due: "cp_state c = st" "cp_work_state c = work"
    using resolve_completion_due [OF res st', of "attempt_outcome d i"] assms(8) by (simp_all add: same out)
  have "sg_state g = StageSucceeded" if "g \<in> set (session_stages d')" "sg_session_id g = ss_id s" "st = AttemptSucceeded" for g
    using complete_stages_all_succeeded [OF stages] that c due(1) stg same by (auto simp: completion_ok_def)
  moreover have "\<not> stage_open g" if "g \<in> set (session_stages d')" "sg_session_id g = ss_id s" "st \<noteq> AttemptSucceeded" for g
    using complete_stages_closed [OF stages] that due(1) stg same by simp
  moreover have "av_state view = st" "av_completed_at view = Some (unix_milli now)"
    using fa reply due(1) by (auto simp: attempt_reply_Inr scan_attempt_def finish_attempt_row_def)
  ultimately show ?thesis
    using fe fs due finish_session_row_states [OF c, of "unix_milli now" t] by (simp add: same)
qed

lemma completion_ends_every_level_witness:
  "\<exists>view d' t. complete_attempt demo_now demo_needs_input_db ''00000000-0000-4000-8000-00000000000a'' (demo_completion ''succeeded'') = (Inr view, d') \<and>
     find_session d' ''work-1'' = Some t \<and> ss_state t = SessionNeedsInput \<and> ss_terminal_at t = None \<and>
     ss_execution_owner t = ExecutionOwnerNone"
proof -
  obtain view d' where d': "complete_attempt demo_now demo_needs_input_db ''00000000-0000-4000-8000-00000000000a'' (demo_completion ''succeeded'') = (Inr view, d')"
    by (rule demo_completes)
  have "\<exists>t. find_session d' ''work-1'' = Some t \<and> ss_state t = SessionNeedsInput \<and> ss_terminal_at t = None \<and>
      ss_execution_owner t = ExecutionOwnerNone"
    using completion_ends_every_level [OF demo_needs_input_db_ok(1) demo_needs_input_lookups(1) _ d',
        of "demo_execution ExecutionRunning" "demo_session ''work-1'' 0 SessionRunning ExecutionOwnerWorkerAttempt" "demo_run None"
          AttemptSucceeded SessionNeedsInput]
    by (auto simp: demo_rows is_active_def demo_completion_def due_states_def)
  with d' show ?thesis by blast
qed

text \<open>C8. A requested cancellation prevails over anything the Worker reports: the Attempt ends cancelled and the
  Work cancelled, with no result or error taken from the request.\<close>

theorem cancellation_prevails:
  assumes "store_ok d" "find_attempt d i = Some a" "is_active (at_state a)"
    and "find_execution d (at_execution_id a) = Some e" "ex_cancellation_requested e"
    and "complete_attempt now d i input = (Inr view, d')"
  shows "av_state view = AttemptCancelled \<and> av_result view = '''' \<and> av_error view = '''' \<and>
     (\<exists>t. find_session d' (ex_session_id e) = Some t \<and> ss_state t = SessionCancelled \<and>
        ss_terminal_message t = ''Cancelled by operator.'')"
proof -
  obtain v where tx: "complete_attempt_tx now d i input = Inr (v, d')" and reply: "attempt_reply d' i = Inr view"
    using complete_attempt_Inr [OF assms(6)] by blast
  obtain st c outcome f t r d1 where c: "completion_ok c outcome"
    and res: "resolve_completion (lease_of r f a) outcome st (ca_result input) (ca_error input) = Inr c"
    and f: "find_execution d (at_execution_id a) = Some f" and t: "find_session d (ex_session_id f) = Some t"
    and fa: "find_attempt d' i = Some (finish_attempt_row (unix_milli now) c a)"
    and fs: "find_session d' (ss_id t) = Some (finish_session_row (unix_milli now) c outcome t)"
    by (rule complete_attempt_effect [OF assms(1) tx assms(2,3)])
  have fe: "f = e" using f assms(4) by simp
  have cc: "cp_state c = AttemptCancelled" "cp_work_state c = SessionCancelled" "cp_result c = ''''" "cp_error c = ''''"
      "cp_terminal_message c = ''Cancelled by operator.''"
    using res assms(5) by (auto simp: resolve_completion_def fe Let_def)
  have "ss_terminal_message (finish_session_row (unix_milli now) c outcome t) = ''Cancelled by operator.''"
    using cc by (auto simp: finish_session_row_def Let_def split: option.splits)
  then show ?thesis
    using fa fs reply cc c find_session_Some [OF t] fe
    by (auto simp: attempt_reply_Inr scan_attempt_def finish_attempt_row_def null_string_def coalesce_def)
qed

lemma success_resolved:
  assumes "resolve_completion lease outcome AttemptSucceeded reply failure = Inr c"
    and "\<not> ls_cancel lease" "ls_outcome_contract lease = OutcomeAgentUpdate"
  shows "case outcome of
      None \<Rightarrow> cp_state c = AttemptFailed \<and> cp_error c = missing_outcome \<and> ss_state (finish_session_row now c outcome s) = SessionFailed
    | Some u \<Rightarrow> cp_state c = AttemptSucceeded \<and> cp_work_state c = reported_state (wu_status u) \<and> wu_status u \<noteq> WorkUpdateRunning \<and>
        ss_terminal_message (finish_session_row now c outcome s) = wu_message u \<and>
        (if wu_status u = WorkUpdateNeedsInput
         then ss_state (finish_session_row now c outcome s) = SessionNeedsInput \<and>
           ss_question (finish_session_row now c outcome s) = wu_message u \<and>
           ss_pending_resume_sha (finish_session_row now c outcome s) = wu_checkpoint_sha u \<and>
           ss_answer (finish_session_row now c outcome s) = ''''
         else ss_state (finish_session_row now c outcome s) = reported_state (wu_status u) \<and>
           ss_pull_request_url (finish_session_row now c outcome s) = coalesce_nullif (wu_pull_request_url u) (ss_pull_request_url s) \<and>
           (wu_status u = WorkUpdateFailed \<longrightarrow>
              ss_failure_reason (finish_session_row now c outcome s) = null_string (wu_message u)))"
proof (cases outcome)
  case None
  then show ?thesis using assms by (auto simp: resolve_completion_def finish_session_row_def Let_def)
next
  case (Some u)
  then show ?thesis using assms by (cases "wu_status u") (auto simp: resolve_completion_def finish_session_row_def Let_def)
qed

lemma failure_resolved:
  assumes "resolve_completion lease outcome st reply failure = Inr c" "\<not> ls_cancel lease"
    and "st = AttemptFailed \<or> st = AttemptCancelled"
  shows "cp_state c = st" "cp_error c = failure"
    "ss_state (finish_session_row now c outcome s) = work_state_of st"
    "ss_failure_reason (finish_session_row now c outcome s) = null_string failure"
    "ss_pending_resume_sha (finish_session_row now c outcome s) =
       (case outcome of Some u \<Rightarrow> if wu_status u = WorkUpdateNeedsInput then wu_checkpoint_sha u else ss_pending_resume_sha s
        | None \<Rightarrow> ss_pending_resume_sha s)"
    "ss_pull_request_url (finish_session_row now c outcome s) =
       (case outcome of Some u \<Rightarrow> if wu_status u = WorkUpdateReady then wu_pull_request_url u else ss_pull_request_url s
        | None \<Rightarrow> ss_pull_request_url s)"
  using assms by (auto simp: resolve_completion_def finish_session_row_def Let_def split: option.splits)

text \<open>C9. Under the agent-update contract and without a cancellation the report decides what a successful exit means: without
  one the Attempt and the Work fail; with one the Attempt succeeds and the Work takes the reported state, with the question
  and the resume commit of a report that needs input, and the pull request of a report that is ready. An exit that fails or
  is cancelled decides by itself, whatever was reported, but the evidence is kept: the resume commit or the pull request.\<close>

theorem agent_outcome_decides:
  assumes "store_ok d" "history_ok d" "find_attempt d i = Some a" "is_active (at_state a)"
    and "find_execution d (at_execution_id a) = Some e" "\<not> ex_cancellation_requested e"
    and "find_session d (ex_session_id e) = Some s" "find_run d (ss_run_id s) = Some r"
    and "run_outcome_contract r = OutcomeAgentUpdate"
    and "complete_attempt now d i input = (Inr view, d')"
  shows "\<exists>t. find_session d' (ss_id s) = Some t \<and>
     (if ca_state input = ''succeeded'' then
        (case attempt_outcome d i of
           None \<Rightarrow> av_state view = AttemptFailed \<and> av_error view = missing_outcome \<and> ss_state t = SessionFailed
         | Some u \<Rightarrow> av_state view = AttemptSucceeded \<and> ss_terminal_message t = wu_message u \<and>
             (wu_status u = WorkUpdateReady \<longrightarrow> ss_state t = SessionReady \<and>
                ss_pull_request_url t = coalesce_nullif (wu_pull_request_url u) (ss_pull_request_url s)) \<and>
             (wu_status u = WorkUpdateNeedsInput \<longrightarrow> ss_state t = SessionNeedsInput \<and>
                ss_question t = wu_message u \<and> ss_pending_resume_sha t = wu_checkpoint_sha u \<and> ss_answer t = '''') \<and>
             (wu_status u = WorkUpdateFailed \<longrightarrow> ss_state t = SessionFailed \<and> ss_failure_reason t = Some (wu_message u)) \<and>
             (wu_status u = WorkUpdateNoChange \<longrightarrow> ss_state t = SessionNoChange))
      else
        (if ca_state input = ''failed'' then av_state view = AttemptFailed \<and> ss_state t = SessionFailed
         else ca_state input = ''cancelled'' \<and> av_state view = AttemptCancelled \<and> ss_state t = SessionCancelled) \<and>
        av_error view = ca_error input \<and> ss_failure_reason t = null_string (ca_error input) \<and>
        (case attempt_outcome d i of
           None \<Rightarrow> ss_pending_resume_sha t = ss_pending_resume_sha s \<and> ss_pull_request_url t = ss_pull_request_url s
         | Some u \<Rightarrow>
             ss_pending_resume_sha t = (if wu_status u = WorkUpdateNeedsInput then wu_checkpoint_sha u else ss_pending_resume_sha s) \<and>
             ss_pull_request_url t = (if wu_status u = WorkUpdateReady then wu_pull_request_url u else ss_pull_request_url s)))"
proof -
  obtain v where tx: "complete_attempt_tx now d i input = Inr (v, d')" and reply: "attempt_reply d' i = Inr view"
    using complete_attempt_Inr [OF assms(10)] by blast
  obtain st c outcome f t q d1 where st: "terminal_attempt_state (ca_state input) = Some st" and c: "completion_ok c outcome"
    and f: "find_execution d (at_execution_id a) = Some f" and t: "find_session d (ex_session_id f) = Some t"
    and q: "find_run d (ss_run_id t) = Some q"
    and out: "outcome = (if run_outcome_contract q = OutcomeAgentUpdate then attempt_outcome d i else None)"
    and res: "resolve_completion (lease_of q f a) outcome st (ca_result input) (ca_error input) = Inr c"
    and fa: "find_attempt d' i = Some (finish_attempt_row (unix_milli now) c a)"
    and fs: "find_session d' (ss_id t) = Some (finish_session_row (unix_milli now) c outcome t)"
    by (rule complete_attempt_effect [OF assms(1) tx assms(3,4)])
  have same: "f = e" "t = s" "q = r" using f t q assms(5,7,8) by auto
  have out': "outcome = attempt_outcome d i" using out same assms(9) by simp
  have view: "view = scan_attempt (finish_attempt_row (unix_milli now) c a)"
    using fa reply by (simp add: attempt_reply_Inr)
  have live: "\<not> ls_cancel (lease_of r e a)" "ls_outcome_contract (lease_of r e a) = OutcomeAgentUpdate"
    using assms(6,9) by simp_all
  note res' = res [unfolded same out']
  have row: "find_session d' (ss_id s) = Some (finish_session_row (unix_milli now) c (attempt_outcome d i) s)"
    using fs by (simp add: same out')
  show ?thesis
  proof (cases "ca_state input = ''succeeded''")
    case True
    then have "st = AttemptSucceeded" using st by (simp add: terminal_attempt_state_def)
    note resolved = success_resolved [OF res' [unfolded \<open>st = AttemptSucceeded\<close>] live, of "unix_milli now" s]
    show ?thesis
    proof (cases "attempt_outcome d i")
      case None
      then show ?thesis
        using resolved row True by (simp add: view scan_attempt_def finish_attempt_row_def missing_outcome_def null_string_def coalesce_def)
    next
      case (Some u)
      then have "wu_message u \<noteq> []" using attempt_outcome_row [OF assms(2) Some] by (simp add: update_row_ok_def)
      then show ?thesis
        using resolved row True Some by (cases "wu_status u") (simp_all add: view scan_attempt_def finish_attempt_row_def null_string_def)
    qed
  next
    case False
    with st have other: "ca_state input = ''failed'' \<and> st = AttemptFailed \<or> ca_state input = ''cancelled'' \<and> st = AttemptCancelled"
      by (auto simp: terminal_attempt_state_def split: if_splits)
    then have "st = AttemptFailed \<or> st = AttemptCancelled" by auto
    then show ?thesis
      using failure_resolved [OF res' live(1)] row other False
      by (auto simp: view scan_attempt_def finish_attempt_row_def null_string_def coalesce_def split: option.splits)
  qed
qed

lemma cancellation_prevails_witness:
  "\<exists>view d'. complete_attempt demo_now demo_cancel_db ''00000000-0000-4000-8000-00000000000a'' (demo_completion ''succeeded'') = (Inr view, d') \<and>
     av_state view = AttemptCancelled"
proof -
  have "\<exists>view d'. complete_attempt demo_now demo_cancel_db ''00000000-0000-4000-8000-00000000000a'' (demo_completion ''succeeded'') = (Inr view, d') \<and>
      av_state view \<noteq> AttemptSucceeded"
    by (rule complete_attempt_accepts [OF demo_cancel_db_ok])
      (simp_all add: demo_completion_def terminal_attempt_state_def protocol_limits demo_attempt_def
        owns_lease_def demo_now_def unix_milli_def demo_cancel_db_def demo_needs_input_db_def demo_db_def is_active_def
        find_attempt_def find_execution_def demo_execution_def)
  then obtain view d' where d': "complete_attempt demo_now demo_cancel_db ''00000000-0000-4000-8000-00000000000a'' (demo_completion ''succeeded'') = (Inr view, d')"
    by blast
  have "av_state view = AttemptCancelled"
    using cancellation_prevails [OF demo_cancel_db_ok demo_cancel_lookups(1) _ _ _ d']
    by (simp add: demo_attempt_def is_active_def)
  with d' show ?thesis by blast
qed

lemma agent_outcome_decides_witness:
  "\<exists>view d' t. complete_attempt demo_now demo_needs_input_db ''00000000-0000-4000-8000-00000000000a'' (demo_completion ''succeeded'') = (Inr view, d') \<and>
     find_session d' ''work-1'' = Some t \<and> ss_state t = SessionNeedsInput \<and> ss_question t = ''Which branch?''"
proof -
  obtain view d' where d': "complete_attempt demo_now demo_needs_input_db ''00000000-0000-4000-8000-00000000000a'' (demo_completion ''succeeded'') = (Inr view, d')"
    by (rule demo_completes)
  have "\<exists>t. find_session d' ''work-1'' = Some t \<and> ss_state t = SessionNeedsInput \<and> ss_question t = ''Which branch?''"
    using agent_outcome_decides [OF demo_needs_input_db_ok demo_needs_input_lookups(1) _ _ _ _ _ _ d',
        of "demo_execution ExecutionRunning" "demo_session ''work-1'' 0 SessionRunning ExecutionOwnerWorkerAttempt" "demo_run None"]
    by (auto simp: demo_rows is_active_def demo_completion_def)
  with d' show ?thesis by blast
qed

subsection \<open>Loss\<close>

lemma drop_stale_claims_tables [simp]:
  "attempts (drop_stale_claims now d) = attempts d" "executions (drop_stale_claims now d) = executions d"
  "sessions (drop_stale_claims now d) = sessions d" "runs (drop_stale_claims now d) = runs d"
  "session_stages (drop_stale_claims now d) = session_stages d"
  by (simp_all add: drop_stale_claims_def)

lemma drop_stale_claims_backend [simp]:
  "attempt_backend_persistent (drop_stale_claims now d) = attempt_backend_persistent d"
proof
  fix a
  have "find_session (drop_stale_claims now d) = find_session d" by (rule ext) (simp add: find_session_def)
  then show "attempt_backend_persistent (drop_stale_claims now d) a = attempt_backend_persistent d a"
    by (simp add: attempt_backend_persistent_def attempt_session_def attempt_execution_def find_execution_def
        cong: option.case_cong)
qed

text \<open>C10. A sweep always succeeds, answers exactly the persistent Attempts whose lease has run out, records each of
  them as lost, leaves every other Attempt as it was, and leaves none that it would have to sweep.\<close>

theorem sweep_loses_exactly_the_expired:
  assumes "store_ok d"
  shows "\<exists>leases d'. sweep_expired now d = (Inr leases, d') \<and>
     leases = map (\<lambda>a. (at_id a, at_execution_id a)) (filter (lease_expired d (unix_milli now)) (attempts d)) \<and>
     attempts d' = map (\<lambda>a. if lease_expired d (unix_milli now) a then lost_row (unix_milli now) a else a) (attempts d) \<and>
     (\<forall>a \<in> set (attempts d'). \<not> lease_expired d' (unix_milli now) a)"
proof -
  let ?m = "unix_milli now" and ?d = "drop_stale_claims (unix_milli now) d"
  have ok: "store_ok ?d" by (rule store_ok_frame [OF assms]) simp_all
  have exp: "lease_expired ?d ?m = lease_expired d ?m"
    by (rule ext) (simp add: lease_expired_def)
  obtain d' where d': "sweep_all ?m ?d (expired_leases ?d ?m) = Inr d'"
    "attempts d' = update_where (\<lambda>b. at_id b \<in> fst ` set (expired_leases ?d ?m) \<and> lease_expired ?d ?m b) (lost_row ?m) (attempts ?d)"
    "\<forall>b. attempt_backend_persistent d' b = attempt_backend_persistent ?d b"
    using sweep_all_total [OF ok, of "expired_leases ?d ?m" ?m] by (auto simp: expired_leases_def)
  have rows: "attempts d' = map (\<lambda>a. if lease_expired d ?m a then lost_row ?m a else a) (attempts d)"
    unfolding d'(2) update_where_def exp
    by (rule map_cong) (auto simp: expired_leases_def exp image_image intro!: image_eqI)
  have "lease_expired d' ?m b = lease_expired d ?m b" for b
    using d'(3) by (simp add: lease_expired_def)
  then have "\<forall>a \<in> set (attempts d'). \<not> lease_expired d' ?m a"
    by (auto simp: rows)
  with rows d'(1) show ?thesis
    by (auto simp: sweep_expired_def sweep_expired_tx_def Let_def expired_leases_def exp)
qed

lemma sweep_loses_exactly_the_expired_witness:
  "\<exists>leases d'. sweep_expired 2000000000000 (demo_db AttemptRunning [] StageRunning StagePending) = (Inr leases, d') \<and>
     leases = [(''00000000-0000-4000-8000-00000000000a'', ''execution-1'')]"
proof -
  let ?d = "demo_db AttemptRunning [] StageRunning StagePending"
  have expired: "map (\<lambda>a. (at_id a, at_execution_id a)) (filter (lease_expired ?d (unix_milli 2000000000000)) (attempts ?d)) =
      [(''00000000-0000-4000-8000-00000000000a'', ''execution-1'')]"
    by (simp add: is_active_def lease_expired_def unix_milli_def attempt_backend_persistent_def attempt_session_def
        attempt_execution_def demo_db_def demo_rows find_execution_def find_session_def)
  have "store_ok ?d" by (rule demo_db_ok) (simp add: is_active_def)
  from sweep_loses_exactly_the_expired [OF this, of 2000000000000] obtain leases d' where
    "sweep_expired 2000000000000 ?d = (Inr leases, d')"
    "leases = map (\<lambda>a. (at_id a, at_execution_id a)) (filter (lease_expired ?d (unix_milli 2000000000000)) (attempts ?d))"
    by blast
  then show ?thesis using expired by auto
qed

subsection \<open>Leases\<close>

text \<open>A heartbeat is granted only to the owner of an unexpired lease, and then moves that lease, and nothing
  else, to thirty seconds from now; it tells the Worker whether its execution is to be cancelled.\<close>

theorem heartbeat_extends_the_lease:
  assumes "store_ok d" "heartbeat now d i token = (Inr reply, d')"
  shows "\<exists>a e. find_attempt d i = Some a \<and> is_active (at_state a) \<and> at_lease_digest a = digest_token token \<and>
     unix_milli now < at_lease_expires_at a \<and> find_execution d (at_execution_id a) = Some e \<and>
     reply = \<lparr>hb_lease_expires_at = now + 30000000000, hb_cancellation_requested = ex_cancellation_requested e\<rparr> \<and>
     d' = d\<lparr>attempts := map (\<lambda>b. if at_id b = i then b\<lparr>at_lease_expires_at := unix_milli now + 30000\<rparr> else b) (attempts d)\<rparr>"
proof -
  from assms(2) have "heartbeat_tx now d i token = Inr (reply, d')"
    by (auto simp: heartbeat_def elim: committed_cases)
  then show ?thesis
    by (auto simp: heartbeat_tx_def and_then_Inr Let_def load_lease_Inr verify_active_lease_Inr lease_duration_def
        update_where_def from_millis_def unix_milli_def)
qed

lemma heartbeat_extends_the_lease_witness:
  "\<exists>reply d'. heartbeat demo_now (demo_db AttemptRunning [] StageRunning StagePending) ''00000000-0000-4000-8000-00000000000a'' demo_token = (Inr reply, d') \<and>
     hb_lease_expires_at reply = demo_now + 30000000000"
proof -
  let ?d = "demo_db AttemptRunning [] StageRunning StagePending"
  obtain reply d' where h: "heartbeat demo_now ?d ''00000000-0000-4000-8000-00000000000a'' demo_token = (Inr reply, d')"
    by (simp add: heartbeat_def heartbeat_tx_def demo_load_lease verify_active_lease_def demo_attempt_def is_active_def
        demo_now_def unix_milli_def Let_def)
  have "hb_lease_expires_at reply = demo_now + 30000000000"
    using heartbeat_extends_the_lease [OF demo_db_ok h] by (auto simp: is_active_def)
  with h show ?thesis by blast
qed

text \<open>C11. An expired lease is worth nothing: none of the five operations of an executing Worker changes the store
  once the lease of its Attempt has run out, whatever token it presents.\<close>

theorem expired_lease_is_powerless:
  assumes "\<forall>a \<in> set (attempts d). at_id a = i \<longrightarrow> at_lease_expires_at a \<le> unix_milli now"
  shows "snd (start_attempt now d i start) = d \<and> snd (heartbeat now d i token) = d \<and>
     snd (start_stage now position d i stage) = d \<and> snd (complete_stage now position d i done_stage) = d \<and>
     snd (complete_attempt now d i completion) = d"
  using start_attempt.expired_lease_changes_nothing [OF assms] heartbeat.expired_lease_changes_nothing [OF assms]
    start_stage.expired_lease_changes_nothing [OF assms] complete_stage.expired_lease_changes_nothing [OF assms]
    complete_attempt.expired_lease_changes_nothing [OF assms]
  by simp

lemma expired_lease_is_powerless_witness:
  "snd (complete_attempt 2000000000000 (demo_db AttemptRunning [] StageRunning StagePending) ''00000000-0000-4000-8000-00000000000a''
     (demo_completion ''succeeded'')) = demo_db AttemptRunning [] StageRunning StagePending"
proof -
  have "\<forall>a \<in> set (attempts (demo_db AttemptRunning [] StageRunning StagePending)).
      at_id a = ''00000000-0000-4000-8000-00000000000a'' \<longrightarrow> at_lease_expires_at a \<le> unix_milli 2000000000000"
    by (simp add: demo_db_def demo_attempt_def unix_milli_def)
  from expired_lease_is_powerless [OF this] show ?thesis by blast
qed

end
