(* ===== verification/Stage_Properties.thy ===== *)
theory Stage_Properties
  imports Execution_Properties
begin

text \<open>
  Properties of the operations that move a leased Attempt forward: when it may start, in which order
  its pipeline runs, what the failure of a stage does to the rest, and that its owner can always end it.
\<close>

lemma start_attempt_tx_Inr:
  assumes "start_attempt_tx now d i input = Inr (u, d')"
  obtains lease s d1 where "load_lease d i = Inr lease"
    "verify_active_lease lease (sr_lease_token input) (unix_milli now) = Inr ()"
    "Option.bind (execution_session d (ls_execution_id lease)) (find_session d) = Some s"
    "ss_pending_resume_sha s \<noteq> [] \<longrightarrow> sr_started_from_sha input = ss_pending_resume_sha s"
    "d1 = (if ls_attempt_state lease = AttemptPreparing
       then start_attempt_rows (unix_milli now) i (ls_execution_id lease) input d else d)"
    "d' = (if sr_runtime_started input then clear_pending_resume (ls_execution_id lease) (sr_started_from_sha input) d1 else d1)"
    "ls_attempt_state lease = AttemptPreparing \<longrightarrow> \<not> sr_runtime_started input"
proof -
  from assms obtain lease where l: "load_lease d i = Inr lease"
      "verify_active_lease lease (sr_lease_token input) (unix_milli now) = Inr ()"
    by (auto simp: start_attempt_tx_def and_then_Inr Let_def split: if_splits)
  with assms obtain s where s: "Option.bind (execution_session d (ls_execution_id lease)) (find_session d) = Some s"
    by (cases "Option.bind (execution_session d (ls_execution_id lease)) (find_session d)")
      (auto simp: start_attempt_tx_def Let_def split: if_splits)
  have sha: "ss_pending_resume_sha s \<noteq> [] \<longrightarrow> sr_started_from_sha input = ss_pending_resume_sha s"
    using assms l s by (auto simp: start_attempt_tx_def Let_def split: if_splits)
  have early: "ls_attempt_state lease = AttemptPreparing \<longrightarrow> \<not> sr_runtime_started input"
    using assms l s by (auto simp: start_attempt_tx_def Let_def split: if_splits)
  show thesis
    by (rule that [OF l s sha refl _ early])
      (use assms l s in \<open>auto simp: start_attempt_tx_def Let_def split: if_splits\<close>)
qed

text \<open>C12. An Attempt starts only from the commit its Work is waiting to be resumed from, when there is one; it
  is then running together with its execution and its Work, and the pending commit is forgotten only when
  the Worker reports that the runtime itself has started.\<close>

theorem start_respects_pending_resume:
  assumes "store_ok d" "start_attempt now d i input = (Inr view, d')"
    and "find_attempt d i = Some a" "attempt_session d a = Some s"
  shows "av_state view = AttemptRunning \<and> owns_lease d (unix_milli now) i (sr_lease_token input) \<and>
     (ss_pending_resume_sha s \<noteq> [] \<longrightarrow> sr_started_from_sha input = ss_pending_resume_sha s) \<and>
     (\<exists>t. find_session d' (ss_id s) = Some t \<and> ss_state t = SessionRunning \<and>
        ss_pending_resume_sha t = (if sr_runtime_started input then '''' else ss_pending_resume_sha s))"
proof -
  note ok' = store_okD [OF assms(1)]
  obtain u where tx: "start_attempt_tx now d i input = Inr (u, d')" and reply: "attempt_reply d' i = Inr view"
    using assms(2) by (auto simp: start_attempt_def elim: committed_cases)
  obtain e where e: "find_execution d (at_execution_id a) = Some e" "find_session d (ex_session_id e) = Some s"
    using assms(4) by (auto simp: attempt_session_def attempt_execution_def split: bind_splits option.splits)
  have rows: "a \<in> set (attempts d)" "at_id a = i" "e \<in> set (executions d)" "ex_id e = at_execution_id a"
    "s \<in> set (sessions d)" "ss_id s = ex_session_id e"
    using find_attempt_Some [OF assms(3)] find_execution_Some [OF e(1)] find_session_Some [OF e(2)] by simp_all
  have xs: "execution_session d (at_execution_id a) = Some (ss_id s)"
    using execution_session_in [OF ok'(1) rows(3)] rows(4,6) by simp
  have fs: "find_session d (ss_id s) = Some s" using e(2) rows(6) by simp
  obtain lease s' d1 where lease: "load_lease d i = Inr lease"
    and verify: "verify_active_lease lease (sr_lease_token input) (unix_milli now) = Inr ()"
    and s': "Option.bind (execution_session d (ls_execution_id lease)) (find_session d) = Some s'"
    and sha': "ss_pending_resume_sha s' \<noteq> [] \<longrightarrow> sr_started_from_sha input = ss_pending_resume_sha s'"
    and d1': "d1 = (if ls_attempt_state lease = AttemptPreparing
       then start_attempt_rows (unix_milli now) i (ls_execution_id lease) input d else d)"
    and d'': "d' = (if sr_runtime_started input
       then clear_pending_resume (ls_execution_id lease) (sr_started_from_sha input) d1 else d1)"
    by (rule start_attempt_tx_Inr [OF tx])
  obtain r where r: "lease = lease_of r e a"
    using lease assms(3) e(1) by (auto simp: load_lease_Inr)
  note d1_def = d1' [unfolded r lease_of_simps] and d' = d'' [unfolded r lease_of_simps]
  have sha: "ss_pending_resume_sha s \<noteq> [] \<longrightarrow> sr_started_from_sha input = ss_pending_resume_sha s"
    using s' sha' xs fs by (simp add: r)
  have active: "is_active (at_state a)" using verify r by (simp add: verify_active_lease_Inr)
  have agree: "ex_state e = execution_of_attempt (at_state a)" "states_agree (ex_state e) (ss_state s)"
    using lifecycle_attempt_execution [OF ok'(3) rows(1,3,4) active] lifecycle_states_agree [OF ok'(3) rows(3,5,6)]
    by simp_all
  obtain t where t: "find_session d1 (ss_id s) = Some t" "ss_state t = SessionRunning" "ss_pending_resume_sha t = ss_pending_resume_sha s"
    using active agree fs xs
    by (auto simp: d1_def start_attempt_rows_def find_session_def find_update_where is_active_def states_agree_def)
  have x1: "execution_session d1 (at_execution_id a) = Some (ss_id s)"
    using xs e(1)
    by (auto simp: d1_def start_attempt_rows_def execution_session_def find_execution_def find_update_where
        split: option.splits)
  have run: "\<exists>b. find_attempt d' i = Some b \<and> at_state b = AttemptRunning"
    using active assms(3) rows(2)
    by (auto simp: d' d1_def start_attempt_rows_def clear_pending_resume_def find_attempt_def find_update_where is_active_def)
  have "find_session d' (ss_id s) = Some (if sr_runtime_started input \<and> ss_pending_resume_sha s = sr_started_from_sha input
      then t\<lparr>ss_pending_resume_sha := ''''\<rparr> else t)"
    using t x1 find_session_Some [OF t(1)]
    by (auto simp: d' clear_pending_resume_def find_session_def find_update_where)
  then have "\<exists>t'. find_session d' (ss_id s) = Some t' \<and> ss_state t' = SessionRunning \<and>
      ss_pending_resume_sha t' = (if sr_runtime_started input then '''' else ss_pending_resume_sha s)"
    using t(2,3) sha by auto
  with run sha lease_guard [OF lease verify] reply show ?thesis
    by (auto simp: attempt_reply_Inr scan_attempt_def)
qed

lemma start_respects_pending_resume_witness:
  "\<exists>view d'. start_attempt demo_now (demo_db AttemptPreparing [] StagePending StagePending) ''00000000-0000-4000-8000-00000000000a''
       \<lparr>sr_lease_token = demo_token, sr_supervisor_pid = Some 7, sr_process_identity = ''p'',
        sr_process_group_id = Some 7, sr_started_from_sha = '''', sr_runtime_started = False\<rparr> = (Inr view, d') \<and>
     av_state view = AttemptRunning"
proof -
  let ?d = "demo_db AttemptPreparing [] StagePending StagePending"
  let ?i = "\<lparr>sr_lease_token = demo_token, sr_supervisor_pid = Some 7, sr_process_identity = ''p'',
        sr_process_group_id = Some 7, sr_started_from_sha = '''', sr_runtime_started = False\<rparr>"
  have session: "find_session ?d ''work-1'' = Some (demo_session ''work-1'' 0 SessionPreparing ExecutionOwnerWorkerAttempt)"
    by (simp add: find_session_def demo_db_def demo_session_def)
  have as: "attempt_session ?d (demo_attempt AttemptPreparing) =
      Some (demo_session ''work-1'' 0 SessionPreparing ExecutionOwnerWorkerAttempt)"
    by (simp add: attempt_session_def attempt_execution_def demo_attempt_def)
      (simp add: demo_execution_def session)
  have "verify_active_lease (lease_of (demo_run None) (demo_execution ExecutionPreparing) (demo_attempt AttemptPreparing))
      demo_token (unix_milli demo_now) = Inr ()"
    by (simp add: verify_active_lease_def demo_attempt_def is_active_def demo_now_def unix_milli_def)
  moreover have "execution_session ?d ''execution-1'' = Some ''work-1''"
    by (simp add: execution_session_def) (simp add: demo_execution_def)
  ultimately have tx: "start_attempt_tx demo_now ?d ''00000000-0000-4000-8000-00000000000a'' ?i =
      Inr ((), start_attempt_rows (unix_milli demo_now) ''00000000-0000-4000-8000-00000000000a'' ''execution-1'' ?i ?d)"
    by (simp add: start_attempt_tx_def demo_load_lease Let_def session demo_session_def demo_attempt_def)
  obtain view where view: "start_attempt demo_now ?d ''00000000-0000-4000-8000-00000000000a'' ?i =
      (Inr view, start_attempt_rows (unix_milli demo_now) ''00000000-0000-4000-8000-00000000000a'' ''execution-1'' ?i ?d)"
    by (simp add: start_attempt_def tx attempt_reply_def)
      (simp add: find_attempt_def start_attempt_rows_def demo_db_def demo_attempt_def)
  have "store_ok ?d" by (rule demo_db_ok) (simp add: is_active_def)
  then have "av_state view = AttemptRunning"
    using start_respects_pending_resume [OF _ view demo_lookups(1) as] by simp
  with view show ?thesis by blast
qed

subsection \<open>Order\<close>

text \<open>A stage starts only when every stage before it has succeeded, in an Attempt that runs under a live
  lease and that nobody has asked to cancel.\<close>

theorem stage_starts_in_order:
  assumes "store_ok d" "start_stage now position d i input = (Inr reply, d')"
  shows "\<exists>a e g. find_attempt d i = Some a \<and> at_state a = AttemptRunning \<and> find_execution d (at_execution_id a) = Some e \<and>
     \<not> ex_cancellation_requested e \<and> unix_milli now < at_lease_expires_at a \<and> g \<in> set (session_stages d) \<and>
     sg_session_id g = ex_session_id e \<and> sg_position g = position \<and> (sg_state g = StagePending \<or> sg_state g = StageRunning) \<and>
     (\<forall>h \<in> set (session_stages d). sg_session_id h = ex_session_id e \<and> sg_position h < position \<longrightarrow>
        sg_state h = StageSucceeded)"
proof -
  obtain u where tx: "start_stage_tx now d i position input = Inr (u, d')"
    using assms(2) by (auto simp: start_stage_def elim: committed_cases)
  then obtain a e g where "find_attempt d i = Some a" "at_state a = AttemptRunning"
    "find_execution d (at_execution_id a) = Some e" "\<not> ex_cancellation_requested e" "unix_milli now < at_lease_expires_at a"
    and g: "attempt_stage d i position = Some g" "sg_state g = StagePending \<or> sg_state g = StageRunning"
    "incomplete_before d (sg_session_id g) position = 0"
    by (auto simp: start_stage_tx_def and_then_Inr Let_def load_lease_Inr verify_active_lease_Inr
        split: if_splits option.splits)
  moreover from this have "sg_session_id g = ex_session_id e"
    using attempt_stage_Some [OF g(1)] by auto
  moreover have "\<forall>h \<in> set (session_stages d). sg_session_id h = sg_session_id g \<and> sg_position h < position \<longrightarrow>
      sg_state h = StageSucceeded"
    using g(3) by (auto simp: incomplete_before_def count_where_eq_0)
  ultimately show ?thesis
    using attempt_stage_Some [OF g(1)] by metis
qed

lemma demo_attempt_stage:
  "attempt_stage (demo_db AttemptRunning [] g0 g1) ''00000000-0000-4000-8000-00000000000a'' (Suc 0) = Some (demo_stage 1 g1)"
proof -
  have "attempt_execution (demo_db AttemptRunning [] g0 g1) (demo_attempt AttemptRunning) = Some (demo_execution ExecutionRunning)"
    by (simp add: attempt_execution_def demo_attempt_def)
  then show ?thesis
    by (simp add: attempt_stage_def) (simp add: demo_execution_def demo_db_def demo_stage_def)
qed

definition demo_start_stage :: start_stage_request where
  "demo_start_stage = \<lparr>st_lease_token = demo_token, st_supervisor_pid = Some 7, st_process_identity = ''p'',
     st_process_group_id = Some 7\<rparr>"

lemma demo_verify:
  "verify_active_lease (lease_of (demo_run None) (demo_execution ExecutionRunning) (demo_attempt AttemptRunning))
     demo_token (unix_milli demo_now) = Inr ()"
  by (simp add: verify_active_lease_def demo_attempt_def is_active_def demo_now_def unix_milli_def)

lemma stage_starts_in_order_witness:
  "\<exists>reply d'. start_stage demo_now 1 (demo_db AttemptRunning [] StageSucceeded StagePending) ''00000000-0000-4000-8000-00000000000a''
       demo_start_stage = (Inr reply, d') \<and>
     sg_state (demo_stage 0 StageSucceeded) = StageSucceeded"
proof -
  let ?d = "demo_db AttemptRunning [] StageSucceeded StagePending"
  have before: "incomplete_before ?d ''work-1'' (Suc 0) = 0"
    by (simp add: incomplete_before_def demo_db_def demo_stage_def)
  have tx: "start_stage_tx demo_now ?d ''00000000-0000-4000-8000-00000000000a'' 1 demo_start_stage =
      Inr (''work-1'', start_stage_rows (unix_milli demo_now) ''00000000-0000-4000-8000-00000000000a'' ''work-1'' 1 demo_start_stage ?d)"
    using before
    by (simp add: start_stage_tx_def demo_load_lease demo_start_stage_def demo_verify Let_def demo_attempt_stage)
      (simp add: demo_attempt_def demo_execution_def demo_stage_def)
  obtain reply where reply: "start_stage demo_now 1 ?d ''00000000-0000-4000-8000-00000000000a'' demo_start_stage =
      (Inr reply, start_stage_rows (unix_milli demo_now) ''00000000-0000-4000-8000-00000000000a'' ''work-1'' 1 demo_start_stage ?d)"
    by (simp add: start_stage_def tx stage_reply_def del: One_nat_def)
      (simp add: start_stage_rows_def demo_db_def demo_stage_def)
  have "store_ok ?d" by (rule demo_db_ok) (simp add: is_active_def)
  from stage_starts_in_order [OF this reply] have "sg_state (demo_stage 0 StageSucceeded) = StageSucceeded"
    by (auto simp: demo_db_def demo_stage_def)
  with reply show ?thesis by blast
qed

text \<open>A stage that does not succeed ends its pipeline: no later stage of the Work is left pending or running,
  and none of them has succeeded.\<close>

theorem failed_stage_ends_the_pipeline:
  assumes "stages_ok d" "keys_ok d" "complete_stage now position d i input = (Inr reply, d')"
    and "sv_state reply = StageFailed \<or> sv_state reply = StageCancelled"
    and "attempt_stage d i position = Some g" "sg_state g = StageRunning"
    and "h \<in> set (session_stages d')" "sg_session_id h = sg_session_id g" "position < sg_position h"
  shows "sg_state h = StageFailed \<or> sg_state h = StageCancelled"
proof -
  obtain u where tx: "complete_stage_tx now d i position input = Inr (u, d')" and rep: "stage_reply d' u position = Inr reply"
    using assms(3) by (auto simp: complete_stage_def elim: committed_cases)
  then obtain st where st: "terminal_stage_state (cs_state input) = Some st" "u = sg_session_id g"
    and d': "d' = complete_stage_rows (unix_milli now) (sg_session_id g) position st (cs_result input) (cs_error input) d"
    using assms(5,6) by (auto simp: complete_stage_tx_def and_then_Inr Let_def split: if_splits option.splits)
  note g = attempt_stage_Some [OF assms(5)]
  have notok: "st \<noteq> StageSucceeded"
  proof
    assume "st = StageSucceeded"
    moreover from rep st(2) obtain k where k: "k \<in> set (session_stages d')" "sg_session_id k = sg_session_id g" "sg_position k = position"
        "sv_state reply = sg_state k"
      by (force simp: stage_reply_def split: option.splits dest: find_Some_set)
    ultimately have "k \<in> set (update_where
        (\<lambda>g'. sg_session_id g' = sg_session_id g \<and> sg_position g' = position \<and> sg_state g' = StageRunning)
        (\<lambda>g'. g'\<lparr>sg_state := StageSucceeded, sg_result := cs_result input, sg_error := cs_error input,
                  sg_completed_at := Some (unix_milli now)\<rparr>) (session_stages d))"
      by (simp add: d' complete_stage_rows_def)
    then have "sg_state k = StageSucceeded"
    proof (cases rule: in_set_update_whereE)
      case 2
      with stage_unique [OF assms(2) 2(1), of g] g k(2,3) assms(6) show ?thesis by simp
    qed simp
    with assms(4) k(4) show False by simp
  qed
  have rest: "sg_state k \<noteq> StageRunning \<and> sg_state k \<noteq> StageSucceeded"
    if "k \<in> set (session_stages d)" "sg_session_id k = sg_session_id g" "position < sg_position k" for k
    using stages_okD [OF assms(1), of g k] g that assms(6) by auto
  have "sg_state h \<noteq> StageRunning \<and> sg_state h \<noteq> StageSucceeded \<and> sg_state h \<noteq> StagePending"
    using assms(7-9) notok rest
    by (auto simp: d' complete_stage_rows_def Let_def set_update_where split: if_splits)
  then show ?thesis by (cases "sg_state h") simp_all
qed

lemma failed_stage_ends_the_pipeline_witness:
  "\<exists>reply d'. complete_stage demo_now 0 (demo_db AttemptRunning [] StageRunning StagePending) ''00000000-0000-4000-8000-00000000000a''
       \<lparr>cs_lease_token = demo_token, cs_state = ''failed'', cs_result = '''', cs_error = ''boom''\<rparr> = (Inr reply, d') \<and>
     (\<forall>h \<in> set (session_stages d'). sg_position h = 1 \<longrightarrow> sg_state h = StageFailed \<or> sg_state h = StageCancelled)"
proof -
  let ?d = "demo_db AttemptRunning [] StageRunning StagePending"
  let ?i = "\<lparr>cs_lease_token = demo_token, cs_state = ''failed'', cs_result = '''', cs_error = ''boom''\<rparr>"
  let ?d' = "complete_stage_rows (unix_milli demo_now) ''work-1'' 0 StageFailed '''' ''boom'' ?d"
  have "attempt_execution ?d (demo_attempt AttemptRunning) = Some (demo_execution ExecutionRunning)"
    by (simp add: attempt_execution_def demo_attempt_def)
  then have stage: "attempt_stage ?d ''00000000-0000-4000-8000-00000000000a'' 0 = Some (demo_stage 0 StageRunning)"
    by (simp add: attempt_stage_def) (simp add: demo_execution_def demo_db_def demo_stage_def)
  have tx: "complete_stage_tx demo_now ?d ''00000000-0000-4000-8000-00000000000a'' 0 ?i = Inr (''work-1'', ?d')"
    by (simp add: complete_stage_tx_def demo_load_lease demo_verify Let_def stage terminal_stage_state_def protocol_limits)
      (simp add: demo_rows)
  obtain reply where reply: "complete_stage demo_now 0 ?d ''00000000-0000-4000-8000-00000000000a'' ?i = (Inr reply, ?d')" "sv_state reply = StageFailed"
    by (simp add: complete_stage_def tx stage_reply_def) (simp add: complete_stage_rows_def demo_db_def demo_stage_def)
  have ok: "stages_ok ?d" by (simp add: stages_ok_def demo_db_def demo_stage_def)
  have keys: "keys_ok ?d" by (rule store_okD(1), rule demo_db_ok) (simp add: is_active_def)
  have running: "sg_state (demo_stage 0 StageRunning) = StageRunning" by (simp add: demo_stage_def)
  have "sg_session_id h = ''work-1''" if "h \<in> set (session_stages ?d')" for h
    using that by (auto simp: complete_stage_rows_def Let_def demo_db_def demo_stage_def)
  then have "\<forall>h \<in> set (session_stages ?d'). sg_position h = 1 \<longrightarrow> sg_state h = StageFailed \<or> sg_state h = StageCancelled"
    using failed_stage_ends_the_pipeline [OF ok keys reply(1) disjI1 [OF reply(2)] stage running]
    by (simp add: demo_stage_def)
  with reply(1) show ?thesis by blast
qed

subsection \<open>Progress\<close>

text \<open>C13. The owner of a live lease can always end its Attempt as failed or cancelled: no state of the pipeline, of the
  reports or of the Work stands in the way.\<close>

theorem owner_can_always_end:
  assumes "store_ok d" "owns_lease d (unix_milli now) i (ca_lease_token input)" "validate_token (ca_lease_token input) = Inr ()"
    and "length (ca_result input) \<le> max_result_bytes" "length (ca_error input) \<le> max_error_bytes"
    and "ca_state input = ''failed'' \<or> ca_state input = ''cancelled''"
  shows "\<exists>view d'. complete_attempt now d i input = (Inr view, d') \<and> (av_state view = AttemptFailed \<or> av_state view = AttemptCancelled)"
proof -
  obtain st where st: "terminal_attempt_state (ca_state input) = Some st" "st \<noteq> AttemptSucceeded"
    using assms(6) by (auto simp: terminal_attempt_state_def)
  obtain view d' where d': "complete_attempt now d i input = (Inr view, d')" "av_state view \<noteq> AttemptSucceeded"
    using complete_attempt_accepts [OF assms(1-5) st(1)] st(2) by blast
  obtain v where tx: "complete_attempt_tx now d i input = Inr (v, d')" and reply: "attempt_reply d' i = Inr view"
    using complete_attempt_Inr [OF d'(1)] by blast
  obtain a where a: "find_attempt d i = Some a" "is_active (at_state a)"
    using assms(2) find_attempt_in [OF store_okD(1) [OF assms(1)]] by (auto simp: owns_lease_def)
  obtain c outcome where c: "completion_ok c outcome" "find_attempt d' i = Some (finish_attempt_row (unix_milli now) c a)"
    by (rule complete_attempt_effect [OF assms(1) tx a])
  then have "av_state view = cp_state c"
    using reply by (auto simp: attempt_reply_Inr scan_attempt_def finish_attempt_row_def)
  with c(1) d' show ?thesis by (auto simp: completion_ok_def)
qed

lemma owner_can_always_end_witness:
  "\<exists>view d'. complete_attempt demo_now (demo_db AttemptPreparing [] StagePending StagePending) ''00000000-0000-4000-8000-00000000000a''
      (demo_completion ''failed'') = (Inr view, d') \<and> (av_state view = AttemptFailed \<or> av_state view = AttemptCancelled)"
  by (rule owner_can_always_end)
    (simp_all add: demo_completion_def protocol_limits is_active_def demo_owns_lease demo_now_def unix_milli_def)

end
