(* ===== verification/Go_Json.thy ===== *)
theory Go_Json
  imports Go_Strings
begin

text \<open>
  What the program uses of \<^verbatim>\<open>encoding/json\<close>: \<^verbatim>\<open>json.Marshal\<close> of strings and numbers (HTML
  characters escaped, as \<^verbatim>\<open>Marshal\<close> always does), the objects it builds out of them, and the
  byte-at-a-time scanner behind \<^verbatim>\<open>json.Valid\<close> and the compaction of a \<^verbatim>\<open>json.RawMessage\<close>. The
  scanner's states are those of \<^verbatim>\<open>encoding/json/scanner.go\<close>.
\<close>

subsection \<open>Encoding\<close>

definition dquote :: char where "dquote = char_of (34 :: nat)"
definition backslash :: char where "backslash = char_of (92 :: nat)"

definition json_escape_byte :: "char \<Rightarrow> string" where
  "json_escape_byte c =
     (let b = byte c in
      if b = 34 \<or> b = 92 then [backslash, c]
      else if b = 8 then backslash # ''b''
      else if b = 12 then backslash # ''f''
      else if b = 10 then backslash # ''n''
      else if b = 13 then backslash # ''r''
      else if b = 9 then backslash # ''t''
      else if b < 32 \<or> b = 60 \<or> b = 62 \<or> b = 38 then backslash # ''u00'' @ hex_byte b
      else [c])"

definition json_escape_chunk :: "string \<Rightarrow> string" where
  "json_escape_chunk q =
     (if rune_size q = 0 then backslash # ''ufffd''
      else if length q = 1 then json_escape_byte (hd q)
      else if q = chars_of [226, 128, 168] then backslash # ''u2028''
      else if q = chars_of [226, 128, 169] then backslash # ''u2029''
      else q)"

definition json_string :: "string \<Rightarrow> string" where
  "json_string s = dquote # concat (map json_escape_chunk (utf8_chunks s)) @ [dquote]"

definition json_bool :: "bool \<Rightarrow> string" where
  "json_bool b = (if b then ''true'' else ''false'')"

fun comma_separated :: "string list \<Rightarrow> string" where
  "comma_separated [] = []"
| "comma_separated [x] = x"
| "comma_separated (x # y # xs) = x @ CHR '','' # comma_separated (y # xs)"

definition json_object :: "(string \<times> string) list \<Rightarrow> string" where
  "json_object members =
     CHR ''{'' # comma_separated (map (\<lambda>(name, value). json_string name @ CHR '':'' # value) members) @ ''}''"

definition json_array :: "string list \<Rightarrow> string" where
  "json_array values = CHR ''['' # comma_separated values @ '']''"

text \<open>A struct field, and one tagged \<^verbatim>\<open>omitempty\<close>.\<close>

definition json_field :: "string \<Rightarrow> string \<Rightarrow> (string \<times> string) list" where
  "json_field name value = [(name, value)]"

definition json_omitempty :: "string \<Rightarrow> string \<Rightarrow> (string \<times> string) list" where
  "json_omitempty name value = (if value = [] then [] else [(name, json_string value)])"

definition json_omitfalse :: "string \<Rightarrow> bool \<Rightarrow> (string \<times> string) list" where
  "json_omitfalse name value = (if value then [(name, json_bool value)] else [])"

lemma json_string_nonempty [simp]: "json_string s \<noteq> []"
  by (simp add: json_string_def)

lemma json_object_nonempty [simp]: "json_object members \<noteq> []"
  by (simp add: json_object_def)

lemma json_string_plain:
  assumes "list_all (\<lambda>c. byte c \<in> {32} \<union> {35..122} - {38, 60, 62, 92}) s"
  shows "json_string s = dquote # s @ [dquote]"
proof -
  have "ascii s" using assms by (auto simp: ascii_def list_all_iff)
  moreover have "map (\<lambda>c. json_escape_chunk [c]) s = map (\<lambda>c. [c]) s"
    using assms \<open>ascii s\<close> by (auto simp: json_escape_chunk_def json_escape_byte_def list_all_iff Let_def ascii_def in_range_def)
  ultimately show ?thesis by (simp add: json_string_def utf8_chunks_ascii comp_def cong: map_cong)
qed

subsection \<open>Scanning\<close>

datatype scan_state =
    ScanBeginValue | ScanBeginValueOrEmpty | ScanBeginStringOrEmpty | ScanBeginString | ScanEndValue
  | ScanInString | ScanInStringEsc | ScanInStringEscU nat
  | ScanNeg | Scan1 | Scan0 | ScanDot | ScanDot0 | ScanE | ScanESign | ScanE0
  | ScanLiteral string | ScanEndTop

datatype parse_state = ParseObjectKey | ParseObjectValue | ParseArrayValue

type_synonym scanner = "scan_state \<times> parse_state list"

definition max_nesting_depth :: nat where
  "max_nesting_depth = 10000"

definition is_json_space :: "char \<Rightarrow> bool" where
  "is_json_space c \<longleftrightarrow> byte c \<in> {32, 9, 13, 10}"

definition is_digit :: "char \<Rightarrow> bool" where
  "is_digit c \<longleftrightarrow> in_range 48 57 c"

definition is_hex_digit :: "char \<Rightarrow> bool" where
  "is_hex_digit c \<longleftrightarrow> in_range 48 57 c \<or> in_range 97 102 c \<or> in_range 65 70 c"

definition push_parse_state :: "scan_state \<Rightarrow> parse_state \<Rightarrow> parse_state list \<Rightarrow> scanner option" where
  "push_parse_state next p ps =
     (if length ps < max_nesting_depth then Some (next, p # ps) else None)"

definition pop_parse_state :: "parse_state list \<Rightarrow> scanner option" where
  "pop_parse_state ps = (if ps = [] then Some (ScanEndTop, []) else Some (ScanEndValue, ps))"

definition scan_begin_value :: "char \<Rightarrow> parse_state list \<Rightarrow> scanner option" where
  "scan_begin_value c ps =
     (if is_json_space c then Some (ScanBeginValue, ps)
      else if c = CHR ''{'' then push_parse_state ScanBeginStringOrEmpty ParseObjectKey ps
      else if c = CHR ''['' then push_parse_state ScanBeginValueOrEmpty ParseArrayValue ps
      else if c = dquote then Some (ScanInString, ps)
      else if c = CHR ''-'' then Some (ScanNeg, ps)
      else if c = CHR ''0'' then Some (Scan0, ps)
      else if c = CHR ''t'' then Some (ScanLiteral ''rue'', ps)
      else if c = CHR ''f'' then Some (ScanLiteral ''alse'', ps)
      else if c = CHR ''n'' then Some (ScanLiteral ''ull'', ps)
      else if in_range 49 57 c then Some (Scan1, ps)
      else None)"

definition scan_end_value :: "char \<Rightarrow> parse_state list \<Rightarrow> scanner option" where
  "scan_end_value c ps =
     (case ps of
        [] \<Rightarrow> (if is_json_space c then Some (ScanEndTop, []) else None)
      | p # rest \<Rightarrow>
          if is_json_space c then Some (ScanEndValue, ps)
          else (case p of
              ParseObjectKey \<Rightarrow> if c = CHR '':'' then Some (ScanBeginValue, ParseObjectValue # rest) else None
            | ParseObjectValue \<Rightarrow>
                if c = CHR '','' then Some (ScanBeginString, ParseObjectKey # rest)
                else if c = CHR ''}'' then pop_parse_state rest
                else None
            | ParseArrayValue \<Rightarrow>
                if c = CHR '','' then Some (ScanBeginValue, ps)
                else if c = CHR '']'' then pop_parse_state rest
                else None))"

definition scan_begin_string :: "char \<Rightarrow> parse_state list \<Rightarrow> scanner option" where
  "scan_begin_string c ps =
     (if is_json_space c then Some (ScanBeginString, ps)
      else if c = dquote then Some (ScanInString, ps)
      else None)"

fun scan_step :: "scanner \<Rightarrow> char \<Rightarrow> scanner option" where
  "scan_step (ScanBeginValue, ps) c = scan_begin_value c ps"
| "scan_step (ScanBeginValueOrEmpty, ps) c =
     (if is_json_space c then Some (ScanBeginValueOrEmpty, ps)
      else if c = CHR '']'' then scan_end_value c ps
      else scan_begin_value c ps)"
| "scan_step (ScanBeginStringOrEmpty, ps) c =
     (if is_json_space c then Some (ScanBeginStringOrEmpty, ps)
      else if c = CHR ''}'' then
        (case ps of [] \<Rightarrow> None | _ # rest \<Rightarrow> scan_end_value c (ParseObjectValue # rest))
      else scan_begin_string c ps)"
| "scan_step (ScanBeginString, ps) c = scan_begin_string c ps"
| "scan_step (ScanEndValue, ps) c = scan_end_value c ps"
| "scan_step (ScanInString, ps) c =
     (if c = dquote then Some (ScanEndValue, ps)
      else if c = backslash then Some (ScanInStringEsc, ps)
      else if byte c < 32 then None
      else Some (ScanInString, ps))"
| "scan_step (ScanInStringEsc, ps) c =
     (if c \<in> set ''bfnrt/'' \<or> c = backslash \<or> c = dquote then Some (ScanInString, ps)
      else if c = CHR ''u'' then Some (ScanInStringEscU 4, ps)
      else None)"
| "scan_step (ScanInStringEscU n, ps) c =
     (if is_hex_digit c then Some (if n \<le> 1 then ScanInString else ScanInStringEscU (n - 1), ps) else None)"
| "scan_step (ScanNeg, ps) c =
     (if c = CHR ''0'' then Some (Scan0, ps) else if in_range 49 57 c then Some (Scan1, ps) else None)"
| "scan_step (Scan1, ps) c =
     (if is_digit c then Some (Scan1, ps)
      else if c = CHR ''.'' then Some (ScanDot, ps)
      else if c = CHR ''e'' \<or> c = CHR ''E'' then Some (ScanE, ps)
      else scan_end_value c ps)"
| "scan_step (Scan0, ps) c =
     (if c = CHR ''.'' then Some (ScanDot, ps)
      else if c = CHR ''e'' \<or> c = CHR ''E'' then Some (ScanE, ps)
      else scan_end_value c ps)"
| "scan_step (ScanDot, ps) c = (if is_digit c then Some (ScanDot0, ps) else None)"
| "scan_step (ScanDot0, ps) c =
     (if is_digit c then Some (ScanDot0, ps)
      else if c = CHR ''e'' \<or> c = CHR ''E'' then Some (ScanE, ps)
      else scan_end_value c ps)"
| "scan_step (ScanE, ps) c =
     (if c = CHR ''+'' \<or> c = CHR ''-'' then Some (ScanESign, ps)
      else if is_digit c then Some (ScanE0, ps) else None)"
| "scan_step (ScanESign, ps) c = (if is_digit c then Some (ScanE0, ps) else None)"
| "scan_step (ScanE0, ps) c = (if is_digit c then Some (ScanE0, ps) else scan_end_value c ps)"
| "scan_step (ScanLiteral [], ps) c = scan_end_value c ps"
| "scan_step (ScanLiteral (d # ds), ps) c =
     (if c = d then Some (if ds = [] then ScanEndValue else ScanLiteral ds, ps) else None)"
| "scan_step (ScanEndTop, ps) c = (if is_json_space c then Some (ScanEndTop, ps) else None)"

fun scan :: "scanner \<Rightarrow> string \<Rightarrow> scanner option" where
  "scan st [] = Some st"
| "scan st (c # s) = (case scan_step st c of None \<Rightarrow> None | Some st' \<Rightarrow> scan st' s)"

definition scan_start :: scanner where
  "scan_start = (ScanBeginValue, [])"

text \<open>\<^verbatim>\<open>checkValid\<close>: every byte scans and the end of input, read as one space, ends the value.\<close>

definition json_valid :: "string \<Rightarrow> bool" where
  "json_valid s =
     (case scan scan_start s of
        None \<Rightarrow> False
      | Some (ScanEndTop, ps) \<Rightarrow> True
      | Some st \<Rightarrow> (case scan_step st (CHR '' '') of Some (ScanEndTop, ps) \<Rightarrow> True | _ \<Rightarrow> False))"

text \<open>The bytes that \<^verbatim>\<open>Marshal\<close> copies of a raw message: white space between tokens is dropped and
  the HTML characters and line separators are escaped.\<close>

definition in_string_state :: "scan_state \<Rightarrow> bool" where
  "in_string_state st =
     (case st of ScanInString \<Rightarrow> True | ScanInStringEsc \<Rightarrow> True | ScanInStringEscU _ \<Rightarrow> True | _ \<Rightarrow> False)"

fun compact_bytes :: "scanner \<Rightarrow> string \<Rightarrow> string" where
  "compact_bytes st [] = []"
| "compact_bytes st (c # s) =
     (case scan_step st c of
        None \<Rightarrow> []
      | Some st' \<Rightarrow>
          (let rest = compact_bytes st' s in
           if \<not> in_string_state (fst st) \<and> is_json_space c then rest
           else if byte c \<in> {60, 62, 38} then backslash # ''u00'' @ hex_byte (byte c) @ rest
           else c # rest))"

definition line_separator_at :: "string \<Rightarrow> bool" where
  "line_separator_at s \<longleftrightarrow> take 3 s = chars_of [226, 128, 168] \<or> take 3 s = chars_of [226, 128, 169]"

function escape_line_separators :: "string \<Rightarrow> string" where
  "escape_line_separators s =
     (if s = [] then []
      else if line_separator_at s then
        backslash # ''u202'' @ [digit_char (byte (s ! 2) mod 16)] @ escape_line_separators (drop 3 s)
      else hd s # escape_line_separators (tl s))"
  by pat_completeness auto
termination
  by (relation "measure length") auto

declare escape_line_separators.simps [simp del]

definition json_compact :: "string \<Rightarrow> string" where
  "json_compact s = escape_line_separators (compact_bytes scan_start s)"

lemma json_valid_Nil [simp]: "\<not> json_valid []"
  by (simp add: json_valid_def scan_start_def scan_begin_value_def is_json_space_def byte_def)

lemma scan_append: "scan st (s @ t) = (case scan st s of None \<Rightarrow> None | Some st' \<Rightarrow> scan st' t)"
  by (induction s arbitrary: st) (auto split: option.splits)

end
