(* ===== verification/Paging.thy ===== *)
theory Paging
  imports Protocol
begin

text \<open>
  Pages by cursor, as \<^verbatim>\<open>Events\<close> (state.go) and \<^verbatim>\<open>WorkUpdates\<close> (work.go) read them: the
  statement selects one row more than the limit, in the order of a key and after the cursor; the extra
  row only tells that there is more. The locale \<open>paged\<close> is what a client that follows the cursor relies
  on, and its lemma says that the client sees every row exactly once, in order.
\<close>

definition select_after :: "('r \<Rightarrow> int) \<Rightarrow> int \<Rightarrow> nat \<Rightarrow> 'r list \<Rightarrow> 'r list" where
  "select_after key after limit rows = take (limit + 1) (sort_key key (filter (\<lambda>r. after < key r) rows))"

definition page_of :: "('r \<Rightarrow> int) \<Rightarrow> int \<Rightarrow> nat \<Rightarrow> 'r list \<Rightarrow> 'r page" where
  "page_of key after limit fetched =
     (let shown = (if length fetched > limit then take limit fetched else fetched)
      in \<lparr>pg_items = shown,
          pg_next_after = (if length shown > 0 then key (last shown) else after),
          pg_has_more = length fetched > limit\<rparr>)"

lemma insort_key_map: "insort_key k (f x) (map f ys) = map f (insort_key (\<lambda>z. k (f z)) x ys)"
  by (induction ys) simp_all

lemma sort_key_map: "sort_key k (map f xs) = map f (sort_key (\<lambda>z. k (f z)) xs)"
  by (induction xs) (simp_all add: insort_key_map)

lemma select_after_map:
  "select_after k after n (map f xs) = map f (select_after (\<lambda>z. k (f z)) after n xs)"
  by (simp add: select_after_def filter_map comp_def sort_key_map take_map)

text \<open>A client that asks for the next page as long as the last one says that there is one.\<close>

fun follow_pages :: "nat \<Rightarrow> (int \<Rightarrow> 'r page) \<Rightarrow> int \<Rightarrow> 'r list" where
  "follow_pages 0 fetch after = []"
| "follow_pages (Suc n) fetch after =
     (let p = fetch after
      in pg_items p @ (if pg_has_more p then follow_pages n fetch (pg_next_after p) else []))"

lemma filter_after_last_taken:
  assumes "sorted_wrt R xs" "\<And>x y. R x y \<Longrightarrow> \<not> R y x" "0 < n" "n < length xs"
  shows "filter (R (last (take n xs))) xs = drop n xs"
proof -
  let ?x = "last (take n xs)"
  have x: "?x = xs ! (n - 1)" using assms(3,4) last_conv_nth [of "take n xs"] by (cases "xs = []") (auto simp: min_def)
  have "filter (R ?x) (take n xs) = []"
  proof (rule filter_False, rule ballI)
    fix r assume "r \<in> set (take n xs)"
    then obtain j where j: "j < n" "r = xs ! j" using assms(4) by (auto simp: in_set_conv_nth)
    then have "j = n - 1 \<or> R r ?x"
      using sorted_wrt_nth_less [OF assms(1), of j "n - 1"] x assms(3,4) by (cases "j = n - 1") simp_all
    then show "\<not> R ?x r" using assms(2) j x by metis
  qed
  moreover have "filter (R ?x) (drop n xs) = drop n xs"
  proof (rule filter_True, rule ballI)
    fix r assume "r \<in> set (drop n xs)"
    then obtain j where "j < length xs - n" "r = xs ! (n + j)" by (auto simp: in_set_conv_nth)
    then show "R ?x r"
      using sorted_wrt_nth_less [OF assms(1), of "n - 1" "n + j"] assms(3,4) x by simp
  qed
  ultimately have "filter (R ?x) (take n xs @ drop n xs) = drop n xs"
    by (simp only: filter_append append_Nil)
  then show ?thesis by simp
qed

lemma sorted_wrt_filter_last_take:
  assumes "sorted_wrt (\<lambda>x y. key x < (key y :: int)) R" "0 < n" "n < length R"
  shows "filter (\<lambda>r. key (last (take n R)) < key r) R = drop n R"
  by (rule filter_after_last_taken [OF assms(1) _ assms(2,3)]) simp

lemma sort_key_strict:
  assumes "distinct (map key rows)"
  shows "sorted_wrt (\<lambda>x y. key x < (key y :: int)) (sort_key key rows)"
proof -
  have "distinct (map key (sort_key key rows))"
    by (rule distinct_map [THEN iffD2]) (use assms in \<open>simp add: distinct_map\<close>)
  then have "sorted_wrt (<) (map key (sort_key key rows))"
    by (simp add: strict_sorted_iff)
  then show ?thesis by (simp add: sorted_wrt_map)
qed

lemma follow_pages_all:
  assumes sorted: "sorted_wrt (\<lambda>x y. key x < (key y :: int)) S" and n: "0 < n"
    and fetch: "\<And>a. start \<le> a \<Longrightarrow> fetch a = page_of key a n (take (n + 1) (filter (\<lambda>r. a < key r) S))"
  shows "start \<le> a \<Longrightarrow> length (filter (\<lambda>r. a < key r) S) < fuel \<Longrightarrow>
     follow_pages fuel fetch a = filter (\<lambda>r. a < key r) S"
proof (induction fuel arbitrary: a)
  case (Suc fuel)
  let ?R = "filter (\<lambda>r. a < key r) S"
  have R: "sorted_wrt (\<lambda>x y. key x < key y) ?R" by (rule sorted_wrt_filter [OF sorted])
  show ?case
  proof (cases "length ?R \<le> n")
    case True
    then show ?thesis using fetch [OF Suc.prems(1)] by (simp add: page_of_def Let_def)
  next
    case False
    then have lt: "n < length ?R" by simp
    let ?x = "key (last (take n ?R))"
    have "last (take n ?R) \<in> set ?R" using lt n by (intro in_set_takeD [OF last_in_set]) auto
    then have ax: "a < ?x" by simp
    have "filter (\<lambda>r. ?x < key r) S = filter (\<lambda>r. ?x < key r) ?R"
      using ax by (auto intro: filter_cong)
    then have rest: "filter (\<lambda>r. ?x < key r) S = drop n ?R"
      using sorted_wrt_filter_last_take [OF R n lt] by simp
    have shown: "take n (take (n + 1) ?R) = take n ?R" by (simp add: min_def)
    have "take n ?R \<noteq> []" using lt n by (metis take_eq_Nil list.size(3) not_less_zero neq0_conv)
    then have page: "fetch a = \<lparr>pg_items = take n ?R, pg_next_after = ?x, pg_has_more = True\<rparr>"
      using fetch [OF Suc.prems(1)] lt shown by (simp add: page_of_def Let_def)
    have "length (filter (\<lambda>r. ?x < key r) S) < fuel"
      using Suc.prems(2) lt n rest by simp
    then have "follow_pages fuel fetch ?x = drop n ?R"
      using Suc.IH [of ?x] Suc.prems(1) ax rest by simp
    then have "follow_pages (Suc fuel) fetch a = take n ?R @ drop n ?R"
      by (simp only: follow_pages.simps page Let_def page.select_convs if_True)
    then show ?thesis by simp
  qed
qed simp

locale paged =
  fixes rows :: "'d \<Rightarrow> ident \<Rightarrow> 'r list"
    and key :: "'r \<Rightarrow> int"
    and fetch :: "'d \<Rightarrow> ident \<Rightarrow> int \<Rightarrow> int \<Rightarrow> 'r page result"
    and readable :: "'d \<Rightarrow> ident \<Rightarrow> bool"
    and start :: int
    and max_limit :: int
  assumes keys_distinct: "readable d i \<Longrightarrow> distinct (map key (rows d i))"
    and keys_after_start: "readable d i \<Longrightarrow> r \<in> set (rows d i) \<Longrightarrow> start < key r"
    and fetch_page: "readable d i \<Longrightarrow> start \<le> after \<Longrightarrow> 1 \<le> limit \<Longrightarrow> limit \<le> max_limit \<Longrightarrow>
      fetch d i after limit = Inr (page_of key after (nat limit) (select_after key after (nat limit) (rows d i)))"
begin

lemma pages_are_complete:
  assumes "readable d i" "1 \<le> limit" "limit \<le> max_limit"
  shows "follow_pages (Suc (length (rows d i))) (\<lambda>after. projr (fetch d i after limit)) start = sort_key key (rows d i)"
proof -
  let ?S = "sort_key key (rows d i)"
  have all: "filter (\<lambda>r. start < key r) ?S = ?S"
    using keys_after_start [OF assms(1)] by simp
  have page: "projr (fetch d i a limit) = page_of key a (nat limit) (take (nat limit + 1) (filter (\<lambda>r. a < key r) ?S))"
    if "start \<le> a" for a
    using fetch_page [OF assms(1) that assms(2,3)] by (simp add: select_after_def filter_sort)
  have "follow_pages (Suc (length (rows d i))) (\<lambda>after. projr (fetch d i after limit)) start =
      filter (\<lambda>r. start < key r) ?S"
  proof (rule follow_pages_all [OF sort_key_strict [OF keys_distinct [OF assms(1)]] _ page])
    show "start \<le> start" by (rule order_refl)
  qed (use assms(2) all in simp_all)
  with all show ?thesis by simp
qed

lemma page_within_limit:
  assumes "readable d i" "start \<le> after" "1 \<le> limit" "limit \<le> max_limit" "fetch d i after limit = Inr p"
  shows "int (length (pg_items p)) \<le> limit \<and> set (pg_items p) \<subseteq> set (rows d i) \<and> after \<le> pg_next_after p"
proof -
  have p: "p = page_of key after (nat limit) (select_after key after (nat limit) (rows d i))"
    using fetch_page [OF assms(1-4)] assms(5) by simp
  have sub: "set (select_after key after (nat limit) (rows d i)) \<subseteq> {r \<in> set (rows d i). after < key r}"
    by (auto simp: select_after_def dest: in_set_takeD)
  have items: "set (pg_items p) \<subseteq> set (select_after key after (nat limit) (rows d i))"
    by (auto simp: p page_of_def Let_def dest: in_set_takeD)
  have "after < key (last (pg_items p))" if "pg_items p \<noteq> []"
    using last_in_set [OF that] items sub by blast
  moreover have "pg_next_after p = (if pg_items p \<noteq> [] then key (last (pg_items p)) else after)"
    by (simp add: p page_of_def Let_def)
  moreover have "int (length (pg_items p)) \<le> limit"
    using assms(3) by (auto simp: p page_of_def Let_def)
  ultimately show ?thesis using items sub by auto
qed

end

end
