(* ===== verification/Events.thy ===== *)
theory Events
  imports Go_Json Paging Work_History
begin

text \<open>
  The events that a Worker records for its Attempt (state.go): \<^verbatim>\<open>AppendEvents\<close>, \<^verbatim>\<open>jsonEqual\<close>
  and \<^verbatim>\<open>Events\<close>. Of an event that is received, \<^verbatim>\<open>ServerTime\<close> only counts in the size of the
  encoded batch and is kept as the text \<^verbatim>\<open>json.Marshal\<close> writes; of an event that is read it is the
  instant of its row. A nil payload is the empty string; a decoded request has no other empty payload.
\<close>

subsection \<open>AppendEvents\<close>

definition json_equal :: "string \<Rightarrow> string \<Rightarrow> bool" where
  "json_equal a b \<longleftrightarrow> a = b"

definition encode_event :: "attempt_event \<Rightarrow> string" where
  "encode_event e = json_object
     (json_field ''sequence'' (show_int (ae_sequence e)) @
      json_field ''kind'' (json_string (ae_kind e)) @
      json_field ''payload'' (if ae_payload e = [] then ''null'' else json_compact (ae_payload e)) @
      json_field ''server_time'' (json_string (ae_server_time e)))"

text \<open>The size of \<^verbatim>\<open>encoded\<close>, which is nil when \<^verbatim>\<open>Marshal\<close> fails on a payload that is not JSON.\<close>

definition encoded_batch_size :: "event_batch_request \<Rightarrow> nat" where
  "encoded_batch_size input =
     (if list_ex (\<lambda>e. ae_payload e \<noteq> [] \<and> \<not> json_valid (ae_payload e)) (eb_events input) then 0
      else length (json_object
        (json_field ''lease_token'' (json_string (eb_lease_token input)) @
         json_field ''events'' (json_array (map encode_event (eb_events input))))))"

fun check_events :: "int \<Rightarrow> attempt_event list \<Rightarrow> unit result" where
  "check_events previous [] = Inr ()"
| "check_events previous (event # events) =
     (if ae_sequence event < 0 \<or> ae_sequence event \<le> previous \<or> trim_space (ae_kind event) = '''' \<or>
         length (ae_kind event) > 100
      then Inl (invalid ''invalid_event'' ''event sequences must be non-negative and strictly increasing, with a kind'')
      else if length (ae_payload event) > max_event_bytes
      then Inl (invalid ''event_too_large'' ''one event exceeds 64 KiB'')
      else if \<not> json_valid (ae_payload event)
      then Inl (invalid ''invalid_event'' ''event payload must be valid JSON'')
      else check_events (ae_sequence event) events)"

definition events_of :: "db \<Rightarrow> ident \<Rightarrow> stored_event list" where
  "events_of d i = filter (\<lambda>v. ev_attempt_id v = i) (attempt_events d)"

definition stored_bytes :: "db \<Rightarrow> ident \<Rightarrow> nat" where
  "stored_bytes d i = sum_list (map ev_payload_bytes (events_of d i))"

definition max_sequence :: "db \<Rightarrow> ident \<Rightarrow> int" where
  "max_sequence d i = (case map ev_sequence (events_of d i) of [] \<Rightarrow> -1 | x # xs \<Rightarrow> fold max xs x)"

definition find_event :: "db \<Rightarrow> ident \<Rightarrow> int \<Rightarrow> stored_event option" where
  "find_event d i n = find (\<lambda>v. ev_attempt_id v = i \<and> ev_sequence v = n) (attempt_events d)"

text \<open>The loop that separates replayed events from new ones, with \<^verbatim>\<open>maxSequence\<close> and \<^verbatim>\<open>storedBytes\<close>.\<close>

fun stage_events :: "db \<Rightarrow> ident \<Rightarrow> int \<Rightarrow> nat \<Rightarrow> attempt_event list \<Rightarrow> (attempt_event list \<times> nat) result" where
  "stage_events d i highest bytes [] = Inr ([], bytes)"
| "stage_events d i highest bytes (event # events) =
     (case find_event d i (ae_sequence event) of
        Some v \<Rightarrow>
          (if ev_kind v \<noteq> ae_kind event \<or> \<not> json_equal (ev_payload v) (ae_payload event)
           then Inl (conflict ''event_conflict'' ''an event sequence was replayed with different content'')
           else stage_events d i highest bytes events)
      | None \<Rightarrow>
          (if ae_sequence event \<le> highest
           then Inl (conflict ''event_out_of_order'' ''a new event sequence must follow stored events'')
           else and_then (stage_events d i (ae_sequence event) (bytes + length (ae_payload event)) events)
             (\<lambda>(pending, total). Inr (event # pending, total))))"

definition event_row :: "ident \<Rightarrow> millis \<Rightarrow> attempt_event \<Rightarrow> stored_event" where
  "event_row i now e = \<lparr>ev_attempt_id = i, ev_sequence = ae_sequence e, ev_kind = ae_kind e,
     ev_payload = ae_payload e, ev_payload_bytes = length (ae_payload e), ev_server_time = now\<rparr>"

definition append_events_tx :: "int \<Rightarrow> db \<Rightarrow> ident \<Rightarrow> event_batch_request \<Rightarrow> (unit \<times> db) result" where
  "append_events_tx now_ns d attempt_id input =
     (if eb_events input = [] \<or> length (eb_events input) > max_events_per_batch
      then Inl (invalid ''invalid_event_batch'' ''an event batch must contain 1 through 100 events'')
      else if encoded_batch_size input > max_event_batch_bytes
      then Inl (invalid ''event_batch_too_large'' ''event batch exceeds 256 KiB'')
      else
        let now = unix_milli now_ns in
        and_then (check_events (-1) (eb_events input)) (\<lambda>_.
        and_then (load_lease d attempt_id) (\<lambda>lease.
        and_then (verify_active_lease lease (eb_lease_token input) now) (\<lambda>_.
        and_then (stage_events d attempt_id (max_sequence d attempt_id) (stored_bytes d attempt_id) (eb_events input))
          (\<lambda>(pending, total).
            if total > max_attempt_event_bytes
            then Inl (too_large ''event_budget_exceeded'' ''attempt event storage exceeds 10 MiB'')
            else Inr ((), d\<lparr>attempt_events := attempt_events d @ map (event_row attempt_id now) pending\<rparr>))))))"

definition append_events :: "int \<Rightarrow> db \<Rightarrow> ident \<Rightarrow> event_batch_request \<Rightarrow> unit result \<times> db" where
  "append_events now d attempt_id input = committed d (append_events_tx now d attempt_id input) (\<lambda>_ _. Inr ())"

subsection \<open>Events\<close>

record event_view =
  vw_sequence :: int
  vw_kind :: string
  vw_payload :: string
  vw_server_time :: millis

definition scan_event :: "stored_event \<Rightarrow> event_view" where
  "scan_event v = \<lparr>vw_sequence = ev_sequence v, vw_kind = ev_kind v, vw_payload = ev_payload v,
     vw_server_time = ev_server_time v\<rparr>"

definition read_events :: "db \<Rightarrow> ident \<Rightarrow> int \<Rightarrow> int \<Rightarrow> event_view page result" where
  "read_events d attempt_id after limit =
     (if after < -1
      then Inl (invalid ''invalid_after'' ''after must be an integer of at least -1'')
      else if limit < 1 \<or> limit > int max_event_page_size
      then Inl (invalid ''invalid_limit'' ''limit must be between 1 and 500'')
      else if count_where (\<lambda>a. at_id a = attempt_id) (attempts d) = 0
      then Inl err_not_found
      else Inr (page_of vw_sequence after (nat limit)
        (map scan_event (select_after ev_sequence after (nat limit) (events_of d attempt_id)))))"

subsection \<open>The stored events\<close>

definition event_row_ok :: "stored_event \<Rightarrow> bool" where
  "event_row_ok v \<longleftrightarrow> 0 \<le> ev_sequence v \<and> ev_payload_bytes v = length (ev_payload v) \<and> ev_kind v \<noteq> [] \<and>
     length (ev_kind v) \<le> 100 \<and> length (ev_payload v) \<le> max_event_bytes \<and> json_valid (ev_payload v)"

definition events_ok :: "db \<Rightarrow> bool" where
  "events_ok d \<longleftrightarrow>
     list_all event_row_ok (attempt_events d) \<and>
     distinct (map (\<lambda>v. (ev_attempt_id v, ev_sequence v)) (attempt_events d)) \<and>
     (\<forall>i. stored_bytes d i \<le> max_attempt_event_bytes)"

lemma events_ok_frame: "events_ok d \<Longrightarrow> attempt_events d' = attempt_events d \<Longrightarrow> events_ok d'"
  by (simp add: events_ok_def stored_bytes_def events_of_def)

lemma find_event_Some:
  "find_event d i n = Some v \<Longrightarrow> v \<in> set (attempt_events d) \<and> ev_attempt_id v = i \<and> ev_sequence v = n"
  unfolding find_event_def by (drule find_Some_set) simp

lemma fold_max_ge_start: "x \<le> fold max xs (x :: int)"
proof (induction xs arbitrary: x)
  case (Cons z zs)
  then show ?case by (auto intro: order_trans [OF max.cobounded2])
qed simp

lemma fold_max_ge: "y \<in> set xs \<Longrightarrow> y \<le> fold max xs (x :: int)"
proof (induction xs arbitrary: x)
  case (Cons z zs)
  then show ?case using fold_max_ge_start [of "max z x" zs] by auto
qed simp

lemma max_sequence_ge: "v \<in> set (events_of d i) \<Longrightarrow> ev_sequence v \<le> max_sequence d i"
proof -
  assume "v \<in> set (events_of d i)"
  then have "ev_sequence v \<in> set (map ev_sequence (events_of d i))" by simp
  then show ?thesis
    using fold_max_ge fold_max_ge_start
    by (cases "map ev_sequence (events_of d i)") (auto simp: max_sequence_def)
qed

text \<open>What the loop answers: the events that are not stored, in order, above everything stored.\<close>

lemma stage_events_spec:
  "stage_events d i highest bytes events = Inr (pending, bytes') \<Longrightarrow>
   pending = filter (\<lambda>e. find_event d i (ae_sequence e) = None) events \<and>
   bytes' = bytes + sum_list (map (\<lambda>e. length (ae_payload e)) pending) \<and>
   sorted_wrt (\<lambda>x y. ae_sequence x < ae_sequence y) pending \<and> (\<forall>e \<in> set pending. highest < ae_sequence e) \<and>
   (\<forall>e \<in> set events. \<forall>v. find_event d i (ae_sequence e) = Some v \<longrightarrow>
      ev_kind v = ae_kind e \<and> ev_payload v = ae_payload e)"
proof (induction events arbitrary: highest bytes pending bytes')
  case (Cons event events)
  show ?case
  proof (cases "find_event d i (ae_sequence event)")
    case None
    from Cons.prems None obtain rest where rest: "pending = event # rest" "highest < ae_sequence event"
      "stage_events d i (ae_sequence event) (bytes + length (ae_payload event)) events = Inr (rest, bytes')"
      by (auto simp: and_then_Inr split: if_splits)
    from Cons.IH [OF rest(3)] None rest(1,2) show ?thesis by fastforce
  next
    case (Some v)
    with Cons.prems have v: "ev_kind v = ae_kind event" "ev_payload v = ae_payload event"
      and rest: "stage_events d i highest bytes events = Inr (pending, bytes')"
      by (auto simp: json_equal_def split: if_splits)
    from Cons.IH [OF rest] Some v show ?thesis by fastforce
  qed
qed simp

lemmas stage_events_Inr =
  stage_events_spec [THEN conjunct1]
  stage_events_spec [THEN conjunct2, THEN conjunct1]
  stage_events_spec [THEN conjunct2, THEN conjunct2, THEN conjunct1]
  stage_events_spec [THEN conjunct2, THEN conjunct2, THEN conjunct2, THEN conjunct1]
  stage_events_spec [THEN conjunct2, THEN conjunct2, THEN conjunct2, THEN conjunct2]

lemma check_events_Inr:
  "check_events previous events = Inr u \<Longrightarrow> e \<in> set events \<Longrightarrow>
   previous < ae_sequence e \<and> 0 \<le> ae_sequence e \<and> ae_kind e \<noteq> [] \<and> length (ae_kind e) \<le> 100 \<and>
   length (ae_payload e) \<le> max_event_bytes \<and> json_valid (ae_payload e)"
proof (induction events arbitrary: previous)
  case (Cons event events)
  have head: "previous < ae_sequence event" "0 \<le> ae_sequence event" "ae_kind event \<noteq> []"
      "length (ae_kind event) \<le> 100" "length (ae_payload event) \<le> max_event_bytes" "json_valid (ae_payload event)"
    and rest: "check_events (ae_sequence event) events = Inr u"
    using Cons.prems(1) by (auto split: if_splits)
  show ?case
  proof (cases "e = event")
    case False
    with Cons.prems(2) have "e \<in> set events" by simp
    from Cons.IH [OF rest this] head(1) show ?thesis by auto
  qed (use head in simp)
qed simp

lemma append_events_tx_Inr:
  assumes "append_events_tx now d i input = Inr (u, d')"
  obtains lease pending bytes' where
    "check_events (-1) (eb_events input) = Inr ()" "load_lease d i = Inr lease"
    "verify_active_lease lease (eb_lease_token input) (unix_milli now) = Inr ()"
    "stage_events d i (max_sequence d i) (stored_bytes d i) (eb_events input) = Inr (pending, bytes')"
    "bytes' \<le> max_attempt_event_bytes"
    "d' = d\<lparr>attempt_events := attempt_events d @ map (event_row i (unix_milli now)) pending\<rparr>"
  using assms by (auto simp: append_events_tx_def and_then_Inr Let_def split: if_splits)

lemma events_of_append:
  "events_of (d\<lparr>attempt_events := attempt_events d @ map (event_row i now) pending\<rparr>) j =
   events_of d j @ (if i = j then map (event_row i now) pending else [])"
  by (auto simp: events_of_def filter_empty_conv event_row_def)

lemma append_events_events_ok:
  assumes "events_ok d" "append_events_tx now d i input = Inr (u, d')"
  shows "events_ok d'"
proof -
  obtain pending bytes' where
    check: "check_events (-1) (eb_events input) = Inr ()"
    and stage: "stage_events d i (max_sequence d i) (stored_bytes d i) (eb_events input) = Inr (pending, bytes')"
    and bytes': "bytes' \<le> max_attempt_event_bytes"
    and d': "d' = d\<lparr>attempt_events := attempt_events d @ map (event_row i (unix_milli now)) pending\<rparr>"
    by (rule append_events_tx_Inr [OF assms(2)])
  note st = stage_events_Inr [OF stage]
  have rows: "event_row_ok (event_row i (unix_milli now) e)" if "e \<in> set pending" for e
    using check_events_Inr [OF check, of e] that by (simp add: st(1) event_row_ok_def event_row_def)
  have "distinct (map ae_sequence pending)"
    using st(3) strict_sorted_iff [of "map ae_sequence pending"] by (simp add: sorted_wrt_map)
  then have "distinct (map (\<lambda>v. (ev_attempt_id v, ev_sequence v)) (map (event_row i (unix_milli now)) pending))"
    by (simp add: event_row_def comp_def distinct_map inj_on_def)
  moreover have "(ev_attempt_id v, ev_sequence v) \<noteq> (i, ae_sequence e)"
    if "v \<in> set (attempt_events d)" "e \<in> set pending" for v e
    using max_sequence_ge [of v d i] st(4) that by (auto simp: events_of_def)
  ultimately have "distinct (map (\<lambda>v. (ev_attempt_id v, ev_sequence v)) (attempt_events d'))"
    using assms(1) by (auto simp: events_ok_def d' event_row_def)
  moreover have "stored_bytes d' j \<le> max_attempt_event_bytes" for j
    using assms(1) st(2) bytes'
    by (auto simp: stored_bytes_def d' events_of_append events_ok_def event_row_def comp_def)
  ultimately show ?thesis
    using assms(1) rows by (auto simp: events_ok_def d' list_all_iff)
qed

lemma append_events_ok: "store_ok d \<Longrightarrow> append_events_tx now d i input = Inr (u, d') \<Longrightarrow> store_ok d'"
  by (erule append_events_tx_Inr, erule store_ok_frame) simp_all

lemma append_events_tables:
  assumes "append_events_tx now d i input = Inr (u, d')"
  shows "session_stages d' = session_stages d" "work_updates d' = work_updates d" "attempts d' = attempts d"
    "load_lease d' j = load_lease d j"
  using assms
  by (auto elim!: append_events_tx_Inr simp: load_lease_def find_attempt_def find_execution_def find_session_def find_run_def
      cong: option.case_cong)

interpretation append_events: lease_guarded append_events eb_lease_token
proof unfold_locales
  fix now d i input and reply :: "unit result" and d'
  assume op: "append_events now d i input = (reply, d')" and "d' \<noteq> d"
  then obtain x where "append_events_tx now d i input = Inr (x, d')"
    unfolding append_events_def by (auto elim: committed_cases)
  then show "owns_lease d (unix_milli now) i (eb_lease_token input)"
    by (auto elim!: append_events_tx_Inr intro: lease_guard)
qed

subsection \<open>Reading them back\<close>

lemma scan_event_sequence [simp]: "vw_sequence (scan_event v) = ev_sequence v"
  by (simp add: scan_event_def)

interpretation event_pages: paged "\<lambda>d i. map scan_event (events_of d i)" vw_sequence read_events
  "\<lambda>d i. events_ok d \<and> find_attempt d i \<noteq> None" "-1" "500"
proof unfold_locales
  fix d i
  assume "events_ok d \<and> find_attempt d i \<noteq> None"
  then have ok: "distinct (map (\<lambda>v. (ev_attempt_id v, ev_sequence v)) (attempt_events d))"
    "list_all event_row_ok (attempt_events d)" and a: "find_attempt d i \<noteq> None"
    by (simp_all add: events_ok_def)
  have "distinct (map (\<lambda>v. (ev_attempt_id v, ev_sequence v)) (events_of d i))"
    unfolding events_of_def by (rule distinct_map_filter_key [OF ok(1)])
  then show "distinct (map vw_sequence (map scan_event (events_of d i)))"
    by (auto simp: distinct_map inj_on_def events_of_def scan_event_def)
  show "-1 < vw_sequence r" if "r \<in> set (map scan_event (events_of d i))" for r
    using that ok(2) by (auto simp: events_of_def list_all_iff event_row_ok_def)
  have n: "count_where (\<lambda>a. at_id a = i) (attempts d) \<noteq> 0"
    using a by (auto simp: find_attempt_def find_None_set count_where_eq_0)
  fix after limit :: int
  assume "- 1 \<le> after" "1 \<le> limit" "limit \<le> 500"
  then show "read_events d i after limit =
      Inr (page_of vw_sequence after (nat limit) (select_after vw_sequence after (nat limit) (map scan_event (events_of d i))))"
    using n by (simp add: read_events_def protocol_limits select_after_map)
qed

subsection \<open>Replays\<close>

lemma append_events_stored:
  assumes "append_events_tx now d i input = Inr (u, d')" "e \<in> set (eb_events input)"
  shows "\<exists>v. find_event d' i (ae_sequence e) = Some v \<and> ev_kind v = ae_kind e \<and> ev_payload v = ae_payload e"
proof -
  obtain pending bytes where
    stage: "stage_events d i (max_sequence d i) (stored_bytes d i) (eb_events input) = Inr (pending, bytes)"
    and d': "d' = d\<lparr>attempt_events := attempt_events d @ map (event_row i (unix_milli now)) pending\<rparr>"
    by (rule append_events_tx_Inr [OF assms(1)])
  note st = stage_events_Inr [OF stage]
  show ?thesis
  proof (cases "find_event d i (ae_sequence e)")
    case None
    with assms(2) have e: "e \<in> set pending" by (simp add: st(1))
    let ?P = "\<lambda>v. ev_attempt_id v = i \<and> ev_sequence v = ae_sequence e"
    have "event_row i (unix_milli now) e \<in> set (attempt_events d')" using e by (simp add: d')
    then have "find_event d' i (ae_sequence e) \<noteq> None"
      unfolding find_event_def find_None_set by (force simp: event_row_def)
    then obtain v where v: "find_event d' i (ae_sequence e) = Some v" by blast
    have "v \<notin> set (attempt_events d)"
      using None find_event_Some [OF v] by (auto simp: find_event_def find_None_set)
    then obtain e' where e': "e' \<in> set pending" "v = event_row i (unix_milli now) e'"
      using find_event_Some [OF v] by (auto simp: d')
    have "distinct (map ae_sequence pending)"
      using st(3) strict_sorted_iff [of "map ae_sequence pending"] by (simp add: sorted_wrt_map)
    then have "e' = e"
      using key_unique [of ae_sequence pending e' e] e e' find_event_Some [OF v] by (simp add: event_row_def)
    with v e' show ?thesis by (simp add: event_row_def)
  next
    case (Some v)
    then have "find_event d' i (ae_sequence e) = Some v"
      by (simp add: find_event_def d' find_append)
    with st(5) assms(2) Some show ?thesis by auto
  qed
qed

lemma stage_events_replay:
  "(\<And>e. e \<in> set events \<Longrightarrow> \<exists>v. find_event d i (ae_sequence e) = Some v \<and> ev_kind v = ae_kind e \<and> ev_payload v = ae_payload e) \<Longrightarrow>
   stage_events d i highest bytes events = Inr ([], bytes)"
proof (induction events arbitrary: highest bytes)
  case (Cons e events)
  from Cons.prems [of e] obtain v where "find_event d i (ae_sequence e) = Some v" "ev_kind v = ae_kind e" "ev_payload v = ae_payload e"
    by auto
  with Cons show ?case by (simp add: json_equal_def)
qed simp

end
