(* ===== verification/Prompts.thy ===== *)
theory Prompts
  imports Go_Json Protocol
begin

text \<open>
  The prompt that an agent is started with (\<^verbatim>\<open>protocol/prompt.go\<close>) and its 72 KiB bound. A length
  of a string is its length in bytes.
\<close>

definition max_resolved_prompt_bytes :: nat where "max_resolved_prompt_bytes = 65536"
definition max_agent_prompt_bytes :: nat where "max_agent_prompt_bytes = 73728"
definition max_agent_branch_bytes :: nat where "max_agent_branch_bytes = 1024"

definition newline :: string where "newline = [CHR 0x0A]"

definition agent_update_prompt_contract :: string where
  "agent_update_prompt_contract = ''Factory update contract:'' @ newline @
     ''This Work is unfinished until you call factory update. Use status running for useful progress only. Before exiting, report exactly one outcome: ready, needs-input, failed, or no-change. Ready requires --pr with the GitHub pull request URL. Needs-input ends this Attempt and requires a clean worktree with all changed work committed and pushed to the immutable Factory publish branch. Always include a concise non-empty --message.''"

definition resolve_task_schedule_prompt :: "string \<Rightarrow> string \<Rightarrow> string \<Rightarrow> string \<Rightarrow> string" where
  "resolve_task_schedule_prompt prompt scheduled_at cron timezone =
     (let occurrence = json_object
        (json_field ''type'' (json_string ''schedule'') @
         json_field ''scheduled_at'' (json_string scheduled_at) @
         json_field ''cron'' (json_string cron) @
         json_field ''timezone'' (json_string timezone))
      in prompt @ newline @ newline @ ''Schedule instruction:'' @ newline @ newline @
         ''Execute this Task for the scheduled occurrence. There is no provider item to revalidate.'' @
         newline @ newline @ ''Trusted schedule occurrence:'' @ newline @ newline @ occurrence)"

definition format_agent_prompt :: "string \<Rightarrow> string \<Rightarrow> string \<Rightarrow> string \<Rightarrow> string \<Rightarrow> string" where
  "format_agent_prompt title repository working_branch target_base_branch resolved_prompt =
     ''You are running in a Factory managed Git worktree.'' @ newline @
     ''Work only on the assigned Session and repository. Preserve unrelated changes and do not touch Factory state or unrelated worktrees. '' @
     ''Do not switch, create, rename, or delete branches or worktrees. Complete and verify the Session before returning a concise result.'' @
     newline @ newline @
     ''Task: '' @ title @ newline @
     ''Repository: '' @ repository @ newline @
     ''Working branch: '' @ working_branch @ newline @
     ''Target base branch: '' @ target_base_branch @ newline @ newline @
     resolved_prompt"

definition max_branch :: string where
  "max_branch = replicate max_agent_branch_bytes (CHR ''x'')"

definition agent_prompt_fits :: "string \<Rightarrow> string \<Rightarrow> string \<Rightarrow> bool" where
  "agent_prompt_fits title repository resolved_prompt \<longleftrightarrow>
     length (format_agent_prompt title repository max_branch max_branch resolved_prompt) \<le> max_agent_prompt_bytes"

definition format_agent_update_prompt ::
    "string \<Rightarrow> string \<Rightarrow> string \<Rightarrow> string \<Rightarrow> string \<Rightarrow> string \<Rightarrow> string" where
  "format_agent_update_prompt title repository working_branch target_base_branch publish_branch resolved_prompt =
     format_agent_prompt title repository working_branch target_base_branch resolved_prompt @
     newline @ newline @ ''Factory publish branch: '' @ publish_branch @
     newline @ newline @ agent_update_prompt_contract"

definition agent_update_prompt_fits :: "string \<Rightarrow> string \<Rightarrow> string \<Rightarrow> string \<Rightarrow> bool" where
  "agent_update_prompt_fits title repository publish_branch resolved_prompt \<longleftrightarrow>
     length (format_agent_update_prompt title repository max_branch max_branch publish_branch resolved_prompt) \<le>
       max_agent_prompt_bytes"

lemma length_max_branch [simp]: "length max_branch = 1024"
  by (simp add: max_branch_def max_agent_branch_bytes_def)

lemma length_format_agent_prompt:
  "length (format_agent_prompt title repository working base prompt) =
   length (format_agent_prompt '''' '''' '''' '''' '''') +
   length title + length repository + length working + length base + length prompt"
  by (simp add: format_agent_prompt_def)

lemma length_format_agent_update_prompt:
  "length (format_agent_update_prompt title repository working base publish prompt) =
   length (format_agent_update_prompt '''' '''' '''' '''' '''' '''') +
   length title + length repository + length working + length base + length publish + length prompt"
  by (simp add: format_agent_update_prompt_def length_format_agent_prompt [of title]
      length_format_agent_prompt [of "''''" "''''" "''''" "''''" prompt])

end
