(* ===== verification/Continuation.thy ===== *)
theory Continuation
  imports Prompts Work_History
begin

text \<open>
  The prompt of a continued Work item (resume.go): the recovery state and history that the store holds,
  the mandatory context, the selection of history within the 72 KiB of an agent prompt, and the check
  that a prospective question or answer still fits.
\<close>

subsection \<open>State\<close>

record continuation_state =
  co_title :: string
  co_repository :: string
  co_resolved_prompt :: string
  co_publish_branch :: string
  co_question :: string
  co_answer :: string
  co_checkpoint_sha :: string
  co_pending_resume_sha :: string
  co_pull_request_url :: string
  co_pull_request_head_branch :: string
  co_pull_request_head_sha :: string
  co_retry_may_repeat_effects :: bool

record continuation_history =
  ch_sequence :: nat
  ch_kind :: string
  ch_status :: string
  ch_actor :: string
  ch_message :: string
  ch_pull_request_url :: string
  ch_pull_request_head_branch :: string
  ch_pull_request_head_sha :: string
  ch_checkpoint_sha :: string
  ch_accepted_at_millis :: millis
  ch_trusted :: bool
  ch_message_truncated :: bool

record continuation_selection =
  sl_line :: string
  sl_complete :: bool

definition update_history :: "work_update \<Rightarrow> continuation_history" where
  "update_history u = \<lparr>ch_sequence = wu_sequence u, ch_kind = ''update'', ch_status = update_status_text (wu_status u),
     ch_actor = update_actor_text (wu_actor u), ch_message = wu_message u,
     ch_pull_request_url = wu_pull_request_url u, ch_pull_request_head_branch = wu_pull_request_head_branch u,
     ch_pull_request_head_sha = wu_pull_request_head_sha u, ch_checkpoint_sha = wu_checkpoint_sha u,
     ch_accepted_at_millis = wu_accepted_at u, ch_trusted = (wu_actor u \<noteq> WorkUpdateActorAgent),
     ch_message_truncated = False\<rparr>"

definition answer_history :: "work_answer \<Rightarrow> work_update \<Rightarrow> continuation_history" where
  "answer_history answer question = \<lparr>ch_sequence = wu_sequence question, ch_kind = ''answer'', ch_status = '''',
     ch_actor = ''operator'', ch_message = wa_message answer, ch_pull_request_url = '''',
     ch_pull_request_head_branch = '''', ch_pull_request_head_sha = '''', ch_checkpoint_sha = '''',
     ch_accepted_at_millis = wa_accepted_at answer, ch_trusted = True, ch_message_truncated = False\<rparr>"

text \<open>The rows of the \<^verbatim>\<open>UNION ALL\<close>, each with its \<^verbatim>\<open>sort_key\<close>.\<close>

definition history_rows :: "db \<Rightarrow> ident \<Rightarrow> (nat \<times> continuation_history) list" where
  "history_rows d work_id =
     map (\<lambda>u. (wu_sequence u * 2, update_history u)) (filter (\<lambda>u. wu_work_id u = work_id) (work_updates d)) @
     concat (map (\<lambda>a. map (\<lambda>q. (wu_sequence q * 2 + 1, answer_history a q))
         (filter (\<lambda>q. wu_id q = wa_question_update_id a) (work_updates d)))
       (filter (\<lambda>a. wa_work_id a = work_id) (work_answers d)))"

definition final_prompt :: "db \<Rightarrow> session \<Rightarrow> string" where
  "final_prompt d s =
     (case session_stage_rows d (ss_id s) of [] \<Rightarrow> ss_resolved_prompt s | gs \<Rightarrow> sg_prompt (last gs))"

definition load_continuation_state ::
    "db \<Rightarrow> ident \<Rightarrow> (continuation_state \<times> continuation_history list) result" where
  "load_continuation_state d work_id =
     (case find_session d work_id of None \<Rightarrow> Inl err_not_found | Some s \<Rightarrow>
      (case find_run d (ss_run_id s) of None \<Rightarrow> Inl err_not_found | Some r \<Rightarrow>
        Inr (\<lparr>co_title = ts_name (run_task_snapshot r), co_repository = ss_repository_identity s,
               co_resolved_prompt = final_prompt d s, co_publish_branch = tg_publish_branch (ss_target s),
               co_question = ss_question s, co_answer = ss_answer s, co_checkpoint_sha = ss_checkpoint_sha s,
               co_pending_resume_sha = ss_pending_resume_sha s, co_pull_request_url = ss_pull_request_url s,
               co_pull_request_head_branch = ss_pull_request_head_branch s,
               co_pull_request_head_sha = ss_pull_request_head_sha s,
               co_retry_may_repeat_effects = ss_retry_may_repeat_effects s\<rparr>,
             map snd (sort_key fst (history_rows d work_id)))))"

subsection \<open>Text\<close>

definition empty_recovery_value :: "string \<Rightarrow> string" where
  "empty_recovery_value value = (if value = '''' then ''(none)'' else value)"

text \<open>\<^verbatim>\<open>strings.NewReplacer\<close>: at every byte the first old string that matches there.\<close>

function escape_prompt_bytes :: "string \<Rightarrow> string" where
  "escape_prompt_bytes s =
     (if s = [] then []
      else if hd s = backslash then [backslash, backslash] @ escape_prompt_bytes (tl s)
      else if hd s = dquote then [backslash, dquote] @ escape_prompt_bytes (tl s)
      else if hd s = CHR 0x0D then backslash # ''r'' @ escape_prompt_bytes (tl s)
      else if hd s = CHR 0x0A then backslash # ''n'' @ escape_prompt_bytes (tl s)
      else if hd s = CHR 0x0B then backslash # ''v'' @ escape_prompt_bytes (tl s)
      else if hd s = CHR 0x0C then backslash # ''f'' @ escape_prompt_bytes (tl s)
      else if take 2 s = chars_of [194, 133] then backslash # ''u0085'' @ escape_prompt_bytes (drop 2 s)
      else if take 3 s = chars_of [226, 128, 168] then backslash # ''u2028'' @ escape_prompt_bytes (drop 3 s)
      else if take 3 s = chars_of [226, 128, 169] then backslash # ''u2029'' @ escape_prompt_bytes (drop 3 s)
      else hd s # escape_prompt_bytes (tl s))"
  by pat_completeness auto
termination
  by (relation "measure length") auto

declare escape_prompt_bytes.simps [simp del]

definition escape_untrusted_prompt_text :: "string \<Rightarrow> string" where
  "escape_untrusted_prompt_text value = dquote # escape_prompt_bytes value @ [dquote]"

definition encode_history :: "continuation_history \<Rightarrow> string" where
  "encode_history h = json_object
     (json_field ''sequence'' (show_nat (ch_sequence h)) @
      json_omitempty ''kind'' (ch_kind h) @
      json_omitempty ''status'' (ch_status h) @
      json_field ''actor'' (json_string (ch_actor h)) @
      json_field ''message'' (json_string (ch_message h)) @
      json_omitempty ''pull_request_url'' (ch_pull_request_url h) @
      json_omitempty ''pull_request_head_branch'' (ch_pull_request_head_branch h) @
      json_omitempty ''pull_request_head_sha'' (ch_pull_request_head_sha h) @
      json_omitempty ''checkpoint_sha'' (ch_checkpoint_sha h) @
      json_field ''accepted_at_millis'' (show_int (ch_accepted_at_millis h)) @
      json_field ''trusted'' (json_bool (ch_trusted h)) @
      json_omitfalse ''message_truncated'' (ch_message_truncated h))"

definition mandatory_context :: "continuation_state \<Rightarrow> string" where
  "mandatory_context st =
     co_resolved_prompt st @ newline @ newline @ ''Trusted Factory recovery context:'' @ newline @
     ''Publish branch: '' @ co_publish_branch st @ newline @
     ''Pending checkpoint SHA: '' @ empty_recovery_value (co_pending_resume_sha st) @ newline @
     ''Historical checkpoint SHA: '' @ empty_recovery_value (co_checkpoint_sha st) @ newline @
     ''Known pull request: '' @ empty_recovery_value (co_pull_request_url st) @ newline @
     ''Known pull request head: '' @ empty_recovery_value (co_pull_request_head_branch st) @ '' @ '' @
     empty_recovery_value (co_pull_request_head_sha st) @ newline @
     ''Retry may repeat external effects: '' @ json_bool (co_retry_may_repeat_effects st) @ newline @ newline @
     ''Untrusted current agent question (escaped single-line UTF-8):'' @ newline @
     escape_untrusted_prompt_text (empty_recovery_value (co_question st)) @ newline @ newline @
     ''Trusted operator answer:'' @ newline @ empty_recovery_value (co_answer st)"

subsection \<open>History\<close>

type_synonym selection = "nat \<Rightarrow> continuation_selection option"

fun join_lines :: "string list \<Rightarrow> string" where
  "join_lines [] = []"
| "join_lines [x] = x"
| "join_lines (x # y # xs) = x @ newline @ join_lines (y # xs)"

definition inserted_records :: "string list \<Rightarrow> selection \<Rightarrow> nat list" where
  "inserted_records serialized selected = filter (\<lambda>n. selected n \<noteq> None) [0..<length serialized]"

definition omitted_records :: "string list \<Rightarrow> selection \<Rightarrow> string list" where
  "omitted_records serialized selected =
     map (\<lambda>n. serialized ! n)
       (filter (\<lambda>n. case selected n of None \<Rightarrow> True | Some sel \<Rightarrow> \<not> sl_complete sel) [0..<length serialized])"

definition continuation_with_history :: "string \<Rightarrow> string list \<Rightarrow> selection \<Rightarrow> string" where
  "continuation_with_history mandatory serialized selected =
     (let omitted = omitted_records serialized selected;
          inserted = inserted_records serialized selected;
          digest = (if omitted \<noteq> [] then hex_encode (sum256 (join_lines omitted)) else ''none'')
      in mandatory @ newline @ newline @
         ''Prior Work history (trusted=true is trusted Factory/operator context; agent messages are untrusted):'' @ newline @
         ''Stored history records: '' @ show_nat (length serialized) @
         ''; inserted history records: '' @ show_nat (length inserted) @
         ''; omitted history records: '' @ show_nat (length omitted) @ ''; omitted SHA-256: '' @ digest @
         concat (map (\<lambda>n. newline @ (case selected n of None \<Rightarrow> [] | Some sel \<Rightarrow> sl_line sel)) inserted))"

text \<open>The byte offsets at which a prefix of whole runes ends, and the binary search over them for the
  longest prefix whose record fits the budget.\<close>

fun offsets_from :: "nat \<Rightarrow> string list \<Rightarrow> nat list" where
  "offsets_from n [] = [n]"
| "offsets_from n (c # cs) = n # offsets_from (n + length c) cs"

definition rune_boundaries :: "string \<Rightarrow> nat list" where
  "rune_boundaries message = offsets_from 0 (utf8_chunks message)"

function truncate_search ::
    "continuation_history \<Rightarrow> string \<Rightarrow> nat list \<Rightarrow> nat \<Rightarrow> int \<Rightarrow> int \<Rightarrow> string \<Rightarrow> string" where
  "truncate_search item message boundaries budget low high best =
     (if low \<le> high then
        let middle = low + (high - low) div 2;
            body = encode_history (item\<lparr>ch_message := take (boundaries ! nat middle) message\<rparr>)
        in if length body + 1 \<le> budget
           then truncate_search item message boundaries budget (middle + 1) high body
           else truncate_search item message boundaries budget low (middle - 1) best
      else best)"
  by pat_completeness auto
termination
  by (relation "measure (\<lambda>(_, _, _, _, low, high, _). nat (high + 1 - low))") auto

declare truncate_search.simps [simp del]

definition truncate_continuation_history :: "continuation_history \<Rightarrow> nat \<Rightarrow> string option" where
  "truncate_continuation_history item budget =
     (let item = item\<lparr>ch_message_truncated := True\<rparr>; message = ch_message item;
          boundaries = rune_boundaries message;
          best = truncate_search item message boundaries budget 0 (int (length boundaries) - 1) ''''
      in if best \<noteq> '''' then Some best else None)"

definition history_priority :: "continuation_history list \<Rightarrow> nat list" where
  "history_priority history =
     (let indices = rev [0..<length history]
      in filter (\<lambda>n. ch_kind (history ! n) = ''answer'') indices @
         filter (\<lambda>n. ch_kind (history ! n) \<noteq> ''answer'' \<and> ch_status (history ! n) \<noteq> ''running'') indices @
         filter (\<lambda>n. ch_status (history ! n) = ''running'') indices)"

text \<open>The selection loop; \<open>order\<close> holds the indices selected so far, the last one first.\<close>

fun select_history ::
    "continuation_history list \<Rightarrow> string list \<Rightarrow> nat list \<Rightarrow> nat \<Rightarrow> bool \<Rightarrow> selection \<Rightarrow> nat list \<Rightarrow> selection \<times> nat list" where
  "select_history history serialized [] remaining truncated_one selected order = (selected, order)"
| "select_history history serialized (candidate # rest) remaining truncated_one selected order =
     (let cost = length (serialized ! candidate) + 1 in
      if cost \<le> remaining then
        select_history history serialized rest (remaining - cost) truncated_one
          (selected(candidate \<mapsto> \<lparr>sl_line = serialized ! candidate, sl_complete = True\<rparr>)) (candidate # order)
      else if truncated_one then (selected, order)
      else (case truncate_continuation_history (history ! candidate) remaining of
              None \<Rightarrow> (selected, order)
            | Some line \<Rightarrow>
                select_history history serialized rest (remaining - (length line + 1)) True
                  (selected(candidate \<mapsto> \<lparr>sl_line = line, sl_complete = False\<rparr>)) (candidate # order)))"

fun drop_until_fits :: "continuation_state \<Rightarrow> string \<Rightarrow> string list \<Rightarrow> selection \<Rightarrow> nat list \<Rightarrow> string" where
  "drop_until_fits st mandatory serialized selected [] = continuation_with_history mandatory serialized selected"
| "drop_until_fits st mandatory serialized selected (last_one # order) =
     (let prompt = continuation_with_history mandatory serialized selected in
      if agent_update_prompt_fits (co_title st) (co_repository st) (co_publish_branch st) prompt then prompt
      else drop_until_fits st mandatory serialized (selected(last_one := None)) order)"

definition continuation_too_large :: service_error where
  "continuation_too_large = too_large ''continuation_prompt_too_large''
     ''the mandatory recovery context cannot fit the 72 KiB agent prompt''"

definition assemble_continuation_prompt ::
    "continuation_state \<Rightarrow> continuation_history list \<Rightarrow> string result" where
  "assemble_continuation_prompt st history =
     (let mandatory = mandatory_context st;
          serialized = map encode_history history;
          base_prompt = continuation_with_history mandatory serialized (\<lambda>_. None);
          base_bytes = length (format_agent_update_prompt (co_title st) (co_repository st) max_branch max_branch
            (co_publish_branch st) base_prompt)
      in if base_bytes > max_agent_prompt_bytes then Inl continuation_too_large
         else
           let (selected, order) = select_history history serialized (history_priority history)
                 (max_agent_prompt_bytes - base_bytes) False (\<lambda>_. None) [];
               prompt = drop_until_fits st mandatory serialized selected order
           in if \<not> agent_update_prompt_fits (co_title st) (co_repository st) (co_publish_branch st) prompt
              then Inl continuation_too_large
              else Inr prompt)"

definition continuation_prompt :: "db \<Rightarrow> ident \<Rightarrow> string result" where
  "continuation_prompt d work_id =
     and_then (load_continuation_state d work_id) (\<lambda>(st, history).
       if co_question st = '''' \<and> co_answer st = '''' \<and> co_checkpoint_sha st = '''' \<and>
          co_pending_resume_sha st = '''' \<and> co_pull_request_url st = '''' \<and>
          \<not> co_retry_may_repeat_effects st \<and> history = []
       then Inr (co_resolved_prompt st)
       else assemble_continuation_prompt st history)"

definition validate_continuation ::
    "db \<Rightarrow> ident \<Rightarrow> string \<Rightarrow> string \<Rightarrow> continuation_history list \<Rightarrow> unit result" where
  "validate_continuation d work_id question answer prospective =
     and_then (load_continuation_state d work_id) (\<lambda>(st, history).
       let st = st\<lparr>co_question := question, co_answer := answer\<rparr> in
       case assemble_continuation_prompt st (history @ prospective) of
         Inl _ \<Rightarrow> Inl continuation_too_large
       | Inr prompt \<Rightarrow>
           if \<not> agent_update_prompt_fits (co_title st) (co_repository st) (co_publish_branch st) prompt
           then Inl continuation_too_large
           else Inr ())"

definition agent_continuation_reserve_fits :: "string \<Rightarrow> string \<Rightarrow> string \<Rightarrow> string \<Rightarrow> bool" where
  "agent_continuation_reserve_fits title repository resolved_prompt publish_branch =
     (let st = \<lparr>co_title = title, co_repository = repository, co_resolved_prompt = resolved_prompt,
            co_publish_branch = publish_branch,
            co_question = concat (replicate (max_question_bytes div 2) (chars_of [194, 133])),
            co_answer = replicate max_answer_bytes (CHR ''a''), co_checkpoint_sha = replicate 64 (CHR ''f''),
            co_pending_resume_sha = replicate 64 (CHR ''f''),
            co_pull_request_url = ''https://github.com/'' @ replicate 2028 (CHR ''r''),
            co_pull_request_head_branch = replicate 255 (CHR ''b''),
            co_pull_request_head_sha = replicate 64 (CHR ''f''), co_retry_may_repeat_effects = True\<rparr>;
          history =
            [\<lparr>ch_sequence = 2 ^ 63 - 1, ch_kind = ''update'', ch_status = update_status_text WorkUpdateNeedsInput,
              ch_actor = update_actor_text WorkUpdateActorAgent, ch_message = replicate max_question_bytes (CHR ''q''),
              ch_pull_request_url = '''', ch_pull_request_head_branch = '''', ch_pull_request_head_sha = '''',
              ch_checkpoint_sha = replicate 64 (CHR ''f''), ch_accepted_at_millis = 9223372036854775807,
              ch_trusted = False, ch_message_truncated = False\<rparr>,
             \<lparr>ch_sequence = 2 ^ 63 - 1, ch_kind = ''answer'', ch_status = '''',
              ch_actor = update_actor_text WorkUpdateActorOperator, ch_message = replicate max_answer_bytes (CHR ''a''),
              ch_pull_request_url = '''', ch_pull_request_head_branch = '''', ch_pull_request_head_sha = '''',
              ch_checkpoint_sha = '''', ch_accepted_at_millis = 9223372036854775807,
              ch_trusted = True, ch_message_truncated = False\<rparr>]
      in case assemble_continuation_prompt st history of
           Inl _ \<Rightarrow> False
         | Inr prompt \<Rightarrow> agent_update_prompt_fits title repository publish_branch prompt)"

subsection \<open>What the prompt keeps\<close>

lemma continuation_with_history_prefix: "prefix mandatory (continuation_with_history mandatory serialized selected)"
  by (simp add: continuation_with_history_def Let_def)

lemma select_history_dom:
  assumes "select_history history serialized todo remaining trunc selected order = (selected', order')"
    and "dom selected \<subseteq> set order"
  shows "dom selected' \<subseteq> set order'"
  using assms
proof (induction todo arbitrary: remaining trunc selected order)
  case (Cons c todo)
  have up: "dom (selected(c \<mapsto> x)) \<subseteq> set (c # order)" for x using Cons.prems(2) by auto
  let ?cost = "length (serialized ! c) + 1" and ?cut = "truncate_continuation_history (history ! c) remaining"
  consider "?cost \<le> remaining" | "\<not> ?cost \<le> remaining" "trunc \<or> ?cut = None"
    | line where "\<not> ?cost \<le> remaining" "\<not> trunc" "?cut = Some line"
    by blast
  then show ?case
  proof cases
    case 1
    with Cons.prems(1) have "select_history history serialized todo (remaining - ?cost) trunc
        (selected(c \<mapsto> \<lparr>sl_line = serialized ! c, sl_complete = True\<rparr>)) (c # order) = (selected', order')"
      by (simp add: Let_def)
    then show ?thesis by (rule Cons.IH) (rule up)
  next
    case 2
    then have "select_history history serialized (c # todo) remaining trunc selected order = (selected, order)"
      by (auto simp: Let_def)
    with Cons.prems show ?thesis by simp
  next
    case 3
    with Cons.prems(1) have "select_history history serialized todo (remaining - (length line + 1)) True
        (selected(c \<mapsto> \<lparr>sl_line = line, sl_complete = False\<rparr>)) (c # order) = (selected', order')"
      by (simp add: Let_def)
    then show ?thesis by (rule Cons.IH) (rule up)
  qed
qed simp

lemma drop_until_fits_cases:
  assumes "dom selected \<subseteq> set order"
    and "agent_update_prompt_fits (co_title st) (co_repository st) (co_publish_branch st)
      (continuation_with_history mandatory serialized (\<lambda>_. None))"
  shows "agent_update_prompt_fits (co_title st) (co_repository st) (co_publish_branch st)
      (drop_until_fits st mandatory serialized selected order) \<and>
    (\<exists>sel. sel \<subseteq>\<^sub>m selected \<and> drop_until_fits st mandatory serialized selected order =
       continuation_with_history mandatory serialized sel)"
  using assms(1)
proof (induction order arbitrary: selected)
  case Nil
  then have "selected = (\<lambda>_. None)" by (auto simp: dom_def)
  with assms(2) show ?case by (auto intro: map_le_refl)
next
  case (Cons n order)
  show ?case
  proof (cases "agent_update_prompt_fits (co_title st) (co_repository st) (co_publish_branch st)
      (continuation_with_history mandatory serialized selected)")
    case True
    then show ?thesis by (auto simp: Let_def intro: map_le_refl)
  next
    case False
    have "dom (selected(n := None)) \<subseteq> set order" using Cons.prems by auto
    from Cons.IH [OF this] obtain sel where sel: "sel \<subseteq>\<^sub>m selected(n := None)"
      "drop_until_fits st mandatory serialized (selected(n := None)) order = continuation_with_history mandatory serialized sel"
      "agent_update_prompt_fits (co_title st) (co_repository st) (co_publish_branch st)
         (drop_until_fits st mandatory serialized (selected(n := None)) order)"
      by blast
    have "sel \<subseteq>\<^sub>m selected" using sel(1) by (rule map_le_trans) (simp add: map_le_def)
    with sel(2,3) False show ?thesis by (auto simp: Let_def)
  qed
qed

text \<open>The only reason to refuse a continuation is that the context without any history is too long.\<close>

lemma assemble_continuation_prompt_cases:
  defines "base \<equiv> \<lambda>st history. continuation_with_history (mandatory_context st) (map encode_history history) (\<lambda>_. None)"
  shows "assemble_continuation_prompt st history =
     (if agent_update_prompt_fits (co_title st) (co_repository st) (co_publish_branch st) (base st history)
      then Inr (projr (assemble_continuation_prompt st history)) else Inl continuation_too_large)"
    "assemble_continuation_prompt st history = Inr prompt \<Longrightarrow>
     agent_update_prompt_fits (co_title st) (co_repository st) (co_publish_branch st) prompt \<and>
     prefix (mandatory_context st) prompt"
proof -
  let ?m = "mandatory_context st" and ?ser = "map encode_history history"
  let ?fits = "agent_update_prompt_fits (co_title st) (co_repository st) (co_publish_branch st)"
  obtain selected order where sel: "select_history history ?ser (history_priority history)
      (max_agent_prompt_bytes - length (format_agent_update_prompt (co_title st) (co_repository st) max_branch max_branch
            (co_publish_branch st) (base st history))) False (\<lambda>_. None) [] = (selected, order)"
    by (cases "select_history history ?ser (history_priority history)
      (max_agent_prompt_bytes - length (format_agent_update_prompt (co_title st) (co_repository st) max_branch max_branch
            (co_publish_branch st) (base st history))) False (\<lambda>_. None) []")
  have dom: "dom selected \<subseteq> set order" by (rule select_history_dom [OF sel]) simp
  have eq: "assemble_continuation_prompt st history =
      (if ?fits (base st history) then
         (if \<not> ?fits (drop_until_fits st ?m ?ser selected order) then Inl continuation_too_large
          else Inr (drop_until_fits st ?m ?ser selected order))
       else Inl continuation_too_large)"
    using sel unfolding assemble_continuation_prompt_def Let_def base_def
    by (simp add: agent_update_prompt_fits_def not_le)
  note fit = drop_until_fits_cases [OF dom, of st ?m ?ser, folded base_def]
  show "assemble_continuation_prompt st history =
     (if ?fits (base st history) then Inr (projr (assemble_continuation_prompt st history)) else Inl continuation_too_large)"
    using eq fit by (simp add: base_def)
  show "?fits prompt \<and> prefix ?m prompt" if "assemble_continuation_prompt st history = Inr prompt"
    using that eq fit continuation_with_history_prefix by (auto simp: base_def split: if_splits)
qed

lemma validate_continuation_Inr:
  "validate_continuation d i question answer prospective = Inr u \<Longrightarrow>
   \<exists>st history prompt. load_continuation_state d i = Inr (st, history) \<and>
     assemble_continuation_prompt (st\<lparr>co_question := question, co_answer := answer\<rparr>) (history @ prospective) = Inr prompt"
  by (simp add: validate_continuation_def and_then_Inr Let_def split_def split: sum.splits if_splits)
    (metis prod.collapse sumE)

subsection \<open>Truncation\<close>

lemma truncate_search_budget:
  "best = [] \<or> length best + 1 \<le> budget \<Longrightarrow>
   truncate_search item message boundaries budget low high best = [] \<or>
   length (truncate_search item message boundaries budget low high best) + 1 \<le> budget"
proof (induction item message boundaries budget low high best rule: truncate_search.induct)
  case (1 item message boundaries budget low high best)
  show ?case
    by (subst (1 2) truncate_search.simps) (use 1 in \<open>auto simp: Let_def\<close>)
qed

lemma truncate_continuation_history_budget:
  "truncate_continuation_history item budget = Some line \<Longrightarrow> length line + 1 \<le> budget"
  using truncate_search_budget [of "''''" budget "item\<lparr>ch_message_truncated := True\<rparr>"]
  by (fastforce simp: truncate_continuation_history_def Let_def split: if_splits)

end
