(* ===== verification/Agent_Updates.thy ===== *)
theory Agent_Updates
  imports Continuation Paging
begin

text \<open>
  The semantic reports of an agent (work.go): \<^verbatim>\<open>AppendAgentUpdate\<close> with its validation, its
  replay of stored requests and its limits, and the pages of \<^verbatim>\<open>WorkUpdates\<close>. The identifier that
  \<^verbatim>\<open>newID\<close> draws is an argument.
\<close>

subsection \<open>Validation\<close>

definition check_delivery_evidence :: "work_update_status \<Rightarrow> attempt_update_request \<Rightarrow> unit result" where
  "check_delivery_evidence status input =
     (if status = WorkUpdateReady then
        (if au_pull_request_url input = '''' \<or>
            (\<not> au_replay_only input \<and> (au_pull_request_head_branch input = '''' \<or>
               \<not> valid_commit_sha (au_pull_request_head_sha input))) \<or>
            au_checkpoint_sha input \<noteq> ''''
         then Inl (invalid ''invalid_delivery_evidence''
                ''ready requires a pull request URL, head branch, and full head SHA'')
         else Inr ())
      else if au_pull_request_url input \<noteq> '''' \<or> au_pull_request_head_branch input \<noteq> '''' \<or>
              au_pull_request_head_sha input \<noteq> ''''
      then Inl (invalid ''unexpected_delivery_evidence'' ''only ready accepts pull request evidence'')
      else Inr ())"

definition check_checkpoint :: "work_update_status \<Rightarrow> attempt_update_request \<Rightarrow> unit result" where
  "check_checkpoint status input =
     (if status = WorkUpdateNeedsInput then
        (if \<not> au_replay_only input \<and> \<not> valid_commit_sha (au_checkpoint_sha input)
         then Inl (invalid ''invalid_checkpoint'' ''needs-input requires a full checkpoint SHA'')
         else Inr ())
      else if au_checkpoint_sha input \<noteq> '''' \<or> au_checkpoint_published input
      then Inl (invalid ''unexpected_checkpoint'' ''only needs-input accepts a checkpoint SHA'')
      else Inr ())"

definition check_agent_update :: "ident \<Rightarrow> attempt_update_request \<Rightarrow> work_update_status result" where
  "check_agent_update attempt_id input =
     (if \<not> valid_uuid attempt_id \<or> \<not> valid_uuid (au_request_id input)
      then Inl (invalid ''invalid_update_identity'' ''attempt_id and request_id must be UUIDs'')
      else and_then (validate_token (au_lease_token input)) (\<lambda>_.
        case work_update_status_of (au_status input) of
          None \<Rightarrow> Inl (invalid ''invalid_update_status''
                     ''status must be running, ready, needs-input, failed, or no-change'')
        | Some status \<Rightarrow>
            if \<not> utf8_valid (au_message input) \<or> trim_space (au_message input) = ''''
            then Inl (invalid ''invalid_update_message'' ''message must be non-empty UTF-8 text'')
            else if length (au_message input) > update_limit status
            then Inl (too_large ''update_message_too_large'' ''update message exceeds its status limit'')
            else if length (au_pull_request_url input) > 2048 \<or> length (au_pull_request_head_branch input) > 255 \<or>
                    length (au_pull_request_head_sha input) > 64 \<or> length (au_checkpoint_sha input) > 64
            then Inl (invalid ''invalid_update_evidence'' ''update evidence exceeds its storage limit'')
            else and_then (check_delivery_evidence status input) (\<lambda>_.
                 and_then (check_checkpoint status input) (\<lambda>_.
                   if au_replay_only input \<and> (au_pull_request_head_branch input \<noteq> '''' \<or>
                      au_pull_request_head_sha input \<noteq> '''' \<or> au_checkpoint_sha input \<noteq> '''' \<or>
                      au_checkpoint_published input)
                   then Inl (invalid ''unexpected_replay_evidence''
                          ''replay lookup cannot include Worker-derived evidence'')
                   else Inr status))))"

subsection \<open>Stored requests\<close>

definition agent_update_request_digest :: "attempt_update_request \<Rightarrow> digest" where
  "agent_update_request_digest input = sum256 (json_object
     (json_field ''request_id'' (json_string (au_request_id input)) @
      json_field ''status'' (json_string (au_status input)) @
      json_field ''message'' (json_string (au_message input)) @
      json_omitempty ''pull_request_url'' (au_pull_request_url input)))"

definition find_update :: "db \<Rightarrow> ident \<Rightarrow> work_update option" where
  "find_update d i = find (\<lambda>u. wu_id u = i) (work_updates d)"

definition find_update_request :: "db \<Rightarrow> ident \<Rightarrow> string \<Rightarrow> agent_update_request option" where
  "find_update_request d attempt_id request_id =
     find (\<lambda>q. aq_attempt_id q = attempt_id \<and> aq_request_id q = request_id) (agent_update_requests d)"

definition stored_agent_update_request :: "db \<Rightarrow> ident \<Rightarrow> string \<Rightarrow> (work_update \<times> digest) option" where
  "stored_agent_update_request d attempt_id request_id =
     (case find_update_request d attempt_id request_id of
        None \<Rightarrow> None
      | Some q \<Rightarrow> (case find_update d (aq_update_id q) of
          None \<Rightarrow> None
        | Some u \<Rightarrow> Some (u, aq_request_digest q)))"

definition same_agent_update :: "work_update \<Rightarrow> work_update_status \<Rightarrow> attempt_update_request \<Rightarrow> bool" where
  "same_agent_update u status input \<longleftrightarrow>
     wu_status u = status \<and> wu_message u = au_message input \<and>
     wu_pull_request_url u = au_pull_request_url input \<and>
     wu_pull_request_head_branch u = au_pull_request_head_branch input \<and>
     wu_pull_request_head_sha u = au_pull_request_head_sha input \<and>
     wu_checkpoint_sha u = au_checkpoint_sha input \<and>
     wu_checkpoint_published u = au_checkpoint_published input"

definition store_agent_update_request ::
    "ident \<Rightarrow> string \<Rightarrow> digest \<Rightarrow> ident \<Rightarrow> millis \<Rightarrow> db \<Rightarrow> db" where
  "store_agent_update_request attempt_id request_id digest update_id now d = d\<lparr>
     agent_update_requests := agent_update_requests d @
       [\<lparr>aq_attempt_id = attempt_id, aq_request_id = request_id, aq_request_digest = digest,
         aq_update_id = update_id, aq_created_at = now\<rparr>]\<rparr>"

definition work_update_reply :: "db \<Rightarrow> ident \<Rightarrow> work_update result" where
  "work_update_reply d i = (case find_update d i of None \<Rightarrow> Inl unavailable | Some u \<Rightarrow> Inr u)"

subsection \<open>AppendAgentUpdate\<close>

definition next_update_sequence :: "db \<Rightarrow> ident \<Rightarrow> nat" where
  "next_update_sequence d work_id =
     fold max (map wu_sequence (filter (\<lambda>u. wu_work_id u = work_id) (work_updates d))) 0 + 1"

definition agent_update_row ::
    "ident \<Rightarrow> ident \<Rightarrow> ident \<Rightarrow> nat \<Rightarrow> work_update_status \<Rightarrow> attempt_update_request \<Rightarrow> millis \<Rightarrow> work_update" where
  "agent_update_row update_id work_id attempt_id sequence status input now =
     \<lparr>wu_id = update_id, wu_work_id = work_id, wu_attempt_id = Some attempt_id,
      wu_request_id = au_request_id input, wu_sequence = sequence, wu_status = status,
      wu_message = au_message input, wu_pull_request_url = au_pull_request_url input,
      wu_pull_request_head_branch = au_pull_request_head_branch input,
      wu_pull_request_head_sha = au_pull_request_head_sha input,
      wu_checkpoint_sha = au_checkpoint_sha input,
      wu_checkpoint_published = au_checkpoint_published input, wu_actor = WorkUpdateActorAgent,
      wu_accepted_at = now\<rparr>"

definition insert_agent_update ::
    "millis \<Rightarrow> ident \<Rightarrow> ident \<Rightarrow> ident \<Rightarrow> nat \<Rightarrow> work_update_status \<Rightarrow> attempt_update_request \<Rightarrow> db \<Rightarrow> db" where
  "insert_agent_update now update_id work_id attempt_id sequence status input d =
     (let d1 = d\<lparr>work_updates := work_updates d @
            [agent_update_row update_id work_id attempt_id sequence status input now]\<rparr>;
          d2 = store_agent_update_request attempt_id (au_request_id input) (agent_update_request_digest input)
            update_id now d1
      in if status = WorkUpdateRunning
         then d2\<lparr>sessions := update_where (\<lambda>s. ss_id s = work_id \<and> ss_state s = SessionRunning)
                (\<lambda>s. s\<lparr>ss_latest_progress := au_message input\<rparr>) (sessions d2)\<rparr>
         else d2)"

text \<open>The part after the lease has been verified: the Attempt is active for updates, and the report is
  a repetition of its outcome, or new and within the limits. The result is the stored update itself or
  the identifier of the one that was inserted.\<close>

definition record_agent_update ::
    "millis \<Rightarrow> ident \<Rightarrow> db \<Rightarrow> ident \<Rightarrow> lease_state \<Rightarrow> work_update_status \<Rightarrow> attempt_update_request \<Rightarrow>
     ((work_update + ident) \<times> db) result" where
  "record_agent_update now update_id d attempt_id lease status input =
     (if ls_outcome_contract lease \<noteq> OutcomeAgentUpdate
      then Inl (conflict ''agent_update_not_allowed''
             ''this Attempt uses process-exit completion and cannot accept semantic updates'')
      else if ls_attempt_state lease \<noteq> AttemptRunning \<or> ls_execution_state lease \<noteq> ExecutionRunning \<or> ls_cancel lease
      then Inl (conflict ''update_not_active'' ''the Attempt is not active for updates'')
      else case Option.bind (execution_session d (ls_execution_id lease)) (find_session d) of
        None \<Rightarrow> Inl unavailable
      | Some s \<Rightarrow>
          if ss_state s \<noteq> SessionRunning \<or> ss_execution_owner s \<noteq> ExecutionOwnerWorkerAttempt
          then Inl (conflict ''update_not_active'' ''the Work is not owned by this active Attempt'')
          else case attempt_outcome d attempt_id of
            Some existing \<Rightarrow>
              if status = WorkUpdateRunning
              then Inl (conflict ''outcome_already_reported'' ''progress cannot follow an outcome report'')
              else if \<not> same_agent_update existing status input
              then Inl (conflict ''outcome_already_reported'' ''a different outcome was already reported'')
              else Inr (Inl existing, store_agent_update_request attempt_id (au_request_id input)
                     (agent_update_request_digest input) (wu_id existing) now d)
          | None \<Rightarrow>
              if status = WorkUpdateRunning \<and> progress_count d attempt_id \<ge> max_progress_per_attempt
              then Inl (conflict ''progress_update_limit''
                     ''the Attempt already has 199 progress updates; its outcome slot is reserved'')
              else
                let sequence = next_update_sequence d (ss_id s);
                    prospective = \<lparr>ch_sequence = sequence, ch_kind = ''update'', ch_status = update_status_text status,
                      ch_actor = update_actor_text WorkUpdateActorAgent, ch_message = au_message input,
                      ch_pull_request_url = '''', ch_pull_request_head_branch = '''', ch_pull_request_head_sha = '''',
                      ch_checkpoint_sha = au_checkpoint_sha input, ch_accepted_at_millis = now,
                      ch_trusted = False, ch_message_truncated = False\<rparr>
                in and_then
                     (if status = WorkUpdateNeedsInput
                      then validate_continuation d (ss_id s) (au_message input)
                             (replicate max_answer_bytes (CHR ''a'')) [prospective]
                      else Inr ())
                     (\<lambda>_. Inr (Inr update_id,
                        insert_agent_update now update_id (ss_id s) attempt_id sequence status input d)))"

definition append_agent_update_tx ::
    "int \<Rightarrow> ident \<Rightarrow> db \<Rightarrow> ident \<Rightarrow> attempt_update_request \<Rightarrow> ((work_update + ident) \<times> db) result" where
  "append_agent_update_tx now_ns update_id d attempt_id input =
     and_then (check_agent_update attempt_id input) (\<lambda>status.
       let digest = agent_update_request_digest input; now = unix_milli now_ns in
       and_then (load_lease d attempt_id) (\<lambda>lease.
         if \<not> equal_digest (ls_digest lease) (digest_token (au_lease_token input))
         then Inl (conflict ''lease_not_owner'' ''the lease token does not own this attempt'')
         else case stored_agent_update_request d attempt_id (au_request_id input) of
           Some (stored, stored_digest) \<Rightarrow>
             if \<not> equal_digest stored_digest digest
             then Inl (conflict ''update_request_conflict''
                    ''request_id was already used with different update fields'')
             else Inr (Inl stored, d)
         | None \<Rightarrow>
             if au_replay_only input
             then Inl \<lparr>se_code = ''update_request_not_found'',
                        se_message = ''the update request has not been stored'', se_status = 404\<rparr>
             else and_then (verify_active_lease lease (au_lease_token input) now) (\<lambda>_.
                    record_agent_update now update_id d attempt_id lease status input)))"

definition append_agent_update ::
    "int \<Rightarrow> ident \<Rightarrow> db \<Rightarrow> ident \<Rightarrow> attempt_update_request \<Rightarrow> work_update result \<times> db" where
  "append_agent_update now update_id d attempt_id input =
     committed d (append_agent_update_tx now update_id d attempt_id input)
       (\<lambda>d' r. case r of Inl stored \<Rightarrow> Inr stored | Inr i \<Rightarrow> work_update_reply d' i)"

subsection \<open>WorkUpdates\<close>

definition default_work_update_page_size :: int where "default_work_update_page_size = 100"
definition max_work_update_page_size :: int where "max_work_update_page_size = 200"

definition updates_of :: "db \<Rightarrow> ident \<Rightarrow> work_update list" where
  "updates_of d work_id = filter (\<lambda>u. wu_work_id u = work_id) (work_updates d)"

definition update_key :: "work_update \<Rightarrow> int" where
  "update_key u = int (wu_sequence u)"

definition read_work_updates :: "db \<Rightarrow> ident \<Rightarrow> int \<Rightarrow> int \<Rightarrow> work_update page result" where
  "read_work_updates d work_id after limit =
     (let limit = (if limit = 0 then default_work_update_page_size else limit) in
      if limit < 1 \<or> limit > max_work_update_page_size
      then Inl (invalid ''invalid_limit'' ''limit must be between 1 and 200'')
      else if after < 0
      then Inl (invalid ''invalid_cursor'' ''after must not be negative'')
      else if count_where (\<lambda>s. ss_id s = work_id) (sessions d) = 0
      then Inl err_not_found
      else Inr (page_of update_key after (nat limit)
        (select_after update_key after (nat limit) (updates_of d work_id))))"

subsection \<open>The cases of a success\<close>

definition reports_ok :: "db \<Rightarrow> bool" where
  "reports_ok d \<longleftrightarrow>
     distinct (map (\<lambda>q. (aq_attempt_id q, aq_request_id q)) (agent_update_requests d)) \<and>
     (\<forall>q \<in> set (agent_update_requests d).
        \<exists>u \<in> set (work_updates d). wu_id u = aq_update_id q \<and> wu_attempt_id u = Some (aq_attempt_id q)) \<and>
     (\<forall>u \<in> set (work_updates d). \<forall>i. wu_attempt_id u = Some i \<longrightarrow>
        (\<exists>q \<in> set (agent_update_requests d). aq_attempt_id q = i \<and> aq_request_id q = wu_request_id u))"

lemma reports_ok_frame:
  "reports_ok d \<Longrightarrow> work_updates d' = work_updates d \<Longrightarrow> agent_update_requests d' = agent_update_requests d \<Longrightarrow> reports_ok d'"
  by (simp add: reports_ok_def)

lemma check_agent_update_Inr:
  assumes "check_agent_update i input = Inr status"
  shows "valid_uuid (au_request_id input)" "work_update_status_of (au_status input) = Some status"
    "au_message input \<noteq> []" "length (au_message input) \<le> update_limit status"
    "status = WorkUpdateReady \<longrightarrow> au_pull_request_url input \<noteq> []"
    "status = WorkUpdateNeedsInput \<longrightarrow> \<not> au_replay_only input \<longrightarrow> valid_commit_sha (au_checkpoint_sha input)"
  using assms
  by (auto simp: check_agent_update_def check_delivery_evidence_def check_checkpoint_def and_then_Inr
      split: if_splits option.splits)

lemma append_agent_update_tx_Inr:
  assumes "append_agent_update_tx now update_id d i input = Inr (r, d')"
  obtains
    (replay) u q where "r = Inl u" "d' = d"
      "stored_agent_update_request d i (au_request_id input) = Some (u, agent_update_request_digest input)"
  | (recorded) lease status where
      "check_agent_update i input = Inr status" "load_lease d i = Inr lease"
      "verify_active_lease lease (au_lease_token input) (unix_milli now) = Inr ()"
      "stored_agent_update_request d i (au_request_id input) = None" "\<not> au_replay_only input"
      "record_agent_update (unix_milli now) update_id d i lease status input = Inr (r, d')"
proof -
  from assms obtain status lease where sl: "check_agent_update i input = Inr status" "load_lease d i = Inr lease"
    by (auto simp: append_agent_update_tx_def and_then_Inr Let_def)
  show thesis
  proof (cases "stored_agent_update_request d i (au_request_id input)")
    case None
    with assms sl show thesis
      by (intro recorded) (auto simp: append_agent_update_tx_def and_then_Inr Let_def split: if_splits)
  next
    case (Some p)
    with assms sl show thesis
      by (intro replay [of "fst p"])
        (auto simp: append_agent_update_tx_def and_then_Inr Let_def equal_digest_def split: if_splits prod.splits)
  qed
qed

lemma record_agent_update_Inr:
  assumes "record_agent_update now update_id d i lease status input = Inr (r, d')"
  obtains
    (repeated) u where "attempt_outcome d i = Some u" "r = Inl u" "same_agent_update u status input"
      "status \<noteq> WorkUpdateRunning"
      "d' = store_agent_update_request i (au_request_id input) (agent_update_request_digest input) (wu_id u) now d"
  | (fresh) s where "Option.bind (execution_session d (ls_execution_id lease)) (find_session d) = Some s"
      "ss_state s = SessionRunning" "attempt_outcome d i = None"
      "status = WorkUpdateRunning \<longrightarrow> progress_count d i < max_progress_per_attempt"
      "r = Inr update_id"
      "d' = insert_agent_update now update_id (ss_id s) i (next_update_sequence d (ss_id s)) status input d"
proof -
  from assms obtain s where s: "Option.bind (execution_session d (ls_execution_id lease)) (find_session d) = Some s"
      "ss_state s = SessionRunning"
    by (auto simp: record_agent_update_def split: if_splits option.splits)
  show thesis
  proof (cases "attempt_outcome d i")
    case None
    with assms s show thesis
      by (intro fresh [OF s]) (auto simp: record_agent_update_def and_then_Inr Let_def split: if_splits)
  next
    case (Some u)
    with assms s show thesis
      by (intro repeated [OF Some]) (auto simp: record_agent_update_def split: if_splits)
  qed
qed

subsection \<open>What it keeps\<close>

lemma fold_max_ge_nat: "x \<in> set xs \<Longrightarrow> x \<le> fold max xs (n :: nat)" "n \<le> fold max xs (n :: nat)"
proof -
  have start: "n \<le> fold max xs n" for xs and n :: nat
  proof (induction xs arbitrary: n)
    case (Cons z zs)
    then show ?case by (auto intro: order_trans [OF max.cobounded2])
  qed simp
  show "n \<le> fold max xs n" by (rule start)
  show "x \<in> set xs \<Longrightarrow> x \<le> fold max xs n"
  proof (induction xs arbitrary: n)
    case (Cons z zs)
    then show ?case using start [of "max z n" zs] by auto
  qed simp
qed

lemma next_update_sequence_above:
  "u \<in> set (work_updates d) \<Longrightarrow> wu_work_id u = w \<Longrightarrow> wu_sequence u < next_update_sequence d w"
  using fold_max_ge_nat(1) [of "wu_sequence u" "map wu_sequence (filter (\<lambda>u. wu_work_id u = w) (work_updates d))" 0]
  by (simp add: next_update_sequence_def less_Suc_eq_le)

lemma next_update_sequence_pos: "0 < next_update_sequence d w"
  by (simp add: next_update_sequence_def)

lemma insert_agent_update_tables:
  "work_updates (insert_agent_update now j w i n st input d) = work_updates d @ [agent_update_row j w i n st input now]"
  "attempts (insert_agent_update now j w i n st input d) = attempts d"
  "executions (insert_agent_update now j w i n st input d) = executions d"
  "runs (insert_agent_update now j w i n st input d) = runs d"
  "session_stages (insert_agent_update now j w i n st input d) = session_stages d"
  "attempt_events (insert_agent_update now j w i n st input d) = attempt_events d"
  "agent_update_requests (insert_agent_update now j w i n st input d) = agent_update_requests d @
     [\<lparr>aq_attempt_id = i, aq_request_id = au_request_id input, aq_request_digest = agent_update_request_digest input,
       aq_update_id = j, aq_created_at = now\<rparr>]"
  "sessions (insert_agent_update now j w i n st input d) =
     (if st = WorkUpdateRunning
      then update_where (\<lambda>s. ss_id s = w \<and> ss_state s = SessionRunning)
             (\<lambda>s. s\<lparr>ss_latest_progress := au_message input\<rparr>) (sessions d)
      else sessions d)"
  by (simp_all add: insert_agent_update_def store_agent_update_request_def Let_def)

lemma store_request_tables [simp]:
  "work_updates (store_agent_update_request i q g j now d) = work_updates d"
  "sessions (store_agent_update_request i q g j now d) = sessions d"
  "attempts (store_agent_update_request i q g j now d) = attempts d"
  "executions (store_agent_update_request i q g j now d) = executions d"
  "runs (store_agent_update_request i q g j now d) = runs d"
  "session_stages (store_agent_update_request i q g j now d) = session_stages d"
  "attempt_events (store_agent_update_request i q g j now d) = attempt_events d"
  by (simp_all add: store_agent_update_request_def)

lemma insert_agent_update_store_ok:
  assumes "store_ok d"
  shows "store_ok (insert_agent_update now j w i n st input d)" (is "store_ok ?d")
proof (cases "st = WorkUpdateRunning")
  case True
  have "core_ok ?d"
    by (rule core_ok_same_states [OF store_okD(6) [OF assms]],
        simp add: insert_agent_update_tables True same_keys_def map_update_where,
        (simp only: insert_agent_update_tables True if_True simp_thms, rule in_place_intros)+,
        auto simp: session_row_ok_def)
  moreover have "runs_ok ?d"
    by (rule runs_ok_same_nonterminal [OF store_okD(5) [OF assms],
          where fs = "\<lambda>s. if ss_id s = w \<and> ss_state s = SessionRunning then s\<lparr>ss_latest_progress := au_message input\<rparr> else s"])
      (auto simp: insert_agent_update_tables True update_where_def)
  ultimately show ?thesis by (simp add: store_ok_def)
next
  case False
  then show ?thesis by (intro store_ok_frame [OF assms]) (simp_all add: insert_agent_update_tables)
qed

lemma append_agent_update_ok:
  assumes "store_ok d" "append_agent_update_tx now j d i input = Inr (r, d')"
  shows "store_ok d'"
  using assms(2)
proof (cases rule: append_agent_update_tx_Inr)
  case (recorded lease status)
  from recorded(6) show ?thesis
  proof (cases rule: record_agent_update_Inr)
    case (repeated u)
    with assms(1) show ?thesis by (intro store_ok_frame [OF assms(1)]) simp_all
  next
    case (fresh s)
    with assms(1) show ?thesis by (simp add: insert_agent_update_store_ok)
  qed
qed (use assms(1) in simp)

lemma append_agent_update_frame:
  assumes "append_agent_update_tx now j d i input = Inr (r, d')"
  shows "session_stages d' = session_stages d" "attempt_events d' = attempt_events d" "attempts d' = attempts d"
    "executions d' = executions d" "runs d' = runs d" "map ss_id (sessions d') = map ss_id (sessions d)"
  using assms
  by (cases rule: append_agent_update_tx_Inr;
      force elim!: record_agent_update_Inr simp: insert_agent_update_tables map_update_where)+

lemma history_ok_snoc:
  assumes h: "history_ok d" and d': "work_updates d' = work_updates d @ [u]" and u: "update_row_ok u"
    and id: "wu_id u \<notin> wu_id ` set (work_updates d)"
    and above: "\<And>v. v \<in> set (work_updates d) \<Longrightarrow> wu_work_id v = wu_work_id u \<Longrightarrow> wu_sequence v < wu_sequence u"
    and attempt: "wu_attempt_id u = Some i" "attempt_outcome d i = None"
    and room: "wu_status u = WorkUpdateRunning \<longrightarrow> progress_count d i < max_progress_per_attempt"
  shows "history_ok d'"
proof -
  have none: "outcome_count d i = 0"
    using attempt(2) by (auto simp: attempt_outcome_def outcome_count_def count_where_eq_0 find_None_set)
  have "outcome_count d' k \<le> 1" for k
    using h none attempt(1) by (auto simp: history_ok_def outcome_count_def d')
  moreover have "progress_count d' k \<le> max_progress_per_attempt" for k
    using h room attempt(1) by (auto simp: history_ok_def progress_count_def d')
  moreover have "(wu_work_id u, wu_sequence u) \<notin> (\<lambda>v. (wu_work_id v, wu_sequence v)) ` set (work_updates d)"
    using above by (force simp: image_iff)
  ultimately show ?thesis
    using h u id by (auto simp: history_ok_def d')
qed

lemma append_agent_update_history:
  assumes h: "history_ok d" and new: "j \<notin> wu_id ` set (work_updates d)"
    and tx: "append_agent_update_tx now j d i input = Inr (r, d')"
  shows "history_ok d'"
  using tx
proof (cases rule: append_agent_update_tx_Inr)
  case (recorded lease status)
  from recorded(6) show ?thesis
  proof (cases rule: record_agent_update_Inr)
    case (repeated u)
    then show ?thesis by (intro history_ok_frame [OF h]) simp
  next
    case (fresh s)
    note c = check_agent_update_Inr [OF recorded(1)]
    show ?thesis
      by (rule history_ok_snoc [OF h, where u = "agent_update_row j (ss_id s) i (next_update_sequence d (ss_id s)) status input (unix_milli now)" and i = i])
        (use c recorded(5) fresh new in \<open>auto simp: insert_agent_update_tables agent_update_row_def update_row_ok_def
           next_update_sequence_above next_update_sequence_pos\<close>)
  qed
qed (use h in simp)

lemma find_update_request_None:
  "find_update_request d i q = None \<longleftrightarrow>
   (\<forall>r \<in> set (agent_update_requests d). \<not> (aq_attempt_id r = i \<and> aq_request_id r = q))"
  by (simp add: find_update_request_def find_None_set)

lemma find_update_request_Some:
  "find_update_request d i q = Some r \<Longrightarrow>
   r \<in> set (agent_update_requests d) \<and> aq_attempt_id r = i \<and> aq_request_id r = q"
  unfolding find_update_request_def by (drule find_Some_set) simp

lemma stored_request_None:
  assumes ok: "reports_ok d" and none: "stored_agent_update_request d i q = None"
  shows "find_update_request d i q = None"
proof (cases "find_update_request d i q")
  case (Some r)
  obtain u where "u \<in> set (work_updates d)" "wu_id u = aq_update_id r"
    using ok find_update_request_Some [OF Some] by (auto simp: reports_ok_def)
  then have "find_update d (aq_update_id r) \<noteq> None"
    by (auto simp: find_update_def find_None_set)
  with none Some show ?thesis by (simp add: stored_agent_update_request_def split: option.splits)
qed

lemma reports_ok_store:
  assumes ok: "reports_ok d" and none: "find_update_request d i (au_request_id input) = None"
    and u: "u \<in> set (work_updates d)" "wu_attempt_id u = Some i"
  shows "reports_ok (store_agent_update_request i (au_request_id input) g (wu_id u) now d)"
  using ok none u unfolding reports_ok_def find_update_request_None
  by (auto simp: store_agent_update_request_def)

lemma append_agent_update_reports:
  assumes ok: "reports_ok d" and tx: "append_agent_update_tx now j d i input = Inr (r, d')"
  shows "reports_ok d'"
  using tx
proof (cases rule: append_agent_update_tx_Inr)
  case (recorded lease status)
  note none = stored_request_None [OF ok recorded(4)]
  from recorded(6) show ?thesis
  proof (cases rule: record_agent_update_Inr)
    case (repeated u)
    with attempt_outcome_Some [OF repeated(1)] reports_ok_store [OF ok none] show ?thesis by simp
  next
    case (fresh s)
    let ?u = "agent_update_row j (ss_id s) i (next_update_sequence d (ss_id s)) status input (unix_milli now)"
    show ?thesis
      using ok none unfolding reports_ok_def find_update_request_None fresh(6) insert_agent_update_tables
      by (auto simp: agent_update_row_def)
  qed
qed (use ok in simp)

subsection \<open>Interfaces\<close>

interpretation append_agent_update: lease_guarded "\<lambda>now. append_agent_update now j" au_lease_token for j
proof unfold_locales
  fix now d i input and reply :: "work_update result" and d'
  assume op: "append_agent_update now j d i input = (reply, d')" and "d' \<noteq> d"
  then obtain x where "append_agent_update_tx now j d i input = Inr (x, d')"
    unfolding append_agent_update_def by (auto elim: committed_cases)
  then show "owns_lease d (unix_milli now) i (au_lease_token input)"
    using \<open>d' \<noteq> d\<close> by (cases rule: append_agent_update_tx_Inr) (auto intro: lease_guard)
qed

interpretation update_pages: paged updates_of update_key read_work_updates
  "\<lambda>d i. history_ok d \<and> find_session d i \<noteq> None" 0 200
proof unfold_locales
  fix d i
  assume ok: "history_ok d \<and> find_session d i \<noteq> None"
  then have "distinct (map (\<lambda>u. (wu_work_id u, wu_sequence u)) (work_updates d))"
    by (simp add: history_ok_def)
  then have "distinct (map (\<lambda>u. (wu_work_id u, wu_sequence u)) (updates_of d i))"
    unfolding updates_of_def by (rule distinct_map_filter_key)
  then show "distinct (map update_key (updates_of d i))"
    by (auto simp: distinct_map inj_on_def updates_of_def update_key_def)
  show "0 < update_key r" if "r \<in> set (updates_of d i)" for r
    using that ok by (auto simp: updates_of_def update_key_def update_row_ok_def dest!: history_ok_row)
  have n: "count_where (\<lambda>s. ss_id s = i) (sessions d) \<noteq> 0"
    using ok by (auto simp: find_session_def find_None_set count_where_eq_0)
  fix after limit :: int
  assume "0 \<le> after" "1 \<le> limit" "limit \<le> 200"
  then show "read_work_updates d i after limit =
      Inr (page_of update_key after (nat limit) (select_after update_key after (nat limit) (updates_of d i)))"
    using n by (simp add: read_work_updates_def max_work_update_page_size_def Let_def)
qed

text \<open>A stored request is answered with what was stored, whoever holds the lease by then.\<close>

lemma stored_request_replays:
  assumes stored: "stored_agent_update_request d i (au_request_id input) = Some (u, agent_update_request_digest input)"
    and lease: "load_lease d i = Inr lease" "ls_digest lease = digest_token (au_lease_token input)"
    and check: "check_agent_update i input = Inr status"
  shows "append_agent_update now j d i input = (Inr u, d)"
  using assms by (simp add: append_agent_update_def append_agent_update_tx_def Let_def equal_digest_def)

lemma append_agent_update_stored:
  assumes new: "j \<notin> wu_id ` set (work_updates d)" and ok: "reports_ok d" and hist: "history_ok d"
    and tx: "append_agent_update now j d i input = (Inr u, d')"
  shows "stored_agent_update_request d' i (au_request_id input) = Some (u, agent_update_request_digest input)"
proof -
  obtain r where r: "append_agent_update_tx now j d i input = Inr (r, d')"
    and reply: "(case r of Inl stored \<Rightarrow> Inr stored | Inr k \<Rightarrow> work_update_reply d' k) = Inr u"
    using tx by (auto simp: append_agent_update_def elim: committed_cases)
  from r show ?thesis
  proof (cases rule: append_agent_update_tx_Inr)
    case (recorded lease status)
    note none = stored_request_None [OF ok recorded(4)]
    from recorded(6) show ?thesis
    proof (cases rule: record_agent_update_Inr)
      case (repeated v)
      have "find_update d' (wu_id v) = Some v"
        using attempt_outcome_Some [OF repeated(1)] hist
        by (simp add: repeated(5) find_update_def history_ok_def find_key)
      moreover have "find_update_request d' i (au_request_id input) = Some
          \<lparr>aq_attempt_id = i, aq_request_id = au_request_id input, aq_request_digest = agent_update_request_digest input,
           aq_update_id = wu_id v, aq_created_at = unix_milli now\<rparr>"
        using none by (simp add: find_update_request_def repeated(5) store_agent_update_request_def find_append)
      ultimately show ?thesis
        using reply repeated(2) by (simp add: stored_agent_update_request_def)
    next
      case (fresh s)
      have "find_update d j = None" using new by (auto simp: find_update_def find_None_set)
      then have "find_update d' j = Some (agent_update_row j (ss_id s) i (next_update_sequence d (ss_id s)) status input (unix_milli now))"
        by (simp add: find_update_def fresh(6) insert_agent_update_tables find_append agent_update_row_def)
      moreover have "find_update_request d' i (au_request_id input) = Some
          \<lparr>aq_attempt_id = i, aq_request_id = au_request_id input, aq_request_digest = agent_update_request_digest input,
           aq_update_id = j, aq_created_at = unix_milli now\<rparr>"
        using none by (simp add: find_update_request_def fresh(6) insert_agent_update_tables find_append)
      ultimately show ?thesis
        using reply fresh(5) by (simp add: stored_agent_update_request_def work_update_reply_def)
    qed
  qed (use reply in simp)
qed

end
