(* ===== verification/Report_Properties.thy ===== *)
theory Report_Properties
  imports Example_Store Events Agent_Updates
begin

text \<open>
  Properties of what a Worker reports while its Attempt runs: events and their replay, semantic updates
  and their limits, the pages they are read by and the prompt that a continued Work item gets.
\<close>

lemma owner_verifies:
  assumes "keys_ok d" "load_lease d i = Inr lease" "owns_lease d m i token" "validate_token token = Inr ()"
  shows "verify_active_lease lease token m = Inr ()"
proof -
  obtain a where a: "a \<in> set (attempts d)" "at_id a = i" "is_active (at_state a)"
    "at_lease_digest a = digest_token token" "m < at_lease_expires_at a"
    using assms(3) by (auto simp: owns_lease_def)
  then have "find_attempt d i = Some a" using find_attempt_in [OF assms(1), of a] by simp
  with assms(2) obtain e r where "lease = lease_of r e a" by (auto simp: load_lease_Inr)
  with a assms(4) show ?thesis by (simp add: verify_active_lease_def)
qed

subsection \<open>Events\<close>

text \<open>C14. Events are append-only and strictly increasing: an accepted batch adds rows of its own Attempt at the end of
  the table, above every sequence stored for it, and afterwards every event of the batch is stored as sent.\<close>

theorem events_are_append_only:
  assumes "append_events now d i input = (Inr (), d')"
  shows "\<exists>new. attempt_events d' = attempt_events d @ new \<and>
     sorted_wrt (\<lambda>v w. ev_sequence v < ev_sequence w) new \<and>
     (\<forall>v \<in> set new. ev_attempt_id v = i \<and>
        (\<forall>w \<in> set (attempt_events d). ev_attempt_id w = i \<longrightarrow> ev_sequence w < ev_sequence v)) \<and>
     (\<forall>e \<in> set (eb_events input). \<exists>v \<in> set (attempt_events d'). ev_attempt_id v = i \<and>
        ev_sequence v = ae_sequence e \<and> ev_kind v = ae_kind e \<and> ev_payload v = ae_payload e)"
proof -
  obtain u where tx: "append_events_tx now d i input = Inr (u, d')"
    using assms by (auto simp: append_events_def elim: committed_cases)
  obtain pending bytes where
    stage: "stage_events d i (max_sequence d i) (stored_bytes d i) (eb_events input) = Inr (pending, bytes)"
    and d': "d' = d\<lparr>attempt_events := attempt_events d @ map (event_row i (unix_milli now)) pending\<rparr>"
    by (rule append_events_tx_Inr [OF tx])
  note st = stage_events_Inr [OF stage]
  have above: "ev_sequence w < ae_sequence e"
    if "w \<in> set (attempt_events d)" "ev_attempt_id w = i" "e \<in> set pending" for w e
    using max_sequence_ge [of w d i] that st(4) by (fastforce simp: events_of_def)
  have stored: "\<exists>v \<in> set (attempt_events d'). ev_attempt_id v = i \<and> ev_sequence v = ae_sequence e \<and>
      ev_kind v = ae_kind e \<and> ev_payload v = ae_payload e" if "e \<in> set (eb_events input)" for e
    using append_events_stored [OF tx that] find_event_Some by blast
  show ?thesis
    using above stored st(3) by (intro exI [of _ "map (event_row i (unix_milli now)) pending"])
      (auto simp: d' sorted_wrt_map event_row_def)
qed

text \<open>Delivery is idempotent: an accepted batch that is sent again under the same live lease is accepted again and
  stores nothing more.\<close>

theorem event_replay_changes_nothing:
  assumes "store_ok d" "append_events now d i input = (Inr (), d')"
    and "owns_lease d (unix_milli later) i (eb_lease_token input)"
  shows "append_events later d' i input = (Inr (), d')"
proof -
  obtain u where tx: "append_events_tx now d i input = Inr (u, d')"
    using assms(2) by (auto simp: append_events_def elim: committed_cases)
  obtain lease pending bytes where
    check: "check_events (-1) (eb_events input) = Inr ()" and lease: "load_lease d i = Inr lease"
    and verify: "verify_active_lease lease (eb_lease_token input) (unix_milli now) = Inr ()"
    and stage: "stage_events d i (max_sequence d i) (stored_bytes d i) (eb_events input) = Inr (pending, bytes)"
    and room: "bytes \<le> max_attempt_event_bytes"
    and d': "d' = d\<lparr>attempt_events := attempt_events d @ map (event_row i (unix_milli now)) pending\<rparr>"
    by (rule append_events_tx_Inr [OF tx])
  have "validate_token (eb_lease_token input) = Inr ()"
    using verify by (simp add: verify_active_lease_Inr validate_token_def)
  then have verify': "verify_active_lease lease (eb_lease_token input) (unix_milli later) = Inr ()"
    using owner_verifies [OF store_okD(1) [OF assms(1)] lease assms(3)] by blast
  have "stored_bytes d' i = bytes"
    using stage_events_Inr(2) [OF stage] by (simp add: stored_bytes_def d' events_of_append comp_def event_row_def)
  moreover have "stage_events d' i (max_sequence d' i) (stored_bytes d' i) (eb_events input) = Inr ([], stored_bytes d' i)"
    by (rule stage_events_replay) (use append_events_stored [OF tx] in blast)
  moreover have "load_lease d' i = Inr lease"
    using append_events_tables(4) [OF tx] lease by simp
  moreover have "\<not> (eb_events input = [] \<or> length (eb_events input) > max_events_per_batch)"
    "\<not> encoded_batch_size input > max_event_batch_bytes"
    using tx by (auto simp: append_events_tx_def split: if_splits)
  ultimately have "append_events_tx later d' i input = Inr ((), d')"
    using check verify' room by (simp add: append_events_tx_def Let_def)
  then show ?thesis by (simp add: append_events_def)
qed

definition demo_batch :: event_batch_request where
  "demo_batch = \<lparr>eb_lease_token = demo_token, eb_events =
     [\<lparr>ae_sequence = 0, ae_kind = ''m'', ae_payload = ''{}'', ae_server_time = ''0001-01-01T00:00:00Z''\<rparr>]\<rparr>"

lemma demo_batch_text:
  "json_valid ''{}''" "json_compact ''{}'' = ''{}''" "show_int 0 = ''0''"
  "map json_string [demo_token, ''m'', ''0001-01-01T00:00:00Z''] =
   map (\<lambda>s. dquote # s @ [dquote]) [demo_token, ''m'', ''0001-01-01T00:00:00Z'']"
  "map json_string [''lease_token'', ''events'', ''sequence'', ''kind'', ''payload'', ''server_time''] =
   map (\<lambda>s. dquote # s @ [dquote]) [''lease_token'', ''events'', ''sequence'', ''kind'', ''payload'', ''server_time'']"
  by code_simp+

lemma demo_batch_trim: "trim_space ''m'' = ''m''"
  by (rule trim_space_visible) (simp_all add: in_range_def byte_def)

lemma demo_batch_checked:
  "check_events (-1) (eb_events demo_batch) = Inr ()" "encoded_batch_size demo_batch \<le> max_event_batch_bytes"
  using demo_batch_text demo_batch_trim
  by (simp_all add: demo_batch_def protocol_limits encoded_batch_size_def encode_event_def json_object_def
      json_array_def json_field_def)

lemma demo_append:
  obtains d' where "append_events demo_now (demo_db AttemptRunning [] StageRunning StagePending) ''00000000-0000-4000-8000-00000000000a'' demo_batch = (Inr (), d')"
    "attempt_events d' = [event_row ''00000000-0000-4000-8000-00000000000a'' (unix_milli demo_now) (hd (eb_events demo_batch))]"
proof -
  let ?d = "demo_db AttemptRunning [] StageRunning StagePending" and ?i = "''00000000-0000-4000-8000-00000000000a''"
  have none: "attempt_events ?d = []" by (simp add: demo_db_def)
  have "verify_active_lease (lease_of (demo_run None) (demo_execution ExecutionRunning) (demo_attempt AttemptRunning))
      demo_token (unix_milli demo_now) = Inr ()"
    by (simp add: verify_active_lease_def demo_attempt_def is_active_def demo_now_def unix_milli_def)
  moreover have "stage_events ?d ?i (max_sequence ?d ?i) (stored_bytes ?d ?i) (eb_events demo_batch) = Inr (eb_events demo_batch, 2)"
    by (simp add: demo_batch_def find_event_def max_sequence_def stored_bytes_def events_of_def none)
  moreover have "eb_events demo_batch = [hd (eb_events demo_batch)]" "eb_lease_token demo_batch = demo_token"
    "length (eb_events demo_batch) = 1" by (simp_all add: demo_batch_def)
  ultimately have "append_events demo_now ?d ?i demo_batch =
      (Inr (), ?d\<lparr>attempt_events := attempt_events ?d @ map (event_row ?i (unix_milli demo_now)) (eb_events demo_batch)\<rparr>)"
    using demo_batch_checked
    by (simp add: append_events_def append_events_tx_def Let_def demo_load_lease protocol_limits not_less)
      (auto simp: demo_batch_def)
  then show thesis
    by (rule that) (simp add: none demo_batch_def)
qed

lemma events_are_append_only_witness:
  "\<exists>d' v. append_events demo_now (demo_db AttemptRunning [] StageRunning StagePending)
       ''00000000-0000-4000-8000-00000000000a'' demo_batch = (Inr (), d') \<and>
     v \<in> set (attempt_events d') \<and> ev_payload v = ''{}''"
proof -
  obtain d' where d': "append_events demo_now (demo_db AttemptRunning [] StageRunning StagePending)
      ''00000000-0000-4000-8000-00000000000a'' demo_batch = (Inr (), d')" by (rule demo_append)
  from events_are_append_only [OF this] have "\<exists>v \<in> set (attempt_events d'). ev_payload v = ''{}''"
    by (auto simp: demo_batch_def)
  with d' show ?thesis by blast
qed

lemma event_replay_changes_nothing_witness:
  "\<exists>d'. append_events demo_now (demo_db AttemptRunning [] StageRunning StagePending)
       ''00000000-0000-4000-8000-00000000000a'' demo_batch = (Inr (), d') \<and>
     append_events demo_now d' ''00000000-0000-4000-8000-00000000000a'' demo_batch = (Inr (), d')"
proof -
  let ?d = "demo_db AttemptRunning [] StageRunning StagePending"
  obtain d' where d': "append_events demo_now ?d ''00000000-0000-4000-8000-00000000000a'' demo_batch = (Inr (), d')"
    by (rule demo_append)
  have "owns_lease ?d (unix_milli demo_now) ''00000000-0000-4000-8000-00000000000a'' (eb_lease_token demo_batch)"
    by (simp add: demo_owns_lease is_active_def demo_now_def unix_milli_def demo_batch_def)
  moreover have "store_ok ?d" by (rule demo_db_ok) (simp add: is_active_def)
  ultimately show ?thesis using event_replay_changes_nothing [OF _ d'] d' by blast
qed

subsection \<open>Pages\<close>

text \<open>A client that follows the cursor of the event pages from the start, with any page size that the store accepts,
  reads every event of the Attempt exactly once, in the order of their sequence.\<close>

theorem event_pages_are_complete:
  assumes "events_ok d" "find_attempt d i = Some a" "1 \<le> limit" "limit \<le> 500"
  shows "follow_pages (Suc (length (events_of d i))) (\<lambda>after. projr (read_events d i after limit)) (-1) =
     sort_key vw_sequence (map scan_event (events_of d i))"
  using event_pages.pages_are_complete [of d i limit] assms by simp

lemma event_pages_are_complete_witness:
  "\<exists>d'. append_events demo_now (demo_db AttemptRunning [] StageRunning StagePending)
       ''00000000-0000-4000-8000-00000000000a'' demo_batch = (Inr (), d') \<and>
     map vw_payload (follow_pages 2 (\<lambda>after. projr (read_events d' ''00000000-0000-4000-8000-00000000000a'' after 1)) (-1)) = [''{}'']"
proof -
  let ?d = "demo_db AttemptRunning [] StageRunning StagePending" and ?i = "''00000000-0000-4000-8000-00000000000a''"
  obtain d' where d': "append_events demo_now ?d ?i demo_batch = (Inr (), d')"
      "attempt_events d' = [event_row ?i (unix_milli demo_now) (hd (eb_events demo_batch))]"
    by (rule demo_append)
  then obtain u where tx: "append_events_tx demo_now ?d ?i demo_batch = Inr (u, d')"
    by (auto simp: append_events_def elim: committed_cases)
  have "events_ok ?d" by (simp add: events_ok_def demo_db_def stored_bytes_def events_of_def)
  then have ok: "events_ok d'" by (rule append_events_events_ok [OF _ tx])
  have a: "find_attempt d' ?i = Some (demo_attempt AttemptRunning)"
    using append_events_tables(3) [OF tx] by (simp add: find_attempt_def) (simp add: demo_db_def demo_attempt_def)
  have one: "events_of d' ?i = [event_row ?i (unix_milli demo_now) (hd (eb_events demo_batch))]"
    by (simp add: events_of_def d'(2) event_row_def)
  have "Suc (length (events_of d' ?i)) = 2" by (simp add: one)
  have lim: "(1::int) \<le> 1" "(1::int) \<le> 500" by simp_all
  note pages = event_pages_are_complete [OF ok a lim, unfolded \<open>Suc (length (events_of d' ?i)) = 2\<close>]
  have "map vw_payload (follow_pages 2 (\<lambda>after. projr (read_events d' ?i after 1)) (-1)) = [''{}'']"
    unfolding pages one by (simp add: scan_event_def event_row_def demo_batch_def)
  with d'(1) show ?thesis by (intro exI conjI)
qed

subsection \<open>Semantic updates\<close>

text \<open>The history of a Work item only grows: an accepted report either changes no update, or adds exactly one, for an
  Attempt that has not reported its outcome yet, with a sequence above all updates of its Work.\<close>

theorem updates_are_append_only:
  assumes "j \<notin> wu_id ` set (work_updates d)" "append_agent_update now j d i input = (Inr u, d')"
  shows "work_updates d' = work_updates d \<or>
     work_updates d' = work_updates d @ [u] \<and> wu_attempt_id u = Some i \<and> attempt_outcome d i = None \<and>
     wu_message u = au_message input \<and>
     (\<forall>v \<in> set (work_updates d). wu_work_id v = wu_work_id u \<longrightarrow> wu_sequence v < wu_sequence u)"
proof -
  obtain r where r: "append_agent_update_tx now j d i input = Inr (r, d')"
    and reply: "(case r of Inl stored \<Rightarrow> Inr stored | Inr k \<Rightarrow> work_update_reply d' k) = Inr u"
    using assms(2) by (auto simp: append_agent_update_def elim: committed_cases)
  from r show ?thesis
  proof (cases rule: append_agent_update_tx_Inr)
    case (recorded lease status)
    from recorded(6) show ?thesis
    proof (cases rule: record_agent_update_Inr)
      case (fresh s)
      let ?u = "agent_update_row j (ss_id s) i (next_update_sequence d (ss_id s)) status input (unix_milli now)"
      have "find_update d j = None" using assms(1) by (auto simp: find_update_def find_None_set)
      then have "find_update d' j = Some ?u"
        by (simp add: find_update_def fresh(6) insert_agent_update_tables find_append agent_update_row_def)
      then have "u = ?u" using reply fresh(5) by (simp add: work_update_reply_def)
      then show ?thesis
        using fresh(3) next_update_sequence_above
        by (auto simp: fresh(6) insert_agent_update_tables agent_update_row_def)
    qed simp
  qed simp
qed

lemma append_agent_update_lease:
  assumes "append_agent_update_tx now j d i input = Inr (r, d')"
  shows "load_lease d' k = load_lease d k"
proof -
  note frame = append_agent_update_frame [OF assms]
  have "map_option ss_run_id (find_session d' x) = map_option ss_run_id (find_session d x)" for x
    using assms
  proof (cases rule: append_agent_update_tx_Inr)
    case (recorded lease status)
    from recorded(6) show ?thesis
    proof (cases rule: record_agent_update_Inr)
      case (fresh s)
      show ?thesis
        by (simp add: fresh(6) find_session_def insert_agent_update_tables find_update_where option.map_comp comp_def
            if_distrib cong: if_cong)
    qed (simp add: find_session_def)
  qed simp
  then show ?thesis
    by (auto simp: load_lease_def find_attempt_def find_execution_def find_run_def frame split: option.splits)
      (metis map_option_eq_Some option.simps(3) option.inject)+
qed

text \<open>A report is recorded at most once: the same request sent again, at any later time and without repeating the
  evidence the Worker had collected, is answered with the update that was recorded and changes nothing.\<close>

theorem update_replay_returns_the_original:
  assumes "history_ok d" "reports_ok d" "j \<notin> wu_id ` set (work_updates d)"
    and "append_agent_update now j d i input = (Inr u, d')"
    and "au_lease_token again = au_lease_token input" "au_request_id again = au_request_id input"
    and "au_status again = au_status input" "au_message again = au_message input"
    and "au_pull_request_url again = au_pull_request_url input" "check_agent_update i again = Inr status"
  shows "append_agent_update later k d' i again = (Inr u, d')"
proof -
  obtain r where r: "append_agent_update_tx now j d i input = Inr (r, d')"
    using assms(4) by (auto simp: append_agent_update_def elim: committed_cases)
  then obtain lease where lease: "load_lease d i = Inr lease" "ls_digest lease = digest_token (au_lease_token input)"
    by (auto simp: append_agent_update_tx_def and_then_Inr Let_def equal_digest_def split: if_splits)
  have "agent_update_request_digest again = agent_update_request_digest input"
    using assms(6-9) by (simp add: agent_update_request_digest_def)
  then show ?thesis
    using append_agent_update_stored [OF assms(3,2,1,4)] append_agent_update_lease [OF r] lease assms(5,6,10)
    by (intro stored_request_replays) simp_all
qed

subsection \<open>Continuation\<close>

text \<open>C15. The prompt of a continued Work item always fits the 72 KiB of an agent prompt and always begins with the whole
  mandatory context; it is refused only when that context without any history is already too long.\<close>

theorem continuation_prompt_is_bounded:
  "(case assemble_continuation_prompt st history of
      Inr prompt \<Rightarrow> agent_update_prompt_fits (co_title st) (co_repository st) (co_publish_branch st) prompt \<and>
        prefix (mandatory_context st) prompt
    | Inl err \<Rightarrow> err = continuation_too_large \<and>
        max_agent_prompt_bytes < length (format_agent_update_prompt (co_title st) (co_repository st) max_branch max_branch
          (co_publish_branch st)
          (continuation_with_history (mandatory_context st) (map encode_history history) (\<lambda>_. None))))"
  using assemble_continuation_prompt_cases [of st history]
  by (auto simp: agent_update_prompt_fits_def not_le split: sum.splits if_splits)

subsection \<open>A progress report of the example\<close>

definition demo_report :: attempt_update_request where
  "demo_report = \<lparr>au_lease_token = demo_token, au_replay_only = False,
     au_request_id = ''00000000-0000-4000-8000-00000000000b'', au_status = ''running'', au_message = ''ok'',
     au_pull_request_url = '''', au_pull_request_head_branch = '''', au_pull_request_head_sha = '''',
     au_checkpoint_sha = '''', au_checkpoint_published = False\<rparr>"

lemma demo_report_text:
  "valid_uuid ''00000000-0000-4000-8000-00000000000a''" "valid_uuid ''00000000-0000-4000-8000-00000000000b''"
  "utf8_valid ''ok''"
  by code_simp+

lemma demo_report_trim: "trim_space ''ok'' = ''ok''"
  by (rule trim_space_visible) (simp_all add: in_range_def byte_def)

lemma demo_report_checked:
  "check_agent_update ''00000000-0000-4000-8000-00000000000a'' demo_report = Inr WorkUpdateRunning"
  by (simp add: check_agent_update_def demo_report_def demo_report_text demo_report_trim work_update_status_of_def update_limit_def
      protocol_limits check_delivery_evidence_def check_checkpoint_def)

lemma demo_reports:
  obtains u d' where "append_agent_update demo_now ''update-2'' (demo_db AttemptRunning [] StageRunning StagePending)
      ''00000000-0000-4000-8000-00000000000a'' demo_report = (Inr u, d')"
    "work_updates d' = [u]" "wu_message u = ''ok''"
proof -
  let ?d = "demo_db AttemptRunning [] StageRunning StagePending" and ?i = "''00000000-0000-4000-8000-00000000000a''"
  let ?lease = "lease_of (demo_run None) (demo_execution ExecutionRunning) (demo_attempt AttemptRunning)"
  let ?u = "agent_update_row ''update-2'' ''work-1'' ?i 1 WorkUpdateRunning demo_report (unix_milli demo_now)"
  let ?d' = "insert_agent_update (unix_milli demo_now) ''update-2'' ''work-1'' ?i 1 WorkUpdateRunning demo_report ?d"
  have none: "agent_update_requests ?d = []" "work_updates ?d = []" by (simp_all add: demo_db_def)
  have verify: "verify_active_lease ?lease demo_token (unix_milli demo_now) = Inr ()"
    by (simp add: verify_active_lease_def demo_attempt_def is_active_def demo_now_def unix_milli_def)
  have session: "execution_session ?d ''execution-1'' = Some ''work-1''"
    "find_session ?d ''work-1'' = Some (demo_session ''work-1'' 0 SessionRunning ExecutionOwnerWorkerAttempt)"
    by (simp add: execution_session_def) (simp add: demo_execution_def,
      simp add: find_session_def demo_db_def demo_session_def)
  have "record_agent_update (unix_milli demo_now) ''update-2'' ?d ?i ?lease WorkUpdateRunning demo_report = Inr (Inr ''update-2'', ?d')"
    using session
    by (simp add: record_agent_update_def demo_attempt_def demo_execution_def demo_run_def demo_session_def Let_def
        attempt_outcome_def progress_count_def next_update_sequence_def none protocol_limits)
  then have tx: "append_agent_update_tx demo_now ''update-2'' ?d ?i demo_report = Inr (Inr ''update-2'', ?d')"
    using verify
    by (simp add: append_agent_update_tx_def demo_report_checked demo_load_lease Let_def stored_agent_update_request_def
        find_update_request_def none equal_digest_def)
      (simp add: demo_report_def demo_attempt_def)
  have one: "work_updates ?d' = [?u]" by (simp add: insert_agent_update_tables none)
  then have reply: "append_agent_update demo_now ''update-2'' ?d ?i demo_report = (Inr ?u, ?d')"
    by (simp add: append_agent_update_def tx work_update_reply_def find_update_def agent_update_row_def)
  show thesis by (rule that [OF reply one]) (simp add: agent_update_row_def demo_report_def)
qed

lemma updates_are_append_only_witness:
  "\<exists>u d'. append_agent_update demo_now ''update-2'' (demo_db AttemptRunning [] StageRunning StagePending)
      ''00000000-0000-4000-8000-00000000000a'' demo_report = (Inr u, d') \<and>
     wu_attempt_id u = Some ''00000000-0000-4000-8000-00000000000a''"
proof -
  let ?d = "demo_db AttemptRunning [] StageRunning StagePending"
  obtain u d' where d': "append_agent_update demo_now ''update-2'' ?d
      ''00000000-0000-4000-8000-00000000000a'' demo_report = (Inr u, d')" "work_updates d' = [u]"
    by (rule demo_reports)
  have "work_updates ?d = []" by (simp add: demo_db_def)
  with updates_are_append_only [OF _ d'(1)] d'(2)
  have "wu_attempt_id u = Some ''00000000-0000-4000-8000-00000000000a''" by simp
  with d'(1) show ?thesis by (intro exI conjI)
qed

lemma update_replay_returns_the_original_witness:
  "\<exists>u d'. append_agent_update demo_now ''update-2'' (demo_db AttemptRunning [] StageRunning StagePending)
      ''00000000-0000-4000-8000-00000000000a'' demo_report = (Inr u, d') \<and>
     append_agent_update 0 ''update-3'' d' ''00000000-0000-4000-8000-00000000000a'' demo_report = (Inr u, d')"
proof -
  let ?d = "demo_db AttemptRunning [] StageRunning StagePending"
  obtain u d' where d': "append_agent_update demo_now ''update-2'' ?d
      ''00000000-0000-4000-8000-00000000000a'' demo_report = (Inr u, d')"
    by (rule demo_reports)
  have "work_updates ?d = []" "reports_ok ?d" by (simp_all add: reports_ok_def demo_db_def)
  then have "append_agent_update 0 ''update-3'' d' ''00000000-0000-4000-8000-00000000000a'' demo_report = (Inr u, d')"
    by (intro update_replay_returns_the_original [OF _ _ _ d' refl refl refl refl refl demo_report_checked]) simp_all
  with d' show ?thesis by (intro exI conjI)
qed

end
