(* ===== verification/Routing.thy ===== *)
theory Routing
  imports Store_Invariant Identity
begin

text \<open>
  Routing of Work to a Worker (store.go): which repository and which Workers are eligible, the choice of
  the least loaded one, and the reservation of the repository on it (\<^verbatim>\<open>selectRunRoute\<close>,
  \<^verbatim>\<open>selectSessionRoute\<close>). Admission, retry, the answer of a question and the claim all place Work
  through it, and the locale \<open>placement\<close> states what they may rely on.
\<close>

subsection \<open>Runtimes and source access of a Worker\<close>

record run_route =
  rr_repository_remote_identity :: string
  rr_source_access :: source_access

record route_candidate =
  rc_worker_id :: ident
  rc_repository_id :: ident
  rc_runtime :: string
  rc_capacity :: nat
  rc_load :: nat
  rc_repository_advertised :: bool
  rc_accepts_managed_repositories :: bool

definition runtime_capability_ready :: "capability list \<Rightarrow> string \<Rightarrow> bool" where
  "runtime_capability_ready capabilities runtime \<longleftrightarrow>
     list_ex (\<lambda>c. cap_kind c = capability_kind_runtime \<and> cap_name c = runtime \<and> cap_status c = capability_ready)
       capabilities"

definition preferred_ready_runtime :: "string \<Rightarrow> capability list \<Rightarrow> string" where
  "preferred_ready_runtime primary capabilities =
     (if capabilities = [] then primary
      else if runtime_capability_ready capabilities primary then primary
      else case find (\<lambda>c. cap_kind c = capability_kind_runtime \<and> cap_status c = capability_ready) capabilities of
             Some c \<Rightarrow> cap_name c
           | None \<Rightarrow> '''')"

definition github_access :: source_access where
  "github_access = \<lparr>sa_provider = ''github'', sa_hostname = ''github.com''\<rparr>"

definition local_access :: source_access where
  "local_access = \<lparr>sa_provider = ''local'', sa_hostname = ''localhost''\<rparr>"

definition has_source_access :: "source_access list \<Rightarrow> source_access \<Rightarrow> bool" where
  "has_source_access entries required \<longleftrightarrow> list_ex (\<lambda>entry. entry = required) entries"

definition normalize_run_route :: "run_route \<Rightarrow> run_route result" where
  "normalize_run_route route =
     (let remote = normalize_remote (rr_repository_remote_identity route) in
      and_then (normalize_source_access [rr_source_access route]) (\<lambda>entries.
        if remote = [] \<or> length remote > 2048
        then Inl (invalid ''invalid_route'' ''route repository_remote_identity is required and must be at most 2048 bytes'')
        else if hd entries = github_access then
          (case normalize_managed_github_remote remote of
             Inl _ \<Rightarrow> Inl (invalid ''invalid_route''
               ''GitHub route repository_remote_identity must use github.com/owner/repository'')
           | Inr canonical \<Rightarrow>
               Inr \<lparr>rr_repository_remote_identity = canonical, rr_source_access = hd entries\<rparr>)
        else Inr \<lparr>rr_repository_remote_identity = remote, rr_source_access = hd entries\<rparr>))"

definition better_route :: "route_candidate \<Rightarrow> route_candidate \<Rightarrow> bool" where
  "better_route candidate current \<longleftrightarrow>
     (let left = rc_load candidate * rc_capacity current; right = rc_load current * rc_capacity candidate in
      left < right \<or> left = right \<and> rc_worker_id candidate < rc_worker_id current)"

subsection \<open>Eligibility\<close>

text \<open>The columns and subqueries of the candidate query, one definition each.\<close>

definition advertised_row :: "db \<Rightarrow> ident \<Rightarrow> ident \<Rightarrow> bool" where
  "advertised_row d w r = (case find_worker_repository d w r of None \<Rightarrow> False | Some x \<Rightarrow> wr_advertised x)"

definition display_key_conflict :: "db \<Rightarrow> ident \<Rightarrow> string \<Rightarrow> ident \<Rightarrow> bool" where
  "display_key_conflict d w key r \<longleftrightarrow>
     list_ex (\<lambda>x. wr_worker_id x = w \<and> wr_display_key x = key \<and> wr_repository_id x \<noteq> r) (worker_repositories d)"

definition cache_use :: "db \<Rightarrow> worker \<Rightarrow> nat" where
  "cache_use d w = length (wk_managed_repository_ids w) +
     count_where (\<lambda>x. wr_worker_id x = wk_id w \<and> wr_dynamic x \<and> wr_advertised x \<and>
        wr_repository_id x \<notin> set (wk_managed_repository_ids w)) (worker_repositories d)"

definition attempt_uses_repository :: "db \<Rightarrow> ident \<Rightarrow> ident \<Rightarrow> attempt \<Rightarrow> bool" where
  "attempt_uses_repository d w r a \<longleftrightarrow> at_worker_id a = w \<and>
     (case attempt_session d a of None \<Rightarrow> False | Some s \<Rightarrow> ss_repository_id s = r)"

definition retention_use :: "db \<Rightarrow> ident \<Rightarrow> ident \<Rightarrow> nat" where
  "retention_use d w r =
     (case find_worker_repository d w r of None \<Rightarrow> 0 | Some x \<Rightarrow> wr_retained_count x) +
     count_where (\<lambda>a. attempt_uses_repository d w r a \<and> is_active (at_state a)) (attempts d) +
     count_where (\<lambda>a. attempt_uses_repository d w r a \<and> is_terminal (at_state a) \<and> \<not> at_capacity_acknowledged a)
       (attempts d)"

definition queued_count :: "db \<Rightarrow> ident \<Rightarrow> nat" where
  "queued_count d w = count_where (\<lambda>e. ex_assigned_worker_id e = w \<and> ex_state e = ExecutionQueued) (executions d)"

definition route_repository :: "db \<Rightarrow> run_route \<Rightarrow> ident \<Rightarrow> bool \<Rightarrow> repository option" where
  "route_repository d route selected allow_static =
     find (\<lambda>r.
       (if selected \<noteq> [] then rp_id r = selected
        else if rr_source_access route = github_access
        then to_lower_ascii (rp_remote_identity r) = to_lower_ascii (rr_repository_remote_identity route)
        else rp_remote_identity r = rr_repository_remote_identity route) \<and>
       (rp_enabled r \<or> allow_static \<and>
        list_ex (\<lambda>x. wr_repository_id x = rp_id r \<and> wr_advertised x \<and> \<not> wr_dynamic x) (worker_repositories d)))
       (repositories d)"

definition worker_eligible ::
    "db \<Rightarrow> millis \<Rightarrow> ident \<Rightarrow> bool \<Rightarrow> string \<Rightarrow> ident \<Rightarrow> worker \<Rightarrow> bool" where
  "worker_eligible d now worker_id require_advertised display_key repository_id w \<longleftrightarrow>
     (let advertised = advertised_row d (wk_id w) repository_id in
      wk_health w = Healthy \<and> \<not> wk_synthetic w \<and> wk_claim_protocol_version w = claim_protocol_version \<and>
      now - worker_online_window \<le> wk_last_heartbeat w \<and>
      (worker_id = [] \<or> wk_id w = worker_id) \<and>
      (\<not> require_advertised \<or> advertised) \<and>
      (advertised \<or> \<not> display_key_conflict d (wk_id w) display_key repository_id) \<and>
      (advertised \<or> wk_accepts_managed_repositories w \<and>
        (repository_id \<in> set (wk_managed_repository_ids w) \<or> cache_use d w < max_repository_cache_entries)) \<and>
      retention_use d (wk_id w) repository_id < max_retained_per_repo)"

text \<open>The body of the loop over the rows: \<open>None\<close> is \<^verbatim>\<open>continue\<close>.\<close>

definition route_candidate_of ::
    "db \<Rightarrow> run_route \<Rightarrow> bool \<Rightarrow> bool \<Rightarrow> string \<Rightarrow> ident \<Rightarrow> worker \<Rightarrow> route_candidate option" where
  "route_candidate_of d route require_source_access allow_static required_runtime repository_id w =
     (let advertised = advertised_row d (wk_id w) repository_id;
          runtime = (if required_runtime = [] then preferred_ready_runtime (wk_runtime w) (wk_capabilities w)
                     else required_runtime) in
      if wk_capabilities w \<noteq> [] \<and> \<not> runtime_capability_ready (wk_capabilities w) runtime then None
      else if require_source_access \<and> \<not> (allow_static \<and> advertised) \<and>
              \<not> has_source_access (wk_source_access w) (rr_source_access route) then None
      else Some \<lparr>rc_worker_id = wk_id w, rc_repository_id = repository_id, rc_runtime = runtime,
             rc_capacity = wk_capacity w, rc_load = wk_active_count w + queued_count d (wk_id w),
             rc_repository_advertised = advertised,
             rc_accepts_managed_repositories = wk_accepts_managed_repositories w\<rparr>)"

definition route_candidates ::
    "db \<Rightarrow> run_route \<Rightarrow> millis \<Rightarrow> bool \<Rightarrow> bool \<Rightarrow> ident \<Rightarrow> string \<Rightarrow> bool \<Rightarrow> string \<Rightarrow> ident \<Rightarrow> route_candidate list" where
  "route_candidates d route now require_source_access allow_static worker_id required_runtime require_advertised
       display_key repository_id =
     List.map_filter (route_candidate_of d route require_source_access allow_static required_runtime repository_id)
       (filter (worker_eligible d now worker_id require_advertised display_key repository_id)
         (sort_key wk_id (workers d)))"

text \<open>The choice among the candidates: the loop keeps the best one it has seen.\<close>

fun choose_route :: "route_candidate option \<Rightarrow> route_candidate list \<Rightarrow> route_candidate option" where
  "choose_route best [] = best"
| "choose_route best (candidate # candidates) =
     choose_route
       (case best of
          None \<Rightarrow> Some candidate
        | Some current \<Rightarrow> if better_route candidate current then Some candidate else Some current) candidates"

text \<open>The upsert of the dynamic row: \<^verbatim>\<open>ON CONFLICT(worker_id, repository_id) DO UPDATE\<close>.\<close>

definition reserve_repository :: "millis \<Rightarrow> ident \<Rightarrow> ident \<Rightarrow> string \<Rightarrow> db \<Rightarrow> db" where
  "reserve_repository now worker_id repository_id display_key d = d\<lparr>worker_repositories :=
     (if find_worker_repository d worker_id repository_id = None
      then worker_repositories d @ [\<lparr>wr_worker_id = worker_id, wr_display_key = display_key,
             wr_repository_id = repository_id, wr_worker_remote_identity = display_key, wr_retained_count = 0,
             wr_advertised = True, wr_dynamic = True, wr_updated_at = now\<rparr>]
      else update_where (\<lambda>x. wr_worker_id x = worker_id \<and> wr_repository_id x = repository_id)
             (\<lambda>x. x\<lparr>wr_display_key := display_key, wr_worker_remote_identity := display_key,
                wr_advertised := True, wr_dynamic := True, wr_updated_at := now\<rparr>) (worker_repositories d))\<rparr>"

definition no_eligible_worker :: "bool \<Rightarrow> service_error" where
  "no_eligible_worker require_source_access = conflict ''no_eligible_worker''
     (if require_source_access
      then ''no healthy online worker can acquire the repository and access its source provider''
      else ''no healthy online worker can acquire the repository'')"

definition repository_not_managed :: service_error where
  "repository_not_managed = conflict ''repository_not_managed''
     ''repository is not enabled in the control-plane managed repository catalog''"

definition route_display_key :: "run_route \<Rightarrow> repository \<Rightarrow> string" where
  "route_display_key route r =
     (let remote = (if rr_repository_remote_identity route = [] then rp_remote_identity r
                    else rr_repository_remote_identity route) in
      case normalize_managed_github_remote remote of Inr canonical \<Rightarrow> canonical | Inl _ \<Rightarrow> remote)"

definition select_run_route ::
    "db \<Rightarrow> run_route \<Rightarrow> ident \<Rightarrow> millis \<Rightarrow> bool \<Rightarrow> bool \<Rightarrow> ident \<Rightarrow> string \<Rightarrow> (route_candidate \<times> db) result" where
  "select_run_route d route selected now require_source_access allow_static worker_id required_runtime =
     (case route_repository d route selected allow_static of
        None \<Rightarrow> Inl repository_not_managed
      | Some r \<Rightarrow>
          let display_key = route_display_key route r;
              require_advertised = (allow_static \<and> (\<not> rp_enabled r \<or> rr_source_access route \<noteq> github_access)) in
          case choose_route None (route_candidates d route now require_source_access allow_static worker_id
                 required_runtime require_advertised display_key (rp_id r)) of
            None \<Rightarrow> Inl (no_eligible_worker require_source_access)
          | Some best \<Rightarrow>
              if rc_repository_advertised best then Inr (best, d)
              else if \<not> rc_accepts_managed_repositories best then Inl unavailable
              else Inr (best, reserve_repository now (rc_worker_id best) (rp_id r) display_key d))"

definition session_identity :: "repository \<Rightarrow> string \<Rightarrow> string" where
  "session_identity r identity = (if identity = [] then rp_remote_identity r else identity)"

definition session_requires_github :: "repository \<Rightarrow> string \<Rightarrow> bool" where
  "session_requires_github r identity \<longleftrightarrow>
     rp_centrally_managed r \<and> is_managed_github_remote (session_identity r identity)"

definition session_run_route :: "repository \<Rightarrow> string \<Rightarrow> run_route result" where
  "session_run_route r identity = normalize_run_route
     \<lparr>rr_repository_remote_identity = session_identity r identity,
      rr_source_access = (if session_requires_github r identity then github_access else local_access)\<rparr>"

definition select_session_route ::
    "db \<Rightarrow> ident \<Rightarrow> string \<Rightarrow> millis \<Rightarrow> ident \<Rightarrow> string \<Rightarrow> (route_candidate \<times> db) result" where
  "select_session_route d repository_id repository_identity now worker_id required_runtime =
     (case find_repository d repository_id of
        None \<Rightarrow> Inl (conflict ''repository_not_available''
                  ''repository is not configured on a Worker or enabled for managed acquisition'')
      | Some r \<Rightarrow>
          if rp_centrally_managed r \<and> \<not> rp_enabled r then Inl repository_not_managed
          else
            and_then (session_run_route r repository_identity) (\<lambda>route.
              select_run_route d route repository_id now (session_requires_github r repository_identity) True
                worker_id required_runtime))"

subsection \<open>The choice among candidates\<close>

lemma better_route_irrefl: "\<not> better_route c c"
  by (simp add: better_route_def)

lemma better_route_trans:
  assumes "better_route a b" "better_route b c" "0 < rc_capacity a" "0 < rc_capacity b" "0 < rc_capacity c"
  shows "better_route a c"
proof -
  let ?la = "rc_load a" and ?lb = "rc_load b" and ?lc = "rc_load c"
  let ?ca = "rc_capacity a" and ?cb = "rc_capacity b" and ?cc = "rc_capacity c"
  have ab: "?la * ?cb \<le> ?lb * ?ca" and bc: "?lb * ?cc \<le> ?lc * ?cb"
    using assms(1,2) by (auto simp: better_route_def Let_def)
  have "?la * ?cb * ?cc \<le> ?lb * ?ca * ?cc" "?lb * ?cc * ?ca \<le> ?lc * ?cb * ?ca"
    using ab bc by (simp_all add: mult_le_mono1)
  then have chain: "(?la * ?cc) * ?cb \<le> (?lb * ?ca) * ?cc" "(?lb * ?ca) * ?cc \<le> (?lc * ?ca) * ?cb"
    by (simp_all add: mult_ac)
  then have le: "?la * ?cc \<le> ?lc * ?ca" using assms(4) by (meson le_trans mult_le_cancel2)
  show ?thesis
  proof (cases "?la * ?cc = ?lc * ?ca")
    case True
    with chain have eq: "(?la * ?cc) * ?cb = (?lb * ?ca) * ?cc" "(?lb * ?ca) * ?cc = (?lc * ?ca) * ?cb" by auto
    have "(?la * ?cb) * ?cc = (?lb * ?ca) * ?cc" "(?lb * ?cc) * ?ca = (?lc * ?cb) * ?ca"
      using eq by (metis mult.assoc mult.commute)+
    then have "?la * ?cb = ?lb * ?ca" "?lb * ?cc = ?lc * ?cb" using assms(3,5) by (metis mult_cancel2 not_less_zero)+
    then have "rc_worker_id a < rc_worker_id b" "rc_worker_id b < rc_worker_id c"
      using assms(1,2) by (auto simp: better_route_def Let_def)
    with True show ?thesis by (auto simp: better_route_def Let_def)
  next
    case False
    with le show ?thesis by (auto simp: better_route_def Let_def)
  qed
qed

lemma better_route_total:
  "rc_worker_id a \<noteq> rc_worker_id b \<Longrightarrow> better_route a b \<or> better_route b a"
  by (auto simp: better_route_def Let_def)

lemma better_route_asym: "better_route a b \<Longrightarrow> \<not> better_route b a"
  by (auto simp: better_route_def Let_def)

text \<open>The candidate that the loop ends with is better than every other one it has seen.\<close>

lemma choose_route_best:
  assumes "choose_route best cs = Some b" "distinct (map rc_worker_id (case best of None \<Rightarrow> cs | Some x \<Rightarrow> x # cs))"
    and "\<And>x. x \<in> set cs \<Longrightarrow> 0 < rc_capacity x" "\<And>x. best = Some x \<Longrightarrow> 0 < rc_capacity x"
  shows "b \<in> set (case best of None \<Rightarrow> cs | Some x \<Rightarrow> x # cs) \<and>
     (\<forall>c \<in> set (case best of None \<Rightarrow> cs | Some x \<Rightarrow> x # cs). c \<noteq> b \<longrightarrow> better_route b c)"
  using assms
proof (induction cs arbitrary: best)
  case Nil
  then show ?case by auto
next
  case (Cons c cs)
  define now where "now = (case best of None \<Rightarrow> c | Some x \<Rightarrow> if better_route c x then c else x)"
  have step: "choose_route (Some now) cs = Some b"
    using Cons.prems(1) by (cases best) (auto simp: now_def split: if_splits)
  have pos: "0 < rc_capacity now" using Cons.prems(3,4) by (cases best) (auto simp: now_def)
  have "distinct (map rc_worker_id (now # cs))"
    using Cons.prems(2) by (cases best) (auto simp: now_def)
  then have ih: "b \<in> set (now # cs)" "\<forall>x \<in> set (now # cs). x \<noteq> b \<longrightarrow> better_route b x"
    using Cons.IH [of "Some now"] step pos Cons.prems(3) by auto
  have "better_route b x" if x: "best = Some x" "x \<noteq> b" for x
  proof (cases "now = x")
    case True
    with ih x show ?thesis by auto
  next
    case False
    then have "now = c" "better_route c x" using x by (auto simp: now_def split: if_splits)
    moreover have "b = c \<or> better_route b c" using ih(2) \<open>now = c\<close> by auto
    moreover have "0 < rc_capacity b"
      using ih(1) pos Cons.prems(3) by auto
    ultimately show ?thesis using better_route_trans [of b c x] Cons.prems(3,4) x by auto
  qed
  moreover have "better_route b c" if "c \<noteq> b"
  proof (cases "now = c")
    case True
    with ih that show ?thesis by auto
  next
    case False
    then obtain x where x: "best = Some x" "now = x" "\<not> better_route c x"
      by (cases best) (auto simp: now_def split: if_splits)
    then have "better_route x c" using better_route_total [of x c] Cons.prems(2) by auto
    moreover have "b = x \<or> better_route b x" using ih(2) x(2) by auto
    moreover have "0 < rc_capacity b" using ih(1) pos Cons.prems(3) by auto
    ultimately show ?thesis using better_route_trans [of b x c] Cons.prems(3,4) x by auto
  qed
  moreover have "b \<in> set (case best of None \<Rightarrow> c # cs | Some x \<Rightarrow> x # c # cs)"
    using ih(1) by (cases best) (auto simp: now_def split: if_splits)
  ultimately show ?case using ih(2) by (cases best) auto
qed

lemma choose_route_None: "choose_route best cs = None \<longleftrightarrow> best = None \<and> cs = []"
  by (induction cs arbitrary: best) (auto split: option.splits)

text \<open>So the order in which the rows are read does not matter.\<close>

lemma choose_route_order:
  assumes "set cs = set cs'" "distinct (map rc_worker_id cs)" "distinct (map rc_worker_id cs')"
    and "\<And>x. x \<in> set cs \<Longrightarrow> 0 < rc_capacity x"
  shows "choose_route None cs = choose_route None cs'"
proof (cases "choose_route None cs")
  case None
  with assms(1) show ?thesis by (auto simp: choose_route_None)
next
  case (Some b)
  have "choose_route None cs' \<noteq> None" using Some assms(1) by (auto simp: choose_route_None)
  then obtain c where c: "choose_route None cs' = Some c" by auto
  have b: "b \<in> set cs" "\<And>x. x \<in> set cs \<Longrightarrow> x \<noteq> b \<Longrightarrow> better_route b x"
    using choose_route_best [OF Some] assms(2,4) by simp_all
  have "c \<in> set cs'" "\<And>x. x \<in> set cs' \<Longrightarrow> x \<noteq> c \<Longrightarrow> better_route c x"
    using choose_route_best [OF c] assms(1,3,4) by simp_all
  then have "b = c" using b assms(1) better_route_asym [of b c] by (cases "b = c") simp_all
  with Some c show ?thesis by simp
qed

subsection \<open>What a route establishes\<close>

definition workers_ok :: "db \<Rightarrow> bool" where
  "workers_ok d \<longleftrightarrow> distinct (map wk_id (workers d)) \<and> list_all (\<lambda>w. 1 \<le> wk_capacity w) (workers d)"

lemma distinct_map_filter_option:
  "distinct (map k xs) \<Longrightarrow> (\<And>x y. f x = Some y \<Longrightarrow> g y = k x) \<Longrightarrow> distinct (map g (List.map_filter f xs))"
  by (induction xs) (auto simp: List.map_filter_simps map_filter_def split: option.splits)

lemma route_candidate_of_Some:
  assumes "route_candidate_of d route access allow runtime i w = Some c"
  shows "rc_worker_id c = wk_id w" "rc_capacity c = wk_capacity w" "rc_repository_id c = i"
    "rc_load c = wk_active_count w + queued_count d (wk_id w)"
    "rc_repository_advertised c = advertised_row d (wk_id w) i"
    "rc_accepts_managed_repositories c = wk_accepts_managed_repositories w"
  using assms by (auto simp: route_candidate_of_def Let_def split: if_splits)

lemma set_route_candidates:
  "c \<in> set (route_candidates d route now access allow worker runtime adv key i) \<longleftrightarrow>
   (\<exists>w \<in> set (workers d). worker_eligible d now worker adv key i w \<and>
      route_candidate_of d route access allow runtime i w = Some c)"
  unfolding route_candidates_def map_filter_def by (force simp: image_iff)

lemma distinct_route_candidates:
  assumes "distinct (map wk_id (workers d))"
  shows "distinct (map rc_worker_id (route_candidates d route now access allow worker runtime adv key i))"
proof -
  have "distinct (map wk_id (sort_key wk_id (workers d)))"
    using assms by (simp add: distinct_map)
  then show ?thesis
    unfolding route_candidates_def
    by (intro distinct_map_filter_option [where k = wk_id] distinct_map_filter_key)
      (assumption, erule route_candidate_of_Some(1))
qed

text \<open>What a successful route has established about the Worker it names.\<close>

lemma select_run_route_Inr:
  assumes "select_run_route d route selected now access allow worker runtime = Inr (c, d')"
  obtains r where "route_repository d route selected allow = Some r"
    "choose_route None (route_candidates d route now access allow worker runtime
       (allow \<and> (\<not> rp_enabled r \<or> rr_source_access route \<noteq> github_access)) (route_display_key route r) (rp_id r)) = Some c"
    "d' = (if rc_repository_advertised c then d
           else reserve_repository now (rc_worker_id c) (rp_id r) (route_display_key route r) d)"
    "rc_repository_advertised c \<or> rc_accepts_managed_repositories c"
  using assms by (auto simp: select_run_route_def Let_def split: option.splits if_splits)

lemma select_session_route_Inr:
  assumes "select_session_route d i identity now worker runtime = Inr (c, d')"
  obtains r route where "find_repository d i = Some r" "\<not> (rp_centrally_managed r \<and> \<not> rp_enabled r)"
    "session_run_route r identity = Inr route"
    "select_run_route d route i now
       (session_requires_github r identity)
       True worker runtime = Inr (c, d')"
  using assms by (auto simp: select_session_route_def Let_def and_then_Inr split: option.splits if_splits)

text \<open>
  The interface that admission, retry, the answer of a question and the claim rely on: a placement names a
  Worker and changes only the reservations of repositories.
\<close>

locale placement =
  fixes place :: "db \<Rightarrow> 'p \<Rightarrow> (route_candidate \<times> db) result"
  assumes place_reserves: "place d p = Inr (c, d') \<Longrightarrow> d' = d\<lparr>worker_repositories := worker_repositories d'\<rparr>"
    and place_names_worker: "place d p = Inr (c, d') \<Longrightarrow> find_worker d (rc_worker_id c) \<noteq> None"
begin

lemma place_tables:
  assumes "place d p = Inr (c, d')"
  shows "runs d' = runs d" "sessions d' = sessions d" "executions d' = executions d" "attempts d' = attempts d"
    "session_stages d' = session_stages d" "work_updates d' = work_updates d" "workers d' = workers d"
    "repositories d' = repositories d" "agent_update_requests d' = agent_update_requests d"
    "attempt_events d' = attempt_events d" "work_answers d' = work_answers d" "claim_requests d' = claim_requests d"
    "task_rows d' = task_rows d" "task_repositories d' = task_repositories d" "pipelines d' = pipelines d"
    "pipeline_stages d' = pipeline_stages d" "workflow_catalogs d' = workflow_catalogs d"
    "workflow_entries d' = workflow_entries d"
  by (subst place_reserves [OF assms]; simp)+

lemma place_store_ok: "place d p = Inr (c, d') \<Longrightarrow> store_ok d \<Longrightarrow> store_ok d'"
  by (rule store_ok_frame) (simp_all add: place_tables)

lemma place_lookups:
  assumes "place d p = Inr (c, d')"
  shows "find_run d' i = find_run d i" "find_session d' i = find_session d i" "find_execution d' i = find_execution d i"
    "find_attempt d' i = find_attempt d i" "find_worker d' i = find_worker d i" "find_repository d' i = find_repository d i"
    "session_execution_row d' i = session_execution_row d i" "execution_session d' i = execution_session d i"
    "run_session_count P d' i = run_session_count P d i"
  by (simp_all add: find_run_def find_session_def find_execution_def find_attempt_def find_worker_def
      find_repository_def session_execution_row_def execution_session_def run_session_count_def place_tables [OF assms])

end

lemma select_session_route_reserves:
  assumes "select_session_route d i identity now worker runtime = Inr (c, d')"
  shows "d' = d\<lparr>worker_repositories := worker_repositories d'\<rparr>"
proof -
  obtain r route where "find_repository d i = Some r" "\<not> (rp_centrally_managed r \<and> \<not> rp_enabled r)"
    "session_run_route r identity = Inr route"
    "select_run_route d route i now
       (session_requires_github r identity)
       True worker runtime = Inr (c, d')"
    by (rule select_session_route_Inr [OF assms])
  from this(4) show ?thesis
    by (rule select_run_route_Inr) (simp add: reserve_repository_def)
qed

lemma chosen_candidate:
  assumes "choose_route None (route_candidates d route now access allow worker runtime adv key i) = Some c"
    and "workers_ok d"
  obtains w where "w \<in> set (workers d)" "wk_id w = rc_worker_id c" "worker_eligible d now worker adv key i w"
    "route_candidate_of d route access allow runtime i w = Some c"
    "\<And>v b. v \<in> set (workers d) \<Longrightarrow> worker_eligible d now worker adv key i v \<Longrightarrow>
       route_candidate_of d route access allow runtime i v = Some b \<Longrightarrow> wk_id v \<noteq> rc_worker_id c \<Longrightarrow> better_route c b"
proof -
  let ?cs = "route_candidates d route now access allow worker runtime adv key i"
  have "0 < rc_capacity x" if "x \<in> set ?cs" for x
    using that assms(2) unfolding set_route_candidates
    by (auto simp: workers_ok_def list_all_iff dest!: route_candidate_of_Some(2))
  then have best: "c \<in> set ?cs" "\<And>b. b \<in> set ?cs \<Longrightarrow> b \<noteq> c \<Longrightarrow> better_route c b"
    using choose_route_best [OF assms(1)] distinct_route_candidates assms(2) by (simp_all add: workers_ok_def)
  from best(1) obtain w where w: "w \<in> set (workers d)" "worker_eligible d now worker adv key i w"
    "route_candidate_of d route access allow runtime i w = Some c"
    by (auto simp: set_route_candidates)
  have "better_route c b" if "v \<in> set (workers d)" "worker_eligible d now worker adv key i v"
    "route_candidate_of d route access allow runtime i v = Some b" "wk_id v \<noteq> rc_worker_id c" for v b
  proof (rule best(2))
    show "b \<in> set ?cs" using that(1-3) by (auto simp: set_route_candidates)
    show "b \<noteq> c" using that(4) route_candidate_of_Some(1) [OF that(3)] by auto
  qed
  with w route_candidate_of_Some(1) [OF w(3)] show thesis by (intro that) auto
qed

lemma choose_route_in: "choose_route best cs = Some c \<Longrightarrow> c \<in> set cs \<or> best = Some c"
  by (induction cs arbitrary: best) (fastforce split: option.splits if_splits)+

lemma chosen_worker:
  assumes "choose_route None (route_candidates d route now access allow worker runtime adv key i) = Some c"
  shows "find_worker d (rc_worker_id c) \<noteq> None"
  using choose_route_in [OF assms] route_candidate_of_Some(1)
  by (auto simp: set_route_candidates find_worker_def find_None_set)

lemma select_session_route_worker:
  assumes "select_session_route d i identity now worker runtime = Inr (c, d')"
  shows "find_worker d (rc_worker_id c) \<noteq> None"
proof -
  obtain r route where "find_repository d i = Some r" "\<not> (rp_centrally_managed r \<and> \<not> rp_enabled r)"
    "session_run_route r identity = Inr route"
    "select_run_route d route i now
       (session_requires_github r identity)
       True worker runtime = Inr (c, d')"
    by (rule select_session_route_Inr [OF assms])
  from this(4) show ?thesis by (rule select_run_route_Inr) (use chosen_worker in blast)
qed

type_synonym placement_request = "ident \<times> string \<times> millis \<times> ident \<times> string"

interpretation session_route: placement
  "\<lambda>d (i, identity, now, worker, runtime). select_session_route d i identity now worker runtime"
  by unfold_locales
    (auto intro: select_session_route_reserves simp del: not_None_eq dest: select_session_route_worker)

subsection \<open>Reservations\<close>

text \<open>The keys of \<^verbatim>\<open>worker_repositories\<close>: a reservation never breaks one.\<close>

definition reservations_ok :: "db \<Rightarrow> bool" where
  "reservations_ok d \<longleftrightarrow>
     distinct (map (\<lambda>x. (wr_worker_id x, wr_display_key x)) (worker_repositories d)) \<and>
     distinct (map (\<lambda>x. (wr_worker_id x, wr_repository_id x)) (worker_repositories d))"

lemma reserve_new_keys:
  assumes "reservations_ok d" "find_worker_repository d w r = None" "\<not> display_key_conflict d w key r"
  shows "reservations_ok (reserve_repository now w r key d)"
  using assms
  by (auto simp: reservations_ok_def reserve_repository_def find_worker_repository_def find_None_set
      display_key_conflict_def list_ex_iff)

lemma reserve_again_keys:
  assumes ok: "reservations_ok d" and row: "find_worker_repository d w r \<noteq> None"
    and free: "\<not> display_key_conflict d w key r"
  shows "reservations_ok (reserve_repository now w r key d)"
proof -
  let ?xs = "worker_repositories d"
  let ?P = "\<lambda>x. wr_worker_id x = w \<and> wr_repository_id x = r"
  let ?f = "\<lambda>x. x\<lparr>wr_display_key := key, wr_worker_remote_identity := key, wr_advertised := True,
    wr_dynamic := True, wr_updated_at := now\<rparr>"
  let ?g = "\<lambda>x. if ?P x then ?f x else x"
  have rows: "worker_repositories (reserve_repository now w r key d) = map ?g ?xs"
    using row by (auto simp: reserve_repository_def update_where_def)
  have repos: "map (\<lambda>x. (wr_worker_id x, wr_repository_id x)) (map ?g ?xs) = map (\<lambda>x. (wr_worker_id x, wr_repository_id x)) ?xs"
    by simp
  have inj: "inj_on (\<lambda>x. (wr_worker_id x, wr_display_key x)) (set ?xs)" and dist: "distinct ?xs"
    using ok by (auto simp: reservations_ok_def distinct_map)
  have "inj_on (\<lambda>x. (wr_worker_id (?g x), wr_display_key (?g x))) (set ?xs)"
  proof (rule inj_onI)
    fix x y assume xy: "x \<in> set ?xs" "y \<in> set ?xs"
      and eq: "(wr_worker_id (?g x), wr_display_key (?g x)) = (wr_worker_id (?g y), wr_display_key (?g y))"
    have other: "wr_display_key z \<noteq> key" if "z \<in> set ?xs" "wr_worker_id z = w" "wr_repository_id z \<noteq> r" for z
      using free that by (auto simp: display_key_conflict_def list_ex_iff)
    show "x = y"
    proof (cases "?P x \<and> ?P y")
      case True
      with xy ok show ?thesis by (auto simp: reservations_ok_def distinct_map dest: inj_onD)
    next
      case False
      with eq other xy inj show ?thesis by (auto simp: split: if_splits dest: inj_onD)
    qed
  qed
  then have "distinct (map (\<lambda>x. (wr_worker_id x, wr_display_key x)) (map ?g ?xs))"
    using dist by (simp add: distinct_map comp_def)
  with repos ok show ?thesis by (simp only: reservations_ok_def rows)
qed

lemma select_run_route_reservations_ok:
  assumes "select_run_route d route selected now access allow worker runtime = Inr (c, d')"
    and "reservations_ok d"
  shows "reservations_ok d'"
  using assms(1)
proof (rule select_run_route_Inr)
  fix r
  let ?key = "route_display_key route r"
  let ?adv = "allow \<and> (\<not> rp_enabled r \<or> rr_source_access route \<noteq> github_access)"
  assume pick: "choose_route None (route_candidates d route now access allow worker runtime ?adv ?key (rp_id r)) = Some c"
    and d': "d' = (if rc_repository_advertised c then d else reserve_repository now (rc_worker_id c) (rp_id r) ?key d)"
  from choose_route_in [OF pick] obtain w where w: "worker_eligible d now worker ?adv ?key (rp_id r) w"
    and c: "route_candidate_of d route access allow runtime (rp_id r) w = Some c"
    by (auto simp: set_route_candidates)
  show ?thesis
  proof (cases "rc_repository_advertised c")
    case True
    with d' assms(2) show ?thesis by simp
  next
    case False
    then have "\<not> display_key_conflict d (rc_worker_id c) ?key (rp_id r)"
      using w by (simp add: worker_eligible_def Let_def route_candidate_of_Some [OF c])
    then show ?thesis
      using d' False assms(2) by (cases "find_worker_repository d (rc_worker_id c) (rp_id r) = None")
        (simp_all add: reserve_new_keys reserve_again_keys)
  qed
qed

lemma select_session_route_reservations_ok:
  assumes "select_session_route d i identity now worker runtime = Inr (c, d')" "reservations_ok d"
  shows "reservations_ok d'"
proof -
  obtain r route where "find_repository d i = Some r" "\<not> (rp_centrally_managed r \<and> \<not> rp_enabled r)"
    "session_run_route r identity = Inr route"
    "select_run_route d route i now
       (session_requires_github r identity)
       True worker runtime = Inr (c, d')"
    by (rule select_session_route_Inr [OF assms(1)])
  from this(4) assms(2) show ?thesis by (rule select_run_route_reservations_ok)
qed

subsection \<open>The Workers a session route chooses from\<close>

definition repositories_ok :: "db \<Rightarrow> bool" where
  "repositories_ok d \<longleftrightarrow> distinct (map rp_id (repositories d)) \<and> distinct (map rp_remote_identity (repositories d)) \<and>
     list_all (\<lambda>r. rp_id r \<noteq> []) (repositories d)"

lemma find_repository_Some: "find_repository d i = Some r \<Longrightarrow> r \<in> set (repositories d) \<and> rp_id r = i"
  unfolding find_repository_def by (drule find_Some_set) simp

lemma find_repository_in: "repositories_ok d \<Longrightarrow> r \<in> set (repositories d) \<Longrightarrow> find_repository d (rp_id r) = Some r"
  by (simp add: repositories_ok_def find_repository_def find_key)

lemma route_repository_by_id:
  assumes "repositories_ok d" "find_repository d i = Some r"
  shows "route_repository d route i allow =
     (if rp_enabled r \<or> allow \<and>
        list_ex (\<lambda>x. wr_repository_id x = i \<and> wr_advertised x \<and> \<not> wr_dynamic x) (worker_repositories d)
      then Some r else None)"
proof -
  note r = find_repository_Some [OF assms(2)]
  have i: "i \<noteq> []" using assms(1) r by (auto simp: repositories_ok_def list_all_iff)
  have only: "x = r" if "x \<in> set (repositories d)" "rp_id x = i" for x
    using assms(1) r that key_unique [of rp_id "repositories d" x r] by (simp add: repositories_ok_def)
  let ?Q = "\<lambda>r. rp_id r = i \<and> (rp_enabled r \<or> allow \<and>
        list_ex (\<lambda>x. wr_repository_id x = rp_id r \<and> wr_advertised x \<and> \<not> wr_dynamic x) (worker_repositories d))"
  have route: "route_repository d route i allow = find ?Q (repositories d)" using i by (simp add: route_repository_def)
  show ?thesis
  proof (cases "?Q r")
    case True
    then have "find ?Q (repositories d) \<noteq> None" using r by (simp only: find_None_set) blast
    then obtain x where x: "find ?Q (repositories d) = Some x" by auto
    then have "x = r" using only [of x] find_Some_set [OF x] by simp
    with x show ?thesis using True r route by simp
  next
    case False
    have "\<not> ?Q x" if "x \<in> set (repositories d)" for x
      using only [OF that] False by (cases "rp_id x = i") simp_all
    then have "find ?Q (repositories d) = None" by (simp only: find_None_set) blast
    with False r route show ?thesis by simp
  qed
qed

lemma select_session_route_chosen:
  assumes "repositories_ok d" "find_repository d i = Some r" "session_run_route r identity = Inr route"
    and "select_session_route d i identity now worker runtime = Inr (c, d')"
  shows "choose_route None (route_candidates d route now (session_requires_github r identity) True worker runtime
     (\<not> rp_enabled r \<or> rr_source_access route \<noteq> github_access) (route_display_key route r) i) = Some c"
proof -
  obtain q route' where "find_repository d i = Some q" "\<not> (rp_centrally_managed q \<and> \<not> rp_enabled q)"
    "session_run_route q identity = Inr route'"
    "select_run_route d route' i now (session_requires_github q identity) True worker runtime = Inr (c, d')"
    by (rule select_session_route_Inr [OF assms(4)])
  with assms(2,3) have run: "select_run_route d route i now (session_requires_github r identity) True worker runtime = Inr (c, d')"
    by simp
  from run obtain q where "route_repository d route i True = Some q"
    "choose_route None (route_candidates d route now (session_requires_github r identity) True worker runtime
       (True \<and> (\<not> rp_enabled q \<or> rr_source_access route \<noteq> github_access)) (route_display_key route q) (rp_id q)) = Some c"
    by (rule select_run_route_Inr)
  moreover from this(1) have "q = r" using route_repository_by_id [OF assms(1,2)] by (simp split: if_splits)
  ultimately show ?thesis using find_repository_Some [OF assms(2)] by simp
qed

lemma select_run_route_candidate:
  assumes "repositories_ok d" "find_repository d i = Some r" "rp_enabled r"
    and "b \<in> set (route_candidates d route now access allow worker runtime
       (allow \<and> rr_source_access route \<noteq> github_access) (route_display_key route r) i)"
  shows "\<exists>c d'. select_run_route d route i now access allow worker runtime = Inr (c, d')"
proof -
  let ?cs = "route_candidates d route now access allow worker runtime
     (allow \<and> rr_source_access route \<noteq> github_access) (route_display_key route r) i"
  have "choose_route None ?cs \<noteq> None" using assms(4) by (auto simp: choose_route_None)
  then obtain c where c: "choose_route None ?cs = Some c" by auto
  obtain w where w: "worker_eligible d now worker (allow \<and> rr_source_access route \<noteq> github_access) (route_display_key route r) i w"
    "route_candidate_of d route access allow runtime i w = Some c"
    using choose_route_in [OF c] by (auto simp: set_route_candidates)
  then have "rc_repository_advertised c \<or> rc_accepts_managed_repositories c"
    by (auto simp: worker_eligible_def Let_def route_candidate_of_Some [OF w(2)])
  with c show ?thesis
    using assms(3) route_repository_by_id [OF assms(1,2), of route allow] find_repository_Some [OF assms(2)]
    by (auto simp: select_run_route_def Let_def)
qed

end
