(* ===== verification/Repositories.thy ===== *)
theory Repositories
  imports Routing "HOL-Library.Product_Lexorder"
begin

text \<open>
  The managed repository catalog (store.go): creating, enabling and disabling a repository, and the pages
  that tell the operator which Workers could take its Work. The lemmas relate those pages to the routing
  decision and show that disabling a repository keeps the store well formed.
\<close>

subsection \<open>The catalog\<close>

record managed_repository =
  mr_id :: ident
  mr_remote_identity :: string
  mr_enabled :: bool
  mr_issue_intake_enabled :: bool
  mr_created_at :: millis
  mr_updated_at :: millis

definition scan_managed_repository :: "repository \<Rightarrow> managed_repository" where
  "scan_managed_repository r = \<lparr>mr_id = rp_id r, mr_remote_identity = rp_remote_identity r,
     mr_enabled = rp_enabled r, mr_issue_intake_enabled = rp_issue_intake_enabled r,
     mr_created_at = rp_created_at r, mr_updated_at = rp_updated_at r\<rparr>"

definition find_repository_ignoring_case :: "db \<Rightarrow> string \<Rightarrow> repository option" where
  "find_repository_ignoring_case d remote =
     find (\<lambda>r. to_lower_ascii (rp_remote_identity r) = to_lower_ascii remote) (repositories d)"

definition create_managed_repository_tx ::
    "millis \<Rightarrow> ident \<Rightarrow> db \<Rightarrow> string \<Rightarrow> ((managed_repository \<times> bool) \<times> db) result" where
  "create_managed_repository_tx now new_id d remote_identity =
     and_then (normalize_managed_github_remote remote_identity) (\<lambda>remote.
       case find_repository_ignoring_case d remote of
         Some r \<Rightarrow>
           (case find_repository d (rp_id r) of
              None \<Rightarrow> Inl unavailable
            | Some current \<Rightarrow>
                if \<not> rp_centrally_managed current
                then Inr (((scan_managed_repository r)\<lparr>mr_enabled := True, mr_updated_at := now\<rparr>, False),
                  d\<lparr>repositories := update_where (\<lambda>x. rp_id x = rp_id r \<and> \<not> rp_centrally_managed x)
                      (\<lambda>x. x\<lparr>rp_enabled := True, rp_centrally_managed := True, rp_updated_at := now\<rparr>) (repositories d)\<rparr>)
                else Inr ((scan_managed_repository r, False), d))
       | None \<Rightarrow>
           if length (repositories d) \<ge> max_managed_repositories
           then Inl (conflict ''repository_limit_reached'' ''the managed repository limit has been reached'')
           else
             let r = \<lparr>rp_id = new_id, rp_remote_identity = remote, rp_enabled = True, rp_centrally_managed = True,
                      rp_issue_intake_enabled = False, rp_created_at = now, rp_updated_at = now\<rparr>
             in Inr ((scan_managed_repository r, True), d\<lparr>repositories := repositories d @ [r]\<rparr>))"

definition create_managed_repository ::
    "int \<Rightarrow> ident \<Rightarrow> db \<Rightarrow> string \<Rightarrow> (managed_repository \<times> bool) result \<times> db" where
  "create_managed_repository now new_id d remote_identity =
     committed d (create_managed_repository_tx (unix_milli now) new_id d remote_identity) (\<lambda>_ reply. Inr reply)"

definition managed_repositories :: "db \<Rightarrow> managed_repository list" where
  "managed_repositories d = map scan_managed_repository (sort_key rp_remote_identity (repositories d))"

definition managed_repository_by_id :: "db \<Rightarrow> ident \<Rightarrow> managed_repository result" where
  "managed_repository_by_id d repository_id =
     (case find_repository d (trim_space repository_id) of
        None \<Rightarrow> Inl err_not_found
      | Some r \<Rightarrow> Inr (scan_managed_repository r))"

subsection \<open>Readiness\<close>

record managed_repository_eligibility =
  el_online :: bool
  el_health :: worker_health
  el_github_access :: bool
  el_accepts_managed :: bool
  el_cached :: bool
  el_advertised :: bool
  el_reserved :: bool
  el_display_key_conflict :: bool
  el_cache_use :: nat
  el_retention_use :: nat

definition evaluate_managed_repository_eligibility ::
    "managed_repository \<Rightarrow> managed_repository_eligibility \<Rightarrow> bool \<times> string" where
  "evaluate_managed_repository_eligibility repository state =
     (if \<not> mr_enabled repository then (False, ''Repository routing is disabled.'')
      else if \<not> el_advertised state \<and> \<not> is_managed_github_remote (mr_remote_identity repository)
      then (False, ''Repository source is not supported for managed acquisition.'')
      else if \<not> el_online state then (False, ''Worker is offline.'')
      else if el_health state \<noteq> Healthy then (False, ''Worker is unhealthy.'')
      else if \<not> el_github_access state then (False, ''Worker does not currently report GitHub access.'')
      else if \<not> el_advertised state \<and> el_display_key_conflict state
      then (False, ''Another advertised repository uses this routing identity.'')
      else if \<not> el_advertised state \<and> \<not> el_accepts_managed state
      then (False, ''Worker cannot acquire managed repositories and does not advertise this one.'')
      else if \<not> el_advertised state \<and> \<not> el_cached state \<and> \<not> el_reserved state \<and>
              el_cache_use state \<ge> max_repository_cache_entries
      then (False, ''Managed repository cache and reservations are full.'')
      else if el_retention_use state \<ge> max_retained_per_repo
      then (False, ''Repository retained-worktree capacity is full.'')
      else if el_cached state then (True, ''Online, healthy, with GitHub access and this repository cached.'')
      else if el_advertised state then (True, ''Online, healthy, with GitHub access and this repository advertised.'')
      else if el_reserved state
      then (True, ''Online, healthy, with GitHub access and this repository already reserved.'')
      else (True, ''Online, healthy, with GitHub access and managed cache headroom.''))"

definition worker_online :: "int \<Rightarrow> worker \<Rightarrow> bool" where
  "worker_online now w \<longleftrightarrow> now - from_millis (wk_last_heartbeat w) \<le> from_millis worker_online_window"

record worker_repository_option =
  wo_id :: ident
  wo_key :: string
  wo_remote_identity :: string
  wo_enabled :: bool
  wo_cached :: bool
  wo_advertised :: bool
  wo_ready :: bool
  wo_reason :: string

definition worker_base_state :: "int \<Rightarrow> db \<Rightarrow> worker \<Rightarrow> managed_repository_eligibility" where
  "worker_base_state now d w =
     \<lparr>el_online = worker_online now w, el_health = wk_health w,
      el_github_access = has_source_access (wk_source_access w) github_access,
      el_accepts_managed = wk_accepts_managed_repositories w, el_cached = False, el_advertised = False,
      el_reserved = False, el_display_key_conflict = False, el_cache_use = cache_use d w, el_retention_use = 0\<rparr>"

definition worker_repository_option_of :: "int \<Rightarrow> db \<Rightarrow> worker \<Rightarrow> repository \<Rightarrow> worker_repository_option" where
  "worker_repository_option_of now d w r =
     (let row = find_worker_repository d (wk_id w) (rp_id r);
          cached = rp_id r \<in> set (wk_managed_repository_ids w);
          advertised = (case row of None \<Rightarrow> False | Some x \<Rightarrow> wr_advertised x \<and> \<not> wr_dynamic x);
          state = (worker_base_state now d w)\<lparr>el_cached := cached, el_advertised := advertised,
            el_reserved := (case row of None \<Rightarrow> False | Some x \<Rightarrow> wr_advertised x \<and> wr_dynamic x),
            el_display_key_conflict := display_key_conflict d (wk_id w) (rp_remote_identity r) (rp_id r),
            el_retention_use := retention_use d (wk_id w) (rp_id r)\<rparr>;
          verdict = evaluate_managed_repository_eligibility (scan_managed_repository r) state
      in \<lparr>wo_id = rp_id r, wo_key = (case row of None \<Rightarrow> '''' | Some x \<Rightarrow> wr_display_key x),
          wo_remote_identity = rp_remote_identity r, wo_enabled = rp_enabled r, wo_cached = cached,
          wo_advertised = advertised, wo_ready = fst verdict, wo_reason = snd verdict\<rparr>)"

definition worker_repository_options :: "int \<Rightarrow> db \<Rightarrow> ident \<Rightarrow> worker_repository_option list result" where
  "worker_repository_options now d worker_id =
     (case find_worker d (trim_space worker_id) of
        None \<Rightarrow> Inl err_not_found
      | Some w \<Rightarrow> Inr (map (worker_repository_option_of now d w) (sort_key rp_remote_identity (repositories d))))"

record worker_readiness =
  wy_id :: ident
  wy_name :: string
  wy_cached :: bool
  wy_advertised :: bool
  wy_ready :: bool
  wy_reason :: string

record repository_readiness =
  rd_routing_ready :: bool
  rd_workers :: "worker_readiness list"

definition worker_readiness_of :: "int \<Rightarrow> db \<Rightarrow> managed_repository \<Rightarrow> worker \<Rightarrow> worker_readiness" where
  "worker_readiness_of now d repository w =
     (let cached = mr_id repository \<in> set (wk_managed_repository_ids w);
          advertised = advertised_row d (wk_id w) (mr_id repository);
          state = \<lparr>el_online = worker_online now w, el_health = wk_health w,
            el_github_access = has_source_access (wk_source_access w) github_access,
            el_accepts_managed = wk_accepts_managed_repositories w, el_cached = cached, el_advertised = advertised,
            el_reserved = False,
            el_display_key_conflict =
              display_key_conflict d (wk_id w) (mr_remote_identity repository) (mr_id repository),
            el_cache_use = cache_use d w, el_retention_use = retention_use d (wk_id w) (mr_id repository)\<rparr>;
          verdict = evaluate_managed_repository_eligibility repository state
      in \<lparr>wy_id = wk_id w, wy_name = wk_name w, wy_cached = cached, wy_advertised = advertised,
          wy_ready = fst verdict, wy_reason = snd verdict\<rparr>)"

definition managed_repository_readiness :: "int \<Rightarrow> db \<Rightarrow> ident \<Rightarrow> repository_readiness result" where
  "managed_repository_readiness now d repository_id =
     and_then (managed_repository_by_id d repository_id) (\<lambda>repository.
       let entries = map (worker_readiness_of now d repository)
             (sort_key (\<lambda>w. (wk_registered_at w, wk_id w)) (filter (\<lambda>w. \<not> wk_synthetic w) (workers d)))
       in Inr \<lparr>rd_routing_ready = list_ex wy_ready entries, rd_workers = entries\<rparr>)"

subsection \<open>Enabling and disabling\<close>

text \<open>\<^verbatim>\<open>DELETE FROM executions\<close> of the queued Work of a repository. The foreign key of \<^verbatim>\<open>attempts\<close>
  has no cascade and is enforced, so the statement fails when a row to delete has an Attempt.\<close>

definition queued_work_of :: "db \<Rightarrow> ident \<Rightarrow> execution \<Rightarrow> bool" where
  "queued_work_of d repository_id e \<longleftrightarrow> ex_state e = ExecutionQueued \<and>
     list_ex (\<lambda>s. ss_id s = ex_session_id e \<and> ss_repository_id s = repository_id \<and> ss_state s = SessionQueued)
       (sessions d)"

definition delete_queued_executions :: "ident \<Rightarrow> db \<Rightarrow> db result" where
  "delete_queued_executions repository_id d =
     (if list_ex (\<lambda>a. list_ex (\<lambda>e. ex_id e = at_execution_id a \<and> queued_work_of d repository_id e) (executions d))
           (attempts d)
      then Inl unavailable
      else Inr (d\<lparr>executions := delete_where (queued_work_of d repository_id) (executions d)\<rparr>))"

definition repository_disabled :: string where
  "repository_disabled = ''Repository is disabled.''"

definition block_queued_sessions :: "ident \<Rightarrow> db \<Rightarrow> db" where
  "block_queued_sessions repository_id d = d\<lparr>sessions :=
     update_where (\<lambda>s. ss_repository_id s = repository_id \<and> ss_state s = SessionQueued)
       (\<lambda>s. s\<lparr>ss_state := SessionBlocked, ss_assigned_worker_id := None,
          ss_blocked_reason := Some repository_disabled, ss_waiting_reason := repository_disabled,
          ss_execution_owner := ExecutionOwnerNone\<rparr>) (sessions d)\<rparr>"

definition task_selects :: "db \<Rightarrow> ident \<Rightarrow> task_row \<Rightarrow> bool" where
  "task_selects d repository_id t \<longleftrightarrow>
     list_ex (\<lambda>p. tp_task_id p = tk_id t \<and> tp_repository_id p = repository_id) (task_repositories d)"

definition block_schedules :: "ident \<Rightarrow> db \<Rightarrow> db" where
  "block_schedules repository_id d = d\<lparr>task_rows :=
     update_where (\<lambda>t. tk_schedule_enabled t \<and> task_selects d repository_id t)
       (\<lambda>t. t\<lparr>tk_health_status := ''blocked'', tk_health_code := ''repository_disabled'',
          tk_health_message := ''Enable every selected repository before the next occurrence can run.''\<rparr>)
       (task_rows d)\<rparr>"

definition unblock_schedules :: "ident \<Rightarrow> db \<Rightarrow> db" where
  "unblock_schedules repository_id d = d\<lparr>task_rows :=
     update_where (\<lambda>t. tk_schedule_enabled t \<and> tk_pending_due_at t = None \<and> task_selects d repository_id t)
       (\<lambda>t. t\<lparr>tk_health_status := ''healthy'', tk_health_code := '''', tk_health_message := ''''\<rparr>) (task_rows d)\<rparr>"

definition set_managed_repository_enabled_tx :: "millis \<Rightarrow> db \<Rightarrow> ident \<Rightarrow> bool \<Rightarrow> (unit \<times> db) result" where
  "set_managed_repository_enabled_tx now d repository_id enabled =
     (let i = trim_space repository_id in
      case find_repository d i of
        None \<Rightarrow> Inl err_not_found
      | Some r \<Rightarrow>
          if rp_enabled r = enabled then
            Inr ((), if rp_centrally_managed r then d
              else d\<lparr>repositories := update_where (\<lambda>x. rp_id x = i)
                (\<lambda>x. x\<lparr>rp_centrally_managed := True, rp_updated_at := now\<rparr>) (repositories d)\<rparr>)
          else
            let d1 = d\<lparr>repositories := update_where (\<lambda>x. rp_id x = i)
              (\<lambda>x. x\<lparr>rp_enabled := enabled, rp_centrally_managed := True, rp_updated_at := now\<rparr>) (repositories d)\<rparr>
            in if enabled then Inr ((), unblock_schedules i d1)
               else and_then (delete_queued_executions i d1) (\<lambda>d2.
                 Inr ((), block_schedules i (block_queued_sessions i d2))))"

definition set_managed_repository_enabled ::
    "int \<Rightarrow> db \<Rightarrow> ident \<Rightarrow> bool \<Rightarrow> managed_repository result \<times> db" where
  "set_managed_repository_enabled now d repository_id enabled =
     committed d (set_managed_repository_enabled_tx (unix_milli now) d repository_id enabled)
       (\<lambda>d' _. managed_repository_by_id d' (trim_space repository_id))"

definition set_managed_repository_issue_intake ::
    "int \<Rightarrow> db \<Rightarrow> ident \<Rightarrow> bool \<Rightarrow> managed_repository result \<times> db" where
  "set_managed_repository_issue_intake now d repository_id enabled =
     (let i = trim_space repository_id; P = (\<lambda>x. rp_id x = i \<and> rp_centrally_managed x) in
      if count_where P (repositories d) = 0 then (Inl err_not_found, d)
      else
        let d' = d\<lparr>repositories := update_where P
          (\<lambda>x. x\<lparr>rp_issue_intake_enabled := enabled, rp_updated_at := unix_milli now\<rparr>) (repositories d)\<rparr>
        in (managed_repository_by_id d' i, d'))"

subsection \<open>Disabling keeps the store well formed\<close>

lemma delete_queued_executions_Inr:
  assumes "delete_queued_executions i d = Inr d'"
  shows "d' = d\<lparr>executions := filter (\<lambda>e. \<not> queued_work_of d i e) (executions d)\<rparr>"
    "\<And>a e. a \<in> set (attempts d) \<Longrightarrow> e \<in> set (executions d) \<Longrightarrow> ex_id e = at_execution_id a \<Longrightarrow> \<not> queued_work_of d i e"
  using assms by (auto simp: delete_queued_executions_def delete_where_def list_ex_iff split: if_splits)

text \<open>Deleting the executions of queued Work and blocking that Work, on the tables alone.\<close>

lemma drop_queued_core_ok:
  assumes ok: "core_ok d"
    and executions: "executions d' = filter (\<lambda>e. \<not> Q e) (executions d)"
    and sessions: "sessions d' = map fs (sessions d)" and frame: "runs d' = runs d" "attempts d' = attempts d"
      "session_stages d' = session_stages d"
    and free: "\<And>a e. a \<in> set (attempts d) \<Longrightarrow> e \<in> set (executions d) \<Longrightarrow> ex_id e = at_execution_id a \<Longrightarrow> \<not> Q e"
    and keys: "\<And>s. ss_id (fs s) = ss_id s \<and> ss_run_id (fs s) = ss_run_id s"
    and dropped: "\<And>e s. e \<in> set (executions d) \<Longrightarrow> s \<in> set (sessions d) \<Longrightarrow> ss_id s = ex_session_id e \<Longrightarrow> Q e \<Longrightarrow>
        \<not> session_occupies_slot (ss_state (fs s))"
    and kept: "\<And>e s. e \<in> set (executions d) \<Longrightarrow> s \<in> set (sessions d) \<Longrightarrow> ss_id s = ex_session_id e \<Longrightarrow> \<not> Q e \<Longrightarrow>
        ss_state (fs s) = ss_state s"
    and slot: "\<And>s. s \<in> set (sessions d) \<Longrightarrow> session_occupies_slot (ss_state (fs s)) \<Longrightarrow> session_occupies_slot (ss_state s)"
    and row: "\<And>s. s \<in> set (sessions d) \<Longrightarrow> session_row_ok s \<Longrightarrow> session_row_ok (fs s)"
  shows "core_ok d'"
  unfolding core_ok_def
proof (intro conjI)
  note ok' = core_okD [OF ok]
  have same: "map ss_id (sessions d') = map ss_id (sessions d)" "ss_run_id ` set (sessions d') = ss_run_id ` set (sessions d)"
    using keys by (simp_all add: sessions image_image)
  show "keys_ok d'"
    using ok'(1) same by (simp add: keys_ok_def executions frame distinct_map_filter_key)
  have ids: "ss_id ` set (sessions d') = ss_id ` set (sessions d)" using same(1) by (metis list.set_map)
  have "at_execution_id a \<in> ex_id ` set (executions d')" if a: "a \<in> set (attempts d)" for a
  proof -
    obtain e where "e \<in> set (executions d)" "ex_id e = at_execution_id a"
      by (rule attempt_execution_exists [OF ok'(2) a])
    then show ?thesis using free [OF a] by (force simp: executions)
  qed
  then show "refs_ok d'" using ok'(2) same(2) ids by (auto simp: refs_ok_def executions frame)
  show "session_rows_ok d'"
    using ok'(4) row by (simp add: session_rows_ok_def sessions list_all_iff)
  show "lifecycle_ok d'"
    unfolding lifecycle_ok_def frame executions sessions
  proof (intro conjI)
    show "\<forall>a \<in> set (attempts d). \<forall>e \<in> set (filter (\<lambda>e. \<not> Q e) (executions d)). ex_id e = at_execution_id a \<longrightarrow>
        is_active (at_state a) \<longrightarrow> ex_state e = execution_of_attempt (at_state a)"
      using lifecycle_attempt_execution [OF ok'(3)] by simp
    show "\<forall>a \<in> set (attempts d). \<forall>b \<in> set (attempts d). at_execution_id a = at_execution_id b \<longrightarrow>
        is_active (at_state a) \<longrightarrow> is_active (at_state b) \<longrightarrow> at_id a = at_id b"
      using lifecycle_one_active [OF ok'(3)] by blast
    show "\<forall>e \<in> set (filter (\<lambda>e. \<not> Q e) (executions d)). execution_executing (ex_state e) \<longrightarrow>
        (\<exists>a \<in> set (attempts d). at_execution_id a = ex_id e \<and> is_active (at_state a))"
      using lifecycle_executing_attempt [OF ok'(3)] by (metis filter_is_subset subsetD)
    show "\<forall>e \<in> set (filter (\<lambda>e. \<not> Q e) (executions d)). \<forall>s \<in> set (map fs (sessions d)).
        ss_id s = ex_session_id e \<longrightarrow> states_agree (ex_state e) (ss_state s)"
      using lifecycle_states_agree [OF ok'(3)] kept keys by auto
    show "\<forall>s \<in> set (map fs (sessions d)). session_occupies_slot (ss_state s) \<longrightarrow>
        (\<exists>e \<in> set (filter (\<lambda>e. \<not> Q e) (executions d)). ex_session_id e = ss_id s)"
    proof (intro ballI impI)
      fix t assume "t \<in> set (map fs (sessions d))" and slot': "session_occupies_slot (ss_state t)"
      then obtain s where s: "s \<in> set (sessions d)" "t = fs s" by auto
      obtain e where e: "e \<in> set (executions d)" "ex_session_id e = ss_id s"
        using lifecycle_slot_execution [OF ok'(3) s(1)] slot [OF s(1)] slot' s(2) by metis
      with dropped [OF e(1) s(1)] slot' s(2) keys show "\<exists>e \<in> set (filter (\<lambda>e. \<not> Q e) (executions d)). ex_session_id e = ss_id t"
        by auto
    qed
  qed
qed

lemma disable_store_ok:
  assumes ok: "store_ok d" and del: "delete_queued_executions i d = Inr d'"
  shows "store_ok (block_queued_sessions i d')"
proof -
  note del' = delete_queued_executions_Inr [OF del]
  let ?P = "\<lambda>s. ss_repository_id s = i \<and> ss_state s = SessionQueued"
  let ?f = "\<lambda>s. s\<lparr>ss_state := SessionBlocked, ss_assigned_worker_id := None,
          ss_blocked_reason := Some repository_disabled, ss_waiting_reason := repository_disabled,
          ss_execution_owner := ExecutionOwnerNone\<rparr>"
  let ?g = "\<lambda>s. if ?P s then ?f s else s"
  let ?d = "block_queued_sessions i d'"
  have tables: "executions ?d = filter (\<lambda>e. \<not> queued_work_of d i e) (executions d)" "sessions ?d = map ?g (sessions d)"
    "runs ?d = runs d" "attempts ?d = attempts d" "session_stages ?d = session_stages d"
    by (simp_all add: block_queued_sessions_def del'(1) update_where_def)
  have sok: "core_ok d" "runs_ok d" using ok by (simp_all add: store_ok_def)
  note cok = core_okD [OF sok(1)]
  have "core_ok ?d"
  proof (rule drop_queued_core_ok [OF sok(1) tables del'(2)])
    fix e s assume es: "e \<in> set (executions d)" "s \<in> set (sessions d)" "ss_id s = ex_session_id e"
    { assume "queued_work_of d i e"
      then obtain t where "t \<in> set (sessions d)" "ss_id t = ex_session_id e" "?P t"
        by (auto simp: queued_work_of_def list_ex_iff)
      then have "?P s" using session_unique [OF cok(1), of t s] es by simp
      then show "\<not> session_occupies_slot (ss_state (?g s))" by (simp add: state_predicates) }
    { assume free: "\<not> queued_work_of d i e"
      have "\<not> ?P s"
      proof
        assume "?P s"
        then have "ex_state e = ExecutionQueued"
          using lifecycle_states_agree [OF cok(3) es] by (simp add: states_agree_def)
        with \<open>?P s\<close> es free show False by (auto simp: queued_work_of_def list_ex_iff)
      qed
      then show "ss_state (?g s) = ss_state s" by auto }
  qed (auto simp: state_predicates session_row_ok_def split: if_splits)
  moreover have "runs_ok ?d"
  proof -
    have "run_finished ?d j = run_finished d j" for j
      by (rule run_finished_map [OF tables(2)]) (auto simp: state_predicates)
    then show ?thesis using sok(2) by (simp add: runs_ok_def tables(3))
  qed
  ultimately show ?thesis by (simp add: store_ok_def)
qed

lemma set_managed_repository_enabled_ok:
  assumes "store_ok d" "set_managed_repository_enabled_tx now d i enabled = Inr (u, d')"
  shows "store_ok d'"
proof -
  obtain r where r: "find_repository d (trim_space i) = Some r"
    using assms(2) by (auto simp: set_managed_repository_enabled_tx_def Let_def split: option.splits)
  let ?d = "d\<lparr>repositories := update_where (\<lambda>x. rp_id x = trim_space i)
    (\<lambda>x. x\<lparr>rp_enabled := enabled, rp_centrally_managed := True, rp_updated_at := now\<rparr>) (repositories d)\<rparr>"
  have ok: "store_ok ?d" by (rule store_ok_frame [OF assms(1)]) simp_all
  show ?thesis
  proof (cases "rp_enabled r = enabled \<or> enabled")
    case True
    then have "runs d' = runs d \<and> sessions d' = sessions d \<and> executions d' = executions d \<and> attempts d' = attempts d \<and>
        session_stages d' = session_stages d"
      using assms(2) r by (auto simp: set_managed_repository_enabled_tx_def Let_def unblock_schedules_def split: if_splits)
    then show ?thesis by (intro store_ok_frame [OF assms(1)]) simp_all
  next
    case False
    then obtain x where x: "delete_queued_executions (trim_space i) ?d = Inr x"
      and d': "d' = block_schedules (trim_space i) (block_queued_sessions (trim_space i) x)"
      using assms(2) r by (auto simp: set_managed_repository_enabled_tx_def Let_def and_then_Inr)
    show ?thesis
      by (rule store_ok_frame [OF disable_store_ok [OF ok x]]) (simp_all add: d' block_schedules_def)
  qed
qed

text \<open>The other operations of the catalog leave the lifecycle tables alone.\<close>

lemma set_managed_repository_issue_intake_ok:
  "set_managed_repository_issue_intake now d i enabled = (r, d') \<Longrightarrow> store_ok d \<Longrightarrow> store_ok d'"
  by (rule store_ok_frame, assumption)
    (auto simp: set_managed_repository_issue_intake_def Let_def split: if_splits)

lemma create_managed_repository_tables:
  assumes "create_managed_repository_tx now j d remote = Inr (r, d')"
  shows "d' = d\<lparr>repositories := repositories d'\<rparr>"
proof -
  obtain x where x: "normalize_managed_github_remote remote = Inr x"
    using assms by (auto simp: create_managed_repository_tx_def and_then_Inr)
  show ?thesis
  proof (cases "find_repository_ignoring_case d x")
    case None
    with assms x show ?thesis by (auto simp: create_managed_repository_tx_def Let_def split: if_splits)
  next
    case (Some y)
    with assms x show ?thesis
      by (cases "find_repository d (rp_id y)") (auto simp: create_managed_repository_tx_def split: if_splits)
  qed
qed

lemma create_managed_repository_ok:
  assumes "create_managed_repository_tx now j d remote = Inr (r, d')" "store_ok d"
  shows "store_ok d'"
  by (rule store_ok_frame [OF assms(2)]; subst create_managed_repository_tables [OF assms(1)]; simp)

subsection \<open>Readiness and routing\<close>

lemma normalize_managed_github_remote_trim:
  "normalize_managed_github_remote (trim_space s) = normalize_managed_github_remote s"
  by (simp add: normalize_managed_github_remote_def)

lemma normalize_managed_github_remote_length:
  assumes "normalize_managed_github_remote s = Inr c"
  shows "c \<noteq> [] \<and> length c \<le> 2048"
proof -
  define parts where "parts = split_on (CHR ''/'') (trim_suffix (trim_space s) ''.git'')"
  have p: "length parts = 3" "to_lower_ascii (parts ! 0) = ''github.com''" "valid_github_owner (parts ! 1)"
      "valid_github_repository (parts ! 2)" and c: "c = to_lower_ascii (join_with (CHR ''/'') parts)"
    using assms by (auto simp: normalize_managed_github_remote_def Let_def parts_def split: if_splits)
  obtain x y z where xyz: "parts = [x, y, z]" using p(1) by (auto simp: numeral_3_eq_3 length_Suc_conv)
  have "length (to_lower_ascii x) = 10" using p(2) xyz by simp
  then have "length x = 10" by (simp add: to_lower_ascii_def)
  moreover have "length y \<le> 39" "length z \<le> 100" using p(3,4) xyz by (simp_all add: valid_github_owner_def valid_github_repository_def)
  ultimately show ?thesis using c xyz by (auto simp: to_lower_ascii_def)
qed

lemma trim_github: "trim_space ''github'' = ''github''" "trim_space ''github.com'' = ''github.com''"
  by (rule trim_space_visible; simp add: in_range_def byte_def)+

lemma lower_github: "to_lower_hostname ''github.com'' = ''github.com''"
proof -
  have "utf8_chunks ''github.com'' = map (\<lambda>c. [c]) ''github.com''"
    by (rule utf8_chunks_ascii) (simp add: ascii_def byte_def)
  then show ?thesis by (simp add: to_lower_hostname_def) code_simp
qed

lemma normalize_github_access: "normalize_source_access [github_access] = Inr [github_access]"
proof -
  have "valid_provider ''github''" "valid_hostname ''github.com''" by code_simp+
  then show ?thesis
    by (simp add: normalize_source_access_def github_access_def trim_github lower_github)
qed

lemma session_run_route_github:
  assumes "rp_centrally_managed r" "normalize_managed_github_remote (rp_remote_identity r) = Inr (rp_remote_identity r)"
  shows "session_requires_github r (rp_remote_identity r)"
    "session_run_route r (rp_remote_identity r) =
       Inr \<lparr>rr_repository_remote_identity = rp_remote_identity r, rr_source_access = github_access\<rparr>"
proof -
  have len: "rp_remote_identity r \<noteq> []" "length (rp_remote_identity r) \<le> 2048"
    using normalize_managed_github_remote_length [OF assms(2)] by simp_all
  then show req: "session_requires_github r (rp_remote_identity r)"
    using assms by (simp add: session_requires_github_def session_identity_def is_managed_github_remote_def)
  have trim: "normalize_managed_github_remote (trim_space (rp_remote_identity r)) = Inr (rp_remote_identity r)"
    using assms(2) by (simp add: normalize_managed_github_remote_trim)
  have "trim_space (rp_remote_identity r) \<noteq> []"
  proof
    assume none: "trim_space (rp_remote_identity r) = []"
    with trim show False by (simp add: normalize_managed_github_remote_def trim_suffix_def)
  qed
  moreover have "length (trim_space (rp_remote_identity r)) \<le> 2048"
    using length_trim_space_le [of "rp_remote_identity r"] len(2) by simp
  ultimately show "session_run_route r (rp_remote_identity r) =
       Inr \<lparr>rr_repository_remote_identity = rp_remote_identity r, rr_source_access = github_access\<rparr>"
    using req trim
    by (simp add: session_run_route_def session_identity_def normalize_run_route_def Let_def normalize_remote_def
        normalize_github_access)
qed

lemma evaluate_eligibility_ready:
  "fst (evaluate_managed_repository_eligibility m st) \<longleftrightarrow>
     mr_enabled m \<and> (el_advertised st \<or> is_managed_github_remote (mr_remote_identity m)) \<and> el_online st \<and>
     el_health st = Healthy \<and> el_github_access st \<and>
     (el_advertised st \<or> \<not> el_display_key_conflict st \<and> el_accepts_managed st \<and>
        (el_cached st \<or> el_reserved st \<or> el_cache_use st < max_repository_cache_entries)) \<and>
     el_retention_use st < max_retained_per_repo"
  by (auto simp: evaluate_managed_repository_eligibility_def)

text \<open>A Worker that the readiness page calls ready is one the router may choose.\<close>

lemma ready_worker_eligible:
  assumes ready: "wy_ready (worker_readiness_of now d (scan_managed_repository r) w)"
    and w: "\<not> wk_synthetic w" "wk_claim_protocol_version w = claim_protocol_version"
  shows "worker_eligible d (unix_milli now) [] False (rp_remote_identity r) (rp_id r) w"
    "has_source_access (wk_source_access w) github_access"
proof -
  have online: "unix_milli now - worker_online_window \<le> wk_last_heartbeat w"
    if "worker_online now w"
  proof -
    have "now \<le> from_millis (wk_last_heartbeat w + worker_online_window)"
      using that by (simp add: worker_online_def from_millis_def algebra_simps)
    from unix_milli_mono [OF this] show ?thesis by simp
  qed
  show "has_source_access (wk_source_access w) github_access"
    using ready by (simp add: worker_readiness_of_def Let_def evaluate_eligibility_ready)
  show "worker_eligible d (unix_milli now) [] False (rp_remote_identity r) (rp_id r) w"
    using ready w online
    by (auto simp: worker_readiness_of_def Let_def evaluate_eligibility_ready worker_eligible_def scan_managed_repository_def)
qed

end
