(* ===== verification/Routing_Properties.thy ===== *)
theory Routing_Properties
  imports Example_Store Repositories
begin

text \<open>
  Properties of routing and of the repository catalog: the Worker a Work item is placed on, what the
  readiness pages promise, and what disabling a repository does to its queued Work.
\<close>

subsection \<open>Placement\<close>






lemma demo_local_route:
  "session_run_route demo_repository ''git.example.com/team/app'' =
     Inr \<lparr>rr_repository_remote_identity = ''git.example.com/team/app'', rr_source_access = local_access\<rparr>"
  "session_requires_github demo_repository ''git.example.com/team/app'' = False"
proof -
  have trim: "trim_space ''git.example.com/team/app'' = ''git.example.com/team/app''"
    "trim_space ''local'' = ''local''" "trim_space ''localhost'' = ''localhost''"
    by (rule trim_space_visible; simp add: in_range_def byte_def)+
  have "utf8_chunks ''localhost'' = map (\<lambda>c. [c]) ''localhost''"
    by (rule utf8_chunks_ascii) (simp add: ascii_def byte_def)
  moreover have "concat (map lower_chunk (map (\<lambda>c. [c]) ''localhost'')) = ''localhost''" by code_simp
  ultimately have lower: "to_lower_hostname ''localhost'' = ''localhost''" by (simp only: to_lower_hostname_def)
  have "valid_provider ''local''" "valid_hostname ''localhost''" by code_simp+
  then have access: "normalize_source_access [local_access] = Inr [local_access]"
    by (simp add: normalize_source_access_def local_access_def trim lower)
  show "session_requires_github demo_repository ''git.example.com/team/app'' = False"
    by (simp add: session_requires_github_def demo_repository_def)
  then show "session_run_route demo_repository ''git.example.com/team/app'' =
     Inr \<lparr>rr_repository_remote_identity = ''git.example.com/team/app'', rr_source_access = local_access\<rparr>"
    by (simp add: session_run_route_def session_identity_def normalize_run_route_def normalize_remote_def trim access)
      (simp add: local_access_def github_access_def)
qed

lemma demo_catalog_ok:
  "workers_ok (demo_db st reports g0 g1)" "repositories_ok (demo_db st reports g0 g1)"
  "reservations_ok (demo_db st reports g0 g1)"
  "find_repository (demo_db st reports g0 g1) ''repo-1'' = Some demo_repository"
  by (simp_all add: workers_ok_def repositories_ok_def reservations_ok_def find_repository_def demo_db_def demo_worker_def
      demo_repository_def)

definition demo_candidate :: route_candidate where
  "demo_candidate = \<lparr>rc_worker_id = ''worker-1'', rc_repository_id = ''repo-1'', rc_runtime = ''codex'', rc_capacity = 2,
     rc_load = 0, rc_repository_advertised = True, rc_accepts_managed_repositories = False\<rparr>"

text \<open>Any store with the Worker and the repository of the example, and nothing of it in use.\<close>

lemma demo_route_idle:
  assumes "workers d = [demo_worker]" "repositories d = [demo_repository]"
    "worker_repositories d = [demo_worker_repository]" "retention_use d ''worker-1'' ''repo-1'' < max_retained_per_repo"
    "queued_count d ''worker-1'' = 0" "now - worker_online_window \<le> 1000000" "worker = '''' \<or> worker = ''worker-1''"
  shows "select_session_route d ''repo-1'' ''git.example.com/team/app'' now worker ''codex'' = Inr (demo_candidate, d)"
proof -
  have advertised: "advertised_row d ''worker-1'' ''repo-1''"
    by (simp add: advertised_row_def find_worker_repository_def assms(3) demo_worker_repository_def)
  have eligible: "worker_eligible d now worker True key ''repo-1'' demo_worker" for key
    using assms(4,6,7) advertised by (auto simp: worker_eligible_def Let_def demo_worker_def claim_protocol_version_def)
  have candidate: "route_candidate_of d route False True ''codex'' ''repo-1'' demo_worker = Some demo_candidate" for route
    using advertised assms(5) by (simp add: route_candidate_of_def Let_def demo_worker_def demo_candidate_def)
  have "route_candidates d route now False True worker ''codex'' True key ''repo-1'' = [demo_candidate]" for route key
    by (simp add: route_candidates_def eligible candidate assms(1) List.map_filter_simps)
  moreover have "rp_id demo_repository = ''repo-1''" "rp_enabled demo_repository" "\<not> rp_centrally_managed demo_repository"
    by (simp_all add: demo_repository_def)
  moreover have "local_access \<noteq> github_access" by (simp add: local_access_def github_access_def)
  moreover have "repositories_ok d" "find_repository d ''repo-1'' = Some demo_repository"
    by (simp_all add: repositories_ok_def find_repository_def assms(2) demo_repository_def)
  ultimately show ?thesis
    by (simp add: select_session_route_def demo_local_route select_run_route_def route_repository_by_id)
      (simp add: demo_candidate_def)
qed

lemma demo_session_route:
  "select_session_route (demo_db AttemptRunning [] StageRunning StagePending) ''repo-1'' ''git.example.com/team/app''
     1000500 '''' ''codex'' = Inr (demo_candidate, demo_db AttemptRunning [] StageRunning StagePending)"
proof (rule demo_route_idle)
  let ?d = "demo_db AttemptRunning [] StageRunning StagePending"
  show "retention_use ?d ''worker-1'' ''repo-1'' < max_retained_per_repo" "queued_count ?d ''worker-1'' = 0"
    by (simp_all add: retention_use_def attempt_uses_repository_def attempt_session_def attempt_execution_def
        find_execution_def find_session_def find_worker_repository_def queued_count_def demo_db_def demo_rows
        protocol_limits is_active_def is_terminal_def)
qed (simp_all add: demo_db_def protocol_limits)

subsection \<open>Readiness\<close>

text \<open>C17. The readiness page can be trusted: when it calls routing of a centrally managed repository ready and every
  Worker speaks the current claim protocol and has the runtime ready, placing Work of the repository succeeds.\<close>

theorem ready_repository_is_routed:
  assumes "repositories_ok d" "find_repository d i = Some r" "trim_space i = i" "rp_centrally_managed r"
    and "normalize_managed_github_remote (rp_remote_identity r) = Inr (rp_remote_identity r)"
    and "managed_repository_readiness now d i = Inr page" "rd_routing_ready page"
    and "\<forall>w \<in> set (workers d). wk_claim_protocol_version w = claim_protocol_version \<and>
       runtime_capability_ready (wk_capabilities w) runtime" "runtime \<noteq> []"
  shows "\<exists>c d'. select_session_route d i (rp_remote_identity r) (unix_milli now) [] runtime = Inr (c, d')"
proof -
  have i: "rp_id r = i" using find_repository_Some [OF assms(2)] by simp
  from assms(2,3,6,7) obtain w where w: "w \<in> set (workers d)" "\<not> wk_synthetic w"
    and ready: "wy_ready (worker_readiness_of now d (scan_managed_repository r) w)"
    by (auto simp: managed_repository_readiness_def managed_repository_by_id_def Let_def list_ex_iff)
  have enabled: "rp_enabled r"
    using ready by (simp add: worker_readiness_of_def Let_def evaluate_eligibility_ready scan_managed_repository_def)
  note eligible = ready_worker_eligible [OF ready w(2) assms(8) [rule_format, THEN conjunct1, OF w(1)], unfolded i]
  let ?route = "\<lparr>rr_repository_remote_identity = rp_remote_identity r, rr_source_access = github_access\<rparr>"
  note route = session_run_route_github [OF assms(4,5)]
  have key: "route_display_key ?route r = rp_remote_identity r"
    using assms(5) normalize_managed_github_remote_length [OF assms(5)] by (simp add: route_display_key_def Let_def)
  have "runtime_capability_ready (wk_capabilities w) runtime" using assms(8) w(1) by blast
  then obtain b where "route_candidate_of d ?route True True runtime i w = Some b"
    using assms(9) eligible(2) by (simp add: route_candidate_of_def Let_def)
  then have "b \<in> set (route_candidates d ?route (unix_milli now) True True [] runtime
      (True \<and> rr_source_access ?route \<noteq> github_access) (route_display_key ?route r) i)"
    using w(1) eligible(1) key by (auto simp: set_route_candidates)
  from select_run_route_candidate [OF assms(1,2) enabled this] show ?thesis
    using assms(2) enabled route by (simp add: select_session_route_def)
qed

definition demo_github_db :: db where
  "demo_github_db = (demo_db AttemptRunning [] StageRunning StagePending)\<lparr>
     workers := [demo_worker\<lparr>wk_source_access := [github_access],
       wk_capabilities := [\<lparr>cap_kind = ''runtime'', cap_name = ''codex'', cap_status = ''ready'',
         cap_version = '''', cap_message = ''''\<rparr>]\<rparr>],
     repositories := [demo_repository\<lparr>rp_remote_identity := ''github.com/team/app'', rp_centrally_managed := True\<rparr>]\<rparr>"

lemma demo_github_remote: "normalize_managed_github_remote ''github.com/team/app'' = Inr ''github.com/team/app''"
proof -
  have "trim_space ''github.com/team/app'' = ''github.com/team/app''"
    by (rule trim_space_visible) (simp_all add: in_range_def byte_def)
  moreover have "trim_suffix ''github.com/team/app'' ''.git'' = ''github.com/team/app''"
    "split_on (CHR ''/'') ''github.com/team/app'' = [''github.com'', ''team'', ''app'']"
    "to_lower_ascii ''github.com'' = ''github.com''" "valid_github_owner ''team''" "valid_github_repository ''app''"
    "to_lower_ascii (join_with (CHR ''/'') [''github.com'', ''team'', ''app'']) = ''github.com/team/app''"
    by code_simp+
  ultimately show ?thesis by (simp add: normalize_managed_github_remote_def)
qed



lemma ready_repository_is_routed_witness:
  "\<exists>c d'. select_session_route demo_github_db ''repo-1'' ''github.com/team/app'' 1000500 [] ''codex'' = Inr (c, d')"
proof -
  let ?d = demo_github_db
  let ?r = "demo_repository\<lparr>rp_remote_identity := ''github.com/team/app'', rp_centrally_managed := True\<rparr>"
  let ?w = "demo_worker\<lparr>wk_source_access := [github_access],
       wk_capabilities := [\<lparr>cap_kind = ''runtime'', cap_name = ''codex'', cap_status = ''ready'',
         cap_version = '''', cap_message = ''''\<rparr>]\<rparr>"
  have r: "repositories_ok ?d" "find_repository ?d ''repo-1'' = Some ?r" "workers ?d = [?w]"
    by (simp_all add: demo_github_db_def repositories_ok_def find_repository_def demo_repository_def)
  have trim: "trim_space ''repo-1'' = ''repo-1''" by (rule trim_space_visible) (simp_all add: in_range_def byte_def)
  have "wy_ready (worker_readiness_of 1000500000000 ?d (scan_managed_repository ?r) ?w)"
    by (simp add: worker_readiness_of_def Let_def evaluate_eligibility_ready scan_managed_repository_def worker_online_def
        from_millis_def retention_use_def attempt_uses_repository_def attempt_session_def attempt_execution_def
        find_execution_def find_session_def advertised_row_def find_worker_repository_def demo_github_db_def demo_db_def
        demo_rows protocol_limits is_active_def is_terminal_def has_source_access_def)
  moreover have "\<not> wk_synthetic ?w" by (simp add: demo_worker_def)
  ultimately obtain page where page: "managed_repository_readiness 1000500000000 ?d ''repo-1'' = Inr page"
      "rd_routing_ready page"
    by (simp add: managed_repository_readiness_def managed_repository_by_id_def r trim Let_def)
  have id: "normalize_managed_github_remote (rp_remote_identity ?r) = Inr (rp_remote_identity ?r)"
    by (simp add: demo_github_remote)
  have all: "\<forall>w \<in> set (workers ?d). wk_claim_protocol_version w = claim_protocol_version \<and>
       runtime_capability_ready (wk_capabilities w) ''codex''"
    by (simp add: r demo_worker_def claim_protocol_version_def runtime_capability_ready_def capability_kind_runtime_def
        capability_ready_def)
  have "unix_milli 1000500000000 = 1000500" by (simp add: unix_milli_def)
  then show ?thesis
    using ready_repository_is_routed [OF r(1,2) trim _ id page all] by simp
qed

subsection \<open>Disabling a repository\<close>

text \<open>C18. Disabling an enabled repository stops its queued Work: afterwards none of its Work is queued and no execution
  of it waits for a Worker, while every execution that a Worker has claimed and every Attempt stays.\<close>

theorem disabling_stops_queued_work:
  assumes "store_ok d" "find_repository d (trim_space i) = Some r" "rp_enabled r"
    and "set_managed_repository_enabled now d i False = (Inr v, d')"
  shows "\<not> mr_enabled v \<and> store_ok d' \<and> attempts d' = attempts d \<and>
     (\<forall>s \<in> set (sessions d'). ss_repository_id s = trim_space i \<longrightarrow> ss_state s \<noteq> SessionQueued) \<and>
     (\<forall>e \<in> set (executions d'). \<forall>s \<in> set (sessions d'). ss_id s = ex_session_id e \<longrightarrow>
        ss_repository_id s = trim_space i \<longrightarrow> ex_state e \<noteq> ExecutionQueued) \<and>
     (\<forall>e \<in> set (executions d). ex_state e \<noteq> ExecutionQueued \<longrightarrow> e \<in> set (executions d'))"
proof -
  let ?i = "trim_space i"
  let ?f = "\<lambda>x. x\<lparr>rp_enabled := False, rp_centrally_managed := True, rp_updated_at := unix_milli now\<rparr>"
  let ?d = "d\<lparr>repositories := update_where (\<lambda>x. rp_id x = ?i) ?f (repositories d)\<rparr>"
  obtain u where tx: "set_managed_repository_enabled_tx (unix_milli now) d i False = Inr (u, d')"
    and reply: "managed_repository_by_id d' ?i = Inr v"
    using assms(4) by (auto simp: set_managed_repository_enabled_def elim: committed_cases)
  from tx assms(2,3) obtain x where x: "delete_queued_executions ?i ?d = Inr x"
    and d': "d' = block_schedules ?i (block_queued_sessions ?i x)"
    by (auto simp: set_managed_repository_enabled_tx_def Let_def and_then_Inr)
  have ok: "store_ok d'" by (rule set_managed_repository_enabled_ok [OF assms(1) tx])
  have sessions: "sessions d' = sessions (block_queued_sessions ?i d)"
    and executions: "executions d' = filter (\<lambda>e. \<not> queued_work_of d ?i e) (executions d)"
    and repositories: "repositories d' = update_where (\<lambda>x. rp_id x = ?i) ?f (repositories d)"
    using delete_queued_executions_Inr(1) [OF x]
    by (simp_all add: d' block_schedules_def block_queued_sessions_def queued_work_of_def [abs_def])
  have "find_repository d' ?i = Some (?f r)"
    using assms(2) find_repository_Some [OF assms(2)]
    by (simp add: find_repository_def repositories find_update_where)
  then have "\<not> mr_enabled v" using reply by (auto simp: managed_repository_by_id_def scan_managed_repository_def)
  moreover have idle: "ss_state s \<noteq> SessionQueued" if "s \<in> set (sessions d')" "ss_repository_id s = ?i" for s
    using that by (auto simp: sessions block_queued_sessions_def set_update_where split: if_splits)
  moreover have "ex_state e \<noteq> ExecutionQueued"
    if "e \<in> set (executions d')" "s \<in> set (sessions d')" "ss_id s = ex_session_id e" "ss_repository_id s = ?i" for e s
    using lifecycle_states_agree [OF store_okD(3) [OF ok] that(1-3)] idle [OF that(2,4)] by (simp add: states_agree_def)
  moreover have "e \<in> set (executions d')" if "e \<in> set (executions d)" "ex_state e \<noteq> ExecutionQueued" for e
    using that by (simp add: executions queued_work_of_def)
  moreover have "attempts d' = attempts d"
    using delete_queued_executions_Inr(1) [OF x] by (simp add: d' block_schedules_def block_queued_sessions_def)
  ultimately show ?thesis using ok by blast
qed

text \<open>C19. Disabling a repository fails when one of its queued Work items has been tried before: the execution cannot be
  deleted because its earlier Attempt refers to it, and the whole operation is refused as unavailable storage.\<close>

theorem disabling_retried_work_fails:
  assumes "find_repository d (trim_space i) = Some r" "rp_enabled r"
    and "a \<in> set (attempts d)" "e \<in> set (executions d)" "s \<in> set (sessions d)"
    and "ex_id e = at_execution_id a" "ss_id s = ex_session_id e" "ss_repository_id s = trim_space i"
    and "ex_state e = ExecutionQueued" "ss_state s = SessionQueued"
  shows "set_managed_repository_enabled now d i False = (Inl unavailable, d)"
proof -
  let ?d = "d\<lparr>repositories := update_where (\<lambda>x. rp_id x = trim_space i)
    (\<lambda>x. x\<lparr>rp_enabled := False, rp_centrally_managed := True, rp_updated_at := unix_milli now\<rparr>) (repositories d)\<rparr>"
  have "queued_work_of ?d (trim_space i) e" using assms(5,7-10) by (auto simp: queued_work_of_def list_ex_iff)
  then have "list_ex (\<lambda>a. list_ex (\<lambda>e. ex_id e = at_execution_id a \<and> queued_work_of ?d (trim_space i) e) (executions ?d))
      (attempts ?d)"
    using assms(3,4,6) by (auto simp: list_ex_iff)
  then have "delete_queued_executions (trim_space i) ?d = Inl unavailable"
    by (simp only: delete_queued_executions_def if_True)
  then show ?thesis
    using assms(1,2) by (simp add: set_managed_repository_enabled_def set_managed_repository_enabled_tx_def Let_def)
qed

lemma demo_trim_repo: "trim_space ''repo-1'' = ''repo-1''"
  by (rule trim_space_visible) (simp_all add: in_range_def byte_def)

lemma disabling_stops_queued_work_witness:
  "\<exists>v d'. set_managed_repository_enabled demo_now demo_queued_db ''repo-1'' False = (Inr v, d') \<and> \<not> mr_enabled v"
proof -
  let ?d = "demo_queued_db"
  have r: "find_repository ?d (trim_space ''repo-1'') = Some demo_repository"
    by (simp add: demo_trim_repo find_repository_def demo_stores demo_repository_def)
  have enabled: "rp_enabled demo_repository" by (simp add: demo_repository_def)
  have "attempts ?d = []" by (simp add: demo_queued_db_def)
  moreover have "find (\<lambda>x. rp_id x = ''repo-1'') (repositories ?d) = Some demo_repository"
    using r by (simp add: find_repository_def demo_trim_repo)
  ultimately obtain v d' where done': "set_managed_repository_enabled demo_now ?d ''repo-1'' False = (Inr v, d')"
    using r enabled
    by (simp add: set_managed_repository_enabled_def set_managed_repository_enabled_tx_def Let_def
        delete_queued_executions_def managed_repository_by_id_def demo_trim_repo block_schedules_def
        block_queued_sessions_def find_repository_def find_update_where)
  from disabling_stops_queued_work [OF demo_queued_db_ok r enabled done'] done' show ?thesis by blast
qed

lemma disabling_retried_work_fails_witness:
  "set_managed_repository_enabled demo_now ((demo_db AttemptFailed [] StageFailed StageFailed)\<lparr>
     sessions := [demo_session ''work-1'' 0 SessionQueued ExecutionOwnerNone],
     executions := [demo_execution ExecutionQueued]\<rparr>) ''repo-1'' False =
   (Inl unavailable, (demo_db AttemptFailed [] StageFailed StageFailed)\<lparr>
     sessions := [demo_session ''work-1'' 0 SessionQueued ExecutionOwnerNone],
     executions := [demo_execution ExecutionQueued]\<rparr>)"
  by (rule disabling_retried_work_fails [where r = demo_repository and a = "demo_attempt AttemptFailed" and
        e = "demo_execution ExecutionQueued" and s = "demo_session ''work-1'' 0 SessionQueued ExecutionOwnerNone"])
    (simp_all add: demo_trim_repo find_repository_def demo_db_def demo_rows)

subsection \<open>Creating a repository\<close>

text \<open>Creating a managed repository is idempotent: a second request for the same GitHub repository, however it
  spells the name, answers the same repository as not created and changes nothing.\<close>

theorem create_repository_is_idempotent:
  assumes "repositories_ok d" "j \<notin> rp_id ` set (repositories d)"
    and "create_managed_repository now j d remote = (Inr (v, created), d')"
    and "normalize_managed_github_remote again = normalize_managed_github_remote remote"
  shows "\<exists>w. create_managed_repository later k d' again = (Inr (w, False), d') \<and> mr_id w = mr_id v \<and>
     mr_remote_identity w = mr_remote_identity v \<and> mr_enabled w = mr_enabled v"
proof -
  let ?now = "unix_milli now"
  obtain x where x: "normalize_managed_github_remote remote = Inr x"
    and tx: "create_managed_repository_tx ?now j d remote = Inr ((v, created), d')"
    using assms(3) by (auto simp: create_managed_repository_def create_managed_repository_tx_def and_then_Inr elim!: committed_cases)
  have "\<exists>r. find_repository_ignoring_case d' x = Some r \<and> find_repository d' (rp_id r) = Some r \<and> rp_centrally_managed r \<and>
      mr_id (scan_managed_repository r) = mr_id v \<and> mr_remote_identity (scan_managed_repository r) = mr_remote_identity v \<and>
      mr_enabled (scan_managed_repository r) = mr_enabled v"
  proof (cases "find_repository_ignoring_case d x")
    case None
    let ?r = "\<lparr>rp_id = j, rp_remote_identity = x, rp_enabled = True, rp_centrally_managed = True,
                      rp_issue_intake_enabled = False, rp_created_at = ?now, rp_updated_at = ?now\<rparr>"
    from None x tx have v: "v = scan_managed_repository ?r" and d': "d' = d\<lparr>repositories := repositories d @ [?r]\<rparr>"
      by (auto simp: create_managed_repository_tx_def Let_def split: if_splits)
    have "find_repository_ignoring_case d' x = Some ?r"
      using None by (simp add: find_repository_ignoring_case_def d' find_append)
    moreover have "find (\<lambda>r. rp_id r = j) (repositories d) = None" using assms(2) by (auto simp: find_None_set)
    then have "find_repository d' j = Some ?r" by (simp add: find_repository_def d' find_append)
    ultimately show ?thesis by (simp add: v)
  next
    case (Some r)
    have r: "r \<in> set (repositories d)" using find_Some_set [OF Some [unfolded find_repository_ignoring_case_def]] by simp
    note row = find_repository_in [OF assms(1) r]
    let ?f = "\<lambda>x. x\<lparr>rp_enabled := True, rp_centrally_managed := True, rp_updated_at := ?now\<rparr>"
    show ?thesis
    proof (cases "rp_centrally_managed r")
      case True
      with Some x tx row have "v = scan_managed_repository r" "d' = d" by (simp_all add: create_managed_repository_tx_def)
      with Some row True show ?thesis by auto
    next
      case False
      with Some x tx row have v: "v = (scan_managed_repository r)\<lparr>mr_enabled := True, mr_updated_at := ?now\<rparr>"
        and d': "d' = d\<lparr>repositories := update_where (\<lambda>x. rp_id x = rp_id r \<and> \<not> rp_centrally_managed x) ?f (repositories d)\<rparr>"
        by (simp_all add: create_managed_repository_tx_def)
      have "find_repository_ignoring_case d' x = Some (?f r)" "find_repository d' (rp_id r) = Some (?f r)"
        using Some row False by (simp_all add: find_repository_ignoring_case_def find_repository_def d' find_update_where)
      then show ?thesis by (simp add: v scan_managed_repository_def)
    qed
  qed
  then show ?thesis
    using x assms(4) by (auto simp: create_managed_repository_def create_managed_repository_tx_def)
qed

lemma create_repository_is_idempotent_witness:
  "\<exists>v d' w. create_managed_repository demo_now ''repo-2'' demo_github_db ''github.com/team/app'' = (Inr (v, False), d') \<and>
     create_managed_repository demo_now ''repo-3'' d' ''github.com/team/app'' = (Inr (w, False), d') \<and> mr_id w = ''repo-1''"
proof -
  let ?d = demo_github_db
  let ?r = "demo_repository\<lparr>rp_remote_identity := ''github.com/team/app'', rp_centrally_managed := True\<rparr>"
  have rows: "repositories ?d = [?r]" by (simp add: demo_github_db_def)
  then have ok: "repositories_ok ?d" "''repo-2'' \<notin> rp_id ` set (repositories ?d)"
    by (simp_all add: repositories_ok_def demo_repository_def)
  have "create_managed_repository demo_now ''repo-2'' ?d ''github.com/team/app'' = (Inr (scan_managed_repository ?r, False), ?d)"
    by (simp add: create_managed_repository_def create_managed_repository_tx_def demo_github_remote
        find_repository_ignoring_case_def find_repository_def rows)
  with create_repository_is_idempotent [OF ok this refl, of demo_now "''repo-3''"] show ?thesis
    by (fastforce simp: scan_managed_repository_def demo_repository_def)
qed

end
