(* ===== verification/Runs.thy ===== *)
theory Runs
  imports Stages
begin

text \<open>
  Runs as the operator reads them (tasks.go): the aggregate state of a Run (\<^verbatim>\<open>applyRunAggregate\<close>) and the
  second, SQL form of the same rule behind \<^verbatim>\<open>LastRunState\<close>, the detail of one Run with its Work, stages
  and Attempts, and the summaries of the lists. Both forms of the aggregate are shown to agree.
\<close>

subsection \<open>The aggregate of a Run\<close>

datatype run_state = RunQueued | RunBlocked | RunRunning | RunSucceeded | RunFailed | RunPartial | RunCancelled

fun run_state_text :: "run_state \<Rightarrow> string" where
  "run_state_text RunQueued = ''queued''"
| "run_state_text RunBlocked = ''blocked''"
| "run_state_text RunRunning = ''running''"
| "run_state_text RunSucceeded = ''succeeded''"
| "run_state_text RunFailed = ''failed''"
| "run_state_text RunPartial = ''partial''"
| "run_state_text RunCancelled = ''cancelled''"

record run_view =
  rv_id :: ident
  rv_task_id :: ident
  rv_task :: task_snapshot
  rv_execution :: execution_snapshot
  rv_outcome_contract :: outcome_contract
  rv_targets :: "run_target list"
  rv_source :: string
  rv_scheduled_at :: "millis option"
  rv_state :: run_state
  rv_needs_attention :: bool
  rv_session_count :: nat
  rv_succeeded_count :: nat
  rv_ready_count :: nat
  rv_needs_input_count :: nat
  rv_no_change_count :: nat
  rv_failed_count :: nat
  rv_cancelled_count :: nat
  rv_active_count :: nat
  rv_admitted_at :: millis
  rv_updated_at :: millis
  rv_terminal_at :: "millis option"

record run_counts =
  ct_run :: run_view
  ct_blocked :: nat
  ct_actionable_blocked :: nat
  ct_queued :: nat
  ct_running :: nat

definition task_concurrency_blocked_reason :: string where
  "task_concurrency_blocked_reason = ''Waiting for an available Task concurrency slot.''"

text \<open>Of a session the loop reads its state and its blocked reason.\<close>

fun count_session :: "session_state \<times> string \<Rightarrow> run_counts \<Rightarrow> run_counts" where
  "count_session (SessionBlocked, reason) c =
     c\<lparr>ct_blocked := ct_blocked c + 1,
       ct_actionable_blocked :=
         (if reason \<noteq> task_concurrency_blocked_reason then ct_actionable_blocked c + 1 else ct_actionable_blocked c)\<rparr>"
| "count_session (SessionQueued, reason) c = c\<lparr>ct_queued := ct_queued c + 1\<rparr>"
| "count_session (SessionPreparing, reason) c = c\<lparr>ct_running := ct_running c + 1\<rparr>"
| "count_session (SessionRunning, reason) c = c\<lparr>ct_running := ct_running c + 1\<rparr>"
| "count_session (SessionNeedsInput, reason) c =
     c\<lparr>ct_blocked := ct_blocked c + 1, ct_actionable_blocked := ct_actionable_blocked c + 1,
       ct_run := (ct_run c)\<lparr>rv_needs_input_count := rv_needs_input_count (ct_run c) + 1\<rparr>\<rparr>"
| "count_session (SessionReady, reason) c =
     c\<lparr>ct_run := (ct_run c)\<lparr>rv_ready_count := rv_ready_count (ct_run c) + 1\<rparr>\<rparr>"
| "count_session (SessionSucceeded, reason) c =
     c\<lparr>ct_run := (ct_run c)\<lparr>rv_succeeded_count := rv_succeeded_count (ct_run c) + 1\<rparr>\<rparr>"
| "count_session (SessionFailed, reason) c =
     c\<lparr>ct_run := (ct_run c)\<lparr>rv_failed_count := rv_failed_count (ct_run c) + 1\<rparr>\<rparr>"
| "count_session (SessionNoChange, reason) c =
     c\<lparr>ct_run := (ct_run c)\<lparr>rv_no_change_count := rv_no_change_count (ct_run c) + 1\<rparr>\<rparr>"
| "count_session (SessionCancelled, reason) c =
     c\<lparr>ct_run := (ct_run c)\<lparr>rv_cancelled_count := rv_cancelled_count (ct_run c) + 1\<rparr>\<rparr>"

definition attention_window :: int where
  "attention_window = from_millis (24 * 3600000)"

definition apply_run_aggregate :: "int \<Rightarrow> (session_state \<times> string) list \<Rightarrow> run_view \<Rightarrow> run_view" where
  "apply_run_aggregate now entries run =
     (let start = run\<lparr>rv_session_count := length entries, rv_succeeded_count := 0, rv_ready_count := 0,
            rv_needs_input_count := 0, rv_no_change_count := 0, rv_failed_count := 0, rv_cancelled_count := 0,
            rv_active_count := 0\<rparr>;
          c = fold count_session entries
            \<lparr>ct_run = start, ct_blocked = 0, ct_actionable_blocked = 0, ct_queued = 0, ct_running = 0\<rparr>;
          r = ct_run c;
          active = ct_blocked c + ct_queued c + ct_running c;
          successful = rv_succeeded_count r + rv_ready_count r + rv_no_change_count r;
          state =
            (if active > 0 then
               (if ct_running c > 0 \<or> successful + rv_failed_count r + rv_cancelled_count r > 0 then RunRunning
                else if ct_blocked c = active then RunBlocked
                else RunQueued)
             else
               (if successful = rv_session_count r then RunSucceeded
                else if successful = 0 \<and> rv_failed_count r > 0 then RunFailed
                else if rv_cancelled_count r = rv_session_count r then RunCancelled
                else RunPartial))
      in r\<lparr>rv_active_count := active, rv_state := state,
           rv_needs_attention := (ct_actionable_blocked c > 0 \<or>
             (state = RunFailed \<or> state = RunPartial) \<and>
             (case rv_terminal_at r of None \<Rightarrow> False | Some at \<Rightarrow> now - attention_window < from_millis at))\<rparr>)"

subsection \<open>The same rule in SQL\<close>

definition states_in :: "session_state set \<Rightarrow> session_state list \<Rightarrow> nat" where
  "states_in A states = count_where (\<lambda>st. st \<in> A) states"

definition sql_run_state :: "session_state list \<Rightarrow> string" where
  "sql_run_state states =
     (let open_states = {SessionBlocked, SessionQueued, SessionPreparing, SessionRunning, SessionNeedsInput};
          successes = {SessionReady, SessionSucceeded, SessionNoChange} in
      if states_in open_states states = 0 then
        (if states_in successes states = length states then ''succeeded''
         else if states_in {SessionCancelled} states = length states then ''cancelled''
         else if states_in successes states = 0 \<and> states_in {SessionFailed} states > 0 then ''failed''
         else ''partial'')
      else if states_in {SessionPreparing, SessionRunning} states > 0 \<or>
              states_in {SessionReady, SessionSucceeded, SessionFailed, SessionNoChange, SessionCancelled} states > 0
      then ''running''
      else if states_in {SessionBlocked, SessionNeedsInput} states = states_in open_states states then ''blocked''
      else ''queued'')"

definition run_session_states :: "db \<Rightarrow> ident \<Rightarrow> session_state list" where
  "run_session_states d i = map ss_state (filter (\<lambda>s. ss_run_id s = i) (sessions d))"

text \<open>The newest Run of a Task that has Work; the subquery has no row when there is none.\<close>

definition last_run_state :: "db \<Rightarrow> ident \<Rightarrow> string" where
  "last_run_state d task_id =
     (case sort_key (\<lambda>r. - run_admitted_at r)
             (filter (\<lambda>r. run_task_id r = task_id \<and> run_session_states d (run_id r) \<noteq> []) (runs d)) of
        [] \<Rightarrow> ''''
      | r # _ \<Rightarrow> sql_run_state (run_session_states d (run_id r)))"

subsection \<open>The detail of a Run\<close>

text \<open>\<^verbatim>\<open>protocol.Session\<close>: the row of a Work item as the API answers it, with its stages and Attempts. The
  updates are read by another request and are empty here.\<close>

record session_view =
  sn_id :: ident
  sn_run_id :: ident
  sn_repository_id :: ident
  sn_repository_identity :: string
  sn_resolved_prompt :: string
  sn_required_runtime :: string
  sn_execution :: execution_snapshot
  sn_workflow :: workflow_snapshot
  sn_timeout_seconds :: nat
  sn_state :: session_state
  sn_blocked_reason :: string
  sn_assigned_worker_id :: string
  sn_cancellation_requested :: bool
  sn_retry_may_repeat_effects :: bool
  sn_admitted_at :: millis
  sn_started_at :: "millis option"
  sn_terminal_at :: "millis option"
  sn_result :: string
  sn_failure_reason :: string
  sn_target :: run_target
  sn_predecessor_work_id :: string
  sn_execution_owner :: execution_owner
  sn_waiting_reason :: string
  sn_latest_progress :: string
  sn_question :: string
  sn_checkpoint_sha :: string
  sn_pending_resume_sha :: string
  sn_checkpoint_published :: bool
  sn_answer :: string
  sn_pull_request_url :: string
  sn_pull_request_head_branch :: string
  sn_pull_request_head_sha :: string
  sn_terminal_message :: string
  sn_stages :: "stage_run list"
  sn_updates :: "work_update list"
  sn_attempts :: "attempt_view list"

record run_detail =
  dt_run :: run_view
  dt_provider_snapshot :: "string option"
  dt_sessions :: "session_view list"

definition session_target :: "session \<Rightarrow> run_target" where
  "session_target s = work_target.extend (ss_target s)
     (run_target.fields (ss_id s) (ss_repository_id s) (ss_repository_identity s))"

definition scan_session :: "session \<Rightarrow> session_view" where
  "scan_session s =
     \<lparr>sn_id = ss_id s, sn_run_id = ss_run_id s, sn_repository_id = ss_repository_id s,
      sn_repository_identity = ss_repository_identity s, sn_resolved_prompt = ss_resolved_prompt s,
      sn_required_runtime = ss_required_runtime s,
      sn_execution = (ss_execution s)\<lparr>es_runtime := ss_required_runtime s, es_timeout_seconds := ss_timeout_seconds s\<rparr>,
      sn_workflow = ss_workflow s, sn_timeout_seconds = ss_timeout_seconds s, sn_state = ss_state s,
      sn_blocked_reason = coalesce (ss_blocked_reason s) '''',
      sn_assigned_worker_id = coalesce (ss_assigned_worker_id s) '''',
      sn_cancellation_requested = ss_cancellation_requested s,
      sn_retry_may_repeat_effects = ss_retry_may_repeat_effects s, sn_admitted_at = ss_admitted_at s,
      sn_started_at = ss_started_at s, sn_terminal_at = ss_terminal_at s,
      sn_result = coalesce (ss_result s) '''', sn_failure_reason = coalesce (ss_failure_reason s) '''',
      sn_target = session_target s, sn_predecessor_work_id = coalesce (ss_predecessor_work_id s) '''',
      sn_execution_owner = ss_execution_owner s, sn_waiting_reason = ss_waiting_reason s,
      sn_latest_progress = ss_latest_progress s, sn_question = ss_question s,
      sn_checkpoint_sha = ss_checkpoint_sha s, sn_pending_resume_sha = ss_pending_resume_sha s,
      sn_checkpoint_published = ss_checkpoint_published s, sn_answer = ss_answer s,
      sn_pull_request_url = ss_pull_request_url s, sn_pull_request_head_branch = ss_pull_request_head_branch s,
      sn_pull_request_head_sha = ss_pull_request_head_sha s, sn_terminal_message = ss_terminal_message s,
      sn_stages = [], sn_updates = [], sn_attempts = []\<rparr>"

text \<open>\<^verbatim>\<open>ORDER BY target_position, id\<close>.\<close>

definition run_sessions :: "db \<Rightarrow> ident \<Rightarrow> session list" where
  "run_sessions d i =
     sort_key (\<lambda>s. tg_position (ss_target s)) (sort_key ss_id (filter (\<lambda>s. ss_run_id s = i) (sessions d)))"

definition session_entry :: "session \<Rightarrow> session_state \<times> string" where
  "session_entry s = (ss_state s, coalesce (ss_blocked_reason s) '''')"

text \<open>\<^verbatim>\<open>stageRunSummaries\<close> leaves out the prompt, the result and the error.\<close>

definition stage_run_summaries :: "db \<Rightarrow> ident \<Rightarrow> stage_run list" where
  "stage_run_summaries d i =
     map (\<lambda>g. \<lparr>sv_position = sg_position g, sv_name = sg_name g, sv_prompt = '''', sv_state = sg_state g,
        sv_result = '''', sv_error = '''', sv_started_at = sg_started_at g, sv_completed_at = sg_completed_at g\<rparr>)
       (session_stage_rows d i)"

definition session_attempts :: "db \<Rightarrow> ident \<Rightarrow> attempt list" where
  "session_attempts d i =
     sort_key at_number (filter (\<lambda>a. case attempt_execution d a of None \<Rightarrow> False | Some e \<Rightarrow> ex_session_id e = i)
       (attempts d))"

text \<open>The repositories of a Run whose snapshot names none: those of its Work, in order.\<close>

fun rebuild_repositories :: "ident set \<Rightarrow> session list \<Rightarrow> task_repository list" where
  "rebuild_repositories seen [] = []"
| "rebuild_repositories seen (s # ss) =
     (if ss_repository_id s = '''' \<or> ss_repository_identity s = '''' \<or> ss_repository_id s \<in> seen
      then rebuild_repositories seen ss
      else \<lparr>tr_id = ss_repository_id s, tr_remote_identity = ss_repository_identity s\<rparr> #
        rebuild_repositories (insert (ss_repository_id s) seen) ss)"

definition with_repositories :: "session list \<Rightarrow> task_snapshot \<Rightarrow> task_snapshot" where
  "with_repositories ss t =
     (if ts_repositories t = [] then t\<lparr>ts_repositories := rebuild_repositories {} ss\<rparr> else t)"

definition scan_run :: "task_snapshot \<Rightarrow> run \<Rightarrow> run_view" where
  "scan_run task r = \<lparr>rv_id = run_id r, rv_task_id = run_task_id r, rv_task = task, rv_execution = run_execution r,
     rv_outcome_contract = run_outcome_contract r, rv_targets = run_targets r, rv_source = run_source r,
     rv_scheduled_at = run_scheduled_at r, rv_state = RunQueued, rv_needs_attention = False, rv_session_count = 0,
     rv_succeeded_count = 0, rv_ready_count = 0, rv_needs_input_count = 0, rv_no_change_count = 0,
     rv_failed_count = 0, rv_cancelled_count = 0, rv_active_count = 0, rv_admitted_at = run_admitted_at r,
     rv_updated_at = run_updated_at r, rv_terminal_at = run_terminal_at r\<rparr>"

definition run_reply :: "int \<Rightarrow> db \<Rightarrow> ident \<Rightarrow> run_detail result" where
  "run_reply now d i =
     (case find_run d i of
        None \<Rightarrow> Inl err_not_found
      | Some r \<Rightarrow>
          let ss = run_sessions d i in
          Inr \<lparr>dt_run = apply_run_aggregate now (map session_entry ss)
                 (scan_run (with_repositories ss (run_task_snapshot r)) r),
               dt_provider_snapshot = run_provider_snapshot r,
               dt_sessions = map (\<lambda>s. (scan_session s)\<lparr>sn_stages := stage_run_summaries d (ss_id s),
                 sn_attempts := map scan_attempt (session_attempts d (ss_id s))\<rparr>) ss\<rparr>)"

subsection \<open>List entries and summaries\<close>

definition without_instructions :: "workflow_snapshot \<Rightarrow> workflow_snapshot" where
  "without_instructions w = w\<lparr>wf_instructions := ''''\<rparr>"

definition redact_task :: "task_snapshot \<Rightarrow> task_snapshot" where
  "redact_task t = t\<lparr>ts_prompt := '''', ts_timeout_seconds := 0, ts_concurrency_limit := 0,
     ts_workflow := without_instructions (ts_workflow t),
     ts_repository_workflows := map (\<lambda>(i, w). (i, without_instructions w)) (ts_repository_workflows t),
     ts_pipeline := (ts_pipeline t)\<lparr>pn_stages := map (\<lambda>g. g\<lparr>pg_prompt := ''''\<rparr>) (pn_stages (ts_pipeline t))\<rparr>\<rparr>"

definition run_list_entry :: "int \<Rightarrow> db \<Rightarrow> ident \<Rightarrow> run_view result" where
  "run_list_entry now d i =
     (case find_run d i of
        None \<Rightarrow> Inl err_not_found
      | Some r \<Rightarrow>
          let ss = run_sessions d i in
          Inr (apply_run_aggregate now (map session_entry ss)
            (scan_run (with_repositories ss (redact_task (run_task_snapshot r))) r)))"

record run_session_summary =
  sm_id :: ident
  sm_repository_identity :: string
  sm_state :: session_state
  sm_blocked_reason :: string
  sm_assigned_worker_id :: string
  sm_attempt_count :: nat
  sm_result :: string
  sm_failure_reason :: string

record run_summary =
  ry_id :: ident
  ry_task_name :: string
  ry_state :: run_state
  ry_source :: string
  ry_admitted_at :: millis
  ry_updated_at :: millis
  ry_sessions :: "run_session_summary list"

definition session_summary :: "db \<Rightarrow> session \<Rightarrow> run_session_summary" where
  "session_summary d s = \<lparr>sm_id = ss_id s, sm_repository_identity = ss_repository_identity s, sm_state = ss_state s,
     sm_blocked_reason = coalesce (ss_blocked_reason s) '''',
     sm_assigned_worker_id = coalesce (ss_assigned_worker_id s) '''',
     sm_attempt_count = length (session_attempts d (ss_id s)), sm_result = coalesce (ss_result s) '''',
     sm_failure_reason = coalesce (ss_failure_reason s) ''''\<rparr>"

definition run_summary_reply :: "int \<Rightarrow> db \<Rightarrow> ident \<Rightarrow> run_summary result" where
  "run_summary_reply now d i =
     (case find_run d i of
        None \<Rightarrow> Inl err_not_found
      | Some r \<Rightarrow>
          let ss = run_sessions d i in
          Inr \<lparr>ry_id = run_id r, ry_task_name = ts_name (run_task_snapshot r),
               ry_state = rv_state (apply_run_aggregate now (map session_entry ss)
                 ((scan_run (run_task_snapshot r) r)\<lparr>rv_terminal_at := None\<rparr>)),
               ry_source = run_source r, ry_admitted_at = run_admitted_at r, ry_updated_at = run_updated_at r,
               ry_sessions = map (session_summary d) ss\<rparr>)"

record run_list_summary =
  rl_id :: ident
  rl_task_name :: string
  rl_state :: run_state
  rl_source :: string
  rl_needs_attention :: bool
  rl_session_count :: nat
  rl_succeeded_count :: nat
  rl_ready_count :: nat
  rl_needs_input_count :: nat
  rl_no_change_count :: nat
  rl_failed_count :: nat
  rl_cancelled_count :: nat
  rl_active_count :: nat
  rl_admitted_at :: millis
  rl_updated_at :: millis
  rl_terminal_at :: "millis option"

definition run_list_summary_reply :: "int \<Rightarrow> db \<Rightarrow> run \<Rightarrow> run_list_summary" where
  "run_list_summary_reply now d r =
     (let v = apply_run_aggregate now (map session_entry (run_sessions d (run_id r)))
                (scan_run (run_task_snapshot r) r) in
      \<lparr>rl_id = run_id r, rl_task_name = ts_name (run_task_snapshot r), rl_state = rv_state v, rl_source = run_source r,
       rl_needs_attention = rv_needs_attention v, rl_session_count = rv_session_count v,
       rl_succeeded_count = rv_succeeded_count v, rl_ready_count = rv_ready_count v,
       rl_needs_input_count = rv_needs_input_count v, rl_no_change_count = rv_no_change_count v,
       rl_failed_count = rv_failed_count v, rl_cancelled_count = rv_cancelled_count v,
       rl_active_count = rv_active_count v, rl_admitted_at = run_admitted_at r, rl_updated_at = run_updated_at r,
       rl_terminal_at = run_terminal_at r\<rparr>)"

subsection \<open>Both forms of the rule agree\<close>

lemma states_in_simps [simp]:
  "states_in A [] = 0" "states_in A (st # states) = (if st \<in> A then 1 else 0) + states_in A states"
  by (simp_all add: states_in_def)

lemma fold_count_session:
  "let c' = fold count_session es c; states = map fst es in
     ct_queued c' = ct_queued c + states_in {SessionQueued} states \<and>
     ct_running c' = ct_running c + states_in {SessionPreparing, SessionRunning} states \<and>
     ct_blocked c' = ct_blocked c + states_in {SessionBlocked, SessionNeedsInput} states \<and>
     rv_session_count (ct_run c') = rv_session_count (ct_run c) \<and>
     rv_terminal_at (ct_run c') = rv_terminal_at (ct_run c) \<and>
     rv_succeeded_count (ct_run c') + rv_ready_count (ct_run c') + rv_no_change_count (ct_run c') =
       rv_succeeded_count (ct_run c) + rv_ready_count (ct_run c) + rv_no_change_count (ct_run c) +
       states_in {SessionReady, SessionSucceeded, SessionNoChange} states \<and>
     rv_failed_count (ct_run c') = rv_failed_count (ct_run c) + states_in {SessionFailed} states \<and>
     rv_cancelled_count (ct_run c') = rv_cancelled_count (ct_run c) + states_in {SessionCancelled} states"
proof (induction es arbitrary: c)
  case Nil
  show ?case by simp
next
  case (Cons e es)
  obtain st reason where e: "e = (st, reason)" by fastforce
  show ?case using Cons.IH [of "count_session e c"] unfolding Let_def
    by (cases st) (simp_all add: e)
qed

lemma states_in_open:
  "states_in {SessionBlocked, SessionQueued, SessionPreparing, SessionRunning, SessionNeedsInput} states =
     states_in {SessionBlocked, SessionNeedsInput} states + states_in {SessionQueued} states +
     states_in {SessionPreparing, SessionRunning} states"
  by (induction states) auto

lemma states_in_ended:
  "states_in {SessionReady, SessionSucceeded, SessionFailed, SessionNoChange, SessionCancelled} states =
     states_in {SessionReady, SessionSucceeded, SessionNoChange} states + states_in {SessionFailed} states +
     states_in {SessionCancelled} states"
  by (induction states) auto

lemma states_in_all:
  "length states =
     states_in {SessionBlocked, SessionNeedsInput} states + states_in {SessionQueued} states +
     states_in {SessionPreparing, SessionRunning} states +
     states_in {SessionReady, SessionSucceeded, SessionNoChange} states + states_in {SessionFailed} states +
     states_in {SessionCancelled} states"
proof (induction states)
  case (Cons st states)
  then show ?case by (cases st) simp_all
qed simp

lemmas state_counts = states_in_open states_in_ended states_in_all

lemma apply_run_aggregate_state:
  "rv_state (apply_run_aggregate now es run) =
     (let states = map fst es; successful = states_in {SessionReady, SessionSucceeded, SessionNoChange} states;
          failed = states_in {SessionFailed} states; cancelled = states_in {SessionCancelled} states;
          running = states_in {SessionPreparing, SessionRunning} states;
          blocked = states_in {SessionBlocked, SessionNeedsInput} states;
          active = blocked + states_in {SessionQueued} states + running in
      if active > 0 then
        (if running > 0 \<or> successful + failed + cancelled > 0 then RunRunning
         else if blocked = active then RunBlocked else RunQueued)
      else if successful = length es then RunSucceeded
      else if successful = 0 \<and> failed > 0 then RunFailed
      else if cancelled = length es then RunCancelled
      else RunPartial)"
  using fold_count_session [of es "\<lparr>ct_run = run\<lparr>rv_session_count := length es, rv_succeeded_count := 0,
     rv_ready_count := 0, rv_needs_input_count := 0, rv_no_change_count := 0, rv_failed_count := 0,
     rv_cancelled_count := 0, rv_active_count := 0\<rparr>, ct_blocked = 0, ct_actionable_blocked = 0, ct_queued = 0,
     ct_running = 0\<rparr>"]
  unfolding apply_run_aggregate_def Let_def by simp

lemma run_state_forms_agree:
  assumes "es \<noteq> []"
  shows "sql_run_state (map fst es) = run_state_text (rv_state (apply_run_aggregate now es run))"
  unfolding apply_run_aggregate_state sql_run_state_def Let_def state_counts
  using assms states_in_all [of "map fst es"] by (auto simp: if_split)

end
