(* ===== verification/Cursor.thy ===== *)
theory Cursor
  imports Identity
begin

text \<open>
  The cursor of the pages of Runs (\<^verbatim>\<open>encodeRunCursor\<close>, \<^verbatim>\<open>decodeRunCursor\<close> of tasks.go): unpadded URL-safe
  base64 of \<^verbatim>\<open>fmt.Sprintf("%d:%s")\<close>, read back with \<^verbatim>\<open>fmt.Sscanf\<close>. Of the standard library the model
  has what the two calls do: base64 that skips line ends and ignores trailing bits, and the \<^verbatim>\<open>%d\<close> and
  \<^verbatim>\<open>%s\<close> verbs with their white space, sign, range and end-of-input rules.
\<close>

subsection \<open>base64.RawURLEncoding\<close>

definition b64_char :: "nat \<Rightarrow> char" where
  "b64_char n = char_of
     (if n < 26 then 65 + n else if n < 52 then 71 + n else if n < 62 then n - 4 else if n = 62 then 45 else 95)"

definition b64_value :: "char \<Rightarrow> nat option" where
  "b64_value c =
     (let b = byte c in
      if 65 \<le> b \<and> b \<le> 90 then Some (b - 65)
      else if 97 \<le> b \<and> b \<le> 122 then Some (b - 71)
      else if 48 \<le> b \<and> b \<le> 57 then Some (b + 4)
      else if b = 45 then Some 62
      else if b = 95 then Some 63
      else None)"

fun b64_digits :: "nat list \<Rightarrow> nat list" where
  "b64_digits [] = []"
| "b64_digits [a] = [a div 4, a mod 4 * 16]"
| "b64_digits [a, b] = [a div 4, a mod 4 * 16 + b div 16, b mod 16 * 4]"
| "b64_digits (a # b # c # s) =
     [a div 4, a mod 4 * 16 + b div 16, b mod 16 * 4 + c div 64, c mod 64] @ b64_digits s"

fun b64_bytes :: "nat list \<Rightarrow> nat list option" where
  "b64_bytes [] = Some []"
| "b64_bytes [a] = None"
| "b64_bytes [a, b] = Some [a * 4 + b div 16]"
| "b64_bytes [a, b, c] = Some [a * 4 + b div 16, b mod 16 * 16 + c div 4]"
| "b64_bytes (a # b # c # d # s) =
     map_option (\<lambda>r. [a * 4 + b div 16, b mod 16 * 16 + c div 4, c mod 4 * 64 + d] @ r) (b64_bytes s)"

definition b64_encode :: "string \<Rightarrow> string" where
  "b64_encode s = map b64_char (b64_digits (map byte s))"

definition b64_decode :: "string \<Rightarrow> string option" where
  "b64_decode s =
     (let vs = map b64_value (filter (\<lambda>c. byte c \<noteq> 10 \<and> byte c \<noteq> 13) s) in
      if None \<in> set vs then None else map_option chars_of (b64_bytes (map the vs)))"

lemma b64_digits_bound: "list_all (\<lambda>b. b < 256) bs \<Longrightarrow> list_all (\<lambda>d. d < 64) (b64_digits bs)"
  by (induction bs rule: b64_digits.induct) auto

lemma b64_bytes_digits: "list_all (\<lambda>b. b < 256) bs \<Longrightarrow> b64_bytes (b64_digits bs) = Some bs"
  by (induction bs rule: b64_digits.induct) (auto simp: div_mult2_eq [symmetric] algebra_simps)

lemma byte_less: "byte c < 256"
  unfolding byte_def by (simp add: of_char_of)

lemma byte_char_of: "n < 256 \<Longrightarrow> byte (char_of n) = n"
  by (simp add: byte_def)

lemma char_of_byte [simp]: "char_of (byte c) = c"
  by (simp add: byte_def)

lemma b64_char_value:
  assumes "n < 64"
  shows "b64_value (b64_char n) = Some n" "byte (b64_char n) \<noteq> 10" "byte (b64_char n) \<noteq> 13"
  using assms by (auto simp: b64_value_def b64_char_def byte_char_of Let_def)

lemma b64_decode_encode: "b64_decode (b64_encode s) = Some s"
proof -
  let ?ds = "b64_digits (map byte s)"
  have bytes: "list_all (\<lambda>b. b < 256) (map byte s)" by (simp add: list_all_iff byte_less)
  have ds: "\<forall>d \<in> set ?ds. d < 64" using b64_digits_bound [OF bytes] by (simp add: list_all_iff)
  have "filter (\<lambda>c. byte c \<noteq> 10 \<and> byte c \<noteq> 13) (b64_encode s) = b64_encode s"
    using ds by (auto simp: b64_encode_def b64_char_value intro!: filter_True)
  moreover have "map b64_value (b64_encode s) = map Some ?ds"
    using ds by (simp add: b64_encode_def b64_char_value)
  ultimately show ?thesis
    using b64_bytes_digits [OF bytes]
    by (auto simp: b64_decode_def Let_def comp_def chars_of_def)
qed

lemma b64_encode_Nil: "b64_encode s = [] \<longleftrightarrow> s = []"
  unfolding b64_encode_def by (cases "map byte s" rule: b64_digits.cases) auto

subsection \<open>fmt.Sscanf\<close>

text \<open>The scanner reads runes; a byte that starts none is read as the replacement character.\<close>

definition rune_text :: "string \<Rightarrow> string" where
  "rune_text c = (if rune_size c = 0 then chars_of [239, 191, 189] else c)"

fun skip_space :: "string list \<Rightarrow> string list option" where
  "skip_space [] = Some []"
| "skip_space (c # cs) =
     (if c = chars_of [10] then None
      else if c \<in> set space_runes then skip_space cs
      else Some (c # cs))"

definition digit_rune :: "string \<Rightarrow> bool" where
  "digit_rune c \<longleftrightarrow> (case c of [b] \<Rightarrow> is_decimal b | _ \<Rightarrow> False)"

definition digits_value :: "string list \<Rightarrow> nat" where
  "digits_value ds = foldl (\<lambda>n c. 10 * n + (byte (hd c) - 48)) 0 ds"

definition int64_value :: "bool \<Rightarrow> nat \<Rightarrow> int option" where
  "int64_value negative n =
     (if negative then (if n \<le> 2 ^ 63 then Some (- int n) else None)
      else if n < 2 ^ 63 then Some (int n) else None)"

definition scan_int :: "string list \<Rightarrow> (int \<times> string list) option" where
  "scan_int cs =
     (case skip_space cs of None \<Rightarrow> None | Some cs \<Rightarrow>
      let negative = (cs \<noteq> [] \<and> hd cs = ''-'');
          rest = (if cs \<noteq> [] \<and> (hd cs = ''-'' \<or> hd cs = ''+'') then tl cs else cs);
          ds = takeWhile digit_rune rest in
      if ds = [] then None
      else map_option (\<lambda>v. (v, dropWhile digit_rune rest)) (int64_value negative (digits_value ds)))"

definition scan_literal :: "string \<Rightarrow> string list \<Rightarrow> string list option" where
  "scan_literal l cs = (case cs of [] \<Rightarrow> None | c # r \<Rightarrow> if c = l then Some r else None)"

definition scan_word :: "string list \<Rightarrow> string option" where
  "scan_word cs =
     (case skip_space cs of None \<Rightarrow> None | Some cs \<Rightarrow>
      if cs = [] then None
      else Some (concat (map rune_text (takeWhile (\<lambda>c. c \<notin> set space_runes) cs))))"

subsection \<open>The cursor\<close>

definition invalid_cursor :: service_error where
  "invalid_cursor = invalid ''invalid_cursor'' ''cursor is invalid''"

definition encode_run_cursor :: "int \<Rightarrow> ident \<Rightarrow> string" where
  "encode_run_cursor admitted_at i = b64_encode (show_int admitted_at @ '':'' @ i)"

definition decode_run_cursor :: "string \<Rightarrow> (int \<times> ident) result" where
  "decode_run_cursor value =
     (if value = '''' then Inr (0, '''')
      else case b64_decode value of
        None \<Rightarrow> Inl invalid_cursor
      | Some decoded \<Rightarrow>
          (case scan_int (utf8_chunks decoded) of
             None \<Rightarrow> Inl invalid_cursor
           | Some (admitted, rest) \<Rightarrow>
               (case scan_literal '':'' rest of
                  None \<Rightarrow> Inl invalid_cursor
                | Some rest \<Rightarrow>
                    (case scan_word rest of
                       None \<Rightarrow> Inl invalid_cursor
                     | Some i \<Rightarrow> if i = '''' then Inl invalid_cursor else Inr (admitted, i)))))"

subsection \<open>The round trip\<close>

definition visible :: "string \<Rightarrow> bool" where
  "visible s \<longleftrightarrow> list_all (in_range 33 126) s"

lemma visible_ascii: "visible s \<Longrightarrow> ascii s"
  by (auto simp: visible_def ascii_def in_range_def list_all_iff)

lemma visible_append [simp]: "visible (s @ t) \<longleftrightarrow> visible s \<and> visible t"
  by (simp add: visible_def)

lemma visible_not_space: "in_range 33 126 c \<Longrightarrow> [c] \<notin> set space_runes"
  using space_runes_ends by fastforce

lemma digit_char_decimal: "d < 10 \<Longrightarrow> is_decimal (digit_char d) \<and> byte (digit_char d) - 48 = d"
  by (simp add: is_decimal_def digit_char_def in_range_def byte_char_of)

lemma digits_value_snoc: "digits_value (ds @ [[c]]) = 10 * digits_value ds + (byte c - 48)"
  by (simp add: digits_value_def)

lemma show_nat_digits:
  "list_all is_decimal (show_nat n) \<and> show_nat n \<noteq> [] \<and> digits_value (map (\<lambda>c. [c]) (show_nat n)) = n"
proof (induction n rule: less_induct)
  case (less n)
  show ?case
  proof (cases "n < 10")
    case True
    then show ?thesis
      using digit_char_decimal [of n] by (simp add: show_nat_def base_digits.simps [of 10 n] digits_value_def)
  next
    case False
    then have "show_nat n = show_nat (n div 10) @ [digit_char (n mod 10)]"
      by (simp add: show_nat_def base_digits.simps [of 10 n])
    then show ?thesis
      using less [of "n div 10"] False digit_char_decimal [of "n mod 10"] by (simp add: digits_value_snoc)
  qed
qed

lemma decimal_visible: "list_all is_decimal s \<Longrightarrow> visible s"
  by (auto simp: visible_def list_all_iff is_decimal_def in_range_def)

lemma skip_space_visible: "visible s \<Longrightarrow> skip_space (map (\<lambda>c. [c]) s) = Some (map (\<lambda>c. [c]) s)"
  by (cases s) (auto simp: visible_def visible_not_space in_range_def chars_of_def byte_char_of)

lemma scan_digits:
  assumes "list_all is_decimal ds" "\<not> is_decimal c"
  shows "takeWhile digit_rune (map (\<lambda>c. [c]) (ds @ c # s)) = map (\<lambda>c. [c]) ds"
    "dropWhile digit_rune (map (\<lambda>c. [c]) (ds @ c # s)) = map (\<lambda>c. [c]) (c # s)"
  using assms by (induction ds) (auto simp: digit_rune_def)

lemma colon_not_decimal: "\<not> is_decimal (CHR '':'')"
  by (simp add: is_decimal_def in_range_def byte_def)

definition int64_range :: "int \<Rightarrow> bool" where
  "int64_range i \<longleftrightarrow> - (2 ^ 63) \<le> i \<and> i < 2 ^ 63"

lemma scan_int_show:
  assumes "int64_range a" "visible s"
  shows "scan_int (map (\<lambda>c. [c]) (show_int a @ '':'' @ s)) = Some (a, map (\<lambda>c. [c]) ('':'' @ s))"
proof -
  define n where "n = nat \<bar>a\<bar>"
  have digits: "list_all is_decimal (show_nat n)" "show_nat n \<noteq> []"
      "digits_value (map (\<lambda>c. [c]) (show_nat n)) = n"
    using show_nat_digits [of n] by simp_all
  have vis: "visible (show_int a @ '':'' @ s)"
    using assms(2) decimal_visible show_nat_digits
    by (auto simp: show_int_def visible_def in_range_def byte_def)
  have in_range64: "int64_value (a < 0) n = Some a"
    using assms(1) by (auto simp: int64_value_def int64_range_def n_def)
  have first: "hd (show_nat n) \<noteq> CHR ''-''" "hd (show_nat n) \<noteq> CHR ''+''"
    using digits(1,2) by (cases "show_nat n"; force simp: is_decimal_def in_range_def byte_def)+
  have shown: "show_int a = (if a < 0 then ''-'' else '''') @ show_nat n"
    by (simp add: show_int_def n_def)
  let ?rest = "map (\<lambda>c. [c]) (show_nat n @ CHR '':'' # s)"
  have head: "?rest \<noteq> [] \<and> hd ?rest \<noteq> ''-'' \<and> hd ?rest \<noteq> ''+''"
    using digits(2) first by (cases "show_nat n") simp_all
  have taken: "takeWhile digit_rune ?rest = map (\<lambda>c. [c]) (show_nat n)"
      "dropWhile digit_rune ?rest = map (\<lambda>c. [c]) (CHR '':'' # s)"
    using scan_digits [OF digits(1) colon_not_decimal] by blast+
  show ?thesis
  proof (cases "a < 0")
    case True
    then have "map (\<lambda>c. [c]) (show_int a @ '':'' @ s) = ''-'' # ?rest" by (simp add: shown)
    then show ?thesis
      using skip_space_visible [OF vis] taken digits(2,3) in_range64 True by (simp add: scan_int_def)
  next
    case False
    then have "map (\<lambda>c. [c]) (show_int a @ '':'' @ s) = ?rest" by (simp add: shown)
    then show ?thesis
      using skip_space_visible [OF vis] taken digits(2,3) in_range64 False head by (simp add: scan_int_def)
  qed
qed

lemma scan_word_visible:
  assumes "visible s" "s \<noteq> []"
  shows "scan_word (map (\<lambda>c. [c]) s) = Some s"
proof -
  have "takeWhile (\<lambda>c. c \<notin> set space_runes) (map (\<lambda>c. [c]) s) = map (\<lambda>c. [c]) s"
    using assms(1) by (auto simp: visible_def visible_not_space list_all_iff intro: takeWhile_eq_all_conv [THEN iffD2])
  moreover have "map (rune_text \<circ> (\<lambda>c. [c])) s = map (\<lambda>c. [c]) s"
    using visible_ascii [OF assms(1)] by (auto simp: rune_text_def ascii_def list_all_iff)
  moreover have "concat (map (\<lambda>c. [c]) s) = s" by (induction s) simp_all
  ultimately show ?thesis
    using skip_space_visible [OF assms(1)] assms(2)
    by (simp add: scan_word_def del: takeWhile_eq_all_conv map_eq_conv)
qed

lemma decode_encode_run_cursor:
  assumes "int64_range a" "visible i" "i \<noteq> []"
  shows "decode_run_cursor (encode_run_cursor a i) = Inr (a, i)"
proof -
  let ?text = "show_int a @ '':'' @ i"
  have "ascii ?text"
    using assms(2) decimal_visible show_nat_digits
    by (intro visible_ascii) (auto simp: show_int_def visible_def in_range_def byte_def)
  then have "utf8_chunks ?text = map (\<lambda>c. [c]) ?text" by (rule utf8_chunks_ascii)
  moreover have "b64_encode ?text \<noteq> ''''" by (simp add: b64_encode_Nil)
  ultimately show ?thesis
    using scan_int_show [OF assms(1,2)] scan_word_visible [OF assms(2,3)] assms(3)
    by (simp add: decode_run_cursor_def encode_run_cursor_def b64_decode_encode scan_literal_def)
qed

end
