(* ===== verification/Run_Pages.thy ===== *)
theory Run_Pages
  imports Runs Cursor Paging "HOL-Library.Product_Lexorder"
begin

text \<open>
  The pages of Runs (\<^verbatim>\<open>RunPage\<close>, \<^verbatim>\<open>RunSummaryPage\<close> of tasks.go): newest first, one row more than the limit
  to know whether there is another page, and a cursor that holds the instant and the id of the last Run
  shown. The lemma behind both: a client that follows the cursor sees every Run exactly once.
\<close>

record run_list_page =
  ra_runs :: "run_list_summary list"
  ra_next_cursor :: string

record run_page =
  rn_runs :: "run_view list"
  rn_next_cursor :: string

definition default_task_page_size :: int where "default_task_page_size = 50"
definition max_task_page_size :: int where "max_task_page_size = 200"

definition page_limit :: "int \<Rightarrow> nat result" where
  "page_limit limit =
     (let limit = (if limit = 0 then default_task_page_size else limit) in
      if limit < 1 \<or> max_task_page_size < limit
      then Inl (invalid ''invalid_limit'' ''limit must be between 1 and 200'')
      else Inr (nat limit))"

definition run_order :: "run \<Rightarrow> millis \<times> ident" where
  "run_order r = (run_admitted_at r, run_id r)"

definition runs_after :: "int \<times> ident \<Rightarrow> run list \<Rightarrow> run list" where
  "runs_after cursor rs =
     rev (sort_key run_order (filter (\<lambda>r. fst cursor = 0 \<or>
       run_admitted_at r < fst cursor \<or> run_admitted_at r = fst cursor \<and> run_id r < snd cursor) rs))"

definition next_run_cursor :: "nat \<Rightarrow> run list \<Rightarrow> string" where
  "next_run_cursor limit fetched =
     (if length fetched > limit
      then encode_run_cursor (run_admitted_at (last (take limit fetched))) (run_id (last (take limit fetched)))
      else '''')"

definition run_summary_page :: "int \<Rightarrow> db \<Rightarrow> int \<Rightarrow> string \<Rightarrow> run_list_page result" where
  "run_summary_page now d limit cursor =
     and_then (page_limit limit) (\<lambda>n.
     and_then (decode_run_cursor cursor) (\<lambda>c.
       let fetched = take (n + 1) (runs_after c (runs d)) in
       Inr \<lparr>ra_runs = map (run_list_summary_reply now d) (take n fetched), ra_next_cursor = next_run_cursor n fetched\<rparr>))"

fun run_list_entries :: "int \<Rightarrow> db \<Rightarrow> run list \<Rightarrow> run_view list result" where
  "run_list_entries now d [] = Inr []"
| "run_list_entries now d (r # rs) =
     and_then (run_list_entry now d (run_id r)) (\<lambda>v.
     and_then (run_list_entries now d rs) (\<lambda>vs. Inr (v # vs)))"

definition run_page_reply :: "int \<Rightarrow> db \<Rightarrow> int \<Rightarrow> string \<Rightarrow> run_page result" where
  "run_page_reply now d limit cursor =
     and_then (page_limit limit) (\<lambda>n.
     and_then (decode_run_cursor cursor) (\<lambda>c.
       let fetched = take (n + 1) (runs_after c (runs d)) in
       and_then (run_list_entries now d (take n fetched)) (\<lambda>vs.
         Inr \<lparr>rn_runs = vs, rn_next_cursor = next_run_cursor n fetched\<rparr>)))"

text \<open>A client that asks for the next page until there is no cursor.\<close>

fun follow_cursor :: "nat \<Rightarrow> (string \<Rightarrow> run_list_page) \<Rightarrow> string \<Rightarrow> run_list_summary list" where
  "follow_cursor 0 fetch cursor = []"
| "follow_cursor (Suc n) fetch cursor =
     (let p = fetch cursor
      in ra_runs p @ (if ra_next_cursor p = '''' then [] else follow_cursor n fetch (ra_next_cursor p)))"

text \<open>What an admission gives every Run: an id of its own, of visible characters, and an instant that is
  not the epoch.\<close>

definition run_keys_ok :: "run list \<Rightarrow> bool" where
  "run_keys_ok rs \<longleftrightarrow> distinct (map run_id rs) \<and>
     (\<forall>r \<in> set rs. visible (run_id r) \<and> run_id r \<noteq> '''' \<and> run_admitted_at r \<noteq> 0 \<and> int64_range (run_admitted_at r))"

definition newer :: "run \<Rightarrow> run \<Rightarrow> bool" where
  "newer x y \<longleftrightarrow> run_order y < run_order x"

definition newest_first :: "run list \<Rightarrow> run list" where
  "newest_first rs = rev (sort_key run_order rs)"

lemma newest_first_sorted:
  assumes "distinct (map run_id rs)"
  shows "sorted_wrt newer (newest_first rs)"
proof -
  have "distinct rs" using assms by (simp add: distinct_map)
  moreover have "inj_on run_order (set rs)"
    using assms by (auto simp: distinct_map inj_on_def run_order_def)
  ultimately have "distinct (map run_order (sort_key run_order rs))" by (simp add: distinct_map)
  then have "sorted_wrt (<) (map run_order (sort_key run_order rs))" by (simp add: strict_sorted_iff)
  then show ?thesis by (simp add: sorted_wrt_map newest_first_def sorted_wrt_rev newer_def)
qed

lemma runs_after_start: "runs_after (0, c) rs = newest_first rs"
  by (simp add: runs_after_def newest_first_def)

lemma runs_after_run:
  assumes "run_admitted_at x \<noteq> 0"
  shows "runs_after (run_order x) rs = filter (newer x) (newest_first rs)"
proof -
  have "newer x = (\<lambda>r. fst (run_order x) = 0 \<or> run_admitted_at r < fst (run_order x) \<or>
      run_admitted_at r = fst (run_order x) \<and> run_id r < snd (run_order x))"
    using assms by (auto simp: newer_def run_order_def)
  then show ?thesis by (simp add: runs_after_def newest_first_def rev_filter [symmetric] filter_sort)
qed

text \<open>One page read after a cursor that left the Runs \<open>rest\<close>, and the pages that follow it.\<close>

lemma follow_cursor_rest:
  assumes keys: "run_keys_ok (runs d)" and limit: "1 \<le> limit" "limit \<le> 200"
  shows "decode_run_cursor cursor = Inr c \<Longrightarrow> runs_after c (runs d) = rest \<Longrightarrow> suffix rest (newest_first (runs d)) \<Longrightarrow>
     length rest < fuel \<Longrightarrow>
     follow_cursor fuel (\<lambda>c. projr (run_summary_page now d limit c)) cursor = map (run_list_summary_reply now d) rest"
proof (induction fuel arbitrary: cursor c rest)
  case (Suc fuel)
  let ?n = "nat limit"
  have page: "run_summary_page now d limit cursor =
      Inr \<lparr>ra_runs = map (run_list_summary_reply now d) (take ?n rest),
           ra_next_cursor = next_run_cursor ?n (take (?n + 1) rest)\<rparr>"
    using limit Suc.prems(1,2)
    by (simp add: run_summary_page_def page_limit_def max_task_page_size_def Let_def min_def)
  show ?case
  proof (cases "?n < length rest")
    case False
    then show ?thesis by (simp add: page next_run_cursor_def)
  next
    case True
    let ?x = "last (take ?n rest)"
    have rest: "sorted_wrt newer rest"
      using newest_first_sorted keys Suc.prems(3) unfolding run_keys_ok_def suffix_def
      by (metis sorted_wrt_append)
    have "?x \<in> set rest" using True limit by (intro in_set_takeD [OF last_in_set]) auto
    then have "?x \<in> set (runs d)"
      using set_mono_suffix [OF Suc.prems(3)] by (auto simp: newest_first_def)
    then have x: "visible (run_id ?x)" "run_id ?x \<noteq> ''''" "run_admitted_at ?x \<noteq> 0" "int64_range (run_admitted_at ?x)"
      using keys by (auto simp: run_keys_ok_def)
    obtain before where before: "newest_first (runs d) = before @ rest" using Suc.prems(3) by (auto simp: suffix_def)
    have asym: "newer y z \<Longrightarrow> \<not> newer z y" for y z by (simp add: newer_def)
    have last: "last (take (length before + ?n) (before @ rest)) = ?x" using True limit by (auto simp: last_append)
    have "sorted_wrt newer (before @ rest)"
      using newest_first_sorted [of "runs d"] keys before by (simp add: run_keys_ok_def)
    from filter_after_last_taken [OF this asym, of "length before + ?n"]
    have "filter (newer ?x) (newest_first (runs d)) = drop (length before + ?n) (before @ rest)"
      using True limit unfolding last before by simp
    then have after: "runs_after (run_order ?x) (runs d) = drop ?n rest"
      using runs_after_run [OF x(3)] by simp
    have cursor: "next_run_cursor ?n (take (?n + 1) rest) = encode_run_cursor (run_admitted_at ?x) (run_id ?x)"
      using True by (simp add: next_run_cursor_def min_def)
    have decoded: "decode_run_cursor (encode_run_cursor (run_admitted_at ?x) (run_id ?x)) = Inr (run_order ?x)"
      using decode_encode_run_cursor [OF x(4,1,2)] by (simp add: run_order_def)
    have nonempty: "encode_run_cursor (run_admitted_at ?x) (run_id ?x) \<noteq> ''''"
      by (simp add: encode_run_cursor_def b64_encode_Nil)
    have "follow_cursor fuel (\<lambda>c. projr (run_summary_page now d limit c))
        (encode_run_cursor (run_admitted_at ?x) (run_id ?x)) = map (run_list_summary_reply now d) (drop ?n rest)"
      by (rule Suc.IH [OF decoded after])
        (use Suc.prems(4) True limit before in \<open>auto simp: suffix_def intro: exI [of _ "before @ take ?n rest"]\<close>)
    then show ?thesis using nonempty by (simp add: page cursor [simplified] flip: map_append)
  qed
qed simp

lemma follow_cursor_all:
  assumes "run_keys_ok (runs d)" "1 \<le> limit" "limit \<le> 200"
  shows "follow_cursor (Suc (length (runs d))) (\<lambda>c. projr (run_summary_page now d limit c)) '''' =
     map (run_list_summary_reply now d) (newest_first (runs d))"
  by (rule follow_cursor_rest [OF assms, of _ "(0, '''')"])
    (simp_all add: decode_run_cursor_def runs_after_start newest_first_def)

end
