(* ===== verification/Run_Properties.thy ===== *)
theory Run_Properties
  imports Example_Store Run_Pages "HOL-Library.Multiset"
begin

text \<open>
  What the operator reads of Runs: every reading agrees on the state of a Run, the state says what the Work
  of the Run has come to, cursors survive their encoding and the pages show every Run once.
\<close>

subsection \<open>The readings of a Run\<close>

lemma states_in_mset: "mset xs = mset ys \<Longrightarrow> states_in A xs = states_in A ys"
  unfolding states_in_def count_where_def by (metis mset_filter size_mset)

lemma sql_run_state_mset: "mset xs = mset ys \<Longrightarrow> sql_run_state xs = sql_run_state ys"
  by (simp add: sql_run_state_def Let_def states_in_mset [of xs ys] mset_eq_length [of xs ys])

lemma mset_run_sessions: "mset (run_sessions d i) = mset (filter (\<lambda>s. ss_run_id s = i) (sessions d))"
  by (simp add: run_sessions_def)

lemma sql_run_state_entries:
  "sql_run_state (run_session_states d i) = sql_run_state (map fst (map session_entry (run_sessions d i)))"
  by (rule sql_run_state_mset) (simp add: run_session_states_def session_entry_def mset_run_sessions comp_def)

lemma run_sessions_Nil: "run_sessions d i = [] \<longleftrightarrow> run_session_states d i = []"
  using mset_run_sessions [of d i] by (simp add: run_session_states_def flip: mset_zero_iff)

lemma rv_state_apply_run_aggregate:
  "rv_state (apply_run_aggregate now es run) = rv_state (apply_run_aggregate now' es run')"
  by (simp only: apply_run_aggregate_state)

text \<open>C20. Every reading of a Run (its detail, its entry and its summary in the lists, its own summary) shows the
  same state, and for a Run that has Work this is the state that the SQL statement behind the last Run state of a Task
  computes.\<close>

theorem run_readings_agree:
  assumes "find_run d i = Some r" "run_session_states d i \<noteq> []"
    "run_reply now d i = Inr detail" "run_list_entry now' d i = Inr entry" "run_summary_reply now'' d i = Inr summary"
  shows "rv_state entry = rv_state (dt_run detail) \<and> ry_state summary = rv_state (dt_run detail) \<and>
    rl_state (run_list_summary_reply now''' d r) = rv_state (dt_run detail) \<and>
    sql_run_state (run_session_states d i) = run_state_text (rv_state (dt_run detail))"
proof -
  have "run_id r = i" using assms(1) by (auto simp: find_run_def dest: find_Some_set)
  moreover have "sql_run_state (run_session_states d i) =
      run_state_text (rv_state (apply_run_aggregate now (map session_entry (run_sessions d i)) v))" for v
    unfolding sql_run_state_entries by (rule run_state_forms_agree) (use assms(2) in \<open>simp add: run_sessions_Nil\<close>)
  ultimately show ?thesis
    using assms rv_state_apply_run_aggregate
    by (auto simp: run_reply_def run_list_entry_def run_summary_reply_def run_list_summary_reply_def Let_def)
qed

lemma run_readings_agree_witness:
  "let d = demo_db AttemptRunning [] StagePending StagePending in
     sql_run_state (run_session_states d ''run-1'') = ''running''"
proof -
  let ?d = "demo_db AttemptRunning [] StagePending StagePending"
  have r: "find_run ?d ''run-1'' = Some (demo_run None)" "run_session_states ?d ''run-1'' \<noteq> []"
    by (simp_all add: find_run_def demo_db_def demo_run_def run_session_states_def demo_session_def)
  obtain a b c where views: "run_reply 0 ?d ''run-1'' = Inr a" "run_list_entry 0 ?d ''run-1'' = Inr b"
      "run_summary_reply 0 ?d ''run-1'' = Inr c"
    by (simp add: run_reply_def run_list_entry_def run_summary_reply_def r(1) Let_def)
  have work: "map session_entry (run_sessions ?d ''run-1'') = [(SessionRunning, ''''), (SessionBlocked, '''')]"
    by (simp add: run_sessions_def demo_db_def demo_session_def demo_target_def session_entry_def coalesce_def)
  have "rv_state (dt_run a) = RunRunning"
    using views(1) unfolding run_reply_def r(1) by (auto simp: Let_def work apply_run_aggregate_state)
  then show ?thesis using run_readings_agree [OF r views] by simp
qed

lemma states_in_0: "states_in A xs = 0 \<longleftrightarrow> list_all (\<lambda>st. st \<notin> A) xs"
  by (induction xs) auto

lemma states_in_length: "states_in A xs = length xs \<longleftrightarrow> list_all (\<lambda>st. st \<in> A) xs"
proof (induction xs)
  case (Cons x xs)
  have "states_in A xs \<le> length xs" by (simp add: states_in_def count_where_def)
  with Cons show ?case by auto
qed simp

text \<open>The state of a Run says what its Work has come to: it has succeeded when all of its Work has ended well,
  it is cancelled when there is Work and all of it was cancelled, it has failed when nothing is open, nothing
  has ended well and something has failed, and it is partial when nothing is open and none of these holds; it
  is blocked exactly when all of its Work waits, and there is Work.\<close>

theorem run_state_summarises_work:
  "let states = map fst es; state = rv_state (apply_run_aggregate now es run);
       succeeded = (\<lambda>st. st = SessionSucceeded \<or> st = SessionReady \<or> st = SessionNoChange);
       waiting = (\<lambda>st. st = SessionBlocked \<or> st = SessionNeedsInput);
       all_ended = list_all (\<lambda>st. \<not> session_nonterminal st) states in
     (state = RunSucceeded) = list_all succeeded states \<and>
     (state = RunCancelled) = (states \<noteq> [] \<and> list_all (\<lambda>st. st = SessionCancelled) states) \<and>
     (state = RunFailed) = (all_ended \<and> list_all (\<lambda>st. \<not> succeeded st) states \<and> SessionFailed \<in> set states) \<and>
     (state = RunBlocked) = (states \<noteq> [] \<and> list_all waiting states) \<and>
     (state \<in> {RunSucceeded, RunFailed, RunPartial, RunCancelled}) = all_ended"
proof -
  let ?s = "map fst es"
  note counts = states_in_0 [of _ ?s] states_in_length [of _ ?s]
  have succ: "states_in {SessionReady, SessionSucceeded, SessionNoChange} ?s = length ?s \<longleftrightarrow>
      list_all (\<lambda>st. st = SessionSucceeded \<or> st = SessionReady \<or> st = SessionNoChange) ?s"
    unfolding counts list_all_iff by blast
  have none: "states_in {SessionReady, SessionSucceeded, SessionNoChange} ?s = 0 \<longleftrightarrow>
      list_all (\<lambda>st. \<not> (st = SessionSucceeded \<or> st = SessionReady \<or> st = SessionNoChange)) ?s"
    unfolding counts list_all_iff by blast
  have failed: "0 < states_in {SessionFailed} ?s \<longleftrightarrow> SessionFailed \<in> set ?s"
    using counts(1) [of "{SessionFailed}"] unfolding list_all_iff by (metis neq0_conv singletonD singletonI)
  have cancelled: "states_in {SessionCancelled} ?s = length ?s \<longleftrightarrow> list_all (\<lambda>st. st = SessionCancelled) ?s"
    unfolding counts list_all_iff by blast
  have waiting: "states_in {SessionBlocked, SessionNeedsInput} ?s = length ?s \<longleftrightarrow>
      list_all (\<lambda>st. st = SessionBlocked \<or> st = SessionNeedsInput) ?s"
    unfolding counts list_all_iff by blast
  have ended: "states_in {SessionBlocked, SessionNeedsInput} ?s + states_in {SessionQueued} ?s +
        states_in {SessionPreparing, SessionRunning} ?s = 0 \<longleftrightarrow> list_all (\<lambda>st. \<not> session_nonterminal st) ?s"
    unfolding states_in_open [symmetric] counts by (auto simp: list_all_iff state_predicates)
  have empty: "?s = [] \<longleftrightarrow> length ?s = 0" by simp
  show ?thesis
    unfolding Let_def apply_run_aggregate_state
    unfolding succ [symmetric] none [symmetric] failed [symmetric] cancelled [symmetric] waiting [symmetric]
      ended [symmetric] empty
    using states_in_all [of ?s] by (auto split: if_splits)
qed

subsection \<open>Cursors and pages\<close>

text \<open>A cursor is read back as the instant and the id that it was made of, for every instant that 64 bits
  hold and every id of visible characters.\<close>

theorem cursor_round_trip:
  assumes "int64_range admitted_at" "visible i" "i \<noteq> ''''"
  shows "decode_run_cursor (encode_run_cursor admitted_at i) = Inr (admitted_at, i)"
  using assms by (rule decode_encode_run_cursor)

lemma cursor_round_trip_witness:
  "decode_run_cursor (encode_run_cursor (- 7) ''run-1'') = Inr (- 7, ''run-1'')"
  by (rule cursor_round_trip) (simp_all add: int64_range_def visible_def in_range_def byte_def)

text \<open>C21. A client that follows the cursors of the Run list reads the summary of every Run exactly once, newest
  first and by id where instants are equal, whatever the page size.\<close>

theorem run_pages_are_complete:
  assumes "run_keys_ok (runs d)" "1 \<le> limit" "limit \<le> 200"
  shows "follow_cursor (Suc (length (runs d))) (\<lambda>c. projr (run_summary_page now d limit c)) '''' =
      map (run_list_summary_reply now d) (newest_first (runs d)) \<and>
    sorted_wrt newer (newest_first (runs d)) \<and> mset (newest_first (runs d)) = mset (runs d)"
  using follow_cursor_all [OF assms] newest_first_sorted [of "runs d"] assms(1)
  by (simp add: run_keys_ok_def newest_first_def)

lemma run_pages_are_complete_witness:
  "let d = (demo_db AttemptRunning [] StagePending StagePending)\<lparr>runs :=
       [demo_run None, (demo_run None)\<lparr>run_id := ''run-2''\<rparr>, (demo_run None)\<lparr>run_id := ''run-3'', run_admitted_at := 5\<rparr>]\<rparr> in
     map rl_id (follow_cursor 4 (\<lambda>c. projr (run_summary_page 0 d 1 c)) '''') = [''run-3'', ''run-2'', ''run-1'']"
proof -
  let ?rs = "[demo_run None, (demo_run None)\<lparr>run_id := ''run-2''\<rparr>, (demo_run None)\<lparr>run_id := ''run-3'', run_admitted_at := 5\<rparr>]"
  let ?d = "(demo_db AttemptRunning [] StagePending StagePending)\<lparr>runs := ?rs\<rparr>"
  have ok: "run_keys_ok (runs ?d)"
    by (simp add: run_keys_ok_def demo_run_def visible_def in_range_def byte_def int64_range_def)
  have "''run-1'' < ''run-2''" by code_simp
  then have "newest_first ?rs = [(demo_run None)\<lparr>run_id := ''run-3'', run_admitted_at := 5\<rparr>, (demo_run None)\<lparr>run_id := ''run-2''\<rparr>, demo_run None]"
    by (simp add: newest_first_def run_order_def demo_run_def)
  then have ids: "map run_id (newest_first ?rs) = [''run-3'', ''run-2'', ''run-1'']" by (simp add: demo_run_def)
  have summary: "rl_id (run_list_summary_reply 0 ?d r) = run_id r" for r
    by (simp add: run_list_summary_reply_def Let_def)
  have size: "runs ?d = ?rs" "Suc (length ?rs) = 4" by simp_all
  have "follow_cursor 4 (\<lambda>c. projr (run_summary_page 0 ?d 1 c)) '''' =
      map (run_list_summary_reply 0 ?d) (newest_first ?rs)"
    by (rule run_pages_are_complete [OF ok, of 1 0, unfolded size, THEN conjunct1]) simp_all
  then have "map rl_id (follow_cursor 4 (\<lambda>c. projr (run_summary_page 0 ?d 1 c)) '''') =
      map run_id (newest_first ?rs)"
    by (simp only: map_map comp_def summary)
  then show ?thesis unfolding Let_def ids .
qed

end
