(* ===== verification/Operator.thy ===== *)
theory Operator
  imports Completion Continuation Routing Runs
begin

text \<open>
  What the operator does to Work: cancelling a Run or one of its Work items, retrying failed or cancelled
  Work (tasks.go, with the guards of work.go), and answering the question of waiting Work (resume.go). The
  recursive query behind the guard of a retry is read level by level, and shown to end.
\<close>

subsection \<open>Cancelling\<close>

definition cancelled_by_operator :: string where
  "cancelled_by_operator = ''Cancelled by operator.''"

definition stops_at_once :: "session \<Rightarrow> bool" where
  "stops_at_once s \<longleftrightarrow>
     ss_state s = SessionBlocked \<or> ss_state s = SessionQueued \<or> ss_state s = SessionNeedsInput \<or>
     ss_execution_owner s = ExecutionOwnerOperator"

definition cancel_session_row :: "millis \<Rightarrow> session \<Rightarrow> session" where
  "cancel_session_row now s =
     (let stop = stops_at_once s in
      s\<lparr>ss_state := (if stop then SessionCancelled else ss_state s),
        ss_cancellation_requested := (if session_executing (ss_state s) then True else ss_cancellation_requested s),
        ss_terminal_at := (if stop then Some now else ss_terminal_at s),
        ss_execution_owner := (if stop then ExecutionOwnerNone else ss_execution_owner s),
        ss_terminal_message := (if stop then cancelled_by_operator else ss_terminal_message s)\<rparr>)"

definition cancel_execution_row :: "millis \<Rightarrow> execution \<Rightarrow> execution" where
  "cancel_execution_row now e =
     e\<lparr>ex_state := (if ex_state e = ExecutionQueued then ExecutionCancelled else ex_state e),
       ex_cancellation_requested := (if execution_executing (ex_state e) then True else ex_cancellation_requested e),
       ex_updated_at := now\<rparr>"

definition execution_open :: "execution \<Rightarrow> bool" where
  "execution_open e \<longleftrightarrow> ex_state e = ExecutionQueued \<or> execution_executing (ex_state e)"

text \<open>The statements that both operations run on the Work that \<open>P\<close> selects: \<open>P\<close> reads keys and the state
  before the first of them, \<open>work\<close> says whose executions and stages are meant.\<close>

definition cancel_work :: "millis \<Rightarrow> (session \<Rightarrow> bool) \<Rightarrow> (ident \<Rightarrow> bool) \<Rightarrow> db \<Rightarrow> db" where
  "cancel_work now P work d =
     (let d1 = d\<lparr>sessions := update_where P (cancel_session_row now) (sessions d)\<rparr>;
          d2 = d1\<lparr>executions := update_where (\<lambda>e. work (ex_session_id e) \<and> execution_open e)
                 (cancel_execution_row now) (executions d1)\<rparr>
      in d2\<lparr>session_stages := update_where
           (\<lambda>g. work (sg_session_id g) \<and>
              list_ex (\<lambda>s. ss_id s = sg_session_id g \<and> ss_state s = SessionCancelled) (sessions d2) \<and>
              (sg_state g = StagePending \<or> sg_state g = StageRunning))
           (\<lambda>g. g\<lparr>sg_state := StageCancelled, sg_completed_at := Some now\<rparr>) (session_stages d2)\<rparr>)"

definition cancel_run_tx :: "millis \<Rightarrow> db \<Rightarrow> ident \<Rightarrow> (unit \<times> db) result" where
  "cancel_run_tx now d i =
     (if count_where (\<lambda>r. run_id r = i) (runs d) = 0 then Inl err_not_found
      else Inr ((), refresh_run now i
        (cancel_work now (\<lambda>s. ss_run_id s = i \<and> session_nonterminal (ss_state s))
           (\<lambda>w. list_ex (\<lambda>s. ss_id s = w \<and> ss_run_id s = i) (sessions d)) d)))"

definition cancel_run :: "int \<Rightarrow> db \<Rightarrow> ident \<Rightarrow> run_detail result \<times> db" where
  "cancel_run now d i = committed d (cancel_run_tx (unix_milli now) d i) (\<lambda>d' _. run_reply now d' i)"

definition find_run_session :: "db \<Rightarrow> ident \<Rightarrow> ident \<Rightarrow> session option" where
  "find_run_session d i w = find (\<lambda>s. ss_id s = w \<and> ss_run_id s = i) (sessions d)"

definition cancel_session_tx :: "millis \<Rightarrow> db \<Rightarrow> ident \<Rightarrow> ident \<Rightarrow> (unit \<times> db) result" where
  "cancel_session_tx now d i w =
     (case find_run_session d i w of
        None \<Rightarrow> Inl err_not_found
      | Some s \<Rightarrow>
          if \<not> session_nonterminal (ss_state s)
          then Inl (conflict ''session_cancel_not_allowed'' ''only active Sessions can be cancelled'')
          else Inr ((), refresh_run now i
            (cancel_work now (\<lambda>s. ss_id s = w \<and> ss_run_id s = i) (\<lambda>x. x = w) d)))"

definition cancel_session :: "int \<Rightarrow> db \<Rightarrow> ident \<Rightarrow> ident \<Rightarrow> run_detail result \<times> db" where
  "cancel_session now d i w =
     committed d (cancel_session_tx (unix_milli now) d i w) (\<lambda>d' _. run_reply now d' i)"

subsection \<open>The lineage of Work\<close>

text \<open>
  \<^verbatim>\<open>WITH RECURSIVE lineage(work_id, root_id)\<close>: the Work without a predecessor, and then, level by level,
  the Work that replaced Work of the level before, with the root it descends from. A chain of
  predecessors is no longer than the table, so as many levels as rows are all there are.
\<close>

fun lineage_level :: "session list \<Rightarrow> nat \<Rightarrow> (ident \<times> ident) list" where
  "lineage_level ss 0 = map (\<lambda>s. (ss_id s, ss_id s)) (filter (\<lambda>s. ss_predecessor_work_id s = None) ss)"
| "lineage_level ss (Suc n) =
     concat (map (\<lambda>c. map (\<lambda>(w, root). (ss_id c, root))
       (filter (\<lambda>(w, root). ss_predecessor_work_id c = Some w) (lineage_level ss n))) ss)"

definition lineage :: "session list \<Rightarrow> (ident \<times> ident) list" where
  "lineage ss = concat (map (lineage_level ss) [0..<length ss])"

definition validate_work_retry_guards :: "db \<Rightarrow> session \<Rightarrow> unit result" where
  "validate_work_retry_guards d s =
     (if count_where (\<lambda>c. ss_predecessor_work_id c = Some (ss_id s)) (sessions d) \<noteq> 0
      then Inl (conflict ''work_replaced'' ''replaced Work cannot be retried'')
      else
        let matching =
          (if tg_target_kind (ss_target s) = ''work_item'' then
             count_where (\<lambda>c. ss_id c \<noteq> ss_id s \<and> ss_repository_id c = ss_repository_id s \<and>
               tg_source_kind (ss_target c) = tg_source_kind (ss_target s) \<and>
               tg_source_key (ss_target c) = tg_source_key (ss_target s) \<and>
               session_nonterminal (ss_state c)) (sessions d)
           else
             let rows = lineage (sessions d) in
             sum_list (map (\<lambda>c.
               if ss_id c \<noteq> ss_id s \<and> ss_repository_id c = ss_repository_id s \<and> session_nonterminal (ss_state c)
               then count_where (\<lambda>((w, root), (v, other)). w = ss_id c \<and> v = ss_id s \<and> root = other)
                 (List.product rows rows)
               else 0) (sessions d)))
        in if matching \<noteq> 0 then Inl (conflict ''matching_work_active'' ''matching nonterminal Work already exists'')
           else Inr ())"

subsection \<open>Retrying\<close>

definition new_execution :: "ident \<Rightarrow> ident \<Rightarrow> ident \<Rightarrow> string \<Rightarrow> millis \<Rightarrow> nat \<Rightarrow> execution" where
  "new_execution i w worker runtime now retries =
     \<lparr>ex_id = i, ex_session_id = w, ex_assigned_worker_id = worker, ex_required_runtime = runtime,
      ex_state = ExecutionQueued, ex_cancellation_requested = False, ex_retry_count = retries,
      ex_created_at = now, ex_updated_at = now\<rparr>"

definition retry_execution :: "millis \<Rightarrow> ident \<Rightarrow> session \<Rightarrow> ident \<Rightarrow> db \<Rightarrow> db" where
  "retry_execution now new_id s worker d =
     (case session_execution_row d (ss_id s) of
        None \<Rightarrow> d\<lparr>executions := executions d @ [new_execution new_id (ss_id s) worker (ss_required_runtime s) now 1]\<rparr>
      | Some e \<Rightarrow> d\<lparr>executions := update_where (\<lambda>x. ex_id x = ex_id e)
          (\<lambda>x. x\<lparr>ex_assigned_worker_id := worker, ex_state := ExecutionQueued, ex_cancellation_requested := False,
             ex_retry_count := ex_retry_count x + 1, ex_updated_at := now\<rparr>) (executions d)\<rparr>)"

definition retry_session_row :: "ident \<Rightarrow> bool \<Rightarrow> session \<Rightarrow> session" where
  "retry_session_row worker may_repeat s =
     s\<lparr>ss_state := SessionQueued, ss_blocked_reason := None, ss_assigned_worker_id := Some worker,
       ss_cancellation_requested := False, ss_retry_may_repeat_effects := may_repeat, ss_started_at := None,
       ss_terminal_at := None, ss_result := None, ss_failure_reason := None, ss_terminal_message := '''',
       ss_waiting_reason := '''', ss_execution_owner := ExecutionOwnerNone\<rparr>"

definition reset_stage :: "session_stage \<Rightarrow> session_stage" where
  "reset_stage g = g\<lparr>sg_state := StagePending, sg_result := '''', sg_error := '''', sg_started_at := None,
     sg_completed_at := None\<rparr>"

definition reopen_run :: "millis \<Rightarrow> ident \<Rightarrow> db \<Rightarrow> db" where
  "reopen_run now i d = d\<lparr>runs := update_where (\<lambda>r. run_id r = i)
     (\<lambda>r. r\<lparr>run_updated_at := now, run_terminal_at := None\<rparr>) (runs d)\<rparr>"

text \<open>Scanning a \<^verbatim>\<open>NULL\<close> limit into an \<^verbatim>\<open>int\<close> fails.\<close>

definition retry_session_tx :: "millis \<Rightarrow> ident \<Rightarrow> db \<Rightarrow> ident \<Rightarrow> ident \<Rightarrow> (unit \<times> db) result" where
  "retry_session_tx now new_id d i w =
     (case find_run_session d i w of
        None \<Rightarrow> Inl err_not_found
      | Some s \<Rightarrow>
          if ss_state s \<noteq> SessionFailed \<and> ss_state s \<noteq> SessionCancelled
          then Inl (conflict ''session_retry_not_allowed'' ''only failed or cancelled Sessions can be retried'')
          else if ss_execution_owner s \<noteq> ExecutionOwnerNone
          then Inl (conflict ''work_owned'' ''owned Work cannot be retried'')
          else
            and_then (validate_work_retry_guards d s) (\<lambda>_.
              case Option.bind (find_run d i) concurrency_limit of
                None \<Rightarrow> Inl unavailable
              | Some limit \<Rightarrow>
                  if run_session_count session_occupies_slot d i \<ge> limit
                  then Inl (conflict ''task_concurrency_full'' ''retry this Session after another active Session finishes'')
                  else
                    and_then (select_session_route d (ss_repository_id s) (ss_repository_identity s) now ''''
                        (ss_required_runtime s)) (\<lambda>(c, d1).
                      let d2 = retry_execution now new_id s (rc_worker_id c) d1;
                          d3 = d2\<lparr>sessions := update_where (\<lambda>x. ss_id x = w)
                            (retry_session_row (rc_worker_id c) (ss_started_at s \<noteq> None \<or> ss_retry_may_repeat_effects s))
                            (sessions d2)\<rparr>;
                          d4 = d3\<lparr>session_stages := update_where (\<lambda>g. sg_session_id g = w) reset_stage (session_stages d3)\<rparr>
                      in Inr ((), reopen_run now i d4))))"

definition retry_session :: "int \<Rightarrow> ident \<Rightarrow> db \<Rightarrow> ident \<Rightarrow> ident \<Rightarrow> run_detail result \<times> db" where
  "retry_session now new_id d i w =
     committed d (retry_session_tx (unix_milli now) new_id d i w) (\<lambda>d' _. run_reply now d' i)"

subsection \<open>Answering a question\<close>

definition stored_work_answer :: "db \<Rightarrow> ident \<Rightarrow> string \<Rightarrow> work_answer option" where
  "stored_work_answer d w q = find (\<lambda>a. wa_work_id a = w \<and> wa_request_id a = q) (work_answers d)"

definition work_answer_reply :: "db \<Rightarrow> ident \<Rightarrow> work_answer result" where
  "work_answer_reply d i =
     (case find (\<lambda>a. wa_id a = i) (work_answers d) of None \<Rightarrow> Inl unavailable | Some a \<Rightarrow> Inr a)"

definition waiting_for_worker :: string where
  "waiting_for_worker = ''Waiting for a healthy compatible Worker with repository access.''"

text \<open>The Worker that resumes the Work, or why none does; with the reservation that the placement made.\<close>

definition resume_route :: "db \<Rightarrow> session \<Rightarrow> millis \<Rightarrow> ((string \<times> string) \<times> db) result" where
  "resume_route d s now =
     (case select_session_route d (ss_repository_id s) (ss_repository_identity s) now '''' (ss_required_runtime s) of
        Inr (c, d') \<Rightarrow> Inr ((rc_worker_id c, ''''), d')
      | Inl err \<Rightarrow>
          if service_error_code err ''no_eligible_worker'' \<or> service_error_code err ''repository_not_managed''
          then Inr (('''', waiting_for_worker), d)
          else Inl err)"

definition queue_existing_execution :: "ident \<Rightarrow> ident \<Rightarrow> string \<Rightarrow> string \<Rightarrow> millis \<Rightarrow> db \<Rightarrow> db" where
  "queue_existing_execution new_id w worker runtime now d =
     (case session_execution_row d w of
        None \<Rightarrow> d\<lparr>executions := executions d @ [new_execution new_id w worker runtime now 0]\<rparr>
      | Some e \<Rightarrow> d\<lparr>executions := update_where (\<lambda>x. ex_id x = ex_id e)
          (\<lambda>x. x\<lparr>ex_assigned_worker_id := coalesce_nullif worker (ex_assigned_worker_id x), ex_state := ExecutionQueued,
             ex_cancellation_requested := False, ex_updated_at := now\<rparr>) (executions d)\<rparr>)"

definition check_answer :: "ident \<Rightarrow> work_answer_request \<Rightarrow> unit result" where
  "check_answer w input =
     (if \<not> valid_uuid w \<or> \<not> valid_uuid (ar_request_id input)
      then Inl (invalid ''invalid_answer_identity'' ''work_id and request_id must be UUIDs'')
      else if \<not> utf8_valid (ar_message input) \<or> trim_space (ar_message input) = ''''
      then Inl (invalid ''invalid_answer'' ''answer must be non-empty UTF-8 text'')
      else if length (ar_message input) > max_answer_bytes
      then Inl (too_large ''answer_too_large'' ''answer exceeds 8 KiB'')
      else Inr ())"

definition last_question :: "db \<Rightarrow> ident \<Rightarrow> work_update option" where
  "last_question d w =
     (case rev (sort_key wu_sequence
             (filter (\<lambda>u. wu_work_id u = w \<and> wu_status u = WorkUpdateNeedsInput) (work_updates d))) of
        [] \<Rightarrow> None
      | u # _ \<Rightarrow> Some u)"

definition insert_work_answer :: "work_answer \<Rightarrow> db \<Rightarrow> db result" where
  "insert_work_answer a d =
     (if list_ex (\<lambda>b. wa_id b = wa_id a \<or> wa_question_update_id b = wa_question_update_id a \<or>
           wa_work_id b = wa_work_id a \<and> wa_request_id b = wa_request_id a) (work_answers d)
      then Inl unavailable
      else Inr (d\<lparr>work_answers := work_answers d @ [a]\<rparr>))"

definition answer_session_row :: "string \<Rightarrow> string \<Rightarrow> string \<Rightarrow> session \<Rightarrow> session" where
  "answer_session_row worker blocked_reason message s =
     s\<lparr>ss_state := (if worker = '''' then SessionBlocked else SessionQueued),
       ss_blocked_reason := null_string blocked_reason, ss_assigned_worker_id := null_string worker,
       ss_cancellation_requested := False, ss_terminal_at := None, ss_result := None, ss_failure_reason := None,
       ss_terminal_message := '''',
       ss_waiting_reason := bounded_utf8_bytes blocked_reason max_waiting_reason_bytes,
       ss_execution_owner := ExecutionOwnerNone, ss_answer := message\<rparr>"

definition reopen_last_stage :: "ident \<Rightarrow> db \<Rightarrow> db" where
  "reopen_last_stage w d = d\<lparr>session_stages :=
     update_where (\<lambda>g. sg_session_id g = w \<and>
       list_all (\<lambda>h. sg_session_id h = w \<longrightarrow> sg_position h \<le> sg_position g) (session_stages d))
       reset_stage (session_stages d)\<rparr>"

text \<open>The placement of answered Work: a Worker if the Run has a free slot and one is found.\<close>

definition place_answered ::
    "millis \<Rightarrow> ident \<Rightarrow> session \<Rightarrow> db \<Rightarrow> ((string \<times> string) \<times> db) result" where
  "place_answered now new_id s d =
     (case Option.bind (find_run d (ss_run_id s)) concurrency_limit of
        None \<Rightarrow> Inl unavailable
      | Some limit \<Rightarrow>
          and_then
            (if run_session_count session_occupies_slot d (ss_run_id s) < limit then resume_route d s now
             else Inr (('''', task_concurrency_blocked_reason), d))
            (\<lambda>((worker, reason), d1).
              Inr ((worker, reason),
                if worker \<noteq> '''' then queue_existing_execution new_id (ss_id s) worker (ss_required_runtime s) now d1
                else d1)))"

definition answer_work_tx ::
    "millis \<Rightarrow> ident \<Rightarrow> ident \<Rightarrow> db \<Rightarrow> ident \<Rightarrow> work_answer_request \<Rightarrow> (work_answer option \<times> db) result" where
  "answer_work_tx now answer_id new_id d w input =
     and_then (check_answer w input) (\<lambda>_.
       case stored_work_answer d w (ar_request_id input) of
         Some stored \<Rightarrow>
           if wa_message stored \<noteq> ar_message input
           then Inl (conflict ''answer_request_conflict'' ''request_id was already used with a different answer'')
           else Inr (Some stored, d)
       | None \<Rightarrow>
           (case find_session d w of
              None \<Rightarrow> Inl err_not_found
            | Some s \<Rightarrow>
                if ss_state s \<noteq> SessionNeedsInput \<or> ss_execution_owner s \<noteq> ExecutionOwnerNone
                then Inl (conflict ''work_answer_not_allowed'' ''only unowned needs-input Work can be answered'')
                else if \<not> valid_commit_sha (ss_pending_resume_sha s)
                then Inl (conflict ''resume_checkpoint_missing''
                  ''needs-input Work has no authoritative pending resume commit'')
                else if es_backend (ss_execution s) \<noteq> BackendPersistent
                then Inl (conflict ''agent_update_backend_unsupported''
                  ''resumable Work requires the persistent execution backend'')
                else
                  (case last_question d w of
                     None \<Rightarrow> Inl (conflict ''resume_question_missing'' ''needs-input Work has no recorded question update'')
                   | Some u \<Rightarrow>
                       and_then (validate_continuation d w (ss_question s) (ar_message input)
                         [\<lparr>ch_sequence = wu_sequence u, ch_kind = ''answer'', ch_status = '''',
                           ch_actor = update_actor_text WorkUpdateActorOperator, ch_message = ar_message input,
                           ch_pull_request_url = '''', ch_pull_request_head_branch = '''', ch_pull_request_head_sha = '''',
                           ch_checkpoint_sha = '''', ch_accepted_at_millis = now, ch_trusted = True,
                           ch_message_truncated = False\<rparr>]) (\<lambda>_.
                       and_then (insert_work_answer
                         \<lparr>wa_id = answer_id, wa_work_id = w, wa_question_update_id = wu_id u,
                          wa_request_id = ar_request_id input, wa_message = ar_message input, wa_accepted_at = now\<rparr> d)
                         (\<lambda>d1.
                       and_then (place_answered now new_id s d1) (\<lambda>((worker, reason), d2).
                         let d3 = d2\<lparr>sessions := update_where (\<lambda>x. ss_id x = w \<and> ss_state x = SessionNeedsInput)
                               (answer_session_row worker reason (ar_message input)) (sessions d2)\<rparr>
                         in Inr (None, reopen_run now (ss_run_id s) (reopen_last_stage w d3))))))))"

definition answer_work ::
    "int \<Rightarrow> ident \<Rightarrow> ident \<Rightarrow> db \<Rightarrow> ident \<Rightarrow> work_answer_request \<Rightarrow> work_answer result \<times> db" where
  "answer_work now answer_id new_id d w input =
     committed d (answer_work_tx (unix_milli now) answer_id new_id d w input)
       (\<lambda>d' stored. case stored of Some a \<Rightarrow> Inr a | None \<Rightarrow> work_answer_reply d' answer_id)"

subsection \<open>The lineage query ends, and finds what it is meant to\<close>

inductive descends :: "session list \<Rightarrow> ident \<Rightarrow> ident \<Rightarrow> bool" for ss where
  descends_root: "s \<in> set ss \<Longrightarrow> ss_predecessor_work_id s = None \<Longrightarrow> descends ss (ss_id s) (ss_id s)"
| descends_child: "c \<in> set ss \<Longrightarrow> ss_predecessor_work_id c = Some w \<Longrightarrow> descends ss w root \<Longrightarrow> descends ss (ss_id c) root"

lemma in_lineage_level_Suc:
  "(w, root) \<in> set (lineage_level ss (Suc n)) \<longleftrightarrow>
   (\<exists>c \<in> set ss. ss_id c = w \<and> (\<exists>v. ss_predecessor_work_id c = Some v \<and> (v, root) \<in> set (lineage_level ss n)))"
  by auto

declare lineage_level.simps(2) [simp del]

lemma lineage_level_ids: "(w, root) \<in> set (lineage_level ss n) \<Longrightarrow> w \<in> ss_id ` set ss"
  by (cases n) (auto simp: in_lineage_level_Suc)

lemma lineage_level_unique:
  assumes "distinct (map ss_id ss)"
  shows "(w, r) \<in> set (lineage_level ss m) \<Longrightarrow> (w, q) \<in> set (lineage_level ss n) \<Longrightarrow> m = n"
proof (induction m arbitrary: w r q n)
  case 0
  then obtain s where s: "s \<in> set ss" "ss_id s = w" "ss_predecessor_work_id s = None" by auto
  show ?case
  proof (cases n)
    case (Suc k)
    with 0(2) obtain c where "c \<in> set ss" "ss_id c = w" "ss_predecessor_work_id c \<noteq> None"
      by (auto simp: in_lineage_level_Suc)
    then show ?thesis using key_unique [OF assms, of c s] s by simp
  qed simp
next
  case (Suc m)
  from Suc.prems(1) obtain c v where c: "c \<in> set ss" "ss_id c = w" "ss_predecessor_work_id c = Some v"
      "(v, r) \<in> set (lineage_level ss m)"
    by (auto simp: in_lineage_level_Suc)
  show ?case
  proof (cases n)
    case 0
    with Suc.prems(2) obtain s where "s \<in> set ss" "ss_id s = w" "ss_predecessor_work_id s = None" by auto
    then show ?thesis using key_unique [OF assms, of c s] c by simp
  next
    case (Suc k)
    with Suc.prems(2) obtain b u where "b \<in> set ss" "ss_id b = w" "ss_predecessor_work_id b = Some u"
        "(u, q) \<in> set (lineage_level ss k)"
      by (auto simp: in_lineage_level_Suc)
    then show ?thesis using key_unique [OF assms, of b c] c Suc.IH [OF c(4)] Suc by simp
  qed
qed

lemma lineage_level_down: "lineage_level ss n \<noteq> [] \<Longrightarrow> m \<le> n \<Longrightarrow> lineage_level ss m \<noteq> []"
proof (induction n)
  case (Suc n)
  then obtain w r where "(w, r) \<in> set (lineage_level ss (Suc n))" by (metis list.set_sel(1) prod.collapse)
  then have "lineage_level ss n \<noteq> []" unfolding in_lineage_level_Suc by auto
  with Suc show ?case by (cases "m = Suc n") auto
qed simp

lemma lineage_level_ends:
  assumes "distinct (map ss_id ss)" "length ss \<le> n"
  shows "lineage_level ss n = []"
proof (rule ccontr)
  assume "lineage_level ss n \<noteq> []"
  define f where "f m = fst (hd (lineage_level ss m))" for m
  have f: "\<exists>r. (f m, r) \<in> set (lineage_level ss m)" if "m \<le> n" for m
    using lineage_level_down [OF \<open>lineage_level ss n \<noteq> []\<close> that] unfolding f_def
    by (metis list.set_sel(1) prod.collapse)
  have "inj_on f {..n}"
    by (intro inj_onI) (metis assms(1) f lineage_level_unique atMost_iff)
  moreover have "f ` {..n} \<subseteq> ss_id ` set ss" using f lineage_level_ids by fastforce
  ultimately have "card {..n} \<le> card (ss_id ` set ss)" by (metis card_inj_on_le finite_imageI finite_set)
  also have "\<dots> \<le> length ss" by (metis card_length list.set_map length_map)
  finally show False using assms(2) by simp
qed

lemma descends_level: "descends ss w root \<Longrightarrow> \<exists>n. (w, root) \<in> set (lineage_level ss n)"
proof (induction rule: descends.induct)
  case (descends_root s)
  then have "(ss_id s, ss_id s) \<in> set (lineage_level ss 0)" by auto
  then show ?case ..
next
  case (descends_child c w root)
  then obtain n where "(w, root) \<in> set (lineage_level ss n)" by blast
  with descends_child have "(ss_id c, root) \<in> set (lineage_level ss (Suc n))" by (auto simp: in_lineage_level_Suc)
  then show ?case ..
qed

lemma level_descends: "(w, root) \<in> set (lineage_level ss n) \<Longrightarrow> descends ss w root"
  by (induction n arbitrary: w) (auto simp: in_lineage_level_Suc intro: descends.intros)

lemma set_lineage:
  assumes "distinct (map ss_id ss)"
  shows "(w, root) \<in> set (lineage ss) \<longleftrightarrow> descends ss w root"
proof
  assume "descends ss w root"
  then obtain n where n: "(w, root) \<in> set (lineage_level ss n)" by (blast dest: descends_level)
  then have "n < length ss" using lineage_level_ends [OF assms, of n] by (cases "length ss \<le> n") auto
  with n show "(w, root) \<in> set (lineage ss)" by (auto simp: lineage_def)
qed (auto simp: lineage_def dest: level_descends)

lemma descends_unique:
  assumes "distinct (map ss_id ss)"
  shows "descends ss w root \<Longrightarrow> descends ss w other \<Longrightarrow> root = other"
proof (induction arbitrary: other rule: descends.induct)
  case (descends_root s)
  note root = descends_root(1,2)
  from descends_root(3) show ?case
  proof (cases rule: descends.cases)
    case (descends_child b v)
    then show ?thesis using key_unique [OF assms, of s b] root by simp
  qed simp
next
  case (descends_child c w root)
  note child = descends_child(1,2) and IH = descends_child(4)
  from descends_child(5) show ?case
  proof (cases rule: descends.cases)
    case (descends_root s)
    then show ?thesis using key_unique [OF assms, of s c] child by simp
  next
    case (descends_child b v)
    then have "b = c" using key_unique [OF assms, of b c] child by simp
    with descends_child child IH show ?thesis by simp
  qed
qed

subsection \<open>Cancelling keeps the store well formed\<close>

lemma stops_at_once_iff:
  "session_row_ok s \<Longrightarrow> session_nonterminal (ss_state s) \<Longrightarrow> stops_at_once s \<longleftrightarrow> \<not> session_executing (ss_state s)"
  by (cases "ss_state s") (auto simp: session_row_ok_def stops_at_once_def state_predicates)

lemma cancel_session_row_simps [simp]:
  "ss_id (cancel_session_row now s) = ss_id s" "ss_run_id (cancel_session_row now s) = ss_run_id s"
  "ss_predecessor_work_id (cancel_session_row now s) = ss_predecessor_work_id s"
  "ss_repository_id (cancel_session_row now s) = ss_repository_id s"
  "ss_state (cancel_session_row now s) = (if stops_at_once s then SessionCancelled else ss_state s)"
  by (simp_all add: cancel_session_row_def Let_def)

lemma cancel_session_row_ok: "session_row_ok s \<Longrightarrow> session_row_ok (cancel_session_row now s)"
  by (auto simp: cancel_session_row_def session_row_ok_def Let_def stops_at_once_def state_predicates)

lemma cancel_execution_row_simps [simp]:
  "ex_id (cancel_execution_row now e) = ex_id e" "ex_session_id (cancel_execution_row now e) = ex_session_id e"
  "ex_state (cancel_execution_row now e) = (if ex_state e = ExecutionQueued then ExecutionCancelled else ex_state e)"
  by (simp_all add: cancel_execution_row_def)

lemma cancel_work_tables [simp]:
  "runs (cancel_work now P work d) = runs d" "attempts (cancel_work now P work d) = attempts d"
  "sessions (cancel_work now P work d) = update_where P (cancel_session_row now) (sessions d)"
  "executions (cancel_work now P work d) =
     update_where (\<lambda>e. work (ex_session_id e) \<and> execution_open e) (cancel_execution_row now) (executions d)"
  "work_updates (cancel_work now P work d) = work_updates d"
  "agent_update_requests (cancel_work now P work d) = agent_update_requests d"
  "attempt_events (cancel_work now P work d) = attempt_events d"
  "worker_repositories (cancel_work now P work d) = worker_repositories d"
  "workers (cancel_work now P work d) = workers d" "repositories (cancel_work now P work d) = repositories d"
  by (simp_all add: cancel_work_def Let_def)

lemma cancel_work_stages:
  "in_place (\<lambda>g. if work (sg_session_id g) \<and>
       list_ex (\<lambda>s. ss_id s = sg_session_id g \<and> ss_state s = SessionCancelled)
         (update_where P (cancel_session_row now) (sessions d)) \<and>
       (sg_state g = StagePending \<or> sg_state g = StageRunning)
     then g\<lparr>sg_state := StageCancelled, sg_completed_at := Some now\<rparr> else g)
   (session_stages d) (session_stages (cancel_work now P work d))"
  by (simp add: cancel_work_def Let_def in_place_update)

lemma cancel_work_same_keys [simp]: "same_keys d (cancel_work now P work d)"
  by (simp add: same_keys_def cancel_work_def Let_def map_update_where)

lemma cancel_work_core_ok:
  assumes ok: "core_ok d"
    and sel: "\<And>s. s \<in> set (sessions d) \<Longrightarrow> P s \<longleftrightarrow> work (ss_id s) \<and> session_nonterminal (ss_state s)"
  shows "core_ok (cancel_work now P work d)"
proof (rule core_ok_map [OF ok cancel_work_same_keys])
  note ok' = core_okD [OF ok]
  let ?fs = "\<lambda>s. if P s then cancel_session_row now s else s"
  let ?fe = "\<lambda>e. if work (ex_session_id e) \<and> execution_open e then cancel_execution_row now e else e"
  show "in_place ?fs (sessions d) (sessions (cancel_work now P work d))"
    "in_place ?fe (executions d) (executions (cancel_work now P work d))"
    "in_place (\<lambda>a. a) (attempts d) (attempts (cancel_work now P work d))"
    by (simp_all add: in_place_intros)
  show "is_active (at_state a) \<and> ex_state (?fe e) = execution_of_attempt (at_state a)"
    if "a \<in> set (attempts d)" "e \<in> set (executions d)" "ex_id e = at_execution_id a" "is_active (at_state a)" for a e
    using lifecycle_attempt_execution [OF ok'(3) that] execution_of_active [OF that(4)] that(4)
    by (auto simp: state_predicates)
  show "states_agree (ex_state (?fe e)) (ss_state (?fs s))"
    if es: "e \<in> set (executions d)" "s \<in> set (sessions d)" "ss_id s = ex_session_id e" for e s
    using lifecycle_states_agree [OF ok'(3) es] sel [OF es(2)] es(3) stops_at_once_iff [of s] core_ok_session [OF ok es(2)]
    by (auto simp: states_agree_def state_predicates execution_open_def)
  show "\<exists>e \<in> set (executions d). ex_session_id e = ss_id s"
    if "s \<in> set (sessions d)" "session_occupies_slot (ss_state (?fs s))" for s
    using lifecycle_slot_execution [OF ok'(3) that(1)] that(2) by (auto simp: state_predicates split: if_splits)
  show "session_row_ok (?fs s)" if "session_row_ok s" for s using that by (simp add: cancel_session_row_ok)
qed (auto simp: state_predicates split: if_splits)

lemma cancel_work_store_ok:
  assumes ok: "store_ok d"
    and sel: "\<And>s. s \<in> set (sessions d) \<Longrightarrow> P s \<longleftrightarrow> work (ss_id s) \<and> session_nonterminal (ss_state s)"
    and run: "\<And>s. s \<in> set (sessions d) \<Longrightarrow> P s \<Longrightarrow> ss_run_id s = i"
  shows "store_ok (refresh_run now i (cancel_work now P work d))"
  by (rule refresh_run_store_ok [OF cancel_work_core_ok [OF store_okD(6) [OF ok] sel] store_okD(5) [OF ok],
        where fs = "\<lambda>s. if P s then cancel_session_row now s else s"])
    (use run in \<open>auto simp: in_place_intros\<close>)

lemma cancel_work_stages_ok: "stages_ok d \<Longrightarrow> stages_ok (cancel_work now P work d)"
  by (rule stages_ok_map [OF _ cancel_work_stages]) (auto split: if_splits)

text \<open>Both operations select, of one Run, the Work that is not terminal.\<close>

lemma find_run_session_Some:
  "find_run_session d i w = Some s \<Longrightarrow> s \<in> set (sessions d) \<and> ss_id s = w \<and> ss_run_id s = i"
  unfolding find_run_session_def by (drule find_Some_set) simp

lemma cancel_run_selects:
  "keys_ok d \<Longrightarrow> s \<in> set (sessions d) \<Longrightarrow>
   ss_run_id s = i \<and> session_nonterminal (ss_state s) \<longleftrightarrow>
   list_ex (\<lambda>t. ss_id t = ss_id s \<and> ss_run_id t = i) (sessions d) \<and> session_nonterminal (ss_state s)"
  using session_unique [of d _ s] by (auto simp: list_ex_iff)

lemma cancel_run_ok:
  assumes "store_ok d" "cancel_run_tx now d i = Inr (u, d')"
  shows "store_ok d'"
proof -
  have "d' = refresh_run now i (cancel_work now (\<lambda>s. ss_run_id s = i \<and> session_nonterminal (ss_state s))
      (\<lambda>w. list_ex (\<lambda>s. ss_id s = w \<and> ss_run_id s = i) (sessions d)) d)"
    using assms(2) by (simp add: cancel_run_tx_def split: if_splits)
  then show ?thesis
    by (simp only:) (rule cancel_work_store_ok [OF assms(1) cancel_run_selects [OF store_okD(1) [OF assms(1)]]], blast+)
qed

lemma cancel_session_ok:
  assumes "store_ok d" "cancel_session_tx now d i w = Inr (u, d')"
  shows "store_ok d'"
proof -
  obtain s where s: "find_run_session d i w = Some s" "session_nonterminal (ss_state s)"
    and d': "d' = refresh_run now i (cancel_work now (\<lambda>s. ss_id s = w \<and> ss_run_id s = i) (\<lambda>x. x = w) d)"
    using assms(2) by (auto simp: cancel_session_tx_def split: option.splits if_splits)
  have sel: "ss_id t = w \<and> ss_run_id t = i \<longleftrightarrow> ss_id t = w \<and> session_nonterminal (ss_state t)"
    if "t \<in> set (sessions d)" for t
    using session_unique [OF store_okD(1) [OF assms(1)] that, of s] find_run_session_Some [OF s(1)] s(2) by auto
  show ?thesis unfolding d' by (rule cancel_work_store_ok [OF assms(1) sel]) simp_all
qed

subsection \<open>Queueing Work keeps the store well formed\<close>

text \<open>Work that no Worker holds gets a new execution.\<close>

lemma core_ok_new_execution:
  assumes ok: "core_ok d" and s: "s \<in> set (sessions d)" "session_execution_row d (ss_id s) = None"
    and x: "ex_id x \<notin> ex_id ` set (executions d)" "ex_session_id x = ss_id s" "ex_state x = ExecutionQueued"
    and tables: "executions d' = executions d @ [x]" "in_place fs (sessions d) (sessions d')" "attempts d' = attempts d"
      "map run_id (runs d') = map run_id (runs d)"
      "map (\<lambda>g. (sg_session_id g, sg_position g)) (session_stages d') =
       map (\<lambda>g. (sg_session_id g, sg_position g)) (session_stages d)"
    and keys: "\<And>t. ss_id (fs t) = ss_id t" "\<And>t. ss_run_id (fs t) = ss_run_id t"
    and others: "\<And>t. t \<in> set (sessions d) \<Longrightarrow> t \<noteq> s \<Longrightarrow> fs t = t"
    and new: "ss_state (fs s) = SessionQueued" "session_row_ok (fs s)"
  shows "core_ok d'"
  unfolding core_ok_def
proof (intro conjI)
  note ok' = core_okD [OF ok] and sessions = tables(2) [unfolded in_place_def]
  have none: "\<forall>e \<in> set (executions d). ex_session_id e \<noteq> ss_id s" using s(2) by (simp add: session_execution_row_None)
  have state: "fs t = t \<or> t = s" if "t \<in> set (sessions d)" for t using others that by blast
  show "keys_ok d'"
    using ok'(1) none x(1,2) by (auto simp: keys_ok_def tables sessions comp_def keys)
  have runs: "run_id ` set (runs d') = run_id ` set (runs d)" using tables(4) by (metis list.set_map)
  show "refs_ok d'"
    using ok'(2) s(1) x(2) by (auto simp: refs_ok_def tables sessions keys image_image runs)
  show "session_rows_ok d'"
    using ok'(4) new(2) state by (simp add: session_rows_ok_def sessions list_all_iff) metis
  have att: "at_execution_id a \<noteq> ex_id x" if "a \<in> set (attempts d)" for a
    using attempt_execution_exists [OF ok'(2) that] x(1) by (metis image_eqI)
  show "lifecycle_ok d'"
    unfolding lifecycle_ok_def tables(1,3) sessions
  proof (intro conjI)
    show "\<forall>a \<in> set (attempts d). \<forall>e \<in> set (executions d @ [x]). ex_id e = at_execution_id a \<longrightarrow>
        is_active (at_state a) \<longrightarrow> ex_state e = execution_of_attempt (at_state a)"
      using lifecycle_attempt_execution [OF ok'(3)] by (auto dest: att)
    show "\<forall>a \<in> set (attempts d). \<forall>b \<in> set (attempts d). at_execution_id a = at_execution_id b \<longrightarrow>
        is_active (at_state a) \<longrightarrow> is_active (at_state b) \<longrightarrow> at_id a = at_id b"
      using lifecycle_one_active [OF ok'(3)] by blast
    show "\<forall>e \<in> set (executions d @ [x]). execution_executing (ex_state e) \<longrightarrow>
        (\<exists>a \<in> set (attempts d). at_execution_id a = ex_id e \<and> is_active (at_state a))"
      using lifecycle_executing_attempt [OF ok'(3)] x(3) by (auto simp: state_predicates)
    show "\<forall>e \<in> set (executions d @ [x]). \<forall>t \<in> set (map fs (sessions d)).
        ss_id t = ex_session_id e \<longrightarrow> states_agree (ex_state e) (ss_state t)"
    proof (intro ballI impI)
      fix e t assume e: "e \<in> set (executions d @ [x])" and t: "t \<in> set (map fs (sessions d))" and link: "ss_id t = ex_session_id e"
      obtain q where q: "q \<in> set (sessions d)" "t = fs q" using t by auto
      then have id: "ss_id q = ex_session_id e" using link keys by simp
      show "states_agree (ex_state e) (ss_state t)"
      proof (cases "e = x")
        case True
        then have "q = s" using session_unique [OF ok'(1) q(1) s(1)] id x(2) by simp
        with True q new(1) x(3) show ?thesis by (simp add: states_agree_def)
      next
        case False
        then have "e \<in> set (executions d)" "q \<noteq> s" using e none id by auto
        with others [OF q(1)] lifecycle_states_agree [OF ok'(3) _ q(1) id] q(2) show ?thesis by simp
      qed
    qed
    show "\<forall>t \<in> set (map fs (sessions d)). session_occupies_slot (ss_state t) \<longrightarrow>
        (\<exists>e \<in> set (executions d @ [x]). ex_session_id e = ss_id t)"
      using lifecycle_slot_execution [OF ok'(3)] others x(2) keys by (auto) metis
  qed
qed

text \<open>Either way, a fresh execution or the one that it has: Work that is not executing is queued.\<close>

lemma queued_core_ok:
  assumes ok: "core_ok d" and s: "s \<in> set (sessions d)" "\<not> session_executing (ss_state s)"
    and fresh: "new_id \<notin> ex_id ` set (executions d)"
    and executions: "executions d' = (case session_execution_row d (ss_id s) of
          None \<Rightarrow> executions d @ [x]
        | Some e \<Rightarrow> update_where (\<lambda>y. ex_id y = ex_id e) f (executions d))"
    and x: "ex_id x = new_id" "ex_session_id x = ss_id s" "ex_state x = ExecutionQueued"
    and f: "\<And>y. ex_id (f y) = ex_id y" "\<And>y. ex_session_id (f y) = ex_session_id y" "\<And>y. ex_state (f y) = ExecutionQueued"
    and sessions: "sessions d' = update_where P g (sessions d)" "\<And>t. t \<in> set (sessions d) \<Longrightarrow> P t \<longleftrightarrow> t = s"
    and g: "\<And>t. ss_id (g t) = ss_id t" "\<And>t. ss_run_id (g t) = ss_run_id t" "ss_state (g s) = SessionQueued"
      "session_row_ok (g s)"
    and frame: "attempts d' = attempts d" "map run_id (runs d') = map run_id (runs d)"
      "map (\<lambda>g. (sg_session_id g, sg_position g)) (session_stages d') =
       map (\<lambda>g. (sg_session_id g, sg_position g)) (session_stages d)"
  shows "core_ok d'"
proof (cases "session_execution_row d (ss_id s)")
  case None
  show ?thesis
  proof (rule core_ok_new_execution [OF ok s(1) None])
    show "in_place (\<lambda>t. if P t then g t else t) (sessions d) (sessions d')" by (simp add: sessions(1) in_place_update)
    show "executions d' = executions d @ [x]" using executions None by simp
  qed (use fresh x frame g sessions(2) s(1) in auto)
next
  case (Some e)
  note ok' = core_okD [OF ok]
  have e: "e \<in> set (executions d)" "ex_session_id e = ss_id s" using session_execution_row_Some [OF Some] by auto
  have idle: "\<not> execution_executing (ex_state e)"
    using states_agree_executing [OF lifecycle_states_agree [OF ok'(3) e(1) s(1)]] e(2) s(2) by simp
  have places: "in_place (\<lambda>t. if P t then g t else t) (sessions d) (sessions d')"
      "in_place (\<lambda>y. if ex_id y = ex_id e then f y else y) (executions d) (executions d')"
      "in_place (\<lambda>a. a) (attempts d) (attempts d')"
    using Some by (simp_all add: sessions(1) executions frame in_place_intros)
  have same: "same_keys d d'"
    using frame Some by (simp add: same_keys_def sessions(1) executions map_update_where f g)
  show ?thesis
    by (rule core_ok_idle [OF ok same places e(1) s(1) e(2) [symmetric] idle])
      (use execution_unique [OF ok'(1) _ e(1)] sessions(2) s(1) f(3) g(3,4)
       in \<open>auto simp: states_agree_def state_predicates\<close>)
qed

text \<open>Work that moves between states in which it has no claim on a Worker.\<close>

lemma core_ok_parked:
  assumes ok: "core_ok d" and keys: "same_keys d d'" and tables: "in_place fs (sessions d) (sessions d')"
      "executions d' = executions d" "attempts d' = attempts d"
    and parked: "\<And>s. s \<in> set (sessions d) \<Longrightarrow> ss_state (fs s) = ss_state s \<or>
        \<not> session_occupies_slot (ss_state s) \<and> \<not> session_occupies_slot (ss_state (fs s))"
    and row: "\<And>s. s \<in> set (sessions d) \<Longrightarrow> session_row_ok s \<Longrightarrow> session_row_ok (fs s)"
  shows "core_ok d'"
proof (rule core_ok_map [OF ok keys tables(1)])
  note ok' = core_okD [OF ok]
  show "in_place (\<lambda>e. e) (executions d) (executions d')" "in_place (\<lambda>a. a) (attempts d) (attempts d')"
    by (simp_all add: tables in_place_same)
  show "is_active (at_state a) \<and> ex_state e = execution_of_attempt (at_state a)"
    if "a \<in> set (attempts d)" "e \<in> set (executions d)" "ex_id e = at_execution_id a" "is_active (at_state a)" for a e
    using lifecycle_attempt_execution [OF ok'(3) that] that(4) by simp
  show "states_agree (ex_state e) (ss_state (fs s))"
    if "e \<in> set (executions d)" "s \<in> set (sessions d)" "ss_id s = ex_session_id e" for e s
    using lifecycle_states_agree [OF ok'(3) that] parked [OF that(2)] by (auto simp: states_agree_def state_predicates)
  show "\<exists>e \<in> set (executions d). ex_session_id e = ss_id s"
    if "s \<in> set (sessions d)" "session_occupies_slot (ss_state (fs s))" for s
    using lifecycle_slot_execution [OF ok'(3) that(1)] parked [OF that(1)] that(2) by metis
qed (use row in simp_all)

lemma reopen_run_store_ok:
  assumes "core_ok d'" "runs_ok d" "in_place fs (sessions d) (sessions d')" "runs d' = runs d"
    and "\<And>s. s \<in> set (sessions d) \<Longrightarrow> ss_run_id (fs s) = ss_run_id s"
    and "\<And>s. s \<in> set (sessions d) \<Longrightarrow> ss_run_id s \<noteq> i \<Longrightarrow>
        session_nonterminal (ss_state (fs s)) = session_nonterminal (ss_state s)"
    and "s \<in> set (sessions d')" "ss_run_id s = i" "session_nonterminal (ss_state s)"
  shows "store_ok (reopen_run now i d')"
proof -
  have "\<not> run_finished d' i" using assms(7-9) by (auto simp: run_finished_iff)
  then have "reopen_run now i d' = refresh_run now i d'" by (simp add: reopen_run_def refresh_run_def)
  with refresh_run_store_ok [OF assms(1-6)] show ?thesis by simp
qed

subsection \<open>Retry and answer keep the store well formed\<close>

lemma retry_session_tx_Inr:
  assumes "retry_session_tx now new_id d i w = Inr (u, d')"
  obtains s r limit c d1 where "find_run_session d i w = Some s"
    "ss_state s = SessionFailed \<or> ss_state s = SessionCancelled" "ss_execution_owner s = ExecutionOwnerNone"
    "validate_work_retry_guards d s = Inr ()" "find_run d i = Some r" "concurrency_limit r = Some limit"
    "run_session_count session_occupies_slot d i < limit"
    "select_session_route d (ss_repository_id s) (ss_repository_identity s) now '''' (ss_required_runtime s) = Inr (c, d1)"
    "d' = reopen_run now i (let d2 = retry_execution now new_id s (rc_worker_id c) d1;
         d3 = d2\<lparr>sessions := update_where (\<lambda>x. ss_id x = w)
           (retry_session_row (rc_worker_id c) (ss_started_at s \<noteq> None \<or> ss_retry_may_repeat_effects s)) (sessions d2)\<rparr>
       in d3\<lparr>session_stages := update_where (\<lambda>g. sg_session_id g = w) reset_stage (session_stages d3)\<rparr>)"
  using assms
  by (auto simp: retry_session_tx_def and_then_Inr Let_def bind_eq_Some_conv split: option.splits if_splits prod.splits)

lemma retry_session_row_simps [simp]:
  "ss_id (retry_session_row worker rep s) = ss_id s" "ss_run_id (retry_session_row worker rep s) = ss_run_id s"
  "ss_state (retry_session_row worker rep s) = SessionQueued"
  "session_row_ok (retry_session_row worker rep s)"
  by (simp_all add: retry_session_row_def session_row_ok_def state_predicates)

lemma new_execution_simps [simp]:
  "ex_id (new_execution i w worker runtime now n) = i" "ex_session_id (new_execution i w worker runtime now n) = w"
  "ex_state (new_execution i w worker runtime now n) = ExecutionQueued"
  by (simp_all add: new_execution_def)

lemma reset_stage_keys [simp]:
  "sg_session_id (reset_stage g) = sg_session_id g" "sg_position (reset_stage g) = sg_position g"
  "sg_state (reset_stage g) = StagePending"
  by (simp_all add: reset_stage_def)

text \<open>What a retry leaves in each table.\<close>

lemma retry_tables:
  assumes route: "select_session_route d ri identity now v runtime = Inr (c, d1)"
    and d': "d' = reopen_run now i (let d2 = retry_execution now new_id s (rc_worker_id c) d1;
         d3 = d2\<lparr>sessions := update_where (\<lambda>x. ss_id x = w) f (sessions d2)\<rparr>
       in d3\<lparr>session_stages := update_where (\<lambda>g. sg_session_id g = w) reset_stage (session_stages d3)\<rparr>)"
  shows "sessions d' = update_where (\<lambda>x. ss_id x = w) f (sessions d)" "attempts d' = attempts d"
    "executions d' = (case session_execution_row d (ss_id s) of
        None \<Rightarrow> executions d @ [new_execution new_id (ss_id s) (rc_worker_id c) (ss_required_runtime s) now 1]
      | Some e \<Rightarrow> update_where (\<lambda>x. ex_id x = ex_id e)
          (\<lambda>x. x\<lparr>ex_assigned_worker_id := rc_worker_id c, ex_state := ExecutionQueued, ex_cancellation_requested := False,
             ex_retry_count := ex_retry_count x + 1, ex_updated_at := now\<rparr>) (executions d))"
    "session_stages d' = update_where (\<lambda>g. sg_session_id g = w) reset_stage (session_stages d)"
    "runs d' = update_where (\<lambda>r. run_id r = i) (\<lambda>r. r\<lparr>run_updated_at := now, run_terminal_at := None\<rparr>) (runs d)"
    "work_updates d' = work_updates d" "agent_update_requests d' = agent_update_requests d"
    "attempt_events d' = attempt_events d" "worker_repositories d' = worker_repositories d1" "workers d' = workers d"
    "repositories d' = repositories d"
proof -
  note place = session_route.place_tables [of d "(ri, identity, now, v, runtime)" c d1, simplified, OF route]
    session_route.place_lookups [of d "(ri, identity, now, v, runtime)" c d1, simplified, OF route]
  note defs = d' reopen_run_def retry_execution_def Let_def place
  show "sessions d' = update_where (\<lambda>x. ss_id x = w) f (sessions d)" "attempts d' = attempts d"
    "executions d' = (case session_execution_row d (ss_id s) of
        None \<Rightarrow> executions d @ [new_execution new_id (ss_id s) (rc_worker_id c) (ss_required_runtime s) now 1]
      | Some e \<Rightarrow> update_where (\<lambda>x. ex_id x = ex_id e)
          (\<lambda>x. x\<lparr>ex_assigned_worker_id := rc_worker_id c, ex_state := ExecutionQueued, ex_cancellation_requested := False,
             ex_retry_count := ex_retry_count x + 1, ex_updated_at := now\<rparr>) (executions d))"
    "session_stages d' = update_where (\<lambda>g. sg_session_id g = w) reset_stage (session_stages d)"
    "runs d' = update_where (\<lambda>r. run_id r = i) (\<lambda>r. r\<lparr>run_updated_at := now, run_terminal_at := None\<rparr>) (runs d)"
    "work_updates d' = work_updates d" "agent_update_requests d' = agent_update_requests d"
    "attempt_events d' = attempt_events d" "worker_repositories d' = worker_repositories d1" "workers d' = workers d"
    "repositories d' = repositories d"
    by (simp_all add: defs split: option.split)
qed

lemma retry_session_ok:
  assumes ok: "store_ok d" and fresh: "new_id \<notin> ex_id ` set (executions d)"
    and tx: "retry_session_tx now new_id d i w = Inr (u, d')"
  shows "store_ok d'"
proof -
  from tx obtain s r limit c d1 where s: "find_run_session d i w = Some s"
    and st: "ss_state s = SessionFailed \<or> ss_state s = SessionCancelled"
    and route: "select_session_route d (ss_repository_id s) (ss_repository_identity s) now '''' (ss_required_runtime s) = Inr (c, d1)"
    and d': "d' = reopen_run now i (let d2 = retry_execution now new_id s (rc_worker_id c) d1;
         d3 = d2\<lparr>sessions := update_where (\<lambda>x. ss_id x = w)
           (retry_session_row (rc_worker_id c) (ss_started_at s \<noteq> None \<or> ss_retry_may_repeat_effects s)) (sessions d2)\<rparr>
       in d3\<lparr>session_stages := update_where (\<lambda>g. sg_session_id g = w) reset_stage (session_stages d3)\<rparr>)"
    by (rule retry_session_tx_Inr)
  note s' = find_run_session_Some [OF s] and t = retry_tables [OF route d']
  have only: "x \<in> set (sessions d) \<Longrightarrow> ss_id x = w \<longleftrightarrow> x = s" for x
    using session_unique [OF store_okD(1) [OF ok], of x s] s' by auto
  have core: "core_ok d'"
  proof (rule queued_core_ok [OF store_okD(6) [OF ok] _ _ fresh t(3) _ _ _ _ _ _ t(1) only])
    show "s \<in> set (sessions d)" "\<not> session_executing (ss_state s)" using s' st by (auto simp: state_predicates)
  qed (simp_all add: t map_update_where)
  let ?q = "retry_session_row (rc_worker_id c) (ss_started_at s \<noteq> None \<or> ss_retry_may_repeat_effects s) s"
  have "?q \<in> set (sessions d')" unfolding t(1) set_update_where by (rule image_eqI [of _ _ s]) (use s' in simp_all)
  then have "\<not> run_finished d' i"
    using s' by (auto simp: run_finished_iff state_predicates intro!: bexI [of _ ?q])
  have place: "in_place (\<lambda>x. if ss_id x = w then retry_session_row (rc_worker_id c)
      (ss_started_at s \<noteq> None \<or> ss_retry_may_repeat_effects s) x else x) (sessions d) (sessions d')"
    unfolding t(1) by (rule in_place_update)
  have "runs_ok d'"
    by (rule runs_ok_refresh [OF store_okD(5) [OF ok] place, of i now])
      (use s' only \<open>\<not> run_finished d' i\<close> in \<open>auto simp: t(5)\<close>)
  with core show ?thesis by (simp add: store_ok_def)
qed

definition requeue_execution :: "ident \<Rightarrow> millis \<Rightarrow> execution \<Rightarrow> execution" where
  "requeue_execution worker now e = e\<lparr>ex_assigned_worker_id := coalesce_nullif worker (ex_assigned_worker_id e),
     ex_state := ExecutionQueued, ex_cancellation_requested := False, ex_updated_at := now\<rparr>"

lemma requeue_execution_simps [simp]:
  "ex_id (requeue_execution worker now e) = ex_id e" "ex_session_id (requeue_execution worker now e) = ex_session_id e"
  "ex_state (requeue_execution worker now e) = ExecutionQueued"
  by (simp_all add: requeue_execution_def)

lemma queue_existing_execution_tables:
  "queue_existing_execution new_id w worker runtime now d = d\<lparr>executions :=
     (case session_execution_row d w of
        None \<Rightarrow> executions d @ [new_execution new_id w worker runtime now 0]
      | Some e \<Rightarrow> update_where (\<lambda>x. ex_id x = ex_id e) (requeue_execution worker now) (executions d))\<rparr>"
  by (simp add: queue_existing_execution_def requeue_execution_def [abs_def] split: option.split)

lemma resume_route_Inr:
  assumes "resume_route d s now = Inr ((worker, reason), d')"
  shows "(\<exists>c. select_session_route d (ss_repository_id s) (ss_repository_identity s) now '''' (ss_required_runtime s) = Inr (c, d')
      \<and> worker = rc_worker_id c \<and> reason = '''') \<or> worker = '''' \<and> reason = waiting_for_worker \<and> d' = d"
  using assms by (auto simp: resume_route_def split: sum.splits if_splits)

lemma resume_route_tables:
  assumes "resume_route d s now = Inr ((worker, reason), d')"
  shows "d' = d\<lparr>worker_repositories := worker_repositories d'\<rparr>"
  using resume_route_Inr [OF assms] select_session_route_reserves by force

lemma place_answered_Inr:
  assumes "place_answered now new_id s d = Inr ((worker, reason), d')"
  obtains r limit d1 where "find_run d (ss_run_id s) = Some r" "concurrency_limit r = Some limit"
    "d1 = d\<lparr>worker_repositories := worker_repositories d1\<rparr>"
    "worker \<noteq> '''' \<longrightarrow> run_session_count session_occupies_slot d (ss_run_id s) < limit"
    "d' = (if worker = '''' then d1
       else queue_existing_execution new_id (ss_id s) worker (ss_required_runtime s) now d1)"
    "d1 = d \<or> resume_route d s now = Inr ((worker, reason), d1)"
proof -
  obtain r limit where r: "find_run d (ss_run_id s) = Some r" "concurrency_limit r = Some limit"
    using assms by (auto simp: place_answered_def bind_eq_Some_conv split: option.splits)
  let ?free = "run_session_count session_occupies_slot d (ss_run_id s) < limit"
  have "\<exists>d1. (if ?free then resume_route d s now else Inr (('''', task_concurrency_blocked_reason), d)) =
        Inr ((worker, reason), d1) \<and>
      d' = (if worker = '''' then d1
       else queue_existing_execution new_id (ss_id s) worker (ss_required_runtime s) now d1)"
    using assms r by (auto simp: place_answered_def and_then_Inr split: prod.splits if_splits)
  then obtain d1 where d1: "(if ?free then resume_route d s now else Inr (('''', task_concurrency_blocked_reason), d)) =
        Inr ((worker, reason), d1)"
    and d': "d' = (if worker = '''' then d1
       else queue_existing_execution new_id (ss_id s) worker (ss_required_runtime s) now d1)"
    by blast
  show ?thesis
    by (rule that [OF r _ _ d']) (use d1 in \<open>auto dest: resume_route_tables split: if_splits\<close>)
qed

lemma place_answered_tables:
  assumes "place_answered now new_id s d = Inr ((worker, reason), d')"
  shows "sessions d' = sessions d" "attempts d' = attempts d" "runs d' = runs d" "session_stages d' = session_stages d"
    "work_updates d' = work_updates d" "work_answers d' = work_answers d" "attempt_events d' = attempt_events d"
    "agent_update_requests d' = agent_update_requests d" "workers d' = workers d" "repositories d' = repositories d"
    "executions d' = (if worker = '''' then executions d else
       case session_execution_row d (ss_id s) of
         None \<Rightarrow> executions d @ [new_execution new_id (ss_id s) worker (ss_required_runtime s) now 0]
       | Some e \<Rightarrow> update_where (\<lambda>x. ex_id x = ex_id e) (requeue_execution worker now) (executions d))"
proof -
  obtain d1 where d1: "d1 = d\<lparr>worker_repositories := worker_repositories d1\<rparr>"
    and d': "d' = (if worker = '''' then d1
       else queue_existing_execution new_id (ss_id s) worker (ss_required_runtime s) now d1)"
    using assms by (rule place_answered_Inr)
  have row: "session_execution_row d1 i = session_execution_row d i" for i
    by (subst d1) (simp add: session_execution_row_def)
  have same: "executions d1 = executions d" "sessions d1 = sessions d" "attempts d1 = attempts d" "runs d1 = runs d"
    "session_stages d1 = session_stages d" "work_updates d1 = work_updates d" "work_answers d1 = work_answers d"
    "attempt_events d1 = attempt_events d" "agent_update_requests d1 = agent_update_requests d" "workers d1 = workers d"
    "repositories d1 = repositories d"
    by (subst d1, simp)+
  show "sessions d' = sessions d" "attempts d' = attempts d" "runs d' = runs d" "session_stages d' = session_stages d"
    "work_updates d' = work_updates d" "work_answers d' = work_answers d" "attempt_events d' = attempt_events d"
    "agent_update_requests d' = agent_update_requests d" "workers d' = workers d" "repositories d' = repositories d"
    "executions d' = (if worker = '''' then executions d else
       case session_execution_row d (ss_id s) of
         None \<Rightarrow> executions d @ [new_execution new_id (ss_id s) worker (ss_required_runtime s) now 0]
       | Some e \<Rightarrow> update_where (\<lambda>x. ex_id x = ex_id e) (requeue_execution worker now) (executions d))"
    by (simp_all add: d' queue_existing_execution_tables row same split: option.split)
qed

lemma answer_work_tx_Inr:
  assumes "answer_work_tx now answer_id new_id d w input = Inr (reply, d')"
  obtains (replay) a where "stored_work_answer d w (ar_request_id input) = Some a" "wa_message a = ar_message input"
      "reply = Some a" "d' = d"
  | (new) s u d1 worker reason d2 where "check_answer w input = Inr ()" "stored_work_answer d w (ar_request_id input) = None"
      "reply = None" "find_session d w = Some s"
      "ss_state s = SessionNeedsInput" "valid_commit_sha (ss_pending_resume_sha s)"
      "last_question d w = Some u"
      "insert_work_answer \<lparr>wa_id = answer_id, wa_work_id = w, wa_question_update_id = wu_id u,
          wa_request_id = ar_request_id input, wa_message = ar_message input, wa_accepted_at = now\<rparr> d = Inr d1"
      "place_answered now new_id s d1 = Inr ((worker, reason), d2)"
      "d' = reopen_run now (ss_run_id s) (reopen_last_stage w (d2\<lparr>sessions :=
          update_where (\<lambda>x. ss_id x = w \<and> ss_state x = SessionNeedsInput)
            (answer_session_row worker reason (ar_message input)) (sessions d2)\<rparr>))"
  using assms
  by (auto simp: answer_work_tx_def and_then_Inr Let_def split: option.splits if_splits)

lemma insert_work_answer_Inr:
  "insert_work_answer a d = Inr d' \<Longrightarrow> d' = d\<lparr>work_answers := work_answers d @ [a]\<rparr> \<and>
     (\<forall>b \<in> set (work_answers d). wa_id b \<noteq> wa_id a \<and> wa_question_update_id b \<noteq> wa_question_update_id a)"
  by (auto simp: insert_work_answer_def list_ex_iff split: if_splits)

lemma answer_session_row_simps [simp]:
  "ss_id (answer_session_row worker reason message s) = ss_id s"
  "ss_run_id (answer_session_row worker reason message s) = ss_run_id s"
  "ss_state (answer_session_row worker reason message s) = (if worker = '''' then SessionBlocked else SessionQueued)"
  "session_row_ok (answer_session_row worker reason message s)"
  by (simp_all add: answer_session_row_def session_row_ok_def state_predicates)

lemma answer_work_ok:
  assumes ok: "store_ok d" and fresh: "new_id \<notin> ex_id ` set (executions d)"
    and tx: "answer_work_tx now answer_id new_id d w input = Inr (reply, d')"
  shows "store_ok d'"
  using tx
proof (cases rule: answer_work_tx_Inr)
  case replay
  with ok show ?thesis by simp
next
  case (new s u d1 worker reason d2)
  have s: "s \<in> set (sessions d)" "ss_id s = w" using find_session_Some [OF new(4)] by auto
  have d1: "d1 = d\<lparr>work_answers := work_answers d1\<rparr>" using insert_work_answer_Inr [OF new(8)] by simp
  have ok1: "store_ok d1" by (subst d1, rule store_ok_frame [OF ok]) simp_all
  have same: "sessions d1 = sessions d" "executions d1 = executions d" by (subst d1, simp)+
  note place = place_answered_tables [OF new(9)]
  let ?P = "\<lambda>x. ss_id x = w \<and> ss_state x = SessionNeedsInput"
  let ?f = "answer_session_row worker reason (ar_message input)"
  have only: "?P x \<longleftrightarrow> x = s" if "x \<in> set (sessions d)" for x
    using session_unique [OF store_okD(1) [OF ok] that s(1)] s new(5) by auto
  have t: "sessions d' = update_where ?P ?f (sessions d1)" "executions d' = executions d2" "attempts d' = attempts d1"
    "runs d' = update_where (\<lambda>r. run_id r = ss_run_id s) (\<lambda>r. r\<lparr>run_updated_at := now, run_terminal_at := None\<rparr>) (runs d1)"
    "map (\<lambda>g. (sg_session_id g, sg_position g)) (session_stages d') =
     map (\<lambda>g. (sg_session_id g, sg_position g)) (session_stages d1)"
    by (simp_all add: new(10) reopen_run_def reopen_last_stage_def place map_update_where)
  have places: "in_place (\<lambda>x. if ?P x then ?f x else x) (sessions d1) (sessions d')"
    unfolding t(1) by (rule in_place_update)
  have core: "core_ok d'"
  proof (cases "worker = ''''")
    case True
    show ?thesis
    proof (rule core_ok_parked [OF store_okD(6) [OF ok1] _ places])
      show "same_keys d1 d'" using True by (simp add: same_keys_def t place map_update_where)
      show "executions d' = executions d1" using True by (simp add: t place)
    qed (use True t in \<open>auto simp: state_predicates\<close>)
  next
    case False
    show ?thesis
    proof (rule queued_core_ok [OF store_okD(6) [OF ok1], where new_id = new_id and s = s and P = ?P and g = ?f and
          x = "new_execution new_id (ss_id s) worker (ss_required_runtime s) now 0" and f = "requeue_execution worker now"])
      show "executions d' = (case session_execution_row d1 (ss_id s) of
          None \<Rightarrow> executions d1 @ [new_execution new_id (ss_id s) worker (ss_required_runtime s) now 0]
        | Some e \<Rightarrow> update_where (\<lambda>x. ex_id x = ex_id e) (requeue_execution worker now) (executions d1))"
        using False by (simp add: t place)
    qed (use False s fresh new(5) same only t in \<open>auto simp: map_update_where state_predicates\<close>)
  qed
  let ?q = "?f s"
  have "?q \<in> set (sessions d')" unfolding t(1) set_update_where by (rule image_eqI [of _ _ s]) (use s same new(5) in simp_all)
  then have "\<not> run_finished d' (ss_run_id s)"
    by (auto simp: run_finished_iff state_predicates split: if_splits intro!: bexI [of _ ?q])
  then have "runs_ok d'"
    by (intro runs_ok_refresh [OF store_okD(5) [OF ok1] places, of "ss_run_id s" now])
      (use only same in \<open>auto simp: t(4)\<close>)
  with core show ?thesis by (simp add: store_ok_def)
qed

subsection \<open>What the guards of a retry say\<close>

lemma descends_map:
  assumes "\<And>s. s \<in> set ss \<Longrightarrow> ss_id (f s) = ss_id s" "\<And>s. s \<in> set ss \<Longrightarrow> ss_predecessor_work_id (f s) = ss_predecessor_work_id s"
  shows "descends (map f ss) w root \<longleftrightarrow> descends ss w root"
proof
  show "descends ss w root" if "descends (map f ss) w root"
    using that assms by (induction rule: descends.induct) (auto intro: descends.intros)
  show "descends (map f ss) w root" if "descends ss w root"
    using that
  proof (induction rule: descends.induct)
    case (descends_root s)
    then show ?case using descends.descends_root [of "f s" "map f ss"] assms by simp
  next
    case (descends_child c w root)
    then show ?case using descends.descends_child [of "f c" "map f ss" w root] assms by simp
  qed
qed

lemma validate_work_retry_guards_Inr:
  assumes ok: "validate_work_retry_guards d s = Inr u" and ids: "distinct (map ss_id (sessions d))"
    and c: "c \<in> set (sessions d)" "ss_id c \<noteq> ss_id s" "ss_repository_id c = ss_repository_id s"
      "session_nonterminal (ss_state c)"
  shows "if tg_target_kind (ss_target s) = ''work_item''
     then tg_source_kind (ss_target c) \<noteq> tg_source_kind (ss_target s) \<or> tg_source_key (ss_target c) \<noteq> tg_source_key (ss_target s)
     else \<not> (\<exists>root. descends (sessions d) (ss_id c) root \<and> descends (sessions d) (ss_id s) root)"
proof (cases "tg_target_kind (ss_target s) = ''work_item''")
  case True
  then show ?thesis using ok c by (auto simp: validate_work_retry_guards_def Let_def count_where_eq_0 split: if_splits)
next
  case False
  let ?rows = "lineage (sessions d)"
  have "(\<Sum>c\<leftarrow>sessions d. if ss_id c \<noteq> ss_id s \<and> ss_repository_id c = ss_repository_id s \<and> session_nonterminal (ss_state c)
      then count_where (\<lambda>((w, root), (v, other)). w = ss_id c \<and> v = ss_id s \<and> root = other) (List.product ?rows ?rows)
      else 0) = 0"
    using ok False by (auto simp: validate_work_retry_guards_def Let_def split: if_splits)
  then have "count_where (\<lambda>((w, root), (v, other)). w = ss_id c \<and> v = ss_id s \<and> root = other) (List.product ?rows ?rows) = 0"
    using c by (auto simp: sum_list_eq_0_iff)
  then have "\<not> (\<exists>root. (ss_id c, root) \<in> set ?rows \<and> (ss_id s, root) \<in> set ?rows)"
    by (auto simp: count_where_eq_0)
  with False show ?thesis by (simp add: set_lineage [OF ids])
qed

lemma count_where_update_le:
  "count_where P (update_where Q f xs) \<le> count_where P xs + count_where Q xs"
  by (induction xs) auto

end
