(* ===== verification/Operator_Properties.thy ===== *)
theory Operator_Properties
  imports Routing_Properties Operator
begin

text \<open>
  What the operator can rely on: a cancelled Run stops, a retry neither duplicates Work nor exceeds the
  concurrency limit, the query behind its guard ends and is exact, and an answer resumes the Work once.
\<close>

subsection \<open>The lineage query\<close>

text \<open>C25. The recursive query over predecessors ends: where ids are unique, no level beyond the number of Work items
  has a row. What it computes is exactly the descent from a root, and every Work item descends from at most one
  root, even if the table held a cycle of predecessors.\<close>

theorem lineage_query_is_exact:
  assumes "distinct (map ss_id ss)"
  shows "(\<forall>n \<ge> length ss. lineage_level ss n = []) \<and>
     (\<forall>w root. ((w, root) \<in> set (lineage ss)) = descends ss w root) \<and>
     (\<forall>w root other. (w, root) \<in> set (lineage ss) \<and> (w, other) \<in> set (lineage ss) \<longrightarrow> root = other)"
  using lineage_level_ends [OF assms] set_lineage [OF assms] descends_unique [OF assms] by blast

lemma lineage_query_is_exact_witness:
  "let ss = [(demo_session ''b'' 0 SessionQueued ExecutionOwnerNone)\<lparr>ss_predecessor_work_id := Some ''a''\<rparr>,
     demo_session ''a'' 0 SessionFailed ExecutionOwnerNone,
     (demo_session ''c'' 0 SessionFailed ExecutionOwnerNone)\<lparr>ss_predecessor_work_id := Some ''c''\<rparr>] in
   lineage_level ss 3 = [] \<and> descends ss ''b'' ''a'' \<and> \<not> descends ss ''c'' ''c''"
proof -
  let ?ss = "[(demo_session ''b'' 0 SessionQueued ExecutionOwnerNone)\<lparr>ss_predecessor_work_id := Some ''a''\<rparr>,
     demo_session ''a'' 0 SessionFailed ExecutionOwnerNone,
     (demo_session ''c'' 0 SessionFailed ExecutionOwnerNone)\<lparr>ss_predecessor_work_id := Some ''c''\<rparr>]"
  have "distinct (map ss_id ?ss)" by (simp add: demo_session_def)
  from lineage_query_is_exact [OF this] have exact: "lineage_level ?ss 3 = []"
      "\<And>w root. ((w, root) \<in> set (lineage ?ss)) = descends ?ss w root"
    by simp_all
  have "lineage ?ss = [(''a'', ''a''), (''b'', ''a'')]"
    by (simp add: lineage_def lineage_level.simps demo_session_def upt_rec numeral_eq_Suc)
  then show ?thesis using exact(1) exact(2) [of "''b''" "''a''"] exact(2) [of "''c''" "''c''"] by simp
qed

subsection \<open>Cancelling\<close>

definition run_work :: "ident \<Rightarrow> session \<Rightarrow> bool" where
  "run_work i s \<longleftrightarrow> ss_run_id s = i \<and> session_nonterminal (ss_state s)"

definition work_of_run :: "db \<Rightarrow> ident \<Rightarrow> ident \<Rightarrow> bool" where
  "work_of_run d i w \<longleftrightarrow> list_ex (\<lambda>s. ss_id s = w \<and> ss_run_id s = i) (sessions d)"

lemma cancel_run_found:
  assumes "find_run d i = Some r"
  shows "cancel_run_tx now d i = Inr ((), refresh_run now i (cancel_work now (run_work i) (work_of_run d i) d))"
proof -
  have "count_where (\<lambda>r. run_id r = i) (runs d) \<noteq> 0"
    using find_run_Some [OF assms] by (auto simp: count_where_eq_0)
  then show ?thesis by (simp add: cancel_run_tx_def run_work_def [abs_def] work_of_run_def [abs_def])
qed

lemma run_reply_found: "r \<in> set (runs d) \<Longrightarrow> run_reply now d (run_id r) \<noteq> Inl e"
  by (auto simp: run_reply_def find_run_def find_None_set Let_def split: option.splits)

lemma cancel_session_row_cases:
  assumes "session_row_ok s" "session_nonterminal (ss_state s)"
  shows "if session_executing (ss_state s)
     then ss_state (cancel_session_row now s) = ss_state s \<and> ss_cancellation_requested (cancel_session_row now s)
     else ss_state (cancel_session_row now s) = SessionCancelled \<and>
       ss_execution_owner (cancel_session_row now s) = ExecutionOwnerNone"
  using stops_at_once_iff [OF assms] by (simp add: cancel_session_row_def)

lemma cancelled_executions:
  assumes "x \<in> set (executions (cancel_work now P work d))" "work (ex_session_id x)"
  shows "ex_state x \<noteq> ExecutionQueued \<and> (execution_executing (ex_state x) \<longrightarrow> ex_cancellation_requested x)"
  using assms by (auto simp: set_update_where execution_open_def cancel_execution_row_def state_predicates)

lemma cancelled_run_finished:
  assumes "store_ok d"
  shows "run_finished (refresh_run now i (cancel_work now (run_work i) work d)) i =
     (run_session_count session_executing d i = 0)"
proof -
  have open_after: "session_nonterminal (ss_state (if run_work i s then cancel_session_row now s else s)) =
      session_executing (ss_state s)" if "s \<in> set (sessions d)" "ss_run_id s = i" for s
    using stops_at_once_iff [OF core_ok_session [OF store_okD(6) [OF assms] that(1)]] that(2)
    by (auto simp: run_work_def state_predicates)
  have "run_finished (refresh_run now i (cancel_work now (run_work i) work d)) i \<longleftrightarrow>
      (\<forall>s \<in> set (sessions d). ss_run_id s = i \<longrightarrow>
         \<not> session_nonterminal (ss_state (if run_work i s then cancel_session_row now s else s)))"
    unfolding run_finished_iff refresh_run_tables cancel_work_tables set_update_where ball_simps
    by (intro ball_cong refl) simp
  with open_after show ?thesis
    by (simp add: run_session_count_def count_where_eq_0 cong: ball_cong)
qed

text \<open>C22. Cancelling a Run always succeeds on a Run that exists. Its Work that was blocked, queued or waiting for an
  answer is cancelled and owned by nobody, its executing Work has a cancellation requested at both levels, nothing
  of it stays queued, the Run has ended exactly when nothing of it was executing, and no other Run is touched.\<close>

theorem cancelled_run_stops:
  assumes "store_ok d" "find_run d i = Some r" "cancel_run now d i = (reply, d')"
  shows "reply = run_reply now d' i \<and> reply \<noteq> Inl e \<and> store_ok d' \<and>
     (\<forall>s \<in> set (sessions d). \<exists>t \<in> set (sessions d'). ss_id t = ss_id s \<and>
        (if ss_run_id s = i \<and> session_nonterminal (ss_state s) then
           (if session_executing (ss_state s)
            then ss_state t = ss_state s \<and> ss_cancellation_requested t
            else ss_state t = SessionCancelled \<and> ss_execution_owner t = ExecutionOwnerNone)
         else t = s)) \<and>
     (\<forall>x \<in> set (executions d'). \<forall>t \<in> set (sessions d'). ss_id t = ex_session_id x \<and> ss_run_id t = i \<longrightarrow>
        ex_state x \<noteq> ExecutionQueued \<and> (execution_executing (ex_state x) \<longrightarrow> ex_cancellation_requested x)) \<and>
     run_finished d' i = (run_session_count session_executing d i = 0) \<and>
     (\<forall>q \<in> set (runs d). run_id q \<noteq> i \<longrightarrow> q \<in> set (runs d'))"
proof -
  let ?now = "unix_milli now"
  let ?d = "refresh_run ?now i (cancel_work ?now (run_work i) (work_of_run d i) d)"
  have result: "reply = run_reply now d' i" "d' = ?d"
    using assms(3) unfolding cancel_run_def cancel_run_found [OF assms(2)] by auto
  have ok: "store_ok d'" using cancel_run_ok [OF assms(1) cancel_run_found [OF assms(2)]] result(2) by simp
  have r: "r \<in> set (runs d)" "run_id r = i" using find_run_Some [OF assms(2)] by auto
  have "map run_id (runs d') = map run_id (runs d)" by (simp add: result(2) refresh_run_def map_update_where)
  then have "run_id ` set (runs d') = run_id ` set (runs d)" by (metis list.set_map)
  then obtain r' where "r' \<in> set (runs d')" "run_id r' = i" using r by (metis imageE imageI)
  then have "reply \<noteq> Inl e" using run_reply_found [of r' d' now e] result(1) by simp
  moreover have "\<exists>t \<in> set (sessions d'). ss_id t = ss_id s \<and>
        (if ss_run_id s = i \<and> session_nonterminal (ss_state s) then
           (if session_executing (ss_state s)
            then ss_state t = ss_state s \<and> ss_cancellation_requested t
            else ss_state t = SessionCancelled \<and> ss_execution_owner t = ExecutionOwnerNone)
         else t = s)" if s: "s \<in> set (sessions d)" for s
  proof (rule bexI)
    let ?t = "if run_work i s then cancel_session_row ?now s else s"
    show "?t \<in> set (sessions d')" using s by (simp add: result(2) set_update_where)
    show "ss_id ?t = ss_id s \<and>
        (if ss_run_id s = i \<and> session_nonterminal (ss_state s) then
           (if session_executing (ss_state s)
            then ss_state ?t = ss_state s \<and> ss_cancellation_requested ?t
            else ss_state ?t = SessionCancelled \<and> ss_execution_owner ?t = ExecutionOwnerNone)
         else ?t = s)"
    proof (cases "run_work i s")
      case True
      then show ?thesis
        using cancel_session_row_cases [OF core_ok_session [OF store_okD(6) [OF assms(1)] s], of ?now]
        by (simp add: run_work_def del: cancel_session_row_simps(5))
    next
      case False
      then have "\<not> (ss_run_id s = i \<and> session_nonterminal (ss_state s))" by (simp add: run_work_def)
      with False show ?thesis by (simp only: if_False)
    qed
  qed
  moreover have "ex_state x \<noteq> ExecutionQueued \<and> (execution_executing (ex_state x) \<longrightarrow> ex_cancellation_requested x)"
    if x: "x \<in> set (executions d')" "t \<in> set (sessions d')" "ss_id t = ex_session_id x" "ss_run_id t = i" for x t
  proof -
    have "work_of_run d i (ex_session_id x)"
      using x by (auto simp: result(2) set_update_where work_of_run_def list_ex_iff split: if_splits)
    then show ?thesis using cancelled_executions x(1) result(2) by simp
  qed
  moreover have "q \<in> set (runs d')" if "q \<in> set (runs d)" "run_id q \<noteq> i" for q
    using that by (auto simp: result(2) refresh_run_def set_update_where)
  ultimately show ?thesis using result cancelled_run_finished [OF assms(1)] ok by blast
qed

lemma cancelled_run_stops_witness:
  "let d = demo_db AttemptRunning [] StageRunning StagePending; d' = snd (cancel_run demo_now d ''run-1'') in
     (\<exists>t \<in> set (sessions d'). ss_id t = ''work-2'' \<and> ss_state t = SessionCancelled) \<and>
     (\<exists>t \<in> set (sessions d'). ss_id t = ''work-1'' \<and> ss_state t = SessionRunning \<and> ss_cancellation_requested t) \<and>
     \<not> run_finished d' ''run-1''"
proof -
  let ?d = "demo_db AttemptRunning [] StageRunning StagePending"
  have ok: "store_ok ?d" "find_run ?d ''run-1'' = Some (demo_run None)"
    by (rule demo_db_ok, simp add: is_active_def, simp add: find_run_def demo_db_def demo_run_def)
  obtain reply d' where c: "cancel_run demo_now ?d ''run-1'' = (reply, d')" by fastforce
  have rows: "sessions ?d = [demo_session ''work-1'' 0 SessionRunning ExecutionOwnerWorkerAttempt,
      demo_session ''work-2'' 1 SessionBlocked ExecutionOwnerNone]"
    by (simp add: demo_db_def)
  show ?thesis
    using cancelled_run_stops [OF ok c, of unavailable]
    by (auto simp: c rows demo_session_def state_predicates run_session_count_def)
qed

subsection \<open>Retrying\<close>

text \<open>C23. A retry that is accepted queues the Work on a Worker, remembers that effects may be repeated when the Work had
  started, and leaves the Run within its concurrency limit; no other open Work of the same repository then descends
  from the same origin or, for an issue, works on the same issue.\<close>

theorem retry_respects_limits:
  assumes "store_ok d" "new_id \<notin> ex_id ` set (executions d)" "find_run_session d i w = Some s"
    and "retry_session now new_id d i w = (Inr detail, d')"
  shows "store_ok d' \<and>
     (\<exists>t \<in> set (sessions d'). ss_id t = w \<and> ss_state t = SessionQueued \<and> ss_assigned_worker_id t \<noteq> None \<and>
        ss_retry_may_repeat_effects t = (ss_started_at s \<noteq> None \<or> ss_retry_may_repeat_effects s)) \<and>
     (\<exists>r limit. find_run d i = Some r \<and> concurrency_limit r = Some limit \<and>
        run_session_count session_occupies_slot d' i \<le> limit) \<and>
     (\<forall>c \<in> set (sessions d'). ss_id c \<noteq> w \<and> ss_repository_id c = ss_repository_id s \<and> session_nonterminal (ss_state c) \<longrightarrow>
        (if tg_target_kind (ss_target s) = ''work_item''
         then tg_source_kind (ss_target c) \<noteq> tg_source_kind (ss_target s) \<or>
           tg_source_key (ss_target c) \<noteq> tg_source_key (ss_target s)
         else \<not> (\<exists>root. descends (sessions d') (ss_id c) root \<and> descends (sessions d') w root)))"
proof -
  let ?now = "unix_milli now"
  have tx: "retry_session_tx ?now new_id d i w = Inr ((), d')"
    using assms(4) unfolding retry_session_def by (auto elim!: committed_cases)
  from tx obtain s' r limit c d1 where found: "find_run_session d i w = Some s'"
    and guard: "validate_work_retry_guards d s' = Inr ()" and r: "find_run d i = Some r" "concurrency_limit r = Some limit"
      "run_session_count session_occupies_slot d i < limit"
    and route: "select_session_route d (ss_repository_id s') (ss_repository_identity s') ?now '''' (ss_required_runtime s') = Inr (c, d1)"
    and d': "d' = reopen_run ?now i (let d2 = retry_execution ?now new_id s' (rc_worker_id c) d1;
         d3 = d2\<lparr>sessions := update_where (\<lambda>x. ss_id x = w)
           (retry_session_row (rc_worker_id c) (ss_started_at s' \<noteq> None \<or> ss_retry_may_repeat_effects s')) (sessions d2)\<rparr>
       in d3\<lparr>session_stages := update_where (\<lambda>g. sg_session_id g = w) reset_stage (session_stages d3)\<rparr>)"
    by (rule retry_session_tx_Inr)
  have s': "s' = s" using found assms(3) by simp
  let ?f = "retry_session_row (rc_worker_id c) (ss_started_at s \<noteq> None \<or> ss_retry_may_repeat_effects s)"
  have rows: "sessions d' = update_where (\<lambda>x. ss_id x = w) ?f (sessions d)"
    using retry_tables(1) [OF route d'] s' by simp
  note s = find_run_session_Some [OF assms(3)] and ids = store_okD(1) [OF assms(1), unfolded keys_ok_def]
  have "?f s \<in> set (sessions d')" unfolding rows set_update_where by (rule image_eqI [of _ _ s]) (use s in simp_all)
  then have queued: "\<exists>t \<in> set (sessions d'). ss_id t = w \<and> ss_state t = SessionQueued \<and> ss_assigned_worker_id t \<noteq> None \<and>
        ss_retry_may_repeat_effects t = (ss_started_at s \<noteq> None \<or> ss_retry_may_repeat_effects s)"
    using s by (intro bexI [of _ "?f s"]) (simp_all add: retry_session_row_def)
  have "count_where (\<lambda>x. ss_id x = w) (sessions d) \<le> 1"
    by (rule count_key_le_one [of ss_id]) (use ids in simp_all)
  then have count: "run_session_count session_occupies_slot d' i \<le> limit"
    using r(3) count_where_update_le [of "\<lambda>x. ss_run_id x = i \<and> session_occupies_slot (ss_state x)" "\<lambda>x. ss_id x = w" ?f "sessions d"]
    unfolding run_session_count_def rows by linarith
  have same: "descends (sessions d') v root = descends (sessions d) v root" for v root
    unfolding rows update_where_def by (rule descends_map) (simp_all add: retry_session_row_def)
  have others: "x \<in> set (sessions d)" if "x \<in> set (sessions d')" "ss_id x \<noteq> w" for x
    using that by (auto simp: rows set_update_where)
  show ?thesis
  proof (intro conjI ballI impI)
    show "store_ok d'" by (rule retry_session_ok [OF assms(1,2) tx])
    show "\<exists>r limit. find_run d i = Some r \<and> concurrency_limit r = Some limit \<and>
        run_session_count session_occupies_slot d' i \<le> limit" using r(1,2) count by blast
  next
    fix x assume x: "x \<in> set (sessions d')"
      "ss_id x \<noteq> w \<and> ss_repository_id x = ss_repository_id s \<and> session_nonterminal (ss_state x)"
    then show "if tg_target_kind (ss_target s) = ''work_item''
         then tg_source_kind (ss_target x) \<noteq> tg_source_kind (ss_target s) \<or>
           tg_source_key (ss_target x) \<noteq> tg_source_key (ss_target s)
         else \<not> (\<exists>root. descends (sessions d') (ss_id x) root \<and> descends (sessions d') w root)"
      using validate_work_retry_guards_Inr [OF guard [unfolded s'] _ others [OF x(1)]] ids s
      by (auto simp: same split: if_splits)
  qed (rule queued)
qed

definition demo_failed_db :: db where
  "demo_failed_db = (demo_db AttemptFailed [] StageFailed StageFailed)\<lparr>runs := [demo_run None],
     sessions := [(demo_session ''work-1'' 0 SessionFailed ExecutionOwnerNone)\<lparr>ss_terminal_at := Some 1000000, ss_started_at := Some 1\<rparr>,
       demo_session ''work-2'' 1 SessionBlocked ExecutionOwnerNone]\<rparr>"

lemma demo_failed_db_ok: "store_ok demo_failed_db"
  by (simp add: demo_failed_db_def demo_db_def demo_rows store_ok_defs)

lemma demo_failed_route:
  "select_session_route demo_failed_db ''repo-1'' ''git.example.com/team/app'' 1000001 '''' ''codex'' =
     Inr (demo_candidate, demo_failed_db)"
proof (rule demo_route_idle)
  show "retention_use demo_failed_db ''worker-1'' ''repo-1'' < max_retained_per_repo"
    "queued_count demo_failed_db ''worker-1'' = 0"
    by (simp_all add: retention_use_def attempt_uses_repository_def attempt_session_def attempt_execution_def
        find_execution_def find_session_def find_worker_repository_def queued_count_def demo_failed_db_def demo_db_def demo_rows
        protocol_limits is_active_def is_terminal_def)
qed (simp_all add: demo_failed_db_def demo_db_def protocol_limits)

lemma retry_session_tx_runs:
  assumes "retry_session_tx now new_id d i w = Inr (u, d')"
  shows "map run_id (runs d') = map run_id (runs d)"
  using assms by (rule retry_session_tx_Inr) (simp only: retry_tables(5), simp add: map_update_where)

lemma retry_respects_limits_witness:
  "let d' = snd (retry_session demo_now ''execution-9'' demo_failed_db ''run-1'' ''work-1'') in
     store_ok d' \<and> (\<exists>t \<in> set (sessions d'). ss_id t = ''work-1'' \<and> ss_state t = SessionQueued \<and> ss_retry_may_repeat_effects t)"
proof -
  let ?d = demo_failed_db
  let ?s = "(demo_session ''work-1'' 0 SessionFailed ExecutionOwnerNone)\<lparr>ss_terminal_at := Some 1000000, ss_started_at := Some 1\<rparr>"
  have s: "find_run_session ?d ''run-1'' ''work-1'' = Some ?s"
    by (simp add: find_run_session_def demo_failed_db_def demo_session_def)
  have fresh: "''execution-9'' \<notin> ex_id ` set (executions ?d)"
    by (simp add: demo_failed_db_def demo_db_def demo_execution_def)
  have guard: "validate_work_retry_guards ?d ?s = Inr ()"
    by (simp add: validate_work_retry_guards_def Let_def lineage_def lineage_level.simps demo_failed_db_def demo_session_def
        demo_target_def numeral_eq_Suc)
  have run: "find_run ?d ''run-1'' = Some (demo_run None)" "concurrency_limit (demo_run None) = Some 1"
      "run_session_count session_occupies_slot ?d ''run-1'' = 0"
    by (simp_all add: find_run_def concurrency_limit_def run_session_count_def demo_failed_db_def demo_run_def demo_snapshot_def
        demo_session_def state_predicates)
  have now: "unix_milli demo_now = 1000001" by (simp add: demo_now_def unix_milli_def)
  obtain d' where tx: "retry_session_tx (unix_milli demo_now) ''execution-9'' ?d ''run-1'' ''work-1'' = Inr ((), d')"
    using s guard run demo_failed_route now
    by (auto simp: retry_session_tx_def demo_session_def Let_def)
  have "map run_id (runs d') = [''run-1'']"
    unfolding retry_session_tx_runs [OF tx] by (simp add: demo_failed_db_def demo_run_def)
  then obtain r where "find_run d' ''run-1'' = Some r" by (auto simp: find_run_def map_eq_Cons_conv)
  then obtain detail where "retry_session demo_now ''execution-9'' ?d ''run-1'' ''work-1'' = (Inr detail, d')"
    by (simp add: retry_session_def tx run_reply_def Let_def)
  from retry_respects_limits [OF demo_failed_db_ok fresh s this] this show ?thesis by auto
qed

subsection \<open>Answering\<close>

lemma place_answered_limit:
  assumes "place_answered now new_id s d = Inr ((worker, reason), d')" "worker \<noteq> ''''"
  shows "\<exists>r limit. find_run d (ss_run_id s) = Some r \<and> concurrency_limit r = Some limit \<and>
     run_session_count session_occupies_slot d (ss_run_id s) < limit"
  using assms(1) by (rule place_answered_Inr) (use assms(2) in blast)

text \<open>C24. An answer that is accepted is recorded with its text and resumes the Work: it is queued on a Worker within the
  concurrency limit of its Run, or blocked, keeps its question and the commit to resume from, and belongs to nobody.
  The same request sent again, at any later time, is answered with the recorded answer and changes nothing.\<close>

theorem answer_resumes_once:
  assumes "store_ok d" "new_id \<notin> ex_id ` set (executions d)" "find_session d w = Some s"
    and "stored_work_answer d w (ar_request_id input) = None"
    and "answer_work now answer_id new_id d w input = (Inr a, d')"
  shows "wa_id a = answer_id \<and> wa_message a = ar_message input \<and> store_ok d' \<and>
     (\<exists>t. find_session d' w = Some t \<and> (ss_state t = SessionQueued \<or> ss_state t = SessionBlocked) \<and>
        (ss_state t = SessionQueued) = (ss_assigned_worker_id t \<noteq> None) \<and> ss_answer t = ar_message input \<and>
        ss_question t = ss_question s \<and> ss_pending_resume_sha t = ss_pending_resume_sha s \<and>
        ss_execution_owner t = ExecutionOwnerNone \<and>
        (ss_state t = SessionQueued \<longrightarrow> (\<exists>r limit. find_run d (ss_run_id s) = Some r \<and> concurrency_limit r = Some limit \<and>
           run_session_count session_occupies_slot d' (ss_run_id s) \<le> limit))) \<and>
     answer_work later other_id other d' w input = (Inr a, d')"
proof -
  let ?now = "unix_milli now"
  obtain stored where tx: "answer_work_tx ?now answer_id new_id d w input = Inr (stored, d')"
    and reply: "(case stored of Some a \<Rightarrow> Inr a | None \<Rightarrow> work_answer_reply d' answer_id) = Inr a"
    using assms(5) unfolding answer_work_def by (auto elim!: committed_cases)
  from tx show ?thesis
  proof (cases rule: answer_work_tx_Inr)
    case (replay a)
    with assms(4) show ?thesis by simp
  next
    case (new s' u d1 worker reason d2)
    have s': "s' = s" using new(4) assms(3) by simp
    have s: "s \<in> set (sessions d)" "ss_id s = w" using find_session_Some [OF assms(3)] by auto
    let ?row = "\<lparr>wa_id = answer_id, wa_work_id = w, wa_question_update_id = wu_id u,
          wa_request_id = ar_request_id input, wa_message = ar_message input, wa_accepted_at = ?now\<rparr>"
    let ?P = "\<lambda>x. ss_id x = w \<and> ss_state x = SessionNeedsInput"
    let ?f = "answer_session_row worker reason (ar_message input)"
    have d1: "d1 = d\<lparr>work_answers := work_answers d @ [?row]\<rparr>"
      and unique: "\<forall>b \<in> set (work_answers d). wa_id b \<noteq> answer_id"
      using insert_work_answer_Inr [OF new(8)] by simp_all
    note place = place_answered_tables [OF new(9)]
    have answers: "work_answers d' = work_answers d @ [?row]"
      by (simp add: new(10) reopen_run_def reopen_last_stage_def place d1)
    have rows: "sessions d' = update_where ?P ?f (sessions d)"
      by (simp add: new(10) reopen_run_def reopen_last_stage_def place d1)
    have "find (\<lambda>b. wa_id b = answer_id) (work_answers d') = Some ?row"
      using unique by (simp add: answers find_append find_None_set [THEN iffD2])
    then have a: "a = ?row" using reply new(3) by (simp add: work_answer_reply_def)
    have "stored_work_answer d' w (ar_request_id input) = Some ?row"
      using assms(4) by (simp add: stored_work_answer_def answers find_append)
    then have again: "answer_work later other_id other d' w input = (Inr a, d')"
      using new(1) by (simp add: answer_work_def answer_work_tx_def a)
    have t: "find_session d' w = Some (?f s)"
      using assms(3) new(5) s' s(2) unfolding find_session_def rows
      by (subst find_update_where) auto
    have limited: "\<exists>r limit. find_run d (ss_run_id s) = Some r \<and> concurrency_limit r = Some limit \<and>
        run_session_count session_occupies_slot d' (ss_run_id s) \<le> limit" if working: "worker \<noteq> ''''"
    proof -
      obtain r limit where r: "find_run d1 (ss_run_id s) = Some r" "concurrency_limit r = Some limit"
          "run_session_count session_occupies_slot d1 (ss_run_id s) < limit"
        using place_answered_limit [OF new(9) working] s' by blast
      have "count_where ?P (sessions d) \<le> 1"
        by (rule count_key_le_one [of ss_id]) (use store_okD(1) [OF assms(1)] in \<open>simp_all add: keys_ok_def\<close>)
      then have "run_session_count session_occupies_slot d' (ss_run_id s) \<le> limit"
        using r(3) count_where_update_le [of "\<lambda>x. ss_run_id x = ss_run_id s \<and> session_occupies_slot (ss_state x)" ?P ?f "sessions d"]
        by (simp add: run_session_count_def rows d1)
      then show ?thesis using r by (auto simp: d1 find_run_def)
    qed
    have "\<exists>t. find_session d' w = Some t \<and> (ss_state t = SessionQueued \<or> ss_state t = SessionBlocked) \<and>
        (ss_state t = SessionQueued) = (ss_assigned_worker_id t \<noteq> None) \<and> ss_answer t = ar_message input \<and>
        ss_question t = ss_question s \<and> ss_pending_resume_sha t = ss_pending_resume_sha s \<and>
        ss_execution_owner t = ExecutionOwnerNone \<and>
        (ss_state t = SessionQueued \<longrightarrow> (\<exists>r limit. find_run d (ss_run_id s) = Some r \<and> concurrency_limit r = Some limit \<and>
           run_session_count session_occupies_slot d' (ss_run_id s) \<le> limit))"
      by (intro exI [of _ "?f s"] conjI t impI limited)
        (auto simp: answer_session_row_def null_string_def)
    moreover have "wa_id a = answer_id" "wa_message a = ar_message input" by (simp_all add: a)
    ultimately show ?thesis using answer_work_ok [OF assms(1,2) tx] again by (intro conjI)
  qed
qed

text \<open>Work that waits for an answer while other Work of its Run takes the only slot.\<close>

definition demo_waiting_id :: ident where
  "demo_waiting_id = ''00000000-0000-4000-8000-00000000000c''"

definition demo_waiting_session :: session where
  "demo_waiting_session = (demo_session demo_waiting_id 1 SessionNeedsInput ExecutionOwnerNone)\<lparr>
     ss_question := ''Which branch?'', ss_checkpoint_sha := demo_sha, ss_pending_resume_sha := demo_sha\<rparr>"

definition demo_waiting_db :: db where
  "demo_waiting_db = (demo_db AttemptRunning [(demo_update WorkUpdateNeedsInput)\<lparr>wu_work_id := demo_waiting_id\<rparr>]
      StageRunning StagePending)\<lparr>sessions :=
        [demo_session ''work-1'' 0 SessionRunning ExecutionOwnerWorkerAttempt, demo_waiting_session]\<rparr>"

definition demo_answer :: work_answer_request where
  "demo_answer = \<lparr>ar_request_id = ''00000000-0000-4000-8000-00000000000d'', ar_message = ''main''\<rparr>"

lemma demo_waiting_db_ok: "store_ok demo_waiting_db"
  by (simp add: demo_waiting_db_def demo_waiting_session_def demo_waiting_id_def demo_db_def demo_rows store_ok_defs demo_sha_def)

lemma demo_waiting_found: "find_session demo_waiting_db demo_waiting_id = Some demo_waiting_session"
  by (simp add: find_session_def demo_waiting_db_def demo_waiting_session_def demo_session_def demo_waiting_id_def)

lemma demo_answer_checked: "check_answer demo_waiting_id demo_answer = Inr ()"
proof -
  have "valid_uuid demo_waiting_id" "valid_uuid ''00000000-0000-4000-8000-00000000000d''" "utf8_valid ''main''"
    unfolding demo_waiting_id_def by code_simp+
  moreover have "trim_space ''main'' = ''main''" by (rule trim_space_visible) (simp_all add: in_range_def byte_def)
  ultimately show ?thesis by (simp add: check_answer_def demo_answer_def protocol_limits)
qed

lemma length_empty_agent_update_prompt: "length (format_agent_update_prompt '''' '''' '''' '''' '''' '''') \<le> 2000"
  by code_simp

lemma demo_waiting_continues:
  "validate_continuation demo_waiting_db demo_waiting_id ''Which branch?'' ''main'' [h] = Inr ()"
proof -
  obtain st history where load: "load_continuation_state demo_waiting_db demo_waiting_id = Inr (st, history)"
    and fields: "co_title st = ''Fix''" "co_repository st = ''git.example.com/team/app''" "co_publish_branch st = ''factory/work-1''"
      "co_resolved_prompt st = ''Fix it''" "co_pending_resume_sha st = demo_sha" "co_checkpoint_sha st = demo_sha"
      "co_pull_request_url st = ''''" "co_pull_request_head_branch st = ''''" "co_pull_request_head_sha st = ''''"
      "co_retry_may_repeat_effects st = False" and one: "length history = 1"
    by (simp add: load_continuation_state_def demo_waiting_found)
      (simp add: demo_waiting_session_def demo_waiting_db_def demo_db_def demo_rows find_run_def final_prompt_def
        session_stage_rows_def history_rows_def demo_waiting_id_def)
  let ?st = "st\<lparr>co_question := ''Which branch?'', co_answer := ''main''\<rparr>"
  obtain x y where records: "map encode_history (history @ [h]) = [x, y]"
    using one by (cases history) auto
  have count: "show_nat 2 = ''2''" "show_nat 0 = ''0''" by code_simp+
  have question: "escape_prompt_bytes ''Which branch?'' = ''Which branch?''" by code_simp
  have "length (continuation_with_history (mandatory_context ?st) [x, y] (\<lambda>_. None)) \<le> 1000"
    by (simp add: continuation_with_history_def Let_def omitted_records_def inserted_records_def upt_rec mandatory_context_def
        fields newline_def empty_recovery_value_def demo_sha_def json_bool_def escape_untrusted_prompt_text_def question count
        numeral_2_eq_2 [symmetric])
  then have base: "agent_update_prompt_fits (co_title ?st) (co_repository ?st) (co_publish_branch ?st)
      (continuation_with_history (mandatory_context ?st) (map encode_history (history @ [h])) (\<lambda>_. None))"
    unfolding agent_update_prompt_fits_def records
    by (subst length_format_agent_update_prompt)
      (use length_empty_agent_update_prompt in \<open>simp add: fields max_agent_prompt_bytes_def\<close>)
  then obtain prompt where "assemble_continuation_prompt ?st (history @ [h]) = Inr prompt"
    using assemble_continuation_prompt_cases(1) [of ?st "history @ [h]"] by metis
  moreover from assemble_continuation_prompt_cases(2) [OF this]
  have "agent_update_prompt_fits (co_title st) (co_repository st) (co_publish_branch st) prompt" by simp
  ultimately show ?thesis by (simp add: validate_continuation_def load)
qed

lemma answer_resumes_once_witness:
  "\<exists>a d'. answer_work demo_now ''answer-1'' ''execution-9'' demo_waiting_db demo_waiting_id demo_answer = (Inr a, d') \<and>
     wa_message a = ''main'' \<and> answer_work (demo_now + 5) ''answer-2'' ''execution-10'' d' demo_waiting_id demo_answer = (Inr a, d')"
proof -
  let ?d = demo_waiting_db
  have fresh: "''execution-9'' \<notin> ex_id ` set (executions ?d)" and none: "stored_work_answer ?d demo_waiting_id (ar_request_id demo_answer) = None"
    by (simp_all add: demo_waiting_db_def demo_db_def demo_execution_def stored_work_answer_def)
  have "last_question ?d demo_waiting_id = Some ((demo_update WorkUpdateNeedsInput)\<lparr>wu_work_id := demo_waiting_id\<rparr>)"
    by (simp add: last_question_def demo_waiting_db_def demo_db_def demo_update_def)
  moreover have "ss_state demo_waiting_session = SessionNeedsInput" "ss_execution_owner demo_waiting_session = ExecutionOwnerNone"
    "ss_pending_resume_sha demo_waiting_session = demo_sha" "es_backend (ss_execution demo_waiting_session) = BackendPersistent"
    "ss_question demo_waiting_session = ''Which branch?''" "ss_run_id demo_waiting_session = ''run-1''"
    by (simp_all add: demo_waiting_session_def demo_session_def demo_execution_snapshot_def)
  moreover have "insert_work_answer x ?d = Inr (?d\<lparr>work_answers := [x]\<rparr>)" for x
    by (simp add: insert_work_answer_def demo_waiting_db_def demo_db_def)
  moreover have "place_answered n i demo_waiting_session (?d\<lparr>work_answers := [x]\<rparr>) =
      Inr (('''', task_concurrency_blocked_reason), ?d\<lparr>work_answers := [x]\<rparr>)" for n i x
    by (simp add: place_answered_def demo_waiting_session_def find_run_def run_session_count_def demo_waiting_db_def demo_db_def
        demo_rows concurrency_limit_def state_predicates Let_def)
  ultimately obtain d' where tx: "answer_work_tx (unix_milli demo_now) ''answer-1'' ''execution-9'' ?d demo_waiting_id demo_answer =
      Inr (None, d')" and answers: "find (\<lambda>a. wa_id a = ''answer-1'') (work_answers d') \<noteq> None"
    using none demo_waiting_found demo_answer_checked demo_waiting_continues
    by (simp add: answer_work_tx_def demo_answer_def reopen_run_def reopen_last_stage_def)
  obtain a where done': "answer_work demo_now ''answer-1'' ''execution-9'' ?d demo_waiting_id demo_answer = (Inr a, d')"
    using answers by (auto simp: answer_work_def tx work_answer_reply_def)
  from answer_resumes_once [OF demo_waiting_db_ok fresh demo_waiting_found none this, of "demo_now + 5" "''answer-2''" "''execution-10''"]
  show ?thesis using done' by (auto simp: demo_answer_def)
qed

end
