(* ===== verification/Candidate_Scan.thy ===== *)
theory Candidate_Scan
  imports Paging "HOL-Library.Product_Lexorder"
begin

text \<open>
  The loops of task\_claim.go: a statement fetches a page of candidates after a cursor, the body looks at
  each of them until one ends the search, and a full page is followed by the next one. The locale
  \<open>candidate_scan\<close> says when such a loop is a search through all the candidates in order: looking at a
  candidate in vain must leave the list of candidates as it is. Its lemma also gives the bound on the
  number of rounds, so the loop ends.
\<close>

definition scan_page_size :: nat where
  "scan_page_size = 50"

fun scan_page :: "('d \<Rightarrow> 'c \<Rightarrow> ('d \<times> bool) result) \<Rightarrow> 'd \<Rightarrow> 'c list \<Rightarrow> ('d \<times> bool) result" where
  "scan_page step d [] = Inr (d, False)"
| "scan_page step d (c # cs) =
     and_then (step d c) (\<lambda>(d', stop). if stop then Inr (d', True) else scan_page step d' cs)"

text \<open>The first argument bounds the rounds; the loops of the code have no bound.\<close>

fun scan_pages ::
    "nat \<Rightarrow> ('d \<Rightarrow> 'k \<Rightarrow> 'c list) \<Rightarrow> ('d \<Rightarrow> 'c \<Rightarrow> ('d \<times> bool) result) \<Rightarrow> ('c \<Rightarrow> 'k) \<Rightarrow> 'd \<Rightarrow> 'k \<Rightarrow> 'd result" where
  "scan_pages 0 fetch step key d cursor = Inl unavailable"
| "scan_pages (Suc n) fetch step key d cursor =
     (let candidates = fetch d cursor in
      and_then (scan_page step d candidates) (\<lambda>(d', stop).
        if stop \<or> length candidates < scan_page_size then Inr d'
        else scan_pages n fetch step key d' (key (last candidates))))"

lemma scan_page_append:
  "scan_page step d (xs @ ys) =
   and_then (scan_page step d xs) (\<lambda>(d', stop). if stop then Inr (d', True) else scan_page step d' ys)"
proof (induction xs arbitrary: d)
  case (Cons x xs)
  show ?case
  proof (cases "step d x")
    case (Inr r)
    then show ?thesis by (cases r) (simp add: Cons.IH)
  qed simp
qed simp

text \<open>A search that succeeds has looked in vain at some candidates and, unless it looked at all of them, has ended
  at one of a page.\<close>

lemma scan_page_outcome:
  assumes vain: "\<And>e c e'. P e \<Longrightarrow> step e c = Inr (e', False) \<Longrightarrow> P e'"
  shows "scan_page step d cs = Inr (d', stop) \<Longrightarrow> P d \<Longrightarrow>
     if stop then \<exists>e. \<exists>c \<in> set cs. P e \<and> step e c = Inr (d', True) else P d'"
proof (induction cs arbitrary: d)
  case (Cons c cs)
  from Cons.prems(1) obtain e b where e: "step d c = Inr (e, b)"
    "(if b then Inr (e, True) else scan_page step e cs) = Inr (d', stop)"
    by (auto simp: and_then_Inr)
  show ?case
  proof (cases b)
    case True
    with e Cons.prems(2) show ?thesis by auto
  next
    case False
    with e have "step d c = Inr (e, False)" "scan_page step e cs = Inr (d', stop)" by simp_all
    with Cons.IH [of e] vain [OF Cons.prems(2)] show ?thesis by (auto split: if_splits)
  qed
qed simp

lemma scan_pages_outcome:
  assumes vain: "\<And>e c e'. P e \<Longrightarrow> step e c = Inr (e', False) \<Longrightarrow> P e'"
  shows "scan_pages n fetch step key d cursor = Inr d' \<Longrightarrow> P d \<Longrightarrow>
     P d' \<or> (\<exists>e f k. \<exists>c \<in> set (fetch f k). P e \<and> P f \<and> step e c = Inr (d', True))"
proof (induction n arbitrary: d cursor)
  case (Suc n)
  let ?cs = "fetch d cursor"
  from Suc.prems(1) obtain e stop where e: "scan_page step d ?cs = Inr (e, stop)"
    "(if stop \<or> length ?cs < scan_page_size then Inr e else scan_pages n fetch step key e (key (last ?cs))) = Inr d'"
    by (auto simp: Let_def and_then_Inr)
  have out: "if stop then \<exists>e'. \<exists>c \<in> set ?cs. P e' \<and> step e' c = Inr (e, True) else P e"
    by (rule scan_page_outcome [where P = P, OF _ e(1) Suc.prems(2)]) (rule vain)
  show ?case
  proof (cases stop)
    case True
    with out e(2) Suc.prems(2) show ?thesis by auto
  next
    case False
    with out have "P e" by simp
    with Suc.IH [of e] e(2) False show ?thesis by (auto split: if_splits)
  qed
qed simp

lemma last_is_greatest:
  "sorted_wrt (\<lambda>x y. key x < (key y :: 'k::linorder)) xs \<Longrightarrow> c \<in> set xs \<Longrightarrow> \<not> key (last xs) < key c"
proof (induction xs)
  case (Cons x xs)
  show ?case
  proof (cases "xs = [] \<or> c \<in> set xs")
    case True
    with Cons show ?thesis by auto
  next
    case False
    then have "c = x" "key x < key (last xs)" using Cons.prems by auto
    with False show ?thesis by auto
  qed
qed simp

locale candidate_scan =
  fixes candidates :: "'d \<Rightarrow> 'c list" and key :: "'c \<Rightarrow> 'k::linorder" and after :: "'k \<Rightarrow> 'c \<Rightarrow> bool"
    and start :: 'k and step :: "'d \<Rightarrow> 'c \<Rightarrow> ('d \<times> bool) result" and readable :: "'d \<Rightarrow> bool"
  assumes keys_distinct: "readable d \<Longrightarrow> distinct (map key (candidates d))"
    and start_first: "readable d \<Longrightarrow> c \<in> set (candidates d) \<Longrightarrow> after start c"
    and after_key: "readable d \<Longrightarrow> b \<in> set (candidates d) \<Longrightarrow> c \<in> set (candidates d) \<Longrightarrow>
      after (key b) c \<longleftrightarrow> key b < key c"
    and vain_step: "readable d \<Longrightarrow> step d c = Inr (d', False) \<Longrightarrow> candidates d' = candidates d \<and> readable d'"
begin

definition fetch :: "'d \<Rightarrow> 'k \<Rightarrow> 'c list" where
  "fetch d cursor = take scan_page_size (sort_key key (filter (after cursor) (candidates d)))"

lemma vain_page:
  "scan_page step d cs = Inr (d', False) \<Longrightarrow> readable d \<Longrightarrow> candidates d' = candidates d \<and> readable d'"
proof (induction cs arbitrary: d)
  case (Cons c cs)
  from Cons.prems(1) obtain e where e: "step d c = Inr (e, False)" "scan_page step e cs = Inr (d', False)"
    by (auto simp: and_then_Inr split: if_splits)
  from vain_step [OF Cons.prems(2) e(1)] Cons.IH [OF e(2)] show ?case by simp
qed simp

lemma sorted_candidates:
  "readable d \<Longrightarrow> sorted_wrt (\<lambda>x y. key x < key y) (sort_key key (filter P (candidates d)))"
proof -
  assume "readable d"
  then have "distinct (map key (filter P (candidates d)))" by (intro distinct_map_filter keys_distinct)
  then have "distinct (map key (sort_key key (filter P (candidates d))))" by (simp add: distinct_map)
  then have "sorted_wrt (<) (map key (sort_key key (filter P (candidates d))))" by (simp add: strict_sorted_iff)
  then show ?thesis by (simp add: sorted_wrt_map)
qed

lemma rest_after_page:
  assumes "readable d" and R: "R = sort_key key (filter P (candidates d))" and full: "scan_page_size \<le> length R"
    and P: "P = (\<lambda>_. True) \<or> (\<exists>b \<in> set (candidates d). P = (\<lambda>c. key b < key c))"
  shows "sort_key key (filter (after (key (last (take scan_page_size R)))) (candidates d)) = drop scan_page_size R"
proof -
  let ?b = "last (take scan_page_size R)"
  have pos: "0 < scan_page_size" by (simp add: scan_page_size_def)
  then have "take scan_page_size R \<noteq> []" using full by auto
  then have bR: "?b \<in> set R" using last_in_set in_set_takeD by metis
  then have b: "?b \<in> set (candidates d)" "P ?b" by (auto simp: R)
  have "filter (after (key ?b)) (candidates d) = filter (\<lambda>c. key ?b < key c) (candidates d)"
    by (rule filter_cong) (simp_all add: after_key [OF assms(1) b(1)])
  also have "\<dots> = filter (\<lambda>c. key ?b < key c) (filter P (candidates d))"
  proof -
    have "P c" if "key ?b < key c" for c using P b(2) that by auto
    then show ?thesis by (simp, intro filter_cong) auto
  qed
  finally have "sort_key key (filter (after (key ?b)) (candidates d)) = filter (\<lambda>c. key ?b < key c) R"
    by (simp only: R filter_sort)
  also have "\<dots> = drop scan_page_size R"
  proof (cases "scan_page_size < length R")
    case True
    show ?thesis
      by (rule filter_after_last_taken [where R = "\<lambda>x y. key x < key y", OF _ _ pos True])
        (simp_all add: R sorted_candidates [OF assms(1)])
  next
    case False
    then have all: "take scan_page_size R = R" using full by simp
    have "\<not> key (last R) < key c" if "c \<in> set R" for c
      using last_is_greatest [OF sorted_candidates [OF assms(1), of P]] that by (simp add: R)
    then show ?thesis using full False by (simp add: all)
  qed
  finally show ?thesis .
qed

lemma scan_pages_from:
  assumes "readable d" "length (sort_key key (filter (after cursor) (candidates d))) < fuel"
    and "cursor = start \<or> cursor \<in> key ` set (candidates d)"
  shows "scan_pages fuel fetch step key d cursor =
     and_then (scan_page step d (sort_key key (filter (after cursor) (candidates d)))) (\<lambda>(d', _). Inr d')"
  using assms
proof (induction fuel arbitrary: d cursor)
  case (Suc fuel)
  define R where "R = sort_key key (filter (after cursor) (candidates d))"
  have page: "fetch d cursor = take scan_page_size R" by (simp add: fetch_def R_def)
  have split: "scan_page step d R = and_then (scan_page step d (take scan_page_size R)) (\<lambda>(d', stop).
      if stop then Inr (d', True) else scan_page step d' (drop scan_page_size R))"
    by (simp only: scan_page_append [symmetric] append_take_drop_id)
  have P: "\<exists>P. filter (after cursor) (candidates d) = filter P (candidates d) \<and>
      (P = (\<lambda>_. True) \<or> (\<exists>b \<in> set (candidates d). P = (\<lambda>c. key b < key c)))"
  proof (cases "cursor = start")
    case True
    then have "filter (after cursor) (candidates d) = candidates d"
      by (intro filter_True) (use start_first [OF Suc.prems(1)] in blast)
    then show ?thesis by (intro exI [of _ "\<lambda>_. True"]) simp
  next
    case False
    then obtain b where b: "b \<in> set (candidates d)" "cursor = key b" using Suc.prems(3) by auto
    then show ?thesis using after_key [OF Suc.prems(1) b(1)]
      by (intro exI [of _ "\<lambda>c. key b < key c"]) (auto intro: filter_cong)
  qed
  show ?case
  proof (cases "scan_page step d (take scan_page_size R)")
    case (Inl err)
    then show ?thesis by (simp add: page split R_def [symmetric])
  next
    case (Inr r)
    obtain d' stop where r: "r = (d', stop)" by fastforce
    show ?thesis
    proof (cases "stop \<or> length R < scan_page_size")
      case True
      have "scan_page step d R = Inr (d', stop)"
      proof (cases stop)
        case True
        then show ?thesis using Inr r by (simp only: split and_then_simps prod.case if_True)
      next
        case False
        with True have "take scan_page_size R = R" by simp
        then show ?thesis using Inr r by simp
      qed
      then show ?thesis using True Inr r by (auto simp: page R_def [symmetric])
    next
      case False
      then have vain: "candidates d' = candidates d" "readable d'"
        using vain_page [of d "take scan_page_size R" d'] Inr r Suc.prems(1) by auto
      obtain P where "filter (after cursor) (candidates d) = filter P (candidates d)"
        and "P = (\<lambda>_. True) \<or> (\<exists>b \<in> set (candidates d). P = (\<lambda>c. key b < key c))"
        using P by (elim exE conjE)
      moreover from this(1) have "R = sort_key key (filter P (candidates d))" by (simp only: R_def)
      ultimately
      have rest: "sort_key key (filter (after (key (last (take scan_page_size R)))) (candidates d')) = drop scan_page_size R"
        unfolding vain(1) using False by (intro rest_after_page [OF Suc.prems(1)]) auto
      have pos: "0 < scan_page_size" "take scan_page_size R \<noteq> []"
        using False by (auto simp: scan_page_size_def)
      have "last (take scan_page_size R) \<in> set R" using last_in_set [OF pos(2)] by (rule in_set_takeD)
      then have cursor: "key (last (take scan_page_size R)) \<in> key ` set (candidates d')"
        using vain(1) by (auto simp: R_def)
      have "length (drop scan_page_size R) < fuel" using Suc.prems(2) False pos(1) unfolding R_def [symmetric] length_drop by arith
      then have "scan_pages fuel fetch step key d' (key (last (take scan_page_size R))) =
          and_then (scan_page step d' (drop scan_page_size R)) (\<lambda>(d', _). Inr d')"
        using Suc.IH [OF vain(2) _ disjI2 [OF cursor]] by (simp only: rest)
      then show ?thesis using False Inr r by (simp add: page split Let_def R_def [symmetric])
    qed
  qed
qed simp

theorem scan_is_complete:
  assumes "readable d" "length (candidates d) < fuel"
  shows "scan_pages fuel fetch step key d start =
     and_then (scan_page step d (sort_key key (candidates d))) (\<lambda>(d', _). Inr d')"
proof -
  have "filter (after start) (candidates d) = candidates d"
    by (rule filter_True) (use start_first [OF assms(1)] in blast)
  then show ?thesis using scan_pages_from [OF assms(1), of start fuel] assms(2) by simp
qed

end

end
