(* ===== verification/Claims.thy ===== *)
theory Claims
  imports Operator Candidate_Scan
begin

text \<open>
  Claiming Work (state.go, task\_claim.go): a Worker that has room asks for Work; the store first places one
  blocked Work item on it if it can, takes over one queued item from a Worker that can no longer run it, and then
  gives it the queued execution that is first in the fair order. The claim is remembered under its request id, so
  that a Worker that missed the answer gets the same one again.
\<close>

subsection \<open>Placing blocked Work\<close>

record blocked_candidate =
  bc_id :: ident
  bc_repository_id :: ident
  bc_identity :: string
  bc_runtime :: string
  bc_fair_count :: nat
  bc_run_admitted :: millis
  bc_admitted_at :: millis

definition run_attempt_count :: "db \<Rightarrow> ident \<Rightarrow> nat" where
  "run_attempt_count d i =
     count_where (\<lambda>a. case attempt_session d a of None \<Rightarrow> False | Some s \<Rightarrow> ss_run_id s = i) (attempts d)"

definition claimable_repository :: "repository \<Rightarrow> bool" where
  "claimable_repository r \<longleftrightarrow> \<not> rp_centrally_managed r \<or> rp_enabled r"

definition blocked_candidate_of :: "db \<Rightarrow> session \<Rightarrow> blocked_candidate option" where
  "blocked_candidate_of d s =
     (case (find_run d (ss_run_id s), find_repository d (ss_repository_id s)) of
        (Some r, Some p) \<Rightarrow>
          if ss_state s = SessionBlocked \<and> es_backend (ss_execution s) = BackendPersistent \<and> claimable_repository p \<and>
             below_limit (run_session_count session_occupies_slot d (ss_run_id s)) (concurrency_limit r)
          then Some \<lparr>bc_id = ss_id s, bc_repository_id = ss_repository_id s, bc_identity = ss_repository_identity s,
                 bc_runtime = ss_required_runtime s, bc_fair_count = run_attempt_count d (ss_run_id s),
                 bc_run_admitted = run_admitted_at r, bc_admitted_at = ss_admitted_at s\<rparr>
          else None
      | _ \<Rightarrow> None)"

definition blocked_candidates :: "db \<Rightarrow> blocked_candidate list" where
  "blocked_candidates d = List.map_filter (blocked_candidate_of d) (sessions d)"

type_synonym blocked_key = "nat \<times> millis \<times> millis \<times> ident"

definition blocked_key :: "blocked_candidate \<Rightarrow> blocked_key" where
  "blocked_key c = (bc_fair_count c, bc_run_admitted c, bc_admitted_at c, bc_id c)"

definition after_blocked :: "blocked_key \<Rightarrow> blocked_candidate \<Rightarrow> bool" where
  "after_blocked cursor c \<longleftrightarrow> (case cursor of (fair, run_admitted, admitted, i) \<Rightarrow>
     i = '''' \<or> bc_fair_count c > fair \<or>
     bc_fair_count c = fair \<and> (bc_run_admitted c > run_admitted \<or>
       bc_run_admitted c = run_admitted \<and> (bc_admitted_at c > admitted \<or>
         bc_admitted_at c = admitted \<and> bc_id c > i)))"

definition fetch_blocked :: "db \<Rightarrow> blocked_key \<Rightarrow> blocked_candidate list" where
  "fetch_blocked d cursor =
     take scan_page_size (sort_key blocked_key (filter (after_blocked cursor) (blocked_candidates d)))"

definition no_route :: "service_error \<Rightarrow> bool" where
  "no_route err \<longleftrightarrow> service_error_code err ''no_eligible_worker'' \<or> service_error_code err ''repository_not_managed''"

definition materialize_step ::
    "millis \<Rightarrow> ident \<Rightarrow> ident \<Rightarrow> db \<Rightarrow> blocked_candidate \<Rightarrow> (db \<times> bool) result" where
  "materialize_step now new_id worker_id d c =
     (case select_session_route d (bc_repository_id c) (bc_identity c) now worker_id (bc_runtime c) of
        Inl err \<Rightarrow> if no_route err then Inr (d, False) else Inl err
      | Inr (selection, d1) \<Rightarrow>
          let worker = rc_worker_id selection;
              d2 = queue_existing_execution new_id (bc_id c) worker (bc_runtime c) now d1;
              blocked = (\<lambda>s. ss_id s = bc_id c \<and> ss_state s = SessionBlocked)
          in if count_where blocked (sessions d2) \<noteq> 1
             then Inl (conflict ''session_route_conflict'' ''Session routing state changed before assignment'')
             else Inr (d2\<lparr>sessions := update_where blocked
                    (\<lambda>s. s\<lparr>ss_state := SessionQueued, ss_blocked_reason := None, ss_assigned_worker_id := Some worker,
                       ss_waiting_reason := '''', ss_execution_owner := ExecutionOwnerNone\<rparr>) (sessions d2)\<rparr>, True))"

text \<open>A round looks at a page of the candidates, which are rows of \<^verbatim>\<open>sessions\<close>: so there are fewer
  rounds than the bound given here.\<close>

definition materialize_blocked_session_for_worker :: "millis \<Rightarrow> ident \<Rightarrow> ident \<Rightarrow> db \<Rightarrow> db result" where
  "materialize_blocked_session_for_worker now new_id worker_id d =
     scan_pages (Suc (length (sessions d))) fetch_blocked (materialize_step now new_id worker_id) blocked_key d (0, 0, 0, '''')"

subsection \<open>Taking over queued Work\<close>

record queued_candidate =
  qc_session_id :: ident
  qc_execution_id :: ident
  qc_repository_id :: ident
  qc_identity :: string
  qc_runtime :: string
  qc_assigned :: ident
  qc_admitted_at :: millis

definition queued_candidate_of :: "db \<Rightarrow> ident \<Rightarrow> execution \<Rightarrow> queued_candidate option" where
  "queued_candidate_of d worker_id e =
     (case find_session d (ex_session_id e) of
        None \<Rightarrow> None
      | Some s \<Rightarrow>
          if ss_state s = SessionQueued \<and> ex_state e = ExecutionQueued \<and> es_backend (ss_execution s) = BackendPersistent \<and>
             ex_assigned_worker_id e \<noteq> worker_id
          then Some \<lparr>qc_session_id = ss_id s, qc_execution_id = ex_id e, qc_repository_id = ss_repository_id s,
                 qc_identity = ss_repository_identity s, qc_runtime = ss_required_runtime s,
                 qc_assigned = ex_assigned_worker_id e, qc_admitted_at = ss_admitted_at s\<rparr>
          else None)"

definition queued_candidates :: "ident \<Rightarrow> db \<Rightarrow> queued_candidate list" where
  "queued_candidates worker_id d = List.map_filter (queued_candidate_of d worker_id) (executions d)"

type_synonym queued_key = "millis \<times> ident"

definition queued_key :: "queued_candidate \<Rightarrow> queued_key" where
  "queued_key c = (qc_admitted_at c, qc_session_id c)"

definition after_queued :: "queued_key \<Rightarrow> queued_candidate \<Rightarrow> bool" where
  "after_queued cursor c \<longleftrightarrow> (case cursor of (admitted, i) \<Rightarrow>
     i = '''' \<or> qc_admitted_at c > admitted \<or> qc_admitted_at c = admitted \<and> qc_session_id c > i)"

definition fetch_queued :: "ident \<Rightarrow> db \<Rightarrow> queued_key \<Rightarrow> queued_candidate list" where
  "fetch_queued worker_id d cursor =
     take scan_page_size (sort_key queued_key (filter (after_queued cursor) (queued_candidates worker_id d)))"

text \<open>Work that its Worker can still run is left to it; looking may reserve the repository there.\<close>

definition reroute_step :: "millis \<Rightarrow> ident \<Rightarrow> db \<Rightarrow> queued_candidate \<Rightarrow> (db \<times> bool) result" where
  "reroute_step now worker_id d c =
     (case select_session_route d (qc_repository_id c) (qc_identity c) now (qc_assigned c) (qc_runtime c) of
        Inr (_, d') \<Rightarrow> Inr (d', False)
      | Inl err \<Rightarrow>
          if \<not> no_route err then Inl err
          else
            (case select_session_route d (qc_repository_id c) (qc_identity c) now worker_id (qc_runtime c) of
               Inl err' \<Rightarrow> if no_route err' then Inr (d, False) else Inl err'
             | Inr (selection, d1) \<Rightarrow>
                 let worker = rc_worker_id selection;
                     assigned = (\<lambda>e. ex_id e = qc_execution_id c \<and> ex_state e = ExecutionQueued \<and>
                       ex_assigned_worker_id e = qc_assigned c);
                     d2 = d1\<lparr>executions := update_where assigned
                            (\<lambda>e. e\<lparr>ex_assigned_worker_id := worker, ex_updated_at := now\<rparr>) (executions d1)\<rparr>
                 in if count_where assigned (executions d1) = 1
                    then Inr (d2\<lparr>sessions := update_where (\<lambda>s. ss_id s = qc_session_id c)
                           (\<lambda>s. s\<lparr>ss_assigned_worker_id := Some worker\<rparr>) (sessions d2)\<rparr>, True)
                    else Inr (d2, False)))"

definition reroute_queued_session_for_worker :: "millis \<Rightarrow> ident \<Rightarrow> db \<Rightarrow> db result" where
  "reroute_queued_session_for_worker now worker_id d =
     scan_pages (Suc (length (executions d))) (fetch_queued worker_id) (reroute_step now worker_id) queued_key d (0, '''')"

subsection \<open>The Work that a Worker may claim\<close>

definition runtime_ready_on :: "worker \<Rightarrow> string \<Rightarrow> bool" where
  "runtime_ready_on w runtime \<longleftrightarrow>
     runtime_capability_ready (wk_capabilities w) runtime \<or> wk_capabilities w = [] \<and> wk_runtime w = runtime"

definition claimable :: "db \<Rightarrow> worker \<Rightarrow> execution \<Rightarrow> bool" where
  "claimable d w e \<longleftrightarrow>
     ex_assigned_worker_id e = wk_id w \<and> ex_state e = ExecutionQueued \<and> runtime_ready_on w (ex_required_runtime e) \<and>
     (case find_session d (ex_session_id e) of None \<Rightarrow> False | Some s \<Rightarrow>
       (case (find_run d (ss_run_id s), find_repository d (ss_repository_id s),
              find_worker_repository d (wk_id w) (ss_repository_id s)) of
          (Some r, Some p, Some x) \<Rightarrow>
            below_limit (run_session_count session_executing d (ss_run_id s)) (concurrency_limit r) \<and>
            wr_advertised x \<and> claimable_repository p \<and>
            retention_use d (wk_id w) (ss_repository_id s) < max_retained_per_repo
        | _ \<Rightarrow> False))"

definition claim_key :: "db \<Rightarrow> execution \<Rightarrow> nat \<times> millis \<times> millis \<times> ident" where
  "claim_key d e =
     (case Option.bind (find_session d (ex_session_id e)) (\<lambda>s. find_run d (ss_run_id s)) of
        None \<Rightarrow> (0, 0, ex_created_at e, ex_id e)
      | Some r \<Rightarrow> (run_attempt_count d (run_id r), run_admitted_at r, ex_created_at e, ex_id e))"

definition next_claimable :: "db \<Rightarrow> worker \<Rightarrow> execution option" where
  "next_claimable d w =
     (case sort_key (claim_key d) (filter (claimable d w) (executions d)) of [] \<Rightarrow> None | e # _ \<Rightarrow> Some e)"

definition next_attempt_number :: "db \<Rightarrow> ident \<Rightarrow> nat" where
  "next_attempt_number d i =
     foldr max (map at_number (filter (\<lambda>a. at_execution_id a = i) (attempts d))) 0 + 1"

subsection \<open>Claiming\<close>

definition find_claim_request :: "db \<Rightarrow> ident \<Rightarrow> string \<Rightarrow> claim_request option" where
  "find_claim_request d worker_id q =
     find (\<lambda>c. cq_worker_id c = worker_id \<and> cq_request_id c = q) (claim_requests d)"

definition record_claim :: "ident \<Rightarrow> string \<Rightarrow> digest \<Rightarrow> ident option \<Rightarrow> millis \<Rightarrow> db \<Rightarrow> db" where
  "record_claim worker_id q dg attempt_id now d = d\<lparr>claim_requests := claim_requests d @
     [\<lparr>cq_worker_id = worker_id, cq_request_id = q, cq_lease_digest = dg, cq_attempt_id = attempt_id,
       cq_created_at = now\<rparr>]\<rparr>"

definition insert_empty_claim :: "ident \<Rightarrow> string \<Rightarrow> digest \<Rightarrow> millis \<Rightarrow> db \<Rightarrow> db" where
  "insert_empty_claim worker_id q dg now d = record_claim worker_id q dg None now d"

definition forget_claim :: "ident \<Rightarrow> string \<Rightarrow> db \<Rightarrow> db" where
  "forget_claim worker_id q d = d\<lparr>claim_requests :=
     delete_where (\<lambda>c. cq_worker_id c = worker_id \<and> cq_request_id c = q) (claim_requests d)\<rparr>"

definition worker_active_attempts :: "db \<Rightarrow> ident \<Rightarrow> nat" where
  "worker_active_attempts d i = count_where (\<lambda>a. at_worker_id a = i \<and> is_active (at_state a)) (attempts d)"

definition new_attempt :: "ident \<Rightarrow> ident \<Rightarrow> ident \<Rightarrow> nat \<Rightarrow> digest \<Rightarrow> millis \<Rightarrow> millis \<Rightarrow> attempt" where
  "new_attempt i execution_id worker_id n dg expiry now =
     \<lparr>at_id = i, at_execution_id = execution_id, at_worker_id = worker_id, at_number = n, at_state = AttemptPreparing,
      at_lease_digest = dg, at_lease_expires_at = expiry, at_supervisor_pid = None, at_process_identity = None,
      at_process_group_id = None, at_result = None, at_error = None, at_started_at = None, at_completed_at = None,
      at_created_at = now, at_capacity_acknowledged = False\<rparr>"

definition claim_rows :: "millis \<Rightarrow> ident \<Rightarrow> ident \<Rightarrow> db \<Rightarrow> db" where
  "claim_rows now worker_id execution_id d =
     (let d1 = d\<lparr>executions := update_where (\<lambda>e. ex_id e = execution_id \<and> ex_state e = ExecutionQueued)
            (\<lambda>e. e\<lparr>ex_state := ExecutionPreparing, ex_cancellation_requested := False, ex_updated_at := now\<rparr>)
            (executions d)\<rparr>
      in d1\<lparr>sessions := update_where
           (\<lambda>s. Some (ss_id s) = execution_session d1 execution_id \<and> ss_state s = SessionQueued)
           (\<lambda>s. s\<lparr>ss_state := SessionPreparing, ss_assigned_worker_id := Some worker_id, ss_blocked_reason := None,
              ss_waiting_reason := '''', ss_execution_owner := ExecutionOwnerWorkerAttempt\<rparr>) (sessions d1)\<rparr>)"

definition claim_execution ::
    "int \<Rightarrow> ident \<Rightarrow> ident \<Rightarrow> string \<Rightarrow> digest \<Rightarrow> ident \<Rightarrow> db \<Rightarrow> (ident option \<times> db) result" where
  "claim_execution now_ns attempt_id worker_id q dg execution_id d =
     (let now = unix_milli now_ns;
          d1 = d\<lparr>attempts := attempts d @
                 [new_attempt attempt_id execution_id worker_id (next_attempt_number d execution_id) dg
                    (unix_milli (now_ns + from_millis lease_duration)) now]\<rparr>
      in if count_where (\<lambda>e. ex_id e = execution_id \<and> ex_state e = ExecutionQueued) (executions d1) \<noteq> 1
         then Inl (conflict ''claim_conflict'' ''execution is no longer queued'')
         else Inr (Some attempt_id,
                record_claim worker_id q dg (Some attempt_id) now (claim_rows now worker_id execution_id d1)))"

text \<open>The claim of a request id that is not remembered.\<close>

definition fresh_claim ::
    "int \<Rightarrow> ident \<Rightarrow> ident \<Rightarrow> worker \<Rightarrow> string \<Rightarrow> digest \<Rightarrow> db \<Rightarrow> (ident option \<times> db) result" where
  "fresh_claim now_ns attempt_id new_id w q dg d =
     (let now = unix_milli now_ns; i = wk_id w in
      if wk_health w \<noteq> Healthy \<or> now_ns - from_millis (wk_last_heartbeat w) > from_millis worker_online_window \<or>
         worker_active_attempts d i \<ge> wk_capacity w
      then Inr (None, insert_empty_claim i q dg now d)
      else
        and_then (materialize_blocked_session_for_worker now new_id i d) (\<lambda>d1.
        and_then (reroute_queued_session_for_worker now i d1) (\<lambda>d2.
          case next_claimable d2 w of
            None \<Rightarrow> Inr (None, insert_empty_claim i q dg now d2)
          | Some e \<Rightarrow> claim_execution now_ns attempt_id i q dg (ex_id e) d2)))"

definition lease_gone :: service_error where
  "lease_gone = conflict ''lease_not_owner'' ''the claim no longer owns an active lease''"

definition claim_tx :: "int \<Rightarrow> ident \<Rightarrow> ident \<Rightarrow> db \<Rightarrow> ident \<Rightarrow> claim_input \<Rightarrow> (ident option \<times> db) result" where
  "claim_tx now_ns attempt_id new_id d worker_id input =
     (let q = trim_space (ci_request_id input); dg = digest_token (ci_lease_token input) in
      if q = '''' \<or> length q > 200 then Inl (invalid ''invalid_request_id'' ''request_id is required'')
      else
        and_then (validate_token (ci_lease_token input)) (\<lambda>_.
          case find_worker d worker_id of
            None \<Rightarrow> Inl err_not_found
          | Some w \<Rightarrow>
              if wk_synthetic w
              then Inl (conflict ''synthetic_worker_isolated'' ''synthetic cloud Workers cannot use Worker claim routes'')
              else if wk_claim_protocol_version w \<noteq> claim_protocol_version
              then Inl (conflict ''worker_upgrade_required''
                ''the Worker uses an incompatible claim protocol; upgrade it before claiming a Session'')
              else
                (case find_claim_request d worker_id q of
                   None \<Rightarrow> fresh_claim now_ns attempt_id new_id w q dg d
                 | Some c \<Rightarrow>
                     if \<not> equal_digest (cq_lease_digest c) dg
                     then Inl (conflict ''claim_request_conflict'' ''request_id was already used with a different lease token'')
                     else
                       (case cq_attempt_id c of
                          None \<Rightarrow>
                            if now_ns - from_millis (cq_created_at c) \<le> from_millis empty_claim_ttl then Inr (None, d)
                            else fresh_claim now_ns attempt_id new_id w q dg (forget_claim worker_id q d)
                        | Some i \<Rightarrow>
                            (case find_attempt d i of
                               None \<Rightarrow> Inl unavailable
                             | Some a \<Rightarrow>
                                 if \<not> equal_digest (at_lease_digest a) dg \<or> \<not> is_active (at_state a) \<or>
                                    at_lease_expires_at a \<le> unix_milli now_ns
                                 then Inl lease_gone
                                 else Inr (Some i, d))))))"

subsection \<open>The reply\<close>

definition default_claim_stage :: "string \<Rightarrow> stage_run" where
  "default_claim_stage prompt = \<lparr>sv_position = 0, sv_name = ''Do the task'', sv_prompt = prompt, sv_state = StagePending,
     sv_result = '''', sv_error = '''', sv_started_at = None, sv_completed_at = None\<rparr>"

definition scan_execution :: "execution \<Rightarrow> session_execution" where
  "scan_execution e = \<lparr>xv_id = ex_id e, xv_session_id = ex_session_id e, xv_assigned_worker_id = ex_assigned_worker_id e,
     xv_required_runtime = ex_required_runtime e, xv_state = ex_state e,
     xv_cancellation_requested = ex_cancellation_requested e, xv_created_at = ex_created_at e,
     xv_updated_at = ex_updated_at e\<rparr>"

definition claimed_session_of :: "run \<Rightarrow> session \<Rightarrow> execution \<Rightarrow> string \<Rightarrow> stage_run list \<Rightarrow> claimed_session" where
  "claimed_session_of r s e prompt stages =
     \<lparr>cl_id = ss_id s, cl_run_id = ss_run_id s, cl_task_name = ts_name (run_task_snapshot r), cl_prompt = prompt,
      cl_stages = stages, cl_worker_id = ex_assigned_worker_id e, cl_repository_id = ss_repository_id s,
      cl_required_runtime = ex_required_runtime e, cl_timeout_seconds = ss_timeout_seconds s,
      cl_outcome_contract = run_outcome_contract r, cl_target = session_target s,
      cl_checkpoint_sha = ss_checkpoint_sha s, cl_pending_resume_sha = ss_pending_resume_sha s,
      cl_checkpoint_published = ss_checkpoint_published s, cl_pull_request_url = ss_pull_request_url s,
      cl_pull_request_head_branch = ss_pull_request_head_branch s, cl_pull_request_head_sha = ss_pull_request_head_sha s,
      cl_state = ex_state e, cl_admitted_at = ss_admitted_at s\<rparr>"

text \<open>The stages that the Worker is to run and the prompt beside them: Work without stages gets one.\<close>

definition claim_stages :: "db \<Rightarrow> run \<Rightarrow> session \<Rightarrow> (string \<times> stage_run list) result" where
  "claim_stages d r s =
     (let rows = map scan_stage_run (session_stage_rows d (ss_id s));
          prompt = (if rows = [] then ss_resolved_prompt s else '''');
          stages = (if rows = [] then [default_claim_stage (ss_resolved_prompt s)] else rows)
      in if run_outcome_contract r = OutcomeAgentUpdate then
           and_then (continuation_prompt d (ss_id s)) (\<lambda>continued.
             Inr (if prompt \<noteq> '''' then continued else prompt,
                  stages[length stages - 1 := (last stages)\<lparr>sv_prompt := continued\<rparr>]))
         else Inr (prompt, stages))"

definition claimed_repository_of :: "db \<Rightarrow> attempt \<Rightarrow> session \<Rightarrow> claimed_repository result" where
  "claimed_repository_of d a s =
     (case find_repository d (ss_repository_id s) of None \<Rightarrow> Inl unavailable | Some p \<Rightarrow>
     (case find_worker_repository d (at_worker_id a) (ss_repository_id s) of None \<Rightarrow> Inl unavailable | Some y \<Rightarrow>
        Inr \<lparr>cr_id = rp_id p, cr_key = wr_display_key y,
             cr_remote_identity = coalesce_nullif (ss_repository_identity s)
               (coalesce_nullif (wr_worker_remote_identity y) (rp_remote_identity p)),
             cr_retained_count = wr_retained_count y\<rparr>))"

definition claim_detail :: "db \<Rightarrow> ident \<Rightarrow> claim result" where
  "claim_detail d attempt_id =
     (case find_attempt d attempt_id of None \<Rightarrow> Inl err_not_found | Some a \<Rightarrow>
     (case find_execution d (at_execution_id a) of None \<Rightarrow> Inl unavailable | Some e \<Rightarrow>
     (case find_session d (ex_session_id e) of None \<Rightarrow> Inl unavailable | Some s \<Rightarrow>
     (case find_run d (ss_run_id s) of None \<Rightarrow> Inl unavailable | Some r \<Rightarrow>
     (case session_execution_row d (ss_id s) of None \<Rightarrow> Inl unavailable | Some x \<Rightarrow>
       and_then (claim_stages d r s) (\<lambda>(prompt, stages).
       and_then (claimed_repository_of d a s) (\<lambda>repository.
         Inr \<lparr>cm_attempt = scan_attempt a, cm_execution = scan_execution e,
              cm_session = claimed_session_of r s x prompt stages, cm_repository = repository\<rparr>)))))))"

definition store_claim :: "int \<Rightarrow> ident \<Rightarrow> ident \<Rightarrow> db \<Rightarrow> ident \<Rightarrow> claim_input \<Rightarrow> claim option result \<times> db" where
  "store_claim now_ns attempt_id new_id d worker_id input =
     committed d (claim_tx now_ns attempt_id new_id d worker_id input)
       (\<lambda>d' reply. case reply of
          None \<Rightarrow> Inr None
        | Some i \<Rightarrow> and_then (claim_detail d' i) (\<lambda>c. Inr (Some c)))"

subsection \<open>The searches look at every candidate\<close>

lemma distinct_map_finer: "distinct (map (\<lambda>x. h (k x)) xs) \<Longrightarrow> distinct (map k xs)"
  by (auto simp: distinct_map inj_on_def)

definition scan_ok :: "db \<Rightarrow> bool" where
  "scan_ok d \<longleftrightarrow> keys_ok d \<and> '''' \<notin> ss_id ` set (sessions d)"

lemma blocked_candidate_of_Some:
  assumes "blocked_candidate_of d s = Some c"
  shows "bc_id c = ss_id s" "bc_repository_id c = ss_repository_id s" "bc_identity c = ss_repository_identity s"
    "bc_runtime c = ss_required_runtime s" "ss_state s = SessionBlocked"
    "\<exists>r. find_run d (ss_run_id s) = Some r \<and>
       below_limit (run_session_count session_occupies_slot d (ss_run_id s)) (concurrency_limit r)"
  using assms by (auto simp: blocked_candidate_of_def split: option.splits if_splits)

lemma in_blocked_candidates:
  "c \<in> set (blocked_candidates d) \<longleftrightarrow> (\<exists>s \<in> set (sessions d). blocked_candidate_of d s = Some c)"
  by (force simp: blocked_candidates_def List.map_filter_def image_iff)

lemma blocked_keys_distinct:
  assumes "keys_ok d" shows "distinct (map blocked_key (blocked_candidates d))"
proof -
  have "distinct (map bc_id (blocked_candidates d))"
    unfolding blocked_candidates_def
    by (rule distinct_map_filter_option [where k = ss_id])
      (use assms blocked_candidate_of_Some(1) in \<open>auto simp: keys_ok_def\<close>)
  then show ?thesis
    by (intro distinct_map_finer [where h = "\<lambda>(_, _, _, i). i"]) (simp add: blocked_key_def)
qed

lemma after_blocked_key:
  "bc_id b \<noteq> '''' \<Longrightarrow> after_blocked (blocked_key b) c \<longleftrightarrow> blocked_key b < blocked_key c"
  by (auto simp: after_blocked_def blocked_key_def less_prod_def')

lemma materialize_step_False: "materialize_step now new_id w d c = Inr (d', False) \<Longrightarrow> d' = d"
  by (auto simp: materialize_step_def Let_def split: sum.splits if_splits)

interpretation blocked_scan: candidate_scan blocked_candidates blocked_key after_blocked "(0, 0, 0, '''')"
  "materialize_step now new_id w" scan_ok
proof (unfold_locales, goal_cases)
  case (1 d)
  then show ?case by (simp add: scan_ok_def blocked_keys_distinct)
next
  case (2 d c)
  show ?case by (simp add: after_blocked_def)
next
  case (3 d b c)
  then obtain s where "s \<in> set (sessions d)" "blocked_candidate_of d s = Some b" by (auto simp: in_blocked_candidates)
  then have "bc_id b \<in> ss_id ` set (sessions d)" by (simp add: blocked_candidate_of_Some(1))
  then have "bc_id b \<noteq> ''''" using 3(1) by (auto simp: scan_ok_def)
  then show ?case by (rule after_blocked_key)
next
  case (4 d c d')
  then show ?case by (auto dest: materialize_step_False)
qed

lemma queued_candidate_of_Some:
  assumes "queued_candidate_of d w e = Some c"
  shows "qc_session_id c = ex_session_id e" "qc_execution_id c = ex_id e" "qc_assigned c = ex_assigned_worker_id e"
    "ex_state e = ExecutionQueued" "\<exists>s. find_session d (ex_session_id e) = Some s \<and> ss_state s = SessionQueued"
  using assms by (auto simp: queued_candidate_of_def dest: find_session_Some split: option.splits if_splits)

lemma in_queued_candidates:
  "c \<in> set (queued_candidates w d) \<longleftrightarrow> (\<exists>e \<in> set (executions d). queued_candidate_of d w e = Some c)"
  by (force simp: queued_candidates_def List.map_filter_def image_iff)

lemma queued_keys_distinct:
  assumes "keys_ok d" shows "distinct (map queued_key (queued_candidates w d))"
proof -
  have "distinct (map qc_session_id (queued_candidates w d))"
    unfolding queued_candidates_def
    by (rule distinct_map_filter_option [where k = ex_session_id])
      (use assms queued_candidate_of_Some(1) in \<open>auto simp: keys_ok_def\<close>)
  then show ?thesis
    by (intro distinct_map_finer [where h = snd]) (simp add: queued_key_def)
qed

lemma after_queued_key:
  "qc_session_id b \<noteq> '''' \<Longrightarrow> after_queued (queued_key b) c \<longleftrightarrow> queued_key b < queued_key c"
  by (auto simp: after_queued_def queued_key_def less_prod_def')

lemma queued_candidates_same:
  "executions d' = executions d \<Longrightarrow> sessions d' = sessions d \<Longrightarrow> queued_candidates w d' = queued_candidates w d"
  by (simp add: queued_candidates_def queued_candidate_of_def [abs_def] find_session_def)

text \<open>Looking at queued Work in vain changes nothing but reservations.\<close>

definition same_but_reservations :: "db \<Rightarrow> db \<Rightarrow> bool" where
  "same_but_reservations d d' \<longleftrightarrow> d' = d\<lparr>worker_repositories := worker_repositories d'\<rparr>"

lemma same_but_reservations_tables:
  assumes "same_but_reservations d d'"
  shows "runs d' = runs d" "sessions d' = sessions d" "executions d' = executions d" "attempts d' = attempts d"
    "session_stages d' = session_stages d" "work_updates d' = work_updates d" "workers d' = workers d"
    "repositories d' = repositories d" "agent_update_requests d' = agent_update_requests d"
    "attempt_events d' = attempt_events d" "claim_requests d' = claim_requests d"
  by (subst assms [unfolded same_but_reservations_def]; simp)+

lemma same_but_reservations_trans:
  "same_but_reservations d e \<Longrightarrow> same_but_reservations e f \<Longrightarrow> same_but_reservations d f"
  by (cases d; cases e; cases f) (simp add: same_but_reservations_def)

lemma same_but_reservations_refl [simp]: "same_but_reservations d d"
  by (simp add: same_but_reservations_def)

lemma scan_ok_same: "same_but_reservations d d' \<Longrightarrow> scan_ok d \<Longrightarrow> scan_ok d'"
  by (simp add: scan_ok_def keys_ok_def same_but_reservations_tables)

lemma update_where_none: "count_where P xs = 0 \<Longrightarrow> update_where P f xs = xs"
  by (induction xs) (auto split: if_splits)

lemma reroute_step_Inr:
  assumes "reroute_step now w d c = Inr (d', stop)"
  obtains (kept) "\<not> stop" "same_but_reservations d d'"
  | (moved) selection :: route_candidate and d1 where "same_but_reservations d d1" "find_worker d (rc_worker_id selection) \<noteq> None"
      "count_where (\<lambda>e. ex_id e = qc_execution_id c \<and> ex_state e = ExecutionQueued \<and>
         ex_assigned_worker_id e = qc_assigned c) (executions d) = 1 \<longleftrightarrow> stop"
      "d' = d1\<lparr>executions := update_where (\<lambda>e. ex_id e = qc_execution_id c \<and> ex_state e = ExecutionQueued \<and>
           ex_assigned_worker_id e = qc_assigned c)
          (\<lambda>e. e\<lparr>ex_assigned_worker_id := rc_worker_id selection, ex_updated_at := now\<rparr>) (executions d1),
         sessions := (if stop then update_where (\<lambda>s. ss_id s = qc_session_id c)
            (\<lambda>s. s\<lparr>ss_assigned_worker_id := Some (rc_worker_id selection)\<rparr>) (sessions d1) else sessions d1)\<rparr>"
proof (cases "select_session_route d (qc_repository_id c) (qc_identity c) now (qc_assigned c) (qc_runtime c)")
  case (Inr r)
  then obtain x d1 where r: "select_session_route d (qc_repository_id c) (qc_identity c) now (qc_assigned c) (qc_runtime c) = Inr (x, d1)"
    by (cases r) simp
  then have "\<not> stop" "same_but_reservations d d'"
    using assms select_session_route_reserves [OF r] by (simp_all add: reroute_step_def same_but_reservations_def)
  then show ?thesis by (rule kept)
next
  case (Inl err)
  show ?thesis
  proof (cases "select_session_route d (qc_repository_id c) (qc_identity c) now w (qc_runtime c)")
    case (Inl err')
    then have "\<not> stop" "d' = d"
      using assms \<open>select_session_route d (qc_repository_id c) (qc_identity c) now (qc_assigned c) (qc_runtime c) = Inl err\<close>
      by (simp_all add: reroute_step_def split: if_splits)
    then show ?thesis by (intro kept) simp_all
  next
    case (Inr r)
    then obtain x d1 where r: "select_session_route d (qc_repository_id c) (qc_identity c) now w (qc_runtime c) = Inr (x, d1)"
      by (cases r) simp
    have same: "same_but_reservations d d1"
      using select_session_route_reserves [OF r] by (simp add: same_but_reservations_def)
    show ?thesis
      by (rule moved [OF same select_session_route_worker [OF r]])
        (use assms Inl r in \<open>auto simp: reroute_step_def Let_def same_but_reservations_tables [OF same] split: if_splits\<close>)
  qed
qed

lemma reroute_step_False:
  assumes "reroute_step now w d c = Inr (d', False)" "keys_ok d"
  shows "same_but_reservations d d'"
  using assms(1)
proof (cases rule: reroute_step_Inr)
  case (moved x d1)
  let ?P = "\<lambda>e. ex_id e = qc_execution_id c \<and> ex_state e = ExecutionQueued \<and> ex_assigned_worker_id e = qc_assigned c"
  have "count_where ?P (executions d) \<le> 1"
    by (rule count_key_le_one [where k = ex_id]) (use assms(2) in \<open>auto simp: keys_ok_def\<close>)
  with moved(3) have "count_where ?P (executions d) = 0" by (simp add: le_Suc_eq)
  then have "d' = d1"
    unfolding moved(4) by (simp add: same_but_reservations_tables [OF moved(1), symmetric] update_where_none)
  with moved(1) show ?thesis by simp
qed

interpretation queued_scan: candidate_scan "queued_candidates w" queued_key after_queued "(0, '''')"
  "reroute_step now w" scan_ok
proof (unfold_locales, goal_cases)
  case (1 d)
  then show ?case by (simp add: scan_ok_def queued_keys_distinct)
next
  case (2 d c)
  show ?case by (simp add: after_queued_def)
next
  case (3 d b c)
  then obtain e where e: "e \<in> set (executions d)" "queued_candidate_of d w e = Some b" by (auto simp: in_queued_candidates)
  then obtain s where "find_session d (ex_session_id e) = Some s" using queued_candidate_of_Some(5) by blast
  then have "qc_session_id b \<in> ss_id ` set (sessions d)"
    using find_session_Some queued_candidate_of_Some(1) [OF e(2)] by force
  then have "qc_session_id b \<noteq> ''''" using 3(1) by (auto simp: scan_ok_def)
  then show ?case by (rule after_queued_key)
next
  case (4 d c d')
  then have "same_but_reservations d d'" by (simp add: reroute_step_False scan_ok_def)
  then show ?case
    using queued_candidates_same [OF same_but_reservations_tables(3,2)] scan_ok_same [OF _ 4(1)] by blast
qed

lemma fetches_pages: "blocked_scan.fetch = fetch_blocked" "queued_scan.fetch w = fetch_queued w"
  by (simp_all add: blocked_scan.fetch_def queued_scan.fetch_def fetch_blocked_def fetch_queued_def fun_eq_iff)

lemma materialize_scans_all:
  assumes "scan_ok d"
  shows "materialize_blocked_session_for_worker now new_id w d =
     and_then (scan_page (materialize_step now new_id w) d (sort_key blocked_key (blocked_candidates d)))
       (\<lambda>(d', _). Inr d')"
proof -
  have "length (blocked_candidates d) < Suc (length (sessions d))"
    unfolding blocked_candidates_def List.map_filter_def by (simp add: le_imp_less_Suc)
  then show ?thesis
    using blocked_scan.scan_is_complete [OF assms] by (simp add: materialize_blocked_session_for_worker_def fetches_pages
      del: scan_pages.simps)
qed

lemma reroute_scans_all:
  assumes "scan_ok d"
  shows "reroute_queued_session_for_worker now w d =
     and_then (scan_page (reroute_step now w) d (sort_key queued_key (queued_candidates w d))) (\<lambda>(d', _). Inr d')"
proof -
  have "length (queued_candidates w d) < Suc (length (executions d))"
    unfolding queued_candidates_def List.map_filter_def by (simp add: le_imp_less_Suc)
  then show ?thesis
    using queued_scan.scan_is_complete [OF assms] by (simp add: reroute_queued_session_for_worker_def fetches_pages
      del: scan_pages.simps)
qed

text \<open>What a search that succeeds has done.\<close>

lemma materialize_Inr:
  assumes "materialize_blocked_session_for_worker now new_id w d = Inr d'"
  obtains "d' = d" | c where "c \<in> set (blocked_candidates d)" "materialize_step now new_id w d c = Inr (d', True)"
proof -
  have "d' = d \<or> (\<exists>e f k. \<exists>c \<in> set (fetch_blocked f k). e = d \<and> f = d \<and> materialize_step now new_id w e c = Inr (d', True))"
    by (rule scan_pages_outcome [where P = "\<lambda>e. e = d", OF _ assms [unfolded materialize_blocked_session_for_worker_def]])
      (auto dest: materialize_step_False)
  then show thesis by (auto simp: fetch_blocked_def dest!: in_set_takeD intro: that)
qed

lemma reroute_Inr:
  assumes "reroute_queued_session_for_worker now w d = Inr d'" "scan_ok d"
  obtains "same_but_reservations d d'"
  | e c where "same_but_reservations d e" "c \<in> set (queued_candidates w d)" "reroute_step now w e c = Inr (d', True)"
proof -
  let ?P = "\<lambda>e. same_but_reservations d e"
  have "?P d' \<or> (\<exists>e f k. \<exists>c \<in> set (fetch_queued w f k). ?P e \<and> ?P f \<and> reroute_step now w e c = Inr (d', True))"
  proof (rule scan_pages_outcome [where P = ?P, OF _ assms(1) [unfolded reroute_queued_session_for_worker_def]])
    fix e c e' assume e: "?P e" "reroute_step now w e c = Inr (e', False)"
    then have "same_but_reservations e e'"
      using reroute_step_False scan_ok_same [OF e(1) assms(2)] by (simp add: scan_ok_def)
    with e(1) show "?P e'" by (rule same_but_reservations_trans)
  qed simp
  moreover have "c \<in> set (queued_candidates w d)" if "?P f" "c \<in> set (fetch_queued w f k)" for f k c
    using that(2) queued_candidates_same [OF same_but_reservations_tables(3,2) [OF that(1)]]
    by (auto simp: fetch_queued_def dest!: in_set_takeD)
  ultimately show thesis using that by blast
qed

subsection \<open>Placing Work keeps the store well formed\<close>

definition materialized_row :: "ident \<Rightarrow> session \<Rightarrow> session" where
  "materialized_row worker s = s\<lparr>ss_state := SessionQueued, ss_blocked_reason := None,
     ss_assigned_worker_id := Some worker, ss_waiting_reason := '''', ss_execution_owner := ExecutionOwnerNone\<rparr>"

lemma materialized_row_simps [simp]:
  "ss_id (materialized_row worker s) = ss_id s" "ss_run_id (materialized_row worker s) = ss_run_id s"
  "ss_state (materialized_row worker s) = SessionQueued" "session_row_ok (materialized_row worker s)"
  by (simp_all add: materialized_row_def session_row_ok_def state_predicates)

lemma materialize_step_Inr:
  assumes "materialize_step now new_id w d c = Inr (d', True)"
  obtains selection d1 where
    "select_session_route d (bc_repository_id c) (bc_identity c) now w (bc_runtime c) = Inr (selection, d1)"
    "d' = (queue_existing_execution new_id (bc_id c) (rc_worker_id selection) (bc_runtime c) now d1)\<lparr>sessions :=
       update_where (\<lambda>s. ss_id s = bc_id c \<and> ss_state s = SessionBlocked) (materialized_row (rc_worker_id selection))
         (sessions d)\<rparr>"
proof -
  from assms obtain x d1 where r: "select_session_route d (bc_repository_id c) (bc_identity c) now w (bc_runtime c) = Inr (x, d1)"
    by (auto simp: materialize_step_def split: sum.splits if_splits)
  have same: "same_but_reservations d d1"
    using select_session_route_reserves [OF r] by (simp add: same_but_reservations_def)
  show thesis
    by (rule that [OF r]) (use assms r in \<open>simp add: materialize_step_def Let_def queue_existing_execution_tables
      materialized_row_def [abs_def] same_but_reservations_tables [OF same] split: if_splits\<close>)
qed

lemma materialize_step_ok:
  assumes ok: "store_ok d" and fresh: "new_id \<notin> ex_id ` set (executions d)"
    and c: "c \<in> set (blocked_candidates d)" and step: "materialize_step now new_id w d c = Inr (d', True)"
  shows "store_ok d'"
proof -
  obtain s where s: "s \<in> set (sessions d)" "blocked_candidate_of d s = Some c"
    using c by (auto simp: in_blocked_candidates)
  note cs = blocked_candidate_of_Some [OF s(2)]
  obtain x d1 where r: "select_session_route d (bc_repository_id c) (bc_identity c) now w (bc_runtime c) = Inr (x, d1)"
    and d': "d' = (queue_existing_execution new_id (bc_id c) (rc_worker_id x) (bc_runtime c) now d1)\<lparr>sessions :=
       update_where (\<lambda>s. ss_id s = bc_id c \<and> ss_state s = SessionBlocked) (materialized_row (rc_worker_id x)) (sessions d)\<rparr>"
    using step by (rule materialize_step_Inr)
  have same: "same_but_reservations d d1"
    using select_session_route_reserves [OF r] by (simp add: same_but_reservations_def)
  note t = same_but_reservations_tables [OF same]
  have row: "session_execution_row d1 i = session_execution_row d i" for i by (simp add: session_execution_row_def t)
  let ?P = "\<lambda>s. ss_id s = bc_id c \<and> ss_state s = SessionBlocked"
  have only: "?P y \<longleftrightarrow> y = s" if "y \<in> set (sessions d)" for y
    using session_unique [OF store_okD(1) [OF ok] that s(1)] cs(1,5) by auto
  have core: "core_ok d'"
    by (rule queued_core_ok [OF store_okD(6) [OF ok] s(1) _ fresh, where P = ?P and g = "materialized_row (rc_worker_id x)" and
          x = "new_execution new_id (ss_id s) (rc_worker_id x) (bc_runtime c) now 0" and f = "requeue_execution (rc_worker_id x) now"])
      (use cs(1,5) only in \<open>simp_all add: d' queue_existing_execution_tables row t state_predicates new_execution_def
         split: option.split\<close>)
  have "runs_ok d'"
    by (rule runs_ok_same_nonterminal [OF store_okD(5) [OF ok], where fs = "\<lambda>y. if ?P y then materialized_row (rc_worker_id x) y else y"])
      (auto simp: d' queue_existing_execution_tables t update_where_def state_predicates)
  with core show ?thesis by (simp add: store_ok_def)
qed

lemma materialize_ok:
  assumes "store_ok d" "new_id \<notin> ex_id ` set (executions d)"
    and "materialize_blocked_session_for_worker now new_id w d = Inr d'"
  shows "store_ok d'"
  using assms(3) by (rule materialize_Inr) (use assms(1,2) materialize_step_ok in blast)+

lemma same_but_reservations_ok: "same_but_reservations d d' \<Longrightarrow> store_ok d \<Longrightarrow> store_ok d'"
  by (rule store_ok_frame) (simp_all add: same_but_reservations_tables)

lemma reroute_step_ok:
  assumes ok: "store_ok d" and step: "reroute_step now w d c = Inr (d', True)"
  shows "store_ok d'"
  using step
proof (cases rule: reroute_step_Inr)
  case (moved x d1)
  note t = same_but_reservations_tables [OF moved(1)]
  let ?P = "\<lambda>e. ex_id e = qc_execution_id c \<and> ex_state e = ExecutionQueued \<and> ex_assigned_worker_id e = qc_assigned c"
  let ?fe = "\<lambda>e. e\<lparr>ex_assigned_worker_id := rc_worker_id x, ex_updated_at := now\<rparr>"
  let ?fs = "\<lambda>s. s\<lparr>ss_assigned_worker_id := Some (rc_worker_id x)\<rparr>"
  have places: "in_place (\<lambda>s. if ss_id s = qc_session_id c then ?fs s else s) (sessions d) (sessions d')"
      "in_place (\<lambda>e. if ?P e then ?fe e else e) (executions d) (executions d')" "in_place (\<lambda>a. a) (attempts d) (attempts d')"
    by (simp_all add: moved(4) t in_place_intros)
  have same: "same_keys d d'" by (simp add: same_keys_def moved(4) t map_update_where)
  have "core_ok d'"
    by (rule core_ok_same_states [OF store_okD(6) [OF ok] same places]) (simp_all add: session_row_ok_def)
  moreover have "runs_ok d'"
    by (rule runs_ok_same_nonterminal [OF store_okD(5) [OF ok] places(1) [unfolded in_place_def]])
      (simp_all add: moved(4) t)
  ultimately show ?thesis by (simp add: store_ok_def)
qed simp

lemma reroute_ok:
  assumes "store_ok d" "scan_ok d" "reroute_queued_session_for_worker now w d = Inr d'"
  shows "store_ok d'"
  using assms(3,2) by (rule reroute_Inr) (use assms(1) same_but_reservations_ok reroute_step_ok in blast)+

subsection \<open>Claiming keeps the store well formed\<close>

lemma core_ok_new_attempt:
  assumes ok: "core_ok d" and e: "e \<in> set (executions d)" "ex_state e = ExecutionQueued"
    and s: "s \<in> set (sessions d)" "ss_id s = ex_session_id e"
    and a: "at_id a \<notin> at_id ` set (attempts d)" "at_execution_id a = ex_id e" "at_state a = AttemptPreparing"
      "(ex_id e, at_number a) \<notin> (\<lambda>a. (at_execution_id a, at_number a)) ` set (attempts d)"
    and tables: "attempts d' = attempts d @ [a]" "in_place fe (executions d) (executions d')"
      "in_place fs (sessions d) (sessions d')" "map run_id (runs d') = map run_id (runs d)"
      "map (\<lambda>g. (sg_session_id g, sg_position g)) (session_stages d') =
       map (\<lambda>g. (sg_session_id g, sg_position g)) (session_stages d)"
    and keys: "\<And>x. ex_id (fe x) = ex_id x" "\<And>x. ex_session_id (fe x) = ex_session_id x"
      "\<And>x. ss_id (fs x) = ss_id x" "\<And>x. ss_run_id (fs x) = ss_run_id x"
    and others: "\<And>x. x \<in> set (executions d) \<Longrightarrow> x \<noteq> e \<Longrightarrow> ex_state (fe x) = ex_state x"
      "\<And>x. x \<in> set (sessions d) \<Longrightarrow> x \<noteq> s \<Longrightarrow> fs x = x"
    and new: "ex_state (fe e) = ExecutionPreparing" "ss_state (fs s) = SessionPreparing" "session_row_ok (fs s)"
  shows "core_ok d'"
  unfolding core_ok_def
proof (intro conjI)
  note ok' = core_okD [OF ok] and maps = tables(2,3) [unfolded in_place_def]
  have idle: "\<not> is_active (at_state b)" if "b \<in> set (attempts d)" "at_execution_id b = ex_id e" for b
    using lifecycle_inactive [OF ok'(3) that(1) e(1)] that(2) e(2) by (simp add: state_predicates)
  have linked: "x = s \<longleftrightarrow> f = e" if "f \<in> set (executions d)" "x \<in> set (sessions d)" "ss_id x = ex_session_id f" for f x
    using that e s session_unique [OF ok'(1)] execution_session_unique [OF ok'(1)] by metis
  have runs: "run_id ` set (runs d') = run_id ` set (runs d)" using tables(4) by (metis list.set_map)
  show "keys_ok d'" using ok'(1) a(1,2,4) by (simp add: keys_ok_def tables maps comp_def keys)
  show "refs_ok d'" using ok'(2) a(2) e(1) by (auto simp: refs_ok_def tables(1) maps keys image_image runs)
  show "session_rows_ok d'"
    unfolding session_rows_ok_def maps list_all_iff list.set_map ball_simps
  proof
    fix x assume "x \<in> set (sessions d)"
    then show "session_row_ok (fs x)" using core_ok_session [OF ok] others(2) new(3) by (cases "x = s") simp_all
  qed
  show "lifecycle_ok d'"
    unfolding lifecycle_ok_def tables(1) maps list.set_map ball_simps bex_simps keys
  proof (intro conjI ballI impI)
    fix b f assume "b \<in> set (attempts d @ [a])" "f \<in> set (executions d)" "ex_id f = at_execution_id b" "is_active (at_state b)"
    then show "ex_state (fe f) = execution_of_attempt (at_state b)"
      using execution_unique [OF ok'(1) _ e(1), of f] others(1) [of f] lifecycle_attempt_execution [OF ok'(3), of b f] idle [of b] a new(1)
      by (cases "f = e") auto
  next
    fix b c assume bc: "b \<in> set (attempts d @ [a])" "c \<in> set (attempts d @ [a])" "at_execution_id b = at_execution_id c"
      "is_active (at_state b)" "is_active (at_state c)"
    show "at_id b = at_id c"
    proof (cases "at_execution_id b = ex_id e")
      case True
      then have "b \<notin> set (attempts d)" "c \<notin> set (attempts d)" using idle bc(3-5) by metis+
      with bc(1,2) show ?thesis by simp
    next
      case False
      then have "b \<in> set (attempts d)" "c \<in> set (attempts d)" using bc(1-3) a(2) by auto
      then show ?thesis by (rule lifecycle_one_active [OF ok'(3) _ _ bc(3-5)])
    qed
  next
    fix f assume f: "f \<in> set (executions d)" "execution_executing (ex_state (fe f))"
    show "\<exists>b \<in> set (attempts d @ [a]). at_execution_id b = ex_id f \<and> is_active (at_state b)"
    proof (cases "f = e")
      case True
      with a(2,3) show ?thesis by (simp add: is_active_def)
    next
      case False
      with f others(1) lifecycle_executing_attempt [OF ok'(3) f(1)] show ?thesis by auto
    qed
  next
    fix f x assume fx: "f \<in> set (executions d)" "x \<in> set (sessions d)" "ss_id x = ex_session_id f"
    then show "states_agree (ex_state (fe f)) (ss_state (fs x))"
      using linked [OF fx] others(1) [of f] others(2) [of x] new lifecycle_states_agree [OF ok'(3) fx]
      by (cases "f = e") (auto simp: states_agree_def)
  next
    fix x assume x: "x \<in> set (sessions d)" "session_occupies_slot (ss_state (fs x))"
    show "\<exists>f \<in> set (executions d). ex_session_id f = ss_id x"
    proof (cases "x = s")
      case True
      with e s show ?thesis by metis
    next
      case False
      with x others(2) lifecycle_slot_execution [OF ok'(3) x(1)] show ?thesis by metis
    qed
  qed
qed

lemma le_foldr_max: "n \<in> set ns \<Longrightarrow> n \<le> foldr max ns (0 :: nat)"
  by (induction ns) auto

lemma next_attempt_number_fresh:
  "a \<in> set (attempts d) \<Longrightarrow> at_execution_id a = i \<Longrightarrow> at_number a < next_attempt_number d i"
  unfolding next_attempt_number_def using le_foldr_max [of "at_number a"] by (simp add: less_Suc_eq_le)

lemma next_claimable_Some:
  assumes "next_claimable d w = Some e"
  shows "e \<in> set (executions d)" "claimable d w e"
    and "\<And>f. f \<in> set (executions d) \<Longrightarrow> claimable d w f \<Longrightarrow> claim_key d e \<le> claim_key d f"
proof -
  let ?xs = "sort_key (claim_key d) (filter (claimable d w) (executions d))"
  from assms obtain es where es: "?xs = e # es" by (auto simp: next_claimable_def split: list.splits)
  then have "e \<in> set ?xs" by simp
  then show "e \<in> set (executions d)" "claimable d w e" by auto
  fix f assume f: "f \<in> set (executions d)" "claimable d w f"
  then have "f \<in> set (e # es)" unfolding es [symmetric] by simp
  moreover have "sorted (map (claim_key d) (e # es))" unfolding es [symmetric] by (rule sorted_sort_key)
  ultimately show "claim_key d e \<le> claim_key d f" by auto
qed

lemma claim_execution_Inr:
  assumes "claim_execution now_ns i w q dg x d = Inr (reply, d')"
  shows "reply = Some i"
    "d' = record_claim w q dg (Some i) (unix_milli now_ns) (claim_rows (unix_milli now_ns) w x
       (d\<lparr>attempts := attempts d @ [new_attempt i x w (next_attempt_number d x) dg
          (unix_milli (now_ns + from_millis lease_duration)) (unix_milli now_ns)]\<rparr>))"
  using assms by (auto simp: claim_execution_def Let_def split: if_splits)

lemma execution_session_update:
  "(\<And>e. ex_id (f e) = ex_id e) \<Longrightarrow> (\<And>e. ex_session_id (f e) = ex_session_id e) \<Longrightarrow>
   execution_session (d\<lparr>executions := update_where P f (executions d)\<rparr>) x = execution_session d x"
  by (simp add: execution_session_def find_execution_def find_update_where option.map_comp comp_def)
    (cases "find (\<lambda>e. ex_id e = x) (executions d)"; simp)

lemma claim_rows_tables:
  assumes "execution_session d x = Some i"
  shows "runs (claim_rows now w x d) = runs d" "attempts (claim_rows now w x d) = attempts d"
    "session_stages (claim_rows now w x d) = session_stages d"
    "executions (claim_rows now w x d) = update_where (\<lambda>y. ex_id y = x \<and> ex_state y = ExecutionQueued)
       (\<lambda>y. y\<lparr>ex_state := ExecutionPreparing, ex_cancellation_requested := False, ex_updated_at := now\<rparr>) (executions d)"
    "sessions (claim_rows now w x d) = update_where (\<lambda>s. ss_id s = i \<and> ss_state s = SessionQueued)
       (\<lambda>s. s\<lparr>ss_state := SessionPreparing, ss_assigned_worker_id := Some w, ss_blocked_reason := None,
          ss_waiting_reason := '''', ss_execution_owner := ExecutionOwnerWorkerAttempt\<rparr>) (sessions d)"
  using assms by (simp_all add: claim_rows_def Let_def execution_session_update)

lemma claim_execution_ok:
  assumes ok: "store_ok d" and fresh: "i \<notin> at_id ` set (attempts d)"
    and e: "e \<in> set (executions d)" "ex_state e = ExecutionQueued"
    and tx: "claim_execution now_ns i w q dg (ex_id e) d = Inr (reply, d')"
  shows "store_ok d'"
proof -
  note ok' = store_okD [OF ok]
  obtain s where s: "s \<in> set (sessions d)" "ss_id s = ex_session_id e" using execution_session_exists [OF ok'(2) e(1)] .
  have st: "ss_state s = SessionQueued" using lifecycle_states_agree [OF ok'(3) e(1) s] e(2) by (simp add: states_agree_def)
  let ?n = "next_attempt_number d (ex_id e)"
  let ?a = "new_attempt i (ex_id e) w ?n dg (unix_milli (now_ns + from_millis lease_duration)) (unix_milli now_ns)"
  let ?d1 = "d\<lparr>attempts := attempts d @ [?a]\<rparr>"
  have a: "at_id ?a = i" "at_execution_id ?a = ex_id e" "at_state ?a = AttemptPreparing" "at_number ?a = ?n"
    by (simp_all add: new_attempt_def)
  have number: "(ex_id e, at_number ?a) \<notin> (\<lambda>a. (at_execution_id a, at_number a)) ` set (attempts d)"
  proof (rule notI, elim imageE)
    fix b assume "(ex_id e, at_number ?a) = (at_execution_id b, at_number b)" "b \<in> set (attempts d)"
    then show False using next_attempt_number_fresh [of b d "ex_id e"] unfolding a(4) by auto
  qed
  have row: "execution_session ?d1 (ex_id e) = Some (ex_session_id e)"
    using execution_session_in [OF ok'(1) e(1)] by (simp add: execution_session_def find_execution_def)
  let ?Pe = "\<lambda>y. ex_id y = ex_id e \<and> ex_state y = ExecutionQueued"
  let ?fe = "\<lambda>y. y\<lparr>ex_state := ExecutionPreparing, ex_cancellation_requested := False, ex_updated_at := unix_milli now_ns\<rparr>"
  let ?Ps = "\<lambda>x. ss_id x = ex_session_id e \<and> ss_state x = SessionQueued"
  let ?fs = "\<lambda>x. x\<lparr>ss_state := SessionPreparing, ss_assigned_worker_id := Some w, ss_blocked_reason := None,
          ss_waiting_reason := '''', ss_execution_owner := ExecutionOwnerWorkerAttempt\<rparr>"
  have t: "runs d' = runs d" "session_stages d' = session_stages d" "attempts d' = attempts d @ [?a]"
    "executions d' = update_where ?Pe ?fe (executions d)" "sessions d' = update_where ?Ps ?fs (sessions d)"
    by (simp_all add: claim_execution_Inr(2) [OF tx] record_claim_def claim_rows_tables [OF row])
  have places: "in_place (\<lambda>y. if ?Pe y then ?fe y else y) (executions d) (executions d')"
    "in_place (\<lambda>x. if ?Ps x then ?fs x else x) (sessions d) (sessions d')"
    unfolding t by (rule in_place_update)+
  have only_e: "\<not> ?Pe y" if "y \<in> set (executions d)" "y \<noteq> e" for y
    using execution_unique [OF ok'(1) that(1) e(1)] that(2) by blast
  have only_s: "ss_id x \<noteq> ex_session_id e" if "x \<in> set (sessions d)" "x \<noteq> s" for x
    using session_unique [OF ok'(1) that(1) s(1)] s(2) that(2) by auto
  have "core_ok d'"
    by (rule core_ok_new_attempt [OF ok'(6) e s _ a(2,3) number t(3) places])
      (use fresh a(1) t e s(2) st only_e only_s in \<open>simp_all add: session_row_ok_def state_predicates\<close>)
  moreover have "runs_ok d'"
    by (rule runs_ok_same_nonterminal [OF ok'(5) places(2) [unfolded in_place_def]])
      (simp_all add: t state_predicates)
  ultimately show ?thesis by (simp add: store_ok_def)
qed

lemma record_claim_ok: "store_ok d \<Longrightarrow> store_ok (record_claim w q dg i now d)"
  by (erule store_ok_frame) (simp_all add: record_claim_def)

lemma forget_claim_ok: "store_ok d \<Longrightarrow> store_ok (forget_claim w q d)"
  by (erule store_ok_frame) (simp_all add: forget_claim_def)

text \<open>Neither placing nor taking over touches an Attempt, a stage, a report or a Run.\<close>

definition placing :: "db \<Rightarrow> db \<Rightarrow> bool" where
  "placing d d' \<longleftrightarrow> d' = d\<lparr>worker_repositories := worker_repositories d', sessions := sessions d', executions := executions d'\<rparr> \<and>
     map (\<lambda>s. (ss_id s, ss_run_id s)) (sessions d') = map (\<lambda>s. (ss_id s, ss_run_id s)) (sessions d)"

lemma placingD:
  assumes "placing d d'"
  shows "attempts d' = attempts d" "runs d' = runs d" "session_stages d' = session_stages d" "workers d' = workers d"
    "repositories d' = repositories d" "work_updates d' = work_updates d" "work_answers d' = work_answers d"
    "agent_update_requests d' = agent_update_requests d" "attempt_events d' = attempt_events d"
    "claim_requests d' = claim_requests d" "ss_id ` set (sessions d') = ss_id ` set (sessions d)"
proof -
  note eq = assms [unfolded placing_def, THEN conjunct1]
  show "attempts d' = attempts d" "runs d' = runs d" "session_stages d' = session_stages d" "workers d' = workers d"
    "repositories d' = repositories d" "work_updates d' = work_updates d" "work_answers d' = work_answers d"
    "agent_update_requests d' = agent_update_requests d" "attempt_events d' = attempt_events d"
    "claim_requests d' = claim_requests d"
    by (subst eq; simp)+
  have "map ss_id (sessions d') = map ss_id (sessions d)"
    by (rule map_eq_weaken [OF assms [unfolded placing_def, THEN conjunct2], where h = fst]) simp
  then show "ss_id ` set (sessions d') = ss_id ` set (sessions d)" by (metis list.set_map)
qed

lemma placing_refl [simp]: "placing d d"
  by (simp add: placing_def)

lemma placing_reservations: "same_but_reservations d d' \<Longrightarrow> placing d d'"
  by (cases d; cases d') (simp add: placing_def same_but_reservations_def)

lemma placing_trans: "placing d e \<Longrightarrow> placing e f \<Longrightarrow> placing d f"
  by (cases d; cases e; cases f) (simp add: placing_def)

lemma placing_step:
  "same_but_reservations d e \<Longrightarrow> placing d (e\<lparr>executions := xs, sessions := update_where P f (sessions d)\<rparr>)"
  if "\<And>s. ss_id (f s) = ss_id s" "\<And>s. ss_run_id (f s) = ss_run_id s"
  using that by (cases d; cases e) (simp add: placing_def same_but_reservations_def map_update_where)

lemma materialize_placing:
  assumes "materialize_blocked_session_for_worker now new_id w d = Inr d'"
  shows "placing d d'"
  using assms
proof (rule materialize_Inr)
  fix c assume "materialize_step now new_id w d c = Inr (d', True)"
  then obtain x d1 where r: "select_session_route d (bc_repository_id c) (bc_identity c) now w (bc_runtime c) = Inr (x, d1)"
    and d': "d' = (queue_existing_execution new_id (bc_id c) (rc_worker_id x) (bc_runtime c) now d1)\<lparr>sessions :=
       update_where (\<lambda>s. ss_id s = bc_id c \<and> ss_state s = SessionBlocked) (materialized_row (rc_worker_id x)) (sessions d)\<rparr>"
    by (rule materialize_step_Inr)
  have "same_but_reservations d d1"
    using select_session_route_reserves [OF r] by (simp add: same_but_reservations_def)
  then show ?thesis unfolding d' queue_existing_execution_tables by (intro placing_step) simp_all
qed simp

lemma reroute_placing:
  assumes "reroute_queued_session_for_worker now w d = Inr d'" "scan_ok d"
  shows "placing d d'"
  using assms
proof (rule reroute_Inr)
  fix e c assume e: "same_but_reservations d e" and step: "reroute_step now w e c = Inr (d', True)"
  from step show "placing d d'"
  proof (cases rule: reroute_step_Inr)
    case (moved x d1)
    have same: "same_but_reservations d d1" by (rule same_but_reservations_trans [OF e moved(1)])
    show ?thesis
      unfolding moved(4) if_True same_but_reservations_tables(2) [OF same] by (rule placing_step [OF _ _ same]) simp_all
  qed simp
qed (rule placing_reservations)

lemma materialize_scan_ok:
  assumes "store_ok d" "'''' \<notin> ss_id ` set (sessions d)" "new_id \<notin> ex_id ` set (executions d)"
    and "materialize_blocked_session_for_worker now new_id w d = Inr d'"
  shows "scan_ok d'"
  using materialize_ok [OF assms(1,3,4)] placingD(11) [OF materialize_placing [OF assms(4)]] assms(2)
  by (simp add: scan_ok_def store_okD(1))

text \<open>The cases of a claim that is granted or answered with nothing.\<close>

lemma fresh_claim_Inr:
  assumes "fresh_claim now_ns i new_id w q dg d = Inr (reply, d')"
  obtains (full) "reply = None" "d' = insert_empty_claim (wk_id w) q dg (unix_milli now_ns) d"
  | (none) d1 d2 where "reply = None" "materialize_blocked_session_for_worker (unix_milli now_ns) new_id (wk_id w) d = Inr d1"
      "reroute_queued_session_for_worker (unix_milli now_ns) (wk_id w) d1 = Inr d2" "next_claimable d2 w = None"
      "d' = insert_empty_claim (wk_id w) q dg (unix_milli now_ns) d2"
  | (given) d1 d2 e where "materialize_blocked_session_for_worker (unix_milli now_ns) new_id (wk_id w) d = Inr d1"
      "reroute_queued_session_for_worker (unix_milli now_ns) (wk_id w) d1 = Inr d2" "next_claimable d2 w = Some e"
      "claim_execution now_ns i (wk_id w) q dg (ex_id e) d2 = Inr (reply, d')"
      "wk_health w = Healthy" "now_ns - from_millis (wk_last_heartbeat w) \<le> from_millis worker_online_window"
      "worker_active_attempts d (wk_id w) < wk_capacity w"
proof (cases "wk_health w \<noteq> Healthy \<or> now_ns - from_millis (wk_last_heartbeat w) > from_millis worker_online_window \<or>
    worker_active_attempts d (wk_id w) \<ge> wk_capacity w")
  case True
  with assms show ?thesis by (intro full) (simp_all add: fresh_claim_def Let_def)
next
  case False
  then obtain d1 d2 where run: "materialize_blocked_session_for_worker (unix_milli now_ns) new_id (wk_id w) d = Inr d1"
      "reroute_queued_session_for_worker (unix_milli now_ns) (wk_id w) d1 = Inr d2"
      "(case next_claimable d2 w of None \<Rightarrow> Inr (None, insert_empty_claim (wk_id w) q dg (unix_milli now_ns) d2)
        | Some e \<Rightarrow> claim_execution now_ns i (wk_id w) q dg (ex_id e) d2) = Inr (reply, d')"
    using assms by (auto simp: fresh_claim_def Let_def and_then_Inr)
  show ?thesis
  proof (cases "next_claimable d2 w")
    case None
    with run show ?thesis by (intro none [OF _ run(1,2)]) simp_all
  next
    case (Some e)
    with run False show ?thesis by (intro given [OF run(1,2)]) simp_all
  qed
qed

lemma find_claim_request_forgotten: "find_claim_request (forget_claim w q d) w q = None"
  by (simp add: find_claim_request_def forget_claim_def delete_where_def find_None_set)

lemma claim_tx_Inr:
  assumes "claim_tx now_ns i new_id d worker input = Inr (reply, d')"
  obtains (replay) c j a where "find_claim_request d worker (trim_space (ci_request_id input)) = Some c"
      "cq_attempt_id c = Some j" "cq_lease_digest c = digest_token (ci_lease_token input)"
      "find_attempt d j = Some a" "reply = Some j" "d' = d"
      "at_lease_digest a = digest_token (ci_lease_token input)" "is_active (at_state a)"
      "unix_milli now_ns < at_lease_expires_at a"
  | (empty) c where "find_claim_request d worker (trim_space (ci_request_id input)) = Some c" "cq_attempt_id c = None"
      "reply = None" "d' = d"
  | (fresh) w d0 where "find_worker d worker = Some w" "\<not> wk_synthetic w"
      "wk_claim_protocol_version w = claim_protocol_version"
      "d0 = d \<or> d0 = forget_claim worker (trim_space (ci_request_id input)) d"
      "find_claim_request d0 worker (trim_space (ci_request_id input)) = None"
      "fresh_claim now_ns i new_id w (trim_space (ci_request_id input)) (digest_token (ci_lease_token input)) d0 = Inr (reply, d')"
proof -
  from assms obtain w where w: "find_worker d worker = Some w" "\<not> wk_synthetic w"
      "wk_claim_protocol_version w = claim_protocol_version"
    by (auto simp: claim_tx_def Let_def and_then_Inr split: if_splits option.splits)
  show thesis
  proof (cases "find_claim_request d worker (trim_space (ci_request_id input))")
    case None
    with assms w None show ?thesis
      by (intro fresh [OF w, of d]) (auto simp: claim_tx_def Let_def and_then_Inr split: if_splits)
  next
    case (Some c)
    show ?thesis
    proof (cases "cq_attempt_id c")
      case None
      show ?thesis
      proof (cases "now_ns - from_millis (cq_created_at c) \<le> from_millis empty_claim_ttl")
        case True
        with assms w Some None have "reply = None" "d' = d"
          by (auto simp: claim_tx_def Let_def and_then_Inr split: if_splits)
        then show ?thesis by (rule empty [OF Some None])
      next
        case False
        with assms w Some None show ?thesis
          by (intro fresh [OF w, of "forget_claim worker (trim_space (ci_request_id input)) d"])
            (auto simp: claim_tx_def Let_def and_then_Inr find_claim_request_forgotten split: if_splits)
      qed
    next
      case attempt: (Some j)
      from assms w Some attempt obtain a where a: "cq_lease_digest c = digest_token (ci_lease_token input)" "find_attempt d j = Some a" "reply = Some j" "d' = d"
        "at_lease_digest a = digest_token (ci_lease_token input)" "is_active (at_state a)"
        "unix_milli now_ns < at_lease_expires_at a"
        by (auto simp: claim_tx_def Let_def and_then_Inr equal_digest_def split: if_splits option.splits)
      show ?thesis by (rule replay [OF Some attempt a])
    qed
  qed
qed

text \<open>The same request, for a claim that is remembered and whose lease is alive.\<close>

lemma claim_tx_again:
  assumes "claim_tx now_ns i new_id d worker input = Inr (reply, d')" "find_worker d' worker = find_worker d worker"
    and "find_claim_request d' worker (trim_space (ci_request_id input)) = Some c" "cq_attempt_id c = Some j"
    and "cq_lease_digest c = digest_token (ci_lease_token input)" "find_attempt d' j = Some a"
    and "at_lease_digest a = digest_token (ci_lease_token input)" "is_active (at_state a)"
    and "unix_milli later < at_lease_expires_at a"
  shows "claim_tx later k y d' worker input = Inr (Some j, d')"
proof -
  from assms(1) obtain w where "find_worker d worker = Some w" "\<not> wk_synthetic w"
      "wk_claim_protocol_version w = claim_protocol_version" "validate_token (ci_lease_token input) = Inr ()"
      "trim_space (ci_request_id input) \<noteq> ''''" "length (trim_space (ci_request_id input)) \<le> 200"
    by (auto simp: claim_tx_def Let_def and_then_Inr split: if_splits option.splits)
  then show ?thesis using assms(2-9) by (simp add: claim_tx_def Let_def equal_digest_def)
qed

lemma fresh_claim_ok:
  assumes ok: "store_ok d" "'''' \<notin> ss_id ` set (sessions d)"
    and fresh: "i \<notin> at_id ` set (attempts d)" "new_id \<notin> ex_id ` set (executions d)"
    and tx: "fresh_claim now_ns i new_id w q dg d = Inr (reply, d')"
  shows "store_ok d'"
  using tx
proof (cases rule: fresh_claim_Inr)
  case full
  with ok show ?thesis by (simp add: insert_empty_claim_def record_claim_ok)
next
  case (none d1 d2)
  have "store_ok d1" by (rule materialize_ok [OF ok(1) fresh(2) none(2)])
  moreover have "scan_ok d1" by (rule materialize_scan_ok [OF ok fresh(2) none(2)])
  ultimately have "store_ok d2" using none(3) by (rule reroute_ok)
  then show ?thesis by (simp add: none insert_empty_claim_def record_claim_ok)
next
  case (given d1 d2 e)
  have "store_ok d1" by (rule materialize_ok [OF ok(1) fresh(2) given(1)])
  moreover have scan: "scan_ok d1" by (rule materialize_scan_ok [OF ok fresh(2) given(1)])
  ultimately have "store_ok d2" using given(2) by (rule reroute_ok)
  moreover have "i \<notin> at_id ` set (attempts d2)"
    using fresh(1) placingD(1) [OF materialize_placing [OF given(1)]] placingD(1) [OF reroute_placing [OF given(2) scan]] by simp
  ultimately show ?thesis
    using claim_execution_ok next_claimable_Some(1,2) [OF given(3)] given(4) by (simp add: claimable_def)
qed

lemma claim_tx_ok:
  assumes ok: "store_ok d" "'''' \<notin> ss_id ` set (sessions d)"
    and fresh: "i \<notin> at_id ` set (attempts d)" "new_id \<notin> ex_id ` set (executions d)"
    and tx: "claim_tx now_ns i new_id d worker input = Inr (reply, d')"
  shows "store_ok d'"
  using tx
proof (cases rule: claim_tx_Inr)
  case (fresh w d0)
  have "store_ok d0" "sessions d0 = sessions d" "attempts d0 = attempts d" "executions d0 = executions d"
    using fresh(4) ok(1) forget_claim_ok by (auto simp: forget_claim_def)
  then show ?thesis using fresh_claim_ok [OF _ _ _ _ fresh(6)] ok(2) assms(3,4) by simp
qed (use ok in simp_all)

end
