(* ===== verification/Claim_Properties.thy ===== *)
theory Claim_Properties
  imports Claims Operator_Properties
begin

text \<open>
  What a Worker and the operator may rely on when Work is claimed: the limits that a granted claim respects,
  the answer to a claim that is sent again, and that the searches by pages miss no Work.
\<close>

subsection \<open>The limits of a claim\<close>

text \<open>The Work of a granted claim, before and after.\<close>

lemma count_where_insert_le:
  assumes "\<And>x. x \<in> set xs \<Longrightarrow> Q x \<Longrightarrow> x = s" "distinct xs"
  shows "count_where P (update_where Q f xs) \<le> Suc (count_where P xs)"
proof -
  have "count_where Q xs \<le> 1"
    by (rule count_key_le_one [where k = "\<lambda>x. x"]) (use assms in \<open>simp_all, metis\<close>)
  then show ?thesis using count_where_update_le [of P Q f xs] by linarith
qed

lemma claim_execution_limits:
  assumes ok: "store_ok d" and e: "next_claimable d w = Some e"
    and tx: "claim_execution now_ns i (wk_id w) q dg (ex_id e) d = Inr (reply, d')"
  shows "\<exists>a s r. attempts d' = attempts d @ [a] \<and> at_execution_id a = ex_id e \<and> at_worker_id a = wk_id w \<and>
     at_state a = AttemptPreparing \<and> at_lease_expires_at a = unix_milli now_ns + lease_duration \<and>
     s \<in> set (sessions d') \<and> ss_id s = ex_session_id e \<and> ss_state s = SessionPreparing \<and>
     find_run d' (ss_run_id s) = Some r \<and>
     run_session_count session_executing d' (ss_run_id s) \<le> ts_concurrency_limit (run_task_snapshot r)"
proof -
  note ok' = store_okD [OF ok]
  have e': "e \<in> set (executions d)" "claimable d w e" using next_claimable_Some [OF e] by auto
  let ?n = "next_attempt_number d (ex_id e)"
  let ?a = "new_attempt i (ex_id e) (wk_id w) ?n dg (unix_milli (now_ns + from_millis lease_duration)) (unix_milli now_ns)"
  have row: "execution_session (d\<lparr>attempts := attempts d @ [?a]\<rparr>) (ex_id e) = Some (ex_session_id e)"
    using execution_session_in [OF ok'(1) e'(1)] by (simp add: execution_session_def find_execution_def)
  let ?P = "\<lambda>x. ss_id x = ex_session_id e \<and> ss_state x = SessionQueued"
  let ?f = "\<lambda>x. x\<lparr>ss_state := SessionPreparing, ss_assigned_worker_id := Some (wk_id w), ss_blocked_reason := None,
          ss_waiting_reason := '''', ss_execution_owner := ExecutionOwnerWorkerAttempt\<rparr>"
  have t: "runs d' = runs d" "attempts d' = attempts d @ [?a]" "sessions d' = update_where ?P ?f (sessions d)"
    by (simp_all add: claim_execution_Inr(2) [OF tx] record_claim_def claim_rows_tables [OF row])
  obtain s where s: "find_session d (ex_session_id e) = Some s" using e'(2) by (auto simp: claimable_def split: option.splits)
  obtain r where r: "find_run d (ss_run_id s) = Some r"
      "below_limit (run_session_count session_executing d (ss_run_id s)) (concurrency_limit r)"
    using e'(2) s by (auto simp: claimable_def split: option.splits)
  note s' = find_session_Some [OF s]
  have "ss_state s = SessionQueued"
    using lifecycle_states_agree [OF ok'(3) e'(1), of s] s' e'(2) by (simp add: states_agree_def claimable_def)
  then have "?f s \<in> set (sessions d')"
    unfolding t(3) set_update_where by (intro image_eqI [of _ _ s]) (use s' in simp_all)
  moreover have "run_session_count session_executing d' (ss_run_id s) \<le>
      Suc (run_session_count session_executing d (ss_run_id s))"
    unfolding run_session_count_def t(3)
    by (rule count_where_insert_le [of _ _ s])
      (use session_unique [OF ok'(1) _ conjunct1 [OF s']] s' ok'(1) in \<open>auto simp: keys_ok_def distinct_map\<close>)
  moreover have "run_session_count session_executing d (ss_run_id s) < ts_concurrency_limit (run_task_snapshot r)"
    using r(2) by (auto simp: below_limit_def concurrency_limit_def Let_def split: if_splits)
  moreover have "find_run d' (ss_run_id s) = Some r" using r(1) by (simp add: find_run_def t)
  moreover have "at_lease_expires_at ?a = unix_milli now_ns + lease_duration"
    by (simp add: new_attempt_def unix_milli_add_millis)
  ultimately show ?thesis
    using t(2) s' by (intro exI [of _ ?a] exI [of _ "?f s"] exI [of _ r]) (simp add: new_attempt_def)
qed

text \<open>C26. A claim that makes an Attempt makes exactly one, in the state preparing and under a lease of thirty
  seconds, for an execution that had no active Attempt. The Worker is healthy and online and stays within its
  capacity, and the Run stays within the concurrency limit of its Task.\<close>

theorem claim_within_limits:
  assumes "store_ok d" "'''' \<notin> ss_id ` set (sessions d)"
    and "i \<notin> at_id ` set (attempts d)" "new_id \<notin> ex_id ` set (executions d)"
    and "store_claim now_ns i new_id d worker input = (reply, d')" "attempts d' \<noteq> attempts d"
  shows "\<exists>w a s r. attempts d' = attempts d @ [a] \<and> at_state a = AttemptPreparing \<and> at_worker_id a = worker \<and>
     at_lease_expires_at a = unix_milli now_ns + 30000 \<and>
     (\<forall>b \<in> set (attempts d). at_execution_id b = at_execution_id a \<longrightarrow> \<not> is_active (at_state b)) \<and>
     find_worker d worker = Some w \<and> wk_health w = Healthy \<and> now_ns - from_millis (wk_last_heartbeat w) \<le> 30000000000 \<and>
     worker_active_attempts d' worker \<le> wk_capacity w \<and>
     s \<in> set (sessions d') \<and> execution_session d' (at_execution_id a) = Some (ss_id s) \<and> ss_state s = SessionPreparing \<and>
     find_run d' (ss_run_id s) = Some r \<and>
     run_session_count session_executing d' (ss_run_id s) \<le> ts_concurrency_limit (run_task_snapshot r)"
proof -
  obtain got where tx: "claim_tx now_ns i new_id d worker input = Inr (got, d')"
    using assms(5) unfolding store_claim_def by (rule committed_cases) (use assms(6) in auto)
  from tx obtain w d0 where w: "find_worker d worker = Some w"
    and d0: "d0 = d \<or> d0 = forget_claim worker (trim_space (ci_request_id input)) d"
    and run: "fresh_claim now_ns i new_id w (trim_space (ci_request_id input)) (digest_token (ci_lease_token input)) d0 = Inr (got, d')"
    by (rule claim_tx_Inr) (use assms(6) in auto)
  have id: "wk_id w = worker" using find_worker_Some [OF w] by simp
  have ok0: "store_ok d0" "'''' \<notin> ss_id ` set (sessions d0)" "new_id \<notin> ex_id ` set (executions d0)" "attempts d0 = attempts d"
    using d0 assms(1,2,4) forget_claim_ok by (auto simp: forget_claim_def)
  from run show ?thesis
  proof (cases rule: fresh_claim_Inr)
    case full
    with ok0(4) assms(6) show ?thesis by (simp add: insert_empty_claim_def record_claim_def)
  next
    case (none d1 d2)
    have "scan_ok d1" by (rule materialize_scan_ok [OF ok0(1-3) none(2)])
    then have "attempts d2 = attempts d"
      using placingD(1) [OF materialize_placing [OF none(2)]] placingD(1) [OF reroute_placing [OF none(3)]] ok0(4) by simp
    with assms(6) none show ?thesis by (simp add: insert_empty_claim_def record_claim_def)
  next
    case (given d1 d2 e)
    have scan: "scan_ok d1" by (rule materialize_scan_ok [OF ok0(1-3) given(1)])
    have ok2: "store_ok d2" by (rule reroute_ok [OF materialize_ok [OF ok0(1,3) given(1)] scan given(2)])
    have same: "attempts d2 = attempts d"
      using placingD(1) [OF materialize_placing [OF given(1)]] placingD(1) [OF reroute_placing [OF given(2) scan]] ok0(4) by simp
    have fresh: "i \<notin> at_id ` set (attempts d2)" using same assms(3) by simp
    note e = next_claimable_Some(1,2) [OF given(3)]
    then have queued: "ex_state e = ExecutionQueued" by (simp add: claimable_def)
    have ok3: "store_ok d'" by (rule claim_execution_ok [OF ok2 fresh e(1) queued given(4)])
    obtain a s r where a: "attempts d' = attempts d2 @ [a]" "at_execution_id a = ex_id e" "at_worker_id a = wk_id w"
        "at_state a = AttemptPreparing" "at_lease_expires_at a = unix_milli now_ns + lease_duration"
      and s: "s \<in> set (sessions d')" "ss_id s = ex_session_id e" "ss_state s = SessionPreparing"
        "find_run d' (ss_run_id s) = Some r"
        "run_session_count session_executing d' (ss_run_id s) \<le> ts_concurrency_limit (run_task_snapshot r)"
      using claim_execution_limits [OF ok2 given(3,4)] by blast
    have "\<not> is_active (at_state b)" if "b \<in> set (attempts d)" "at_execution_id b = at_execution_id a" for b
      using lifecycle_inactive [OF store_okD(3) [OF ok2], of b e] that e(1) queued a(2) same by (simp add: state_predicates)
    moreover have "worker_active_attempts d' worker \<le> wk_capacity w"
      using given(7) a(1,3,4) id same ok0(4) by (simp add: worker_active_attempts_def is_active_def)
    moreover have "execution_session d' (at_execution_id a) = Some (ss_id s)"
    proof -
      have "find_execution d2 (ex_id e) = Some e" by (rule find_execution_in [OF store_okD(1) [OF ok2] e(1)])
      then show ?thesis
        using s(2) a(2) by (simp add: claim_execution_Inr(2) [OF given(4)] record_claim_def claim_rows_def Let_def
          execution_session_def find_execution_def find_update_where)
    qed
    ultimately show ?thesis
      using a s w id given(5,6) same
      by (intro exI [of _ w] exI [of _ a] exI [of _ s] exI [of _ r]) (simp add: protocol_limits from_millis_def)
  qed
qed

subsection \<open>A claim that is sent again\<close>

lemma claim_detail_Inr:
  assumes "claim_detail d i = Inr c"
  obtains a where "find_attempt d i = Some a" "cm_attempt c = scan_attempt a"
  using assms by (auto simp: claim_detail_def and_then_Inr split: option.split_asm prod.split_asm)

lemma find_claim_request_recorded:
  "find_claim_request d w q = None \<Longrightarrow>
   find_claim_request (record_claim w q dg j now d) w q =
     Some \<lparr>cq_worker_id = w, cq_request_id = q, cq_lease_digest = dg, cq_attempt_id = j, cq_created_at = now\<rparr>"
  by (simp add: find_claim_request_def record_claim_def find_append)

text \<open>What a claim that gives an Attempt leaves behind: the request remembered with the Attempt.\<close>

lemma claim_tx_remembered:
  assumes ok: "store_ok d" "'''' \<notin> ss_id ` set (sessions d)"
    and fresh: "i \<notin> at_id ` set (attempts d)" "new_id \<notin> ex_id ` set (executions d)"
    and tx: "claim_tx now_ns i new_id d worker input = Inr (Some j, d')"
  obtains c a where "find_worker d' worker = find_worker d worker"
    "find_claim_request d' worker (trim_space (ci_request_id input)) = Some c" "cq_attempt_id c = Some j"
    "cq_lease_digest c = digest_token (ci_lease_token input)" "find_attempt d' j = Some a"
    "at_lease_digest a = digest_token (ci_lease_token input)" "is_active (at_state a)"
  using tx
proof (cases rule: claim_tx_Inr)
  case (replay c j' a)
  then show ?thesis by (intro that) simp_all
next
  case f: (fresh w d0)
  let ?q = "trim_space (ci_request_id input)" and ?dg = "digest_token (ci_lease_token input)"
  have id: "wk_id w = worker" using find_worker_Some [OF f(1)] by simp
  have ok0: "store_ok d0" "'''' \<notin> ss_id ` set (sessions d0)" "new_id \<notin> ex_id ` set (executions d0)"
      "attempts d0 = attempts d" "workers d0 = workers d"
    using f(4) ok fresh(2) forget_claim_ok by (auto simp: forget_claim_def)
  from f(6) show ?thesis
  proof (cases rule: fresh_claim_Inr)
    case (given d1 d2 e)
    have scan: "scan_ok d1" by (rule materialize_scan_ok [OF ok0(1-3) given(1)])
    note p = placingD [OF placing_trans [OF materialize_placing [OF given(1)] reroute_placing [OF given(2) scan]]]
    let ?n = "next_attempt_number d2 (ex_id e)"
    let ?a = "new_attempt i (ex_id e) worker ?n ?dg (unix_milli (now_ns + from_millis lease_duration)) (unix_milli now_ns)"
    note d' = claim_execution_Inr(2) [OF given(4), unfolded id]
    have j: "j = i" using claim_execution_Inr(1) [OF given(4)] by simp
    have rows: "workers d' = workers d" "attempts d' = attempts d @ [?a]"
      by (simp_all add: d' record_claim_def claim_rows_def Let_def p ok0)
    have "find_claim_request (claim_rows now worker x e) worker ?q = find_claim_request e worker ?q" for now x e
      by (simp add: find_claim_request_def claim_rows_def Let_def)
    then have "find_claim_request d' worker ?q = Some \<lparr>cq_worker_id = worker, cq_request_id = ?q, cq_lease_digest = ?dg,
        cq_attempt_id = Some i, cq_created_at = unix_milli now_ns\<rparr>"
      unfolding d' by (intro find_claim_request_recorded) (use f(5) in \<open>simp add: find_claim_request_def p\<close>)
    moreover have "find_attempt d i = None" using fresh(1) by (auto simp: find_attempt_None)
    then have "find_attempt d' i = Some ?a" by (simp add: find_attempt_def rows find_append new_attempt_def)
    ultimately show ?thesis
      by (intro that [of "\<lparr>cq_worker_id = worker, cq_request_id = ?q, cq_lease_digest = ?dg,
        cq_attempt_id = Some i, cq_created_at = unix_milli now_ns\<rparr>" ?a])
        (simp_all add: find_worker_def rows j new_attempt_def is_active_def)
  qed simp_all
qed simp_all

text \<open>A Worker that missed the answer to its claim sends the same request again, and as long as the lease is alive
  it is given the same Attempt, with the same reply, and nothing changes.\<close>

theorem claim_replay_returns_the_same:
  assumes "store_ok d" "'''' \<notin> ss_id ` set (sessions d)"
    and "i \<notin> at_id ` set (attempts d)" "new_id \<notin> ex_id ` set (executions d)"
    and "store_claim now_ns i new_id d worker input = (Inr (Some c), d')"
    and "unix_milli later < av_lease_expires_at (cm_attempt c)"
  shows "store_claim later k y d' worker input = (Inr (Some c), d')"
proof -
  obtain got where got: "claim_tx now_ns i new_id d worker input = Inr (got, d')"
    "(case got of None \<Rightarrow> Inr None | Some i \<Rightarrow> and_then (claim_detail d' i) (\<lambda>c. Inr (Some c))) = Inr (Some c)"
    using assms(5) unfolding store_claim_def by (rule committed_cases) auto
  then obtain j where j: "got = Some j" and reply: "claim_detail d' j = Inr c"
    by (cases got) (auto simp: and_then_Inr)
  note tx = got(1) [unfolded j]
  obtain q a where q: "find_worker d' worker = find_worker d worker"
    "find_claim_request d' worker (trim_space (ci_request_id input)) = Some q" "cq_attempt_id q = Some j"
    "cq_lease_digest q = digest_token (ci_lease_token input)" "find_attempt d' j = Some a"
    "at_lease_digest a = digest_token (ci_lease_token input)" "is_active (at_state a)"
    by (rule claim_tx_remembered [OF assms(1-4) tx])
  have "unix_milli later < at_lease_expires_at a"
    using reply by (rule claim_detail_Inr) (use assms(6) q(5) in \<open>simp add: scan_attempt_def\<close>)
  from claim_tx_again [OF tx q this] show ?thesis by (simp add: store_claim_def reply)
qed

subsection \<open>The searches by pages\<close>

text \<open>C27. The two searches that a claim makes, page by page of fifty candidates, end and do exactly what one pass over
  all candidates would do, in the fair order for blocked Work and in the order of admission for queued Work.\<close>

theorem searches_miss_no_work:
  assumes "keys_ok d" "'''' \<notin> ss_id ` set (sessions d)"
  shows "materialize_blocked_session_for_worker now new_id worker d =
       and_then (scan_page (materialize_step now new_id worker) d (sort_key blocked_key (blocked_candidates d)))
         (\<lambda>(d', _). Inr d') \<and>
     reroute_queued_session_for_worker now worker d =
       and_then (scan_page (reroute_step now worker) d (sort_key queued_key (queued_candidates worker d)))
         (\<lambda>(d', _). Inr d')"
  using materialize_scans_all reroute_scans_all assms by (simp add: scan_ok_def)

subsection \<open>The example\<close>

definition demo_claim_input :: claim_input where
  "demo_claim_input = \<lparr>ci_request_id = ''claim-1'', ci_lease_token = demo_token\<rparr>"

lemma trim_claim_id: "trim_space ''claim-1'' = ''claim-1''"
  by (rule trim_space_visible; simp add: in_range_def byte_def)

text \<open>Work that waits behind failed Work is placed.\<close>

definition demo_blocked_candidate :: blocked_candidate where
  "demo_blocked_candidate = \<lparr>bc_id = ''work-2'', bc_repository_id = ''repo-1'',
     bc_identity = ''git.example.com/team/app'', bc_runtime = ''codex'', bc_fair_count = 1, bc_run_admitted = 1,
     bc_admitted_at = 1\<rparr>"

lemma demo_failed_candidates: "blocked_candidates demo_failed_db = [demo_blocked_candidate]"
proof -
  have "run_attempt_count demo_failed_db ''run-1'' = 1"
    by (simp add: run_attempt_count_def attempt_session_def attempt_execution_def find_execution_def find_session_def
        demo_failed_db_def demo_db_def demo_rows)
  moreover have "run_session_count session_occupies_slot demo_failed_db ''run-1'' = 0"
    by (simp add: run_session_count_def demo_failed_db_def demo_session_def state_predicates)
  moreover have "find_run demo_failed_db ''run-1'' = Some (demo_run None)" "concurrency_limit (demo_run None) = Some 1"
    "find_repository demo_failed_db ''repo-1'' = Some demo_repository"
    by (simp_all add: find_run_def concurrency_limit_def find_repository_def demo_failed_db_def demo_db_def demo_run_def
        demo_snapshot_def demo_repository_def)
  ultimately show ?thesis
    by (simp add: blocked_candidates_def blocked_candidate_of_def demo_failed_db_def demo_session_def
        List.map_filter_simps below_limit_def claimable_repository_def demo_repository_def demo_execution_snapshot_def
        demo_blocked_candidate_def demo_run_def)
qed

lemma searches_miss_no_work_witness:
  "\<exists>d'. materialize_blocked_session_for_worker 1000001 ''execution-9'' ''worker-1'' demo_failed_db = Inr d' \<and>
     (\<exists>s \<in> set (sessions d'). ss_id s = ''work-2'' \<and> ss_state s = SessionQueued)"
proof -
  have ok: "keys_ok demo_failed_db" "'''' \<notin> ss_id ` set (sessions demo_failed_db)"
    using demo_failed_db_ok by (simp_all add: store_okD demo_failed_db_def demo_session_def)
  have route: "select_session_route demo_failed_db ''repo-1'' ''git.example.com/team/app'' 1000001 ''worker-1'' ''codex'' =
      Inr (demo_candidate, demo_failed_db)"
    by (rule demo_route_idle)
      (simp_all add: demo_failed_db_def demo_db_def demo_rows protocol_limits retention_use_def queued_count_def
        attempt_uses_repository_def attempt_session_def attempt_execution_def find_execution_def find_session_def
        find_worker_repository_def state_predicates)
  have "\<exists>d'. materialize_step 1000001 ''execution-9'' ''worker-1'' demo_failed_db demo_blocked_candidate = Inr (d', True) \<and>
     (\<exists>s \<in> set (sessions d'). ss_id s = ''work-2'' \<and> ss_state s = SessionQueued)"
    by (simp add: materialize_step_def demo_blocked_candidate_def route Let_def queue_existing_execution_tables)
      (simp add: demo_failed_db_def demo_session_def)
  with searches_miss_no_work [OF ok] show ?thesis by (auto simp: demo_failed_candidates)
qed

text \<open>Work that is queued on the Worker is claimed.\<close>

definition demo_claimed_db :: db where
  "demo_claimed_db = record_claim ''worker-1'' ''claim-1'' (digest_token demo_token) (Some ''attempt-1'') 1000001
     (demo_queued_db\<lparr>attempts := [new_attempt ''attempt-1'' ''execution-1'' ''worker-1'' 1 (digest_token demo_token)
          1030001 1000001],
        executions := [(demo_execution ExecutionPreparing)\<lparr>ex_updated_at := 1000001\<rparr>],
        sessions := [(demo_session ''work-1'' 0 SessionPreparing ExecutionOwnerWorkerAttempt)
            \<lparr>ss_assigned_worker_id := Some ''worker-1''\<rparr>, demo_session ''work-2'' 1 SessionBlocked ExecutionOwnerNone]\<rparr>)"

lemma demo_queued_searches:
  "materialize_blocked_session_for_worker now new_id ''worker-1'' demo_queued_db = Inr demo_queued_db"
  "reroute_queued_session_for_worker now ''worker-1'' demo_queued_db = Inr demo_queued_db"
proof -
  have ok: "scan_ok demo_queued_db"
    using store_okD(1) [OF demo_queued_db_ok] by (simp add: scan_ok_def demo_stores demo_session_def)
  have "run_session_count session_occupies_slot demo_queued_db ''run-1'' = 1"
    by (simp add: run_session_count_def demo_stores demo_session_def state_predicates)
  then have "blocked_candidates demo_queued_db = []"
    by (simp add: blocked_candidates_def blocked_candidate_of_def demo_stores demo_session_def List.map_filter_simps
        find_run_def find_repository_def demo_run_def demo_repository_def concurrency_limit_def demo_snapshot_def
        below_limit_def)
  then show "materialize_blocked_session_for_worker now new_id ''worker-1'' demo_queued_db = Inr demo_queued_db"
    by (simp add: materialize_scans_all [OF ok])
  have "queued_candidates ''worker-1'' demo_queued_db = []"
    by (simp add: queued_candidates_def queued_candidate_of_def demo_stores demo_execution_def List.map_filter_simps
        split: option.split)
  then show "reroute_queued_session_for_worker now ''worker-1'' demo_queued_db = Inr demo_queued_db"
    by (simp add: reroute_scans_all [OF ok])
qed

lemma demo_queued_claimable: "next_claimable demo_queued_db demo_worker = Some (demo_execution ExecutionQueued)"
proof -
  have "claimable demo_queued_db demo_worker (demo_execution ExecutionQueued)"
    by (simp add: claimable_def runtime_ready_on_def find_session_def find_run_def find_repository_def
        find_worker_repository_def run_session_count_def concurrency_limit_def below_limit_def claimable_repository_def
        retention_use_def protocol_limits state_predicates demo_stores demo_rows)
  moreover have "executions demo_queued_db = [demo_execution ExecutionQueued]" by (simp add: demo_stores)
  ultimately show ?thesis by (simp add: next_claimable_def)
qed

lemma demo_claim:
  "claim_tx demo_now ''attempt-1'' ''execution-9'' demo_queued_db ''worker-1'' demo_claim_input =
     Inr (Some ''attempt-1'', demo_claimed_db)"
proof -
  have now: "unix_milli demo_now = 1000001" "unix_milli (demo_now + from_millis lease_duration) = 1030001"
    by (simp_all add: demo_now_def unix_milli_def from_millis_def protocol_limits)
  have worker: "find_worker demo_queued_db ''worker-1'' = Some demo_worker"
      "find_claim_request demo_queued_db ''worker-1'' ''claim-1'' = None"
    by (simp_all add: find_worker_def find_claim_request_def demo_stores demo_worker_def)
  have free: "worker_active_attempts demo_queued_db ''worker-1'' = 0"
    by (simp add: worker_active_attempts_def demo_stores)
  have w: "wk_id demo_worker = ''worker-1''" "wk_capacity demo_worker = 2" "wk_health demo_worker = Healthy"
      "ex_id (demo_execution ExecutionQueued) = ''execution-1''"
    by (simp_all add: demo_worker_def demo_execution_def)
  have online: "demo_now - from_millis (wk_last_heartbeat demo_worker) \<le> from_millis worker_online_window"
    by (simp add: demo_worker_def demo_now_def from_millis_def protocol_limits)
  have "claim_execution demo_now ''attempt-1'' ''worker-1'' ''claim-1'' (digest_token demo_token) ''execution-1''
      demo_queued_db = Inr (Some ''attempt-1'', demo_claimed_db)"
    by (simp add: claim_execution_def Let_def now claim_rows_def next_attempt_number_def demo_claimed_db_def
        demo_stores record_claim_def demo_execution_def demo_session_def execution_session_def find_execution_def)
  then have "fresh_claim demo_now ''attempt-1'' ''execution-9'' demo_worker ''claim-1'' (digest_token demo_token)
      demo_queued_db = Inr (Some ''attempt-1'', demo_claimed_db)"
    using free now(1) w online by (simp add: fresh_claim_def Let_def demo_queued_searches demo_queued_claimable)
  then show ?thesis
    using worker by (simp add: claim_tx_def Let_def demo_claim_input_def trim_claim_id demo_worker_def claim_protocol_version_def)
qed

lemma claim_within_limits_witness:
  "worker_active_attempts (snd (store_claim demo_now ''attempt-1'' ''execution-9'' demo_queued_db ''worker-1''
      demo_claim_input)) ''worker-1'' \<le> 2"
proof -
  obtain reply where run: "store_claim demo_now ''attempt-1'' ''execution-9'' demo_queued_db ''worker-1'' demo_claim_input =
      (reply, demo_claimed_db)"
    by (simp add: store_claim_def demo_claim)
  have "'''' \<notin> ss_id ` set (sessions demo_queued_db)" "''attempt-1'' \<notin> at_id ` set (attempts demo_queued_db)"
    "''execution-9'' \<notin> ex_id ` set (executions demo_queued_db)" "attempts demo_claimed_db \<noteq> attempts demo_queued_db"
    "find_worker demo_queued_db ''worker-1'' = Some demo_worker" "wk_capacity demo_worker = 2"
    by (simp_all add: demo_claimed_db_def record_claim_def demo_stores demo_session_def demo_execution_def find_worker_def
        demo_worker_def)
  with claim_within_limits [OF demo_queued_db_ok _ _ _ run] show ?thesis by (auto simp: run)
qed

lemma demo_claimed_detail: "\<exists>c. claim_detail demo_claimed_db ''attempt-1'' = Inr c \<and> av_lease_expires_at (cm_attempt c) = 1030001"
proof -
  let ?s = "(demo_session ''work-1'' 0 SessionPreparing ExecutionOwnerWorkerAttempt)\<lparr>ss_assigned_worker_id := Some ''worker-1''\<rparr>"
  have rows: "find_attempt demo_claimed_db ''attempt-1'' = Some (new_attempt ''attempt-1'' ''execution-1'' ''worker-1'' 1
      (digest_token demo_token) 1030001 1000001)"
    "find_execution demo_claimed_db ''execution-1'' = Some ((demo_execution ExecutionPreparing)\<lparr>ex_updated_at := 1000001\<rparr>)"
    "find_session demo_claimed_db ''work-1'' = Some ?s" "find_run demo_claimed_db ''run-1'' = Some (demo_run None)"
    "session_execution_row demo_claimed_db ''work-1'' = Some ((demo_execution ExecutionPreparing)\<lparr>ex_updated_at := 1000001\<rparr>)"
    by (simp_all add: find_attempt_def find_execution_def find_session_def find_run_def session_execution_row_def
        demo_claimed_db_def record_claim_def new_attempt_def demo_stores demo_session_def demo_execution_def demo_run_def)
  have "history_rows demo_claimed_db ''work-1'' = []"
    by (simp add: history_rows_def demo_claimed_db_def record_claim_def demo_stores)
  then have "\<exists>p. continuation_prompt demo_claimed_db ''work-1'' = Inr p"
    by (simp add: continuation_prompt_def load_continuation_state_def rows demo_session_def)
  then have stages: "\<exists>p g. claim_stages demo_claimed_db (demo_run None) ?s = Inr (p, g)"
    by (auto simp: claim_stages_def Let_def demo_session_def)
  moreover have "\<exists>r. claimed_repository_of demo_claimed_db (new_attempt ''attempt-1'' ''execution-1'' ''worker-1'' 1
      (digest_token demo_token) 1030001 1000001) ?s = Inr r"
    by (simp add: claimed_repository_of_def find_repository_def find_worker_repository_def demo_claimed_db_def
        record_claim_def new_attempt_def demo_stores demo_rows)
  moreover have sel: "at_execution_id (new_attempt i e w n dg x now) = e" "at_lease_expires_at (new_attempt i e w n dg x now) = x"
      "ex_session_id (demo_execution st) = ''work-1''" "ss_id (demo_session j k ss owner) = j"
      "ss_run_id (demo_session j k ss owner) = ''run-1''" for i e w n dg x now st j k ss owner
    by (simp_all add: new_attempt_def demo_execution_def demo_session_def)
  ultimately show ?thesis using stages
    by (auto simp: claim_detail_def rows scan_attempt_def sel)
qed

lemma claim_replay_returns_the_same_witness:
  "\<exists>c. store_claim (demo_now + 1000000000) ''attempt-2'' ''execution-8'' demo_claimed_db ''worker-1'' demo_claim_input =
     (Inr (Some c), demo_claimed_db)"
proof -
  obtain c where c: "claim_detail demo_claimed_db ''attempt-1'' = Inr c" "av_lease_expires_at (cm_attempt c) = 1030001"
    using demo_claimed_detail by blast
  then have run: "store_claim demo_now ''attempt-1'' ''execution-9'' demo_queued_db ''worker-1'' demo_claim_input =
      (Inr (Some c), demo_claimed_db)"
    by (simp add: store_claim_def demo_claim)
  have "'''' \<notin> ss_id ` set (sessions demo_queued_db)" "''attempt-1'' \<notin> at_id ` set (attempts demo_queued_db)"
    "''execution-9'' \<notin> ex_id ` set (executions demo_queued_db)"
    "unix_milli (demo_now + 1000000000) < av_lease_expires_at (cm_attempt c)"
    by (simp_all add: demo_stores demo_session_def demo_execution_def c(2) demo_now_def unix_milli_def)
  from claim_replay_returns_the_same [OF demo_queued_db_ok this(1-3) run this(4)] show ?thesis by blast
qed

end
