(* ===== verification/Pipelines.thy ===== *)
theory Pipelines
  imports Identity Store_Schema "HOL-Library.Product_Lexorder" "HOL-Library.List_Lexorder" "HOL-Library.Char_ord"
begin

text \<open>
  \<^verbatim>\<open>pipelines.go\<close>: the templates of stages that Tasks name. The pattern of a variable matches two opening braces, a
  nonempty text without braces and two closing ones; since the text cannot hold a brace, where it ends is determined,
  and \<^verbatim>\<open>TrimSpace\<close> of its group is \<^verbatim>\<open>TrimSpace\<close> of the text. The case table of Unicode is an argument.
\<close>

subsection \<open>Title keys\<close>

definition lower_title_chunk :: "(string \<Rightarrow> string) \<Rightarrow> string \<Rightarrow> string" where
  "lower_title_chunk lower q =
     (case q of
        [c] \<Rightarrow> if byte c < 128 then [ascii_lower c] else chars_of [239, 191, 189]
      | _ \<Rightarrow> lower q)"

definition normalize_title_key :: "(string \<Rightarrow> string) \<Rightarrow> string \<Rightarrow> string" where
  "normalize_title_key lower value = concat (map (lower_title_chunk lower) (utf8_chunks (trim_space value)))"

subsection \<open>Variables of a prompt\<close>

definition not_brace :: "char \<Rightarrow> bool" where
  "not_brace c \<longleftrightarrow> c \<noteq> CHR ''{'' \<and> c \<noteq> CHR ''}''"

definition variable_at :: "string \<Rightarrow> (string \<times> string) option" where
  "variable_at s =
     (let body = takeWhile not_brace (drop 2 s); rest = dropWhile not_brace (drop 2 s) in
      if prefix ''{{'' s \<and> body \<noteq> [] \<and> prefix ''}}'' rest then Some (trim_space body, drop 2 rest) else None)"

lemma variable_at_shorter: "variable_at s = Some (v, rest) \<Longrightarrow> length rest < length s"
  using length_dropWhile_le [of not_brace "drop 2 s"]
  by (auto simp: variable_at_def Let_def prefix_def split: if_splits)

text \<open>A template as the scan reads it: characters and variables.\<close>

function template_parts :: "string \<Rightarrow> (char + string) list" where
  "template_parts s =
     (case variable_at s of
        Some (v, rest) \<Rightarrow> Inr v # template_parts rest
      | None \<Rightarrow> (case s of [] \<Rightarrow> [] | c # r \<Rightarrow> Inl c # template_parts r))"
  by pat_completeness auto
termination
  by (relation "measure length") (auto dest: variable_at_shorter)

declare template_parts.simps [simp del]

definition pipeline_variables :: "string \<Rightarrow> string list" where
  "pipeline_variables s = concat (map (case_sum (\<lambda>_. []) (\<lambda>v. [v])) (template_parts s))"

definition supported_pipeline_variables :: "string list" where
  "supported_pipeline_variables = [''task.id'', ''task.name'', ''task.prompt'', ''run.id'', ''repository'', ''branch'']"

definition render_pipeline_prompt :: "(string \<times> string) list \<Rightarrow> string \<Rightarrow> string" where
  "render_pipeline_prompt vals s =
     concat (map (case_sum (\<lambda>c. [c]) (\<lambda>v. coalesce (map_of vals v) '''')) (template_parts s))"

subsection \<open>Pipelines\<close>

definition max_pipelines :: nat where "max_pipelines = 200"
definition max_pipeline_stages :: nat where "max_pipeline_stages = 20"
definition max_task_prompt_bytes :: nat where "max_task_prompt_bytes = 65536"

record save_pipeline_request =
  vp_name :: string
  vp_stages :: "pipeline_stage list"
  vp_expected_generation :: int

record pipeline_view =
  pv_id :: ident
  pv_name :: string
  pv_generation :: nat
  pv_stages :: "pipeline_stage list"
  pv_created_at :: int
  pv_updated_at :: int

definition check_variables :: "string list \<Rightarrow> unit result" where
  "check_variables vs =
     (case find (\<lambda>v. v \<notin> set supported_pipeline_variables) vs of
        Some v \<Rightarrow> Inl (invalid ''unknown_pipeline_variable'' (''unsupported Pipeline variable: '' @ v))
      | None \<Rightarrow> Inr ())"

definition normalize_stage :: "nat \<Rightarrow> pipeline_stage \<Rightarrow> pipeline_stage result" where
  "normalize_stage position stage =
     (let stage = \<lparr>pg_position = position, pg_name = trim_space (pg_name stage), pg_prompt = trim_space (pg_prompt stage)\<rparr> in
      if pg_name stage = '''' \<or> 200 < length (pg_name stage)
      then Inl (invalid ''invalid_pipeline_stage_name'' ''each stage name is required and limited to 200 bytes'')
      else if pg_prompt stage = '''' \<or> max_task_prompt_bytes < length (pg_prompt stage)
      then Inl (invalid ''invalid_pipeline_stage_prompt'' ''each stage prompt is required and limited to 64 KiB'')
      else and_then (check_variables (pipeline_variables (pg_prompt stage))) (\<lambda>_. Inr stage))"

fun normalize_stages :: "nat \<Rightarrow> pipeline_stage list \<Rightarrow> pipeline_stage list result" where
  "normalize_stages position [] = Inr []"
| "normalize_stages position (stage # stages) =
     and_then (normalize_stage position stage) (\<lambda>stage.
     and_then (normalize_stages (Suc position) stages) (\<lambda>stages. Inr (stage # stages)))"

definition normalize_pipeline :: "save_pipeline_request \<Rightarrow> (string \<times> pipeline_stage list) result" where
  "normalize_pipeline input =
     (let name = trim_space (vp_name input) in
      if name = '''' \<or> 200 < rune_count name
      then Inl (invalid ''invalid_pipeline_name'' ''name is required and limited to 200 characters'')
      else if length (vp_stages input) < 1 \<or> max_pipeline_stages < length (vp_stages input)
      then Inl (invalid ''invalid_pipeline_stages'' ''a Pipeline must contain 1 through 20 stages'')
      else and_then (normalize_stages 0 (vp_stages input)) (\<lambda>stages. Inr (name, stages)))"

definition find_pipeline :: "db \<Rightarrow> ident \<Rightarrow> pipeline_row option" where
  "find_pipeline d i = find (\<lambda>p. pl_id p = i) (pipelines d)"

definition stages_of_pipeline :: "db \<Rightarrow> ident \<Rightarrow> pipeline_stage list" where
  "stages_of_pipeline d i =
     sort_key pg_position (map ps_stage (filter (\<lambda>s. ps_pipeline_id s = i) (pipeline_stages d)))"

definition replace_pipeline_stages :: "ident \<Rightarrow> pipeline_stage list \<Rightarrow> db \<Rightarrow> db" where
  "replace_pipeline_stages i stages d =
     d\<lparr>pipeline_stages := delete_where (\<lambda>s. ps_pipeline_id s = i) (pipeline_stages d) @
       map (\<lambda>stage. \<lparr>ps_pipeline_id = i, ps_stage = stage\<rparr>) stages\<rparr>"

definition pipeline_reply :: "db \<Rightarrow> ident \<Rightarrow> pipeline_view result" where
  "pipeline_reply d i =
     (case find_pipeline d i of
        None \<Rightarrow> Inl err_not_found
      | Some p \<Rightarrow> Inr \<lparr>pv_id = pl_id p, pv_name = pl_name p, pv_generation = pl_generation p,
          pv_stages = stages_of_pipeline d i, pv_created_at = from_millis (pl_created_at p),
          pv_updated_at = from_millis (pl_updated_at p)\<rparr>)"

definition pipeline_name_conflict :: service_error where
  "pipeline_name_conflict = conflict ''pipeline_name_conflict'' ''a Pipeline with this name already exists''"

definition create_pipeline_tx ::
  "(string \<Rightarrow> string) \<Rightarrow> int \<Rightarrow> ident \<Rightarrow> db \<Rightarrow> save_pipeline_request \<Rightarrow> (ident \<times> db) result" where
  "create_pipeline_tx lower now new_id d input =
     and_then (normalize_pipeline input) (\<lambda>(name, stages).
       let key = normalize_title_key lower name; at = unix_milli now in
       if max_pipelines \<le> length (pipelines d)
       then Inl (conflict ''pipeline_limit_reached'' ''Factory is limited to 200 Pipelines'')
       else if key \<in> pl_name_key ` set (pipelines d) then Inl pipeline_name_conflict
       else Inr (new_id, replace_pipeline_stages new_id stages
         (d\<lparr>pipelines := pipelines d @ [\<lparr>pl_id = new_id, pl_name = name, pl_name_key = key, pl_generation = 1,
            pl_created_at = at, pl_updated_at = at\<rparr>]\<rparr>)))"

definition create_pipeline ::
  "(string \<Rightarrow> string) \<Rightarrow> int \<Rightarrow> ident \<Rightarrow> db \<Rightarrow> save_pipeline_request \<Rightarrow> pipeline_view result \<times> db" where
  "create_pipeline lower now new_id d input =
     committed d (create_pipeline_tx lower now new_id d input) pipeline_reply"

definition update_pipeline_tx ::
  "(string \<Rightarrow> string) \<Rightarrow> int \<Rightarrow> db \<Rightarrow> ident \<Rightarrow> save_pipeline_request \<Rightarrow> (ident \<times> db) result" where
  "update_pipeline_tx lower now d i input =
     and_then (normalize_pipeline input) (\<lambda>(name, stages).
       let key = normalize_title_key lower name; generation = vp_expected_generation input in
       if generation < 1
       then Inl (invalid ''pipeline_generation_required'' ''expected_generation is required'')
       else if \<not> list_ex (\<lambda>p. pl_id p = i \<and> int (pl_generation p) = generation) (pipelines d) then
         (if find_pipeline d i = None then Inl err_not_found
          else Inl (conflict ''pipeline_generation_conflict'' ''the Pipeline changed; refresh and try again''))
       else if list_ex (\<lambda>p. pl_id p \<noteq> i \<and> pl_name_key p = key) (pipelines d) then Inl pipeline_name_conflict
       else Inr (i, replace_pipeline_stages i stages
         (d\<lparr>pipelines := update_where (\<lambda>p. pl_id p = i \<and> int (pl_generation p) = generation)
            (\<lambda>p. p\<lparr>pl_name := name, pl_name_key := key, pl_generation := pl_generation p + 1,
               pl_updated_at := unix_milli now\<rparr>) (pipelines d)\<rparr>)))"

definition update_pipeline ::
  "(string \<Rightarrow> string) \<Rightarrow> int \<Rightarrow> db \<Rightarrow> ident \<Rightarrow> save_pipeline_request \<Rightarrow> pipeline_view result \<times> db" where
  "update_pipeline lower now d i input = committed d (update_pipeline_tx lower now d i input) pipeline_reply"

text \<open>Deleting a Pipeline deletes its stages through the cascade of their foreign key.\<close>

definition delete_pipeline_tx :: "db \<Rightarrow> ident \<Rightarrow> (unit \<times> db) result" where
  "delete_pipeline_tx d i =
     (if i = default_pipeline_id
      then Inl (conflict ''pipeline_delete_not_allowed'' ''the built-in Single agent Pipeline cannot be deleted'')
      else if list_ex (\<lambda>t. tk_pipeline_id t = Some i) (task_rows d)
      then Inl (conflict ''pipeline_in_use'' ''remove this Pipeline from its Tasks before deleting it'')
      else if find_pipeline d i = None then Inl err_not_found
      else Inr ((), d\<lparr>pipelines := delete_where (\<lambda>p. pl_id p = i) (pipelines d),
        pipeline_stages := delete_where (\<lambda>s. ps_pipeline_id s = i) (pipeline_stages d)\<rparr>))"

definition delete_pipeline :: "db \<Rightarrow> ident \<Rightarrow> unit result \<times> db" where
  "delete_pipeline d i = committed d (delete_pipeline_tx d i) (\<lambda>_ _. Inr ())"

text \<open>The list shows the stages without their prompts.\<close>

definition pipelines_page :: "db \<Rightarrow> pipeline_view list" where
  "pipelines_page d =
     map (\<lambda>p. \<lparr>pv_id = pl_id p, pv_name = pl_name p, pv_generation = pl_generation p,
         pv_stages = map (\<lambda>s. s\<lparr>pg_prompt := ''''\<rparr>) (stages_of_pipeline d (pl_id p)),
         pv_created_at = from_millis (pl_created_at p), pv_updated_at = from_millis (pl_updated_at p)\<rparr>)
       (rev (sort_key (\<lambda>p. (pl_updated_at p, pl_id p)) (pipelines d)))"

definition load_pipeline_snapshot :: "db \<Rightarrow> ident \<Rightarrow> pipeline_snapshot result" where
  "load_pipeline_snapshot d i =
     (let i = (if trim_space i = '''' then default_pipeline_id else i) in
      case find_pipeline d i of
        None \<Rightarrow> Inl (invalid ''pipeline_not_found'' ''the selected Pipeline does not exist'')
      | Some p \<Rightarrow>
          if stages_of_pipeline d i = [] then Inl (conflict ''pipeline_empty'' ''the selected Pipeline has no stages'')
          else Inr \<lparr>pn_id = pl_id p, pn_name = pl_name p, pn_generation = pl_generation p,
            pn_stages = stages_of_pipeline d i\<rparr>)"

end
