(* ===== verification/Calendar.thy ===== *)
theory Calendar
  imports Go_Strings
begin

text \<open>
  What the program uses of Go's \<^verbatim>\<open>time\<close>: the civil date of an instant, \<^verbatim>\<open>AddDate\<close> for whole years, and
  RFC 3339 text. Days count from 1 January 1970; the date is found by cycles of 400, 100, 4 and 1 years, as the library
  does, and \<open>days_of_date\<close> leads back. A location is the offset from UTC, in seconds, at each UTC second; the zone
  database that yields it is a parameter of the model.
\<close>

subsection \<open>Dates\<close>

record date =
  dt_year :: int
  dt_month :: nat
  dt_day :: nat

definition leap_year :: "int \<Rightarrow> bool" where
  "leap_year y \<longleftrightarrow> y mod 4 = 0 \<and> (y mod 100 \<noteq> 0 \<or> y mod 400 = 0)"

definition epoch_day :: int where
  "epoch_day = 719162"

text \<open>Days from 1 January of year 1 to 1 January of a year.\<close>

definition days_before_year :: "int \<Rightarrow> int" where
  "days_before_year y = 365 * (y - 1) + (y - 1) div 4 - (y - 1) div 100 + (y - 1) div 400"

definition year_and_day :: "int \<Rightarrow> int \<times> int" where
  "year_and_day d =
     (let n = d div 146097; d1 = d mod 146097;
          c = min 3 (d1 div 36524); d2 = d1 - 36524 * c;
          q = d2 div 1461; d3 = d2 mod 1461;
          k = min 3 (d3 div 365)
      in (1 + 400 * n + 100 * c + 4 * q + k, d3 - 365 * k))"

definition month_starts :: "bool \<Rightarrow> nat list" where
  "month_starts leap = map (\<lambda>n. if leap \<and> 60 \<le> n + 1 then n + 1 else n)
     [0, 31, 59, 90, 120, 151, 181, 212, 243, 273, 304, 334]"

definition days_before_month :: "bool \<Rightarrow> nat \<Rightarrow> nat" where
  "days_before_month leap m = month_starts leap ! (m - 1)"

definition month_of_day :: "bool \<Rightarrow> nat \<Rightarrow> nat" where
  "month_of_day leap n = count_where (\<lambda>s. s \<le> n) (month_starts leap)"

definition date_of_days :: "int \<Rightarrow> date" where
  "date_of_days days =
     (let (y, n) = year_and_day (days + epoch_day); leap = leap_year y; m = month_of_day leap (nat n)
      in \<lparr>dt_year = y, dt_month = m, dt_day = nat n - days_before_month leap m + 1\<rparr>)"

text \<open>A day past the end of its month runs into the next one, as in \<^verbatim>\<open>time.Date\<close>.\<close>

definition days_of_date :: "date \<Rightarrow> int" where
  "days_of_date x =
     days_before_year (dt_year x) + int (days_before_month (leap_year (dt_year x)) (dt_month x)) + int (dt_day x) - 1 -
     epoch_day"

text \<open>Sunday is 0.\<close>

definition weekday :: "int \<Rightarrow> nat" where
  "weekday days = nat ((days + epoch_day + 1) mod 7)"

lemma year_and_day:
  assumes "year_and_day d = (y, n)"
  shows "days_before_year y + n = d" "0 \<le> n" "n < (if leap_year y then 366 else 365)"
proof -
  define N where "N = d div 146097"
  define d1 where "d1 = d mod 146097"
  define c where "c = min 3 (d1 div 36524)"
  define d2 where "d2 = d1 - 36524 * c"
  define q where "q = d2 div 1461"
  define d3 where "d3 = d2 mod 1461"
  define k where "k = min 3 (d3 div 365)"
  have y: "y = 1 + 400 * N + 100 * c + 4 * q + k" and n: "n = d3 - 365 * k"
    using assms by (simp_all add: year_and_day_def Let_def N_def d1_def c_def d2_def q_def d3_def k_def)
  have d1: "0 \<le> d1" "d1 < 146097" "d = 146097 * N + d1" by (simp_all add: d1_def N_def)
  have c: "0 \<le> c" "c \<le> 3" "0 \<le> d2" "d2 \<le> 36524" "c < 3 \<Longrightarrow> d2 < 36524"
    using d1(1,2) unfolding c_def d2_def by (auto simp: min_def)
  have q: "0 \<le> q" "q \<le> 24" "d2 = 1461 * q + d3" "0 \<le> d3" "d3 < 1461"
    using c(3,4) by (auto simp: q_def d3_def)
  have k: "0 \<le> k" "k \<le> 3" "0 \<le> n" "n \<le> 365" "k < 3 \<Longrightarrow> n < 365"
    using q(4,5) unfolding k_def n by (auto simp: min_def)
  have base: "(r + b * m) div b = m" if "0 \<le> r" "r < b" for r b m :: int
    using that by simp
  have parts: "(y - 1) div 4 = 100 * N + 25 * c + q" "(y - 1) div 100 = 4 * N + c" "(y - 1) div 400 = N"
    using base [of 4 k "100 * N + 25 * c + q"] base [of 100 "4 * q + k" "4 * N + c"]
      base [of 400 "100 * c + 4 * q + k" N] c(1,2) q(1,2) k(1,2) unfolding y by (simp_all add: algebra_simps)
  show "days_before_year y + n = d"
    using d1(3) q(3) n y unfolding days_before_year_def parts d2_def by (simp add: algebra_simps)
  show "0 \<le> n" by (rule k(3))
  show "n < (if leap_year y then 366 else 365)"
  proof (cases "leap_year y")
    case True
    with k(4) show ?thesis by simp
  next
    case False
    have "n < 365"
    proof (cases "k < 3")
      case True
      with k(5) show ?thesis by simp
    next
      case three: False
      with k(2) have k3: "k = 3" by simp
      have modbase: "(r + b * m) mod b = r mod b" for r b m :: int by simp
      have "y = 0 + 4 * (1 + 100 * N + 25 * c + q)" using k3 y by simp
      then have "y mod 4 = 0" using modbase [of 0 4] by simp
      with False have century: "y mod 100 = 0" "y mod 400 \<noteq> 0" by (auto simp: leap_year_def)
      have "y = 4 * (q + 1) + 100 * (4 * N + c)" using k3 y by simp
      with century(1) have "(4 * (q + 1)) mod 100 = 0" by (metis modbase)
      then have q24: "q = 24" using q(1,2) by (cases "q \<le> 23") (simp_all add: mod_pos_pos_trivial)
      have "c \<noteq> 3"
      proof
        assume "c = 3"
        with q24 k3 have "y = 0 + 400 * (N + 1)" using y by simp
        with century(2) show False using modbase [of 0 400] by simp
      qed
      then have "d2 < 36524" using c(2,5) by simp
      then show ?thesis using q(3) q24 n k3 by simp
    qed
    with False show ?thesis by simp
  qed
qed

lemma month_starts_cases:
  "month_starts True = [0, 31, 60, 91, 121, 152, 182, 213, 244, 274, 305, 335]"
  "month_starts False = [0, 31, 59, 90, 120, 151, 181, 212, 243, 273, 304, 334]"
  by (simp_all add: month_starts_def)

lemma month_of_day:
  "1 \<le> month_of_day leap n \<and> month_of_day leap n \<le> 12 \<and> days_before_month leap (month_of_day leap n) \<le> n"
proof -
  have "sorted (month_starts leap)" "hd (month_starts leap) = 0" "length (month_starts leap) = 12"
    by (cases leap; simp add: month_starts_cases)+
  moreover have "0 < count_where (\<lambda>s. s \<le> n) xs \<and> count_where (\<lambda>s. s \<le> n) xs \<le> length xs \<and>
      xs ! (count_where (\<lambda>s. s \<le> n) xs - 1) \<le> n" if "sorted xs" "xs \<noteq> []" "hd xs = 0" for xs :: "nat list"
  proof -
    have gen: "sorted ys \<Longrightarrow> 0 < count_where (\<lambda>s. s \<le> n) ys \<Longrightarrow> ys ! (count_where (\<lambda>s. s \<le> n) ys - 1) \<le> n" for ys :: "nat list"
    proof (induction ys)
      case (Cons y ys)
      show ?case
      proof (cases "0 < count_where (\<lambda>s. s \<le> n) ys")
        case True
        then obtain z where "z \<in> set ys" "z \<le> n" by (metis count_where_eq_0 less_irrefl)
        with Cons.prems(1) have "y \<le> n" by auto
        with True Cons show ?thesis by (simp add: nth_Cons')
      next
        case False
        with Cons.prems(2) show ?thesis by (auto split: if_splits)
      qed
    qed simp
    have "0 < count_where (\<lambda>s. s \<le> n) xs" using that(2,3) by (cases xs) auto
    moreover have "count_where (\<lambda>s. s \<le> n) xs \<le> length xs" by (simp add: count_where_def)
    ultimately show ?thesis using gen [OF that(1)] by simp
  qed
  ultimately show ?thesis
    using list.size(3) unfolding month_of_day_def days_before_month_def by (metis Suc_leI One_nat_def zero_neq_numeral)
qed

lemma month_of_day_length:
  "n < (if leap then 366 else 365) \<Longrightarrow> n \<le> days_before_month leap (month_of_day leap n) + 30"
  by (cases leap; simp add: month_of_day_def days_before_month_def month_starts_cases)

text \<open>The date of a day is a date of that day.\<close>

lemma days_of_date_of_days: "days_of_date (date_of_days days) = days"
proof -
  obtain y n where yn: "year_and_day (days + epoch_day) = (y, n)" by fastforce
  note year = year_and_day [OF yn]
  have "days_before_month (leap_year y) (month_of_day (leap_year y) (nat n)) \<le> nat n" using month_of_day by blast
  then show ?thesis
    using year(1,2) by (simp add: date_of_days_def days_of_date_def yn Let_def)
qed

text \<open>Months run from 1 to 12 and days from 1 to 31.\<close>

lemma date_of_days_fields:
  "1 \<le> dt_month (date_of_days d)" "dt_month (date_of_days d) \<le> 12"
  "1 \<le> dt_day (date_of_days d)" "dt_day (date_of_days d) \<le> 31"
proof -
  obtain y n where yn: "year_and_day (d + epoch_day) = (y, n)" by fastforce
  let ?leap = "leap_year y"
  show "1 \<le> dt_month (date_of_days d)" "dt_month (date_of_days d) \<le> 12"
    using month_of_day [of ?leap "nat n"] by (simp_all add: date_of_days_def yn Let_def)
  have "nat n < (if ?leap then 366 else 365)" using year_and_day(2,3) [OF yn] by auto
  then have "nat n \<le> days_before_month ?leap (month_of_day ?leap (nat n)) + 30"
    by (rule month_of_day_length)
  then show "dt_day (date_of_days d) \<le> 31" by (simp add: date_of_days_def yn Let_def)
  show "1 \<le> dt_day (date_of_days d)" by (simp add: date_of_days_def yn Let_def)
qed

subsection \<open>Instants\<close>

text \<open>An instant is a number of nanoseconds; \<open>seconds_of\<close> is its UTC second.\<close>

definition seconds_of :: "int \<Rightarrow> int" where
  "seconds_of t = t div 1000000000"

definition add_years :: "int \<Rightarrow> int \<Rightarrow> int" where
  "add_years years sec =
     (let x = date_of_days (sec div 86400)
      in days_of_date (x\<lparr>dt_year := dt_year x + years\<rparr>) * 86400 + sec mod 86400)"

type_synonym location = "int \<Rightarrow> int"
type_synonym zones = "string \<Rightarrow> string + location"

subsection \<open>RFC 3339\<close>

definition pad_digits :: "nat \<Rightarrow> nat \<Rightarrow> string" where
  "pad_digits width n = replicate (width - length (show_nat n)) (CHR ''0'') @ show_nat n"

definition drop_trailing_zeros :: "string \<Rightarrow> string" where
  "drop_trailing_zeros s = rev (dropWhile (\<lambda>c. c = CHR ''0'') (rev s))"

text \<open>The JSON text of a UTC \<^verbatim>\<open>time.Time\<close>, without its quotes: \<^verbatim>\<open>MarshalJSON\<close> fails outside the years 0 to 9999.\<close>

definition rfc3339_nano :: "int \<Rightarrow> string option" where
  "rfc3339_nano t =
     (let sec = seconds_of t; x = date_of_days (sec div 86400); s = nat (sec mod 86400);
          fraction = drop_trailing_zeros (pad_digits 9 (nat (t mod 1000000000)))
      in if dt_year x < 0 \<or> 9999 < dt_year x then None
         else Some (pad_digits 4 (nat (dt_year x)) @ ''-'' @ pad_digits 2 (dt_month x) @ ''-'' @ pad_digits 2 (dt_day x) @ ''T'' @
           pad_digits 2 (s div 3600) @ '':'' @ pad_digits 2 (s div 60 mod 60) @ '':'' @ pad_digits 2 (s mod 60) @
           (if fraction = '''' then '''' else CHR ''.'' # fraction) @ ''Z''))"

end
