(* ===== verification/Cron.thy ===== *)
theory Cron
  imports Calendar Identity
begin

text \<open>
  \<^verbatim>\<open>schedule_cron.go\<close>: five-field cron expressions and the next instant they select. A field keeps one boolean
  per value, as the code's slice does. An index outside that slice is the panic of the Go runtime, a value of its
  own; the order in which the code walks its two maps of names is an argument, as is the table of printable runes that
  \<^verbatim>\<open>%q\<close> consults and the zone database.
\<close>

subsection \<open>Strings\<close>

fun contains :: "string \<Rightarrow> string \<Rightarrow> bool" where
  "contains q [] \<longleftrightarrow> q = []"
| "contains q (c # s) \<longleftrightarrow> prefix q (c # s) \<or> contains q s"

text \<open>\<^verbatim>\<open>strings.ReplaceAll\<close> of a name by nothing.\<close>

function remove_all :: "string \<Rightarrow> string \<Rightarrow> string" where
  "remove_all q s =
     (case s of [] \<Rightarrow> []
      | c # r \<Rightarrow> if q \<noteq> [] \<and> prefix q s then remove_all q (drop (length q) s) else c # remove_all q r)"
  by pat_completeness auto
termination
  by (relation "measure (length \<circ> snd)") (auto simp: prefix_def)

declare remove_all.simps [simp del]

lemma remove_all_simps [simp]:
  "remove_all q [] = []"
  "remove_all q (c # r) = (if q \<noteq> [] \<and> prefix q (c # r) then remove_all q (drop (length q) (c # r)) else c # remove_all q r)"
  by (subst remove_all.simps; simp)+

text \<open>\<^verbatim>\<open>strings.Cut\<close>: the text before the first separator, and the text after it if there is one.\<close>

definition cut :: "char \<Rightarrow> string \<Rightarrow> string \<times> string option" where
  "cut c s =
     (takeWhile (\<lambda>x. x \<noteq> c) s, if c \<in> set s then Some (drop 1 (dropWhile (\<lambda>x. x \<noteq> c) s)) else None)"

fun split_spaces :: "string list \<Rightarrow> string \<Rightarrow> string list" where
  "split_spaces [] part = (if part = [] then [] else [part])"
| "split_spaces (q # qs) part =
     (if q \<in> set space_runes then (if part = [] then [] else [part]) @ split_spaces qs []
      else split_spaces qs (part @ q))"

definition fields_of :: "string \<Rightarrow> string list" where
  "fields_of s = split_spaces (utf8_chunks s) []"

text \<open>
  \<^verbatim>\<open>strings.ToUpper\<close>, as far as ASCII letters come out of it: the dotless i and the long s have ASCII capitals. Every
  other rune stays outside ASCII, which is all that the comparisons below can see.
\<close>

definition ascii_upper :: "char \<Rightarrow> char" where
  "ascii_upper c = (if in_range 97 122 c then char_of (byte c - 32) else c)"

definition upper_chunk :: "string \<Rightarrow> string" where
  "upper_chunk q =
     (if q = chars_of [196, 177] then ''I''
      else if q = chars_of [197, 191] then ''S''
      else map ascii_upper q)"

definition to_upper :: "string \<Rightarrow> string" where
  "to_upper s = concat (map upper_chunk (utf8_chunks s))"

text \<open>\<^verbatim>\<open>strconv.Atoi\<close> on a 64-bit machine.\<close>

fun digits_value :: "string \<Rightarrow> int \<Rightarrow> int option" where
  "digits_value [] n = Some n"
| "digits_value (c # s) n = (if is_decimal c then digits_value s (10 * n + (int (byte c) - 48)) else None)"

definition in_int64 :: "int \<Rightarrow> bool" where
  "in_int64 n \<longleftrightarrow> - 9223372036854775808 \<le> n \<and> n < 9223372036854775808"

definition atoi :: "string \<Rightarrow> int option" where
  "atoi s =
     (let digits = if s \<noteq> [] \<and> hd s \<in> set ''+-'' then tl s else s in
      if digits = [] then None
      else case digits_value digits 0 of
        None \<Rightarrow> None
      | Some n \<Rightarrow>
          let m = if hd s = CHR ''-'' then - n else n in
          if in_int64 m then Some m else None)"

text \<open>\<^verbatim>\<open>strconv.Quote\<close>; the argument tells which runes beyond ASCII are printable.\<close>

fun rune_value :: "string \<Rightarrow> nat" where
  "rune_value [a] = byte a"
| "rune_value [a, b] = (byte a - 192) * 64 + (byte b - 128)"
| "rune_value [a, b, c] = ((byte a - 224) * 64 + (byte b - 128)) * 64 + (byte c - 128)"
| "rune_value [a, b, c, d] = (((byte a - 240) * 64 + (byte b - 128)) * 64 + (byte c - 128)) * 64 + (byte d - 128)"
| "rune_value _ = 0"

definition hex_digits :: "nat \<Rightarrow> nat \<Rightarrow> string" where
  "hex_digits width n = (let s = base_digits 16 n in replicate (width - length s) (CHR ''0'') @ s)"

definition quote_chunk :: "(string \<Rightarrow> bool) \<Rightarrow> string \<Rightarrow> string" where
  "quote_chunk printable q =
     (let r = rune_value q in
      if q = [CHR 34] \<or> q = [CHR 92] then CHR 92 # q
      else if r < 128 then
        (if in_range 32 126 (hd q) then q
         else if r = 7 then CHR 92 # ''a'' else if r = 8 then CHR 92 # ''b''
         else if r = 12 then CHR 92 # ''f'' else if r = 10 then CHR 92 # ''n''
         else if r = 13 then CHR 92 # ''r'' else if r = 9 then CHR 92 # ''t''
         else if r = 11 then CHR 92 # ''v''
         else CHR 92 # CHR ''x'' # hex_digits 2 r)
      else if length q = 1 then CHR 92 # CHR ''x'' # hex_digits 2 r
      else if printable q then q
      else if r < 65536 then CHR 92 # CHR ''u'' # hex_digits 4 r
      else CHR 92 # CHR ''U'' # hex_digits 8 r)"

definition go_quote :: "(string \<Rightarrow> bool) \<Rightarrow> string \<Rightarrow> string" where
  "go_quote printable s = [CHR 34] @ concat (map (quote_chunk printable) (utf8_chunks s)) @ [CHR 34]"

subsection \<open>Schedules\<close>

record cron_field =
  cf_allowed :: "bool list"
  cf_wildcard :: bool

record cron_schedule =
  cs_minute :: cron_field
  cs_hour :: cron_field
  cs_day_of_month :: cron_field
  cs_month :: cron_field
  cs_day_of_week :: cron_field
  cs_location :: location

datatype cron_failure = CronError string | CronPanic

text \<open>What the code reads of the Go runtime: the zone database, printable runes and a walk through each map of names.\<close>

record cron_runtime =
  cr_zones :: zones
  cr_printable :: "string \<Rightarrow> bool"
  cr_month_order :: "string list"
  cr_weekday_order :: "string list"

definition cron_search_years :: int where
  "cron_search_years = 10"

definition cron_months :: "(string \<times> int) list" where
  "cron_months =
     [(''JAN'', 1), (''FEB'', 2), (''MAR'', 3), (''APR'', 4), (''MAY'', 5), (''JUN'', 6),
      (''JUL'', 7), (''AUG'', 8), (''SEP'', 9), (''OCT'', 10), (''NOV'', 11), (''DEC'', 12)]"

definition cron_weekdays :: "(string \<times> int) list" where
  "cron_weekdays =
     [(''SUN'', 0), (''MON'', 1), (''TUE'', 2), (''WED'', 3), (''THU'', 4), (''FRI'', 5), (''SAT'', 6)]"

definition parse_cron_value ::
  "(string \<Rightarrow> bool) \<Rightarrow> (string \<times> int) list \<Rightarrow> int \<Rightarrow> int \<Rightarrow> string \<Rightarrow> cron_failure + int" where
  "parse_cron_value printable names minimum maximum value =
     (case map_of names (to_upper value) of
        Some named \<Rightarrow> Inr named
      | None \<Rightarrow>
          let failure = CronError (''value '' @ go_quote printable value @ '' must be between '' @ show_int minimum @
                '' and '' @ show_int maximum) in
          case atoi value of
            None \<Rightarrow> Inl failure
          | Some parsed \<Rightarrow> if parsed < minimum \<or> maximum < parsed then Inl failure else Inr parsed)"

text \<open>
  The sum of two 64-bit integers wraps. The step of the loop is at least 1, so a pass either ends the loop, leaves the
  slice, or moves on inside it; as many passes as the slice has values, and one more, are always enough.
\<close>

definition wrap_int64 :: "int \<Rightarrow> int" where
  "wrap_int64 n = (n + 9223372036854775808) mod 18446744073709551616 - 9223372036854775808"

fun allow_values :: "nat \<Rightarrow> bool \<Rightarrow> int \<Rightarrow> int \<Rightarrow> int \<Rightarrow> bool list \<Rightarrow> cron_failure + bool list" where
  "allow_values 0 sunday_seven candidate stop step allowed = Inl CronPanic"
| "allow_values (Suc fuel) sunday_seven candidate stop step allowed =
     (if stop < candidate then Inr allowed
      else
        let index = (if sunday_seven \<and> candidate = 7 then 0 else candidate) in
        if index < 0 \<or> int (length allowed) \<le> index then Inl CronPanic
        else allow_values fuel sunday_seven (wrap_int64 (candidate + step)) stop step (allowed[nat index := True]))"

definition cron_step :: "string option \<Rightarrow> cron_failure + int" where
  "cron_step step_text =
     (case step_text of
        None \<Rightarrow> Inr 1
      | Some text' \<Rightarrow>
          if text' = '''' \<or> CHR ''/'' \<in> set text' then Inl (CronError ''invalid step'')
          else case atoi text' of
            None \<Rightarrow> Inl (CronError ''step must be a positive integer'')
          | Some parsed \<Rightarrow> if parsed < 1 then Inl (CronError ''step must be a positive integer'') else Inr parsed)"

definition cron_range ::
  "(string \<Rightarrow> bool) \<Rightarrow> (string \<times> int) list \<Rightarrow> int \<Rightarrow> int \<Rightarrow> string \<Rightarrow> bool \<Rightarrow> cron_failure + int \<times> int" where
  "cron_range printable names minimum maximum base has_step =
     (if base = ''*'' then Inr (minimum, maximum)
      else if CHR ''-'' \<in> set base then
        (let (left, rest) = cut (CHR ''-'') base; right = coalesce rest '''' in
         if left = '''' \<or> right = '''' \<or> CHR ''-'' \<in> set right then Inl (CronError ''invalid range'')
         else case parse_cron_value printable names minimum maximum left of
           Inl e \<Rightarrow> Inl e
         | Inr start \<Rightarrow>
             case parse_cron_value printable names minimum maximum right of
               Inl e \<Rightarrow> Inl e
             | Inr stop \<Rightarrow>
                 if stop < start then Inl (CronError ''range start must not exceed range end'') else Inr (start, stop))
      else case parse_cron_value printable names minimum maximum base of
        Inl e \<Rightarrow> Inl e
      | Inr parsed \<Rightarrow> Inr (parsed, if has_step then maximum else parsed))"

definition parse_cron_item ::
  "(string \<Rightarrow> bool) \<Rightarrow> (string \<times> int) list \<Rightarrow> bool \<Rightarrow> int \<Rightarrow> int \<Rightarrow> string \<Rightarrow> bool list \<Rightarrow> cron_failure + bool list" where
  "parse_cron_item printable names sunday_seven minimum maximum item allowed =
     (if item = '''' then Inl (CronError ''empty list item'')
      else
        let (base, step_text) = cut (CHR ''/'') item in
        case cron_step step_text of
          Inl e \<Rightarrow> Inl e
        | Inr step \<Rightarrow>
            case cron_range printable names minimum maximum base (step_text \<noteq> None) of
              Inl e \<Rightarrow> Inl e
            | Inr bounds \<Rightarrow>
                allow_values (length allowed + 1) sunday_seven (fst bounds) (snd bounds) step allowed)"

fun parse_cron_items ::
  "(string \<Rightarrow> bool) \<Rightarrow> (string \<times> int) list \<Rightarrow> bool \<Rightarrow> int \<Rightarrow> int \<Rightarrow> string list \<Rightarrow> bool list \<Rightarrow> cron_failure + bool list"
where
  "parse_cron_items printable names sunday_seven minimum maximum [] allowed = Inr allowed"
| "parse_cron_items printable names sunday_seven minimum maximum (item # items) allowed =
     (case parse_cron_item printable names sunday_seven minimum maximum item allowed of
        Inl e \<Rightarrow> Inl e
      | Inr allowed' \<Rightarrow> parse_cron_items printable names sunday_seven minimum maximum items allowed')"

definition parse_cron_field ::
  "(string \<Rightarrow> bool) \<Rightarrow> (string \<times> int) list \<Rightarrow> bool \<Rightarrow> int \<Rightarrow> int \<Rightarrow> string \<Rightarrow> cron_failure + cron_field" where
  "parse_cron_field printable names sunday_seven minimum maximum value =
     (if value = '''' then Inl (CronError ''field is empty'')
      else case parse_cron_items printable names sunday_seven minimum maximum (split_on (CHR '','') value)
                  (replicate (nat maximum + 1) False) of
        Inl e \<Rightarrow> Inl e
      | Inr allowed \<Rightarrow>
          if list_ex (\<lambda>n. allowed ! n) [nat minimum ..< nat maximum + 1]
          then Inr \<lparr>cf_allowed = allowed, cf_wildcard = prefix ''*'' value\<rparr>
          else Inl (CronError ''field selects no values''))"

text \<open>The prefix of the field's name on its error.\<close>

definition cron_field_error :: "string \<Rightarrow> cron_failure + 'a \<Rightarrow> cron_failure + 'a" where
  "cron_field_error field r =
     (case r of Inl (CronError e) \<Rightarrow> Inl (CronError (field @ '' field: '' @ e)) | _ \<Rightarrow> r)"

definition cron_syntax :: "cron_runtime \<Rightarrow> string \<Rightarrow> cron_failure + unit" where
  "cron_syntax rt expression =
     (let upper = to_upper expression in
      if contains ''CRON_TZ'' upper then Inl (CronError ''timezone must be supplied separately'')
      else
        let syntax_only = fold remove_all (cr_month_order rt @ cr_weekday_order rt) upper in
        case find (\<lambda>c. c \<in> set syntax_only) ''@?LW#'' of
          Some c \<Rightarrow> Inl (CronError (''cron contains unsupported syntax '' @ go_quote (cr_printable rt) [c]))
        | None \<Rightarrow> Inr ())"

definition parse_cron_fields :: "cron_runtime \<Rightarrow> string list \<Rightarrow> location \<Rightarrow> cron_failure + cron_schedule" where
  "parse_cron_fields rt fs loc =
     (let p = cr_printable rt in
      case cron_field_error ''minute'' (parse_cron_field p [] False 0 59 (fs ! 0)) of Inl e \<Rightarrow> Inl e | Inr minute \<Rightarrow>
      case cron_field_error ''hour'' (parse_cron_field p [] False 0 23 (fs ! 1)) of Inl e \<Rightarrow> Inl e | Inr hour \<Rightarrow>
      case cron_field_error ''day-of-month'' (parse_cron_field p [] False 1 31 (fs ! 2)) of Inl e \<Rightarrow> Inl e | Inr day \<Rightarrow>
      case cron_field_error ''month'' (parse_cron_field p cron_months False 1 12 (fs ! 3)) of Inl e \<Rightarrow> Inl e | Inr month \<Rightarrow>
      case cron_field_error ''day-of-week'' (parse_cron_field p cron_weekdays True 0 7 (fs ! 4)) of Inl e \<Rightarrow> Inl e | Inr day' \<Rightarrow>
      Inr \<lparr>cs_minute = minute, cs_hour = hour, cs_day_of_month = day, cs_month = month, cs_day_of_week = day',
        cs_location = loc\<rparr>)"

definition parse_cron_schedule ::
  "cron_runtime \<Rightarrow> string \<Rightarrow> string \<Rightarrow> cron_failure + cron_schedule \<times> string \<times> string" where
  "parse_cron_schedule rt expression timezone =
     (let fs = fields_of expression in
      if length fs \<noteq> 5 then Inl (CronError ''cron must contain exactly five fields'')
      else case cron_syntax rt expression of
        Inl e \<Rightarrow> Inl e
      | Inr _ \<Rightarrow>
          let zone = trim_space timezone in
          if zone = '''' \<or> zone = ''Local'' then Inl (CronError ''timezone must be a valid IANA timezone'')
          else case cr_zones rt zone of
            Inl e \<Rightarrow> Inl (CronError (''timezone must be a valid IANA timezone: '' @ e))
          | Inr loc \<Rightarrow>
              case parse_cron_fields rt fs loc of
                Inl e \<Rightarrow> Inl e
              | Inr schedule \<Rightarrow> Inr (schedule, join_with (CHR '' '') fs, zone))"

subsection \<open>The next instant\<close>

text \<open>The fields of the local time at a UTC second.\<close>

definition local_second :: "location \<Rightarrow> int \<Rightarrow> int" where
  "local_second loc sec = sec + loc sec"

definition local_minute :: "int \<Rightarrow> nat" where
  "local_minute l = nat (l mod 3600 div 60)"

definition local_hour :: "int \<Rightarrow> nat" where
  "local_hour l = nat (l mod 86400 div 3600)"

definition cron_matches :: "cron_schedule \<Rightarrow> int \<Rightarrow> bool" where
  "cron_matches schedule sec =
     (let l = local_second (cs_location schedule) sec; x = date_of_days (l div 86400) in
      if \<not> cf_allowed (cs_minute schedule) ! local_minute l \<or> \<not> cf_allowed (cs_hour schedule) ! local_hour l \<or>
         \<not> cf_allowed (cs_month schedule) ! dt_month x
      then False
      else
        let day_of_month = cf_allowed (cs_day_of_month schedule) ! dt_day x;
            day_of_week = cf_allowed (cs_day_of_week schedule) ! weekday (l div 86400) in
        if cf_wildcard (cs_day_of_month schedule) \<and> cf_wildcard (cs_day_of_week schedule) then True
        else if cf_wildcard (cs_day_of_month schedule) then day_of_week
        else if cf_wildcard (cs_day_of_week schedule) then day_of_month
        else day_of_month \<or> day_of_week)"

function first_match :: "cron_schedule \<Rightarrow> int \<Rightarrow> int \<Rightarrow> int option" where
  "first_match schedule limit candidate =
     (if limit < candidate then None
      else if cron_matches schedule candidate then Some candidate
      else first_match schedule limit (candidate + 60))"
  by pat_completeness auto
termination
  by (relation "measure (\<lambda>(schedule, limit, candidate). nat (limit + 1 - candidate))") auto

declare first_match.simps [simp del]

definition first_candidate :: "int \<Rightarrow> int" where
  "first_candidate after = seconds_of after div 60 * 60 + 60"

definition cron_limit :: "int \<Rightarrow> int" where
  "cron_limit after = add_years cron_search_years (first_candidate after)"

definition cron_next :: "cron_schedule \<Rightarrow> int \<Rightarrow> cron_failure + int" where
  "cron_next schedule after =
     (case first_match schedule (cron_limit after) (first_candidate after) of
        Some sec \<Rightarrow> Inr (sec * 1000000000)
      | None \<Rightarrow>
          Inl (CronError (''cron has no matching instant within '' @ show_int cron_search_years @ '' years'')))"

subsection \<open>The slices of a schedule\<close>

lemma length_allow_values:
  "allow_values fuel sunday candidate stop step allowed = Inr allowed' \<Longrightarrow> length allowed' = length allowed"
  by (induction fuel arbitrary: candidate allowed) (auto simp: Let_def split: if_splits)

lemma parse_cron_item_length:
  "parse_cron_item p names sunday minimum maximum item allowed = Inr allowed' \<Longrightarrow> length allowed' = length allowed"
  by (auto simp: parse_cron_item_def simp del: allow_values.simps split: if_splits prod.splits sum.splits
      dest: length_allow_values)

lemma parse_cron_items_length:
  "parse_cron_items p names sunday minimum maximum items allowed = Inr allowed' \<Longrightarrow> length allowed' = length allowed"
  by (induction items arbitrary: allowed) (auto split: sum.splits dest: parse_cron_item_length)

lemma parse_cron_field_length:
  "parse_cron_field p names sunday minimum maximum value = Inr f \<Longrightarrow> length (cf_allowed f) = nat maximum + 1"
  by (auto simp: parse_cron_field_def split: if_splits sum.splits dest: parse_cron_items_length)

lemma cron_field_error_Inr [simp]: "cron_field_error field r = Inr f \<longleftrightarrow> r = Inr f"
  by (auto simp: cron_field_error_def split: sum.splits cron_failure.splits)

lemma cron_field_error_CronPanic [simp]: "cron_field_error field r = Inl CronPanic \<longleftrightarrow> r = Inl CronPanic"
  by (auto simp: cron_field_error_def split: sum.splits cron_failure.splits)

definition cron_shape :: "cron_schedule \<Rightarrow> bool" where
  "cron_shape s \<longleftrightarrow>
     length (cf_allowed (cs_minute s)) = 60 \<and> length (cf_allowed (cs_hour s)) = 24 \<and>
     length (cf_allowed (cs_day_of_month s)) = 32 \<and> length (cf_allowed (cs_month s)) = 13 \<and>
     length (cf_allowed (cs_day_of_week s)) = 8"

lemma parse_cron_fields_shape: "parse_cron_fields rt fs loc = Inr s \<Longrightarrow> cron_shape s"
  by (auto simp: parse_cron_fields_def cron_shape_def Let_def split: sum.splits dest!: parse_cron_field_length)

lemma parse_cron_schedule_fields:
  assumes "parse_cron_schedule rt expression timezone = Inr (s, cron, zone)"
  shows "length (fields_of expression) = 5" "zone = trim_space timezone" "cron = join_with (CHR '' '') (fields_of expression)"
    "\<exists>loc. cr_zones rt zone = Inr loc \<and> parse_cron_fields rt (fields_of expression) loc = Inr s"
  using assms by (auto simp: parse_cron_schedule_def Let_def split: if_splits sum.splits)

lemma parse_cron_schedule_shape:
  "parse_cron_schedule rt expression timezone = Inr (s, cron, zone) \<Longrightarrow> cron_shape s"
  using parse_cron_schedule_fields(4) parse_cron_fields_shape by blast

definition cron_reads_in_range :: "cron_schedule \<Rightarrow> int \<Rightarrow> bool" where
  "cron_reads_in_range s sec \<longleftrightarrow>
     (let l = local_second (cs_location s) sec; x = date_of_days (l div 86400) in
      local_minute l < length (cf_allowed (cs_minute s)) \<and> local_hour l < length (cf_allowed (cs_hour s)) \<and>
      dt_month x < length (cf_allowed (cs_month s)) \<and> dt_day x < length (cf_allowed (cs_day_of_month s)) \<and>
      weekday (l div 86400) < length (cf_allowed (cs_day_of_week s)))"

lemma local_fields: "local_minute l < 60" "local_hour l < 24"
  by (auto simp: local_minute_def local_hour_def nat_less_iff)

lemma weekday_less: "weekday d \<le> 6"
proof -
  have "(d + epoch_day + 1) mod 7 < 7" by simp
  then show ?thesis by (simp add: weekday_def del: pos_mod_bound)
qed

lemma cron_shape_reads: "cron_shape s \<Longrightarrow> cron_reads_in_range s sec"
  using local_fields [of "local_second (cs_location s) sec"]
    weekday_less [of "local_second (cs_location s) sec div 86400"]
    date_of_days_fields [of "local_second (cs_location s) sec div 86400"]
  by (simp add: cron_shape_def cron_reads_in_range_def Let_def)

subsection \<open>The values an item selects\<close>

definition step_values :: "bool \<Rightarrow> int \<Rightarrow> int \<Rightarrow> int \<Rightarrow> nat set" where
  "step_values sunday start stop step =
     (\<lambda>v. if sunday \<and> v = 7 then 0 else nat v) ` {v. start \<le> v \<and> v \<le> stop \<and> step dvd v - start}"

lemma wrap_int64_small: "in_int64 n \<Longrightarrow> wrap_int64 n = n"
  by (simp add: in_int64_def wrap_int64_def)

lemma step_values_empty: "stop < start \<Longrightarrow> step_values sunday start stop step = {}"
  by (auto simp: step_values_def)

lemma step_values_next:
  assumes "start \<le> stop" "1 \<le> step"
  shows "step_values sunday start stop step =
    insert (if sunday \<and> start = 7 then 0 else nat start) (step_values sunday (start + step) stop step)"
proof -
  have "{v. start \<le> v \<and> v \<le> stop \<and> step dvd v - start} =
      insert start {v. start + step \<le> v \<and> v \<le> stop \<and> step dvd v - (start + step)}"
  proof -
    have "step dvd v - (start + step) \<longleftrightarrow> step dvd v - start" for v
      by (metis diff_diff_eq dvd_diff_left_iff dvd_refl)
    moreover have "v = start \<or> start + step \<le> v" if "start \<le> v" "step dvd v - start" for v
      using that zdvd_imp_le [of step "v - start"] by (cases "v = start") auto
    ultimately show ?thesis using assms by auto
  qed
  then show ?thesis unfolding step_values_def by (simp only: image_insert)
qed

text \<open>The loop sets exactly the values of its range by steps, unless the step carries it past the largest integer.\<close>

lemma allow_values:
  assumes "0 \<le> candidate" "stop < int (length allowed)" "1 \<le> step" "stop + step < 9223372036854775808"
    "nat (int (length allowed) - candidate) < fuel" "sunday \<Longrightarrow> 0 < length allowed"
  shows "\<exists>allowed'. allow_values fuel sunday candidate stop step allowed = Inr allowed' \<and>
    (\<forall>i < length allowed. allowed' ! i \<longleftrightarrow> allowed ! i \<or> i \<in> step_values sunday candidate stop step)"
  using assms
proof (induction fuel arbitrary: candidate allowed)
  case (Suc fuel)
  show ?case
  proof (cases "stop < candidate")
    case True
    then show ?thesis by (simp add: step_values_empty)
  next
    case False
    define index where "index = (if sunday \<and> candidate = 7 then 0 else candidate)"
    have index: "0 \<le> index" "index < int (length allowed)" using False Suc.prems by (auto simp: index_def)
    have "in_int64 (candidate + step)" using False Suc.prems by (simp add: in_int64_def)
    then have next': "wrap_int64 (candidate + step) = candidate + step" by (rule wrap_int64_small)
    let ?allowed = "allowed[nat index := True]"
    have "\<exists>allowed'. allow_values fuel sunday (candidate + step) stop step ?allowed = Inr allowed' \<and>
      (\<forall>i < length ?allowed. allowed' ! i \<longleftrightarrow> ?allowed ! i \<or> i \<in> step_values sunday (candidate + step) stop step)"
      using False Suc.prems by (intro Suc.IH) auto
    moreover have "allow_values (Suc fuel) sunday candidate stop step allowed =
        allow_values fuel sunday (candidate + step) stop step ?allowed"
      using False index next' by (simp add: index_def [symmetric])
    moreover have "step_values sunday candidate stop step = insert (nat index) (step_values sunday (candidate + step) stop step)"
      using step_values_next [of candidate stop step sunday] False Suc.prems by (simp add: index_def)
    ultimately show ?thesis using index by (auto simp: nth_list_update)
  qed
qed simp

definition names_within :: "(string \<times> int) list \<Rightarrow> int \<Rightarrow> int \<Rightarrow> bool" where
  "names_within names minimum maximum \<longleftrightarrow> (\<forall>(name, v) \<in> set names. minimum \<le> v \<and> v \<le> maximum)"

lemma parse_cron_value_range:
  "parse_cron_value p names minimum maximum value = Inr n \<Longrightarrow>
   names_within names minimum maximum \<Longrightarrow> minimum \<le> n \<and> n \<le> maximum"
  by (fastforce simp: names_within_def parse_cron_value_def Let_def split: option.splits if_splits dest: map_of_SomeD)

lemma parse_cron_value_no_panic [simp]: "parse_cron_value p names minimum maximum value \<noteq> Inl CronPanic"
  by (auto simp: parse_cron_value_def Let_def split: option.splits)

lemma cron_step_ge_1: "cron_step t = Inr step \<Longrightarrow> 1 \<le> step"
  by (auto simp: cron_step_def split: option.splits if_splits)

lemma cron_step_no_panic [simp]: "cron_step t \<noteq> Inl CronPanic"
  by (auto simp: cron_step_def split: option.splits)

lemma cron_range_no_panic [simp]: "cron_range p names minimum maximum base has_step \<noteq> Inl CronPanic"
  by (auto simp: cron_range_def Let_def split: sum.splits prod.splits)

lemma cron_range_bounds:
  assumes "cron_range p names minimum maximum base has_step = Inr (start, stop)"
    "names_within names minimum maximum" "minimum \<le> maximum"
  shows "minimum \<le> start \<and> start \<le> stop \<and> stop \<le> maximum"
  using assms(1,3) parse_cron_value_range [OF _ assms(2)]
  by (fastforce simp: cron_range_def Let_def split: if_splits sum.splits prod.splits)

text \<open>An item is read without a panic unless its step overflows; then it allows the values its text denotes.\<close>

definition overflowing_step :: "int \<Rightarrow> string \<Rightarrow> bool" where
  "overflowing_step maximum item \<longleftrightarrow>
     (case cron_step (snd (cut (CHR ''/'') item)) of
        Inr step \<Rightarrow> 9223372036854775808 \<le> maximum + step
      | Inl _ \<Rightarrow> False)"

lemma parse_cron_item_panic:
  assumes "parse_cron_item p names sunday minimum maximum item allowed = Inl CronPanic"
    "names_within names minimum maximum" "0 \<le> minimum" "minimum \<le> maximum"
    "length allowed = nat maximum + 1"
  shows "overflowing_step maximum item"
proof (rule ccontr)
  assume small: "\<not> overflowing_step maximum item"
  obtain base text' where c: "cut (CHR ''/'') item = (base, text')" by fastforce
  from assms(1) obtain step start stop where
    s: "cron_step text' = Inr step" and r: "cron_range p names minimum maximum base (text' \<noteq> None) = Inr (start, stop)"
    and a: "allow_values (length allowed + 1) sunday start stop step allowed = Inl CronPanic"
    by (auto simp: parse_cron_item_def c simp del: allow_values.simps split: if_splits sum.splits)
  note b = cron_range_bounds [OF r assms(2) assms(4)]
  have "maximum + step < 9223372036854775808" using small by (simp add: overflowing_step_def c s)
  then have "\<exists>allowed'. allow_values (length allowed + 1) sunday start stop step allowed = Inr allowed' \<and>
      (\<forall>i < length allowed. allowed' ! i \<longleftrightarrow> allowed ! i \<or> i \<in> step_values sunday start stop step)"
    using b assms(3,5) cron_step_ge_1 [OF s] by (intro allow_values) auto
  with a show False by auto
qed

lemma parse_cron_items_panic:
  assumes "parse_cron_items p names sunday minimum maximum items allowed = Inl CronPanic"
    "names_within names minimum maximum" "0 \<le> minimum" "minimum \<le> maximum"
    "length allowed = nat maximum + 1"
  shows "\<exists>item \<in> set items. overflowing_step maximum item"
  using assms(1,5)
proof (induction items arbitrary: allowed)
  case (Cons item items)
  show ?case
  proof (cases "parse_cron_item p names sunday minimum maximum item allowed")
    case (Inl e)
    with Cons.prems(1) have "parse_cron_item p names sunday minimum maximum item allowed = Inl CronPanic" by simp
    from parse_cron_item_panic [OF this assms(2-4) Cons.prems(2)] show ?thesis by simp
  next
    case (Inr allowed')
    with Cons.prems have "\<exists>item \<in> set items. overflowing_step maximum item"
      by (intro Cons.IH [of allowed']) (auto dest: parse_cron_item_length)
    then show ?thesis by simp
  qed
qed simp

lemma parse_cron_field_panic:
  assumes "parse_cron_field p names sunday minimum maximum value = Inl CronPanic"
    "names_within names minimum maximum" "0 \<le> minimum" "minimum \<le> maximum"
  shows "\<exists>item \<in> set (split_on (CHR '','') value). overflowing_step maximum item"
proof (rule parse_cron_items_panic [OF _ assms(2-4)])
  show "parse_cron_items p names sunday minimum maximum (split_on (CHR '','') value) (replicate (nat maximum + 1) False) =
      Inl CronPanic"
    using assms(1) by (auto simp: parse_cron_field_def split: if_splits sum.splits)
qed simp_all

lemma overflowing_step_mono: "overflowing_step m item \<Longrightarrow> m \<le> n \<Longrightarrow> overflowing_step n item"
  by (auto simp: overflowing_step_def split: sum.splits)

end
