(* ===== verification/Tasks.thy ===== *)
theory Tasks
  imports Pipelines Cron Prompts Runs Cursor Run_Pages
begin

text \<open>
  The Tasks of \<^verbatim>\<open>tasks.go\<close>: normalisation of what the operator saves, creation and editing under a generation,
  archiving, the outcome contract, and the pages of Tasks. An index panic of the cron parser ends the request before its
  transaction begins; it is the error \<open>runtime_panic\<close> here, which no operation answers.
\<close>

definition runtime_panic :: service_error where
  "runtime_panic = \<lparr>se_code = ''panic'', se_message = ''runtime error: index out of range'', se_status = 0\<rparr>"

subsection \<open>Workflows of repositories\<close>

definition workflow_segment :: "string \<Rightarrow> bool" where
  "workflow_segment s \<longleftrightarrow> s \<noteq> '''' \<and> list_all (\<lambda>c. is_lower c \<or> is_decimal c \<or> c = CHR ''-'') s \<and>
     hd s \<noteq> CHR ''-'' \<and> last s \<noteq> CHR ''-''"

definition normalize_workflow_id :: "(string \<Rightarrow> bool) \<Rightarrow> string \<Rightarrow> string + string" where
  "normalize_workflow_id printable value =
     (let value = trim_space value in
      if 100 < length value \<or> \<not> list_all workflow_segment (split_on (CHR ''/'') value)
      then Inl (''workflow id '' @ go_quote printable value @ '' is invalid'')
      else Inr value)"

definition workflow_fallback :: string where "workflow_fallback = ''implement''"
definition workflow_fallback_path :: string where "workflow_fallback_path = ''.factory/workflows/implement.md''"

definition standard_build_prompt :: string where
  "standard_build_prompt =
     ''Complete the assigned software work item in this repository.'' @ newline @ newline @
     ''Follow every repository instruction. Read the live work item with the tools available on this Worker, refine the requested outcome, implement it completely, and verify it with the relevant tests, linters, builds, or application checks. Preserve unrelated changes.'' @ newline @ newline @
     ''If .factory/workflows/implement.md exists, read and follow that repository implementation workflow before acting.'' @ newline @ newline @
     ''For GitHub issue work, re-read the live issue before making changes. Continue only while it still has the needs-agent label and its GitHub Project status is Ready.'' @ newline @ newline @
     ''Create or update one pull request, handle its CI and review findings, and push the final committed work to the immutable Factory publish branch supplied for this Work. When enabled, Factory runs the independent review gate after this executor stage.'' @ newline"

definition find_workflow_entry :: "db \<Rightarrow> ident \<Rightarrow> string \<Rightarrow> workflow_snapshot option" where
  "find_workflow_entry d repository_id workflow_id =
     map_option we_workflow (find (\<lambda>e. we_repository_id e = repository_id \<and> wf_id (we_workflow e) = workflow_id) (workflow_entries d))"

definition workflow_snapshot_of :: "(string \<Rightarrow> bool) \<Rightarrow> db \<Rightarrow> ident \<Rightarrow> string \<Rightarrow> workflow_snapshot result" where
  "workflow_snapshot_of printable d repository_id workflow_id =
     (case normalize_workflow_id printable workflow_id of
        Inl e \<Rightarrow> Inl (invalid ''invalid_workflow_id'' e)
      | Inr workflow_id \<Rightarrow>
          case find_workflow_entry d repository_id workflow_id of
            None \<Rightarrow> Inl (conflict ''workflow_not_found'' (''workflow '' @ workflow_id @ '' is not available for this repository''))
          | Some w \<Rightarrow> Inr w)"

definition load_workflow_snapshot :: "(string \<Rightarrow> bool) \<Rightarrow> db \<Rightarrow> ident \<Rightarrow> string \<Rightarrow> workflow_snapshot result" where
  "load_workflow_snapshot printable d repository_id workflow_id =
     (if workflow_id = workflow_fallback then
        (case find_workflow_entry d repository_id workflow_id of
           Some w \<Rightarrow> Inr w
         | None \<Rightarrow> Inr (no_workflow\<lparr>wf_id := workflow_fallback, wf_title := ''Implementation'',
             wf_path := workflow_fallback_path, wf_instructions := standard_build_prompt\<rparr>))
      else workflow_snapshot_of printable d repository_id workflow_id)"

definition workflow_available :: "db \<Rightarrow> string \<Rightarrow> ident \<Rightarrow> bool" where
  "workflow_available d workflow_id repository_id \<longleftrightarrow>
     list_ex (\<lambda>c. wc_repository_id c = repository_id \<and> wc_status c = ''healthy'') (workflow_catalogs d) \<and>
     find_workflow_entry d repository_id workflow_id \<noteq> None"

definition validate_task_workflow :: "db \<Rightarrow> ident list \<Rightarrow> string \<Rightarrow> unit result" where
  "validate_task_workflow d repository_ids workflow_id =
     (if workflow_id = '''' \<or> list_all (workflow_available d workflow_id) repository_ids then Inr ()
      else Inl (conflict ''workflow_not_found''
        (''workflow '' @ workflow_id @ '' is not available for every selected repository'')))"

subsection \<open>Normalisation\<close>

definition default_task_concurrency :: int where "default_task_concurrency = 10"
definition default_task_timeout_seconds :: int where "default_task_timeout_seconds = 7200"
definition max_timeout_seconds :: int where "max_timeout_seconds = 28800"
definition max_task_repositories :: nat where "max_task_repositories = 100"
definition max_tasks :: nat where "max_tasks = 500"

definition supported_runtime :: "string \<Rightarrow> bool" where
  "supported_runtime v \<longleftrightarrow> v = ''pi'' \<or> v = ''codex'' \<or> v = ''claude-code''"

record save_task_request =
  vt_name :: string
  vt_prompt :: string
  vt_runtime :: string
  vt_execution_profile_id :: string
  vt_workflow_id :: string
  vt_timeout_seconds :: int
  vt_concurrency_limit :: int
  vt_repository_ids :: "string list"
  vt_schedule_enabled :: bool
  vt_cron :: string
  vt_timezone :: string
  vt_expected_generation :: int
  vt_outcome_contract :: string
  vt_pipeline_id :: string

record normalized_task =
  nt_name :: string
  nt_name_key :: string
  nt_prompt :: string
  nt_runtime :: string
  nt_execution_profile_id :: string
  nt_timeout_seconds :: int
  nt_concurrency_limit :: int
  nt_repository_ids :: "string list"
  nt_schedule_enabled :: bool
  nt_cron :: string
  nt_timezone :: string
  nt_next_due_at :: "int option"
  nt_outcome_contract :: "outcome_contract option"
  nt_pipeline_id :: string
  nt_workflow_id :: string

text \<open>What the code reads of the Go runtime: the cron tables and the case table.\<close>

record task_runtime = cron_runtime +
  cr_lower :: "string \<Rightarrow> string"

definition outcome_contract_of :: "string \<Rightarrow> outcome_contract option result" where
  "outcome_contract_of v =
     (if v = '''' then Inr None
      else if v = ''process_exit'' then Inr (Some OutcomeProcessExit)
      else if v = ''agent_update'' then Inr (Some OutcomeAgentUpdate)
      else Inl (invalid ''invalid_outcome_contract'' ''outcome_contract must be process_exit or agent_update''))"

fun normalize_repository_ids :: "string set \<Rightarrow> string list \<Rightarrow> string list result" where
  "normalize_repository_ids seen [] = Inr []"
| "normalize_repository_ids seen (i # is) =
     (let i = trim_space i in
      if i = '''' then Inl (invalid ''task_repository_required'' ''repository_ids cannot contain an empty value'')
      else if i \<in> seen then Inl (invalid ''duplicate_task_repository'' ''each repository may be selected once'')
      else and_then (normalize_repository_ids (insert i seen) is) (\<lambda>is. Inr (i # is)))"

definition schedule_error :: "cron_failure \<Rightarrow> service_error" where
  "schedule_error e = (case e of CronError text' \<Rightarrow> invalid ''invalid_task_schedule'' text' | CronPanic \<Rightarrow> runtime_panic)"

definition marshal_time_error :: string where
  "marshal_time_error =
     ''json: error calling MarshalJSON for type time.Time: Time.MarshalJSON: year outside of range [0,9999]''"

definition check_schedule_prompt :: "normalized_task \<Rightarrow> int \<Rightarrow> unit result" where
  "check_schedule_prompt v next' =
     (if \<not> nt_schedule_enabled v then Inr ()
      else case rfc3339_nano next' of
        None \<Rightarrow> Inl (invalid ''invalid_task_schedule'' marshal_time_error)
      | Some at \<Rightarrow>
          if max_resolved_prompt_bytes < length (resolve_task_schedule_prompt (nt_prompt v) at (nt_cron v) (nt_timezone v))
          then Inl (invalid ''task_schedule_prompt_too_large'' ''shorten the prompt before enabling its schedule'')
          else Inr ())"

definition normalize_schedule :: "task_runtime \<Rightarrow> int \<Rightarrow> normalized_task \<Rightarrow> normalized_task result" where
  "normalize_schedule rt now v =
     (if nt_schedule_enabled v \<or> nt_cron v \<noteq> '''' \<or> nt_timezone v \<noteq> '''' then
        (case parse_cron_schedule (cron_runtime.truncate rt) (nt_cron v) (nt_timezone v) of
           Inl e \<Rightarrow> Inl (schedule_error e)
         | Inr (schedule, cron, timezone) \<Rightarrow>
             case cron_next schedule now of
               Inl e \<Rightarrow> Inl (schedule_error e)
             | Inr next' \<Rightarrow>
                 let v = v\<lparr>nt_cron := cron, nt_timezone := timezone, nt_next_due_at := Some next'\<rparr> in
                 and_then (check_schedule_prompt v next') (\<lambda>_. Inr v))
      else Inr (v\<lparr>nt_cron := '''', nt_timezone := ''''\<rparr>))"

definition normalize_task_workflow_id :: "(string \<Rightarrow> bool) \<Rightarrow> string \<Rightarrow> string result" where
  "normalize_task_workflow_id printable v =
     (let v = trim_space v in
      if v = '''' then Inr ''''
      else case normalize_workflow_id printable v of
        Inl e \<Rightarrow> Inl (invalid ''invalid_workflow_id'' e)
      | Inr v \<Rightarrow> Inr v)"

definition or_default :: "'a \<Rightarrow> 'a \<Rightarrow> 'a \<Rightarrow> 'a" where
  "or_default zero v standard = (if v = zero then standard else v)"

definition check_task_fields :: "normalized_task \<Rightarrow> string \<Rightarrow> normalized_task result" where
  "check_task_fields v contract =
     (if nt_name v = '''' \<or> 200 < rune_count (nt_name v)
      then Inl (invalid ''invalid_task_name'' ''name is required and limited to 200 characters'')
      else if nt_prompt v = '''' \<or> max_task_prompt_bytes < length (nt_prompt v)
      then Inl (invalid ''invalid_task_prompt'' ''prompt is required and limited to 64 KiB'')
      else if \<not> supported_runtime (nt_runtime v)
      then Inl (invalid ''invalid_task_runtime'' ''runtime is not supported'')
      else and_then (outcome_contract_of contract) (\<lambda>contract.
        if nt_timeout_seconds v < 1 \<or> max_timeout_seconds < nt_timeout_seconds v
        then Inl (invalid ''invalid_task_timeout'' ''timeout_seconds must be between 1 and 28800'')
        else if nt_concurrency_limit v < 1 \<or> 100 < nt_concurrency_limit v
        then Inl (invalid ''invalid_task_concurrency'' ''concurrency_limit must be between 1 and 100'')
        else if nt_repository_ids v = [] \<and> nt_schedule_enabled v
        then Inl (invalid ''task_repository_required'' ''select at least one repository before enabling a schedule'')
        else if max_task_repositories < length (nt_repository_ids v)
        then Inl (invalid ''too_many_task_repositories'' ''a Task is limited to 100 repositories'')
        else and_then (normalize_repository_ids {} (nt_repository_ids v)) (\<lambda>ids.
          Inr (v\<lparr>nt_repository_ids := ids, nt_outcome_contract := contract\<rparr>))))"

definition normalize_task :: "task_runtime \<Rightarrow> int \<Rightarrow> save_task_request \<Rightarrow> normalized_task result" where
  "normalize_task rt now input =
     and_then (normalize_task_workflow_id (cr_printable rt) (vt_workflow_id input)) (\<lambda>workflow_id.
       let name = trim_space (vt_name input); profile = trim_space (vt_execution_profile_id input) in
       and_then (check_task_fields
         \<lparr>nt_name = name, nt_name_key = normalize_title_key (cr_lower rt) name,
          nt_prompt = trim_space (vt_prompt input),
          nt_runtime = or_default '''' (to_lower_hostname (trim_space (vt_runtime input))) ''codex'',
          nt_execution_profile_id = (if profile = persistent_auto_profile_id then '''' else profile),
          nt_timeout_seconds = or_default 0 (vt_timeout_seconds input) default_task_timeout_seconds,
          nt_concurrency_limit = or_default 0 (vt_concurrency_limit input) default_task_concurrency,
          nt_repository_ids = vt_repository_ids input, nt_schedule_enabled = vt_schedule_enabled input,
          nt_cron = trim_space (vt_cron input), nt_timezone = trim_space (vt_timezone input), nt_next_due_at = None,
          nt_outcome_contract = None,
          nt_pipeline_id = or_default '''' (trim_space (vt_pipeline_id input)) default_pipeline_id,
          nt_workflow_id = workflow_id\<rparr>
         (trim_space (vt_outcome_contract input))) (\<lambda>v. normalize_schedule rt now v))"

subsection \<open>Checks against the store\<close>

definition repository_unusable :: "db \<Rightarrow> repository \<Rightarrow> bool" where
  "repository_unusable d r \<longleftrightarrow>
     rp_centrally_managed r \<and> \<not> rp_enabled r \<or>
     \<not> rp_centrally_managed r \<and> \<not> list_ex (\<lambda>x. wr_repository_id x = rp_id r \<and> wr_advertised x) (worker_repositories d)"

fun validate_task_repositories :: "db \<Rightarrow> ident list \<Rightarrow> unit result" where
  "validate_task_repositories d [] = Inr ()"
| "validate_task_repositories d (i # is) =
     (case find_repository d i of
        None \<Rightarrow> Inl (invalid ''task_repository_not_found'' ''one selected repository does not exist'')
      | Some r \<Rightarrow>
          if repository_unusable d r
          then Inl (conflict ''task_repository_unavailable''
            ''every selected repository must be enabled or advertised by a Worker'')
          else validate_task_repositories d is)"

definition profile_not_found :: service_error where
  "profile_not_found = invalid ''execution_profile_not_found'' ''the selected execution profile does not exist''"

definition validate_task_execution_profile :: "db \<Rightarrow> string \<Rightarrow> unit result" where
  "validate_task_execution_profile d i =
     (if i = '''' \<or> i = persistent_auto_profile_id \<or> i \<in> set (execution_profile_ids d) then Inr ()
      else Inl profile_not_found)"

definition validate_outcome_contract_backend :: "outcome_contract \<Rightarrow> string \<Rightarrow> unit result" where
  "validate_outcome_contract_backend contract profile =
     (if contract \<noteq> OutcomeAgentUpdate \<or> profile = '''' \<or> profile = persistent_auto_profile_id then Inr ()
      else Inl (conflict ''agent_update_backend_unsupported'' ''agent_update Work requires a persistent Worker backend''))"

definition find_task :: "db \<Rightarrow> ident \<Rightarrow> task_row option" where
  "find_task d i = find (\<lambda>t. tk_id t = i) (task_rows d)"

definition replace_task_repositories :: "ident \<Rightarrow> ident list \<Rightarrow> db \<Rightarrow> db" where
  "replace_task_repositories i ids d =
     d\<lparr>task_repositories := delete_where (\<lambda>p. tp_task_id p = i) (task_repositories d) @
       map (\<lambda>(position, r). \<lparr>tp_task_id = i, tp_position = position, tp_repository_id = r\<rparr>) (enumerate 0 ids)\<rparr>"

definition task_schedule_health :: "bool \<Rightarrow> string" where
  "task_schedule_health enabled = (if enabled then ''healthy'' else ''disabled'')"

subsection \<open>Reading a Task\<close>

record task_view =
  ta_id :: ident
  ta_name :: string
  ta_prompt :: string
  ta_prompt_preview :: string
  ta_runtime :: string
  ta_execution_profile_id :: string
  ta_workflow_id :: string
  ta_timeout_seconds :: nat
  ta_concurrency_limit :: nat
  ta_generation :: nat
  ta_outcome_contract :: outcome_contract
  ta_pipeline_id :: ident
  ta_pipeline_name :: string
  ta_archived :: bool
  ta_read_only :: bool
  ta_repositories :: "task_repository list"
  ta_repository_count :: nat
  ta_schedule_enabled :: bool
  ta_cron :: string
  ta_timezone :: string
  ta_next_due_at :: "int option"
  ta_pending_due_at :: "int option"
  ta_health_status :: string
  ta_health_code :: string
  ta_health_message :: string
  ta_last_run_state :: string
  ta_created_at :: int
  ta_updated_at :: int

definition task_pipeline_id :: "task_row \<Rightarrow> ident" where
  "task_pipeline_id t = coalesce (tk_pipeline_id t) default_pipeline_id"

definition selected_repositories :: "db \<Rightarrow> ident \<Rightarrow> task_repository list" where
  "selected_repositories d i =
     List.map_filter (\<lambda>p. map_option (\<lambda>r. \<lparr>tr_id = rp_id r, tr_remote_identity = rp_remote_identity r\<rparr>)
         (find_repository d (tp_repository_id p)))
       (sort_key tp_position (filter (\<lambda>p. tp_task_id p = i) (task_repositories d)))"

definition task_reply :: "db \<Rightarrow> ident \<Rightarrow> task_view result" where
  "task_reply d i =
     (case find_task d i of
        None \<Rightarrow> Inl err_not_found
      | Some t \<Rightarrow>
          case find_pipeline d (task_pipeline_id t) of
            None \<Rightarrow> Inl err_not_found
          | Some p \<Rightarrow>
              if tk_migration_only t then Inl err_not_found
              else
                let rs = selected_repositories d i in
                Inr \<lparr>ta_id = tk_id t, ta_name = tk_name t, ta_prompt = tk_prompt t, ta_prompt_preview = '''',
                  ta_runtime = tk_runtime t, ta_execution_profile_id = coalesce (tk_execution_profile_id t) '''',
                  ta_workflow_id = tk_workflow_id t, ta_timeout_seconds = tk_timeout_seconds t,
                  ta_concurrency_limit = tk_concurrency_limit t, ta_generation = tk_generation t,
                  ta_outcome_contract = tk_outcome_contract t, ta_pipeline_id = task_pipeline_id t,
                  ta_pipeline_name = pl_name p, ta_archived = tk_archived t, ta_read_only = tk_read_only t,
                  ta_repositories = rs, ta_repository_count = length rs, ta_schedule_enabled = tk_schedule_enabled t,
                  ta_cron = coalesce (tk_cron t) '''', ta_timezone = coalesce (tk_timezone t) '''',
                  ta_next_due_at = map_option from_millis (tk_next_due_at t),
                  ta_pending_due_at = map_option from_millis (tk_pending_due_at t),
                  ta_health_status = tk_health_status t, ta_health_code = tk_health_code t,
                  ta_health_message = tk_health_message t, ta_last_run_state = last_run_state d i,
                  ta_created_at = from_millis (tk_created_at t), ta_updated_at = from_millis (tk_updated_at t)\<rparr>)"

text \<open>\<^verbatim>\<open>string([]rune(s))\<close> replaces an invalid byte by the replacement rune.\<close>

definition rune_text :: "string \<Rightarrow> string" where
  "rune_text q = (case q of [c] \<Rightarrow> if byte c < 128 then q else chars_of [239, 191, 189] | _ \<Rightarrow> q)"

definition task_summary :: "task_view \<Rightarrow> task_view" where
  "task_summary t =
     t\<lparr>ta_prompt_preview :=
         (let runes = utf8_chunks (ta_prompt t) in
          if 180 < length runes then concat (map rune_text (take 180 runes)) @ chars_of [226, 128, 166]
          else ta_prompt t),
       ta_prompt := '''', ta_repository_count := length (ta_repositories t), ta_repositories := []\<rparr>"

record task_page =
  tz_tasks :: "task_view list"
  tz_next_cursor :: string

definition tasks_after :: "int \<times> ident \<Rightarrow> task_row list \<Rightarrow> task_row list" where
  "tasks_after cursor ts =
     rev (sort_key (\<lambda>t. (tk_updated_at t, tk_id t)) (filter (\<lambda>t. fst cursor = 0 \<or>
       tk_updated_at t < fst cursor \<or> tk_updated_at t = fst cursor \<and> tk_id t < snd cursor) ts))"

fun task_replies :: "db \<Rightarrow> task_row list \<Rightarrow> task_view list result" where
  "task_replies d [] = Inr []"
| "task_replies d (t # ts) =
     and_then (task_reply d (tk_id t)) (\<lambda>v. and_then (task_replies d ts) (\<lambda>vs. Inr (task_summary v # vs)))"

definition tasks_page :: "db \<Rightarrow> bool \<Rightarrow> int \<Rightarrow> string \<Rightarrow> task_page result" where
  "tasks_page d include_archived limit cursor =
     and_then (page_limit limit) (\<lambda>n.
     and_then (decode_run_cursor cursor) (\<lambda>c.
       let rows = filter (\<lambda>t. \<not> tk_migration_only t \<and> (include_archived \<or> \<not> tk_archived t)) (task_rows d);
           fetched = take (n + 1) (tasks_after c rows); shown = take n fetched in
       and_then (task_replies d shown) (\<lambda>vs.
         Inr \<lparr>tz_tasks = vs, tz_next_cursor =
           (if n < length fetched then encode_run_cursor (tk_updated_at (last shown)) (tk_id (last shown)) else '''')\<rparr>)))"

subsection \<open>Creating and editing\<close>

definition task_name_conflict :: service_error where
  "task_name_conflict = conflict ''task_name_conflict'' ''a Task with this name already exists''"

definition new_task_row :: "ident \<Rightarrow> millis \<Rightarrow> normalized_task \<Rightarrow> task_row" where
  "new_task_row i now v =
     \<lparr>tk_id = i, tk_name = nt_name v, tk_name_key = nt_name_key v, tk_prompt = nt_prompt v, tk_runtime = nt_runtime v,
      tk_timeout_seconds = nat (nt_timeout_seconds v), tk_concurrency_limit = nat (nt_concurrency_limit v),
      tk_execution_profile_id = null_string (nt_execution_profile_id v),
      tk_outcome_contract = coalesce (nt_outcome_contract v) OutcomeProcessExit, tk_pipeline_id = Some (nt_pipeline_id v),
      tk_workflow_id = nt_workflow_id v, tk_generation = 1, tk_archived = False, tk_migration_only = False,
      tk_read_only = False, tk_schedule_enabled = nt_schedule_enabled v, tk_cron = null_string (nt_cron v),
      tk_timezone = null_string (nt_timezone v),
      tk_next_due_at = (if nt_schedule_enabled v then map_option unix_milli (nt_next_due_at v) else None),
      tk_pending_due_at = None, tk_pending_snapshot = None, tk_pending_repository_ids = [], tk_schedule_retry_at = None,
      tk_schedule_retry_count = 0, tk_last_discarded_due_at = None,
      tk_health_status = task_schedule_health (nt_schedule_enabled v), tk_health_code = '''', tk_health_message = '''',
      tk_created_at = now, tk_updated_at = now\<rparr>"

definition create_task_tx :: "task_runtime \<Rightarrow> int \<Rightarrow> ident \<Rightarrow> db \<Rightarrow> save_task_request \<Rightarrow> (ident \<times> db) result" where
  "create_task_tx rt now new_id d input =
     and_then (normalize_task rt now input) (\<lambda>v.
       if max_tasks \<le> count_where (\<lambda>t. \<not> tk_migration_only t \<and> \<not> tk_read_only t) (task_rows d)
       then Inl (conflict ''task_limit_reached'' ''Factory is limited to 500 Tasks'')
       else
         and_then (validate_task_repositories d (nt_repository_ids v)) (\<lambda>_.
         and_then (validate_task_execution_profile d (nt_execution_profile_id v)) (\<lambda>_.
         and_then (validate_task_workflow d (nt_repository_ids v) (nt_workflow_id v)) (\<lambda>_.
         and_then (load_pipeline_snapshot d (nt_pipeline_id v)) (\<lambda>_.
         and_then (validate_outcome_contract_backend (coalesce (nt_outcome_contract v) OutcomeProcessExit)
             (nt_execution_profile_id v)) (\<lambda>_.
           if nt_name_key v \<in> tk_name_key ` set (task_rows d) then Inl task_name_conflict
           else Inr (new_id, replace_task_repositories new_id (nt_repository_ids v)
             (d\<lparr>task_rows := task_rows d @ [new_task_row new_id (unix_milli now) v]\<rparr>))))))))"

definition create_task :: "task_runtime \<Rightarrow> int \<Rightarrow> ident \<Rightarrow> db \<Rightarrow> save_task_request \<Rightarrow> task_view result \<times> db" where
  "create_task rt now new_id d input = committed d (create_task_tx rt now new_id d input) task_reply"

definition task_generation_conflict :: service_error where
  "task_generation_conflict = conflict ''task_generation_conflict'' ''the Task changed; refresh and try again''"

definition task_generation_required :: service_error where
  "task_generation_required = invalid ''task_generation_required'' ''expected_generation is required''"

definition outcome_conversion_invalid :: service_error where
  "outcome_conversion_invalid = conflict ''outcome_contract_conversion_invalid''
     ''agent_update cannot be converted back to process_exit''"

definition update_task_row :: "millis \<Rightarrow> normalized_task \<Rightarrow> outcome_contract \<Rightarrow> task_row \<Rightarrow> task_row" where
  "update_task_row now v contract t =
     (let pending = tk_pending_due_at t \<noteq> None; enabled = nt_schedule_enabled v;
          preserve = (pending \<and> tk_schedule_retry_at t = None \<and> (tk_health_status t = ''blocked'' \<or> tk_health_code t \<noteq> ''''))
      in t\<lparr>tk_name := nt_name v, tk_name_key := nt_name_key v, tk_prompt := nt_prompt v, tk_runtime := nt_runtime v,
        tk_timeout_seconds := nat (nt_timeout_seconds v), tk_concurrency_limit := nat (nt_concurrency_limit v),
        tk_execution_profile_id := null_string (nt_execution_profile_id v), tk_outcome_contract := contract,
        tk_pipeline_id := Some (nt_pipeline_id v), tk_workflow_id := nt_workflow_id v,
        tk_generation := tk_generation t + 1, tk_schedule_enabled := enabled,
        tk_cron := (if pending \<and> \<not> enabled then tk_cron t else null_string (nt_cron v)),
        tk_timezone := (if pending \<and> \<not> enabled then tk_timezone t else null_string (nt_timezone v)),
        tk_next_due_at := (if pending then tk_next_due_at t
          else if enabled then map_option unix_milli (nt_next_due_at v) else None),
        tk_health_status := (if enabled \<and> preserve then ''blocked'' else if enabled then ''healthy'' else ''disabled''),
        tk_health_code := (if preserve then tk_health_code t else ''''),
        tk_health_message := (if preserve then tk_health_message t else ''''), tk_updated_at := now\<rparr>)"

definition update_task_tx :: "task_runtime \<Rightarrow> int \<Rightarrow> db \<Rightarrow> ident \<Rightarrow> save_task_request \<Rightarrow> (ident \<times> db) result" where
  "update_task_tx rt now d i input =
     and_then (normalize_task rt now input) (\<lambda>v.
       if vt_expected_generation input < 1 then Inl task_generation_required
       else
         and_then (validate_task_repositories d (nt_repository_ids v)) (\<lambda>_.
         and_then (validate_task_execution_profile d (nt_execution_profile_id v)) (\<lambda>_.
           case find_task d i of
             None \<Rightarrow> Inl err_not_found
           | Some t \<Rightarrow>
               if tk_migration_only t then Inl (conflict ''task_read_only'' ''migration history Tasks are read-only'')
               else if tk_read_only t then Inl (conflict ''task_read_only'' ''historical Task revisions are read-only'')
               else if tk_archived t \<and> nt_schedule_enabled v
               then Inl (conflict ''task_archived'' ''an archived Task cannot be scheduled'')
               else
                 let contract = coalesce (nt_outcome_contract v) (tk_outcome_contract t);
                     v = v\<lparr>nt_pipeline_id := (if trim_space (vt_pipeline_id input) = '''' then task_pipeline_id t
                             else nt_pipeline_id v),
                           nt_workflow_id := (if trim_space (vt_workflow_id input) = '''' then tk_workflow_id t
                             else nt_workflow_id v)\<rparr> in
                 and_then (validate_task_workflow d (nt_repository_ids v) (nt_workflow_id v)) (\<lambda>_.
                 and_then (load_pipeline_snapshot d (nt_pipeline_id v)) (\<lambda>_.
                   if tk_outcome_contract t = OutcomeAgentUpdate \<and> contract = OutcomeProcessExit
                   then Inl outcome_conversion_invalid
                   else and_then (validate_outcome_contract_backend contract (nt_execution_profile_id v)) (\<lambda>_.
                     if int (tk_generation t) \<noteq> vt_expected_generation input then Inl task_generation_conflict
                     else if list_ex (\<lambda>x. tk_id x \<noteq> i \<and> tk_name_key x = nt_name_key v) (task_rows d)
                     then Inl task_name_conflict
                     else Inr (i, replace_task_repositories i (nt_repository_ids v)
                       (d\<lparr>task_rows := update_where (\<lambda>x. tk_id x = i) (update_task_row (unix_milli now) v contract)
                          (task_rows d)\<rparr>))))))))"

definition update_task :: "task_runtime \<Rightarrow> int \<Rightarrow> db \<Rightarrow> ident \<Rightarrow> save_task_request \<Rightarrow> task_view result \<times> db" where
  "update_task rt now d i input = committed d (update_task_tx rt now d i input) task_reply"

definition archive_task_row :: "bool \<Rightarrow> millis \<Rightarrow> task_row \<Rightarrow> task_row" where
  "archive_task_row archived now t =
     t\<lparr>tk_archived := archived, tk_generation := tk_generation t + 1,
       tk_schedule_enabled := (if archived then False else tk_schedule_enabled t),
       tk_next_due_at := (if archived then None else tk_next_due_at t),
       tk_health_status := (if archived then ''disabled'' else tk_health_status t), tk_updated_at := now\<rparr>"

definition set_task_archived_tx :: "int \<Rightarrow> db \<Rightarrow> ident \<Rightarrow> bool option \<Rightarrow> int \<Rightarrow> (ident \<times> db) result" where
  "set_task_archived_tx now d i archived generation =
     (case archived of
        None \<Rightarrow> Inl (invalid ''task_archived_required'' ''archived is required'')
      | Some archived \<Rightarrow>
          if generation < 1 then Inl task_generation_required
          else
            case find_task d i of
              None \<Rightarrow> Inl err_not_found
            | Some t \<Rightarrow>
                if int (tk_generation t) = generation \<and> \<not> tk_migration_only t \<and> \<not> tk_read_only t
                then Inr (i, d\<lparr>task_rows := update_where (\<lambda>x. tk_id x = i) (archive_task_row archived (unix_milli now))
                  (task_rows d)\<rparr>)
                else if tk_read_only t then Inl (conflict ''task_read_only'' ''historical Task revisions are read-only'')
                else Inl task_generation_conflict)"

definition set_task_archived :: "int \<Rightarrow> db \<Rightarrow> ident \<Rightarrow> bool option \<Rightarrow> int \<Rightarrow> task_view result \<times> db" where
  "set_task_archived now d i archived generation =
     committed d (set_task_archived_tx now d i archived generation) task_reply"

definition set_task_outcome_contract_tx :: "int \<Rightarrow> db \<Rightarrow> ident \<Rightarrow> string \<Rightarrow> int \<Rightarrow> (ident \<times> db) result" where
  "set_task_outcome_contract_tx now d i contract generation =
     (case outcome_contract_of contract of
        Inl e \<Rightarrow> Inl e
      | Inr None \<Rightarrow> Inl (invalid ''invalid_outcome_contract'' ''outcome_contract must be process_exit or agent_update'')
      | Inr (Some contract) \<Rightarrow>
          if generation < 1 then Inl task_generation_required
          else
            case find_task d i of
              None \<Rightarrow> Inl err_not_found
            | Some t \<Rightarrow>
                if int (tk_generation t) \<noteq> generation then Inl task_generation_conflict
                else if tk_archived t \<or> tk_migration_only t \<or> tk_read_only t
                then Inl (conflict ''task_read_only'' ''only an active editable Task can change outcome contract'')
                else if tk_outcome_contract t = contract then Inr (i, d)
                else if tk_outcome_contract t = OutcomeAgentUpdate \<and> contract = OutcomeProcessExit
                then Inl outcome_conversion_invalid
                else and_then (validate_outcome_contract_backend contract (coalesce (tk_execution_profile_id t) '''')) (\<lambda>_.
                  Inr (i, d\<lparr>task_rows := update_where (\<lambda>x. tk_id x = i)
                    (\<lambda>x. x\<lparr>tk_outcome_contract := contract, tk_generation := tk_generation x + 1,
                       tk_updated_at := unix_milli now\<rparr>) (task_rows d)\<rparr>)))"

definition set_task_outcome_contract :: "int \<Rightarrow> db \<Rightarrow> ident \<Rightarrow> string \<Rightarrow> int \<Rightarrow> task_view result \<times> db" where
  "set_task_outcome_contract now d i contract generation =
     committed d (set_task_outcome_contract_tx now d i contract generation) task_reply"

end
