(* ===== verification/Admission.thy ===== *)
theory Admission
  imports Tasks Claims
begin

text \<open>
  \<^verbatim>\<open>RunTask\<close> and \<^verbatim>\<open>admitTask\<close> of tasks.go: a Run is admitted from a Task, or from the snapshot that the schedule
  froze, with one Work item per repository, the rendered stages of its Pipeline and, while the Run has room, a Worker.
  The ids that \<^verbatim>\<open>newID\<close> draws are arguments. JSON columns hold the value whose JSON the code stores.
\<close>

subsection \<open>The digest of a request\<close>

definition json_nat :: "nat \<Rightarrow> string" where
  "json_nat n = show_nat n"

definition json_omitzero :: "string \<Rightarrow> nat \<Rightarrow> (string \<times> string) list" where
  "json_omitzero name n = (if n = 0 then [] else [(name, json_nat n)])"

fun outcome_contract_text :: "outcome_contract \<Rightarrow> string" where
  "outcome_contract_text OutcomeProcessExit = ''process_exit''"
| "outcome_contract_text OutcomeAgentUpdate = ''agent_update''"

fun backend_text :: "execution_backend \<Rightarrow> string" where
  "backend_text BackendPersistent = ''persistent''"
| "backend_text BackendFakeCloudRun = ''fake_cloud_run''"

definition json_workflow :: "workflow_snapshot \<Rightarrow> string" where
  "json_workflow w = json_object
     (json_field ''id'' (json_string (wf_id w)) @ json_field ''title'' (json_string (wf_title w)) @
      json_omitempty ''description'' (wf_description w) @ json_field ''path'' (json_string (wf_path w)) @
      json_field ''commit_sha'' (json_string (wf_commit_sha w)) @ json_field ''digest'' (json_string (wf_digest w)) @
      json_field ''instructions'' (json_string (wf_instructions w)))"

definition json_pipeline :: "pipeline_snapshot \<Rightarrow> string" where
  "json_pipeline p = json_object
     (json_field ''id'' (json_string (pn_id p)) @ json_field ''name'' (json_string (pn_name p)) @
      json_field ''generation'' (json_nat (pn_generation p)) @
      json_field ''stages'' (json_array (map (\<lambda>s. json_object
        (json_field ''position'' (json_nat (pg_position s)) @ json_field ''name'' (json_string (pg_name s)) @
         json_field ''prompt'' (json_string (pg_prompt s)))) (pn_stages p))))"

definition json_task_snapshot :: "task_snapshot \<Rightarrow> string" where
  "json_task_snapshot t = json_object
     (json_field ''id'' (json_string (ts_id t)) @ json_field ''name'' (json_string (ts_name t)) @
      json_omitempty ''prompt'' (ts_prompt t) @ json_field ''runtime'' (json_string (ts_runtime t)) @
      json_omitempty ''execution_profile_id'' (ts_execution_profile_id t) @
      json_omitempty ''workflow_id'' (ts_workflow_id t) @ json_omitzero ''timeout_seconds'' (ts_timeout_seconds t) @
      json_omitzero ''concurrency_limit'' (ts_concurrency_limit t) @
      json_field ''generation'' (json_nat (ts_generation t)) @
      json_field ''outcome_contract'' (json_string (outcome_contract_text (ts_outcome_contract t))) @
      json_field ''workflow'' (json_workflow (ts_workflow t)) @
      (if ts_repository_workflows t = [] then []
       else json_field ''repository_workflows'' (json_object
         (map (\<lambda>(i, w). (i, json_workflow w)) (sort_key fst (ts_repository_workflows t))))) @
      json_field ''pipeline'' (json_pipeline (ts_pipeline t)) @
      (if ts_repositories t = [] then []
       else json_field ''repositories'' (json_array (map (\<lambda>r. json_object
         (json_field ''id'' (json_string (tr_id r)) @
          json_field ''remote_identity'' (json_string (tr_remote_identity r)))) (ts_repositories t)))) @
      json_omitempty ''cron'' (ts_schedule_cron t) @ json_omitempty ''timezone'' (ts_schedule_timezone t))"

definition json_execution_snapshot :: "execution_snapshot \<Rightarrow> string" where
  "json_execution_snapshot e = json_object
     (json_field ''profile_id'' (json_string (es_profile_id e)) @
      json_field ''profile_version'' (json_nat (es_profile_version e)) @
      json_field ''backend'' (json_string (backend_text (es_backend e))) @
      json_field ''runtime'' (json_string (es_runtime e)) @ json_field ''provider'' (json_string (es_provider e)) @
      json_field ''model'' (json_string (es_model e)) @ json_field ''timeout_seconds'' (json_nat (es_timeout_seconds e)) @
      json_field ''resource_class'' (json_string (es_resource_class e)) @
      json_field ''commit_resolution_policy'' (json_string (es_commit_resolution_policy e)))"

text \<open>The digest ignores that marshalling fails, which an instant after the year 9999 makes it do.\<close>

definition admission_digest ::
  "string \<Rightarrow> ident \<Rightarrow> string \<Rightarrow> millis option \<Rightarrow> task_snapshot \<Rightarrow> execution_snapshot \<Rightarrow> digest" where
  "admission_digest request_key task_id source scheduled snapshot execution =
     (let body = (\<lambda>at. json_object
        (json_field ''request_key'' (json_string request_key) @ json_field ''task_id'' (json_string task_id) @
         json_field ''source'' (json_string source) @ at @ json_field ''snapshot'' (json_task_snapshot snapshot) @
         json_field ''execution'' (json_execution_snapshot execution))) in
      sum256 (case scheduled of
        None \<Rightarrow> body []
      | Some m \<Rightarrow>
          (case rfc3339_nano (from_millis m) of
             None \<Rightarrow> ''''
           | Some at \<Rightarrow> body (json_field ''scheduled_at'' (json_string at)))))"

subsection \<open>The snapshot\<close>

definition task_snapshot_conflict :: "ident \<Rightarrow> service_error" where
  "task_snapshot_conflict workflow_id =
     conflict ''workflow_not_found'' (''workflow '' @ workflow_id @ '' is not available for this repository'')"

definition task_workflow_snapshot ::
  "(ident \<times> workflow_snapshot) list \<Rightarrow> ident \<Rightarrow> string \<Rightarrow> workflow_snapshot result" where
  "task_workflow_snapshot workflows repository_id workflow_id =
     (case map_of workflows repository_id of
        None \<Rightarrow> Inl (task_snapshot_conflict workflow_id)
      | Some w \<Rightarrow> if wf_id w \<noteq> workflow_id then Inl (task_snapshot_conflict workflow_id) else Inr w)"

fun load_workflow_snapshots ::
  "(string \<Rightarrow> bool) \<Rightarrow> db \<Rightarrow> string \<Rightarrow> task_repository list \<Rightarrow> (ident \<times> workflow_snapshot) list result" where
  "load_workflow_snapshots printable d workflow_id [] = Inr []"
| "load_workflow_snapshots printable d workflow_id (r # rs) =
     and_then (load_workflow_snapshot printable d (tr_id r) workflow_id) (\<lambda>w.
     and_then (load_workflow_snapshots printable d workflow_id rs) (\<lambda>ws. Inr ((tr_id r, w) # ws)))"

text \<open>The first workflow that has an id becomes the snapshot's own.\<close>

definition first_workflow :: "workflow_snapshot \<Rightarrow> (ident \<times> workflow_snapshot) list \<Rightarrow> workflow_snapshot" where
  "first_workflow w ws = fold (\<lambda>(i, x) w. if wf_id w = '''' then x else w) ws w"

definition with_workflows :: "(ident \<times> workflow_snapshot) list \<Rightarrow> task_snapshot \<Rightarrow> task_snapshot" where
  "with_workflows ws t =
     t\<lparr>ts_repository_workflows := ws, ts_workflow := first_workflow (ts_workflow t) ws\<rparr>"

definition current_task_snapshot :: "db \<Rightarrow> task_row \<Rightarrow> pipeline_snapshot \<Rightarrow> task_snapshot" where
  "current_task_snapshot d t p =
     \<lparr>ts_id = tk_id t, ts_name = tk_name t, ts_prompt = tk_prompt t, ts_runtime = tk_runtime t,
      ts_execution_profile_id = coalesce (tk_execution_profile_id t) '''', ts_workflow_id = tk_workflow_id t,
      ts_timeout_seconds = tk_timeout_seconds t, ts_concurrency_limit = tk_concurrency_limit t,
      ts_generation = tk_generation t, ts_outcome_contract = tk_outcome_contract t, ts_workflow = no_workflow,
      ts_repository_workflows = [], ts_pipeline = p, ts_repositories = selected_repositories d (tk_id t),
      ts_schedule_cron = '''', ts_schedule_timezone = ''''\<rparr>"

definition task_archived_conflict :: service_error where
  "task_archived_conflict = conflict ''task_archived'' ''archived Tasks cannot start Runs''"

definition task_read_only_conflict :: service_error where
  "task_read_only_conflict = conflict ''task_read_only'' ''historical Task revisions cannot start Runs''"

definition occurrence_conflict :: service_error where
  "occurrence_conflict = conflict ''task_occurrence_changed'' ''the scheduled Task occurrence changed''"

text \<open>A scheduled admission runs the frozen snapshot, if the Task still has that occurrence pending.\<close>

definition frozen_snapshot :: "db \<Rightarrow> ident \<Rightarrow> millis option \<Rightarrow> task_snapshot \<Rightarrow> task_snapshot result" where
  "frozen_snapshot d task_id scheduled frozen =
     and_then (if pn_id (ts_pipeline frozen) = '''' \<or> pn_stages (ts_pipeline frozen) = []
               then and_then (load_pipeline_snapshot d default_pipeline_id) (\<lambda>p. Inr (frozen\<lparr>ts_pipeline := p\<rparr>))
               else Inr frozen) (\<lambda>snapshot.
       case find_task d task_id of
         None \<Rightarrow> Inl err_not_found
       | Some t \<Rightarrow>
           if tk_read_only t then Inl task_read_only_conflict
           else if tk_archived t \<or> tk_migration_only t then Inl task_archived_conflict
           else if \<not> tk_schedule_enabled t
           then Inl (conflict ''task_schedule_disabled'' ''disabled Task schedules cannot start Runs'')
           else if scheduled = None \<or> tk_pending_due_at t = None \<or> tk_pending_due_at t \<noteq> scheduled
           then Inl occurrence_conflict
           else Inr snapshot)"

definition live_snapshot :: "db \<Rightarrow> ident \<Rightarrow> task_snapshot result" where
  "live_snapshot d task_id =
     (case find_task d task_id of
        None \<Rightarrow> Inl err_not_found
      | Some t \<Rightarrow>
          if tk_read_only t then Inl task_read_only_conflict
          else if tk_archived t \<or> tk_migration_only t then Inl task_archived_conflict
          else and_then (load_pipeline_snapshot d (task_pipeline_id t)) (\<lambda>p. Inr (current_task_snapshot d t p)))"

definition select_workflows :: "(string \<Rightarrow> bool) \<Rightarrow> db \<Rightarrow> task_snapshot \<Rightarrow> task_snapshot result" where
  "select_workflows printable d t =
     (if ts_workflow_id t = '''' then Inr t
      else if ts_repository_workflows t = [] then
        and_then (validate_task_workflow d (map tr_id (ts_repositories t)) (ts_workflow_id t)) (\<lambda>_.
        and_then (load_workflow_snapshots printable d (ts_workflow_id t) (ts_repositories t)) (\<lambda>ws.
          Inr (with_workflows ws t)))
      else
        and_then (task_workflow_snapshot (ts_repository_workflows t) (tr_id (hd (ts_repositories t))) (ts_workflow_id t)) (\<lambda>w.
          Inr (t\<lparr>ts_workflow := w\<rparr>)))"

definition load_execution_snapshot :: "task_snapshot \<Rightarrow> string \<Rightarrow> (execution_snapshot \<times> bool \<times> string) result" where
  "load_execution_snapshot t requested =
     (let profile = (if requested = '''' then ts_execution_profile_id t else requested) in
      if profile \<noteq> '''' \<and> profile \<noteq> persistent_auto_profile_id then Inl profile_not_found
      else Inr (\<lparr>es_profile_id = persistent_auto_profile_id, es_profile_version = 1, es_backend = BackendPersistent,
        es_runtime = ts_runtime t, es_provider = ''worker'', es_model = ''worker-default'',
        es_timeout_seconds = ts_timeout_seconds t, es_resource_class = ''worker'',
        es_commit_resolution_policy = commit_resolve_per_attempt\<rparr>, True, ''''))"

definition check_backend :: "task_snapshot \<Rightarrow> execution_snapshot \<Rightarrow> unit result" where
  "check_backend t e =
     (if ts_outcome_contract t = OutcomeAgentUpdate \<and> es_backend e \<noteq> BackendPersistent
      then Inl (conflict ''agent_update_backend_unsupported'' ''agent_update requires the persistent execution backend'')
      else if es_backend e \<noteq> BackendPersistent \<and> 1 < length (pn_stages (ts_pipeline t))
      then Inl (conflict ''pipeline_backend_unsupported'' ''multi-stage Pipelines currently require a persistent Worker'')
      else Inr ())"

fun validate_frozen_repositories :: "db \<Rightarrow> task_repository list \<Rightarrow> unit result" where
  "validate_frozen_repositories d [] = Inr ()"
| "validate_frozen_repositories d (r # rs) =
     (case find_repository d (tr_id r) of
        None \<Rightarrow> Inl (conflict ''task_repository_missing'' (''repository '' @ tr_remote_identity r @ '' no longer exists''))
      | Some x \<Rightarrow>
          if repository_unusable d x
          then Inl (conflict ''task_repository_unavailable''
            (''repository '' @ tr_remote_identity r @ '' is disabled or unavailable''))
          else validate_frozen_repositories d rs)"

subsection \<open>Work items\<close>

definition max_claim_stage_bytes :: nat where "max_claim_stage_bytes = 524288"

definition resolve_task_workflow_prompt :: "string \<Rightarrow> workflow_snapshot \<Rightarrow> bool \<Rightarrow> string" where
  "resolve_task_workflow_prompt prompt w selected =
     (if \<not> selected then prompt
      else prompt @ newline @ newline @ ''Trusted repository workflow '' @ wf_id w @ '' ('' @ wf_path w @ '' @ '' @
        wf_commit_sha w @ ''):'' @ newline @ newline @ wf_instructions w)"

definition work_publish_branch :: "ident \<Rightarrow> string" where
  "work_publish_branch work_id = ''factory/work-'' @ take 16 (filter (\<lambda>c. c \<noteq> CHR ''-'') work_id)"

definition stage_values :: "task_snapshot \<Rightarrow> string \<Rightarrow> ident \<Rightarrow> run_target \<Rightarrow> (string \<times> string) list" where
  "stage_values t prompt run target =
     [(''task.id'', ts_id t), (''task.name'', ts_name t), (''task.prompt'', prompt), (''run.id'', run),
      (''repository'', rg_repository_identity target), (''branch'', tg_publish_branch target)]"

definition stage_prompt_fits :: "task_snapshot \<Rightarrow> run_target \<Rightarrow> bool \<Rightarrow> string \<Rightarrow> bool" where
  "stage_prompt_fits t target final prompt =
     (if ts_outcome_contract t = OutcomeAgentUpdate \<and> final
      then agent_continuation_reserve_fits (ts_name t) (rg_repository_identity target) prompt (tg_publish_branch target)
      else agent_prompt_fits (ts_name t) (rg_repository_identity target) prompt)"

fun resolve_stages :: "task_snapshot \<Rightarrow> string \<Rightarrow> ident \<Rightarrow> run_target \<Rightarrow> pipeline_stage list \<Rightarrow> stage_run list result" where
  "resolve_stages t prompt run target [] = Inr []"
| "resolve_stages t prompt run target (g # gs) =
     (let rendered = render_pipeline_prompt (stage_values t prompt run target) (pg_prompt g) in
      if \<not> stage_prompt_fits t target (gs = []) rendered
      then Inl (conflict ''agent_prompt_too_large'' ''one rendered Pipeline stage cannot fit the Worker request'')
      else and_then (resolve_stages t prompt run target gs) (\<lambda>ss.
        Inr (\<lparr>sv_position = pg_position g, sv_name = pg_name g, sv_prompt = rendered, sv_state = StagePending,
          sv_result = '''', sv_error = '''', sv_started_at = None, sv_completed_at = None\<rparr> # ss)))"

definition json_stage_run :: "stage_run \<Rightarrow> string" where
  "json_stage_run g = json_object
     (json_field ''position'' (json_nat (sv_position g)) @ json_field ''name'' (json_string (sv_name g)) @
      json_omitempty ''prompt'' (sv_prompt g) @ json_field ''state'' (json_string (stage_state_text (sv_state g))))"

definition resolve_session_stages :: "task_snapshot \<Rightarrow> string \<Rightarrow> ident \<Rightarrow> run_target \<Rightarrow> stage_run list result" where
  "resolve_session_stages t prompt run target =
     and_then (resolve_stages t prompt run target (pn_stages (ts_pipeline t))) (\<lambda>stages.
       if max_claim_stage_bytes < length (json_object (json_field ''stages'' (json_array (map json_stage_run stages))))
       then Inl (conflict ''pipeline_claim_too_large'' ''the rendered Pipeline stages cannot fit in one Worker claim'')
       else Inr stages)"

text \<open>A stage whose position is taken violates the primary key of \<^verbatim>\<open>session_stages\<close>.\<close>

definition session_stage_of :: "ident \<Rightarrow> stage_run \<Rightarrow> session_stage" where
  "session_stage_of w g =
     \<lparr>sg_session_id = w, sg_position = sv_position g, sg_name = sv_name g, sg_prompt = sv_prompt g,
      sg_state = StagePending, sg_result = '''', sg_error = '''', sg_started_at = None, sg_completed_at = None\<rparr>"

definition insert_session_stages :: "ident \<Rightarrow> stage_run list \<Rightarrow> db \<Rightarrow> db result" where
  "insert_session_stages w stages d =
     (if distinct (map sv_position stages)
      then Inr (d\<lparr>session_stages := session_stages d @ map (session_stage_of w) stages\<rparr>)
      else Inl unavailable)"

record admission_ids =
  ai_run :: ident
  ai_work :: "nat \<Rightarrow> ident"
  ai_execution :: "nat \<Rightarrow> ident"

record admission =
  am_now :: millis
  am_ids :: admission_ids
  am_snapshot :: task_snapshot
  am_execution :: execution_snapshot
  am_prompt :: string
  am_profile_ready :: bool
  am_profile_reason :: string

definition admission_target :: "ident \<Rightarrow> nat \<Rightarrow> task_repository \<Rightarrow> run_target" where
  "admission_target w position r =
     \<lparr>tg_position = position, tg_target_key = ''repository:'' @ tr_id r, tg_target_kind = ''repository'',
      tg_source_kind = ''repository'', tg_source_key = tr_id r, tg_source_reference = tr_remote_identity r,
      tg_source_title = '''', tg_context_snapshot = '''', tg_publish_branch = work_publish_branch w,
      rg_id = w, rg_repository_id = tr_id r, rg_repository_identity = tr_remote_identity r\<rparr>"

text \<open>The reason for which the Work waits, or the Worker it is given to.\<close>

definition route_admitted :: "admission \<Rightarrow> task_repository \<Rightarrow> nat \<Rightarrow> db \<Rightarrow> ((string \<times> ident option) \<times> db) result" where
  "route_admitted am r materialized d =
     (if \<not> am_profile_ready am then Inr ((am_profile_reason am, None), d)
      else if materialized < ts_concurrency_limit (am_snapshot am) then
        (case select_session_route d (tr_id r) (tr_remote_identity r) (am_now am) '''' (ts_runtime (am_snapshot am)) of
           Inr (x, d') \<Rightarrow> Inr (('''', Some (rc_worker_id x)), d')
         | Inl err \<Rightarrow>
             if service_error_code err ''no_eligible_worker'' then Inr ((waiting_for_worker, None), d) else Inl err)
      else Inr ((task_concurrency_blocked_reason, None), d))"

definition admitted_session ::
  "admission \<Rightarrow> run_target \<Rightarrow> workflow_snapshot \<Rightarrow> string \<Rightarrow> string \<Rightarrow> ident option \<Rightarrow> session" where
  "admitted_session am target w prompt reason worker =
     \<lparr>ss_id = rg_id target, ss_run_id = ai_run (am_ids am), ss_repository_id = rg_repository_id target,
      ss_repository_identity = rg_repository_identity target, ss_resolved_prompt = prompt,
      ss_required_runtime = ts_runtime (am_snapshot am), ss_execution = am_execution am,
      ss_timeout_seconds = es_timeout_seconds (am_execution am),
      ss_state = (if worker = None then SessionBlocked else SessionQueued), ss_blocked_reason = null_string reason,
      ss_assigned_worker_id = worker, ss_cancellation_requested = False, ss_retry_may_repeat_effects = False,
      ss_admitted_at = am_now am, ss_started_at = None, ss_terminal_at = None, ss_result = None, ss_failure_reason = None,
      ss_target = work_target.truncate target, ss_predecessor_work_id = None, ss_execution_owner = ExecutionOwnerNone,
      ss_waiting_reason = bounded_utf8_bytes reason max_waiting_reason_bytes, ss_latest_progress = '''', ss_question = '''',
      ss_checkpoint_sha = '''', ss_pending_resume_sha = '''', ss_checkpoint_published = False, ss_answer = '''',
      ss_pull_request_url = '''', ss_pull_request_head_branch = '''', ss_pull_request_head_sha = '''',
      ss_terminal_message = '''', ss_workflow = w\<rparr>"

definition target_workflow :: "task_snapshot \<Rightarrow> ident \<Rightarrow> workflow_snapshot result" where
  "target_workflow t repository_id =
     (if ts_workflow_id t = '''' then Inr (ts_workflow t)
      else task_workflow_snapshot (ts_repository_workflows t) repository_id (ts_workflow_id t))"

definition queue_admitted :: "admission \<Rightarrow> nat \<Rightarrow> ident \<Rightarrow> ident option \<Rightarrow> db \<Rightarrow> db" where
  "queue_admitted am position w worker d =
     (case worker of
        None \<Rightarrow> d
      | Some worker \<Rightarrow> d\<lparr>executions := executions d @
          [new_execution (ai_execution (am_ids am) position) w worker (ts_runtime (am_snapshot am)) (am_now am) 0]\<rparr>)"

text \<open>A repository that the Run has already violates the unique key of its targets.\<close>

definition insert_target ::
  "admission \<Rightarrow> run_target \<Rightarrow> workflow_snapshot \<Rightarrow> string \<Rightarrow> stage_run list \<Rightarrow> string \<Rightarrow> ident option \<Rightarrow> db \<Rightarrow>
   ((run_target \<times> bool) \<times> db) result"
where
  "insert_target am target workflow prompt stages reason worker d =
     (if list_ex (\<lambda>s. ss_run_id s = ai_run (am_ids am) \<and> tg_target_key (ss_target s) = tg_target_key target) (sessions d)
      then Inl unavailable
      else
        and_then (insert_session_stages (rg_id target) stages
            (d\<lparr>sessions := sessions d @ [admitted_session am target workflow prompt reason worker]\<rparr>)) (\<lambda>d1.
          Inr ((target, worker \<noteq> None), queue_admitted am (tg_position target) (rg_id target) worker d1)))"

definition admit_target :: "admission \<Rightarrow> nat \<Rightarrow> task_repository \<Rightarrow> nat \<Rightarrow> db \<Rightarrow> ((run_target \<times> bool) \<times> db) result" where
  "admit_target am position r materialized d =
     (let t = am_snapshot am; target = admission_target (ai_work (am_ids am) position) position r in
      and_then (target_workflow t (tr_id r)) (\<lambda>workflow.
        let prompt = resolve_task_workflow_prompt (am_prompt am) workflow (ts_workflow_id t \<noteq> '''') in
        and_then (resolve_session_stages t prompt (ai_run (am_ids am)) target) (\<lambda>stages.
        and_then (route_admitted am r materialized d) (\<lambda>((reason, worker), d1).
          insert_target am target workflow prompt stages reason worker d1))))"

fun admit_targets :: "admission \<Rightarrow> nat \<Rightarrow> task_repository list \<Rightarrow> nat \<Rightarrow> db \<Rightarrow> (run_target list \<times> db) result" where
  "admit_targets am position [] materialized d = Inr ([], d)"
| "admit_targets am position (r # rs) materialized d =
     and_then (admit_target am position r materialized d) (\<lambda>((target, queued), d1).
     and_then (admit_targets am (Suc position) rs (if queued then Suc materialized else materialized) d1) (\<lambda>(targets, d2).
       Inr (target # targets, d2)))"

subsection \<open>Runs\<close>

definition find_run_by_key :: "db \<Rightarrow> string \<Rightarrow> run option" where
  "find_run_by_key d key = find (\<lambda>r. run_request_key r = key) (runs d)"

definition same_run_inputs :: "ident \<Rightarrow> string \<Rightarrow> millis option \<Rightarrow> string \<Rightarrow> run \<Rightarrow> bool" where
  "same_run_inputs task_id source scheduled profile r \<longleftrightarrow>
     run_task_id r = task_id \<and> run_source r = source \<and> run_scheduled_at r = scheduled \<and>
     coalesce (run_requested_profile_id r) '''' = profile"

text \<open>The prompt of a scheduled occurrence; a \<^verbatim>\<open>NULL\<close> cron or timezone cannot be scanned into a string.\<close>

definition scheduled_prompt :: "db \<Rightarrow> ident \<Rightarrow> task_snapshot \<Rightarrow> millis \<Rightarrow> string result" where
  "scheduled_prompt d task_id t due =
     and_then (if ts_schedule_cron t = '''' \<or> ts_schedule_timezone t = '''' then
        (case find_task d task_id of
           None \<Rightarrow> Inl unavailable
         | Some row \<Rightarrow>
             if tk_cron row = None \<or> tk_timezone row = None then Inl unavailable
             else Inr (coalesce (tk_cron row) '''', coalesce (tk_timezone row) ''''))
        else Inr (ts_schedule_cron t, ts_schedule_timezone t)) (\<lambda>(cron, timezone).
       case rfc3339_nano (from_millis due) of
         None \<Rightarrow> Inl unavailable
       | Some at \<Rightarrow> Inr (resolve_task_schedule_prompt (ts_prompt t) at cron timezone))"

definition resolved_prompt :: "db \<Rightarrow> ident \<Rightarrow> string \<Rightarrow> millis option \<Rightarrow> task_snapshot \<Rightarrow> string result" where
  "resolved_prompt d task_id source scheduled t =
     and_then (if source = ''schedule'' \<and> scheduled \<noteq> None then scheduled_prompt d task_id t (coalesce scheduled 0)
               else Inr (ts_prompt t)) (\<lambda>prompt.
       if max_resolved_prompt_bytes < length prompt
       then Inl (conflict ''resolved_prompt_too_large'' ''the frozen Task prompt exceeds 64 KiB'')
       else Inr prompt)"

definition admitted_run ::
  "millis \<Rightarrow> ident \<Rightarrow> ident \<Rightarrow> string \<Rightarrow> string \<Rightarrow> millis option \<Rightarrow> string \<Rightarrow> task_snapshot \<Rightarrow> execution_snapshot \<Rightarrow> run" where
  "admitted_run now i task_id source key scheduled profile t e =
     \<lparr>run_id = i, run_request_key = key, run_request_digest = admission_digest key task_id source scheduled t e,
      run_task_id = task_id, run_task_snapshot = t, run_source = source, run_scheduled_at = scheduled,
      run_requested_profile_id = null_string profile, run_execution = e, run_targets = [], run_provider_snapshot = None,
      run_outcome_contract = ts_outcome_contract t, run_admitted_at = now, run_updated_at = now, run_terminal_at = None\<rparr>"

text \<open>The snapshot a Run is admitted with, and how it executes; checks only.\<close>

definition admission_plan ::
  "(string \<Rightarrow> bool) \<Rightarrow> db \<Rightarrow> ident \<Rightarrow> millis option \<Rightarrow> task_snapshot option \<Rightarrow> string \<Rightarrow>
   (task_snapshot \<times> execution_snapshot \<times> bool \<times> string) result"
where
  "admission_plan printable d task_id scheduled frozen profile =
     and_then (case frozen of Some t \<Rightarrow> frozen_snapshot d task_id scheduled t | None \<Rightarrow> live_snapshot d task_id) (\<lambda>t.
       if ts_repositories t = []
       then Inl (conflict ''task_has_no_repositories'' ''select at least one repository before running this Task'')
       else
         and_then (select_workflows printable d t) (\<lambda>t.
         and_then (load_execution_snapshot t profile) (\<lambda>(e, ready, reason).
         and_then (check_backend t e) (\<lambda>_.
         and_then (validate_frozen_repositories d (ts_repositories t)) (\<lambda>_. Inr (t, e, ready, reason))))))"

definition admit_run ::
  "int \<Rightarrow> admission_ids \<Rightarrow> db \<Rightarrow> ident \<Rightarrow> string \<Rightarrow> string \<Rightarrow> millis option \<Rightarrow> string \<Rightarrow>
   task_snapshot \<Rightarrow> execution_snapshot \<Rightarrow> bool \<Rightarrow> string \<Rightarrow> ((ident \<times> bool) \<times> db) result"
where
  "admit_run now ids d task_id source key scheduled profile t e ready reason =
     (let d1 = d\<lparr>runs := runs d @ [admitted_run (unix_milli now) (ai_run ids) task_id source key scheduled profile t e]\<rparr> in
      and_then (resolved_prompt d1 task_id source scheduled t) (\<lambda>prompt.
      and_then (admit_targets \<lparr>am_now = unix_milli now, am_ids = ids, am_snapshot = t, am_execution = e, am_prompt = prompt,
          am_profile_ready = ready, am_profile_reason = reason\<rparr> 0 (ts_repositories t) 0 d1) (\<lambda>(targets, d2).
        Inr ((ai_run ids, True), d2\<lparr>runs := update_where (\<lambda>r. run_id r = ai_run ids) (\<lambda>r. r\<lparr>run_targets := targets\<rparr>)
          (runs d2)\<rparr>))))"

definition admit_task_tx ::
  "(string \<Rightarrow> bool) \<Rightarrow> int \<Rightarrow> admission_ids \<Rightarrow> db \<Rightarrow> ident \<Rightarrow> string \<Rightarrow> string \<Rightarrow> millis option \<Rightarrow>
   task_snapshot option \<Rightarrow> string \<Rightarrow> ((ident \<times> bool) \<times> db) result"
where
  "admit_task_tx printable now ids d task_id source key scheduled frozen profile =
     (case find_run_by_key d key of
        Some r \<Rightarrow>
          if \<not> same_run_inputs task_id source scheduled profile r
          then Inl (conflict ''request_key_conflict'' ''request_key was already used with different Run inputs'')
          else Inr ((run_id r, False), d)
      | None \<Rightarrow>
          and_then (admission_plan printable d task_id scheduled frozen profile) (\<lambda>(t, e, ready, reason).
            admit_run now ids d task_id source key scheduled profile t e ready reason))"

definition admit_task ::
  "(string \<Rightarrow> bool) \<Rightarrow> int \<Rightarrow> admission_ids \<Rightarrow> db \<Rightarrow> ident \<Rightarrow> string \<Rightarrow> string \<Rightarrow> millis option \<Rightarrow>
   task_snapshot option \<Rightarrow> string \<Rightarrow> (run_detail \<times> bool) result \<times> db"
where
  "admit_task printable now ids d task_id source key scheduled frozen profile =
     committed d (admit_task_tx printable now ids d task_id source key scheduled frozen profile)
       (\<lambda>d (i, created). and_then (run_reply now d i) (\<lambda>v. Inr (v, created)))"

definition run_task ::
  "(string \<Rightarrow> bool) \<Rightarrow> int \<Rightarrow> admission_ids \<Rightarrow> db \<Rightarrow> ident \<Rightarrow> string \<Rightarrow> string \<Rightarrow> (run_detail \<times> bool) result \<times> db"
where
  "run_task printable now ids d task_id request_key profile =
     (let key = trim_space request_key in
      if key = '''' \<or> 200 < length key
      then (Inl (invalid ''invalid_request_key'' ''request_key is required and limited to 200 bytes''), d)
      else if prefix ''schedule:'' key
      then (Inl (invalid ''reserved_request_key'' ''request_key uses a reserved internal prefix''), d)
      else admit_task printable now ids d task_id ''manual'' key None None (trim_space profile))"

subsection \<open>Admission keeps the store well formed\<close>

lemma core_ok_new_session:
  assumes ok: "core_ok d"
    and s: "ss_id s \<notin> ss_id ` set (sessions d)" "ss_run_id s \<in> run_id ` set (runs d)" "session_row_ok s"
      "es = [] \<and> ss_state s = SessionBlocked \<or>
       (\<exists>e. es = [e] \<and> ss_state s = SessionQueued \<and> ex_session_id e = ss_id s \<and> ex_state e = ExecutionQueued \<and>
         ex_id e \<notin> ex_id ` set (executions d))"
    and g: "\<And>g. g \<in> set gs \<Longrightarrow> sg_session_id g = ss_id s" "distinct (map sg_position gs)"
      "ss_id s \<notin> sg_session_id ` set (session_stages d)"
    and tables: "sessions d' = sessions d @ [s]" "executions d' = executions d @ es" "attempts d' = attempts d"
      "runs d' = runs d" "session_stages d' = session_stages d @ gs"
  shows "core_ok d'"
  unfolding core_ok_def
proof (intro conjI)
  note ok' = core_okD [OF ok]
  have es: "ex_session_id e = ss_id s \<and> ex_state e = ExecutionQueued \<and> ss_state s = SessionQueued \<and>
      ex_id e \<notin> ex_id ` set (executions d)" if "e \<in> set es" for e
    using s(4) that by auto
  have es1: "es = [] \<or> (\<exists>e. es = [e])" using s(4) by blast
  have new_session: "ex_session_id e \<noteq> ss_id s" if "e \<in> set (executions d)" for e
    using ok'(2) s(1) that unfolding refs_ok_def by (metis imageI subsetD)
  have new_execution: "at_execution_id a \<noteq> ex_id e" if "a \<in> set (attempts d)" "e \<in> set es" for a e
    using ok'(2) es that unfolding refs_ok_def by (metis imageI subsetD)
  have new_id: "ex_id x \<noteq> ex_id e" if "e \<in> set es" "x \<in> set (executions d)" for e x
    using es [OF that(1)] that(2) by (metis imageI)
  have gs: "distinct (map (\<lambda>g. (sg_session_id g, sg_position g)) gs)"
    using g(2) by (auto simp: distinct_map inj_on_def)
  have gs': "(\<lambda>g. (sg_session_id g, sg_position g)) ` set (session_stages d) \<inter> (\<lambda>g. (sg_session_id g, sg_position g)) ` set gs = {}"
    using g(1,3) by (force simp: image_iff)
  show "keys_ok d'"
    using ok'(1) es1 es s(1) gs gs' new_session new_id unfolding keys_ok_def tables map_append distinct_append
    by (auto simp: image_iff)
  show "refs_ok d'" using ok'(2) s(2) es unfolding refs_ok_def tables by auto
  show "session_rows_ok d'" using ok'(4) s(3) by (simp add: session_rows_ok_def tables)
  show "lifecycle_ok d'"
    unfolding lifecycle_ok_def tables
  proof (intro conjI ballI impI)
    fix a e assume "a \<in> set (attempts d)" "e \<in> set (executions d @ es)" "ex_id e = at_execution_id a" "is_active (at_state a)"
    then show "ex_state e = execution_of_attempt (at_state a)"
      using new_execution [of a e] lifecycle_attempt_execution [OF ok'(3), of a e] by auto
  next
    fix a b assume "a \<in> set (attempts d)" "b \<in> set (attempts d)" "at_execution_id a = at_execution_id b"
      "is_active (at_state a)" "is_active (at_state b)"
    then show "at_id a = at_id b" by (rule lifecycle_one_active [OF ok'(3)])
  next
    fix e assume "e \<in> set (executions d @ es)" "execution_executing (ex_state e)"
    then show "\<exists>a \<in> set (attempts d). at_execution_id a = ex_id e \<and> is_active (at_state a)"
      using es [of e] lifecycle_executing_attempt [OF ok'(3), of e] by (auto simp: execution_executing_def)
  next
    fix e x assume "e \<in> set (executions d @ es)" "x \<in> set (sessions d @ [s])" "ss_id x = ex_session_id e"
    then show "states_agree (ex_state e) (ss_state x)"
      using es [of e] s(1) new_session [of e] lifecycle_states_agree [OF ok'(3), of e x]
      by (auto simp: states_agree_def image_iff)
  next
    fix x assume x: "x \<in> set (sessions d @ [s])" "session_occupies_slot (ss_state x)"
    show "\<exists>e \<in> set (executions d @ es). ex_session_id e = ss_id x"
    proof (cases "x = s")
      case True
      with x(2) s(4) show ?thesis by (auto simp: state_predicates)
    next
      case False
      with x lifecycle_slot_execution [OF ok'(3), of x] show ?thesis by auto
    qed
  qed
qed

lemma select_session_route_same:
  "select_session_route d i identity now worker runtime = Inr (c, d') \<Longrightarrow> same_but_reservations d d'"
  unfolding same_but_reservations_def by (rule select_session_route_reserves)

lemma route_admitted_same:
  "route_admitted am r m d = Inr ((reason, worker), d') \<Longrightarrow> same_but_reservations d d'"
  by (auto simp: route_admitted_def split: if_splits sum.splits intro: select_session_route_same)

lemma route_admitted_queued:
  "route_admitted am r m d = Inr ((reason, Some worker), d') \<Longrightarrow>
   am_profile_ready am \<and> m < ts_concurrency_limit (am_snapshot am) \<and> reason = ''''"
  by (auto simp: route_admitted_def split: if_splits sum.splits)

lemma admitted_session_simps [simp]:
  "ss_id (admitted_session am target w prompt reason worker) = rg_id target"
  "ss_run_id (admitted_session am target w prompt reason worker) = ai_run (am_ids am)"
  "ss_repository_id (admitted_session am target w prompt reason worker) = rg_repository_id target"
  "ss_state (admitted_session am target w prompt reason worker) = (if worker = None then SessionBlocked else SessionQueued)"
  "ss_assigned_worker_id (admitted_session am target w prompt reason worker) = worker"
  "session_row_ok (admitted_session am target w prompt reason worker)"
  by (simp_all add: admitted_session_def session_row_ok_def state_predicates)

text \<open>What one target adds to the store.\<close>

lemma admit_target_Inr:
  assumes "admit_target am position r m d = Inr ((target, queued), d')"
  obtains stages s es where
    "target = admission_target (ai_work (am_ids am) position) position r"
    "resolve_session_stages (am_snapshot am) (ss_resolved_prompt s) (ai_run (am_ids am)) target = Inr stages"
    "distinct (map sv_position stages)"
    "ss_id s = ai_work (am_ids am) position" "ss_run_id s = ai_run (am_ids am)" "ss_repository_id s = tr_id r"
    "session_row_ok s" "ss_state s = (if queued then SessionQueued else SessionBlocked)"
    "queued \<Longrightarrow> m < ts_concurrency_limit (am_snapshot am)"
    "es = (if queued then [new_execution (ai_execution (am_ids am) position) (ss_id s) (coalesce (ss_assigned_worker_id s) '''')
       (ts_runtime (am_snapshot am)) (am_now am) 0] else [])"
    "sessions d' = sessions d @ [s]" "executions d' = executions d @ es" "attempts d' = attempts d"
    "runs d' = runs d" "session_stages d' = session_stages d @ map (session_stage_of (ss_id s)) stages"
proof -
  let ?w = "ai_work (am_ids am) position"
  let ?target = "admission_target ?w position r"
  let ?prompt = "\<lambda>workflow. resolve_task_workflow_prompt (am_prompt am) workflow (ts_workflow_id (am_snapshot am) \<noteq> '''')"
  from assms obtain workflow stages reason worker d1 where
    stages: "resolve_session_stages (am_snapshot am) (?prompt workflow) (ai_run (am_ids am)) ?target = Inr stages"
    and route: "route_admitted am r m d = Inr ((reason, worker), d1)"
    and rest: "insert_target am ?target workflow (?prompt workflow) stages reason worker d1 = Inr ((target, queued), d')"
    by (auto simp: admit_target_def Let_def and_then_Inr)
  have ids: "rg_id ?target = ?w" "rg_repository_id ?target = tr_id r" "tg_position ?target = position"
    by (simp_all add: admission_target_def)
  from rest have distinct: "distinct (map sv_position stages)"
    and result: "target = ?target" "queued = (worker \<noteq> None)"
      "d' = queue_admitted am position ?w worker
        (d1\<lparr>sessions := sessions d1 @ [admitted_session am ?target workflow (?prompt workflow) reason worker],
          session_stages := session_stages d1 @ map (session_stage_of ?w) stages\<rparr>)"
    by (auto simp: insert_target_def insert_session_stages_def ids split: if_splits)
  note same = same_but_reservations_tables [OF route_admitted_same [OF route]]
  let ?s = "admitted_session am ?target workflow (?prompt workflow) reason worker"
  have prompt: "ss_resolved_prompt ?s = ?prompt workflow" by (simp add: admitted_session_def)
  have limit: "m < ts_concurrency_limit (am_snapshot am)" if "queued"
    using that result(2) route route_admitted_queued [of am r m d reason] by auto
  show thesis
    by (rule that [OF result(1) _ distinct, of ?s, OF _ _ _ _ _ _ limit refl])
      (use result stages prompt in \<open>simp_all add: ids queue_admitted_def same coalesce_def split: option.splits\<close>)
qed

definition fresh_ids :: "admission_ids \<Rightarrow> nat \<Rightarrow> nat \<Rightarrow> db \<Rightarrow> bool" where
  "fresh_ids ids from n d \<longleftrightarrow>
     inj_on (ai_work ids) {from..<n} \<and> inj_on (ai_execution ids) {from..<n} \<and>
     (\<forall>k \<in> {from..<n}. ai_work ids k \<notin> ss_id ` set (sessions d) \<and> ai_work ids k \<notin> sg_session_id ` set (session_stages d) \<and>
       ai_execution ids k \<notin> ex_id ` set (executions d))"

lemma admit_target_core_ok:
  assumes ok: "core_ok d" "ai_run (am_ids am) \<in> run_id ` set (runs d)" and fresh: "fresh_ids (am_ids am) position n d" "position < n"
    and step: "admit_target am position r m d = Inr ((target, queued), d')"
  shows "core_ok d'" "fresh_ids (am_ids am) (Suc position) n d'" "runs d' = runs d"
proof -
  from step obtain stages s es where
    stages: "distinct (map sv_position stages)"
    and s: "ss_id s = ai_work (am_ids am) position" "ss_run_id s = ai_run (am_ids am)" "session_row_ok s"
      "ss_state s = (if queued then SessionQueued else SessionBlocked)"
    and es: "es = (if queued then [new_execution (ai_execution (am_ids am) position) (ss_id s)
       (coalesce (ss_assigned_worker_id s) '''') (ts_runtime (am_snapshot am)) (am_now am) 0] else [])"
    and tables: "sessions d' = sessions d @ [s]" "executions d' = executions d @ es" "attempts d' = attempts d"
      "runs d' = runs d" "session_stages d' = session_stages d @ map (session_stage_of (ss_id s)) stages"
    by (rule admit_target_Inr) blast
  have here: "ss_id s \<notin> ss_id ` set (sessions d)" "ss_id s \<notin> sg_session_id ` set (session_stages d)"
      "ai_execution (am_ids am) position \<notin> ex_id ` set (executions d)"
    using fresh s(1) by (auto simp: fresh_ids_def)
  show "core_ok d'"
    by (rule core_ok_new_session [OF ok(1) here(1) _ s(3), where es = es and gs = "map (session_stage_of (ss_id s)) stages"])
      (use ok(2) s es here stages tables in \<open>auto simp: new_execution_def session_stage_of_def comp_def\<close>)
  show "runs d' = runs d" by (rule tables(4))
  have "ai_work (am_ids am) k \<noteq> ss_id s \<and> ai_execution (am_ids am) k \<noteq> ai_execution (am_ids am) position"
    if "k \<in> {Suc position..<n}" for k
    using fresh that s(1) inj_onD [of "ai_work (am_ids am)" "{position..<n}" k position]
      inj_onD [of "ai_execution (am_ids am)" "{position..<n}" k position]
    unfolding fresh_ids_def by auto
  then show "fresh_ids (am_ids am) (Suc position) n d'"
    using fresh by (auto simp: fresh_ids_def tables es new_execution_def session_stage_of_def inj_on_def)
qed

text \<open>What the targets of a Run add: one Work item each, with its stages, and executions for the queued ones.\<close>

definition admitted_work :: "admission \<Rightarrow> nat \<Rightarrow> task_repository \<Rightarrow> session \<Rightarrow> stage_run list \<Rightarrow> bool" where
  "admitted_work am position r s stages \<longleftrightarrow>
     ss_id s = ai_work (am_ids am) position \<and> ss_run_id s = ai_run (am_ids am) \<and> ss_repository_id s = tr_id r \<and>
     (ss_state s = SessionQueued \<or> ss_state s = SessionBlocked) \<and>
     resolve_session_stages (am_snapshot am) (ss_resolved_prompt s) (ai_run (am_ids am))
       (admission_target (ss_id s) position r) = Inr stages"

definition queued_work :: "session list \<Rightarrow> nat" where
  "queued_work ss = count_where (\<lambda>s. ss_state s = SessionQueued) ss"

lemma admit_targets_Inr:
  assumes "admit_targets am position rs m d = Inr (targets, d')" "core_ok d" "ai_run (am_ids am) \<in> run_id ` set (runs d)"
    "fresh_ids (am_ids am) position (position + length rs) d"
  shows "core_ok d' \<and> runs d' = runs d \<and> attempts d' = attempts d \<and>
    (\<exists>new stages. sessions d' = sessions d @ new \<and> length new = length rs \<and> length stages = length rs \<and>
       (\<forall>k < length rs. admitted_work am (position + k) (rs ! k) (new ! k) (stages ! k)) \<and>
       session_stages d' = session_stages d @ concat (map2 (\<lambda>s. map (session_stage_of (ss_id s))) new stages) \<and>
       (queued_work new = 0 \<or> m + queued_work new \<le> ts_concurrency_limit (am_snapshot am)) \<and>
       targets = map2 (\<lambda>s (position, r). admission_target (ss_id s) position r) new (enumerate position rs) \<and>
       (\<exists>es. executions d' = executions d @ es \<and>
          map ex_session_id es = map ss_id (filter (\<lambda>s. ss_state s = SessionQueued) new)))"
  using assms
proof (induction rs arbitrary: position m d targets)
  case Nil
  then show ?case by (auto simp: queued_work_def)
next
  case (Cons r rs)
  from Cons.prems(1) obtain target queued d1 targets' where step: "admit_target am position r m d = Inr ((target, queued), d1)"
    and rest: "admit_targets am (Suc position) rs (if queued then Suc m else m) d1 = Inr (targets', d')"
    and targets: "targets = target # targets'"
    by (auto simp: and_then_Inr)
  note ok1 = admit_target_core_ok [OF Cons.prems(2,3,4) _ step]
  have fresh1: "fresh_ids (am_ids am) (Suc position) (Suc position + length rs) d1" using ok1(2) by simp
  from step obtain stages s es where t: "target = admission_target (ai_work (am_ids am) position) position r"
    and g: "resolve_session_stages (am_snapshot am) (ss_resolved_prompt s) (ai_run (am_ids am)) target = Inr stages"
    and s: "ss_id s = ai_work (am_ids am) position" "ss_run_id s = ai_run (am_ids am)" "ss_repository_id s = tr_id r"
      "ss_state s = (if queued then SessionQueued else SessionBlocked)"
      "queued \<Longrightarrow> m < ts_concurrency_limit (am_snapshot am)"
    and es: "es = (if queued then [new_execution (ai_execution (am_ids am) position) (ss_id s) (coalesce (ss_assigned_worker_id s) '''')
       (ts_runtime (am_snapshot am)) (am_now am) 0] else [])"
    and tables: "sessions d1 = sessions d @ [s]" "executions d1 = executions d @ es" "attempts d1 = attempts d"
      "runs d1 = runs d" "session_stages d1 = session_stages d @ map (session_stage_of (ss_id s)) stages"
    by (rule admit_target_Inr) blast
  have "ai_run (am_ids am) \<in> run_id ` set (runs d1)" using Cons.prems(3) tables(4) by simp
  from Cons.IH [OF rest ok1(1) this fresh1] obtain new gs es' where ih: "core_ok d'" "runs d' = runs d" "attempts d' = attempts d"
    "sessions d' = sessions d @ s # new" "length new = length rs" "length gs = length rs"
    "\<And>k. k < length rs \<Longrightarrow> admitted_work am (Suc position + k) (rs ! k) (new ! k) (gs ! k)"
    "session_stages d' = session_stages d @ map (session_stage_of (ss_id s)) stages @
       concat (map2 (\<lambda>s. map (session_stage_of (ss_id s))) new gs)"
    "queued_work new = 0 \<or> (if queued then Suc m else m) + queued_work new \<le> ts_concurrency_limit (am_snapshot am)"
    "targets' = map2 (\<lambda>s (position, r). admission_target (ss_id s) position r) new (enumerate (Suc position) rs)"
    "executions d' = executions d @ es @ es'" "map ex_session_id es' = map ss_id (filter (\<lambda>s. ss_state s = SessionQueued) new)"
    using ok1(1) tables by auto
  have here: "admitted_work am position r s stages" using s g t by (simp add: admitted_work_def)
  have "admitted_work am (position + k) ((r # rs) ! k) ((s # new) ! k) ((stages # gs) ! k)" if "k < length (r # rs)" for k
    using here ih(7) that by (cases k) auto
  moreover have "queued_work (s # new) = 0 \<or> m + queued_work (s # new) \<le> ts_concurrency_limit (am_snapshot am)"
    using ih(9) s(4,5) by (auto simp: queued_work_def)
  moreover have "map ex_session_id (es @ es') = map ss_id (filter (\<lambda>s. ss_state s = SessionQueued) (s # new))"
    using ih(12) s(4) es by (simp add: new_execution_def)
  ultimately show ?case
    using ih t s(1) targets
    by (intro conjI exI [of _ "s # new"] exI [of _ "stages # gs"] exI [of _ "es @ es'"]) simp_all
qed

lemma core_ok_runs:
  assumes "core_ok d" "sessions d' = sessions d" "executions d' = executions d" "attempts d' = attempts d"
    "session_stages d' = session_stages d" "distinct (map run_id (runs d'))" "run_id ` set (runs d) \<subseteq> run_id ` set (runs d')"
  shows "core_ok d'"
  unfolding core_ok_def
proof (intro conjI)
  note ok' = core_okD [OF assms(1)]
  show "keys_ok d'" using ok'(1) assms(6) by (simp add: keys_ok_def assms(2-5))
  have "ss_run_id ` set (sessions d) \<subseteq> run_id ` set (runs d)" using ok'(2) by (simp add: refs_ok_def)
  then have "ss_run_id ` set (sessions d) \<subseteq> run_id ` set (runs d')" using assms(7) by (rule subset_trans)
  then show "refs_ok d'" using ok'(2) by (simp add: refs_ok_def assms(2-5))
  show "lifecycle_ok d'" using ok'(3) unfolding lifecycle_ok_def assms(2-5) .
  show "session_rows_ok d'" using ok'(4) by (simp add: session_rows_ok_def assms(2-5))
qed

text \<open>A Run that is admitted.\<close>

lemma admit_run_Inr:
  assumes ok: "store_ok d" and fresh: "ai_run ids \<notin> run_id ` set (runs d)" "fresh_ids ids 0 (length (ts_repositories t)) d"
    and some: "ts_repositories t \<noteq> []"
    and run: "admit_run now ids d task_id source key scheduled profile t e ready reason = Inr (reply, d')"
  obtains am new stages es r where
    "am_snapshot am = t" "am_ids am = ids" "am_now am = unix_milli now" "store_ok d'" "reply = (ai_run ids, True)"
    "runs d' = runs d @ [r]" "run_id r = ai_run ids" "run_request_key r = key" "run_task_id r = task_id" "run_source r = source"
    "run_scheduled_at r = scheduled" "run_requested_profile_id r = null_string profile" "run_task_snapshot r = t"
    "run_outcome_contract r = ts_outcome_contract t" "run_admitted_at r = unix_milli now" "run_terminal_at r = None"
    "run_targets r = map2 (\<lambda>s (position, r). admission_target (ss_id s) position r) new (enumerate 0 (ts_repositories t))"
    "sessions d' = sessions d @ new" "length new = length (ts_repositories t)" "length stages = length (ts_repositories t)"
    "\<And>k. k < length (ts_repositories t) \<Longrightarrow> admitted_work am k (ts_repositories t ! k) (new ! k) (stages ! k)"
    "session_stages d' = session_stages d @ concat (map2 (\<lambda>s. map (session_stage_of (ss_id s))) new stages)"
    "queued_work new \<le> ts_concurrency_limit t"
    "executions d' = executions d @ es" "map ex_session_id es = map ss_id (filter (\<lambda>s. ss_state s = SessionQueued) new)"
    "attempts d' = attempts d"
proof -
  define r0 where "r0 = admitted_run (unix_milli now) (ai_run ids) task_id source key scheduled profile t e"
  define d1 where "d1 = d\<lparr>runs := runs d @ [r0]\<rparr>"
  from run obtain prompt targets d2 where
    "admit_targets \<lparr>am_now = unix_milli now, am_ids = ids, am_snapshot = t, am_execution = e, am_prompt = prompt,
        am_profile_ready = ready, am_profile_reason = reason\<rparr> 0 (ts_repositories t) 0 d1 = Inr (targets, d2)"
    and reply: "reply = (ai_run ids, True)"
      "d' = d2\<lparr>runs := update_where (\<lambda>r. run_id r = ai_run ids) (\<lambda>r. r\<lparr>run_targets := targets\<rparr>) (runs d2)\<rparr>"
    by (auto simp: admit_run_def Let_def and_then_Inr d1_def r0_def)
  then obtain am where am: "am_snapshot am = t" "am_ids am = ids" "am_now am = unix_milli now"
    and targets: "admit_targets am 0 (ts_repositories t) 0 d1 = Inr (targets, d2)"
    by (metis admission.select_convs(1-3))
  note ok' = store_okD [OF ok]
  have r0: "run_id r0 = ai_run ids" by (simp add: r0_def admitted_run_def)
  have core1: "core_ok d1"
    by (rule core_ok_runs [OF ok'(6)]) (use ok'(1) fresh(1) r0 in \<open>auto simp: d1_def keys_ok_def\<close>)
  have fresh1: "fresh_ids (am_ids am) 0 (0 + length (ts_repositories t)) d1" using fresh(2) am by (simp add: fresh_ids_def d1_def)
  have "core_ok d2 \<and> runs d2 = runs d1 \<and> attempts d2 = attempts d1 \<and>
    (\<exists>new stages. sessions d2 = sessions d1 @ new \<and> length new = length (ts_repositories t) \<and>
       length stages = length (ts_repositories t) \<and>
       (\<forall>k < length (ts_repositories t). admitted_work am (0 + k) (ts_repositories t ! k) (new ! k) (stages ! k)) \<and>
       session_stages d2 = session_stages d1 @ concat (map2 (\<lambda>s. map (session_stage_of (ss_id s))) new stages) \<and>
       (queued_work new = 0 \<or> 0 + queued_work new \<le> ts_concurrency_limit (am_snapshot am)) \<and>
       targets = map2 (\<lambda>s (position, r). admission_target (ss_id s) position r) new (enumerate 0 (ts_repositories t)) \<and>
       (\<exists>es. executions d2 = executions d1 @ es \<and>
          map ex_session_id es = map ss_id (filter (\<lambda>s. ss_state s = SessionQueued) new)))"
    by (rule admit_targets_Inr [OF targets core1 _ fresh1]) (simp add: am d1_def r0)
  then obtain new stages es where n: "core_ok d2" "runs d2 = runs d1" "attempts d2 = attempts d"
    "sessions d2 = sessions d @ new" "length new = length (ts_repositories t)" "length stages = length (ts_repositories t)"
    "\<And>k. k < length (ts_repositories t) \<Longrightarrow> admitted_work am k (ts_repositories t ! k) (new ! k) (stages ! k)"
    "session_stages d2 = session_stages d @ concat (map2 (\<lambda>s. map (session_stage_of (ss_id s))) new stages)"
    "queued_work new \<le> ts_concurrency_limit t"
    "targets = map2 (\<lambda>s (position, r). admission_target (ss_id s) position r) new (enumerate 0 (ts_repositories t))"
    "executions d2 = executions d @ es" "map ex_session_id es = map ss_id (filter (\<lambda>s. ss_state s = SessionQueued) new)"
    by (auto simp: d1_def am)
  have other: "run_id r \<noteq> ai_run ids" if "r \<in> set (runs d)" for r using fresh(1) that by (metis imageI)
  have runs: "runs d' = runs d @ [r0\<lparr>run_targets := targets\<rparr>]"
    using other r0 by (simp add: reply(2) n(2) d1_def update_where_def map_idI)
  have ids: "map run_id (runs d') = map run_id (runs d2)" by (simp add: runs n(2) d1_def)
  then have "run_id ` set (runs d') = run_id ` set (runs d2)" by (metis list.set_map)
  then have "core_ok d'"
    by (intro core_ok_runs [OF n(1)]) (use ids core_okD(1) [OF n(1)] in \<open>simp_all add: reply(2) keys_ok_def\<close>)
  moreover have "runs_ok d'"
  proof -
    have new_run: "ss_run_id s = ai_run ids \<and> session_nonterminal (ss_state s)" if "s \<in> set new" for s
    proof -
      from that obtain k where "k < length new" "s = new ! k" by (auto simp: in_set_conv_nth)
      with n(5,7) show ?thesis by (auto simp: admitted_work_def am state_predicates)
    qed
    have "new \<noteq> []" using n(5) some by auto
    then obtain s where "s \<in> set new" by (cases new) auto
    with new_run have "\<not> run_finished d' (ai_run ids)" by (auto simp: run_finished_iff reply(2) n(4))
    moreover have "run_finished d' i = run_finished d i" if "i \<noteq> ai_run ids" for i
      using new_run that by (auto simp: run_finished_iff reply(2) n(4))
    ultimately show ?thesis
      using ok'(5) other by (simp add: runs_ok_def runs list_all_iff r0_def admitted_run_def)
  qed
  ultimately have "store_ok d'" by (simp add: store_ok_def)
  then show thesis
    by (rule that [OF am _ reply(1) runs, where new = new and stages = stages and es = es])
      (use n in \<open>simp_all add: r0_def admitted_run_def reply(2)\<close>)
qed

end
