(* ===== verification/Scheduler.thy ===== *)
theory Scheduler
  imports Admission
begin

text \<open>
  \<^verbatim>\<open>task_scheduler.go\<close>: the poll that admits due occurrences of scheduled Tasks. An occurrence is first frozen in the
  row of its Task, then admitted under a request key of its own, then finished; each step is a transaction, so a poll may
  stop between any two of them. The text of an error that \<^verbatim>\<open>unavailable\<close> wraps is not part of its message here.
\<close>

subsection \<open>Claiming a due occurrence\<close>

definition due_now :: "millis \<Rightarrow> task_row \<Rightarrow> bool" where
  "due_now now t \<longleftrightarrow> \<not> tk_migration_only t \<and> \<not> tk_archived t \<and> tk_schedule_enabled t \<and>
     (case tk_pending_due_at t of
        Some _ \<Rightarrow> (case tk_schedule_retry_at t of None \<Rightarrow> False | Some at \<Rightarrow> at \<le> now)
      | None \<Rightarrow> (case tk_next_due_at t of None \<Rightarrow> False | Some at \<Rightarrow> at \<le> now))"

definition due_key :: "task_row \<Rightarrow> nat \<times> millis \<times> ident" where
  "due_key t =
     (if tk_pending_due_at t = None then 1 else 0,
      case tk_schedule_retry_at t of Some at \<Rightarrow> at | None \<Rightarrow> coalesce (tk_next_due_at t) 0, tk_id t)"

definition next_due :: "millis \<Rightarrow> db \<Rightarrow> task_row option" where
  "next_due now d = (case sort_key due_key (filter (due_now now) (task_rows d)) of [] \<Rightarrow> None | t # _ \<Rightarrow> Some t)"

definition load_current_task_snapshot :: "db \<Rightarrow> task_row \<Rightarrow> task_snapshot result" where
  "load_current_task_snapshot d t =
     (if tk_cron t = None \<or> tk_timezone t = None then Inl unavailable
      else and_then (load_pipeline_snapshot d (task_pipeline_id t)) (\<lambda>p.
        Inr ((current_task_snapshot d t p)\<lparr>ts_schedule_cron := coalesce (tk_cron t) '''',
          ts_schedule_timezone := coalesce (tk_timezone t) ''''\<rparr>)))"

text \<open>A snapshot that names no repositories was stored by an older version, with their ids alone.\<close>

fun legacy_repositories :: "db \<Rightarrow> ident list \<Rightarrow> task_repository list result" where
  "legacy_repositories d [] = Inr []"
| "legacy_repositories d (i # is) =
     (case find_repository d i of
        None \<Rightarrow> Inl (conflict ''task_repository_missing'' ''a frozen scheduled repository no longer exists'')
      | Some r \<Rightarrow> and_then (legacy_repositories d is) (\<lambda>rs.
          Inr (\<lparr>tr_id = rp_id r, tr_remote_identity = rp_remote_identity r\<rparr> # rs)))"

definition load_pending_task_snapshot :: "db \<Rightarrow> task_row \<Rightarrow> task_snapshot result" where
  "load_pending_task_snapshot d t =
     (case tk_pending_snapshot t of
        None \<Rightarrow> Inl unavailable
      | Some x \<Rightarrow>
          let x = (if ts_id x = '''' then x\<lparr>ts_id := tk_id t\<rparr> else x) in
          if ts_repositories x \<noteq> [] then Inr x
          else and_then (legacy_repositories d (tk_pending_repository_ids t)) (\<lambda>rs. Inr (x\<lparr>ts_repositories := rs\<rparr>)))"

definition pend_occurrence :: "millis \<Rightarrow> task_snapshot \<Rightarrow> task_row \<Rightarrow> task_row" where
  "pend_occurrence now x t =
     t\<lparr>tk_pending_due_at := tk_next_due_at t, tk_pending_snapshot := Some x, tk_pending_repository_ids := [],
       tk_schedule_retry_at := Some now, tk_schedule_retry_count := 0\<rparr>"

definition claim_due_task_tx :: "int \<Rightarrow> db \<Rightarrow> ((ident \<times> millis \<times> task_snapshot) option \<times> db) result" where
  "claim_due_task_tx now d =
     (case next_due (unix_milli now) d of
        None \<Rightarrow> Inr (None, d)
      | Some t \<Rightarrow>
          case tk_pending_due_at t of
            Some due \<Rightarrow> and_then (load_pending_task_snapshot d t) (\<lambda>x. Inr (Some (tk_id t, due, x), d))
          | None \<Rightarrow>
              and_then (load_current_task_snapshot d t) (\<lambda>x.
                Inr (Some (tk_id t, coalesce (tk_next_due_at t) 0, x),
                  d\<lparr>task_rows := update_where (\<lambda>y. tk_id y = tk_id t) (pend_occurrence (unix_milli now) x) (task_rows d)\<rparr>)))"

definition claim_due_task :: "int \<Rightarrow> db \<Rightarrow> (ident \<times> millis \<times> task_snapshot) option result \<times> db" where
  "claim_due_task now d = committed d (claim_due_task_tx now d) (\<lambda>_ r. Inr r)"

subsection \<open>Freezing the workflows\<close>

definition pending_task :: "db \<Rightarrow> ident \<Rightarrow> millis \<Rightarrow> task_row option" where
  "pending_task d i due = find (\<lambda>t. tk_id t = i \<and> tk_pending_due_at t = Some due) (task_rows d)"

definition freeze_pending_task_workflows_tx ::
  "(string \<Rightarrow> bool) \<Rightarrow> db \<Rightarrow> ident \<Rightarrow> millis \<Rightarrow> task_snapshot \<Rightarrow> (task_snapshot \<times> db) result" where
  "freeze_pending_task_workflows_tx printable d i due x =
     (if ts_workflow_id x = '''' \<or> ts_repository_workflows x \<noteq> [] then Inr (x, d)
      else
        and_then (load_workflow_snapshots printable d (ts_workflow_id x) (ts_repositories x)) (\<lambda>ws.
          let x = with_workflows ws x in
          case pending_task d i due of
            None \<Rightarrow> Inl (conflict ''task_occurrence_changed'' ''the pending Task occurrence changed'')
          | Some _ \<Rightarrow>
              Inr (x, d\<lparr>task_rows := update_where (\<lambda>t. tk_id t = i \<and> tk_pending_due_at t = Some due)
                (\<lambda>t. t\<lparr>tk_pending_snapshot := Some x, tk_pending_repository_ids := []\<rparr>) (task_rows d)\<rparr>)))"

definition freeze_pending_task_workflows ::
  "(string \<Rightarrow> bool) \<Rightarrow> db \<Rightarrow> ident \<Rightarrow> millis \<Rightarrow> task_snapshot \<Rightarrow> task_snapshot result \<times> db" where
  "freeze_pending_task_workflows printable d i due x =
     committed d (freeze_pending_task_workflows_tx printable d i due x) (\<lambda>_ x. Inr x)"

subsection \<open>Finishing an occurrence\<close>

definition permanent_task_admission_error :: "service_error \<Rightarrow> bool" where
  "permanent_task_admission_error e \<longleftrightarrow>
     se_code e \<in> {''task_repository_missing'', ''task_repository_unavailable'', ''task_has_no_repositories'',
       ''task_archived'', ''agent_prompt_too_large'', ''invalid_task_schedule''} \<or>
     400 \<le> se_status e \<and> se_status e < 500 \<and> se_status e \<noteq> 409"

text \<open>The next instant of a stored schedule; a stored expression that no longer parses is a storage error.\<close>

definition stored_schedule_next :: "cron_runtime \<Rightarrow> int \<Rightarrow> task_row \<Rightarrow> millis result" where
  "stored_schedule_next rt now t =
     (case parse_cron_schedule rt (coalesce (tk_cron t) '''') (coalesce (tk_timezone t) '''') of
        Inl CronPanic \<Rightarrow> Inl runtime_panic
      | Inl _ \<Rightarrow> Inl unavailable
      | Inr (schedule, _, _) \<Rightarrow> (case cron_next schedule now of Inl _ \<Rightarrow> Inl unavailable | Inr n \<Rightarrow> Inr (unix_milli n)))"

definition admitted_occurrence :: "millis \<Rightarrow> millis \<Rightarrow> task_row \<Rightarrow> task_row" where
  "admitted_occurrence now next' t =
     t\<lparr>tk_pending_due_at := None, tk_pending_snapshot := None, tk_pending_repository_ids := [],
       tk_schedule_retry_at := None, tk_schedule_retry_count := 0, tk_next_due_at := Some next',
       tk_health_status := ''healthy'', tk_health_code := '''', tk_health_message := '''', tk_updated_at := now\<rparr>"

definition blocked_occurrence :: "millis \<Rightarrow> service_error \<Rightarrow> task_row \<Rightarrow> task_row" where
  "blocked_occurrence now e t =
     t\<lparr>tk_schedule_retry_at := None, tk_health_status := ''blocked'', tk_health_code := se_code e,
       tk_health_message := se_message e, tk_updated_at := now\<rparr>"

definition retried_occurrence :: "int \<Rightarrow> service_error \<Rightarrow> task_row \<Rightarrow> task_row" where
  "retried_occurrence now e t =
     (let retries = tk_schedule_retry_count t + 1 in
      t\<lparr>tk_schedule_retry_at := Some (unix_milli (now + int (min retries 15) * 60000000000)),
        tk_schedule_retry_count := retries, tk_health_status := ''error'',
        tk_health_code := ''transient_admission_error'', tk_health_message := se_message e,
        tk_updated_at := unix_milli now\<rparr>)"

text \<open>\<open>failure\<close> is \<^verbatim>\<open>nil\<close> for an occurrence that was admitted.\<close>

definition finish_task_occurrence_tx ::
  "cron_runtime \<Rightarrow> int \<Rightarrow> db \<Rightarrow> ident \<Rightarrow> millis \<Rightarrow> service_error option \<Rightarrow> (unit \<times> db) result" where
  "finish_task_occurrence_tx rt now d i due failure =
     (case pending_task d i due of
        None \<Rightarrow> Inr ((), d)
      | Some t \<Rightarrow>
          if tk_cron t = None \<or> tk_timezone t = None then Inl unavailable
          else
            let update = (\<lambda>f. d\<lparr>task_rows := update_where (\<lambda>x. tk_id x = i \<and> tk_pending_due_at x = Some due) f (task_rows d)\<rparr>) in
            case failure of
              None \<Rightarrow>
                and_then (stored_schedule_next rt now t) (\<lambda>n. Inr ((), update (admitted_occurrence (unix_milli now) n)))
            | Some e \<Rightarrow>
                if \<not> tk_schedule_enabled t \<or> tk_archived t then Inr ((), d)
                else if permanent_task_admission_error e then Inr ((), update (blocked_occurrence (unix_milli now) e))
                else Inr ((), update (retried_occurrence now e)))"

definition finish_task_occurrence ::
  "cron_runtime \<Rightarrow> int \<Rightarrow> db \<Rightarrow> ident \<Rightarrow> millis \<Rightarrow> service_error option \<Rightarrow> unit result \<times> db" where
  "finish_task_occurrence rt now d i due failure =
     committed d (finish_task_occurrence_tx rt now d i due failure) (\<lambda>_ _. Inr ())"

subsection \<open>Polling\<close>

text \<open>One pass of the loop: the instants at which its three steps read the clock, and the ids of its admission.\<close>

record pass =
  ps_claim_at :: int
  ps_admit_at :: int
  ps_finish_at :: int
  ps_ids :: admission_ids

definition occurrence_key :: "ident \<Rightarrow> nat \<Rightarrow> millis \<Rightarrow> string" where
  "occurrence_key i generation due = ''schedule:'' @ i @ '':'' @ show_nat generation @ '':'' @ show_int due"

definition failure_of :: "'a result \<Rightarrow> service_error option" where
  "failure_of r = (case r of Inl e \<Rightarrow> Some e | Inr _ \<Rightarrow> None)"

definition admit_occurrence ::
  "(string \<Rightarrow> bool) \<Rightarrow> int \<Rightarrow> admission_ids \<Rightarrow> db \<Rightarrow> ident \<Rightarrow> millis \<Rightarrow> task_snapshot \<Rightarrow> (run_detail \<times> bool) result \<times> db" where
  "admit_occurrence printable now ids d i due x =
     admit_task printable now ids d i ''schedule'' (occurrence_key i (ts_generation x) due) (Some due) (Some x) ''''"

fun admit_due :: "cron_runtime \<Rightarrow> pass list \<Rightarrow> db \<Rightarrow> unit result \<times> db" where
  "admit_due rt [] d = (Inr (), d)"
| "admit_due rt (p # ps) d =
     (case claim_due_task (ps_claim_at p) d of
        (Inl e, d1) \<Rightarrow> (Inl e, d1)
      | (Inr None, d1) \<Rightarrow> (Inr (), d1)
      | (Inr (Some (i, due, x)), d1) \<Rightarrow>
          (case freeze_pending_task_workflows (cr_printable rt) d1 i due x of
             (Inl e, d2) \<Rightarrow>
               (case finish_task_occurrence rt (ps_finish_at p) d2 i due (Some e) of
                  (Inl e, d3) \<Rightarrow> (Inl e, d3)
                | (Inr _, d3) \<Rightarrow> admit_due rt ps d3)
           | (Inr x, d2) \<Rightarrow>
               (case admit_occurrence (cr_printable rt) (ps_admit_at p) (ps_ids p) d2 i due x of
                  (r, d3) \<Rightarrow>
                    (case finish_task_occurrence rt (ps_finish_at p) d3 i due (failure_of r) of
                       (Inl e, d4) \<Rightarrow> (Inl e, d4)
                     | (Inr _, d4) \<Rightarrow> admit_due rt ps d4))))"

definition admit_due_tasks :: "cron_runtime \<Rightarrow> (nat \<Rightarrow> pass) \<Rightarrow> db \<Rightarrow> int \<Rightarrow> unit result \<times> db" where
  "admit_due_tasks rt passes d limit =
     (if limit < 1 \<or> 100 < limit
      then (Inl (invalid ''invalid_schedule_batch'' ''schedule batch must be between 1 and 100''), d)
      else admit_due rt (map passes [0..<nat limit]) d)"

subsection \<open>Discarding an occurrence\<close>

definition discarded_occurrence :: "millis \<Rightarrow> millis option \<Rightarrow> task_row \<Rightarrow> task_row" where
  "discarded_occurrence now next' t =
     t\<lparr>tk_pending_due_at := None, tk_pending_snapshot := None, tk_pending_repository_ids := [],
       tk_schedule_retry_at := None, tk_schedule_retry_count := 0, tk_next_due_at := next',
       tk_last_discarded_due_at := tk_pending_due_at t,
       tk_health_status := (if tk_schedule_enabled t then ''healthy'' else ''disabled''),
       tk_health_code := '''', tk_health_message := '''', tk_updated_at := now\<rparr>"

text \<open>\<open>requested\<close> is the instant of the request; its zero value is \<open>None\<close>.\<close>

definition discard_task_occurrence_tx :: "cron_runtime \<Rightarrow> int \<Rightarrow> db \<Rightarrow> ident \<Rightarrow> int option \<Rightarrow> (ident \<times> db) result" where
  "discard_task_occurrence_tx rt now d i requested =
     (case requested of
        None \<Rightarrow> Inl (invalid ''pending_due_at_required'' ''pending_due_at is required'')
      | Some at \<Rightarrow>
          case find_task d i of
            None \<Rightarrow> Inl err_not_found
          | Some t \<Rightarrow>
              if tk_migration_only t then Inl err_not_found
              else if tk_cron t = None \<or> tk_timezone t = None then Inl unavailable
              else
                case tk_pending_due_at t of
                  None \<Rightarrow>
                    if tk_last_discarded_due_at t = Some (unix_milli at) then Inr (i, d)
                    else Inl (conflict ''no_pending_occurrence'' ''this Task has no pending occurrence'')
                | Some due \<Rightarrow>
                    if due \<noteq> unix_milli at
                    then Inl (conflict ''pending_occurrence_changed'' ''the pending occurrence changed; refresh and try again'')
                    else if tk_health_status t \<noteq> ''blocked'' \<and> tk_health_status t \<noteq> ''disabled''
                    then Inl (conflict ''pending_occurrence_not_discardable'' ''only a blocked or paused occurrence can be discarded'')
                    else and_then (if tk_schedule_enabled t
                        then and_then (stored_schedule_next rt now t) (\<lambda>n. Inr (Some n)) else Inr None) (\<lambda>n.
                      Inr (i, d\<lparr>task_rows := update_where (\<lambda>x. tk_id x = i \<and> tk_pending_due_at x = Some due)
                        (discarded_occurrence (unix_milli now) n) (task_rows d)\<rparr>)))"

definition discard_task_occurrence :: "cron_runtime \<Rightarrow> int \<Rightarrow> db \<Rightarrow> ident \<Rightarrow> int option \<Rightarrow> task_view result \<times> db" where
  "discard_task_occurrence rt now d i requested =
     committed d (discard_task_occurrence_tx rt now d i requested) task_reply"

end
