(* ===== verification/Admission_Properties.thy ===== *)
theory Admission_Properties
  imports Operator_Properties Scheduler
begin

text \<open>
  What admission promises: a Run has one Work item per repository of its snapshot, queued within the concurrency limit,
  and a request key admits at most one Run.
\<close>

subsection \<open>Admission\<close>

lemma committed_Inr:
  assumes "committed d t f = (Inr v, d')"
  obtains x where "t = Inr (x, d')" "f d' x = Inr v"
  using assms by (auto simp: committed_def split: sum.splits prod.splits)

lemma admit_task_created:
  assumes "admit_task printable now ids d task_id source key scheduled frozen profile = (Inr (v, True), d')"
  obtains t :: task_snapshot and e ready reason where "find_run_by_key d key = None" "ts_repositories t \<noteq> []"
    "admission_plan printable d task_id scheduled frozen profile = Inr (t, e, ready, reason)"
    "admit_run now ids d task_id source key scheduled profile t e ready reason = Inr ((ai_run ids, True), d')"
    "run_reply now d' (ai_run ids) = Inr v"
proof -
  from assms obtain i created where tx: "admit_task_tx printable now ids d task_id source key scheduled frozen profile = Inr ((i, created), d')"
    and reply: "and_then (run_reply now d' i) (\<lambda>v. Inr (v, created)) = Inr (v, True)"
    unfolding admit_task_def by (elim committed_Inr) (auto split: prod.splits)
  from reply have created: "created" "run_reply now d' i = Inr v" by (auto simp: and_then_Inr)
  with tx obtain t e ready reason where none: "find_run_by_key d key = None"
    and plan: "admission_plan printable d task_id scheduled frozen profile = Inr (t, e, ready, reason)"
    and run: "admit_run now ids d task_id source key scheduled profile t e ready reason = Inr ((i, created), d')"
    by (auto simp: admit_task_tx_def and_then_Inr split: option.splits if_splits)
  have "i = ai_run ids" using run by (auto simp: admit_run_def Let_def and_then_Inr)
  moreover have "ts_repositories t \<noteq> []"
  proof -
    from plan obtain x where "ts_repositories x \<noteq> []" "select_workflows printable d x = Inr t"
      by (auto simp: admission_plan_def and_then_Inr)
    then show ?thesis by (auto simp: select_workflows_def and_then_Inr with_workflows_def split: if_splits)
  qed
  ultimately show thesis using run created by (intro that [OF none _ plan]) simp_all
qed

text \<open>A Run that is stored answers its request again.\<close>

lemma admit_task_again:
  assumes "r \<in> set (runs d)" "run_request_key r = key" "same_run_inputs task_id source scheduled profile r"
    "distinct (map run_request_key (runs d))"
  shows "\<exists>v. run_reply now d (run_id r) = Inr v \<and>
    admit_task printable now ids d task_id source key scheduled frozen profile = (Inr (v, False), d)"
proof -
  have "find_run_by_key d key = Some r"
    using find_key [OF assms(4,1)] assms(2) by (simp add: find_run_by_key_def)
  then have "admit_task_tx printable now ids d task_id source key scheduled frozen profile = Inr ((run_id r, False), d)"
    using assms(3) by (simp add: admit_task_tx_def)
  moreover obtain v where "run_reply now d (run_id r) = Inr v"
    using run_reply_found [OF assms(1)] by (cases "run_reply now d (run_id r)") auto
  ultimately show ?thesis by (simp add: admit_task_def)
qed

lemma filter_concat_stages:
  fixes new :: "session list"
  shows "distinct (map ss_id new) \<Longrightarrow> length stages = length new \<Longrightarrow> k < length new \<Longrightarrow>
   filter (\<lambda>g. sg_session_id g = ss_id (new ! k)) (concat (map2 (\<lambda>s. map (session_stage_of (ss_id s))) new stages)) =
   map (session_stage_of (ss_id (new ! k))) (stages ! k)"
proof (induction new arbitrary: stages k)
  case (Cons s new)
  then obtain g gs where gs: "stages = g # gs" by (cases stages) auto
  have own: "filter (\<lambda>x. sg_session_id x = i) (map (session_stage_of j) xs) = (if i = j then map (session_stage_of j) xs else [])"
    for i j xs by (induction xs) (auto simp: session_stage_of_def)
  have others: "filter (\<lambda>x. sg_session_id x = i) (concat (map2 (\<lambda>s. map (session_stage_of (ss_id s))) ss gs)) = []"
    if "i \<notin> ss_id ` set ss" for i gs and ss :: "session list"
    using that by (auto simp: filter_empty_conv session_stage_of_def dest!: set_zip_leftD)
  show ?case
  proof (cases k)
    case 0
    with Cons.prems others [of "ss_id s" new gs] show ?thesis by (simp add: gs own)
  next
    case (Suc j)
    with Cons.prems have "ss_id (new ! j) \<noteq> ss_id s" by (metis distinct.simps(2) length_Cons list.map(2) list.set_map nth_mem imageI Suc_less_eq)
    with Suc Cons show ?thesis by (simp add: gs own)
  qed
qed simp

lemma resolve_stages_shape:
  "resolve_stages t prompt run target gs = Inr stages \<Longrightarrow>
   map (\<lambda>g. (sv_position g, sv_name g)) stages = map (\<lambda>g. (pg_position g, pg_name g)) gs"
  by (induction gs arbitrary: stages) (auto simp: Let_def and_then_Inr split: if_splits)

lemma admitted_stage_rows:
  assumes "resolve_session_stages t prompt run target = Inr stages"
  shows "map (\<lambda>g. (sg_position g, sg_name g, sg_state g)) (map (session_stage_of w) stages) =
    map (\<lambda>g. (pg_position g, pg_name g, StagePending)) (pn_stages (ts_pipeline t))"
proof -
  from assms have "resolve_stages t prompt run target (pn_stages (ts_pipeline t)) = Inr stages"
    by (auto simp: resolve_session_stages_def and_then_Inr split: if_splits)
  then have "map (\<lambda>(p, n). (p, n, StagePending)) (map (\<lambda>g. (sv_position g, sv_name g)) stages) =
      map (\<lambda>(p, n). (p, n, StagePending)) (map (\<lambda>g. (pg_position g, pg_name g)) (pn_stages (ts_pipeline t)))"
    by (simp only: resolve_stages_shape)
  then show ?thesis by (simp add: comp_def session_stage_of_def)
qed

text \<open>C30. Admitting a Run is complete and happens once: a request that creates a Run appends one Run and, for each
  repository of its snapshot in order, one Work item with all stages of the Pipeline pending; at most as many of them are
  queued as the Task's concurrency limit allows, the others are blocked; the store stays well formed, and the same request
  again, with any clock and ids, answers that Run and changes nothing.\<close>

theorem run_has_one_work_per_repository:
  assumes "store_ok d" "distinct (map run_request_key (runs d))" "ai_run ids \<notin> run_id ` set (runs d)" "\<forall>n. fresh_ids ids 0 n d"
    "admit_task printable now ids d task_id source key scheduled frozen profile = (Inr (v, True), d')"
  shows "store_ok d' \<and>
     (\<exists>r new. runs d' = runs d @ [r] \<and> run_id r = ai_run ids \<and> run_request_key r = key \<and> sessions d' = sessions d @ new \<and>
        new \<noteq> [] \<and> map ss_repository_id new = map tr_id (ts_repositories (run_task_snapshot r)) \<and>
        queued_work new \<le> ts_concurrency_limit (run_task_snapshot r) \<and>
        (\<forall>s \<in> set new. ss_run_id s = run_id r \<and> (ss_state s = SessionQueued \<or> ss_state s = SessionBlocked) \<and>
           map (\<lambda>g. (sg_position g, sg_name g, sg_state g)) (filter (\<lambda>g. sg_session_id g = ss_id s) (session_stages d')) =
           map (\<lambda>g. (pg_position g, pg_name g, StagePending)) (pn_stages (ts_pipeline (run_task_snapshot r))))) \<and>
     attempts d' = attempts d \<and> distinct (map run_request_key (runs d')) \<and>
     (\<forall>now2 ids2 frozen2. \<exists>v2.
        admit_task printable now2 ids2 d' task_id source key scheduled frozen2 profile = (Inr (v2, False), d'))"
proof -
  from assms(5) obtain t e ready reason where none: "find_run_by_key d key = None" and some: "ts_repositories t \<noteq> []"
    and run: "admit_run now ids d task_id source key scheduled profile t e ready reason = Inr ((ai_run ids, True), d')"
    by (rule admit_task_created) blast
  have fresh: "fresh_ids ids 0 (length (ts_repositories t)) d" using assms(4) by blast
  from admit_run_Inr [OF assms(1,3) fresh some run] obtain am new stages r where
    am: "am_snapshot am = t" "am_ids am = ids" and ok: "store_ok d'"
    and r: "runs d' = runs d @ [r]" "run_id r = ai_run ids" "run_request_key r = key" "run_task_id r = task_id" "run_source r = source"
      "run_scheduled_at r = scheduled" "run_requested_profile_id r = null_string profile" "run_task_snapshot r = t"
    and new: "sessions d' = sessions d @ new" "length new = length (ts_repositories t)" "length stages = length (ts_repositories t)"
      "\<And>k. k < length (ts_repositories t) \<Longrightarrow> admitted_work am k (ts_repositories t ! k) (new ! k) (stages ! k)"
      "session_stages d' = session_stages d @ concat (map2 (\<lambda>s. map (session_stage_of (ss_id s))) new stages)"
      "queued_work new \<le> ts_concurrency_limit t" "attempts d' = attempts d"
    by metis
  have repos: "map ss_repository_id new = map tr_id (ts_repositories t)"
    using new(2,4) by (auto simp: admitted_work_def intro: nth_equalityI)
  have work: "ss_run_id s = run_id r \<and> (ss_state s = SessionQueued \<or> ss_state s = SessionBlocked) \<and>
      map (\<lambda>g. (sg_position g, sg_name g, sg_state g)) (filter (\<lambda>g. sg_session_id g = ss_id s) (session_stages d')) =
      map (\<lambda>g. (pg_position g, pg_name g, StagePending)) (pn_stages (ts_pipeline t))" if s: "s \<in> set new" for s
  proof -
    obtain k where k: "k < length new" "s = new ! k" using s by (auto simp: in_set_conv_nth)
    with new(2,4) have w: "admitted_work am k (ts_repositories t ! k) s (stages ! k)" by auto
    then have stages: "resolve_session_stages t (ss_resolved_prompt s) (ai_run ids)
        (admission_target (ss_id s) k (ts_repositories t ! k)) = Inr (stages ! k)"
      by (auto simp: admitted_work_def am)
    have "ss_id s = ai_work ids k" using w by (simp add: admitted_work_def am)
    then have "ss_id s \<notin> sg_session_id ` set (session_stages d)" using fresh k(1) new(2) by (auto simp: fresh_ids_def)
    then have "filter (\<lambda>g. sg_session_id g = ss_id s) (session_stages d) = []"
      by (metis (mono_tags, lifting) filter_False imageI)
    moreover have "distinct (map ss_id new)" using store_okD(1) [OF ok] new(1) by (simp add: keys_ok_def)
    ultimately have "filter (\<lambda>g. sg_session_id g = ss_id s) (session_stages d') = map (session_stage_of (ss_id s)) (stages ! k)"
      using filter_concat_stages [of new stages k] new(2,3,5) k by simp
    with admitted_stage_rows [OF stages] w show ?thesis by (simp add: admitted_work_def am r(2))
  qed
  have keys: "distinct (map run_request_key (runs d'))"
    using assms(2) none r(1,3) by (auto simp: find_run_by_key_def find_None_set)
  have "same_run_inputs task_id source scheduled profile r"
    using r(4-7) by (simp add: same_run_inputs_def null_string_def coalesce_def split: option.splits if_splits)
  from admit_task_again [OF _ r(3) this keys] r(1) have again: "\<exists>v2.
      admit_task printable now2 ids2 d' task_id source key scheduled frozen2 profile = (Inr (v2, False), d')" for now2 ids2 frozen2
    by force
  have "new \<noteq> []" using some new(2) by auto
  with ok r(1-3,8) new(1,6,7) repos work keys again show ?thesis by (intro conjI exI [of _ r] exI [of _ new]) auto
qed

lemma store_ok_cong:
  assumes "store_ok d" "runs d' = runs d" "sessions d' = sessions d" "executions d' = executions d" "attempts d' = attempts d"
    "session_stages d' = session_stages d"
  shows "store_ok d'"
proof -
  note ok = store_okD [OF assms(1)]
  have "core_ok d'" by (rule core_ok_runs [OF ok(6) assms(3-6)]) (use ok(1) assms(2) in \<open>simp_all add: keys_ok_def\<close>)
  moreover have "runs_ok d'" using ok(5) by (simp add: runs_ok_def run_finished_iff assms(2,3))
  ultimately show ?thesis by (simp add: store_ok_def)
qed

subsection \<open>Prompts without variables\<close>

lemma template_parts_plain: "CHR ''{'' \<notin> set s \<Longrightarrow> template_parts s = map Inl s"
proof (induction s)
  case Nil
  then show ?case by (subst template_parts.simps) (simp add: variable_at_def)
next
  case (Cons c s)
  then have "variable_at (c # s) = None" by (auto simp: variable_at_def Let_def)
  with Cons show ?case by (subst template_parts.simps) simp
qed

lemma render_plain: "CHR ''{'' \<notin> set s \<Longrightarrow> render_pipeline_prompt vals s = s"
  by (simp add: render_pipeline_prompt_def template_parts_plain comp_def)

subsection \<open>An example\<close>

text \<open>The store of the failed Work with a Task that is scheduled, without reports, and whose Pipeline has a plain prompt.\<close>

definition demo_scheduled_task :: task_row where
  "demo_scheduled_task = demo_task\<lparr>tk_outcome_contract := OutcomeProcessExit, tk_schedule_enabled := True,
     tk_cron := Some ''2 * * * *'', tk_timezone := Some ''UTC'', tk_next_due_at := Some 1000000\<rparr>"

definition demo_scheduled_db :: "task_row list \<Rightarrow> db" where
  "demo_scheduled_db ts = demo_failed_db\<lparr>task_rows := ts,
     pipeline_stages := [\<lparr>ps_pipeline_id = default_pipeline_id,
       ps_stage = \<lparr>pg_position = 0, pg_name = ''Do the task'', pg_prompt = ''Do it''\<rparr>\<rparr>]\<rparr>"

definition demo_ids :: admission_ids where
  "demo_ids = \<lparr>ai_run = ''run-2'', ai_work = (\<lambda>k. CHR ''x'' # replicate k (CHR ''1'')),
     ai_execution = (\<lambda>k. CHR ''x'' # replicate k (CHR ''1''))\<rparr>"

definition demo_admitted_snapshot :: task_snapshot where
  "demo_admitted_snapshot = demo_snapshot\<lparr>ts_outcome_contract := OutcomeProcessExit,
     ts_pipeline := \<lparr>pn_id = default_pipeline_id, pn_name = ''Single agent'', pn_generation = 1,
       pn_stages = [\<lparr>pg_position = 0, pg_name = ''Do the task'', pg_prompt = ''Do it''\<rparr>]\<rparr>\<rparr>"

definition demo_due_snapshot :: task_snapshot where
  "demo_due_snapshot = demo_admitted_snapshot\<lparr>ts_schedule_cron := ''2 * * * *'', ts_schedule_timezone := ''UTC''\<rparr>"

lemmas demo_scheduled_defs =
  demo_scheduled_db_def demo_failed_db_def demo_db_def demo_rows demo_admitted_snapshot_def demo_due_snapshot_def

lemma demo_pipeline_snapshot:
  "load_pipeline_snapshot (demo_scheduled_db ts) default_pipeline_id = Inr (ts_pipeline demo_admitted_snapshot)"
  by (simp add: load_pipeline_snapshot_def Let_def find_pipeline_def stages_of_pipeline_def demo_pipeline_def demo_scheduled_defs)

lemma demo_selected: "selected_repositories (demo_scheduled_db ts) ''task-1'' = ts_repositories demo_admitted_snapshot"
  by (simp add: selected_repositories_def find_repository_def demo_scheduled_defs List.map_filter_simps)

lemma demo_ids_fresh: "fresh_ids demo_ids 0 n (demo_scheduled_db ts)" "ai_run demo_ids \<notin> run_id ` set (runs (demo_scheduled_db ts))"
  by (auto simp: fresh_ids_def demo_ids_def demo_scheduled_defs inj_on_def)

lemma demo_scheduled_ok: "store_ok (demo_scheduled_db ts)"
  by (rule store_ok_cong [OF demo_failed_db_ok]) (simp_all add: demo_scheduled_db_def)

lemma plain_stages:
  assumes "pn_stages (ts_pipeline t) = [\<lparr>pg_position = 0, pg_name = ''Do the task'', pg_prompt = ''Do it''\<rparr>]"
    "stage_prompt_fits t target True ''Do it''"
  obtains g where "resolve_session_stages t prompt run target = Inr [g]"
proof -
  have json: "length (json_object (json_field ''stages'' (json_array (map json_stage_run
      [\<lparr>sv_position = 0, sv_name = ''Do the task'', sv_prompt = ''Do it'', sv_state = StagePending,
          sv_result = '''', sv_error = '''', sv_started_at = None, sv_completed_at = None\<rparr>])))) \<le> max_claim_stage_bytes"
    by (simp add: json_object_def json_field_def json_array_def json_stage_run_def json_omitempty_def json_string_plain byte_def
      json_nat_def show_nat_def base_digits.simps stage_state_text.simps max_claim_stage_bytes_def)
  show thesis
    by (rule that) (use json in \<open>simp add: resolve_session_stages_def assms render_plain\<close>)
qed

lemma demo_stages:
  assumes "t \<in> {demo_admitted_snapshot, demo_due_snapshot}"
  obtains g where "resolve_session_stages t prompt ''run-2''
      (admission_target w 0 \<lparr>tr_id = ''repo-1'', tr_remote_identity = ''git.example.com/team/app''\<rparr>) = Inr [g]"
proof -
  have t: "pn_stages (ts_pipeline t) = [\<lparr>pg_position = 0, pg_name = ''Do the task'', pg_prompt = ''Do it''\<rparr>]"
      "ts_outcome_contract t = OutcomeProcessExit" "ts_name t = ''Fix''"
    using assms by (auto simp: demo_due_snapshot_def demo_admitted_snapshot_def demo_snapshot_def)
  have "agent_prompt_fits ''Fix'' ''git.example.com/team/app'' ''Do it''"
    by (simp add: agent_prompt_fits_def format_agent_prompt_def newline_def max_agent_prompt_bytes_def)
  with t(2,3) have "stage_prompt_fits t (admission_target w 0 \<lparr>tr_id = ''repo-1'', tr_remote_identity = ''git.example.com/team/app''\<rparr>)
      True ''Do it''"
    by (simp add: stage_prompt_fits_def admission_target_def)
  with t(1) show thesis by (rule plain_stages) (rule that)
qed

lemma demo_scheduled_route:
  "select_session_route ((demo_scheduled_db ts)\<lparr>runs := rs\<rparr>) ''repo-1'' ''git.example.com/team/app'' 1000001 '''' ''codex'' =
     Inr (demo_candidate, (demo_scheduled_db ts)\<lparr>runs := rs\<rparr>)"
proof (rule demo_route_idle)
  show "retention_use ((demo_scheduled_db ts)\<lparr>runs := rs\<rparr>) ''worker-1'' ''repo-1'' < max_retained_per_repo"
    "queued_count ((demo_scheduled_db ts)\<lparr>runs := rs\<rparr>) ''worker-1'' = 0"
    by (simp_all add: retention_use_def attempt_uses_repository_def attempt_session_def attempt_execution_def
        find_execution_def find_session_def find_worker_repository_def queued_count_def demo_scheduled_defs
        protocol_limits is_active_def is_terminal_def)
qed (simp_all add: demo_scheduled_defs protocol_limits)

lemma demo_admit_run:
  assumes t: "t \<in> {demo_admitted_snapshot, demo_due_snapshot}" "resolved_prompt d1 ''task-1'' source scheduled t = Inr prompt"
    and d1: "d1 = (demo_scheduled_db ts)\<lparr>runs := runs (demo_scheduled_db ts) @
       [admitted_run 1000001 ''run-2'' ''task-1'' source key scheduled '''' t e]\<rparr>"
  shows "\<exists>d'. admit_run demo_now demo_ids (demo_scheduled_db ts) ''task-1'' source key scheduled '''' t e True '''' =
     Inr ((''run-2'', True), d')"
proof -
  have row: "ts_workflow_id t = ''''" "ts_concurrency_limit t = 1" "ts_runtime t = ''codex''"
      "ts_repositories t = [\<lparr>tr_id = ''repo-1'', tr_remote_identity = ''git.example.com/team/app''\<rparr>]"
    using t by (auto simp: demo_due_snapshot_def demo_admitted_snapshot_def demo_snapshot_def)
  have ids: "unix_milli demo_now = 1000001" "ai_run demo_ids = ''run-2''" by (simp_all add: demo_now_def unix_milli_def demo_ids_def)
  obtain g where g: "resolve_session_stages t prompt ''run-2''
      (admission_target (ai_work demo_ids 0) 0 \<lparr>tr_id = ''repo-1'', tr_remote_identity = ''git.example.com/team/app''\<rparr>) = Inr [g]"
    by (rule demo_stages [OF t(1)])
  let ?am = "\<lparr>am_now = 1000001, am_ids = demo_ids, am_snapshot = t, am_execution = e, am_prompt = prompt,
          am_profile_ready = True, am_profile_reason = ''''\<rparr>"
  have route: "route_admitted ?am \<lparr>tr_id = ''repo-1'', tr_remote_identity = ''git.example.com/team/app''\<rparr> 0 d1 =
      Inr (('''', Some (rc_worker_id demo_candidate)), d1)"
    by (simp add: route_admitted_def row d1 demo_scheduled_route)
  have "\<not> list_ex (\<lambda>s. ss_run_id s = ''run-2'' \<and> tg_target_key (ss_target s) = key) (sessions d1)" for key
    by (simp add: d1 demo_scheduled_defs)
  then have "\<exists>x d2. admit_target ?am 0 \<lparr>tr_id = ''repo-1'', tr_remote_identity = ''git.example.com/team/app''\<rparr> 0 d1 = Inr ((x, True), d2)"
    by (simp add: admit_target_def Let_def target_workflow_def row resolve_task_workflow_prompt_def g ids(2) route
        insert_target_def insert_session_stages_def)
  then obtain x d2 where "admit_targets ?am 0 (ts_repositories t) 0 d1 = Inr ([x], d2)"
    by (auto simp: row and_then_Inr)
  then show ?thesis
    using t(2) by (simp add: admit_run_def Let_def ids row(4) flip: d1)
qed

lemma demo_plan:
  assumes "t \<in> {demo_admitted_snapshot, demo_due_snapshot}"
    "(case frozen of Some t \<Rightarrow> frozen_snapshot (demo_scheduled_db ts) i scheduled t | None \<Rightarrow> live_snapshot (demo_scheduled_db ts) i) = Inr t"
  shows "\<exists>e. admission_plan printable (demo_scheduled_db ts) i scheduled frozen '''' = Inr (t, e, True, '''')"
proof -
  have row: "ts_workflow_id t = ''''" "ts_execution_profile_id t = ''''" "ts_outcome_contract t = OutcomeProcessExit"
      "ts_repositories t = [\<lparr>tr_id = ''repo-1'', tr_remote_identity = ''git.example.com/team/app''\<rparr>]"
    using assms by (auto simp: demo_due_snapshot_def demo_admitted_snapshot_def demo_snapshot_def)
  have "validate_frozen_repositories (demo_scheduled_db ts) (ts_repositories t) = Inr ()"
    by (simp add: row find_repository_def repository_unusable_def demo_scheduled_defs)
  then show ?thesis
    using assms(2) by (simp add: admission_plan_def select_workflows_def load_execution_snapshot_def check_backend_def row Let_def)
qed

lemma demo_admit:
  assumes "admission_plan printable (demo_scheduled_db ts) ''task-1'' scheduled frozen '''' = Inr (t, e, True, '''')"
    "t \<in> {demo_admitted_snapshot, demo_due_snapshot}" "key \<noteq> ''key-1''"
    "\<And>rs. \<exists>prompt. resolved_prompt ((demo_scheduled_db ts)\<lparr>runs := rs\<rparr>) ''task-1'' source scheduled t = Inr prompt"
  shows "\<exists>v d'. admit_task printable demo_now demo_ids (demo_scheduled_db ts) ''task-1'' source key scheduled frozen '''' = (Inr (v, True), d')"
proof -
  obtain prompt where "resolved_prompt ((demo_scheduled_db ts)\<lparr>runs := runs (demo_scheduled_db ts) @
       [admitted_run 1000001 ''run-2'' ''task-1'' source key scheduled '''' t e]\<rparr>) ''task-1'' source scheduled t = Inr prompt"
    using assms(4) by blast
  from demo_admit_run [OF assms(2) this refl] obtain d' where
    run: "admit_run demo_now demo_ids (demo_scheduled_db ts) ''task-1'' source key scheduled '''' t e True '''' = Inr ((''run-2'', True), d')"
    by blast
  have "find_run_by_key (demo_scheduled_db ts) key = None"
    using assms(3) by (simp add: find_run_by_key_def demo_scheduled_defs)
  with run assms(1) have tx: "admit_task_tx printable demo_now demo_ids (demo_scheduled_db ts) ''task-1'' source key scheduled frozen '''' =
      Inr ((''run-2'', True), d')"
    by (simp add: admit_task_tx_def)
  have fresh: "fresh_ids demo_ids 0 (length (ts_repositories t)) (demo_scheduled_db ts)" by (rule demo_ids_fresh)
  have "ts_repositories t \<noteq> []" using assms(2) by (auto simp: demo_due_snapshot_def demo_admitted_snapshot_def demo_snapshot_def)
  from admit_run_Inr [OF demo_scheduled_ok demo_ids_fresh(2) fresh this run] obtain r where "r \<in> set (runs d')" "run_id r = ''run-2''"
    by (metis demo_ids_def admission_ids.select_convs(1) in_set_conv_decomp)
  then obtain v where "run_reply demo_now d' ''run-2'' = Inr v"
    using run_reply_found [of r d' demo_now] by (cases "run_reply demo_now d' ''run-2''") auto
  then show ?thesis by (simp add: admit_task_def tx)
qed

lemma demo_live: "live_snapshot (demo_scheduled_db [demo_scheduled_task]) ''task-1'' = Inr demo_admitted_snapshot"
proof -
  have "find_task (demo_scheduled_db [demo_scheduled_task]) ''task-1'' = Some demo_scheduled_task"
    by (simp add: find_task_def demo_scheduled_db_def demo_scheduled_task_def demo_task_def)
  moreover have "task_pipeline_id demo_scheduled_task = default_pipeline_id" "\<not> tk_read_only demo_scheduled_task"
      "\<not> tk_archived demo_scheduled_task" "\<not> tk_migration_only demo_scheduled_task" "tk_id demo_scheduled_task = ''task-1''"
    by (simp_all add: demo_scheduled_task_def demo_task_def task_pipeline_id_def coalesce_def)
  moreover have "current_task_snapshot (demo_scheduled_db ts) demo_scheduled_task (ts_pipeline demo_admitted_snapshot) = demo_admitted_snapshot" for ts
    using demo_selected [of ts]
    by (simp add: current_task_snapshot_def demo_scheduled_task_def demo_task_def demo_admitted_snapshot_def demo_snapshot_def coalesce_def)
  ultimately show ?thesis by (simp add: live_snapshot_def demo_pipeline_snapshot)
qed

lemma run_has_one_work_per_repository_witness:
  "\<exists>d'. store_ok d' \<and> attempts d' = attempts (demo_scheduled_db [demo_scheduled_task]) \<and>
     (\<exists>r new. runs d' = runs (demo_scheduled_db [demo_scheduled_task]) @ [r] \<and> run_id r = ''run-2'' \<and>
        sessions d' = sessions (demo_scheduled_db [demo_scheduled_task]) @ new \<and> new \<noteq> [])"
proof -
  let ?d = "demo_scheduled_db [demo_scheduled_task]"
  obtain e where "admission_plan (\<lambda>_. True) ?d ''task-1'' None None '''' = Inr (demo_admitted_snapshot, e, True, '''')"
    using demo_plan [where t = demo_admitted_snapshot and frozen = None] demo_live by fastforce
  then obtain v d' where run: "admit_task (\<lambda>_. True) demo_now demo_ids ?d ''task-1'' ''manual'' ''key-2'' None None '''' = (Inr (v, True), d')"
    using demo_admit [where source = "''manual''"]
    by (fastforce simp: resolved_prompt_def demo_admitted_snapshot_def demo_snapshot_def max_resolved_prompt_bytes_def)
  have keys: "distinct (map run_request_key (runs ?d))" by (simp add: demo_scheduled_defs)
  have "\<forall>n. fresh_ids demo_ids 0 n ?d" using demo_ids_fresh(1) by blast
  from run_has_one_work_per_repository [OF demo_scheduled_ok keys demo_ids_fresh(2) this run] show ?thesis
    by (auto simp: demo_ids_def)
qed

end
