(* ===== verification/Cron_Properties.thy ===== *)
theory Cron_Properties
  imports Cron
begin

text \<open>
  What schedules promise: the next instant is the earliest one that matches, and neither reading an expression nor
  matching an instant leaves the slices of its fields, except when the step of an item overflows.
\<close>

subsection \<open>The search for the next minute\<close>

lemma first_match_step:
  "limit < c \<Longrightarrow> first_match s limit c = None"
  "\<not> limit < c \<Longrightarrow> cron_matches s c \<Longrightarrow> first_match s limit c = Some c"
  "\<not> limit < c \<Longrightarrow> \<not> cron_matches s c \<Longrightarrow> first_match s limit c = first_match s limit (c + 60)"
  using first_match.simps [of s limit c] by simp_all

lemma same_second: "c \<le> u \<Longrightarrow> u mod 60 = c mod 60 \<Longrightarrow> u = c \<or> c + 60 \<le> u" for c u :: int
  using zdvd_imp_le [of 60 "u - c"] by (cases "c < u") (auto simp: mod_eq_dvd_iff)

lemma first_match_Some:
  "first_match s limit c = Some sec \<Longrightarrow>
   c \<le> sec \<and> sec \<le> limit \<and> sec mod 60 = c mod 60 \<and> cron_matches s sec \<and>
   (\<forall>u. c \<le> u \<longrightarrow> u < sec \<longrightarrow> u mod 60 = c mod 60 \<longrightarrow> \<not> cron_matches s u)"
proof (induction s limit c rule: first_match.induct)
  case (1 s limit c)
  consider "limit < c" | "\<not> limit < c" "cron_matches s c" | "\<not> limit < c" "\<not> cron_matches s c" by blast
  then show ?case
  proof cases
    case 1
    with "1.prems" show ?thesis by (simp add: first_match_step(1))
  next
    case 2
    with "1.prems" show ?thesis by (simp add: first_match_step(2))
  next
    case 3
    with "1.prems" have "first_match s limit (c + 60) = Some sec" by (simp add: first_match_step(3))
    with "1.IH" 3 have ih: "c + 60 \<le> sec" "sec \<le> limit" "sec mod 60 = c mod 60" "cron_matches s sec"
      "\<And>u. c + 60 \<le> u \<Longrightarrow> u < sec \<Longrightarrow> u mod 60 = c mod 60 \<Longrightarrow> \<not> cron_matches s u"
      by simp_all
    have "\<not> cron_matches s u" if "c \<le> u" "u < sec" "u mod 60 = c mod 60" for u
      using same_second [OF that(1,3)] ih(5) [OF _ that(2,3)] 3(2) by blast
    with ih show ?thesis by simp
  qed
qed

lemma first_match_None:
  "first_match s limit c = None \<Longrightarrow> c \<le> u \<Longrightarrow> u \<le> limit \<Longrightarrow> u mod 60 = c mod 60 \<Longrightarrow> \<not> cron_matches s u"
proof (induction s limit c rule: first_match.induct)
  case (1 s limit c)
  have c: "\<not> limit < c" using "1.prems"(2,3) by simp
  with "1.prems"(1) have m: "\<not> cron_matches s c" by (auto simp: first_match_step(2))
  with c "1.prems"(1) have "first_match s limit (c + 60) = None" by (simp add: first_match_step(3))
  with "1.IH" [OF c m] "1.prems"(3,4) m same_second [OF "1.prems"(2,4)] show ?case by auto
qed

lemma first_candidate: "first_candidate after mod 60 = 0" "after < first_candidate after * 1000000000"
  "after < u * 1000000000 \<Longrightarrow> u mod 60 = 0 \<Longrightarrow> first_candidate after \<le> u"
proof -
  show "first_candidate after mod 60 = 0" by (simp add: first_candidate_def)
  have b: "seconds_of after div 60 * 60 \<le> seconds_of after" "seconds_of after < seconds_of after div 60 * 60 + 60"
    using div_mult_mod_eq [of "seconds_of after" 60] pos_mod_bound [of 60 "seconds_of after"] pos_mod_sign [of 60 "seconds_of after"]
    by linarith+
  have t: "seconds_of after * 1000000000 \<le> after" "after < seconds_of after * 1000000000 + 1000000000"
    using div_mult_mod_eq [of after 1000000000] pos_mod_bound [of 1000000000 after] pos_mod_sign [of 1000000000 after]
    unfolding seconds_of_def by linarith+
  show "after < first_candidate after * 1000000000" using b t by (simp add: first_candidate_def)
  assume u: "after < u * 1000000000" "u mod 60 = 0"
  obtain k where k: "u = 60 * k" using u(2) by (metis mult.commute mult_div_mod_eq add.right_neutral)
  have "seconds_of after < u" using u(1) t(1) by linarith
  then have "seconds_of after div 60 < k" using b k by linarith
  then show "first_candidate after \<le> u" unfolding first_candidate_def k by simp
qed

definition utc_runtime :: cron_runtime where
  "utc_runtime = \<lparr>cr_zones = (\<lambda>zone. if zone = ''UTC'' then Inr (\<lambda>_. 0) else Inl ''unknown time zone''),
     cr_printable = (\<lambda>_. True), cr_month_order = map fst cron_months, cr_weekday_order = map fst cron_weekdays\<rparr>"

text \<open>The schedule that \<open>2 * * * *\<close> reads as: the third minute of every hour.\<close>

definition third_minute :: cron_schedule where
  "third_minute =
     (let every = (\<lambda>allowed. \<lparr>cf_allowed = allowed, cf_wildcard = True\<rparr>) in
      \<lparr>cs_minute = \<lparr>cf_allowed = (replicate 60 False)[2 := True], cf_wildcard = False\<rparr>, cs_hour = every (replicate 24 True),
       cs_day_of_month = every (False # replicate 31 True), cs_month = every (False # replicate 12 True),
       cs_day_of_week = every (replicate 7 True @ [False]), cs_location = (\<lambda>_. 0)\<rparr>)"

text \<open>C28. The next instant of a schedule is the earliest whole minute after the given instant, within ten years, at
  which the schedule matches; the search fails exactly when no minute of these ten years matches.\<close>

theorem next_instant_is_earliest:
  shows "case cron_next s after of
      Inr t \<Rightarrow>
        (\<exists>sec. t = sec * 1000000000 \<and> sec mod 60 = 0 \<and> after < t \<and> sec \<le> cron_limit after \<and> cron_matches s sec \<and>
          (\<forall>u. after < u * 1000000000 \<longrightarrow> u < sec \<longrightarrow> u mod 60 = 0 \<longrightarrow> \<not> cron_matches s u))
    | Inl e \<Rightarrow>
        e = CronError ''cron has no matching instant within 10 years'' \<and>
        (\<forall>u. after < u * 1000000000 \<longrightarrow> u \<le> cron_limit after \<longrightarrow> u mod 60 = 0 \<longrightarrow> \<not> cron_matches s u)"
proof (cases "first_match s (cron_limit after) (first_candidate after)")
  case None
  have "show_int cron_search_years = ''10''" by code_simp
  with first_match_None [OF None] first_candidate(1) [of after] first_candidate(3) [of after] show ?thesis
    by (auto simp: cron_next_def None)
next
  case (Some sec)
  from first_match_Some [OF Some] first_candidate(1) [of after] have
    f: "first_candidate after \<le> sec" "sec \<le> cron_limit after" "sec mod 60 = 0" "cron_matches s sec"
    "\<And>u. first_candidate after \<le> u \<Longrightarrow> u < sec \<Longrightarrow> u mod 60 = 0 \<Longrightarrow> \<not> cron_matches s u"
    by auto
  have "after < sec * 1000000000" using f(1) first_candidate(2) [of after] by linarith
  with f(2-5) first_candidate(3) [of after] show ?thesis by (auto simp: cron_next_def Some)
qed

theorem next_instant_is_earliest_witness:
  "cron_next third_minute 0 = Inr 120000000000 \<and> cron_matches third_minute 120 \<and> \<not> cron_matches third_minute 60"
proof -
  have facts: "cron_limit 0 = 315532860" "first_candidate 0 = 60" "cron_matches third_minute 120"
    "\<not> cron_matches third_minute 60"
    by code_simp+
  then have "first_match third_minute (cron_limit 0) (first_candidate 0) = Some 120"
    by (simp add: first_match_step(2,3))
  then have "cron_next third_minute 0 = Inr 120000000000" by (simp add: cron_next_def)
  moreover from this have "cron_matches third_minute 120" "\<not> cron_matches third_minute 60"
    using next_instant_is_earliest [where s = third_minute and after = 0] by auto
  ultimately show ?thesis by simp
qed

subsection \<open>A panic\<close>

text \<open>A step so large that the second value leaves the range of 64-bit integers.\<close>

lemma fields_ascii: "ascii s \<Longrightarrow> fields_of s = split_spaces (map (\<lambda>c. [c]) s) []"
  by (simp add: fields_of_def utf8_chunks_ascii)

lemma to_upper_ascii: "ascii s \<Longrightarrow> to_upper s = concat (map (\<lambda>c. upper_chunk [c]) s)"
  by (simp add: to_upper_def utf8_chunks_ascii comp_def)

lemma one_byte_space: "[c] \<in> set space_runes \<longleftrightarrow> byte c \<in> {9, 10, 11, 12, 13, 32}"
proof -
  have "c = char_of n \<longleftrightarrow> byte c = n" if "n < 256" for n :: nat
    using that by (auto simp: byte_def)
  then show ?thesis by (simp add: space_runes_def chars_of_def)
qed

lemma overflowing_minute: "parse_cron_field (\<lambda>_. True) [] False 0 59 ''1/9223372036854775807'' = Inl CronPanic"
  by code_simp

lemma overflowing_schedule: "parse_cron_schedule utc_runtime ''1/9223372036854775807 * * * *'' ''UTC'' = Inl CronPanic"
proof -
  have "cron_syntax utc_runtime ''1/9223372036854775807 * * * *'' = Inr ()"
    by (simp add: cron_syntax_def to_upper_ascii ascii_def byte_def upper_chunk_def ascii_upper_def in_range_def chars_of_def
        utc_runtime_def cron_months_def cron_weekdays_def)
  moreover have "fields_of ''1/9223372036854775807 * * * *'' = [''1/9223372036854775807'', ''*'', ''*'', ''*'', ''*'']"
    by (simp add: fields_ascii ascii_def byte_def one_byte_space)
  moreover have "trim_space ''UTC'' = ''UTC''" by (simp add: trim_space_visible in_range_def byte_def)
  moreover have "parse_cron_fields utc_runtime (''1/9223372036854775807'' # rest) (\<lambda>_. 0) = Inl CronPanic" for rest
    unfolding parse_cron_fields_def nth_Cons_0 Let_def
    by (simp add: utc_runtime_def overflowing_minute cron_field_error_def)
  moreover have "cr_zones utc_runtime ''UTC'' = Inr (\<lambda>_. 0)" by (simp add: utc_runtime_def)
  ultimately show ?thesis unfolding parse_cron_schedule_def Let_def by simp
qed

subsection \<open>Indexes\<close>

lemma schedule_indexes:
  "case parse_cron_schedule rt expression timezone of
     Inr (s, cron, zone) \<Rightarrow> \<forall>sec. cron_reads_in_range s sec
   | Inl CronPanic \<Rightarrow>
       (\<exists>value \<in> set (fields_of expression). \<exists>item \<in> set (split_on (CHR '','') value). overflowing_step 59 item)
   | Inl (CronError _) \<Rightarrow> True"
proof (cases "parse_cron_schedule rt expression timezone")
  case (Inr r)
  then show ?thesis using parse_cron_schedule_shape cron_shape_reads by (cases r) auto
next
  case (Inl e)
  show ?thesis
  proof (cases e)
    case CronPanic
    let ?fs = "fields_of expression"
    from Inl CronPanic obtain loc where fs: "length ?fs = 5" and p: "parse_cron_fields rt ?fs loc = Inl CronPanic"
      by (auto simp: parse_cron_schedule_def cron_syntax_def Let_def split: if_splits sum.splits option.splits)
    have names: "names_within [] a b" "names_within cron_months 1 12" "names_within cron_weekdays 0 7" for a b
      by (simp_all add: names_within_def cron_months_def cron_weekdays_def)
    have bad: "k < 5 \<Longrightarrow> parse_cron_field pr ns sunday minimum maximum (?fs ! k) = Inl CronPanic \<Longrightarrow>
        names_within ns minimum maximum \<Longrightarrow> 0 \<le> minimum \<Longrightarrow> minimum \<le> maximum \<Longrightarrow> maximum \<le> 59 \<Longrightarrow>
        \<exists>k < 5. \<exists>item \<in> set (split_on (CHR '','') (?fs ! k)). overflowing_step 59 item"
      for k pr ns sunday minimum maximum
      using parse_cron_field_panic [of pr ns sunday minimum maximum "?fs ! k"] overflowing_step_mono by blast
    define pr where "pr = cr_printable rt"
    from p consider
      "parse_cron_field pr [] False 0 59 (?fs ! 0) = Inl CronPanic" | "parse_cron_field pr [] False 0 23 (?fs ! 1) = Inl CronPanic"
    | "parse_cron_field pr [] False 1 31 (?fs ! 2) = Inl CronPanic"
    | "parse_cron_field pr cron_months False 1 12 (?fs ! 3) = Inl CronPanic"
    | "parse_cron_field pr cron_weekdays True 0 7 (?fs ! 4) = Inl CronPanic"
      by (auto simp: parse_cron_fields_def Let_def pr_def split: sum.splits)
    then have "\<exists>k < 5. \<exists>item \<in> set (split_on (CHR '','') (?fs ! k)). overflowing_step 59 item"
      by cases (erule bad [rotated]; simp add: names)+
    with fs show ?thesis using Inl CronPanic by (auto simp: set_conv_nth)
  qed (simp add: Inl)
qed

text \<open>C29. Reading a cron expression and matching an instant never index outside the slice of a field: an expression
  that is accepted matches every instant inside its slices, and reading panics only on an expression one of whose steps
  is within 59 of the largest 64-bit integer. Such expressions exist.\<close>

theorem indexes_stay_in_range:
  "(case parse_cron_schedule rt expression timezone of
     Inr (s, cron, zone) \<Rightarrow> \<forall>sec. cron_reads_in_range s sec
   | Inl CronPanic \<Rightarrow>
       (\<exists>value \<in> set (fields_of expression). \<exists>item \<in> set (split_on (CHR '','') value). overflowing_step 59 item)
   | Inl (CronError _) \<Rightarrow> True) \<and>
   parse_cron_schedule utc_runtime ''1/9223372036854775807 * * * *'' ''UTC'' = Inl CronPanic"
  using schedule_indexes overflowing_schedule by (rule conjI)

end
