(* ===== verification/Schedule_Properties.thy ===== *)
theory Schedule_Properties
  imports Admission_Properties Cron_Properties
begin

text \<open>
  What the scheduler makes of admission: an occurrence of a Task's schedule becomes one Run, although claiming, freezing,
  admitting and finishing it are transactions of their own between which a poll may stop.
\<close>

subsection \<open>Occurrences\<close>

text \<open>Admission neither touches the rows of Tasks nor those of repositories.\<close>

definition same_catalog :: "db \<Rightarrow> db \<Rightarrow> bool" where
  "same_catalog d d' \<longleftrightarrow> task_rows d' = task_rows d \<and> repositories d' = repositories d \<and> pipelines d' = pipelines d \<and>
     pipeline_stages d' = pipeline_stages d \<and> task_repositories d' = task_repositories d \<and> workers d' = workers d"

lemma same_catalog_trans [trans]: "same_catalog d e \<Longrightarrow> same_catalog e f \<Longrightarrow> same_catalog d f"
  by (simp add: same_catalog_def)

lemma same_catalog_reservations:
  assumes "same_but_reservations d d'"
  shows "same_catalog d d'"
  unfolding same_catalog_def
  by (intro conjI; subst assms [unfolded same_but_reservations_def]; simp)

lemma admit_target_catalog:
  assumes "admit_target am position r m d = Inr (x, d')"
  shows "same_catalog d d'"
proof -
  from assms obtain workflow prompt stages reason worker d1 where route: "route_admitted am r m d = Inr ((reason, worker), d1)"
    and rest: "insert_target am (admission_target (ai_work (am_ids am) position) position r) workflow prompt stages reason worker d1 = Inr (x, d')"
    by (auto simp: admit_target_def Let_def and_then_Inr)
  have "same_catalog d d1" using route_admitted_same [OF route] by (rule same_catalog_reservations)
  also have "same_catalog d1 d'"
    using rest by (auto simp: insert_target_def insert_session_stages_def queue_admitted_def same_catalog_def split: if_splits option.splits)
  finally show ?thesis .
qed

lemma admit_targets_catalog: "admit_targets am position rs m d = Inr (targets, d') \<Longrightarrow> same_catalog d d'"
proof (induction rs arbitrary: position m d targets)
  case Nil
  then show ?case by (simp add: same_catalog_def)
next
  case (Cons r rs)
  then obtain x d1 m' targets' where "admit_target am position r m d = Inr (x, d1)"
    and "admit_targets am (Suc position) rs m' d1 = Inr (targets', d')"
    by (auto simp: and_then_Inr split: prod.splits)
  then show ?case using Cons.IH by (blast intro: same_catalog_trans admit_target_catalog)
qed

lemma admit_task_catalog:
  assumes "admit_task printable now ids d task_id source key scheduled frozen profile = (Inr v, d')"
  shows "same_catalog d d'"
proof -
  from assms obtain x where "admit_task_tx printable now ids d task_id source key scheduled frozen profile = Inr (x, d')"
    unfolding admit_task_def by (elim committed_Inr)
  moreover have "same_catalog d d'" if "admit_run now ids d task_id source key scheduled profile t e ready reason = Inr (x, d')" for t e ready reason
    using that by (auto simp: admit_run_def Let_def and_then_Inr same_catalog_def dest!: admit_targets_catalog)
  ultimately show ?thesis
    by (auto simp: admit_task_tx_def and_then_Inr same_catalog_def split: option.splits if_splits)
qed

text \<open>The Task has the occurrence \<open>due\<close> pending, frozen as \<open>x\<close>.\<close>

definition frozen_occurrence :: "db \<Rightarrow> ident \<Rightarrow> millis \<Rightarrow> task_snapshot \<Rightarrow> bool" where
  "frozen_occurrence d i due x \<longleftrightarrow>
     (\<exists>t. find_task d i = Some t \<and> tk_pending_due_at t = Some due \<and> load_pending_task_snapshot d t = Inr x)"

lemma find_task_update:
  "(\<And>t. tk_id (f t) = tk_id t) \<Longrightarrow> task_rows d' = update_where P f (task_rows d) \<Longrightarrow> find_task d i = Some t \<Longrightarrow> P t \<Longrightarrow>
   find_task d' i = Some (f t)"
  by (simp add: find_task_def find_update_where)

lemma find_task_in: "distinct (map tk_id (task_rows d)) \<Longrightarrow> t \<in> set (task_rows d) \<Longrightarrow> find_task d (tk_id t) = Some t"
  by (simp add: find_task_def find_key)

lemma find_task_Some: "find_task d i = Some t \<Longrightarrow> t \<in> set (task_rows d) \<and> tk_id t = i"
  unfolding find_task_def by (drule find_Some_set) simp

lemma pending_task_found:
  assumes "distinct (map tk_id (task_rows d))" "find_task d i = Some t" "tk_pending_due_at t = Some due"
  shows "pending_task d i due = Some t"
proof -
  have t: "t \<in> set (task_rows d)" "tk_id t = i" using find_task_Some [OF assms(2)] by simp_all
  obtain x where x: "pending_task d i due = Some x"
    using t assms(3) by (cases "pending_task d i due") (auto simp: pending_task_def find_None_set)
  then have "x \<in> set (task_rows d)" "tk_id x = i" unfolding pending_task_def by (auto dest: find_Some_set)
  with assms(1) t x show ?thesis using key_unique [of tk_id "task_rows d" x t] by simp
qed

lemma next_due_Some:
  assumes "next_due now d = Some t"
  shows "t \<in> set (task_rows d)" "due_now now t"
proof -
  have "t \<in> set (sort_key due_key (filter (due_now now) (task_rows d)))"
    using assms by (cases "sort_key due_key (filter (due_now now) (task_rows d))") (auto simp: next_due_def)
  then show "t \<in> set (task_rows d)" "due_now now t" by simp_all
qed

lemma legacy_reload:
  assumes "repositories d' = repositories d"
  shows "load_pending_task_snapshot d' t = load_pending_task_snapshot d t"
proof -
  have "legacy_repositories d' = legacy_repositories d"
  proof
    show "legacy_repositories d' is = legacy_repositories d is" for "is"
      by (induction "is") (simp_all add: find_repository_def assms split: option.split)
  qed
  then show ?thesis unfolding load_pending_task_snapshot_def by (simp only:)
qed

lemma claim_freezes:
  assumes "claim_due_task now d = (Inr (Some (i, due, x)), d')" "distinct (map tk_id (task_rows d))"
  shows "frozen_occurrence d' i due x" "map tk_id (task_rows d') = map tk_id (task_rows d)" "d' = d\<lparr>task_rows := task_rows d'\<rparr>"
proof -
  from assms(1) obtain r where "claim_due_task_tx now d = Inr (r, d')" "r = Some (i, due, x)"
    unfolding claim_due_task_def by (elim committed_Inr) simp
  then obtain t where next': "next_due (unix_milli now) d = Some t" and t: "tk_id t = i"
    and choice: "tk_pending_due_at t = Some due \<and> load_pending_task_snapshot d t = Inr x \<and> d' = d \<or>
      load_current_task_snapshot d t = Inr x \<and> tk_pending_due_at t = None \<and> due = coalesce (tk_next_due_at t) 0 \<and>
      d' = d\<lparr>task_rows := update_where (\<lambda>y. tk_id y = tk_id t) (pend_occurrence (unix_milli now) x) (task_rows d)\<rparr>"
    by (auto simp: claim_due_task_tx_def and_then_Inr split: option.splits)
  note due = next_due_Some [OF next']
  have found: "find_task d i = Some t" using find_task_in [OF assms(2) due(1)] t by simp
  have keep: "tk_id (pend_occurrence m x y) = tk_id y" for m y by (simp add: pend_occurrence_def)
  show "map tk_id (task_rows d') = map tk_id (task_rows d)" "d' = d\<lparr>task_rows := task_rows d'\<rparr>"
    using choice by (auto simp: map_update_where keep)
  from choice show "frozen_occurrence d' i due x"
  proof
    assume c: "load_current_task_snapshot d t = Inr x \<and> tk_pending_due_at t = None \<and> due = coalesce (tk_next_due_at t) 0 \<and>
      d' = d\<lparr>task_rows := update_where (\<lambda>y. tk_id y = tk_id t) (pend_occurrence (unix_milli now) x) (task_rows d)\<rparr>"
    let ?t = "pend_occurrence (unix_milli now) x t"
    have "find_task d' i = Some ?t" using find_task_update [OF keep _ found] c by simp
    moreover have "tk_pending_due_at ?t = Some due"
      using c due(2) by (auto simp: pend_occurrence_def due_now_def coalesce_def split: option.splits)
    moreover have "ts_id x = tk_id t"
      using c by (auto simp: load_current_task_snapshot_def current_task_snapshot_def and_then_Inr split: if_splits)
    then have "load_pending_task_snapshot d' ?t = Inr x"
      by (cases x) (simp add: load_pending_task_snapshot_def pend_occurrence_def Let_def)
    ultimately show ?thesis by (simp add: frozen_occurrence_def)
  qed (use found in \<open>simp add: frozen_occurrence_def\<close>)
qed

lemma freeze_freezes:
  assumes "freeze_pending_task_workflows printable d i due x = (Inr y, d')" "frozen_occurrence d i due x"
    "distinct (map tk_id (task_rows d))"
  shows "frozen_occurrence d' i due y" "map tk_id (task_rows d') = map tk_id (task_rows d)" "d' = d\<lparr>task_rows := task_rows d'\<rparr>"
    "ts_generation y = ts_generation x"
proof -
  from assms(1) have tx: "freeze_pending_task_workflows_tx printable d i due x = Inr (y, d')"
    unfolding freeze_pending_task_workflows_def by (elim committed_Inr) simp
  consider (kept) "y = x" "d' = d"
  | (written) ws where "y = with_workflows ws x"
      "d' = d\<lparr>task_rows := update_where (\<lambda>t. tk_id t = i \<and> tk_pending_due_at t = Some due)
         (\<lambda>t. t\<lparr>tk_pending_snapshot := Some y, tk_pending_repository_ids := []\<rparr>) (task_rows d)\<rparr>"
  proof (cases "ts_workflow_id x = '''' \<or> ts_repository_workflows x \<noteq> []")
    case True
    with tx kept show thesis by (simp add: freeze_pending_task_workflows_tx_def)
  next
    case False
    with tx obtain ws where c: "(case pending_task d i due of
        None \<Rightarrow> Inl (conflict ''task_occurrence_changed'' ''the pending Task occurrence changed'')
      | Some _ \<Rightarrow> Inr (with_workflows ws x, d\<lparr>task_rows := update_where (\<lambda>t. tk_id t = i \<and> tk_pending_due_at t = Some due)
          (\<lambda>t. t\<lparr>tk_pending_snapshot := Some (with_workflows ws x), tk_pending_repository_ids := []\<rparr>) (task_rows d)\<rparr>)) = Inr (y, d')"
      unfolding freeze_pending_task_workflows_tx_def Let_def if_not_P [OF False] and_then_Inr by blast
    show thesis
    proof (cases "pending_task d i due")
      case None
      with c show thesis by simp
    next
      case (Some t)
      from c show thesis unfolding Some option.case sum.inject prod.inject
        by (elim conjE) (rule written [of ws]; (simp only:)?)
    qed
  qed
  then have "frozen_occurrence d' i due y \<and> map tk_id (task_rows d') = map tk_id (task_rows d) \<and>
    d' = d\<lparr>task_rows := task_rows d'\<rparr> \<and> ts_generation y = ts_generation x"
  proof cases
    case kept
    with assms(2) show ?thesis by simp
  next
    case written
    from assms(2) obtain t where t: "find_task d i = Some t" "tk_pending_due_at t = Some due" "load_pending_task_snapshot d t = Inr x"
      by (auto simp: frozen_occurrence_def)
    let ?t = "t\<lparr>tk_pending_snapshot := Some y, tk_pending_repository_ids := []\<rparr>"
    have "find_task d' i = Some ?t"
      by (rule find_task_update [where P = "\<lambda>t. tk_id t = i \<and> tk_pending_due_at t = Some due", OF _ _ t(1)])
        (use written(2) t(2) find_task_Some [OF t(1)] in simp_all)
    moreover from t(3) have "ts_id x = '''' \<longrightarrow> tk_id t = ''''"
      by (auto simp: load_pending_task_snapshot_def Let_def and_then_Inr split: option.splits if_splits)
    then have "load_pending_task_snapshot d' ?t = Inr y"
      by (cases x) (auto simp: load_pending_task_snapshot_def Let_def written(1) with_workflows_def)
    ultimately show ?thesis using t(2) written by (simp add: frozen_occurrence_def map_update_where) (simp add: with_workflows_def)
  qed
  then show "frozen_occurrence d' i due y" "map tk_id (task_rows d') = map tk_id (task_rows d)" "d' = d\<lparr>task_rows := task_rows d'\<rparr>"
    "ts_generation y = ts_generation x" by simp_all
qed

lemma stored_schedule_next_later: "stored_schedule_next rt now t = Inr n \<Longrightarrow> now < n * 1000000"
proof -
  assume "stored_schedule_next rt now t = Inr n"
  then obtain schedule x where x: "cron_next schedule now = Inr x" "n = unix_milli x"
    by (auto simp: stored_schedule_next_def split: sum.splits prod.splits cron_failure.splits)
  then obtain sec where "x = sec * 1000000000" "now < x"
    by (auto simp: cron_next_def split: option.splits dest!: first_match_Some)
      (use first_candidate(2) [of now] in linarith)
  moreover have "sec * 1000000000 div 1000000 = sec * 1000" by (simp add: div_mult_swap flip: mult.assoc)
  ultimately show ?thesis using x(2) by (simp add: unix_milli_def)
qed

lemma occurrence_id: "tk_id (admitted_occurrence now n t) = tk_id t"
  by (simp add: admitted_occurrence_def)

text \<open>An admitted occurrence is no longer pending, and the Task is not due before its next instant.\<close>

lemma finish_clears:
  assumes "finish_task_occurrence rt now d i due None = (Inr (), d')" "find_task d i = Some t" "tk_pending_due_at t = Some due"
    "distinct (map tk_id (task_rows d))"
  obtains n where "find_task d' i = Some (admitted_occurrence (unix_milli now) n t)" "now < n * 1000000" "runs d' = runs d"
proof -
  from assms(1) have tx: "finish_task_occurrence_tx rt now d i due None = Inr ((), d')"
    unfolding finish_task_occurrence_def by (elim committed_Inr) simp
  then obtain n where n: "stored_schedule_next rt now t = Inr n"
    "d' = d\<lparr>task_rows := update_where (\<lambda>x. tk_id x = i \<and> tk_pending_due_at x = Some due)
       (admitted_occurrence (unix_milli now) n) (task_rows d)\<rparr>"
    by (auto simp: finish_task_occurrence_tx_def pending_task_found [OF assms(4,2,3)] and_then_Inr Let_def split: if_splits)
  have "find_task d' i = Some (admitted_occurrence (unix_milli now) n t)"
    by (rule find_task_update [where P = "\<lambda>x. tk_id x = i \<and> tk_pending_due_at x = Some due", OF _ _ assms(2)])
      (use assms(3) find_task_Some [OF assms(2)] in \<open>simp_all add: n(2) occurrence_id\<close>)
  then show thesis by (rule that) (simp_all add: n stored_schedule_next_later [OF n(1)])
qed

lemma key_once:
  assumes "distinct (map k xs)" "x \<in> set xs"
  shows "filter (\<lambda>y. k y = k x) xs = [x]"
proof -
  obtain ys zs where xs: "xs = ys @ x # zs" using assms(2) by (auto simp: in_set_conv_decomp)
  then have "k x \<notin> k ` set ys" "k x \<notin> k ` set zs" using assms(1) by auto
  then have "filter (\<lambda>y. k y = k x) ys = []" "filter (\<lambda>y. k y = k x) zs = []" 
    by (simp_all only: filter_empty_conv) (metis imageI)+
  then show ?thesis by (simp add: xs)
qed

text \<open>Whether a request creates its Run or finds it, afterwards the Run is there once and answers the request again.\<close>

lemma admitted_once:
  assumes "store_ok d" "distinct (map run_request_key (runs d))" "ai_run ids \<notin> run_id ` set (runs d)" "\<forall>n. fresh_ids ids 0 n d"
    "admit_task printable now ids d task_id source key scheduled frozen profile = (Inr (v, created), d')"
  shows "store_ok d'" "\<exists>r. filter (\<lambda>r. run_request_key r = key) (runs d') = [r] \<and> same_run_inputs task_id source scheduled profile r"
    "\<exists>v2. admit_task printable now2 ids2 d' task_id source key scheduled frozen2 profile = (Inr (v2, False), d')"
proof -
  have "store_ok d' \<and> distinct (map run_request_key (runs d')) \<and>
    (\<exists>r \<in> set (runs d'). run_request_key r = key \<and> same_run_inputs task_id source scheduled profile r)"
  proof (cases created)
    case True
    with assms(5) obtain t e ready reason where none: "find_run_by_key d key = None" and some: "ts_repositories t \<noteq> []"
      and run: "admit_run now ids d task_id source key scheduled profile t e ready reason = Inr ((ai_run ids, True), d')"
      by (auto elim: admit_task_created)
    from assms(4) have "fresh_ids ids 0 (length (ts_repositories t)) d" by blast
    from admit_run_Inr [OF assms(1,3) this some run] obtain r where r: "store_ok d'" "runs d' = runs d @ [r]" "run_request_key r = key"
      "run_task_id r = task_id" "run_source r = source" "run_scheduled_at r = scheduled" "run_requested_profile_id r = null_string profile"
      by metis
    with none assms(2) show ?thesis
      by (auto simp: find_run_by_key_def find_None_set same_run_inputs_def null_string_def coalesce_def)
  next
    case False
    from assms(5) obtain i where "admit_task_tx printable now ids d task_id source key scheduled frozen profile = Inr ((i, False), d')"
      unfolding admit_task_def using False by (elim committed_Inr) (auto simp: and_then_Inr split: prod.splits)
    then obtain r where "find_run_by_key d key = Some r" "same_run_inputs task_id source scheduled profile r" "d' = d"
      by (auto simp: admit_task_tx_def admit_run_def Let_def and_then_Inr split: option.splits if_splits)
    with assms(1,2) show ?thesis unfolding find_run_by_key_def by (auto dest!: find_Some_set)
  qed
  then obtain r where r: "store_ok d'" "distinct (map run_request_key (runs d'))" "r \<in> set (runs d')" "run_request_key r = key"
    "same_run_inputs task_id source scheduled profile r" by blast
  then show "store_ok d'" "\<exists>r. filter (\<lambda>r. run_request_key r = key) (runs d') = [r] \<and> same_run_inputs task_id source scheduled profile r"
    "\<exists>v2. admit_task printable now2 ids2 d' task_id source key scheduled frozen2 profile = (Inr (v2, False), d')"
    using r key_once [OF r(2,3)] admit_task_again [OF r(3,4,5,2), of now2 printable ids2 frozen2] by auto
qed

text \<open>C31. A due occurrence is admitted once, however often polls are interrupted: after it was claimed, frozen and
  admitted exactly one Run carries its key; until it is finished the Task keeps it pending with the frozen snapshot, and
  admitting it again only answers that Run; finishing it leaves the Runs alone and makes the Task due again only at a
  later instant of its schedule.\<close>

theorem occurrence_is_admitted_once:
  assumes "store_ok d" "distinct (map run_request_key (runs d))" "distinct (map tk_id (task_rows d))"
    "ai_run ids \<notin> run_id ` set (runs d)" "\<forall>n. fresh_ids ids 0 n d"
    "claim_due_task claimed d = (Inr (Some (i, due, x)), d1)"
    "freeze_pending_task_workflows printable d1 i due x = (Inr y, d2)"
    "admit_occurrence printable admitted ids d2 i due y = (Inr (v, created), d3)"
  shows "store_ok d3 \<and>
     (\<exists>r. filter (\<lambda>r. run_request_key r = occurrence_key i (ts_generation x) due) (runs d3) = [r] \<and>
        run_task_id r = i \<and> run_source r = ''schedule'' \<and> run_scheduled_at r = Some due) \<and>
     frozen_occurrence d3 i due y \<and>
     (\<forall>now2 ids2. \<exists>v2. admit_occurrence printable now2 ids2 d3 i due y = (Inr (v2, False), d3)) \<and>
     (\<forall>rt now d4. finish_task_occurrence rt now d3 i due None = (Inr (), d4) \<longrightarrow>
        runs d4 = runs d3 \<and>
        (\<exists>t n. find_task d4 i = Some t \<and> tk_pending_due_at t = None \<and> tk_next_due_at t = Some n \<and> now < n * 1000000 \<and>
          \<not> due_now (unix_milli now) t))"
proof -
  note c = claim_freezes [OF assms(6,3)]
  have ids1: "distinct (map tk_id (task_rows d1))" using assms(3) c(2) by simp
  note f = freeze_freezes [OF assms(7) c(1) ids1]
  have ids2: "distinct (map tk_id (task_rows d2))" using ids1 f(2) by simp
  obtain ts where d2: "d2 = d\<lparr>task_rows := ts\<rparr>"
  proof
    have "d2 = d\<lparr>task_rows := task_rows d1\<rparr>\<lparr>task_rows := task_rows d2\<rparr>" unfolding c(3) [symmetric] by (rule f(3))
    then show "d2 = d\<lparr>task_rows := task_rows d2\<rparr>" by simp
  qed
  have same: "runs d2 = runs d" "sessions d2 = sessions d" "executions d2 = executions d" "attempts d2 = attempts d"
    "session_stages d2 = session_stages d" by (simp_all add: d2)
  have ok2: "store_ok d2"
    by (rule store_ok_cong [OF assms(1)]) (simp_all add: same)
  have pre: "distinct (map run_request_key (runs d2))" "ai_run ids \<notin> run_id ` set (runs d2)" "\<forall>n. fresh_ids ids 0 n d2"
    using assms(2,4,5) by (simp_all add: same fresh_ids_def)
  note a = admitted_once [OF ok2 pre assms(8) [unfolded admit_occurrence_def]]
  have cat: "same_catalog d2 d3" using assms(8) unfolding admit_occurrence_def by (rule admit_task_catalog)
  have ids3: "distinct (map tk_id (task_rows d3))" using ids2 cat by (simp add: same_catalog_def)
  have frozen: "frozen_occurrence d3 i due y"
    using f(1) cat legacy_reload [of d3 d2] by (auto simp: frozen_occurrence_def same_catalog_def find_task_def)
  have finish: "runs d4 = runs d3 \<and> (\<exists>t n. find_task d4 i = Some t \<and> tk_pending_due_at t = None \<and> tk_next_due_at t = Some n \<and>
      now < n * 1000000 \<and> \<not> due_now (unix_milli now) t)"
    if finish: "finish_task_occurrence rt now d3 i due None = (Inr (), d4)" for rt now d4
  proof -
    obtain t where t: "find_task d3 i = Some t" "tk_pending_due_at t = Some due" using frozen by (auto simp: frozen_occurrence_def)
    obtain n where n: "find_task d4 i = Some (admitted_occurrence (unix_milli now) n t)" "now < n * 1000000" "runs d4 = runs d3"
      by (rule finish_clears [OF finish t ids3])
    then have "\<not> n \<le> unix_milli now" by (simp add: unix_milli_def)
    with n show ?thesis by (simp add: admitted_occurrence_def due_now_def)
  qed
  show ?thesis using a finish frozen by (auto simp: same_run_inputs_def admit_occurrence_def f(4))
qed

subsection \<open>An example\<close>

lemma demo_due: "rfc3339_nano (from_millis 1000000) = Some ''1970-01-01T00:16:40Z''"
  by code_simp

lemma demo_prompt: "length (resolve_task_schedule_prompt ''Fix it'' ''1970-01-01T00:16:40Z'' ''2 * * * *'' ''UTC'') \<le> max_resolved_prompt_bytes"
  by (simp add: resolve_task_schedule_prompt_def json_object_def json_field_def json_string_plain byte_def newline_def
     max_resolved_prompt_bytes_def)

lemma demo_cron: "parse_cron_schedule utc_runtime ''2 * * * *'' ''UTC'' = Inr (third_minute, ''2 * * * *'', ''UTC'')"
proof -
  have "cron_syntax utc_runtime ''2 * * * *'' = Inr ()"
    by (simp add: cron_syntax_def to_upper_ascii ascii_def byte_def upper_chunk_def ascii_upper_def in_range_def chars_of_def
        utc_runtime_def cron_months_def cron_weekdays_def)
  moreover have "fields_of ''2 * * * *'' = [''2'', ''*'', ''*'', ''*'', ''*'']"
    by (simp add: fields_ascii ascii_def byte_def one_byte_space)
  moreover have "trim_space ''UTC'' = ''UTC''" by (simp add: trim_space_visible in_range_def byte_def)
  moreover have "parse_cron_fields utc_runtime [''2'', ''*'', ''*'', ''*'', ''*''] loc = Inr (third_minute\<lparr>cs_location := loc\<rparr>)" for loc
  proof -
    have "parse_cron_field (\<lambda>_. True) [] False 0 59 ''2'' = Inr (cs_minute third_minute)"
      "parse_cron_field (\<lambda>_. True) [] False 0 23 ''*'' = Inr (cs_hour third_minute)"
      "parse_cron_field (\<lambda>_. True) [] False 1 31 ''*'' = Inr (cs_day_of_month third_minute)"
      "parse_cron_field (\<lambda>_. True) cron_months False 1 12 ''*'' = Inr (cs_month third_minute)"
      "parse_cron_field (\<lambda>_. True) cron_weekdays True 0 7 ''*'' = Inr (cs_day_of_week third_minute)"
      by code_simp+
    then show ?thesis by (simp add: parse_cron_fields_def Let_def utc_runtime_def cron_field_error_def numeral_eq_Suc)
  qed
  moreover have "cr_zones utc_runtime ''UTC'' = Inr (\<lambda>_. 0)" by (simp add: utc_runtime_def)
  ultimately show ?thesis unfolding parse_cron_schedule_def Let_def by (simp add: third_minute_def Let_def)
qed

definition demo_pending_db :: db where
  "demo_pending_db = demo_scheduled_db [pend_occurrence 1000001 demo_due_snapshot demo_scheduled_task]"

lemma demo_due_claim:
  "claim_due_task demo_now (demo_scheduled_db [demo_scheduled_task]) = (Inr (Some (''task-1'', 1000000, demo_due_snapshot)), demo_pending_db)"
proof -
  have "due_now 1000001 demo_scheduled_task" "unix_milli demo_now = 1000001"
    by (simp_all add: demo_scheduled_task_def demo_task_def due_now_def demo_now_def unix_milli_def)
  moreover from this have "next_due 1000001 (demo_scheduled_db [demo_scheduled_task]) = Some demo_scheduled_task"
    by (simp add: next_due_def demo_scheduled_db_def)
  moreover have "load_current_task_snapshot (demo_scheduled_db ts) demo_scheduled_task = Inr demo_due_snapshot" for ts
    using demo_selected [of ts] demo_pipeline_snapshot [of ts]
    by (simp add: load_current_task_snapshot_def current_task_snapshot_def task_pipeline_id_def coalesce_def
      demo_scheduled_task_def demo_task_def demo_due_snapshot_def demo_admitted_snapshot_def demo_snapshot_def)
  ultimately show ?thesis
    by (simp add: claim_due_task_def claim_due_task_tx_def coalesce_def demo_scheduled_task_def demo_task_def demo_pending_db_def demo_scheduled_db_def)
qed

lemma demo_frozen: "frozen_snapshot demo_pending_db ''task-1'' (Some 1000000) demo_due_snapshot = Inr demo_due_snapshot"
  by (simp add: frozen_snapshot_def find_task_def demo_pending_db_def demo_scheduled_db_def pend_occurrence_def demo_scheduled_task_def
    demo_task_def demo_due_snapshot_def demo_admitted_snapshot_def default_pipeline_id_def)

lemma demo_next: "stored_schedule_next utc_runtime 3690000000000 (pend_occurrence 1000001 demo_due_snapshot demo_scheduled_task) = Inr 3720000"
proof -
  have "first_candidate 3690000000000 = 3720" "\<not> cron_limit 3690000000000 < 3720" "cron_matches third_minute 3720" by code_simp+
  then have "cron_next third_minute 3690000000000 = Inr 3720000000000" by (simp add: cron_next_def first_match_step(2))
  then show ?thesis
    by (simp add: stored_schedule_next_def pend_occurrence_def demo_scheduled_task_def demo_task_def demo_cron unix_milli_def coalesce_def)
qed

lemma demo_finishes:
  assumes "task_rows d = task_rows demo_pending_db"
  obtains d' where "finish_task_occurrence utc_runtime 3690000000000 d ''task-1'' 1000000 None = (Inr (), d')"
proof -
  have "pending_task d ''task-1'' 1000000 = Some (pend_occurrence 1000001 demo_due_snapshot demo_scheduled_task)"
    by (simp add: pending_task_def assms demo_pending_db_def demo_scheduled_db_def pend_occurrence_def demo_scheduled_task_def demo_task_def)
  moreover have "tk_cron (pend_occurrence m x demo_scheduled_task) \<noteq> None" "tk_timezone (pend_occurrence m x demo_scheduled_task) \<noteq> None" for m x
    by (simp_all add: pend_occurrence_def demo_scheduled_task_def)
  ultimately show thesis
    using that by (simp add: finish_task_occurrence_def finish_task_occurrence_tx_def demo_next Let_def)
qed

lemma occurrence_is_admitted_once_witness:
  "\<exists>d3. store_ok d3 \<and> frozen_occurrence d3 ''task-1'' 1000000 demo_due_snapshot \<and>
     (\<exists>r. filter (\<lambda>r. run_request_key r = occurrence_key ''task-1'' 1 1000000) (runs d3) = [r] \<and> run_source r = ''schedule'') \<and>
     (\<exists>d4 t n. finish_task_occurrence utc_runtime 3690000000000 d3 ''task-1'' 1000000 None = (Inr (), d4) \<and>
        find_task d4 ''task-1'' = Some t \<and> tk_next_due_at t = Some n \<and> 3690000000000 < n * 1000000)"
proof -
  let ?d = "demo_scheduled_db [demo_scheduled_task]"
  have freeze: "freeze_pending_task_workflows (\<lambda>_. True) demo_pending_db ''task-1'' 1000000 demo_due_snapshot = (Inr demo_due_snapshot, demo_pending_db)"
    by (simp add: freeze_pending_task_workflows_def freeze_pending_task_workflows_tx_def demo_due_snapshot_def demo_admitted_snapshot_def demo_snapshot_def)
  obtain e where "admission_plan (\<lambda>_. True) demo_pending_db ''task-1'' (Some 1000000) (Some demo_due_snapshot) '''' = Inr (demo_due_snapshot, e, True, '''')"
    using demo_plan [where t = demo_due_snapshot and frozen = "Some demo_due_snapshot"] demo_frozen unfolding demo_pending_db_def by fastforce
  moreover have "\<exists>prompt. resolved_prompt d ''task-1'' ''schedule'' (Some 1000000) demo_due_snapshot = Inr prompt" for d
    using demo_prompt by (simp add: resolved_prompt_def scheduled_prompt_def coalesce_def demo_due demo_due_snapshot_def demo_admitted_snapshot_def demo_snapshot_def)
  moreover have "occurrence_key ''task-1'' g due \<noteq> ''key-1''" for g due by (simp add: occurrence_key_def)
  ultimately obtain v d3 where admitted: "admit_occurrence (\<lambda>_. True) demo_now demo_ids demo_pending_db ''task-1'' 1000000 demo_due_snapshot = (Inr (v, True), d3)"
    unfolding demo_pending_db_def admit_occurrence_def using demo_admit by blast
  then have "task_rows d3 = task_rows demo_pending_db"
    unfolding admit_occurrence_def by (auto dest: admit_task_catalog simp: same_catalog_def)
  then obtain d4 where "finish_task_occurrence utc_runtime 3690000000000 d3 ''task-1'' 1000000 None = (Inr (), d4)"
    by (rule demo_finishes)
  moreover have "distinct (map run_request_key (runs ?d))" "distinct (map tk_id (task_rows ?d))"
    by (simp_all add: demo_scheduled_defs demo_scheduled_task_def)
  moreover have "\<forall>n. fresh_ids demo_ids 0 n ?d" using demo_ids_fresh(1) by blast
  moreover have "ts_generation demo_due_snapshot = 1"
    by (simp add: demo_due_snapshot_def demo_admitted_snapshot_def demo_snapshot_def)
  ultimately show ?thesis
    using occurrence_is_admitted_once [OF demo_scheduled_ok _ _ demo_ids_fresh(2) _ demo_due_claim freeze admitted]
    by fastforce
qed

end
