(* ===== verification/Lifecycle.thy ===== *)
theory Lifecycle
  imports Events Agent_Updates Repositories Operator Claims Scheduler Schedule_Properties
begin

text \<open>
  The life of Work. A board keeps the state of every Work item and nothing else; its steps are the moves that the
  kinds of operations make. The lemmas show that every operation of the store moves Work as its kind says and which
  keys it keeps.
\<close>

subsection \<open>The board\<close>

type_synonym board = "ident \<rightharpoonup> session_state"

datatype step_kind =
  Reports | Starts | Ends | Loses | Claims | Disables | Cancels | Retries | Answers | Admits | Plans

definition session_ended :: "session_state \<Rightarrow> bool" where
  "session_ended st \<longleftrightarrow> \<not> session_nonterminal st"

text \<open>The moves of a Work item.\<close>

fun moves :: "step_kind \<Rightarrow> session_state \<Rightarrow> session_state \<Rightarrow> bool" where
  "moves Starts st st' = (st = SessionPreparing \<and> st' = SessionRunning)"
| "moves Ends st st' = (session_executing st \<and> (session_ended st' \<or> st' = SessionNeedsInput))"
| "moves Loses st st' = (session_executing st \<and> st' = SessionFailed)"
| "moves Claims st st' = (st = SessionBlocked \<and> (st' = SessionQueued \<or> st' = SessionPreparing) \<or>
     st = SessionQueued \<and> st' = SessionPreparing)"
| "moves Disables st st' = (st = SessionQueued \<and> st' = SessionBlocked)"
| "moves Cancels st st' = ((st = SessionBlocked \<or> st = SessionQueued \<or> st = SessionNeedsInput) \<and> st' = SessionCancelled)"
| "moves Retries st st' = ((st = SessionFailed \<or> st = SessionCancelled) \<and> st' = SessionQueued)"
| "moves Answers st st' = (st = SessionNeedsInput \<and> (st' = SessionQueued \<or> st' = SessionBlocked))"
| "moves Admits st st' = False"
| "moves Reports st st' = False"
| "moves Plans st st' = False"

text \<open>Work is never deleted; only admission adds Work.\<close>

definition board_step :: "step_kind \<Rightarrow> board \<Rightarrow> board \<Rightarrow> bool" where
  "board_step k b b' \<longleftrightarrow>
     (\<forall>i. case b i of
        None \<Rightarrow> b' i = None \<or> k = Admits \<and> (b' i = Some SessionBlocked \<or> b' i = Some SessionQueued)
      | Some st \<Rightarrow> (\<exists>st'. b' i = Some st' \<and> (st' = st \<or> moves k st st')))"

definition board_of :: "db \<Rightarrow> board" where
  "board_of d = (\<lambda>i. map_option ss_state (find_session d i))"

text \<open>Delivered Work stays as it is.\<close>

definition delivered :: "session_state \<Rightarrow> bool" where
  "delivered st \<longleftrightarrow> st = SessionReady \<or> st = SessionSucceeded \<or> st = SessionNoChange"

lemma delivered_stays: "delivered st \<Longrightarrow> \<not> moves k st st'"
  by (cases k) (auto simp: delivered_def state_predicates)

lemma board_step_delivered: "board_step k b b' \<Longrightarrow> b i = Some st \<Longrightarrow> delivered st \<Longrightarrow> b' i = Some st"
  using delivered_stays unfolding board_step_def by (fastforce split: option.splits)

subsection \<open>How an operation changes the rows of Work\<close>

definition moved :: "step_kind \<Rightarrow> session \<Rightarrow> session \<Rightarrow> bool" where
  "moved k s s' \<longleftrightarrow> ss_id s' = ss_id s \<and> ss_repository_id s' = ss_repository_id s \<and> ss_target s' = ss_target s \<and>
     (ss_state s' = ss_state s \<or> moves k (ss_state s) (ss_state s'))"

definition moves_work :: "step_kind \<Rightarrow> db \<Rightarrow> db \<Rightarrow> bool" where
  "moves_work k d d' \<longleftrightarrow> list_all2 (moved k) (sessions d) (sessions d')"

lemma row_targets [simp]:
  "ss_repository_id (answer_session_row worker reason message s) = ss_repository_id s"
  "ss_target (answer_session_row worker reason message s) = ss_target s"
  "ss_repository_id (materialized_row worker s) = ss_repository_id s" "ss_target (materialized_row worker s) = ss_target s"
  "ss_repository_id (retry_session_row worker repeat s) = ss_repository_id s" "ss_target (retry_session_row worker repeat s) = ss_target s"
  "ss_repository_id (finish_session_row now c outcome s) = ss_repository_id s" "ss_target (finish_session_row now c outcome s) = ss_target s"
  by (simp_all add: answer_session_row_def materialized_row_def retry_session_row_def finish_session_row_def Let_def split: option.split)

lemma moved_refl [simp]: "moved k s s"
  by (simp add: moved_def)

lemma moves_trans: "moves k a b \<Longrightarrow> moves k b c \<Longrightarrow> moves k a c"
  by (cases k) (auto simp: state_predicates session_ended_def)

lemma moved_trans: "moved k a b \<Longrightarrow> moved k b c \<Longrightarrow> moved k a c"
  unfolding moved_def using moves_trans by metis

lemma moves_work_same [simp]: "sessions d' = sessions d \<Longrightarrow> moves_work k d d'"
  by (simp add: moves_work_def list.rel_refl)

lemma moves_work_trans: "moves_work k d e \<Longrightarrow> moves_work k e f \<Longrightarrow> moves_work k d f"
  unfolding moves_work_def by (rule list_all2_trans [OF moved_trans])

lemma moved_update:
  "(\<And>s. s \<in> set ss \<Longrightarrow> P s \<Longrightarrow> moved k s (f s)) \<Longrightarrow> list_all2 (moved k) ss (update_where P f ss)"
  by (induction ss) auto

lemma moves_work_update:
  "sessions d' = update_where P f (sessions d) \<Longrightarrow>
   (\<And>s. s \<in> set (sessions d) \<Longrightarrow> P s \<Longrightarrow> moved k s (f s)) \<Longrightarrow> moves_work k d d'"
  by (simp add: moves_work_def moved_update)

lemma moves_work_ids: "moves_work k d d' \<Longrightarrow> map ss_id (sessions d') = map ss_id (sessions d)"
proof -
  have "list_all2 (moved k) xs ys \<Longrightarrow> map ss_id ys = map ss_id xs" for xs ys
    by (induction rule: list_all2_induct) (auto simp: moved_def)
  then show "moves_work k d d' \<Longrightarrow> map ss_id (sessions d') = map ss_id (sessions d)" by (simp add: moves_work_def)
qed

lemma moves_work_find:
  assumes "moves_work k d d'"
  shows "rel_option (moved k) (find_session d i) (find_session d' i)"
proof -
  have "list_all2 (moved k) xs ys \<Longrightarrow>
      rel_option (moved k) (find (\<lambda>s. ss_id s = i) xs) (find (\<lambda>s. ss_id s = i) ys)" for xs ys
    by (induction rule: list_all2_induct) (auto simp: moved_def)
  then show ?thesis using assms by (simp add: moves_work_def find_session_def)
qed

lemma moves_work_board: "moves_work k d d' \<Longrightarrow> board_step k (board_of d) (board_of d')"
  unfolding board_step_def
proof
  fix i assume "moves_work k d d'"
  then have "rel_option (moved k) (find_session d i) (find_session d' i)" by (rule moves_work_find)
  then show "case board_of d i of
        None \<Rightarrow> board_of d' i = None \<or> k = Admits \<and> (board_of d' i = Some SessionBlocked \<or> board_of d' i = Some SessionQueued)
      | Some st \<Rightarrow> (\<exists>st'. board_of d' i = Some st' \<and> (st' = st \<or> moves k st st'))"
    by cases (auto simp: board_of_def moved_def)
qed

text \<open>
  Open Work of a work item, and its source. No two open Work items have the same source: what is being done is not done a
  second time.
\<close>

definition open_item :: "session \<Rightarrow> bool" where
  "open_item s \<longleftrightarrow> tg_target_kind (ss_target s) = ''work_item'' \<and> session_nonterminal (ss_state s)"

definition work_source :: "session \<Rightarrow> ident \<times> string \<times> string" where
  "work_source s = (ss_repository_id s, tg_source_kind (ss_target s), tg_source_key (ss_target s))"

definition one_open_item :: "db \<Rightarrow> bool" where
  "one_open_item d \<longleftrightarrow>
     (\<forall>s \<in> set (sessions d). \<forall>t \<in> set (sessions d). open_item s \<and> open_item t \<and> work_source s = work_source t \<longrightarrow> ss_id s = ss_id t)"

lemma one_open_itemD:
  "one_open_item d \<Longrightarrow> s \<in> set (sessions d) \<Longrightarrow> t \<in> set (sessions d) \<Longrightarrow> open_item s \<Longrightarrow> open_item t \<Longrightarrow>
   work_source s = work_source t \<Longrightarrow> ss_id s = ss_id t"
  unfolding one_open_item_def by blast

lemma one_open_item_same: "sessions d' = sessions d \<Longrightarrow> one_open_item d' = one_open_item d"
  by (simp add: one_open_item_def)

text \<open>Only a retry opens Work that had ended.\<close>

lemma moves_opens: "moves k st st' \<Longrightarrow> session_nonterminal st' \<Longrightarrow> k \<noteq> Retries \<Longrightarrow> session_nonterminal st"
  by (cases k) (auto simp: state_predicates session_ended_def)

lemma moved_source: "moved k s s' \<Longrightarrow> ss_id s' = ss_id s \<and> work_source s' = work_source s"
  by (simp add: moved_def work_source_def)

lemma moved_opens: "moved k s s' \<Longrightarrow> open_item s' \<Longrightarrow> k \<noteq> Retries \<Longrightarrow> open_item s"
  by (auto simp: moved_def open_item_def dest: moves_opens)

lemma moves_work_origin:
  assumes "moves_work k d d'" "s' \<in> set (sessions d')"
  obtains s where "s \<in> set (sessions d)" "moved k s s'"
proof -
  obtain i where i: "i < length (sessions d')" "s' = sessions d' ! i" using assms(2) by (auto simp: in_set_conv_nth)
  then have "moved k (sessions d ! i) s'" "i < length (sessions d)"
    using assms(1) by (auto simp: moves_work_def list_all2_conv_all_nth)
  then show thesis by (intro that [of "sessions d ! i"]) simp_all
qed

lemma moves_work_open_item:
  assumes "moves_work k d d'" "one_open_item d" "k \<noteq> Retries"
  shows "one_open_item d'"
  unfolding one_open_item_def
proof (intro ballI impI)
  fix s' t' assume "s' \<in> set (sessions d')" "t' \<in> set (sessions d')" and same: "open_item s' \<and> open_item t' \<and> work_source s' = work_source t'"
  then obtain s t where s: "s \<in> set (sessions d)" "moved k s s'" and t: "t \<in> set (sessions d)" "moved k t t'"
    using moves_work_origin [OF assms(1)] by metis
  have "open_item s" "open_item t" using moved_opens [OF s(2)] moved_opens [OF t(2)] same assms(3) by blast+
  moreover have "work_source s = work_source t" using moved_source [OF s(2)] moved_source [OF t(2)] same by simp
  ultimately have "ss_id s = ss_id t" by (intro one_open_itemD [OF assms(2) s(1) t(1)])
  then show "ss_id s' = ss_id t'" using moved_source [OF s(2)] moved_source [OF t(2)] by simp
qed

text \<open>A retry opens one Work item, and only where no other one of its source is open.\<close>

lemma reopened_open_item:
  assumes rows: "sessions d' = update_where (\<lambda>x. ss_id x = w) f (sessions d)" and ok: "one_open_item d"
    and same: "\<And>s. ss_id (f s) = ss_id s \<and> ss_repository_id (f s) = ss_repository_id s \<and> ss_target (f s) = ss_target s"
    and free: "\<And>s t. s \<in> set (sessions d) \<Longrightarrow> t \<in> set (sessions d) \<Longrightarrow> ss_id s = w \<Longrightarrow> ss_id t \<noteq> w \<Longrightarrow>
      tg_target_kind (ss_target s) = ''work_item'' \<Longrightarrow> open_item t \<Longrightarrow> work_source s \<noteq> work_source t"
  shows "one_open_item d'"
  unfolding one_open_item_def
proof (intro ballI impI)
  have origin: "\<exists>s \<in> set (sessions d). ss_id s' = ss_id s \<and> work_source s' = work_source s \<and>
      tg_target_kind (ss_target s) = ''work_item'' \<and> (ss_id s = w \<or> open_item s)"
    if "s' \<in> set (sessions d')" "open_item s'" for s'
    using that same by (force simp: rows update_where_def work_source_def open_item_def split: if_splits)
  fix s' t' assume "s' \<in> set (sessions d')" "t' \<in> set (sessions d')"
    and both: "open_item s' \<and> open_item t' \<and> work_source s' = work_source t'"
  with origin obtain s t where s: "s \<in> set (sessions d)" "ss_id s' = ss_id s" "work_source s' = work_source s"
      "tg_target_kind (ss_target s) = ''work_item''" "ss_id s = w \<or> open_item s"
    and t: "t \<in> set (sessions d)" "ss_id t' = ss_id t" "work_source t' = work_source t"
      "tg_target_kind (ss_target t) = ''work_item''" "ss_id t = w \<or> open_item t" by metis
  then show "ss_id s' = ss_id t'"
    using free [OF s(1) t(1)] free [OF t(1) s(1)] one_open_itemD [OF ok s(1) t(1)] both by metis
qed

lemma one_open_item_append:
  assumes "one_open_item d" "sessions d' = sessions d @ new"
    and "\<And>s t. s \<in> set new \<Longrightarrow> t \<in> set (sessions d) \<Longrightarrow> open_item s \<Longrightarrow> open_item t \<Longrightarrow> work_source s \<noteq> work_source t"
    and "\<And>s t. s \<in> set new \<Longrightarrow> t \<in> set new \<Longrightarrow> open_item s \<Longrightarrow> open_item t \<Longrightarrow> work_source s = work_source t \<Longrightarrow> ss_id s = ss_id t"
  shows "one_open_item d'"
  unfolding one_open_item_def
proof (intro ballI impI)
  fix s t assume "s \<in> set (sessions d')" "t \<in> set (sessions d')" "open_item s \<and> open_item t \<and> work_source s = work_source t"
  then show "ss_id s = ss_id t"
    using assms(3) [of s t] assms(3) [of t s] assms(4) [of s t] one_open_itemD [OF assms(1), of s t] by (auto simp: assms(2))
qed

lemma one_open_item_append_repositories:
  assumes "one_open_item d" "sessions d' = sessions d @ new" "\<And>s. s \<in> set new \<Longrightarrow> tg_target_kind (ss_target s) = ''repository''"
  shows "one_open_item d'"
  by (rule one_open_item_append [OF assms(1,2)]) (use assms(3) in \<open>fastforce simp: open_item_def\<close>)+

text \<open>What else a step must not change: the keys of Runs and Tasks, and, unless it reports, the history of Work.\<close>

definition keeps_keys :: "db \<Rightarrow> db \<Rightarrow> bool" where
  "keeps_keys d d' \<longleftrightarrow> map run_request_key (runs d') = map run_request_key (runs d) \<and>
     map tk_id (task_rows d') = map tk_id (task_rows d)"

definition keeps :: "db \<Rightarrow> db \<Rightarrow> bool" where
  "keeps d d' \<longleftrightarrow> keeps_keys d d' \<and> work_updates d' = work_updates d"

lemma keeps_refl [simp]: "keeps d d" "keeps_keys d d"
  by (simp_all add: keeps_def keeps_keys_def)

lemma keeps_trans: "keeps d e \<Longrightarrow> keeps e f \<Longrightarrow> keeps d f"
  by (simp add: keeps_def keeps_keys_def)

lemma keepsI:
  "runs d' = runs d \<Longrightarrow> task_rows d' = task_rows d \<Longrightarrow> work_updates d' = work_updates d \<Longrightarrow> keeps d d'"
  by (simp add: keeps_def keeps_keys_def)

lemma keeps_reservations: "d' = d\<lparr>worker_repositories := x\<rparr> \<Longrightarrow> keeps d d'"
  by (simp add: keepsI)

lemma keeps_same_reservations: "same_but_reservations d d' \<Longrightarrow> keeps d d'"
  unfolding same_but_reservations_def by (rule keeps_reservations)

lemma keeps_runs:
  assumes "keeps d e" "f = e\<lparr>runs := update_where P g (runs e)\<rparr>" "\<And>r. run_request_key (g r) = run_request_key r"
  shows "keeps d f"
  using assms(1,3) by (simp add: assms(2) keeps_def keeps_keys_def map_update_where)

subsection \<open>The operations\<close>

lemma start_attempt_moves:
  assumes "start_attempt_tx now d i input = Inr (u, d')"
  shows "moves_work Starts d d' \<and> keeps d d'"
proof -
  from assms obtain lease where lease: "load_lease d i = Inr lease"
    by (auto simp: start_attempt_tx_def and_then_Inr Let_def split: if_splits)
  obtain a e s r where row: "lease = lease_of r e a" using load_lease_rows [OF lease] by metis
  define d1 where "d1 = (if at_state a = AttemptPreparing
     then start_attempt_rows (unix_milli now) i (at_execution_id a) input d else d)"
  have d': "d' = d1 \<or> d' = clear_pending_resume (at_execution_id a) (sr_started_from_sha input) d1"
    using assms lease row
    by (auto simp: start_attempt_tx_def and_then_Inr Let_def d1_def split: if_splits option.splits)
  have "moves_work Starts d (start_attempt_rows m i x input d)" for m x
    unfolding moves_work_def by (simp add: start_attempt_rows_def) (rule moved_update, simp add: moved_def)
  then have "moves_work Starts d d1" by (simp add: d1_def)
  moreover have "moves_work Starts d1 (clear_pending_resume x sha d1)" for x sha
    unfolding moves_work_def by (simp add: clear_pending_resume_def) (rule moved_update, simp add: moved_def)
  moreover have "keeps d d1" "keeps d1 (clear_pending_resume x sha d1)" for x sha
    by (auto simp: d1_def start_attempt_rows_def clear_pending_resume_def intro!: keepsI)
  ultimately show ?thesis using d' moves_work_trans keeps_trans by blast
qed

lemma heartbeat_moves: "heartbeat_tx now d i token = Inr (r, d') \<Longrightarrow> moves_work Reports d d' \<and> keeps d d'"
  by (auto simp: heartbeat_tx_def and_then_Inr Let_def intro: keepsI)

lemma start_stage_moves: "start_stage_tx now d i p input = Inr (r, d') \<Longrightarrow> moves_work Reports d d' \<and> keeps d d'"
  by (auto simp: start_stage_tx_def start_stage_rows_def and_then_Inr Let_def intro!: keepsI split: if_splits option.splits)

lemma complete_stage_moves: "complete_stage_tx now d i p input = Inr (r, d') \<Longrightarrow> moves_work Reports d d' \<and> keeps d d'"
  by (auto simp: complete_stage_tx_def complete_stage_rows_def and_then_Inr Let_def intro!: keepsI split: if_splits option.splits)

lemma append_events_moves: "append_events_tx now d i input = Inr (r, d') \<Longrightarrow> moves_work Reports d d' \<and> keeps d d'"
  by (erule append_events_tx_Inr) (simp add: keepsI)

lemma refresh_run_moves: "moves_work k d (refresh_run now i d)" "keeps d (refresh_run now i d)"
  by (simp_all add: refresh_run_def keeps_runs [OF keeps_refl(1)])

lemma update_run_lifecycle_moves: "update_run_lifecycle x now d = Inr d' \<Longrightarrow> moves_work k d d' \<and> keeps d d'"
  using refresh_run_moves by (auto simp: update_run_lifecycle_def split: option.splits)

lemma finish_applies_executing: "finish_applies c outcome st \<Longrightarrow> session_executing st"
  by (auto simp: finish_applies_def state_predicates split: if_splits)

lemma complete_attempt_moves:
  assumes "complete_attempt_tx now d i input = Inr (u, d')"
  shows "moves_work Ends d d' \<and> keeps d d'"
proof (cases "d' = d")
  case False
  from assms False obtain lease outcome st c where st: "terminal_attempt_state (ca_state input) = Some st"
    and c: "resolve_completion lease outcome st (ca_result input) (ca_error input) = Inr c"
    and w: "write_completion (unix_milli now) d i lease c outcome = Inr (u, d')"
    by (auto simp: complete_attempt_tx_def and_then_Inr Let_def split: option.splits if_splits)
  have ok: "completion_ok c outcome" by (rule resolve_completion_ok [OF terminal_attempt_state_Some [OF st] c])
  let ?x = "ls_execution_id lease"
  from w obtain w' d1 where d1: "complete_stages (unix_milli now) w' c d = Inr d1"
    and d2: "update_run_lifecycle ?x (unix_milli now) (complete_rows (unix_milli now) i ?x c outcome d1) = Inr d'"
    by (auto simp: write_completion_def and_then_Inr split: if_splits option.splits)
  note tabs = only_stages_tables [OF complete_stages_only [OF d1]]
  have "moves_work Ends d d1" "keeps d d1"
    using complete_stages_only [OF d1] by (auto simp: only_stages_def intro: keepsI)
  moreover have "moves_work Ends d1 (complete_rows (unix_milli now) i ?x c outcome d1)"
    unfolding moves_work_def using ok finish_applies_executing
    by (simp add: complete_rows_def)
      (rule moved_update, auto simp: moved_def completion_ok_def session_ended_def state_predicates)
  moreover have "keeps d1 (complete_rows (unix_milli now) i ?x c outcome d1)"
    by (simp add: complete_rows_def keepsI)
  ultimately show ?thesis using update_run_lifecycle_moves [OF d2] moves_work_trans keeps_trans by blast
qed simp

lemma sweep_all_moves: "sweep_all now d leases = Inr d' \<Longrightarrow> moves_work Loses d d' \<and> keeps d d'"
proof (induction leases arbitrary: d)
  case (Cons lease leases)
  obtain i x where lease: "lease = (i, x)" by (cases lease)
  from Cons.prems obtain d1 where d1: "sweep_one now d (i, x) = Inr d1" "sweep_all now d1 leases = Inr d'"
    by (auto simp: lease and_then_Inr)
  let ?d = "lose_rows now i x (attempt_outcome d i) d"
  have "moves_work Loses d ?d"
    unfolding moves_work_def
    by (simp add: lose_rows_def) (rule moved_update, auto simp: lose_session_row_def keep_evidence_def moved_def split: option.split)
  moreover have "keeps d ?d" by (simp add: lose_rows_def keepsI)
  moreover have "d1 = d \<or> update_run_lifecycle x now ?d = Inr d1"
    using d1(1) by (auto simp: sweep_one_def split: if_splits)
  ultimately have "moves_work Loses d d1 \<and> keeps d d1"
    using update_run_lifecycle_moves moves_work_trans keeps_trans by (metis moves_work_same keeps_refl(1))
  with Cons.IH [OF d1(2)] show ?case using moves_work_trans keeps_trans by blast
qed simp

lemma sweep_expired_moves: "sweep_expired_tx now d = Inr (r, d') \<Longrightarrow> moves_work Loses d d' \<and> keeps d d'"
  using sweep_all_moves by (fastforce simp: sweep_expired_tx_def Let_def and_then_Inr drop_stale_claims_def moves_work_def
      keeps_def keeps_keys_def)

lemma set_enabled_moves:
  assumes "set_managed_repository_enabled_tx now d i enabled = Inr (u, d')"
  shows "moves_work Disables d d' \<and> keeps d d'"
proof -
  define d1 where "d1 = d\<lparr>repositories := update_where (\<lambda>x. rp_id x = trim_space i)
    (\<lambda>x. x\<lparr>rp_enabled := enabled, rp_centrally_managed := True, rp_updated_at := now\<rparr>) (repositories d)\<rparr>"
  consider (same) "sessions d' = sessions d" "keeps d d'"
  | (disabled) d2 where "delete_queued_executions (trim_space i) d1 = Inr d2"
      "d' = block_schedules (trim_space i) (block_queued_sessions (trim_space i) d2)"
    using assms
    by (auto simp: set_managed_repository_enabled_tx_def Let_def and_then_Inr unblock_schedules_def keeps_def keeps_keys_def
        map_update_where d1_def split: option.splits if_splits)
  then show ?thesis
  proof cases
    case same
    then show ?thesis by simp
  next
    case disabled
    have "sessions d2 = sessions d" "runs d2 = runs d" "task_rows d2 = task_rows d" "work_updates d2 = work_updates d"
      unfolding delete_queued_executions_Inr(1) [OF disabled(1)] by (simp_all add: d1_def)
    then show ?thesis
      by (simp add: moves_work_def keeps_def keeps_keys_def disabled(2) block_schedules_def block_queued_sessions_def map_update_where)
        (rule moved_update, simp add: moved_def)
  qed
qed

lemma cancel_row_moves: "session_row_ok s \<Longrightarrow> moved Cancels s (cancel_session_row now s)"
proof -
  assume "session_row_ok s"
  then have "ss_execution_owner s \<noteq> ExecutionOwnerOperator" by (auto simp: session_row_ok_def split: if_splits)
  then show ?thesis
    by (cases "ss_state s") (auto simp: moved_def cancel_session_row_def stops_at_once_def Let_def)
qed

lemma cancel_work_moves:
  assumes "\<And>s. s \<in> set (sessions d) \<Longrightarrow> P s \<Longrightarrow> session_row_ok s"
  shows "moves_work Cancels d (cancel_work now P work d) \<and> keeps d (cancel_work now P work d)"
proof
  show "keeps d (cancel_work now P work d)" by (simp add: cancel_work_def Let_def keepsI)
  show "moves_work Cancels d (cancel_work now P work d)"
    unfolding moves_work_def by (simp add: cancel_work_def Let_def) (rule moved_update, rule cancel_row_moves, rule assms)
qed

lemma session_rows_okD: "store_ok d \<Longrightarrow> s \<in> set (sessions d) \<Longrightarrow> session_row_ok s"
  by (simp add: store_ok_def core_ok_def session_rows_ok_def list_all_iff)

lemma cancel_run_moves:
  assumes "store_ok d" "cancel_run_tx now d i = Inr (u, d')"
  shows "moves_work Cancels d d' \<and> keeps d d'"
proof -
  obtain P work where "d' = refresh_run now i (cancel_work now P work d)"
    using assms(2) by (auto simp: cancel_run_tx_def split: if_splits)
  then show ?thesis
    using cancel_work_moves [of d P now work] session_rows_okD [OF assms(1)] refresh_run_moves moves_work_trans keeps_trans by blast
qed

lemma cancel_session_moves:
  assumes "store_ok d" "cancel_session_tx now d i w = Inr (u, d')"
  shows "moves_work Cancels d d' \<and> keeps d d'"
proof -
  obtain P work where "d' = refresh_run now i (cancel_work now P work d)"
    using assms(2) by (auto simp: cancel_session_tx_def split: option.splits if_splits)
  then show ?thesis
    using cancel_work_moves [of d P now work] session_rows_okD [OF assms(1)] refresh_run_moves moves_work_trans keeps_trans by blast
qed

lemma retry_session_moves:
  assumes "store_ok d" "retry_session_tx now new_id d i w = Inr (u, d')"
  shows "moves_work Retries d d' \<and> keeps d d'"
  using assms(2)
proof (rule retry_session_tx_Inr)
  fix s r limit c d1
  assume s: "find_run_session d i w = Some s" "ss_state s = SessionFailed \<or> ss_state s = SessionCancelled"
    and route: "select_session_route d (ss_repository_id s) (ss_repository_identity s) now '''' (ss_required_runtime s) = Inr (c, d1)"
    and d': "d' = reopen_run now i (let d2 = retry_execution now new_id s (rc_worker_id c) d1;
         d3 = d2\<lparr>sessions := update_where (\<lambda>x. ss_id x = w)
           (retry_session_row (rc_worker_id c) (ss_started_at s \<noteq> None \<or> ss_retry_may_repeat_effects s)) (sessions d2)\<rparr>
       in d3\<lparr>session_stages := update_where (\<lambda>g. sg_session_id g = w) reset_stage (session_stages d3)\<rparr>)"
  note t = retry_tables [OF route d']
  have s': "s \<in> set (sessions d)" "ss_id s = w" using s(1) by (auto simp: find_run_session_def dest: find_Some_set)
  have "x = s" if "x \<in> set (sessions d)" "ss_id x = w" for x
    using session_unique [OF store_okD(1) [OF assms(1)] that(1) s'(1)] that(2) s'(2) by simp
  then have "moves_work Retries d d'"
    by (intro moves_work_update [OF t(1)]) (use s(2) in \<open>auto simp: moved_def\<close>)
  moreover obtain wr where d1: "d1 = d\<lparr>worker_repositories := wr\<rparr>" using select_session_route_reserves [OF route] by blast
  have "task_rows d' = task_rows d"
    by (simp add: d' reopen_run_def retry_execution_def Let_def d1 split: option.split)
  ultimately show ?thesis by (simp add: keeps_def keeps_keys_def t map_update_where)
qed

lemma answer_work_moves:
  assumes "store_ok d" "answer_work_tx now answer_id new_id d w input = Inr (reply, d')"
  shows "moves_work Answers d d' \<and> keeps d d'"
  using assms(2)
proof (cases rule: answer_work_tx_Inr)
  case (new s u d1 worker reason d2)
  note d1 = insert_work_answer_Inr [OF new(8), THEN conjunct1]
  note t = place_answered_tables [OF new(9)]
  obtain r wr where wr: "d2 = (if worker = '''' then d1\<lparr>worker_repositories := wr\<rparr>
       else queue_existing_execution new_id (ss_id s) worker (ss_required_runtime s) now (d1\<lparr>worker_repositories := wr\<rparr>))"
    using new(9) by (rule place_answered_Inr) metis
  have "task_rows d2 = task_rows d" by (simp add: wr d1 queue_existing_execution_def split: option.split)
  then have "keeps d d'"
    by (simp add: new(10) keeps_def keeps_keys_def reopen_run_def reopen_last_stage_def t d1 map_update_where)
  moreover have "moves_work Answers d d'"
    unfolding moves_work_def
    by (simp add: new(10) reopen_run_def reopen_last_stage_def t d1) (rule moved_update, auto simp: moved_def)
  ultimately show ?thesis by simp
qed simp

text \<open>Claiming: Work is placed, taken over and given to the Worker.\<close>

lemma materialize_moves:
  assumes "materialize_blocked_session_for_worker now new_id w d = Inr d'"
  shows "moves_work Claims d d' \<and> keeps d d'"
  using assms
proof (rule materialize_Inr)
  fix c assume "materialize_step now new_id w d c = Inr (d', True)"
  then obtain x d1 where r: "select_session_route d (bc_repository_id c) (bc_identity c) now w (bc_runtime c) = Inr (x, d1)"
    and d': "d' = (queue_existing_execution new_id (bc_id c) (rc_worker_id x) (bc_runtime c) now d1)\<lparr>sessions :=
       update_where (\<lambda>s. ss_id s = bc_id c \<and> ss_state s = SessionBlocked) (materialized_row (rc_worker_id x)) (sessions d)\<rparr>"
    by (rule materialize_step_Inr)
  obtain wr where d1: "d1 = d\<lparr>worker_repositories := wr\<rparr>" using select_session_route_reserves [OF r] by blast
  have "moves_work Claims d d'"
    unfolding moves_work_def by (simp add: d') (rule moved_update, simp add: moved_def)
  then show ?thesis by (simp add: d' queue_existing_execution_def d1 keeps_def keeps_keys_def split: option.split)
qed simp

lemma reroute_moves:
  assumes "reroute_queued_session_for_worker now w d = Inr d'" "scan_ok d"
  shows "moves_work Claims d d' \<and> keeps d d'"
  using assms
proof (rule reroute_Inr)
  assume "same_but_reservations d d'"
  then show ?thesis using keeps_same_reservations same_but_reservations_tables(2) moves_work_same by blast
next
  fix e c assume e: "same_but_reservations d e" and step: "reroute_step now w e c = Inr (d', True)"
  from step show ?thesis
  proof (cases rule: reroute_step_Inr)
    case (moved x d1)
    have same: "same_but_reservations d d1" by (rule same_but_reservations_trans [OF e moved(1)])
    have "moves_work Claims d d'"
      unfolding moves_work_def moved(4) using same_but_reservations_tables(2) [OF same]
      by simp (rule moved_update, simp add: moved_def)
    moreover have "keeps d1 d'" by (simp add: moved(4) keepsI)
    ultimately show ?thesis using keeps_same_reservations [OF same] keeps_trans by blast
  qed simp
qed

lemma claim_execution_moves:
  assumes "claim_execution now i w q dg x d = Inr (reply, d')"
  shows "moves_work Claims d d' \<and> keeps d d'"
proof
  show "moves_work Claims d d'"
    unfolding moves_work_def
    by (simp add: claim_execution_Inr(2) [OF assms] record_claim_def claim_rows_def Let_def) (rule moved_update, simp add: moved_def)
  show "keeps d d'" by (simp add: claim_execution_Inr(2) [OF assms] record_claim_def claim_rows_def Let_def keepsI)
qed

lemma claim_moves:
  assumes ok: "store_ok d" "'''' \<notin> ss_id ` set (sessions d)" "new_id \<notin> ex_id ` set (executions d)"
    and tx: "claim_tx now i new_id d worker input = Inr (reply, d')"
  shows "moves_work Claims d d' \<and> keeps d d'"
  using tx
proof (cases rule: claim_tx_Inr)
  case (fresh w d0)
  have d0: "moves_work Claims d d0" "keeps d d0" "store_ok d0" "sessions d0 = sessions d" "executions d0 = executions d"
    using fresh(4) ok(1) forget_claim_ok by (auto simp: forget_claim_def intro: keepsI)
  have "moves_work Claims d0 d' \<and> keeps d0 d'"
    using fresh(6)
  proof (cases rule: fresh_claim_Inr)
    case full
    then show ?thesis by (simp add: insert_empty_claim_def record_claim_def keepsI)
  next
    case (none d1 d2)
    have scan: "scan_ok d1" using materialize_scan_ok [OF d0(3) _ _ none(2)] ok(2,3) d0(4,5) by simp
    have "moves_work Claims d2 d'" "keeps d2 d'"
      by (simp_all add: none(5) insert_empty_claim_def record_claim_def keepsI)
    then show ?thesis
      using materialize_moves [OF none(2)] reroute_moves [OF none(3) scan] moves_work_trans keeps_trans by blast
  next
    case (given d1 d2 e)
    have scan: "scan_ok d1" using materialize_scan_ok [OF d0(3) _ _ given(1)] ok(2,3) d0(4,5) by simp
    then show ?thesis
      using materialize_moves [OF given(1)] reroute_moves [OF given(2) scan] claim_execution_moves [OF given(4)]
        moves_work_trans keeps_trans by blast
  qed
  with d0(1,2) show ?thesis using moves_work_trans keeps_trans by blast
qed simp_all

text \<open>A report of an agent is stored and may show its progress on the Work.\<close>

lemma append_agent_update_moves:
  assumes "append_agent_update_tx now j d i input = Inr (r, d')"
  shows "moves_work Reports d d' \<and> keeps_keys d d'"
  using assms
proof (cases rule: append_agent_update_tx_Inr)
  case (recorded lease status)
  from recorded(6) show ?thesis
  proof (cases rule: record_agent_update_Inr)
    case (repeated u)
    then show ?thesis by (simp add: keeps_keys_def store_agent_update_request_def)
  next
    case (fresh s)
    have "moves_work Reports d d'"
      unfolding moves_work_def
      by (simp add: fresh(6) insert_agent_update_tables list.rel_refl) (intro impI moved_update, simp add: moved_def)
    then show ?thesis
      by (simp add: fresh(6) keeps_keys_def insert_agent_update_def store_agent_update_request_def Let_def)
  qed
qed simp

text \<open>Admission adds a Run and its Work, and nothing else moves.\<close>

definition fresh_admission :: "admission_ids \<Rightarrow> db \<Rightarrow> bool" where
  "fresh_admission ids d \<longleftrightarrow>
     ai_run ids \<notin> run_id ` set (runs d) \<and> (\<forall>n. fresh_ids ids 0 n d) \<and> '''' \<notin> range (ai_work ids)"

lemma admit_task_tx_Inr:
  assumes "admit_task_tx printable now ids d task_id source key scheduled frozen profile = Inr (reply, d')"
  obtains (again) r where "find_run_by_key d key = Some r" "d' = d" "reply = (run_id r, False)"
  | (new) t :: task_snapshot and e ready reason where "find_run_by_key d key = None" "ts_repositories t \<noteq> []"
      "admit_run now ids d task_id source key scheduled profile t e ready reason = Inr (reply, d')"
proof (cases "find_run_by_key d key")
  case None
  with assms obtain t e ready reason where
    plan: "admission_plan printable d task_id scheduled frozen profile = Inr (t, e, ready, reason)"
    and run: "admit_run now ids d task_id source key scheduled profile t e ready reason = Inr (reply, d')"
    by (auto simp: admit_task_tx_def and_then_Inr)
  from plan obtain x where "ts_repositories x \<noteq> []" "select_workflows printable d x = Inr t"
    by (auto simp: admission_plan_def and_then_Inr)
  then have "ts_repositories t \<noteq> []"
    by (auto simp: select_workflows_def and_then_Inr with_workflows_def split: if_splits)
  with None run show ?thesis by (intro new)
next
  case (Some r)
  with assms show ?thesis by (intro again) (auto simp: admit_task_tx_def split: if_splits)
qed

lemma admit_targets_updates:
  "admit_targets am position rs m d = Inr (targets, d') \<Longrightarrow> work_updates d' = work_updates d"
proof (induction rs arbitrary: position m d targets)
  case (Cons r rs)
  then obtain x d1 m' targets' where one: "admit_target am position r m d = Inr (x, d1)"
    and rest: "admit_targets am (Suc position) rs m' d1 = Inr (targets', d')"
    by (auto simp: and_then_Inr split: prod.splits)
  from one obtain workflow prompt stages reason worker d2 where route: "route_admitted am r m d = Inr ((reason, worker), d2)"
    and row: "insert_target am (admission_target (ai_work (am_ids am) position) position r) workflow prompt stages reason worker d2 = Inr (x, d1)"
    by (auto simp: admit_target_def Let_def and_then_Inr)
  have "work_updates d1 = work_updates d2"
    using row by (auto simp: insert_target_def insert_session_stages_def queue_admitted_def split: if_splits option.splits)
  then show ?case
    using Cons.IH [OF rest] same_but_reservations_tables(6) [OF route_admitted_same [OF route]] by simp
qed simp

lemma admit_run_updates:
  assumes "admit_run now ids d task_id source key scheduled profile t e ready reason = Inr (reply, d')"
  shows "work_updates d' = work_updates d" "task_rows d' = task_rows d"
proof -
  obtain am targets d2 r0 rs where one: "admit_targets am 0 (ts_repositories t) 0 (d\<lparr>runs := r0\<rparr>) = Inr (targets, d2)"
    and d': "d' = d2\<lparr>runs := rs\<rparr>"
    using assms by (auto simp: admit_run_def Let_def and_then_Inr)
  show "work_updates d' = work_updates d" using admit_targets_updates [OF one] by (simp add: d')
  show "task_rows d' = task_rows d" using admit_targets_catalog [OF one] by (simp add: d' same_catalog_def)
qed

subsection \<open>The state of a store between two operations\<close>

definition sound :: "db \<Rightarrow> bool" where
  "sound d \<longleftrightarrow> store_ok d \<and> history_ok d \<and> '''' \<notin> ss_id ` set (sessions d) \<and>
     distinct (map run_request_key (runs d)) \<and> distinct (map tk_id (task_rows d))"

lemma soundD:
  assumes "sound d"
  shows "store_ok d" "history_ok d" "'''' \<notin> ss_id ` set (sessions d)" "distinct (map run_request_key (runs d))"
    "distinct (map tk_id (task_rows d))"
  using assms by (simp_all add: sound_def)

text \<open>A step that leaves the store well formed and moves the board as its kind says.\<close>

definition good_step :: "step_kind \<Rightarrow> db \<Rightarrow> db \<Rightarrow> bool" where
  "good_step k d d' \<longleftrightarrow> sound d' \<and> board_step k (board_of d) (board_of d') \<and> (one_open_item d \<longrightarrow> one_open_item d')"

lemma board_step_refl [simp]: "board_step k b b"
  by (simp add: board_step_def split: option.split)

lemma good_step_refl: "sound d \<Longrightarrow> good_step k d d"
  by (simp add: good_step_def)

lemma good_step_committed:
  assumes "committed d tx f = (r, d')" "sound d" "\<And>x. tx = Inr (x, d') \<Longrightarrow> good_step k d d'"
  shows "good_step k d d'"
  using assms(1) by (rule committed_cases) (use assms(2,3) good_step_refl in blast)+

lemma moves_work_sound_ids:
  assumes "moves_work k d d'" "'''' \<notin> ss_id ` set (sessions d)"
  shows "'''' \<notin> ss_id ` set (sessions d')"
  using assms(2) moves_work_ids [OF assms(1)] by (metis list.set_map)

lemma good_moves:
  assumes "sound d" "moves_work k d d'" "keeps_keys d d'" "store_ok d'" "history_ok d'"
    and "k = Retries \<Longrightarrow> one_open_item d \<Longrightarrow> one_open_item d'"
  shows "good_step k d d'"
  using assms(1,3-5) moves_work_board [OF assms(2)] moves_work_sound_ids [OF assms(2)] assms(6) moves_work_open_item [OF assms(2)]
  by (cases "k = Retries") (simp_all add: good_step_def sound_def keeps_keys_def)

lemma retry_open_item:
  assumes "store_ok d" "retry_session_tx now new_id d i w = Inr (u, d')" "one_open_item d"
  shows "one_open_item d'"
  using assms(2)
proof (rule retry_session_tx_Inr)
  fix s r limit c d1
  assume s: "find_run_session d i w = Some s" and guard: "validate_work_retry_guards d s = Inr ()"
    and route: "select_session_route d (ss_repository_id s) (ss_repository_identity s) now '''' (ss_required_runtime s) = Inr (c, d1)"
    and d': "d' = reopen_run now i (let d2 = retry_execution now new_id s (rc_worker_id c) d1;
         d3 = d2\<lparr>sessions := update_where (\<lambda>x. ss_id x = w)
           (retry_session_row (rc_worker_id c) (ss_started_at s \<noteq> None \<or> ss_retry_may_repeat_effects s)) (sessions d2)\<rparr>
       in d3\<lparr>session_stages := update_where (\<lambda>g. sg_session_id g = w) reset_stage (session_stages d3)\<rparr>)"
  have s': "s \<in> set (sessions d)" "ss_id s = w" using s by (auto simp: find_run_session_def dest: find_Some_set)
  note keys = store_okD(1) [OF assms(1)]
  show ?thesis
  proof (rule reopened_open_item [OF retry_tables(1) [OF route d'] assms(3)])
    fix x t assume x: "x \<in> set (sessions d)" "ss_id x = w" "tg_target_kind (ss_target x) = ''work_item''"
      and t: "t \<in> set (sessions d)" "ss_id t \<noteq> w" "open_item t"
    have "x = s" using session_unique [OF keys x(1) s'(1)] x(2) s'(2) by simp
    moreover have "distinct (map ss_id (sessions d))" using keys by (simp add: keys_ok_def)
    ultimately show "work_source x \<noteq> work_source t"
      using validate_work_retry_guards_Inr [OF guard _ t(1)] t s'(2) x(3) by (auto simp: work_source_def open_item_def)
  qed simp
qed

lemma good_keeps:
  assumes "sound d" "moves_work k d d' \<and> keeps d d'" "store_ok d'" "k = Retries \<Longrightarrow> one_open_item d \<Longrightarrow> one_open_item d'"
  shows "good_step k d d'"
  using good_moves [OF assms(1) _ _ assms(3) _ assms(4)] assms(2) history_ok_frame [OF soundD(2) [OF assms(1)]] by (simp add: keeps_def)

text \<open>Operations on the catalog leave the tables of Runs and Work alone.\<close>

definition same_work :: "db \<Rightarrow> db \<Rightarrow> bool" where
  "same_work d d' \<longleftrightarrow> runs d' = runs d \<and> sessions d' = sessions d \<and> executions d' = executions d \<and>
     attempts d' = attempts d \<and> session_stages d' = session_stages d \<and> work_updates d' = work_updates d"

lemma good_catalog:
  assumes "sound d" "same_work d d'" "distinct (map tk_id (task_rows d'))"
  shows "good_step k d d'"
proof -
  have "store_ok d'" by (rule store_ok_frame [OF soundD(1) [OF assms(1)]]) (use assms(2) in \<open>simp_all add: same_work_def\<close>)
  moreover have "history_ok d'" by (rule history_ok_frame [OF soundD(2) [OF assms(1)]]) (use assms(2) in \<open>simp add: same_work_def\<close>)
  ultimately show ?thesis
    using assms one_open_item_same [of d' d] by (auto simp: good_step_def sound_def same_work_def board_of_def find_session_def)
qed

lemma board_step_new_work:
  assumes "sessions d' = sessions d @ ws" "\<And>s. s \<in> set ws \<Longrightarrow> ss_state s = SessionQueued \<or> ss_state s = SessionBlocked"
  shows "board_step Admits (board_of d) (board_of d')"
  unfolding board_step_def
proof
  have added: "ss_state s = SessionQueued \<or> ss_state s = SessionBlocked" if "find P ws = Some s" for P s
    using assms(2) find_Some_set [OF that] by blast
  fix i show "case board_of d i of
      None \<Rightarrow> board_of d' i = None \<or> Admits = Admits \<and> (board_of d' i = Some SessionBlocked \<or> board_of d' i = Some SessionQueued)
    | Some st \<Rightarrow> (\<exists>st'. board_of d' i = Some st' \<and> (st' = st \<or> moves Admits st st'))"
    using added [of "\<lambda>s. ss_id s = i"]
    by (cases "find (\<lambda>s. ss_id s = i) ws"; cases "find (\<lambda>s. ss_id s = i) (sessions d)")
      (auto simp: board_of_def find_session_def assms(1) find_append)
qed

text \<open>The Work of Tasks is about repositories.\<close>

lemma admit_targets_repositories:
  "admit_targets am position rs m d = Inr (targets, d') \<Longrightarrow>
   \<exists>new. sessions d' = sessions d @ new \<and> (\<forall>s \<in> set new. tg_target_kind (ss_target s) = ''repository'')"
proof (induction rs arbitrary: position m d targets)
  case (Cons r rs)
  from Cons.prems obtain target queued d1 targets' where one: "admit_target am position r m d = Inr ((target, queued), d1)"
    and rest: "admit_targets am (Suc position) rs (if queued then Suc m else m) d1 = Inr (targets', d')"
    by (auto simp: and_then_Inr)
  from one obtain workflow prompt stages reason worker d0 where
    route: "route_admitted am r m d = Inr ((reason, worker), d0)"
    and row: "insert_target am (admission_target (ai_work (am_ids am) position) position r) workflow prompt stages reason worker d0 =
      Inr ((target, queued), d1)"
    by (auto simp: admit_target_def Let_def and_then_Inr)
  have "\<exists>s. sessions d1 = sessions d0 @ [s] \<and> tg_target_kind (ss_target s) = ''repository''"
    using row by (auto simp: insert_target_def insert_session_stages_def queue_admitted_def admitted_session_def
        admission_target_def work_target.defs split: if_splits option.splits)
  then obtain s where "sessions d1 = sessions d @ [s]" "tg_target_kind (ss_target s) = ''repository''"
    using same_but_reservations_tables [OF route_admitted_same [OF route]] by auto
  with Cons.IH [OF rest] show ?case by auto
qed simp

lemma good_admission:
  assumes ok: "sound d" and fresh: "fresh_admission ids d"
    and tx: "admit_task_tx printable now ids d task_id source key scheduled frozen profile = Inr (reply, d')"
  shows "good_step Admits d d'"
  using tx
proof (cases rule: admit_task_tx_Inr)
  case again
  with ok show ?thesis by (simp add: good_step_refl)
next
  case (new t e ready reason)
  have f: "ai_run ids \<notin> run_id ` set (runs d)" "fresh_ids ids 0 (length (ts_repositories t)) d" "'''' \<notin> range (ai_work ids)"
    using fresh by (auto simp: fresh_admission_def)
  obtain am r ws stages where am: "am_ids am = ids" and ok': "store_ok d'" and run: "runs d' = runs d @ [r]" "run_request_key r = key"
    and work: "sessions d' = sessions d @ ws" "length ws = length (ts_repositories t)"
      "\<And>k. k < length (ts_repositories t) \<Longrightarrow> admitted_work am k (ts_repositories t ! k) (ws ! k) (stages ! k)"
    by (rule admit_run_Inr [OF soundD(1) [OF ok] f(1,2) new(2,3)]) blast
  note same = admit_run_updates [OF new(3)]
  have ws: "ss_id s \<in> range (ai_work ids) \<and> (ss_state s = SessionQueued \<or> ss_state s = SessionBlocked)" if s: "s \<in> set ws" for s
  proof -
    obtain k where "k < length ws" "s = ws ! k" using s by (auto simp: in_set_conv_nth)
    with work(2) work(3) [of k] show ?thesis by (simp add: admitted_work_def am)
  qed
  have "board_step Admits (board_of d) (board_of d')" by (rule board_step_new_work [OF work(1)]) (use ws in blast)
  moreover have "'''' \<notin> ss_id ` set ws" using ws f(3) by fastforce
  then have "sound d'"
    using soundD [OF ok] ok' new(1) history_ok_frame [OF soundD(2) [OF ok] same(1)]
    by (auto simp: sound_def run work(1) same(2) find_run_by_key_def find_None_set)
  moreover have "one_open_item d'" if "one_open_item d"
  proof -
    obtain am' targets d1 d2 where "admit_targets am' 0 (ts_repositories t) 0 d1 = Inr (targets, d2)" "sessions d1 = sessions d" "sessions d' = sessions d2"
      using new(3) by (auto simp: admit_run_def Let_def and_then_Inr)
    with admit_targets_repositories [of am' 0 "ts_repositories t" 0 d1 targets d2] work(1)
    have "\<forall>s \<in> set ws. tg_target_kind (ss_target s) = ''repository''" by auto
    then show ?thesis by (intro one_open_item_append_repositories [OF that work(1)]) simp
  qed
  ultimately show ?thesis by (simp add: good_step_def)
qed

end
