(* ===== verification/Registration.thy ===== *)
theory Registration
  imports Routing Repositories Tasks
begin

text \<open>
  The registration of Workers (store.go): a Worker reports its name, runtime, capacity, capabilities, repositories and
  the worktrees it retains; the control plane normalises the report, stores it, decides which repositories the Worker
  advertises and acknowledges the capacity of Attempts whose worktrees are accounted for. The case table and the case
  folding of Unicode are arguments. Go iterates over maps of repository ids; the model goes through lists of them, and
  the lemmas show that the order does not matter.
\<close>

subsection \<open>Normalising the report\<close>

definition max_body_bytes :: nat where "max_body_bytes = 1048576"
definition min_worker_capacity :: int where "min_worker_capacity = 1"
definition max_worker_capacity :: int where "max_worker_capacity = 100"

text \<open>A migration maps the ids of repositories that it merged to the surviving one.\<close>

definition resolve_repository_alias :: "db \<Rightarrow> ident \<Rightarrow> ident" where
  "resolve_repository_alias d i =
     (case find (\<lambda>a. ra_alias_id a = i) (repository_aliases d) of None \<Rightarrow> i | Some a \<Rightarrow> ra_repository_id a)"

definition valid_worker_label :: "string \<times> string \<Rightarrow> bool" where
  "valid_worker_label = (\<lambda>(key, value).
     trim_space key \<noteq> '''' \<and> trim_space key = key \<and> length (trim_space key) \<le> 100 \<and> length (trim_space value) \<le> 200)"

definition normalize_worker_labels :: "(string \<times> string) list \<Rightarrow> (string \<times> string) list result" where
  "normalize_worker_labels labels =
     (if 20 < length labels then Inl (invalid ''invalid_labels'' ''a Worker may advertise at most 20 labels'')
      else if \<not> list_all valid_worker_label labels
      then Inl (invalid ''invalid_labels''
        ''Worker label keys must be trimmed and at most 100 bytes; values must be at most 200 bytes'')
      else Inr (map (\<lambda>(key, value). (trim_space key, trim_space value)) labels))"

definition invalid_capabilities :: "string \<Rightarrow> service_error" where
  "invalid_capabilities message = invalid ''invalid_capabilities'' message"

definition normalize_capability :: "(string \<Rightarrow> string) \<Rightarrow> capability \<Rightarrow> capability result" where
  "normalize_capability lower c =
     (let c = \<lparr>cap_kind = lower (trim_space (cap_kind c)), cap_name = lower (trim_space (cap_name c)),
        cap_status = lower (trim_space (cap_status c)), cap_version = trim_space (cap_version c),
        cap_message = trim_space (cap_message c)\<rparr> in
      if cap_kind c \<noteq> ''tool'' \<and> cap_kind c \<noteq> capability_kind_runtime
      then Inl (invalid_capabilities ''capability kind must be tool or runtime'')
      else if cap_kind c = capability_kind_runtime \<and> \<not> supported_runtime (cap_name c)
      then Inl (invalid_capabilities ''runtime capabilities must be pi, codex, or claude-code'')
      else if cap_kind c = ''tool'' \<and> cap_name c \<noteq> ''git'' \<and> cap_name c \<noteq> ''gh''
      then Inl (invalid_capabilities ''tool capabilities must be git or gh'')
      else if cap_status c \<notin> {capability_ready, ''missing'', ''unauthenticated'', ''unhealthy''}
      then Inl (invalid_capabilities ''capability status must be ready, missing, unauthenticated, or unhealthy'')
      else if 1024 < length (cap_version c) \<or> 1024 < length (cap_message c)
      then Inl (invalid_capabilities ''capability version and message must be at most 1024 bytes'')
      else Inr c)"

fun normalize_capabilities :: "(string \<Rightarrow> string) \<Rightarrow> string set \<Rightarrow> capability list \<Rightarrow> capability list result" where
  "normalize_capabilities lower seen [] = Inr []"
| "normalize_capabilities lower seen (c # cs) =
     and_then (normalize_capability lower c) (\<lambda>c.
       let key = cap_kind c @ '':'' @ cap_name c in
       if key \<in> seen then Inl (invalid_capabilities ''capabilities must be unique by kind and name'')
       else and_then (normalize_capabilities lower (insert key seen) cs) (\<lambda>cs. Inr (c # cs)))"

definition normalize_worker_capabilities :: "(string \<Rightarrow> string) \<Rightarrow> worker_registration \<Rightarrow> capability list result" where
  "normalize_worker_capabilities lower r =
     (if wi_capabilities r = []
      then Inr [\<lparr>cap_kind = capability_kind_runtime, cap_name = wi_runtime r,
        cap_status = (if wi_health r = ''healthy'' then capability_ready else ''unhealthy''),
        cap_version = wi_runtime_version r, cap_message = ''''\<rparr>]
      else if 20 < length (wi_capabilities r)
      then Inl (invalid_capabilities ''a worker may advertise at most 20 capabilities'')
      else and_then (normalize_capabilities lower {} (wi_capabilities r)) (\<lambda>cs.
        if \<not> list_ex (\<lambda>c. cap_kind c = capability_kind_runtime \<and> cap_name c = wi_runtime r) cs
        then Inl (invalid_capabilities ''capabilities must include the worker primary runtime'')
        else Inr cs))"

definition health_of :: "string \<Rightarrow> worker_health" where
  "health_of s = (if s = ''healthy'' then Healthy else Unhealthy)"

text \<open>The fields up to the capacity handoff, in the order of their checks.\<close>

definition check_worker_fields :: "(string \<Rightarrow> string) \<Rightarrow> worker_registration \<Rightarrow> worker_registration result" where
  "check_worker_fields lower r =
     (let r = r\<lparr>wi_name := trim_space (wi_name r)\<rparr> in
      if wi_name r = '''' \<or> 200 < length (wi_name r)
      then Inl (invalid ''invalid_worker'' ''worker name is required and must be at most 200 bytes'')
      else if wi_claim_protocol_version r \<noteq> int claim_protocol_version
      then Inl (conflict ''worker_upgrade_required''
        ''the Worker uses an incompatible claim protocol; upgrade it before reconnecting'')
      else and_then (normalize_worker_labels (wi_labels r)) (\<lambda>labels.
        let runtime = (if trim_space (wi_runtime r) = '''' then ''codex'' else trim_space (wi_runtime r));
            r = r\<lparr>wi_labels := labels, wi_runtime := runtime, wi_runtime_version := trim_space (wi_runtime_version r)\<rparr> in
        if \<not> supported_runtime runtime
        then Inl (invalid ''invalid_runtime'' ''runtime must be pi, codex, or claude-code'')
        else if 1024 < length (wi_runtime_version r)
        then Inl (invalid ''invalid_runtime_version'' ''runtime_version must be at most 1024 bytes'')
        else if wi_capacity r < min_worker_capacity \<or> max_worker_capacity < wi_capacity r \<or> wi_active_count r < 0 \<or>
                wi_capacity r < wi_active_count r
        then Inl (invalid ''invalid_capacity'' ''capacity must be 1 through 100 and active_count cannot exceed it'')
        else if wi_health r \<noteq> ''healthy'' \<and> wi_health r \<noteq> ''unhealthy''
        then Inl (invalid ''invalid_health'' ''health must be healthy or unhealthy'')
        else and_then (normalize_worker_capabilities lower r) (\<lambda>cs.
          case wi_weekly_limit r of
            Some l \<Rightarrow>
              if wl_used_percent l < 0 \<or> 100 < wl_used_percent l \<or> wl_resets_at l = None
              then Inl (invalid ''invalid_weekly_limit''
                ''weekly_limit must contain a percentage from 0 through 100 and a reset time'')
              else Inr (r\<lparr>wi_capabilities := cs\<rparr>)
          | None \<Rightarrow> Inr (r\<lparr>wi_capabilities := cs\<rparr>))))"

definition invalid_managed_ids :: "string \<Rightarrow> service_error" where
  "invalid_managed_ids message = invalid ''invalid_managed_repository_ids'' message"

fun normalize_managed_ids :: "db \<Rightarrow> ident set \<Rightarrow> ident list \<Rightarrow> ident list result" where
  "normalize_managed_ids d seen [] = Inr []"
| "normalize_managed_ids d seen (i # is) =
     (let i = resolve_repository_alias d i in
      if \<not> valid_uuid i \<or> i \<in> seen
      then Inl (invalid_managed_ids ''cached managed repository IDs must be unique UUIDs'')
      else and_then (normalize_managed_ids d (insert i seen) is) (\<lambda>is. Inr (i # is)))"

text \<open>The repositories, each with the spelling of its remote that the Worker uses. Two spellings of one GitHub
  repository are merged under the first key.\<close>

definition merge_spelling ::
  "(string \<Rightarrow> string \<Rightarrow> bool) \<Rightarrow> repository_registration \<Rightarrow> string \<Rightarrow> (repository_registration \<times> string) list \<Rightarrow>
   (repository_registration \<times> string) list result" where
  "merge_spelling equal_fold repo spelling found =
     (case find (\<lambda>(x, _). rr_remote_identity x = rr_remote_identity repo) found of
        None \<Rightarrow> Inr (found @ [(repo, spelling)])
      | Some (_, previous) \<Rightarrow>
          if spelling = previous \<or> \<not> equal_fold spelling previous
          then Inl (invalid ''duplicate_repository'' ''repository identities must be unique per worker'')
          else Inr (update_where (\<lambda>(x, _). rr_remote_identity x = rr_remote_identity repo)
            (\<lambda>(x, s). (x\<lparr>rr_retained_count := max (rr_retained_count x) (rr_retained_count repo)\<rparr>, s)) found))"

fun normalize_repositories ::
  "(string \<Rightarrow> string \<Rightarrow> bool) \<Rightarrow> string set \<Rightarrow> (repository_registration \<times> string) list \<Rightarrow> repository_registration list \<Rightarrow>
   (repository_registration \<times> string) list result" where
  "normalize_repositories equal_fold keys found [] = Inr found"
| "normalize_repositories equal_fold keys found (value # values) =
     (let key = trim_space (rr_key value); spelling = normalize_remote (rr_remote_identity value);
          repo = value\<lparr>rr_key := key, rr_remote_identity := normalize_registered_remote spelling\<rparr> in
      if key = '''' \<or> rr_remote_identity repo = '''' \<or> 200 < length key \<or> 2048 < length (rr_remote_identity repo)
      then Inl (invalid ''invalid_repository'' ''repository key and remote_identity are required'')
      else if rr_retained_count repo < 0
      then Inl (invalid ''invalid_repository'' ''retained_count cannot be negative'')
      else if key \<in> keys
      then Inl (invalid ''duplicate_repository'' ''repository keys and identities must be unique per worker'')
      else and_then (merge_spelling equal_fold repo spelling found) (\<lambda>found.
        normalize_repositories equal_fold (insert key keys) found values))"

text \<open>The evidence of retained worktrees: per Attempt the repository that holds its worktree, in the order of the
  report, and whether a summary could not be attributed.\<close>

definition resolve_worktree :: "db \<Rightarrow> retained_worktree \<Rightarrow> retained_worktree" where
  "resolve_worktree d w =
     (let repository = trim_space (rw_repository_id w) in
      w\<lparr>rw_attempt_id := trim_space (rw_attempt_id w),
        rw_repository_id := (if repository \<noteq> '''' then resolve_repository_alias d repository else repository)\<rparr>)"

definition count_worktree :: "retained_worktree \<Rightarrow> (ident \<times> ident) list \<times> bool \<Rightarrow> (ident \<times> ident) list \<times> bool" where
  "count_worktree w = (\<lambda>(evidence, unattributed).
     if rw_attempt_id w = '''' \<or> rw_repository_id w = '''' then (evidence, True)
     else
       case map_of evidence (rw_attempt_id w) of
         Some repository \<Rightarrow> (evidence, unattributed \<or> repository \<noteq> rw_repository_id w)
       | None \<Rightarrow> (evidence @ [(rw_attempt_id w, rw_repository_id w)], unattributed))"

definition retained_evidence :: "retained_worktree list \<Rightarrow> (ident \<times> ident) list \<times> bool" where
  "retained_evidence ws = fold count_worktree ws ([], False)"

fun normalize_disposed :: "ident list \<Rightarrow> ident list \<Rightarrow> ident list result" where
  "normalize_disposed found [] = Inr found"
| "normalize_disposed found (value # values) =
     (let i = trim_space value in
      if i = '''' \<or> 200 < length i
      then Inl (invalid ''invalid_disposed_attempts'' ''disposed attempt IDs must be non-empty and at most 200 bytes'')
      else normalize_disposed (if i \<in> set found then found else found @ [i]) values)"

text \<open>The JSON of two columns is limited.\<close>

definition json_retained_worktree :: "retained_worktree \<Rightarrow> string" where
  "json_retained_worktree w = json_object
     (json_field ''attempt_id'' (json_string (rw_attempt_id w)) @
      json_field ''repository_id'' (json_string (rw_repository_id w)) @ json_field ''path'' (json_string (rw_path w)) @
      json_field ''reason'' (json_string (rw_reason w)) @
      json_field ''cleanup_command'' (json_string (rw_cleanup_command w)))"

definition json_capability :: "capability \<Rightarrow> string" where
  "json_capability c = json_object
     (json_field ''kind'' (json_string (cap_kind c)) @ json_field ''name'' (json_string (cap_name c)) @
      json_field ''status'' (json_string (cap_status c)) @ json_omitempty ''version'' (cap_version c) @
      json_omitempty ''message'' (cap_message c))"

record normalized_registration =
  nr_report :: worker_registration
  nr_repositories :: "(repository_registration \<times> string) list"
  nr_evidence :: "(ident \<times> ident) list"
  nr_unattributed :: bool
  nr_disposed :: "ident list"

definition normalize_registration ::
  "(string \<Rightarrow> string) \<Rightarrow> (string \<Rightarrow> string \<Rightarrow> bool) \<Rightarrow> db \<Rightarrow> worker_registration \<Rightarrow> normalized_registration result" where
  "normalize_registration lower equal_fold d r =
     and_then (check_worker_fields lower r) (\<lambda>r.
       if wi_capacity_handoff_version r < 0 \<or> 1 < wi_capacity_handoff_version r
       then Inl (invalid ''invalid_capacity_handoff'' ''capacity_handoff_version must be 0 or 1'')
       else if max_repository_cache_entries < length (wi_managed_repository_ids r)
       then Inl (invalid_managed_ids ''a worker may advertise at most 100 cached managed repository IDs'')
       else
         and_then (normalize_managed_ids d {} (wi_managed_repository_ids r)) (\<lambda>is.
         and_then (normalize_source_access (wi_source_access r)) (\<lambda>access.
         and_then (normalize_repositories equal_fold {} [] (wi_repositories r)) (\<lambda>repositories.
           let worktrees = map (resolve_worktree d) (wi_retained_worktrees r);
               (evidence, unattributed) = retained_evidence worktrees in
           and_then (normalize_disposed [] (wi_disposed_attempt_ids r)) (\<lambda>disposed.
             if max_body_bytes < length (json_array (map json_retained_worktree worktrees))
             then Inl (invalid ''invalid_retained_worktrees'' ''retained worktree summaries are too large'')
             else if max_body_bytes < length (json_array (map json_capability (wi_capabilities r)))
             then Inl (invalid_capabilities ''worker capabilities could not be encoded'')
             else Inr \<lparr>nr_report = r\<lparr>wi_managed_repository_ids := is, wi_source_access := access,
                 wi_retained_worktrees := worktrees\<rparr>,
               nr_repositories = repositories, nr_evidence = evidence, nr_unattributed = unattributed,
               nr_disposed = disposed\<rparr>)))))"

subsection \<open>Storing the report\<close>

definition worker_row_of :: "millis \<Rightarrow> ident \<Rightarrow> worker_registration \<Rightarrow> worker" where
  "worker_row_of now i r =
     \<lparr>wk_id = i, wk_name = wi_name r, wk_runtime = wi_runtime r, wk_capabilities = wi_capabilities r,
      wk_capacity = nat (wi_capacity r), wk_active_count = nat (wi_active_count r), wk_health = health_of (wi_health r),
      wk_last_heartbeat = now, wk_claim_protocol_version = nat (wi_claim_protocol_version r), wk_synthetic = False,
      wk_source_access = wi_source_access r, wk_accepts_managed_repositories = wi_accepts_managed_repositories r,
      wk_managed_repository_ids = wi_managed_repository_ids r, wk_registered_at = now, wk_labels = wi_labels r,
      wk_worker_version = wi_worker_version r, wk_runtime_version = wi_runtime_version r,
      wk_retained_worktrees = wi_retained_worktrees r,
      wk_weekly_limit_used_percent = map_option wl_used_percent (wi_weekly_limit r),
      wk_weekly_limit_resets_at = Option.bind (wi_weekly_limit r) (\<lambda>l. map_option unix_milli (wl_resets_at l))\<rparr>"

text \<open>On a conflict of the key, all columns are taken from the new row but the runtime, the mark of synthetic Workers
  and the instant of the first registration.\<close>

definition upsert_worker :: "worker \<Rightarrow> db \<Rightarrow> db" where
  "upsert_worker w d =
     d\<lparr>workers := (if find_worker d (wk_id w) = None then workers d @ [w]
       else update_where (\<lambda>x. wk_id x = wk_id w) (\<lambda>x. w\<lparr>wk_runtime := wk_runtime x, wk_synthetic := wk_synthetic x,
         wk_registered_at := wk_registered_at x\<rparr>) (workers d))\<rparr>"

fun check_repository_keys :: "db \<Rightarrow> ident \<Rightarrow> (repository_registration \<times> string) list \<Rightarrow> unit result" where
  "check_repository_keys d i [] = Inr ()"
| "check_repository_keys d i ((repo, spelling) # rs) =
     (case find (\<lambda>x. wr_worker_id x = i \<and> wr_display_key x = rr_key repo) (worker_repositories d) of
        None \<Rightarrow> check_repository_keys d i rs
      | Some x \<Rightarrow>
          (case find_repository d (wr_repository_id x) of
             None \<Rightarrow> Inl unavailable
           | Some p \<Rightarrow>
               if rp_remote_identity p \<noteq> rr_remote_identity repo
               then Inl (conflict ''repository_key_changed''
                 ''a repository key cannot be reassigned to a different remote identity'')
               else check_repository_keys d i rs))"

text \<open>Until they are reported again, only the repositories that the control plane assigned stay advertised.\<close>

definition hide_repositories :: "millis \<Rightarrow> ident \<Rightarrow> bool \<Rightarrow> db \<Rightarrow> db" where
  "hide_repositories now i accepts d = d\<lparr>worker_repositories := update_where (\<lambda>x. wr_worker_id x = i)
     (\<lambda>x. x\<lparr>wr_advertised := wr_dynamic x \<and> accepts, wr_updated_at := now\<rparr>) (worker_repositories d)\<rparr>"

definition register_repository_id :: "millis \<Rightarrow> ident \<Rightarrow> string \<Rightarrow> db \<Rightarrow> (ident \<times> db) result" where
  "register_repository_id now new_id remote d =
     (case find (\<lambda>r. rp_remote_identity r = remote) (repositories d) of
        Some r \<Rightarrow> Inr (rp_id r, d)
      | None \<Rightarrow>
          if max_managed_repositories \<le> length (repositories d)
          then Inl (conflict ''repository_limit_reached'' ''the managed repository limit has been reached'')
          else Inr (new_id, d\<lparr>repositories := repositories d @ [\<lparr>rp_id = new_id, rp_remote_identity = remote,
            rp_enabled = False, rp_centrally_managed = False, rp_issue_intake_enabled = False, rp_created_at = now,
            rp_updated_at = now\<rparr>]\<rparr>))"

definition retained_in :: "(ident \<times> ident) list \<Rightarrow> ident \<Rightarrow> nat" where
  "retained_in evidence repository = count_where (\<lambda>(_, r). r = repository) evidence"

definition map_repository :: "millis \<Rightarrow> ident \<Rightarrow> string \<Rightarrow> string \<Rightarrow> nat \<Rightarrow> ident \<Rightarrow> db \<Rightarrow> db" where
  "map_repository now i key spelling retained repository d =
     (let mine = (\<lambda>x. wr_worker_id x = i \<and> wr_repository_id x = repository) in
      d\<lparr>worker_repositories :=
        (if list_ex mine (worker_repositories d)
         then update_where mine (\<lambda>x. x\<lparr>wr_display_key := key, wr_worker_remote_identity := spelling,
           wr_retained_count := retained, wr_advertised := True, wr_dynamic := False, wr_updated_at := now\<rparr>)
           (worker_repositories d)
         else worker_repositories d @ [\<lparr>wr_worker_id = i, wr_display_key = key, wr_repository_id = repository,
           wr_worker_remote_identity = spelling, wr_retained_count = retained, wr_advertised = True, wr_dynamic = False,
           wr_updated_at = now\<rparr>])\<rparr>)"

fun register_repositories ::
  "millis \<Rightarrow> (nat \<Rightarrow> ident) \<Rightarrow> nat \<Rightarrow> ident \<Rightarrow> (ident \<times> ident) list \<Rightarrow> (repository_registration \<times> string) list \<Rightarrow>
   ident list \<Rightarrow> db \<Rightarrow> (ident list \<times> db) result" where
  "register_repositories now ids k i evidence [] advertised d = Inr (advertised, d)"
| "register_repositories now ids k i evidence ((repo, spelling) # rs) advertised d =
     and_then (register_repository_id now (ids k) (rr_remote_identity repo) d) (\<lambda>(repository, d).
       register_repositories now ids (Suc k) i evidence rs (List.insert repository advertised)
         (map_repository now i (rr_key repo) spelling
           (max (nat (rr_retained_count repo)) (retained_in evidence repository)) repository d))"

text \<open>A repository that the control plane assigned is released when the Worker neither caches it nor retains a
  worktree of it nor has Work of it.\<close>

definition holds_work :: "db \<Rightarrow> ident \<Rightarrow> ident \<Rightarrow> bool" where
  "holds_work d i repository \<longleftrightarrow> list_ex (\<lambda>e. ex_assigned_worker_id e = i \<and>
     (ex_state e = ExecutionQueued \<or> ex_state e = ExecutionPreparing \<or> ex_state e = ExecutionRunning) \<and>
     (case find_session d (ex_session_id e) of None \<Rightarrow> False | Some s \<Rightarrow> ss_repository_id s = repository)) (executions d)"

definition refresh_dynamic ::
  "millis \<Rightarrow> ident \<Rightarrow> worker_registration \<Rightarrow> (ident \<times> ident) list \<Rightarrow> ident \<Rightarrow> ident list \<times> db \<Rightarrow> ident list \<times> db" where
  "refresh_dynamic now i r evidence repository = (\<lambda>(advertised, d).
     let accepts = wi_accepts_managed_repositories r;
         mine = (\<lambda>x. wr_worker_id x = i \<and> wr_repository_id x = repository \<and> wr_dynamic x);
         unused = (\<lambda>x. mine x \<and> wr_retained_count x = 0);
         advertised = (if accepts then List.insert repository advertised else advertised);
         d = d\<lparr>worker_repositories := update_where mine (\<lambda>x. x\<lparr>wr_retained_count := retained_in evidence repository,
           wr_advertised := accepts, wr_updated_at := now\<rparr>) (worker_repositories d)\<rparr> in
     if repository \<in> set (wi_managed_repository_ids r) \<or> 0 < retained_in evidence repository then (advertised, d)
     else if holds_work d i repository \<or> \<not> list_ex unused (worker_repositories d) then (advertised, d)
     else (removeAll repository advertised, d\<lparr>worker_repositories := update_where unused
       (\<lambda>x. x\<lparr>wr_advertised := False, wr_updated_at := now\<rparr>) (worker_repositories d)\<rparr>))"

definition refresh_dynamic_repositories ::
  "millis \<Rightarrow> ident \<Rightarrow> worker_registration \<Rightarrow> (ident \<times> ident) list \<Rightarrow> ident list \<times> db \<Rightarrow> ident list \<times> db" where
  "refresh_dynamic_repositories now i r evidence = (\<lambda>(advertised, d).
     fold (refresh_dynamic now i r evidence)
       (map wr_repository_id (filter (\<lambda>x. wr_worker_id x = i \<and> wr_dynamic x) (worker_repositories d))) (advertised, d))"

subsection \<open>Acknowledging capacity\<close>

text \<open>An Attempt that the Worker disposed of no longer counts against its retention; ids that are not known are skipped.\<close>

fun acknowledge_disposed :: "ident \<Rightarrow> ident list \<Rightarrow> db \<Rightarrow> db result" where
  "acknowledge_disposed i [] d = Inr d"
| "acknowledge_disposed i (j # js) d =
     (case find_attempt d j of
        None \<Rightarrow> acknowledge_disposed i js d
      | Some a \<Rightarrow>
          if at_worker_id a \<noteq> i
          then Inl (invalid ''invalid_disposed_attempts'' ''disposed attempts must exist and be owned by this worker'')
          else acknowledge_disposed i js (d\<lparr>attempts := update_where (\<lambda>a. at_id a = j)
            (\<lambda>a. a\<lparr>at_capacity_acknowledged := True\<rparr>) (attempts d)\<rparr>))"

definition ended_in :: "db \<Rightarrow> ident \<Rightarrow> ident \<Rightarrow> attempt \<Rightarrow> bool" where
  "ended_in d i repository a \<longleftrightarrow> attempt_uses_repository d i repository a \<and> is_terminal (at_state a)"

text \<open>A Worker that runs nothing and does not hand over single Attempts acknowledges all of a repository at once.\<close>

definition acknowledge_repository :: "ident \<Rightarrow> bool \<Rightarrow> (ident \<times> ident) list \<Rightarrow> ident \<Rightarrow> db \<Rightarrow> db" where
  "acknowledge_repository i bulk evidence repository d =
     (let d1 = d\<lparr>attempts := update_where
            (\<lambda>a. \<not> at_capacity_acknowledged a \<and> ended_in d i repository a \<and> bulk)
            (\<lambda>a. a\<lparr>at_capacity_acknowledged := True\<rparr>) (attempts d)\<rparr>
      in fold (\<lambda>j d. d\<lparr>attempts := update_where (\<lambda>a. at_id a = j \<and> ended_in d i repository a)
            (\<lambda>a. a\<lparr>at_capacity_acknowledged := True\<rparr>) (attempts d)\<rparr>)
          (map fst (filter (\<lambda>(_, r). r = repository) evidence)) d1)"

definition can_bulk_acknowledge :: "normalized_registration \<Rightarrow> ident list \<Rightarrow> bool" where
  "can_bulk_acknowledge n advertised \<longleftrightarrow>
     wi_capacity_handoff_version (nr_report n) = 0 \<and> \<not> nr_unattributed n \<and>
     snd ` set (nr_evidence n) \<subseteq> set advertised"

subsection \<open>The transaction\<close>

definition acknowledge_capacity :: "ident \<Rightarrow> normalized_registration \<Rightarrow> ident list \<Rightarrow> db \<Rightarrow> db" where
  "acknowledge_capacity i n advertised d =
     fold (acknowledge_repository i (wi_active_count (nr_report n) = 0 \<and> can_bulk_acknowledge n advertised) (nr_evidence n))
       advertised d"

definition register_worker_tx ::
  "millis \<Rightarrow> (nat \<Rightarrow> ident) \<Rightarrow> ident \<Rightarrow> normalized_registration \<Rightarrow> db \<Rightarrow> (unit \<times> db) result" where
  "register_worker_tx now ids i n d =
     (let r = nr_report n; accepts = wi_accepts_managed_repositories r in
      if (case find_worker d i of None \<Rightarrow> False | Some w \<Rightarrow> wk_runtime w \<noteq> wi_runtime r)
      then Inl (conflict ''worker_runtime_changed''
        ''a worker runtime cannot change; use a new worker data directory for a new identity'')
      else
        and_then (check_repository_keys d i (nr_repositories n)) (\<lambda>_.
        and_then (register_repositories now ids 0 i (nr_evidence n) (nr_repositories n) []
            (hide_repositories now i accepts (upsert_worker (worker_row_of now i r) d))) (\<lambda>(advertised, d1).
          case refresh_dynamic_repositories now i r (nr_evidence n) (advertised, d1) of
            (advertised, d2) \<Rightarrow>
              and_then (acknowledge_disposed i (nr_disposed n) d2) (\<lambda>d3.
                Inr ((), acknowledge_capacity i n advertised d3)))))"

subsection \<open>Reading Workers\<close>

definition latest_executing :: "db \<Rightarrow> ident \<Rightarrow> execution list" where
  "latest_executing d i = rev (sort_key (\<lambda>e. (ex_updated_at e, ex_id e))
     (filter (\<lambda>e. ex_assigned_worker_id e = i \<and> (ex_state e = ExecutionPreparing \<or> ex_state e = ExecutionRunning) \<and>
        Option.bind (find_session d (ex_session_id e)) (\<lambda>s. find_run d (ss_run_id s)) \<noteq> None) (executions d)))"

definition current_run_title :: "db \<Rightarrow> ident \<Rightarrow> string" where
  "current_run_title d i =
     (case latest_executing d i of
        [] \<Rightarrow> ''''
      | e # _ \<Rightarrow>
          (case Option.bind (find_session d (ex_session_id e)) (\<lambda>s. find_run d (ss_run_id s)) of
             None \<Rightarrow> ''''
           | Some r \<Rightarrow> ts_name (run_task_snapshot r)))"

definition worker_online :: "int \<Rightarrow> worker \<Rightarrow> bool" where
  "worker_online now w \<longleftrightarrow> wk_synthetic w \<and> wk_health w = Healthy \<or>
     \<not> wk_synthetic w \<and> now - from_millis (wk_last_heartbeat w) \<le> from_millis worker_online_window"

definition advertised_repository_of :: "db \<Rightarrow> worker_repository \<Rightarrow> advertised_repository option" where
  "advertised_repository_of d x =
     (case find_repository d (wr_repository_id x) of
        None \<Rightarrow> None
      | Some r \<Rightarrow> Some \<lparr>ad_id = rp_id r, ad_key = wr_display_key x,
          ad_remote_identity = coalesce_nullif (wr_worker_remote_identity x) (rp_remote_identity r),
          ad_retained_count = wr_retained_count x\<rparr>)"

definition worker_repository_views :: "db \<Rightarrow> ident \<Rightarrow> advertised_repository list" where
  "worker_repository_views d i = List.map_filter (advertised_repository_of d)
     (sort_key wr_display_key (filter (\<lambda>x. wr_worker_id x = i \<and> wr_advertised x) (worker_repositories d)))"

definition scan_worker :: "int \<Rightarrow> db \<Rightarrow> worker \<Rightarrow> worker_view" where
  "scan_worker now d w =
     \<lparr>ww_id = wk_id w, ww_name = wk_name w, ww_labels = wk_labels w, ww_worker_version = wk_worker_version w,
      ww_runtime = wk_runtime w, ww_runtime_version = wk_runtime_version w, ww_capabilities = wk_capabilities w,
      ww_capacity = wk_capacity w, ww_active_count = wk_active_count w, ww_health = wk_health w,
      ww_online = worker_online now w, ww_synthetic = wk_synthetic w,
      ww_repositories = worker_repository_views d (wk_id w), ww_source_access = wk_source_access w,
      ww_accepts_managed_repositories = wk_accepts_managed_repositories w,
      ww_repository_cache_count = length (wk_managed_repository_ids w),
      ww_retained_worktrees = wk_retained_worktrees w, ww_current_run_title = current_run_title d (wk_id w),
      ww_registered_at = from_millis (wk_registered_at w), ww_last_heartbeat = from_millis (wk_last_heartbeat w)\<rparr>"

definition worker_reply :: "int \<Rightarrow> db \<Rightarrow> ident \<Rightarrow> worker_view result" where
  "worker_reply now d i = (case find_worker d i of None \<Rightarrow> Inl err_not_found | Some w \<Rightarrow> Inr (scan_worker now d w))"

definition workers_page :: "int \<Rightarrow> db \<Rightarrow> worker_view list" where
  "workers_page now d = map (scan_worker now d) (sort_key (\<lambda>w. (wk_registered_at w, wk_id w)) (workers d))"

definition worker_summary_of :: "int \<Rightarrow> worker \<Rightarrow> worker_summary" where
  "worker_summary_of now w =
     \<lparr>wsm_id = wk_id w, wsm_name = wk_name w, wsm_runtime = wk_runtime w, wsm_capacity = wk_capacity w,
      wsm_active_count = wk_active_count w, wsm_health = wk_health w,
      wsm_online = worker_online now w, wsm_last_heartbeat = from_millis (wk_last_heartbeat w)\<rparr>"

definition worker_summaries :: "int \<Rightarrow> db \<Rightarrow> worker_summary list" where
  "worker_summaries now d = map (worker_summary_of now) (sort_key (\<lambda>w. (wk_registered_at w, wk_id w)) (workers d))"

subsection \<open>RegisterWorker and HeartbeatWorker\<close>

definition synthetic_conflict :: "string \<Rightarrow> service_error" where
  "synthetic_conflict message = conflict ''synthetic_worker_isolated'' message"

definition synthetic_worker :: "db \<Rightarrow> ident \<Rightarrow> bool" where
  "synthetic_worker d i \<longleftrightarrow> (case find_worker d i of None \<Rightarrow> False | Some w \<Rightarrow> wk_synthetic w)"

definition register_worker ::
  "(string \<Rightarrow> string) \<Rightarrow> (string \<Rightarrow> string \<Rightarrow> bool) \<Rightarrow> int \<Rightarrow> (nat \<Rightarrow> ident) \<Rightarrow> db \<Rightarrow> ident \<Rightarrow> worker_registration \<Rightarrow>
   worker_view result \<times> db" where
  "register_worker lower equal_fold now ids d worker_id input =
     (let i = trim_space worker_id in
      if i = '''' \<or> 200 < length i
      then (Inl (invalid ''invalid_worker_id'' ''worker_id is required and must be at most 200 bytes''), d)
      else if synthetic_worker d i
      then (Inl (synthetic_conflict ''synthetic cloud Workers cannot register through Worker routes''), d)
      else
        case normalize_registration lower equal_fold d input of
          Inl e \<Rightarrow> (Inl e, d)
        | Inr n \<Rightarrow> committed d (register_worker_tx (unix_milli now) ids i n d) (\<lambda>d' _. worker_reply now d' i))"

definition heartbeat_worker :: "int \<Rightarrow> db \<Rightarrow> ident \<Rightarrow> worker_view result \<times> db" where
  "heartbeat_worker now d i =
     (let mine = (\<lambda>w. wk_id w = i \<and> \<not> wk_synthetic w) in
      if count_where mine (workers d) = 0 then
        (if synthetic_worker d i
         then (Inl (synthetic_conflict ''synthetic cloud Workers cannot use Worker heartbeat routes''), d)
         else (Inl err_not_found, d))
      else
        let d' = d\<lparr>workers := update_where mine (\<lambda>w. w\<lparr>wk_last_heartbeat := unix_milli now\<rparr>) (workers d)\<rparr>
        in (worker_reply now d' i, d'))"

subsection \<open>Which Attempts are acknowledged\<close>

abbreviation acknowledged :: "attempt \<Rightarrow> attempt" where
  "acknowledged a \<equiv> a\<lparr>at_capacity_acknowledged := True\<rparr>"

definition acknowledges :: "(attempt \<Rightarrow> bool) \<Rightarrow> db \<Rightarrow> db" where
  "acknowledges P d = d\<lparr>attempts := update_where P acknowledged (attempts d)\<rparr>"

lemma update_where_acknowledged:
  "(\<And>a. Q (acknowledged a) = Q a) \<Longrightarrow>
   update_where Q acknowledged (update_where P acknowledged as) = update_where (\<lambda>a. P a \<or> Q a) acknowledged as"
  by (induction as) auto

lemma update_where_not_yet:
  "update_where (\<lambda>a. \<not> at_capacity_acknowledged a \<and> Q a) acknowledged as = update_where Q acknowledged as"
  by (induction as) auto

lemma acknowledges_trans:
  "(\<And>a. Q (acknowledged a) = Q a) \<Longrightarrow> acknowledges Q (acknowledges P d) = acknowledges (\<lambda>a. P a \<or> Q a) d"
  by (simp add: acknowledges_def update_where_acknowledged)

lemma acknowledges_none: "(\<And>a. a \<in> set (attempts d) \<Longrightarrow> \<not> P a) \<Longrightarrow> acknowledges P d = d"
proof -
  assume none: "\<And>a. a \<in> set (attempts d) \<Longrightarrow> \<not> P a"
  have "(\<And>a. a \<in> set as \<Longrightarrow> \<not> P a) \<Longrightarrow> update_where P acknowledged as = as" for as by (induction as) auto
  with none show ?thesis by (simp add: acknowledges_def)
qed

lemma attempt_session_acknowledges [simp]:
  "attempt_session (acknowledges P d) a = attempt_session d a"
proof -
  have "find_session (acknowledges P d) = find_session d" "find_execution (acknowledges P d) = find_execution d"
    by (simp_all add: acknowledges_def fun_eq_iff find_session_def find_execution_def)
  then show ?thesis by (simp only: attempt_session_def attempt_execution_def)
qed

lemma ended_in_acknowledges [simp]:
  "ended_in (acknowledges P d) i repository = ended_in d i repository"
  "ended_in d i repository (acknowledged a) = ended_in d i repository a"
  by (simp_all add: fun_eq_iff ended_in_def attempt_uses_repository_def)
    (simp add: attempt_session_def attempt_execution_def)

definition accounted :: "bool \<Rightarrow> (ident \<times> ident) list \<Rightarrow> db \<Rightarrow> ident \<Rightarrow> ident \<Rightarrow> attempt \<Rightarrow> bool" where
  "accounted bulk evidence d i repository a \<longleftrightarrow>
     ended_in d i repository a \<and> (bulk \<or> (at_id a, repository) \<in> set evidence)"

lemma accounted_acknowledges [simp]:
  "accounted bulk evidence (acknowledges P d) i repository = accounted bulk evidence d i repository"
  "accounted bulk evidence d i repository (acknowledged a) = accounted bulk evidence d i repository a"
  by (simp_all add: accounted_def [abs_def])

lemma acknowledge_named:
  "fold (\<lambda>j d. d\<lparr>attempts := update_where (\<lambda>a. at_id a = j \<and> ended_in d i repository a) acknowledged (attempts d)\<rparr>) js d =
   acknowledges (\<lambda>a. at_id a \<in> set js \<and> ended_in d i repository a) d"
proof (induction js arbitrary: d)
  case Nil
  then show ?case by (simp add: acknowledges_none)
next
  case (Cons j js)
  let ?d = "acknowledges (\<lambda>a. at_id a = j \<and> ended_in d i repository a) d"
  have "fold (\<lambda>j d. d\<lparr>attempts := update_where (\<lambda>a. at_id a = j \<and> ended_in d i repository a) acknowledged (attempts d)\<rparr>) (j # js) d =
      acknowledges (\<lambda>a. at_id a \<in> set js \<and> ended_in ?d i repository a) ?d"
    using Cons.IH [of ?d] by (simp add: acknowledges_def)
  also have "\<dots> = acknowledges (\<lambda>a. at_id a \<in> set (j # js) \<and> ended_in d i repository a) d"
    by (simp add: acknowledges_trans) (rule arg_cong2 [where f = acknowledges], auto)
  finally show ?case .
qed

lemma acknowledge_repository_eq:
  "acknowledge_repository i bulk evidence repository d = acknowledges (accounted bulk evidence d i repository) d"
proof -
  let ?d = "acknowledges (\<lambda>a. ended_in d i repository a \<and> bulk) d"
  have named: "at_id a \<in> fst ` {x. x \<in> set evidence \<and> (case x of (_, r) \<Rightarrow> r = repository)} \<longleftrightarrow> (at_id a, repository) \<in> set evidence" for a
    by force
  have "acknowledge_repository i bulk evidence repository d =
      acknowledges (\<lambda>a. (at_id a, repository) \<in> set evidence \<and> ended_in ?d i repository a) ?d"
    unfolding acknowledge_repository_def Let_def acknowledge_named
    by (simp add: acknowledges_def update_where_not_yet named)
  also have "\<dots> = acknowledges (accounted bulk evidence d i repository) d"
    by (simp add: acknowledges_trans) (rule arg_cong2 [where f = acknowledges], auto simp: accounted_def)
  finally show ?thesis .
qed

text \<open>Whatever the order in which the repositories are visited.\<close>

lemma acknowledge_repositories_eq:
  "fold (acknowledge_repository i bulk evidence) rs d =
   acknowledges (\<lambda>a. \<exists>repository \<in> set rs. accounted bulk evidence d i repository a) d"
proof (induction rs arbitrary: d)
  case Nil
  then show ?case by (simp add: acknowledges_none)
next
  case (Cons r rs)
  have "fold (acknowledge_repository i bulk evidence) (r # rs) d =
      fold (acknowledge_repository i bulk evidence) rs (acknowledges (accounted bulk evidence d i r) d)"
    by (simp add: acknowledge_repository_eq)
  then show ?case unfolding Cons.IH by (simp add: acknowledges_trans)
qed

lemma acknowledge_disposed_Inr:
  assumes "acknowledge_disposed i js d = Inr d'"
  shows "d' = acknowledges (\<lambda>a. at_id a \<in> set js) d" "\<And>j a. j \<in> set js \<Longrightarrow> find_attempt d j = Some a \<Longrightarrow> at_worker_id a = i"
proof -
  have "d' = acknowledges (\<lambda>a. at_id a \<in> set js) d \<and> (\<forall>j \<in> set js. \<forall>a. find_attempt d j = Some a \<longrightarrow> at_worker_id a = i)"
    using assms
  proof (induction js arbitrary: d)
    case Nil
    then show ?case by (simp add: acknowledges_none)
  next
    case (Cons j js)
    show ?case
    proof (cases "find_attempt d j")
      case None
      with Cons.prems have IH: "d' = acknowledges (\<lambda>a. at_id a \<in> set js) d"
        "\<forall>j \<in> set js. \<forall>a. find_attempt d j = Some a \<longrightarrow> at_worker_id a = i" using Cons.IH [of d] by simp_all
      have "acknowledges (\<lambda>a. at_id a \<in> set js) d = acknowledges (\<lambda>a. at_id a \<in> set (j # js)) d"
        using None unfolding acknowledges_def find_attempt_None update_where_def by auto
      with IH None show ?thesis by simp
    next
      case (Some a)
      let ?d = "acknowledges (\<lambda>a. at_id a = j) d"
      have find: "find_attempt ?d k = map_option (\<lambda>a. if at_id a = j then acknowledged a else a) (find_attempt d k)" for k
        by (simp add: acknowledges_def find_attempt_def find_update_where)
      from Cons.prems Some have owner: "at_worker_id a = i" and rest: "acknowledge_disposed i js ?d = Inr d'"
        by (simp_all add: acknowledges_def split: if_splits)
      from Cons.IH [OF rest] have IH: "d' = acknowledges (\<lambda>a. at_id a \<in> set js) ?d"
        "\<forall>k \<in> set js. \<forall>a. find_attempt ?d k = Some a \<longrightarrow> at_worker_id a = i" by simp_all
      have "at_worker_id b = i" if "k \<in> set js" "find_attempt d k = Some b" for k b
        using IH(2) that find [of k] by (cases "at_id b = j") auto
      moreover have "d' = acknowledges (\<lambda>a. at_id a \<in> set (j # js)) d"
        by (simp add: IH(1) acknowledges_trans)
      ultimately show ?thesis using owner Some by auto
    qed
  qed
  then show "d' = acknowledges (\<lambda>a. at_id a \<in> set js) d"
    "\<And>j a. j \<in> set js \<Longrightarrow> find_attempt d j = Some a \<Longrightarrow> at_worker_id a = i" by blast+
qed

subsection \<open>What a registration changes\<close>

lemma attempt_session_frame:
  assumes "sessions d' = sessions d" "executions d' = executions d"
  shows "attempt_session d' = attempt_session d"
proof -
  have "find_session d' = find_session d" "find_execution d' = find_execution d"
    using assms by (simp_all add: fun_eq_iff find_session_def find_execution_def)
  then have "attempt_session d' a = attempt_session d a" for a by (simp only: attempt_session_def attempt_execution_def)
  then show ?thesis ..
qed

lemma ended_in_frame:
  "sessions d' = sessions d \<Longrightarrow> executions d' = executions d \<Longrightarrow> ended_in d' = ended_in d"
  using attempt_session_frame [of d' d] by (simp add: fun_eq_iff ended_in_def attempt_uses_repository_def)

lemma register_repositories_tables:
  "register_repositories now ids k i evidence rs advertised d = Inr (advertised', d') \<Longrightarrow>
   d' = d\<lparr>repositories := repositories d', worker_repositories := worker_repositories d'\<rparr>"
proof (induction rs arbitrary: k advertised d)
  case (Cons x rs)
  obtain repo spelling where x: "x = (repo, spelling)" by (cases x)
  from Cons.prems obtain j d1 where one: "register_repository_id now (ids k) (rr_remote_identity repo) d = Inr (j, d1)"
    and rest: "register_repositories now ids (Suc k) i evidence rs (List.insert j advertised)
      (map_repository now i (rr_key repo) spelling (max (nat (rr_retained_count repo)) (retained_in evidence j)) j d1) =
      Inr (advertised', d')"
    by (auto simp: x and_then_Inr)
  have "d1 = d\<lparr>repositories := repositories d1\<rparr>"
    using one by (auto simp: register_repository_id_def split: option.splits if_splits)
  then obtain r1 where d1: "d1 = d\<lparr>repositories := r1\<rparr>" ..
  have "\<exists>w. map_repository now i key s c j d1 = d1\<lparr>worker_repositories := w\<rparr>" for key s c
    by (auto simp: map_repository_def Let_def)
  then obtain w where w: "map_repository now i (rr_key repo) spelling
      (max (nat (rr_retained_count repo)) (retained_in evidence j)) j d1 = d1\<lparr>worker_repositories := w\<rparr>" by blast
  show ?case using Cons.IH [OF rest [unfolded w]] unfolding d1 by simp
qed simp

lemma refresh_dynamic_tables:
  "\<exists>w. snd (refresh_dynamic now i r evidence x (advertised, d)) = d\<lparr>worker_repositories := w\<rparr>"
  by (simp add: refresh_dynamic_def Let_def) blast

lemma refresh_dynamic_repositories_tables:
  "\<exists>w. snd (refresh_dynamic_repositories now i r evidence (advertised, d)) = d\<lparr>worker_repositories := w\<rparr>"
proof -
  have "\<exists>w. snd (fold (refresh_dynamic now i r evidence) xs p) = (snd p)\<lparr>worker_repositories := w\<rparr>" for xs p
  proof (induction xs arbitrary: p)
    case Nil
    then show ?case by (intro exI [of _ "worker_repositories (snd p)"]) simp
  next
    case (Cons x xs)
    obtain w where "snd (refresh_dynamic now i r evidence x p) = (snd p)\<lparr>worker_repositories := w\<rparr>"
      using refresh_dynamic_tables [of now i r evidence x "fst p" "snd p"] by auto
    then show ?case using Cons.IH [of "refresh_dynamic now i r evidence x p"] by auto
  qed
  from this [of _ "(advertised, d)"] show ?thesis by (simp add: refresh_dynamic_repositories_def)
qed

text \<open>Which Attempts of the Worker a report accounts for.\<close>

definition accounts_for :: "db \<Rightarrow> ident \<Rightarrow> normalized_registration \<Rightarrow> attempt \<Rightarrow> bool" where
  "accounts_for d i n a \<longleftrightarrow> at_worker_id a = i \<and>
     (at_id a \<in> set (nr_disposed n) \<or>
      is_terminal (at_state a) \<and>
        ((\<exists>repository. (at_id a, repository) \<in> set (nr_evidence n) \<and> attempt_uses_repository d i repository a) \<or>
         wi_active_count (nr_report n) = 0 \<and> wi_capacity_handoff_version (nr_report n) = 0 \<and> \<not> nr_unattributed n))"

lemma register_worker_tx_Inr:
  assumes "register_worker_tx now ids i n d = Inr (u, d')"
  obtains rs ws P where
    "d' = d\<lparr>workers := workers (upsert_worker (worker_row_of now i (nr_report n)) d), repositories := rs,
       worker_repositories := ws, attempts := update_where P acknowledged (attempts d)\<rparr>"
    "\<And>w. find_worker d i = Some w \<Longrightarrow> wk_runtime w = wi_runtime (nr_report n)"
    "\<And>a. keys_ok d \<Longrightarrow> a \<in> set (attempts d) \<Longrightarrow> P a \<Longrightarrow> accounts_for d i n a"
proof -
  let ?r = "nr_report n"
  define d0 where "d0 = hide_repositories now i (wi_accepts_managed_repositories ?r) (upsert_worker (worker_row_of now i ?r) d)"
  from assms obtain adv d1 where
    runtime: "\<And>w. find_worker d i = Some w \<Longrightarrow> wk_runtime w = wi_runtime ?r"
    and d1: "register_repositories now ids 0 i (nr_evidence n) (nr_repositories n) [] d0 = Inr (adv, d1)"
    and rest: "(case refresh_dynamic_repositories now i ?r (nr_evidence n) (adv, d1) of
       (adv, d2) \<Rightarrow> and_then (acknowledge_disposed i (nr_disposed n) d2) (\<lambda>d3. Inr ((), acknowledge_capacity i n adv d3))) =
       Inr (u, d')"
    by (auto simp: register_worker_tx_def Let_def and_then_Inr d0_def split: if_splits option.splits)
  obtain adv2 d2 where d2: "refresh_dynamic_repositories now i ?r (nr_evidence n) (adv, d1) = (adv2, d2)" by fastforce
  from rest obtain d3 where d3: "acknowledge_disposed i (nr_disposed n) d2 = Inr d3" and d': "d' = acknowledge_capacity i n adv2 d3"
    by (auto simp: d2 and_then_Inr)
  obtain ws where ws: "d2 = d1\<lparr>worker_repositories := ws\<rparr>"
    using refresh_dynamic_repositories_tables [of now i ?r "nr_evidence n" adv d1] by (auto simp: d2)
  obtain w0 where "d0 = (upsert_worker (worker_row_of now i ?r) d)\<lparr>worker_repositories := w0\<rparr>"
    by (simp add: d0_def hide_repositories_def)
  moreover obtain wk where up: "upsert_worker (worker_row_of now i ?r) d = d\<lparr>workers := wk\<rparr>" by (simp add: upsert_worker_def)
  moreover obtain rs1 ws1 where d1_eq: "d1 = d0\<lparr>repositories := rs1, worker_repositories := ws1\<rparr>"
    using register_repositories_tables [OF d1] by blast
  ultimately have d2_eq: "d2 = d\<lparr>workers := workers (upsert_worker (worker_row_of now i ?r) d), repositories := repositories d1,
      worker_repositories := ws\<rparr>"
    using d1_eq up by (simp add: ws)
  have d3_eq: "d3 = acknowledges (\<lambda>a. at_id a \<in> set (nr_disposed n)) d2" by (rule acknowledge_disposed_Inr(1) [OF d3])
  let ?bulk = "wi_active_count ?r = 0 \<and> can_bulk_acknowledge n adv2"
  let ?P = "\<lambda>a. at_id a \<in> set (nr_disposed n) \<or> (\<exists>repository \<in> set adv2. accounted ?bulk (nr_evidence n) d2 i repository a)"
  have "d' = acknowledges ?P d2"
    by (simp add: d' acknowledge_capacity_def acknowledge_repositories_eq d3_eq acknowledges_trans)
  moreover have "accounts_for d i n a" if ok: "keys_ok d" and a: "a \<in> set (attempts d)" and P: "?P a" for a
  proof -
    have ended: "ended_in d2 = ended_in d" by (rule ended_in_frame) (simp_all add: d2_eq)
    from P show ?thesis
    proof
      assume disposed: "at_id a \<in> set (nr_disposed n)"
      have "find_attempt d2 (at_id a) = Some a" using find_attempt_in [OF ok a] by (simp add: d2_eq find_attempt_def)
      then show ?thesis using acknowledge_disposed_Inr(2) [OF d3 disposed] disposed by (simp add: accounts_for_def)
    qed (auto simp: accounted_def ended accounts_for_def ended_in_def attempt_uses_repository_def can_bulk_acknowledge_def)
  qed
  ultimately show ?thesis using runtime that [where rs = "repositories d1" and ws = ws and P = ?P] by (simp add: acknowledges_def d2_eq)
qed

lemma acknowledging_ok:
  assumes "store_ok d" "d' = d\<lparr>workers := wk, repositories := rs, worker_repositories := ws,
     attempts := update_where P acknowledged (attempts d)\<rparr>"
  shows "store_ok d'"
proof -
  have "core_ok d'"
    unfolding assms(2)
    by (rule core_ok_same_states [OF store_okD(6) [OF assms(1)]], simp add: same_keys_def map_update_where,
        (simp, rule in_place_intros)+, auto)
  moreover have "runs_ok d'"
    using store_okD(5) [OF assms(1)] by (simp add: assms(2) runs_ok_def run_finished_def run_session_count_def)
  ultimately show ?thesis by (simp add: store_ok_def)
qed

lemma register_worker_tx_ok:
  assumes "store_ok d" "register_worker_tx now ids i n d = Inr (u, d')"
  shows "store_ok d'"
  using assms(2) by (rule register_worker_tx_Inr) (rule acknowledging_ok [OF assms(1)])

lemma heartbeat_worker_tables: "heartbeat_worker now d i = (r, d') \<Longrightarrow> d' = d\<lparr>workers := workers d'\<rparr>"
  by (auto simp: heartbeat_worker_def Let_def split: if_splits)

end
