(* ===== verification/Credentials.thy ===== *)
theory Credentials
  imports Registration Cursor Example_Store
begin

text \<open>
  The credentials of remote Workers (worker_auth.go): an operator creates an enrolment for a Worker, the Worker
  exchanges its token once for the credential it chose, and authenticates with that credential afterwards. Tokens and
  credentials are stored as their SHA-256 only. The random bytes and the id that an enrolment draws are arguments. A
  statement that breaks a \<^verbatim>\<open>UNIQUE\<close> column of migration 26 is a storage failure.
\<close>

subsection \<open>Secrets\<close>

definition worker_enrollment_lifetime :: int where "worker_enrollment_lifetime = 600000000000"

definition random_worker_secret :: "string \<Rightarrow> string \<Rightarrow> string" where
  "random_worker_secret label body = label @ b64_encode body"

definition unauthorized_worker :: service_error where
  "unauthorized_worker = \<lparr>se_code = ''worker_unauthorized'', se_message = ''valid Worker credentials are required'',
     se_status = 401\<rparr>"

record enrollment_view =
  nv_worker_id :: ident
  nv_enrollment_token :: string
  nv_expires_at :: int

subsection \<open>CreateWorkerEnrollment\<close>

definition create_worker_enrollment ::
  "int \<Rightarrow> ident \<Rightarrow> string \<Rightarrow> db \<Rightarrow> ident \<Rightarrow> enrollment_view result \<times> db" where
  "create_worker_enrollment now new_id random d worker_id =
     (let i = trim_space worker_id; token = random_worker_secret ''factory_enroll_'' random;
          expires = now + worker_enrollment_lifetime in
      if i = '''' \<or> 200 < length i
      then (Inl (invalid ''invalid_worker_id'' ''worker_id is required and must be at most 200 bytes''), d)
      else if synthetic_worker d i then (Inl (synthetic_conflict ''synthetic cloud Workers cannot enroll''), d)
      else if list_ex (\<lambda>e. we_id e = new_id \<or> we_token_digest e = digest_token token) (worker_enrollments d)
      then (Inl unavailable, d)
      else (Inr \<lparr>nv_worker_id = i, nv_enrollment_token = token, nv_expires_at = expires\<rparr>,
        d\<lparr>worker_enrollments := worker_enrollments d @ [\<lparr>we_id = new_id, we_worker_id = i,
          we_token_digest = digest_token token, we_expires_at = unix_milli expires, we_used_at = None,
          we_created_at = unix_milli now\<rparr>]\<rparr>))"

subsection \<open>ExchangeWorkerEnrollment\<close>

definition find_enrollment :: "db \<Rightarrow> ident \<Rightarrow> digest \<Rightarrow> worker_enrollment option" where
  "find_enrollment d i dg = find (\<lambda>e. we_worker_id e = i \<and> we_token_digest e = dg) (worker_enrollments d)"

definition find_credential :: "db \<Rightarrow> ident \<Rightarrow> worker_credential option" where
  "find_credential d i = find (\<lambda>c. wc_worker_id c = i) (worker_credentials d)"

definition store_credential :: "millis \<Rightarrow> ident \<Rightarrow> digest \<Rightarrow> db \<Rightarrow> db result" where
  "store_credential now i dg d =
     (if list_ex (\<lambda>c. wc_token_digest c = dg \<and> wc_worker_id c \<noteq> i) (worker_credentials d) then Inl unavailable
      else Inr (d\<lparr>worker_credentials :=
        (if find_credential d i = None
         then worker_credentials d @ [\<lparr>wc_worker_id = i, wc_token_digest = dg, wc_created_at = now, wc_last_used_at = now\<rparr>]
         else update_where (\<lambda>c. wc_worker_id c = i)
           (\<lambda>c. c\<lparr>wc_token_digest := dg, wc_created_at := now, wc_last_used_at := now\<rparr>) (worker_credentials d))\<rparr>))"

definition exchange_request_ok :: "ident \<Rightarrow> string \<Rightarrow> string \<Rightarrow> bool" where
  "exchange_request_ok i token credential \<longleftrightarrow>
     \<not> (i = '''' \<or> 200 < length i \<or> length token < 32 \<or> 1024 < length token \<or> length credential < 32 \<or>
        1024 < length credential \<or> credential \<noteq> trim_space credential \<or>
        \<not> prefix ''factory_worker_'' credential \<and> \<not> prefix ''factory_runner_'' credential)"

definition exchange_worker_enrollment_tx :: "millis \<Rightarrow> ident \<Rightarrow> string \<Rightarrow> string \<Rightarrow> db \<Rightarrow> (unit \<times> db) result" where
  "exchange_worker_enrollment_tx now i token credential d =
     (if synthetic_worker d i then Inl unauthorized_worker
      else
        case find_enrollment d i (digest_token token) of
          None \<Rightarrow> Inl unauthorized_worker
        | Some e \<Rightarrow>
            if we_used_at e \<noteq> None then
              (case find_credential d i of
                 None \<Rightarrow> Inl unauthorized_worker
               | Some c \<Rightarrow>
                   if \<not> equal_digest (wc_token_digest c) (digest_token credential) then Inl unauthorized_worker
                   else Inr ((), d))
            else if \<not> prefix ''factory_worker_'' credential
            then Inl (invalid ''worker_credential_regeneration_required''
              ''the pending Worker credential must be regenerated before this enrollment can be exchanged'')
            else if we_expires_at e < now then Inl unauthorized_worker
            else
              let unused = (\<lambda>x. we_id x = we_id e \<and> we_used_at x = None \<and> now \<le> we_expires_at x);
                  d1 = d\<lparr>worker_enrollments := update_where unused (\<lambda>x. x\<lparr>we_used_at := Some now\<rparr>) (worker_enrollments d)\<rparr> in
              if count_where unused (worker_enrollments d) \<noteq> 1 then Inl unauthorized_worker
              else and_then (store_credential now i (digest_token credential) d1) (\<lambda>d2. Inr ((), d2)))"

definition exchange_worker_enrollment :: "int \<Rightarrow> db \<Rightarrow> ident \<Rightarrow> string \<Rightarrow> string \<Rightarrow> string result \<times> db" where
  "exchange_worker_enrollment now d worker_id token credential =
     (let i = trim_space worker_id in
      if \<not> exchange_request_ok i token credential then (Inl unauthorized_worker, d)
      else committed d (exchange_worker_enrollment_tx (unix_milli now) i token credential d) (\<lambda>_ _. Inr credential))"

subsection \<open>AuthenticateWorkerCredential\<close>

definition authenticate_worker_credential :: "int \<Rightarrow> db \<Rightarrow> string \<Rightarrow> ident result \<times> db" where
  "authenticate_worker_credential now d credential =
     (if length credential < 32 \<or> 1024 < length credential then (Inl unauthorized_worker, d)
      else
        case find (\<lambda>c. wc_token_digest c = digest_token credential \<and> \<not> synthetic_worker d (wc_worker_id c))
               (worker_credentials d) of
          None \<Rightarrow> (Inl unauthorized_worker, d)
        | Some c \<Rightarrow> (Inr (wc_worker_id c), d\<lparr>worker_credentials := update_where (\<lambda>x. wc_worker_id x = wc_worker_id c)
            (\<lambda>x. x\<lparr>wc_last_used_at := unix_milli now\<rparr>) (worker_credentials d)\<rparr>))"

subsection \<open>The tables\<close>

text \<open>The keys of the two tables.\<close>

definition credentials_ok :: "db \<Rightarrow> bool" where
  "credentials_ok d \<longleftrightarrow> distinct (map we_id (worker_enrollments d)) \<and> distinct (map we_token_digest (worker_enrollments d)) \<and>
     distinct (map wc_worker_id (worker_credentials d)) \<and> distinct (map wc_token_digest (worker_credentials d))"

lemma create_worker_enrollment_tables:
  "create_worker_enrollment now j random d i = (r, d') \<Longrightarrow> d' = d\<lparr>worker_enrollments := worker_enrollments d'\<rparr>"
  by (auto simp: create_worker_enrollment_def Let_def split: if_splits)

lemma store_credential_Inr:
  assumes "store_credential now i dg d = Inr d'"
  obtains c where "d' = d\<lparr>worker_credentials := worker_credentials d'\<rparr>"
    "find_credential d' i = Some c" "wc_token_digest c = dg"
    "credentials_ok d \<Longrightarrow> credentials_ok d'"
proof (cases "find_credential d i")
  case None
  with assms have free: "\<forall>c \<in> set (worker_credentials d). wc_token_digest c = dg \<longrightarrow> wc_worker_id c = i"
    and d': "d' = d\<lparr>worker_credentials := worker_credentials d @
      [\<lparr>wc_worker_id = i, wc_token_digest = dg, wc_created_at = now, wc_last_used_at = now\<rparr>]\<rparr>"
    by (auto simp: store_credential_def list_ex_iff split: if_splits)
  have new: "\<forall>c \<in> set (worker_credentials d). wc_worker_id c \<noteq> i" using None by (simp add: find_credential_def find_None_set)
  have found: "find_credential d' i = Some \<lparr>wc_worker_id = i, wc_token_digest = dg, wc_created_at = now, wc_last_used_at = now\<rparr>"
    using None by (simp add: d' find_credential_def find_append)
  have "dg \<notin> wc_token_digest ` set (worker_credentials d)" using free new by auto
  then have "credentials_ok d \<Longrightarrow> credentials_ok d'" using new by (auto simp: d' credentials_ok_def)
  then show thesis by (intro that [OF _ found]) (simp_all add: d')
next
  case (Some c)
  let ?f = "\<lambda>c. c\<lparr>wc_token_digest := dg, wc_created_at := now, wc_last_used_at := now\<rparr>"
  from assms Some have free: "\<forall>c \<in> set (worker_credentials d). wc_token_digest c = dg \<longrightarrow> wc_worker_id c = i"
    and d': "d' = d\<lparr>worker_credentials := update_where (\<lambda>c. wc_worker_id c = i) ?f (worker_credentials d)\<rparr>"
    by (auto simp: store_credential_def list_ex_iff split: if_splits)
  have c: "wc_worker_id c = i" using find_Some_set [of _ _ c] Some by (auto simp: find_credential_def)
  have found: "find_credential d' i = Some (?f c)"
    using Some c by (simp add: d' find_credential_def find_update_where)
  have digests: "distinct (map wc_token_digest (update_where (\<lambda>c. wc_worker_id c = i) ?f cs))"
    if "distinct (map wc_worker_id cs)" "distinct (map wc_token_digest cs)"
      "\<forall>c \<in> set cs. wc_token_digest c = dg \<longrightarrow> wc_worker_id c = i" for cs
  proof -
    have "map wc_token_digest (update_where (\<lambda>c. wc_worker_id c = i) ?f cs) =
        map (\<lambda>c. if wc_worker_id c = i then dg else wc_token_digest c) cs"
      by (simp add: update_where_def)
    moreover have "inj_on (\<lambda>c. if wc_worker_id c = i then dg else wc_token_digest c) (set cs)"
      using that(3) key_unique [OF that(1)] key_unique [OF that(2)] by (auto intro!: inj_onI split: if_splits)
    ultimately show ?thesis using that(1) by (simp add: distinct_map)
  qed
  have "credentials_ok d \<Longrightarrow> credentials_ok d'"
    using digests [OF _ _ free] by (simp add: d' credentials_ok_def map_update_where)
  then show thesis by (intro that [OF _ found]) (simp_all add: d')
qed

lemma exchange_worker_enrollment_tables:
  assumes "exchange_worker_enrollment now d i token credential = (r, d')"
  shows "d' = d\<lparr>worker_enrollments := worker_enrollments d', worker_credentials := worker_credentials d'\<rparr>"
  using assms
  by (auto simp: exchange_worker_enrollment_def exchange_worker_enrollment_tx_def committed_def and_then_Inr Let_def
      store_credential_def split: if_splits option.splits sum.splits)

lemma authenticate_worker_credential_tables:
  "authenticate_worker_credential now d credential = (r, d') \<Longrightarrow> d' = d\<lparr>worker_credentials := worker_credentials d'\<rparr>"
  by (auto simp: authenticate_worker_credential_def split: if_splits option.splits)

lemma find_enrollment_Some:
  "find_enrollment d i dg = Some e \<Longrightarrow> e \<in> set (worker_enrollments d) \<and> we_worker_id e = i \<and> we_token_digest e = dg"
  unfolding find_enrollment_def by (drule find_Some_set) simp

text \<open>An accepted exchange repeats an earlier one or uses the enrolment up.\<close>

lemma exchange_worker_enrollment_Inr:
  assumes "exchange_worker_enrollment now d worker_id token credential = (Inr r, d')"
  obtains e c where "r = credential" "exchange_request_ok (trim_space worker_id) token credential"
    "\<not> synthetic_worker d' (trim_space worker_id)"
    "find_enrollment d (trim_space worker_id) (digest_token token) = Some e"
    "we_used_at e = None \<Longrightarrow> unix_milli now \<le> we_expires_at e"
    "\<exists>e'. find_enrollment d' (trim_space worker_id) (digest_token token) = Some e' \<and> we_used_at e' \<noteq> None"
    "find_credential d' (trim_space worker_id) = Some c" "wc_token_digest c = digest_token credential"
    "credentials_ok d \<Longrightarrow> credentials_ok d'"
proof -
  let ?i = "trim_space worker_id" and ?now = "unix_milli now"
  from assms have r: "r = credential" and ok: "exchange_request_ok ?i token credential"
    and tx: "exchange_worker_enrollment_tx ?now ?i token credential d = Inr ((), d')"
    by (auto simp: exchange_worker_enrollment_def Let_def committed_def split: if_splits sum.splits)
  from tx obtain e where real: "\<not> synthetic_worker d ?i" and e: "find_enrollment d ?i (digest_token token) = Some e"
    by (auto simp: exchange_worker_enrollment_tx_def split: if_splits option.splits)
  show thesis
  proof (cases "we_used_at e = None")
    case False
    with tx real e obtain c where "find_credential d ?i = Some c" "wc_token_digest c = digest_token credential" "d' = d"
      by (auto simp: exchange_worker_enrollment_tx_def equal_digest_def split: if_splits option.splits)
    with False show thesis using r ok e real by (intro that [of e c]) simp_all
  next
    case True
    let ?unused = "\<lambda>x. we_id x = we_id e \<and> we_used_at x = None \<and> ?now \<le> we_expires_at x"
    let ?d1 = "d\<lparr>worker_enrollments := update_where ?unused (\<lambda>x. x\<lparr>we_used_at := Some ?now\<rparr>) (worker_enrollments d)\<rparr>"
    from tx real e True have live: "?now \<le> we_expires_at e"
      and stored: "store_credential ?now ?i (digest_token credential) ?d1 = Inr d'"
      by (auto simp: exchange_worker_enrollment_tx_def and_then_Inr Let_def split: if_splits)
    from stored obtain c where c: "d' = ?d1\<lparr>worker_credentials := worker_credentials d'\<rparr>" "find_credential d' ?i = Some c"
      "wc_token_digest c = digest_token credential" "credentials_ok ?d1 \<Longrightarrow> credentials_ok d'"
      by (rule store_credential_Inr) blast
    obtain cs where d': "d' = ?d1\<lparr>worker_credentials := cs\<rparr>" using c(1) by blast
    have "find_enrollment d' ?i (digest_token token) = map_option (\<lambda>x. if ?unused x then x\<lparr>we_used_at := Some ?now\<rparr> else x)
        (find_enrollment d ?i (digest_token token))"
      unfolding find_enrollment_def by (simp add: d') (rule find_update_where, simp)
    then have used: "find_enrollment d' ?i (digest_token token) = Some (e\<lparr>we_used_at := Some ?now\<rparr>)"
      using e True live by simp
    have "credentials_ok d \<Longrightarrow> credentials_ok ?d1" by (simp add: credentials_ok_def map_update_where)
    moreover have "synthetic_worker d' ?i = synthetic_worker d ?i" by (simp add: synthetic_worker_def find_worker_def d')
    ultimately show thesis using r ok e real live used c(2,3,4) by (intro that [of e c]) simp_all
  qed
qed

lemma credentials_ok_operations:
  "create_worker_enrollment now j random d i = (r, d') \<Longrightarrow> credentials_ok d \<Longrightarrow> credentials_ok d'"
  "exchange_worker_enrollment now d i token credential = (s, d') \<Longrightarrow> credentials_ok d \<Longrightarrow> credentials_ok d'"
  "authenticate_worker_credential now d credential = (t, d') \<Longrightarrow> credentials_ok d \<Longrightarrow> credentials_ok d'"
proof -
  show "create_worker_enrollment now j random d i = (r, d') \<Longrightarrow> credentials_ok d \<Longrightarrow> credentials_ok d'"
    by (auto simp: create_worker_enrollment_def Let_def credentials_ok_def list_ex_iff split: if_splits) blast
  show "authenticate_worker_credential now d credential = (t, d') \<Longrightarrow> credentials_ok d \<Longrightarrow> credentials_ok d'"
    by (auto simp: authenticate_worker_credential_def credentials_ok_def map_update_where split: if_splits option.splits)
  assume exchange: "exchange_worker_enrollment now d i token credential = (s, d')" and ok: "credentials_ok d"
  show "credentials_ok d'"
  proof (cases s)
    case (Inl x)
    with exchange have "d' = d"
      by (auto simp: exchange_worker_enrollment_def Let_def committed_def split: if_splits sum.splits)
    with ok show ?thesis by simp
  next
    case (Inr x)
    from exchange [unfolded Inr] show ?thesis by (rule exchange_worker_enrollment_Inr) (use ok in blast)
  qed
qed

text \<open>C34. An enrolment is exchanged for one credential. After an accepted exchange, which needs an enrolment of that
  Worker for that token which is used already or has not run out, the same exchange is accepted again and changes nothing,
  an exchange of the same token for a credential with another digest is refused, and the credential authenticates that
  Worker and no other.\<close>

theorem enrollment_is_exchanged_once:
  assumes "exchange_worker_enrollment now d worker_id token credential = (Inr r, d')"
  shows "(\<exists>e \<in> set (worker_enrollments d). we_worker_id e = trim_space worker_id \<and> we_token_digest e = digest_token token \<and>
      (we_used_at e \<noteq> None \<or> unix_milli now \<le> we_expires_at e)) \<and>
    exchange_worker_enrollment later d' worker_id token credential = (Inr credential, d') \<and>
    (digest_token other \<noteq> digest_token credential \<longrightarrow>
      exchange_worker_enrollment later d' worker_id token other = (Inl unauthorized_worker, d')) \<and>
    (credentials_ok d \<longrightarrow> fst (authenticate_worker_credential later d' credential) = Inr (trim_space worker_id))"
proof -
  let ?i = "trim_space worker_id"
  obtain e c e' where ok: "exchange_request_ok ?i token credential" and real: "\<not> synthetic_worker d' ?i"
    and e: "find_enrollment d ?i (digest_token token) = Some e" "we_used_at e = None \<Longrightarrow> unix_milli now \<le> we_expires_at e"
    and used: "find_enrollment d' ?i (digest_token token) = Some e'" "we_used_at e' \<noteq> None"
    and c: "find_credential d' ?i = Some c" "wc_token_digest c = digest_token credential"
    and keys: "credentials_ok d \<Longrightarrow> credentials_ok d'"
    by (rule exchange_worker_enrollment_Inr [OF assms]) (elim exE conjE, rule that)
  have "\<exists>e \<in> set (worker_enrollments d). we_worker_id e = ?i \<and> we_token_digest e = digest_token token \<and>
      (we_used_at e \<noteq> None \<or> unix_milli now \<le> we_expires_at e)"
    using find_enrollment_Some [OF e(1)] e(2) by blast
  moreover have "exchange_worker_enrollment later d' worker_id token credential = (Inr credential, d')"
    using ok real used c
    by (simp add: exchange_worker_enrollment_def exchange_worker_enrollment_tx_def Let_def equal_digest_def committed_def)
  moreover have "exchange_worker_enrollment later d' worker_id token other = (Inl unauthorized_worker, d')"
    if "digest_token other \<noteq> digest_token credential"
    using real used c that
    by (simp add: exchange_worker_enrollment_def exchange_worker_enrollment_tx_def Let_def equal_digest_def committed_def)
  moreover have "fst (authenticate_worker_credential later d' credential) = Inr ?i" if "credentials_ok d"
  proof -
    have cs: "c \<in> set (worker_credentials d')" "wc_worker_id c = ?i"
      using c(1) unfolding find_credential_def by (auto dest: find_Some_set)
    have only: "x = c" if "x \<in> set (worker_credentials d')" "wc_token_digest x = digest_token credential" for x
      using key_unique [of wc_token_digest "worker_credentials d'" x c] keys [OF \<open>credentials_ok d\<close>] that cs(1) c(2)
      by (simp add: credentials_ok_def)
    let ?P = "\<lambda>x. wc_token_digest x = digest_token credential \<and> \<not> synthetic_worker d' (wc_worker_id x)"
    have "find ?P (worker_credentials d') \<noteq> None" using cs c(2) real by (auto simp: find_None_set)
    then obtain x where "find ?P (worker_credentials d') = Some x" by blast
    moreover from this have "x = c" using only [of x] find_Some_set [of ?P "worker_credentials d'" x] by blast
    ultimately show ?thesis using ok cs(2) by (simp add: authenticate_worker_credential_def exchange_request_ok_def)
  qed
  ultimately show ?thesis by blast
qed

lemma enrollment_is_exchanged_once_witness:
  "\<exists>view d1 d2. create_worker_enrollment demo_now ''enrollment-1'' (replicate 32 (CHR ''a''))
       (demo_db AttemptRunning [] StagePending StagePending) ''worker-1'' = (Inr view, d1) \<and>
     exchange_worker_enrollment (demo_now + 1) d1 ''worker-1'' (nv_enrollment_token view) (''factory_worker_'' @ demo_token) =
       (Inr (''factory_worker_'' @ demo_token), d2) \<and>
     fst (authenticate_worker_credential (demo_now + 2) d2 (''factory_worker_'' @ demo_token)) = Inr ''worker-1''"
proof -
  let ?d = "demo_db AttemptRunning [] StagePending StagePending" and ?c = "''factory_worker_'' @ demo_token"
  define token where "token = random_worker_secret ''factory_enroll_'' (replicate 32 (CHR ''a''))"
  have token: "32 \<le> length token" "length token \<le> 1024" unfolding token_def by code_simp+
  have trim: "trim_space ''worker-1'' = ''worker-1''" "trim_space ?c = ?c"
    by (rule trim_space_visible; simp add: in_range_def byte_def demo_token_def)+
  let ?e = "\<lparr>we_id = ''enrollment-1'', we_worker_id = ''worker-1'', we_token_digest = digest_token token,
    we_expires_at = unix_milli (demo_now + worker_enrollment_lifetime), we_used_at = None, we_created_at = unix_milli demo_now\<rparr>"
  let ?d1 = "?d\<lparr>worker_enrollments := [?e]\<rparr>"
  have rows: "synthetic_worker ?d ''worker-1'' = False" "worker_enrollments ?d = []" "worker_credentials ?d = []"
    by (simp_all add: synthetic_worker_def find_worker_def demo_db_def demo_worker_def)
  have create: "create_worker_enrollment demo_now ''enrollment-1'' (replicate 32 (CHR ''a'')) ?d ''worker-1'' =
      (Inr \<lparr>nv_worker_id = ''worker-1'', nv_enrollment_token = token, nv_expires_at = demo_now + worker_enrollment_lifetime\<rparr>, ?d1)"
    by (simp add: create_worker_enrollment_def Let_def trim rows token_def [symmetric])
  have ok: "exchange_request_ok ''worker-1'' token ?c"
    unfolding exchange_request_ok_def trim using token by (simp add: prefix_def)
  have live: "unix_milli (demo_now + 1) \<le> unix_milli (demo_now + worker_enrollment_lifetime)"
    by (simp add: unix_milli_def worker_enrollment_lifetime_def demo_now_def)
  have real: "synthetic_worker ?d1 ''worker-1'' = False" using rows(1) by (simp add: synthetic_worker_def find_worker_def)
  have worker: "prefix ''factory_worker_'' ?c" by (rule prefixI) simp
  obtain d2 where exchange: "exchange_worker_enrollment (demo_now + 1) ?d1 ''worker-1'' token ?c = (Inr ?c, d2)"
    using ok live real worker rows(3)
    by (simp add: exchange_worker_enrollment_def exchange_worker_enrollment_tx_def Let_def trim find_enrollment_def count_where_def
        store_credential_def find_credential_def committed_def del: append_Cons)
  have "credentials_ok ?d1" by (simp add: credentials_ok_def rows)
  then have "fst (authenticate_worker_credential (demo_now + 2) d2 ?c) = Inr (trim_space ''worker-1'')"
    using enrollment_is_exchanged_once [OF exchange, of "demo_now + 2" ?c] by blast
  then have "fst (authenticate_worker_credential (demo_now + 2) d2 ?c) = Inr ''worker-1''" by (simp only: trim)
  with create exchange show ?thesis by (intro exI [of _ d2] exI [of _ ?d1] exI conjI) auto
qed

end
