(* ===== verification/Replacement.thy ===== *)
theory Replacement
  imports Operator Admission Lifecycle
begin

text \<open>
  The replacement of Work (replace.go): Work that has ended is done again by new Work of a new Run, which is linked to its
  predecessor and repeats its prompt, target, workflow and way of execution under a new branch. The ids of the new Run,
  Work and execution are an argument.
\<close>

subsection \<open>ReplaceWork\<close>

definition standard_build_procedure_id :: ident where
  "standard_build_procedure_id = ''00000000-0000-4341-8000-000000000341''"

datatype admission_result = AdmissionAdmitted | AdmissionReplayed | AdmissionRejectedBeforeCommit

record replace_work_request =
  pq_request_key :: string
  pq_work_id :: string

record work_replacement =
  px_result :: admission_result
  px_request_key :: string
  px_run :: run_detail

record replacement_ids =
  pi_run :: ident
  pi_work :: ident
  pi_execution :: ident

definition replacement_fingerprint :: "ident \<Rightarrow> digest" where
  "replacement_fingerprint work_id = sum256 (json_object
     (json_field ''operation'' (json_string ''replace'') @ json_field ''work_id'' (json_string work_id)))"

text \<open>\<^verbatim>\<open>strings.Replace\<close> with the limit 1 and a text that is not empty.\<close>

fun replace_first :: "string \<Rightarrow> string \<Rightarrow> string \<Rightarrow> string" where
  "replace_first old new s =
     (if prefix old s then new @ drop (length old) s
      else case s of [] \<Rightarrow> [] | c # cs \<Rightarrow> c # replace_first old new cs)"

declare replace_first.simps [simp del]

definition replace_publish_branch :: "string \<Rightarrow> string \<Rightarrow> string \<Rightarrow> string" where
  "replace_publish_branch prompt old new =
     (if old = '''' \<or> old = new then prompt
      else replace_first (''Factory publish branch: '' @ old) (''Factory publish branch: '' @ new) prompt)"

definition validate_replacement_eligibility ::
  "db \<Rightarrow> ident \<Rightarrow> ident \<Rightarrow> string \<Rightarrow> outcome_contract \<Rightarrow> execution_snapshot \<Rightarrow> unit result" where
  "validate_replacement_eligibility d task_id repository_id identity contract execution =
     (case find_task d task_id of
        None \<Rightarrow> Inl (conflict ''procedure_not_available'' ''the predecessor Procedure no longer exists'')
      | Some t \<Rightarrow>
          if task_id \<noteq> standard_build_procedure_id \<and> (tk_archived t \<or> tk_migration_only t \<or> tk_read_only t)
          then Inl (conflict ''procedure_not_available'' ''the predecessor Procedure is archived or unavailable'')
          else if \<not> list_ex (\<lambda>r. rp_id r = repository_id \<and> rp_remote_identity r = identity \<and>
              (\<not> rp_centrally_managed r \<or> rp_enabled r)) (repositories d)
          then Inl (conflict ''repository_not_available''
            ''the predecessor repository is disabled, deleted, or changed identity'')
          else if contract = OutcomeAgentUpdate \<and> es_backend execution \<noteq> BackendPersistent
          then Inl (conflict ''agent_update_backend_unsupported''
            ''the frozen execution backend cannot resume agent_update Work'')
          else Inr ())"

definition replacement_target :: "ident \<Rightarrow> session \<Rightarrow> run_target" where
  "replacement_target w s = work_target.extend
     ((ss_target s)\<lparr>tg_position := 0, tg_publish_branch := work_publish_branch w\<rparr>)
     \<lparr>rg_id = w, rg_repository_id = ss_repository_id s, rg_repository_identity = ss_repository_identity s\<rparr>"

definition replacement_prompt :: "ident \<Rightarrow> ident \<Rightarrow> session \<Rightarrow> string" where
  "replacement_prompt task_id w s =
     (if task_id = standard_build_procedure_id
      then replace_publish_branch (ss_resolved_prompt s) (tg_publish_branch (ss_target s)) (work_publish_branch w)
      else ss_resolved_prompt s)"

definition replacement_run :: "millis \<Rightarrow> ident \<Rightarrow> string \<Rightarrow> run \<Rightarrow> session \<Rightarrow> run_target \<Rightarrow> run" where
  "replacement_run now i key r s target =
     \<lparr>run_id = i, run_request_key = key, run_request_digest = replacement_fingerprint (ss_id s),
      run_task_id = run_task_id r, run_task_snapshot = run_task_snapshot r, run_source = ''manual'',
      run_scheduled_at = None, run_requested_profile_id = None,
      run_execution = (ss_execution s)\<lparr>es_runtime := ss_required_runtime s, es_timeout_seconds := ss_timeout_seconds s\<rparr>,
      run_targets = [target], run_provider_snapshot = None, run_outcome_contract = run_outcome_contract r,
      run_admitted_at = now, run_updated_at = now, run_terminal_at = None\<rparr>"

definition replacement_session :: "millis \<Rightarrow> ident \<Rightarrow> session \<Rightarrow> run_target \<Rightarrow> string \<Rightarrow> string \<Rightarrow> string \<Rightarrow> session" where
  "replacement_session now run s target prompt worker reason =
     \<lparr>ss_id = rg_id target, ss_run_id = run, ss_repository_id = ss_repository_id s,
      ss_repository_identity = ss_repository_identity s, ss_resolved_prompt = prompt,
      ss_required_runtime = ss_required_runtime s,
      ss_execution = (ss_execution s)\<lparr>es_runtime := ss_required_runtime s, es_timeout_seconds := ss_timeout_seconds s\<rparr>,
      ss_timeout_seconds = ss_timeout_seconds s, ss_state = (if worker = '''' then SessionBlocked else SessionQueued),
      ss_blocked_reason = null_string reason, ss_assigned_worker_id = null_string worker,
      ss_cancellation_requested = False, ss_retry_may_repeat_effects = False, ss_admitted_at = now, ss_started_at = None,
      ss_terminal_at = None, ss_result = None, ss_failure_reason = None, ss_target = work_target.truncate target,
      ss_predecessor_work_id = Some (ss_id s), ss_execution_owner = ExecutionOwnerNone,
      ss_waiting_reason = bounded_utf8_bytes reason max_waiting_reason_bytes, ss_latest_progress = '''', ss_question = '''',
      ss_checkpoint_sha = '''', ss_pending_resume_sha = '''', ss_checkpoint_published = False, ss_answer = '''',
      ss_pull_request_url = '''', ss_pull_request_head_branch = '''', ss_pull_request_head_sha = '''',
      ss_terminal_message = '''', ss_workflow = ss_workflow s\<rparr>"

definition replaceable :: "session_state \<Rightarrow> bool" where
  "replaceable st \<longleftrightarrow> st = SessionReady \<or> st = SessionSucceeded \<or> st = SessionFailed \<or> st = SessionNoChange \<or> st = SessionCancelled"

definition insert_replacement ::
  "millis \<Rightarrow> replacement_ids \<Rightarrow> string \<Rightarrow> run \<Rightarrow> session \<Rightarrow> string \<Rightarrow> stage_run list \<Rightarrow> string \<Rightarrow> string \<Rightarrow> db \<Rightarrow> db result" where
  "insert_replacement now ids key r s prompt stages worker reason d =
     (let target = replacement_target (pi_work ids) s;
          d1 = d\<lparr>runs := runs d @ [replacement_run now (pi_run ids) key r s target],
            sessions := sessions d @ [replacement_session now (pi_run ids) s target prompt worker reason]\<rparr> in
      and_then (insert_session_stages (pi_work ids) stages d1) (\<lambda>d2.
        Inr (if worker = '''' then d2
          else d2\<lparr>executions := executions d2 @
            [new_execution (pi_execution ids) (pi_work ids) worker (ss_required_runtime s) now 0]\<rparr>)))"

definition replace_work_tx ::
  "millis \<Rightarrow> replacement_ids \<Rightarrow> db \<Rightarrow> string \<Rightarrow> ident \<Rightarrow> ((admission_result \<times> ident) \<times> db) result" where
  "replace_work_tx now ids d key w =
     (case find_run_by_key d key of
        Some r \<Rightarrow>
          if run_request_digest r \<noteq> replacement_fingerprint w
          then Inl (conflict ''request_key_conflict'' ''request_key was already used with different replacement inputs'')
          else Inr ((AdmissionReplayed, run_id r), d)
      | None \<Rightarrow>
          (case Option.bind (find_session d w) (\<lambda>s. map_option (Pair s) (find_run d (ss_run_id s))) of
             None \<Rightarrow> Inl err_not_found
           | Some (s, r) \<Rightarrow>
               if \<not> replaceable (ss_state s)
               then Inl (conflict ''replacement_not_terminal'' ''only terminal Work can be replaced'')
               else
                 and_then (validate_work_retry_guards d s) (\<lambda>_.
                 and_then (validate_replacement_eligibility d (run_task_id r) (ss_repository_id s) (ss_repository_identity s)
                   (run_outcome_contract r) (ss_execution s)) (\<lambda>_.
                 let prompt = replacement_prompt (run_task_id r) (pi_work ids) s in
                 and_then (resolve_session_stages (run_task_snapshot r) prompt (pi_run ids)
                   (replacement_target (pi_work ids) s)) (\<lambda>stages.
                 and_then (resume_route d s now) (\<lambda>((worker, reason), d1).
                 and_then (insert_replacement now ids key r s prompt stages worker reason d1) (\<lambda>d2.
                   Inr ((AdmissionAdmitted, pi_run ids), d2))))))))"

definition replace_work ::
  "int \<Rightarrow> replacement_ids \<Rightarrow> db \<Rightarrow> replace_work_request \<Rightarrow> work_replacement result \<times> db" where
  "replace_work now ids d input =
     (let key = trim_space (pq_request_key input); w = trim_space (pq_work_id input) in
      if key = '''' \<or> 200 < length key
      then (Inl (invalid ''invalid_request_key'' ''request_key is required and limited to 200 bytes''), d)
      else if prefix ''schedule:'' key
      then (Inl (invalid ''reserved_request_key'' ''request_key uses a reserved internal prefix''), d)
      else if \<not> valid_uuid w then (Inl (invalid ''invalid_work_id'' ''work_id must be a UUID''), d)
      else committed d (replace_work_tx (unix_milli now) ids d key w) (\<lambda>d' (outcome, i).
        and_then (run_reply now d' i) (\<lambda>v. Inr \<lparr>px_result = outcome, px_request_key = key, px_run = v\<rparr>)))"

subsection \<open>What a replacement adds\<close>

lemma replace_work_tx_Inr:
  assumes "replace_work_tx now ids d key w = Inr ((outcome, i), d')"
  obtains (again) r where "find_run_by_key d key = Some r" "run_request_digest r = replacement_fingerprint w"
      "outcome = AdmissionReplayed" "i = run_id r" "d' = d"
  | (new) s r prompt stages worker reason es ws where "find_run_by_key d key = None" "find_session d w = Some s"
      "find_run d (ss_run_id s) = Some r" "replaceable (ss_state s)" "validate_work_retry_guards d s = Inr ()"
      "outcome = AdmissionAdmitted" "i = pi_run ids"
      "distinct (map sv_position stages)" "prompt = replacement_prompt (run_task_id r) (pi_work ids) s"
      "es = (if worker = '''' then [] else [new_execution (pi_execution ids) (pi_work ids) worker (ss_required_runtime s) now 0])"
      "d' = d\<lparr>worker_repositories := ws,
         runs := runs d @ [replacement_run now (pi_run ids) key r s (replacement_target (pi_work ids) s)],
         sessions := sessions d @ [replacement_session now (pi_run ids) s (replacement_target (pi_work ids) s) prompt worker reason],
         executions := executions d @ es,
         session_stages := session_stages d @ map (session_stage_of (pi_work ids)) stages\<rparr>"
proof (cases "find_run_by_key d key")
  case (Some r)
  with assms show thesis by (intro again) (auto simp: replace_work_tx_def split: if_splits)
next
  case None
  with assms obtain s r stages worker reason d1 where s: "find_session d w = Some s" "find_run d (ss_run_id s) = Some r"
    "replaceable (ss_state s)" "validate_work_retry_guards d s = Inr ()" "outcome = AdmissionAdmitted" "i = pi_run ids"
    and route: "resume_route d s now = Inr ((worker, reason), d1)"
    and rows: "insert_replacement now ids key r s (replacement_prompt (run_task_id r) (pi_work ids) s) stages worker reason d1 = Inr d'"
    by (auto simp: replace_work_tx_def and_then_Inr Let_def bind_eq_Some_conv split: option.splits if_splits prod.splits)
  obtain ws where d1: "d1 = d\<lparr>worker_repositories := ws\<rparr>" using resume_route_tables [OF route] by blast
  show thesis
    by (rule new [where worker = worker and reason = reason and stages = stages and ws = ws, OF None s(1-6) _ refl refl]) (use rows d1 in \<open>auto simp: insert_replacement_def insert_session_stages_def
      and_then_Inr Let_def split: if_splits\<close>)
qed

lemma replacement_session_simps [simp]:
  "ss_id (replacement_session now i s target prompt worker reason) = rg_id target"
  "ss_run_id (replacement_session now i s target prompt worker reason) = i"
  "ss_state (replacement_session now i s target prompt worker reason) = (if worker = '''' then SessionBlocked else SessionQueued)"
  "ss_predecessor_work_id (replacement_session now i s target prompt worker reason) = Some (ss_id s)"
  "ss_repository_id (replacement_session now i s target prompt worker reason) = ss_repository_id s"
  "session_row_ok (replacement_session now i s target prompt worker reason)"
  by (simp_all add: replacement_session_def session_row_ok_def state_predicates)

lemma replacement_run_simps [simp]:
  "run_id (replacement_run now i key r s target) = i" "run_request_key (replacement_run now i key r s target) = key"
  "run_terminal_at (replacement_run now i key r s target) = None"
  "run_request_digest (replacement_run now i key r s target) = replacement_fingerprint (ss_id s)"
  by (simp_all add: replacement_run_def)

lemma rg_id_replacement_target [simp]: "rg_id (replacement_target w s) = w"
  by (simp add: replacement_target_def work_target.defs)

definition fresh_replacement :: "replacement_ids \<Rightarrow> db \<Rightarrow> bool" where
  "fresh_replacement ids d \<longleftrightarrow> pi_run ids \<notin> run_id ` set (runs d) \<and> pi_work ids \<notin> ss_id ` set (sessions d) \<and>
     pi_work ids \<notin> sg_session_id ` set (session_stages d) \<and> pi_execution ids \<notin> ex_id ` set (executions d) \<and> pi_work ids \<noteq> ''''"

lemma replace_work_tx_ok:
  assumes ok: "store_ok d" and fresh: "fresh_replacement ids d"
    and tx: "replace_work_tx now ids d key w = Inr ((outcome, i), d')"
  shows "store_ok d'"
  using tx
proof (cases rule: replace_work_tx_Inr)
  case again
  with ok show ?thesis by simp
next
  case (new s r prompt stages worker reason es ws)
  note ok' = store_okD [OF ok]
  let ?target = "replacement_target (pi_work ids) s"
  let ?r = "replacement_run now (pi_run ids) key r s ?target" and ?s = "replacement_session now (pi_run ids) s ?target prompt worker reason"
  let ?d1 = "d\<lparr>worker_repositories := ws, runs := runs d @ [?r]\<rparr>"
  have f: "pi_run ids \<notin> run_id ` set (runs d)" "pi_work ids \<notin> ss_id ` set (sessions d)"
    "pi_work ids \<notin> sg_session_id ` set (session_stages d)" "pi_execution ids \<notin> ex_id ` set (executions d)"
    using fresh by (simp_all add: fresh_replacement_def)
  have core: "core_ok ?d1"
    by (rule core_ok_runs [OF ok'(6)]) (use ok'(1) f(1) in \<open>auto simp: keys_ok_def\<close>)
  have "core_ok d'"
    by (rule core_ok_new_session [OF core, of ?s, where es = es and gs = "map (session_stage_of (pi_work ids)) stages"])
      (use f new(8,10) in \<open>auto simp: new(11) new_execution_def session_stage_of_def comp_def\<close>)
  moreover have "runs_ok d'"
  proof -
    have "\<not> run_finished d' (pi_run ids)" by (auto simp: run_finished_iff new(11) state_predicates)
    moreover have "run_finished d' j = run_finished d j" if "j \<noteq> pi_run ids" for j
      using that by (auto simp: run_finished_iff new(11))
    moreover have "run_id x \<noteq> pi_run ids" if "x \<in> set (runs d)" for x using f(1) that by (metis imageI)
    ultimately show ?thesis using ok'(5) by (simp add: runs_ok_def new(11) list_all_iff)
  qed
  ultimately show ?thesis by (simp add: store_ok_def)
qed

text \<open>Replaced Work is not replaced again.\<close>

lemma replaced_work_stays:
  assumes "find_session d w = Some s" "find_run d (ss_run_id s) = Some r" "replaceable (ss_state s)"
    and "x \<in> set (sessions d)" "ss_predecessor_work_id x = Some (ss_id s)"
  shows "snd (replace_work now ids d input) = d \<or> trim_space (pq_work_id input) \<noteq> w"
    "trim_space (pq_work_id input) = w \<Longrightarrow> replace_work now ids d input = (Inr v, d') \<Longrightarrow> px_result v = AdmissionReplayed"
proof -
  let ?key = "trim_space (pq_request_key input)"
  have guard: "validate_work_retry_guards d s = Inl (conflict ''work_replaced'' ''replaced Work cannot be retried'')"
    using assms(4,5) by (auto simp: validate_work_retry_guards_def count_where_eq_0)
  have tx: "(\<exists>e. replace_work_tx now' ids d ?key w = Inl e) \<or> (\<exists>i. replace_work_tx now' ids d ?key w = Inr ((AdmissionReplayed, i), d))" for now'
    by (cases "find_run_by_key d ?key") (simp_all add: replace_work_tx_def assms(1-3) guard)
  show "snd (replace_work now ids d input) = d \<or> trim_space (pq_work_id input) \<noteq> w"
    using tx [of "unix_milli now"] by (auto simp: replace_work_def Let_def committed_def)
  show "trim_space (pq_work_id input) = w \<Longrightarrow> replace_work now ids d input = (Inr v, d') \<Longrightarrow> px_result v = AdmissionReplayed"
    using tx [of "unix_milli now"] by (auto simp: replace_work_def Let_def committed_def and_then_Inr split: if_splits sum.splits)
qed

lemma replace_work_Inr:
  assumes "replace_work now ids d input = (Inr v, d')"
  obtains i where "replace_work_tx (unix_milli now) ids d (trim_space (pq_request_key input)) (trim_space (pq_work_id input)) =
      Inr ((px_result v, i), d')" "px_request_key v = trim_space (pq_request_key input)" "run_reply now d' i = Inr (px_run v)"
  using assms by (auto simp: replace_work_def Let_def committed_def and_then_Inr split: if_splits sum.splits)

text \<open>The replacement is the only open Work of its source.\<close>

lemma replacement_open_item:
  assumes "store_ok d" "find_session d w = Some s" "replaceable (ss_state s)" "validate_work_retry_guards d s = Inr ()" "one_open_item d"
    and rows: "sessions d' = sessions d @ [replacement_session now i s (replacement_target v s) prompt worker reason]"
  shows "one_open_item d'"
proof (rule one_open_item_append [OF assms(5) rows])
  let ?new = "replacement_session now i s (replacement_target v s) prompt worker reason"
  have target: "tg_target_kind (ss_target ?new) = tg_target_kind (ss_target s)" "work_source ?new = work_source s"
    by (simp_all add: replacement_session_def replacement_target_def work_source_def work_target.defs)
  fix n t assume n: "n \<in> set [?new]" "open_item n" and t: "t \<in> set (sessions d)" "open_item t"
  have kind: "tg_target_kind (ss_target s) = ''work_item''" using n target(1) by (simp add: open_item_def)
  have "ss_id t \<noteq> ss_id s"
  proof
    assume "ss_id t = ss_id s"
    with session_unique [OF store_okD(1) [OF assms(1)] t(1), of s] find_session_Some [OF assms(2)] have "t = s" by simp
    with t(2) assms(3) show False by (auto simp: open_item_def replaceable_def state_predicates)
  qed
  moreover have "distinct (map ss_id (sessions d))" using store_okD(1) [OF assms(1)] by (simp add: keys_ok_def)
  ultimately show "work_source n \<noteq> work_source t"
    using validate_work_retry_guards_Inr [OF assms(4) _ t(1)] t(2) kind n(1) target(2) by (auto simp: work_source_def open_item_def)
qed simp

end
