(* ===== verification/Fleet_Targets.thy ===== *)
theory Fleet_Targets
  imports Replacement
begin

text \<open>
  What Procedure Runs (procedures.go) and Builds (build.go) share: each goes through its resolved targets in order and adds
  one Work item per target, with its stages and, while the concurrency limit of the Run allows and a Worker qualifies, an
  execution. The interface \<open>work_adder\<close> states what adding one Work item promises; the lemmas about whole Runs are proved
  from it once.
\<close>

subsection \<open>Adding one Work item\<close>

definition max_work_targets :: nat where "max_work_targets = 100"

text \<open>The reason for which the Work of a target waits, or the Worker it is given to; \<open>busy\<close> is said where the limit is reached.\<close>

definition route_target ::
  "admission \<Rightarrow> string \<Rightarrow> task_repository \<Rightarrow> nat \<Rightarrow> db \<Rightarrow> ((string \<times> ident option) \<times> db) result" where
  "route_target am busy r materialized d =
     (if \<not> am_profile_ready am then Inr ((am_profile_reason am, None), d)
      else if materialized < ts_concurrency_limit (am_snapshot am) then
        (case select_session_route d (tr_id r) (tr_remote_identity r) (am_now am) '''' (ts_runtime (am_snapshot am)) of
           Inr (x, d') \<Rightarrow> Inr (('''', Some (rc_worker_id x)), d')
         | Inl err \<Rightarrow>
             if service_error_code err ''no_eligible_worker'' then Inr ((waiting_for_worker, None), d) else Inl err)
      else Inr ((busy, None), d))"

lemma route_target_same: "route_target am busy r m d = Inr ((reason, worker), d') \<Longrightarrow> same_but_reservations d d'"
  by (auto simp: route_target_def split: if_splits sum.splits intro: select_session_route_same)

lemma route_target_limit:
  "route_target am busy r m d = Inr ((reason, worker), d') \<Longrightarrow> worker \<noteq> None \<Longrightarrow> m < ts_concurrency_limit (am_snapshot am)"
  by (auto simp: route_target_def split: if_splits sum.splits)

text \<open>The row of a target whose Work may follow earlier Work. A target that the Run has already violates the unique key.\<close>

definition insert_successor ::
  "admission \<Rightarrow> run_target \<Rightarrow> workflow_snapshot \<Rightarrow> string \<Rightarrow> stage_run list \<Rightarrow> string \<Rightarrow> string \<Rightarrow> ident option \<Rightarrow> db \<Rightarrow>
   ((run_target \<times> bool) \<times> db) result"
where
  "insert_successor am target workflow prompt stages predecessor reason worker d =
     (if list_ex (\<lambda>s. ss_run_id s = ai_run (am_ids am) \<and> tg_target_key (ss_target s) = tg_target_key target) (sessions d)
      then Inl unavailable
      else
        and_then (insert_session_stages (rg_id target) stages
            (d\<lparr>sessions := sessions d @ [(admitted_session am target workflow prompt reason worker)
               \<lparr>ss_predecessor_work_id := null_string predecessor\<rparr>]\<rparr>)) (\<lambda>d1.
          Inr ((target, worker \<noteq> None), queue_admitted am (tg_position target) (rg_id target) worker d1)))"

text \<open>The targets in order; \<open>m\<close> counts the Work that has been queued so far.\<close>

fun admit_each ::
  "(nat \<Rightarrow> 'r \<Rightarrow> nat \<Rightarrow> db \<Rightarrow> ((run_target \<times> bool) \<times> db) result) \<Rightarrow> nat \<Rightarrow> 'r list \<Rightarrow> nat \<Rightarrow> db \<Rightarrow> (run_target list \<times> db) result"
where
  "admit_each add position [] m d = Inr ([], d)"
| "admit_each add position (r # rs) m d =
     and_then (add position r m d) (\<lambda>((target, queued), d1).
     and_then (admit_each add (Suc position) rs (if queued then Suc m else m) d1) (\<lambda>(targets, d2).
       Inr (target # targets, d2)))"

definition fleet_run ::
  "millis \<Rightarrow> ident \<Rightarrow> string \<Rightarrow> digest \<Rightarrow> task_snapshot \<Rightarrow> execution_snapshot \<Rightarrow> run" where
  "fleet_run now i key fingerprint t e =
     \<lparr>run_id = i, run_request_key = key, run_request_digest = fingerprint, run_task_id = ts_id t, run_task_snapshot = t,
      run_source = ''manual'', run_scheduled_at = None, run_requested_profile_id = None, run_execution = e,
      run_targets = [], run_provider_snapshot = None, run_outcome_contract = ts_outcome_contract t,
      run_admitted_at = now, run_updated_at = now, run_terminal_at = None\<rparr>"

definition admit_fleet ::
  "admission \<Rightarrow> (nat \<Rightarrow> 'r \<Rightarrow> nat \<Rightarrow> db \<Rightarrow> ((run_target \<times> bool) \<times> db) result) \<Rightarrow> string \<Rightarrow> digest \<Rightarrow> 'r list \<Rightarrow> db \<Rightarrow> (ident \<times> db) result"
where
  "admit_fleet am add key fingerprint rs d =
     (let i = ai_run (am_ids am); r = fleet_run (am_now am) i key fingerprint (am_snapshot am) (am_execution am) in
      and_then (admit_each add 0 rs 0 (d\<lparr>runs := runs d @ [r]\<rparr>)) (\<lambda>(targets, d1).
        Inr (i, d1\<lparr>runs := update_where (\<lambda>r. run_id r = i) (\<lambda>r. r\<lparr>run_targets := targets\<rparr>) (runs d1)\<rparr>)))"

subsection \<open>What adding one Work item promises\<close>

text \<open>The new row and what else changes: the Work is queued with an execution of its own within the limit, or blocked.\<close>

definition adds_work :: "admission \<Rightarrow> nat \<Rightarrow> nat \<Rightarrow> bool \<Rightarrow> db \<Rightarrow> db \<Rightarrow> session \<Rightarrow> bool" where
  "adds_work am position m queued d d' s \<longleftrightarrow>
     ss_id s = ai_work (am_ids am) position \<and> ss_run_id s = ai_run (am_ids am) \<and> session_row_ok s \<and>
     ss_state s = (if queued then SessionQueued else SessionBlocked) \<and>
     (queued \<longrightarrow> m < ts_concurrency_limit (am_snapshot am)) \<and>
     (\<exists>stages worker ws. distinct (map sv_position stages) \<and> d' = d\<lparr>worker_repositories := ws, sessions := sessions d @ [s],
        executions := executions d @ (if queued then [new_execution (ai_execution (am_ids am) position) (ss_id s) worker
          (ts_runtime (am_snapshot am)) (am_now am) 0] else []),
        session_stages := session_stages d @ map (session_stage_of (ss_id s)) stages\<rparr>)"

lemma insert_successor_adds:
  assumes "insert_successor am target workflow prompt stages predecessor reason worker d1 = Inr ((target', queued), d')"
    and "same_but_reservations d d1" "rg_id target = ai_work (am_ids am) position" "tg_position target = position"
    and "worker \<noteq> None \<Longrightarrow> m < ts_concurrency_limit (am_snapshot am)"
  shows "target' = target \<and> adds_work am position m queued d d'
    ((admitted_session am target workflow prompt reason worker)\<lparr>ss_predecessor_work_id := null_string predecessor\<rparr>)"
proof -
  obtain ws where d1: "d1 = d\<lparr>worker_repositories := ws\<rparr>" using assms(2) by (auto simp: same_but_reservations_def)
  let ?s = "(admitted_session am target workflow prompt reason worker)\<lparr>ss_predecessor_work_id := null_string predecessor\<rparr>"
  from assms(1) have stages: "distinct (map sv_position stages)" and q: "target' = target" "queued = (worker \<noteq> None)"
    and d': "d' = queue_admitted am position (rg_id target) worker
      (d1\<lparr>sessions := sessions d1 @ [?s], session_stages := session_stages d1 @ map (session_stage_of (rg_id target)) stages\<rparr>)"
    by (auto simp: insert_successor_def insert_session_stages_def assms(4) split: if_splits)
  have "session_row_ok ?s" using admitted_session_simps(6) [of am target workflow prompt reason worker] by (simp add: session_row_ok_def)
  moreover have "ss_id ?s = rg_id target" "ss_run_id ?s = ai_run (am_ids am)"
    "ss_state ?s = (if queued then SessionQueued else SessionBlocked)" using q(2) by simp_all
  moreover have "\<exists>wk. d' = d\<lparr>worker_repositories := ws, sessions := sessions d @ [?s],
      executions := executions d @ (if queued then [new_execution (ai_execution (am_ids am) position) (rg_id target) wk
        (ts_runtime (am_snapshot am)) (am_now am) 0] else []),
      session_stages := session_stages d @ map (session_stage_of (rg_id target)) stages\<rparr>"
  proof (cases worker)
    case None
    then show ?thesis by (simp add: d' d1 queue_admitted_def q(2))
  next
    case (Some a)
    then show ?thesis by (intro exI [of _ a]) (simp add: d' d1 queue_admitted_def q(2))
  qed
  ultimately show ?thesis using assms(3,5) q stages unfolding adds_work_def by metis
qed

text \<open>Adding Work keeps the store well formed.\<close>

lemma adds_work_core_ok:
  assumes ok: "core_ok d" "ai_run (am_ids am) \<in> run_id ` set (runs d)" and fresh: "fresh_ids (am_ids am) position n d" "position < n"
    and step: "adds_work am position m queued d d' s"
  shows "core_ok d'" "fresh_ids (am_ids am) (Suc position) n d'"
proof -
  from step obtain stages worker ws where s: "ss_id s = ai_work (am_ids am) position" "ss_run_id s = ai_run (am_ids am)"
      "session_row_ok s" "ss_state s = (if queued then SessionQueued else SessionBlocked)"
    and stages: "distinct (map sv_position stages)"
    and d': "d' = d\<lparr>worker_repositories := ws, sessions := sessions d @ [s],
        executions := executions d @ (if queued then [new_execution (ai_execution (am_ids am) position) (ss_id s) worker
          (ts_runtime (am_snapshot am)) (am_now am) 0] else []),
        session_stages := session_stages d @ map (session_stage_of (ss_id s)) stages\<rparr>"
    by (auto simp: adds_work_def)
  define es where "es = (if queued then [new_execution (ai_execution (am_ids am) position) (ss_id s) worker
      (ts_runtime (am_snapshot am)) (am_now am) 0] else [])"
  have here: "ss_id s \<notin> ss_id ` set (sessions d)" "ss_id s \<notin> sg_session_id ` set (session_stages d)"
      "ai_execution (am_ids am) position \<notin> ex_id ` set (executions d)"
    using fresh s(1) by (auto simp: fresh_ids_def)
  show "core_ok d'"
    by (rule core_ok_new_session [OF ok(1) here(1) _ s(3), where es = es and gs = "map (session_stage_of (ss_id s)) stages"])
      (use ok(2) s here stages in \<open>auto simp: d' es_def new_execution_def session_stage_of_def comp_def\<close>)
  have "ai_work (am_ids am) k \<noteq> ss_id s \<and> ai_execution (am_ids am) k \<noteq> ai_execution (am_ids am) position"
    if "k \<in> {Suc position..<n}" for k
    using fresh that s(1) inj_onD [of "ai_work (am_ids am)" "{position..<n}" k position]
      inj_onD [of "ai_execution (am_ids am)" "{position..<n}" k position]
    unfolding fresh_ids_def by auto
  then show "fresh_ids (am_ids am) (Suc position) n d'"
    using fresh by (auto simp: fresh_ids_def d' new_execution_def session_stage_of_def inj_on_def)
qed

lemma work_of_list_all2:
  assumes "list_all2 P rs ws" "s \<in> set ws"
  obtains r where "r \<in> set rs" "P r s"
  using assms by (metis in_set_conv_nth list_all2_lengthD list_all2_nthD2 nth_mem)

subsection \<open>Whole Runs\<close>

definition fleet_rows :: "admission \<Rightarrow> nat \<Rightarrow> db \<Rightarrow> db \<Rightarrow> session list \<Rightarrow> execution list \<Rightarrow> bool" where
  "fleet_rows am m d d' new es \<longleftrightarrow>
     (\<exists>ws gs. d' = d\<lparr>worker_repositories := ws, sessions := sessions d @ new, executions := executions d @ es,
        session_stages := session_stages d @ gs\<rparr>) \<and>
     (\<forall>s \<in> set new. ss_run_id s = ai_run (am_ids am) \<and> ss_id s \<in> range (ai_work (am_ids am)) \<and>
        (ss_state s = SessionQueued \<or> ss_state s = SessionBlocked)) \<and>
     (queued_work new = 0 \<or> m + queued_work new \<le> ts_concurrency_limit (am_snapshot am)) \<and>
     map ex_session_id es = map ss_id (filter (\<lambda>s. ss_state s = SessionQueued) new)"

lemma fleet_rows_Nil: "fleet_rows am m d d [] []"
  unfolding fleet_rows_def
  by (intro conjI exI [of _ "worker_repositories d"] exI [of _ "[]"]) (simp_all add: queued_work_def)

lemma fleet_rows_Cons:
  assumes "adds_work am position m queued d d1 s" "fleet_rows am (if queued then Suc m else m) d1 d' new es"
  shows "\<exists>es'. fleet_rows am m d d' (s # new) es'"
proof -
  from assms(1) obtain stages worker ws where s: "ss_id s = ai_work (am_ids am) position" "ss_run_id s = ai_run (am_ids am)"
      "ss_state s = (if queued then SessionQueued else SessionBlocked)" "queued \<Longrightarrow> m < ts_concurrency_limit (am_snapshot am)"
    and d1: "d1 = d\<lparr>worker_repositories := ws, sessions := sessions d @ [s],
        executions := executions d @ (if queued then [new_execution (ai_execution (am_ids am) position) (ss_id s) worker
          (ts_runtime (am_snapshot am)) (am_now am) 0] else []),
        session_stages := session_stages d @ map (session_stage_of (ss_id s)) stages\<rparr>"
    by (auto simp: adds_work_def)
  let ?e = "if queued then [new_execution (ai_execution (am_ids am) position) (ss_id s) worker
      (ts_runtime (am_snapshot am)) (am_now am) 0] else []"
  from assms(2) obtain ws' gs where d': "d' = d1\<lparr>worker_repositories := ws', sessions := sessions d1 @ new,
      executions := executions d1 @ es, session_stages := session_stages d1 @ gs\<rparr>"
    by (auto simp: fleet_rows_def)
  have "d' = d\<lparr>worker_repositories := ws', sessions := sessions d @ s # new, executions := executions d @ ?e @ es,
      session_stages := session_stages d @ map (session_stage_of (ss_id s)) stages @ gs\<rparr>"
    by (simp add: d' d1)
  moreover have "map ex_session_id (?e @ es) = map ss_id (filter (\<lambda>s. ss_state s = SessionQueued) (s # new))"
    using assms(2) s(3) by (simp add: fleet_rows_def new_execution_def)
  moreover have "queued_work (s # new) = 0 \<or> m + queued_work (s # new) \<le> ts_concurrency_limit (am_snapshot am)"
    using assms(2) s(3,4) by (auto simp: fleet_rows_def queued_work_def)
  ultimately have "fleet_rows am m d d' (s # new) (?e @ es)"
    using assms(2) s unfolding fleet_rows_def by auto
  then show ?thesis ..
qed

text \<open>
  The promise of whoever adds the Work of one target: the row it adds is described by the target, and nothing of the rest
  of the store changes but reservations.
\<close>

locale work_adder =
  fixes am :: admission
    and add :: "nat \<Rightarrow> 'r \<Rightarrow> nat \<Rightarrow> db \<Rightarrow> ((run_target \<times> bool) \<times> db) result"
    and describes :: "'r \<Rightarrow> session \<Rightarrow> bool"
  assumes adds: "add position r m d = Inr ((target, queued), d') \<Longrightarrow> \<exists>s. adds_work am position m queued d d' s \<and> describes r s"
begin

lemma each_target:
  assumes "admit_each add position rs m d = Inr (targets, d')" "core_ok d" "ai_run (am_ids am) \<in> run_id ` set (runs d)"
    "fresh_ids (am_ids am) position (position + length rs) d"
  shows "core_ok d' \<and> (\<exists>new es. fleet_rows am m d d' new es \<and> list_all2 describes rs new)"
  using assms
proof (induction rs arbitrary: position m d targets)
  case Nil
  then show ?case using fleet_rows_Nil by fastforce
next
  case (Cons r rs)
  from Cons.prems(1) obtain target queued d1 targets' where step: "add position r m d = Inr ((target, queued), d1)"
    and rest: "admit_each add (Suc position) rs (if queued then Suc m else m) d1 = Inr (targets', d')"
    by (auto simp: and_then_Inr)
  from adds [OF step] obtain s where s: "adds_work am position m queued d d1 s" "describes r s" by blast
  note ok1 = adds_work_core_ok [OF Cons.prems(2,3,4) _ s(1)]
  have "ai_run (am_ids am) \<in> run_id ` set (runs d1)" using Cons.prems(3) s(1) by (auto simp: adds_work_def)
  moreover have "fresh_ids (am_ids am) (Suc position) (Suc position + length rs) d1" using ok1(2) by simp
  ultimately obtain new es where ih: "core_ok d'" "fleet_rows am (if queued then Suc m else m) d1 d' new es" "list_all2 describes rs new"
    using Cons.IH [OF rest ok1(1)] by auto
  with fleet_rows_Cons [OF s(1) ih(2)] s(2) show ?case by auto
qed

lemma fleet:
  assumes run: "admit_fleet am add key fingerprint rs d = Inr (i, d')" and ok: "sound d" and fresh: "fresh_admission (am_ids am) d"
    and key: "find_run_by_key d key = None" and some: "rs \<noteq> []"
    and items: "\<And>d1 new es. fleet_rows am 0 d d1 new es \<Longrightarrow> list_all2 describes rs new \<Longrightarrow> one_open_item d \<Longrightarrow> one_open_item d1"
  obtains r d1 new es where "i = ai_run (am_ids am)" "run_id r = i" "run_request_key r = key" "run_request_digest r = fingerprint"
    "run_task_id r = ts_id (am_snapshot am)" "run_task_snapshot r = am_snapshot am" "d' = d1\<lparr>runs := runs d @ [r]\<rparr>"
    "fleet_rows am 0 d d1 new es" "list_all2 describes rs new" "good_step Admits d d'"
proof -
  let ?i = "ai_run (am_ids am)"
  let ?r = "fleet_run (am_now am) ?i key fingerprint (am_snapshot am) (am_execution am)"
  let ?d0 = "d\<lparr>runs := runs d @ [?r]\<rparr>"
  from run obtain targets d2 where each: "admit_each add 0 rs 0 ?d0 = Inr (targets, d2)"
    and i: "i = ?i" and d': "d' = d2\<lparr>runs := update_where (\<lambda>r. run_id r = ?i) (\<lambda>r. r\<lparr>run_targets := targets\<rparr>) (runs d2)\<rparr>"
    by (auto simp: admit_fleet_def Let_def and_then_Inr)
  note ok' = store_okD [OF soundD(1) [OF ok]]
  have f: "?i \<notin> run_id ` set (runs d)" "fresh_ids (am_ids am) 0 (0 + length rs) ?d0" "'''' \<notin> range (ai_work (am_ids am))"
    using fresh by (simp_all add: fresh_admission_def fresh_ids_def)
  have core: "core_ok ?d0"
    by (rule core_ok_runs [OF ok'(6)]) (use ok'(1) f(1) in \<open>auto simp: keys_ok_def fleet_run_def\<close>)
  have in_runs: "?i \<in> run_id ` set (runs ?d0)" by (simp add: fleet_run_def)
  from each_target [OF each core in_runs f(2)] obtain new es where n: "core_ok d2" "fleet_rows am 0 ?d0 d2 new es"
    "list_all2 describes rs new" by blast
  from n(2) obtain ws gs where d2: "d2 = ?d0\<lparr>worker_repositories := ws, sessions := sessions d @ new, executions := executions d @ es,
      session_stages := session_stages d @ gs\<rparr>" by (auto simp: fleet_rows_def)
  let ?d1 = "d\<lparr>worker_repositories := ws, sessions := sessions d @ new, executions := executions d @ es,
      session_stages := session_stages d @ gs\<rparr>"
  have new: "ss_run_id s = ?i \<and> ss_id s \<in> range (ai_work (am_ids am)) \<and> (ss_state s = SessionQueued \<or> ss_state s = SessionBlocked)"
    if "s \<in> set new" for s using n(2) that by (auto simp: fleet_rows_def)
  have rows: "fleet_rows am 0 d ?d1 new es" using n(2) by (auto simp: fleet_rows_def)
  have other: "run_id r \<noteq> ?i" if "r \<in> set (runs d)" for r using f(1) that by (metis imageI)
  let ?q = "?r\<lparr>run_targets := targets\<rparr>"
  have d1: "d' = ?d1\<lparr>runs := runs d @ [?q]\<rparr>"
    using other by (simp add: d' d2 update_where_def map_idI fleet_run_def)
  have "core_ok d'"
    by (rule core_ok_runs [OF n(1)]) (use core_okD(1) [OF n(1)] in \<open>auto simp: d1 d2 keys_ok_def fleet_run_def\<close>)
  moreover have "runs_ok d'"
  proof -
    have "new \<noteq> []" using n(3) some by auto
    then obtain s where "s \<in> set new" by (cases new) auto
    with new have "\<not> run_finished d' ?i" by (auto simp: run_finished_iff d1 state_predicates)
    moreover have "run_finished d' j = run_finished d j" if "j \<noteq> ?i" for j
      using new that by (auto simp: run_finished_iff d1)
    ultimately show ?thesis using ok'(5) other by (simp add: runs_ok_def d1 list_all_iff fleet_run_def)
  qed
  ultimately have "store_ok d'" by (simp add: store_ok_def)
  moreover have "'''' \<notin> ss_id ` set new" using new f(3) by fastforce
  ultimately have "sound d'"
    using soundD [OF ok] history_ok_frame [OF soundD(2) [OF ok], of d'] key
    by (auto simp: sound_def d1 fleet_run_def find_run_by_key_def find_None_set)
  moreover have "board_step Admits (board_of d) (board_of d')" by (rule board_step_new_work) (use new in \<open>auto simp: d1\<close>)
  moreover have "one_open_item d'" if "one_open_item d"
    using items [OF rows n(3) that] one_open_item_same [of d' ?d1] by (simp add: d1)
  ultimately have good: "good_step Admits d d'" by (simp add: good_step_def)
  show thesis
    by (rule that [OF i _ _ _ _ _ d1 rows n(3) good]) (simp_all add: fleet_run_def i)
qed

end

end
