(* ===== verification/Workflow_Catalogs.thy ===== *)
theory Workflow_Catalogs
  imports Fleet_Targets "HOL-Library.AList"
begin

text \<open>
  The workflows that a repository declares (protocol/repository\_workflows.go, repository\_workflows.go): reading of the
  files, the catalog that is built from them, its table, and what operators read of it. The YAML decoder, the listing of
  the files of a repository and the case table of Unicode are arguments. A reply that is read together with an error is
  a pair.
\<close>

subsection \<open>Reading a workflow file\<close>

definition repository_workflow_dir :: string where "repository_workflow_dir = ''.factory/workflows/''"
definition max_repository_workflow_files :: nat where "max_repository_workflow_files = 100"
definition max_repository_workflow_bytes :: nat where "max_repository_workflow_bytes = 49152"
definition max_repository_workflow_catalog :: nat where "max_repository_workflow_catalog = 2097152"
definition max_workflow_title_bytes :: nat where "max_workflow_title_bytes = 200"
definition max_workflow_description_bytes :: nat where "max_workflow_description_bytes = 500"
definition max_workflow_label_bytes :: nat where "max_workflow_label_bytes = 100"
definition max_workflow_labels :: nat where "max_workflow_labels = 10"

record workflow_frontmatter =
  fm_id :: string
  fm_title :: string
  fm_description :: string
  fm_labels_all :: "string list option"

record repository_workflow =
  rf_id :: string
  rf_title :: string
  rf_description :: string
  rf_path :: string
  rf_commit_sha :: string
  rf_digest :: string
  rf_labels_all :: "string list"
  rf_instructions :: string

text \<open>\<^verbatim>\<open>strings.ToLower\<close>.\<close>

definition to_lower :: "(string \<Rightarrow> string) \<Rightarrow> string \<Rightarrow> string" where
  "to_lower lower s = concat (map (lower_title_chunk lower) (utf8_chunks s))"

text \<open>\<^verbatim>\<open>path.Clean\<close>: the elements that are kept, last first.\<close>

fun clean_elements :: "bool \<Rightarrow> string list \<Rightarrow> string list \<Rightarrow> string list" where
  "clean_elements rooted kept [] = kept"
| "clean_elements rooted kept (e # es) =
     (if e = '''' \<or> e = ''.'' then clean_elements rooted kept es
      else if e = ''..'' then
        (case kept of
           [] \<Rightarrow> clean_elements rooted (if rooted then [] else [e]) es
         | k # ks \<Rightarrow> clean_elements rooted (if k = ''..'' then e # kept else ks) es)
      else clean_elements rooted (e # kept) es)"

definition path_clean :: "string \<Rightarrow> string" where
  "path_clean p =
     (let rooted = prefix ''/'' p; es = rev (clean_elements rooted [] (split_on (CHR ''/'') p)) in
      if rooted then CHR ''/'' # join_with (CHR ''/'') es
      else if es = [] then ''.'' else join_with (CHR ''/'') es)"

definition validate_workflow_path :: "(string \<Rightarrow> bool) \<Rightarrow> string \<Rightarrow> string + unit" where
  "validate_workflow_path printable p =
     (if \<not> prefix repository_workflow_dir p \<or> \<not> suffix ''.md'' p \<or> path_clean p \<noteq> p
      then Inl (''workflow path '' @ go_quote printable p @ '' is invalid'')
      else Inr ())"

definition frontmatter_rule :: "string \<Rightarrow> bool" where
  "frontmatter_rule line \<longleftrightarrow> trim_suffix line [CHR 13] = ''---''"

definition split_workflow_frontmatter :: "string \<Rightarrow> string + (string option \<times> string)" where
  "split_workflow_frontmatter content =
     (let ls = split_on (CHR 10) content in
      if \<not> frontmatter_rule (hd ls) then Inr (None, content)
      else (case dropWhile (\<lambda>l. \<not> frontmatter_rule l) (tl ls) of
              [] \<Rightarrow> Inl ''frontmatter closing delimiter is missing''
            | _ # rest \<Rightarrow> Inr (Some (join_with (CHR 10) (takeWhile (\<lambda>l. \<not> frontmatter_rule l) (tl ls))), join_with (CHR 10) rest)))"

fun normalize_labels_from :: "(string \<Rightarrow> bool) \<Rightarrow> (string \<Rightarrow> string) \<Rightarrow> string list \<Rightarrow> string list \<Rightarrow> string + string list" where
  "normalize_labels_from printable lower seen [] = Inr []"
| "normalize_labels_from printable lower seen (l # ls) =
     (let l = to_lower lower (trim_space l) in
      if l = '''' \<or> max_workflow_label_bytes < length l then Inl ''workflow labels are required and limited to 100 bytes''
      else if l \<in> set seen then Inl (''workflow label '' @ go_quote printable l @ '' is duplicated'')
      else (case normalize_labels_from printable lower (l # seen) ls of Inl e \<Rightarrow> Inl e | Inr ls \<Rightarrow> Inr (l # ls)))"

definition normalize_workflow_labels :: "(string \<Rightarrow> bool) \<Rightarrow> (string \<Rightarrow> string) \<Rightarrow> string list \<Rightarrow> string + string list" where
  "normalize_workflow_labels printable lower labels =
     (if max_workflow_labels < length labels then Inl ''workflow may declare at most 10 labels''
      else normalize_labels_from printable lower [] labels)"

definition workflow_labels :: "(string \<Rightarrow> bool) \<Rightarrow> (string \<Rightarrow> string) \<Rightarrow> string list option \<Rightarrow> string + string list" where
  "workflow_labels printable lower labels =
     (case labels of
        None \<Rightarrow> Inr []
      | Some ls \<Rightarrow>
          if ls = [] then Inl ''github_issue.labels_all must contain at least one label''
          else normalize_workflow_labels printable lower ls)"

definition digest_bytes :: "string \<Rightarrow> string" where
  "digest_bytes content = hex_encode (sum256 content)"

text \<open>The workflow whose metadata has been decoded; \<open>w\<close> has the path, the commit and the digest.\<close>

definition described_workflow ::
  "(string \<Rightarrow> bool) \<Rightarrow> (string \<Rightarrow> string) \<Rightarrow> workflow_frontmatter \<Rightarrow> string \<Rightarrow> repository_workflow \<Rightarrow> string + repository_workflow" where
  "described_workflow printable lower m instructions w =
     (if trim_space (fm_id m) = '''' then Inl ''workflow id is required''
      else (case normalize_workflow_id printable (fm_id m) of
          Inl _ \<Rightarrow> Inl (''workflow id '' @ go_quote printable (fm_id m) @ '' is invalid'')
        | Inr i \<Rightarrow>
            let title = trim_space (fm_title m); description = trim_space (fm_description m); body = trim_space instructions in
            if title = '''' \<or> max_workflow_title_bytes < length title
            then Inl ''workflow title is required and limited to 200 bytes''
            else if max_workflow_description_bytes < length description
            then Inl ''workflow description is limited to 500 bytes''
            else (case workflow_labels printable lower (fm_labels_all m) of
                Inl e \<Rightarrow> Inl e
              | Inr labels \<Rightarrow>
                  if body = '''' then Inl ''workflow instructions are empty''
                  else Inr (w\<lparr>rf_id := i, rf_title := title, rf_description := description, rf_labels_all := labels,
                    rf_instructions := body\<rparr>))))"

definition read_workflow ::
  "(string \<Rightarrow> string + workflow_frontmatter) \<Rightarrow> (string \<Rightarrow> bool) \<Rightarrow> (string \<Rightarrow> string) \<Rightarrow> string \<Rightarrow> string \<Rightarrow>
   repository_workflow \<Rightarrow> string + repository_workflow" where
  "read_workflow yaml printable lower p content w =
     (case split_workflow_frontmatter content of
        Inl e \<Rightarrow> Inl (''workflow '' @ go_quote printable p @ '': '' @ e)
      | Inr (None, instructions) \<Rightarrow>
          if p \<noteq> workflow_fallback_path then Inl ''workflow requires YAML frontmatter''
          else if trim_space content = '''' then Inl ''workflow instructions are empty''
          else Inr (w\<lparr>rf_id := workflow_fallback, rf_title := ''Implementation'', rf_instructions := trim_space content\<rparr>)
      | Inr (Some frontmatter, instructions) \<Rightarrow>
          (case yaml frontmatter of
             Inl e \<Rightarrow> Inl (''invalid YAML frontmatter: '' @ e)
           | Inr m \<Rightarrow> described_workflow printable lower m instructions w))"

definition parse_repository_workflow ::
  "(string \<Rightarrow> string + workflow_frontmatter) \<Rightarrow> (string \<Rightarrow> bool) \<Rightarrow> (string \<Rightarrow> string) \<Rightarrow> string \<Rightarrow> string \<Rightarrow> string \<Rightarrow>
   string + repository_workflow" where
  "parse_repository_workflow yaml printable lower p commit_sha content =
     (case validate_workflow_path printable p of
        Inl e \<Rightarrow> Inl e
      | Inr _ \<Rightarrow>
          if max_repository_workflow_bytes < length content
          then Inl (''workflow '' @ go_quote printable p @ '' exceeds 49152 bytes'')
          else read_workflow yaml printable lower p content
            \<lparr>rf_id = '''', rf_title = '''', rf_description = '''', rf_path = p, rf_commit_sha = trim_space commit_sha,
             rf_digest = digest_bytes content, rf_labels_all = [], rf_instructions = ''''\<rparr>)"

subsection \<open>The catalog of a repository\<close>

record workflow_diagnostic =
  dg_issue_number :: int
  dg_issue_url :: string
  dg_code :: string
  dg_message :: string
  dg_workflow_ids :: "string list"
  dg_updated_at :: int

record workflow_catalog =
  ca_repository_id :: ident
  ca_repository_identity :: string
  ca_commit_sha :: string
  ca_status :: string
  ca_error :: string
  ca_synced_at :: "int option"
  ca_workflows :: "repository_workflow list"
  ca_diagnostics :: "workflow_diagnostic list"

definition fallback_workflow :: "string \<Rightarrow> repository_workflow" where
  "fallback_workflow commit_sha =
     \<lparr>rf_id = workflow_fallback, rf_title = ''Implementation'', rf_description = '''', rf_path = workflow_fallback_path,
      rf_commit_sha = commit_sha, rf_digest = digest_bytes standard_build_prompt, rf_labels_all = [],
      rf_instructions = standard_build_prompt\<rparr>"

text \<open>The files in the order of their paths: the workflows read so far, and the error that ended the loop.\<close>

fun read_workflows ::
  "(string \<Rightarrow> string + workflow_frontmatter) \<Rightarrow> (string \<Rightarrow> bool) \<Rightarrow> (string \<Rightarrow> string) \<Rightarrow> string \<Rightarrow> nat \<Rightarrow>
   repository_workflow list \<Rightarrow> (string \<times> string) list \<Rightarrow> repository_workflow list \<times> string option" where
  "read_workflows yaml printable lower commit_sha bytes ws [] = (ws, None)"
| "read_workflows yaml printable lower commit_sha bytes ws ((p, content) # files) =
     (if max_repository_workflow_catalog < bytes + length content
      then (ws, Some ''workflow catalog exceeds 2097152 bytes'')
      else (case parse_repository_workflow yaml printable lower p commit_sha content of
          Inl e \<Rightarrow> (ws, Some e)
        | Inr w \<Rightarrow>
            (case find (\<lambda>x. rf_id x = rf_id w) ws of
               Some x \<Rightarrow> (ws, Some (''workflow id '' @ go_quote printable (rf_id w) @ '' is duplicated by '' @
                 go_quote printable (rf_path x) @ '' and '' @ go_quote printable p))
             | None \<Rightarrow> read_workflows yaml printable lower commit_sha (bytes + length content) (ws @ [w]) files)))"

definition workflow_files :: "(string \<times> string) list \<Rightarrow> (string \<times> string) list" where
  "workflow_files files =
     sort_key fst (filter (\<lambda>(p, _). suffix ''.md'' p \<and> prefix repository_workflow_dir p) files)"

definition healthy_catalog :: "ident \<Rightarrow> string \<Rightarrow> string \<Rightarrow> repository_workflow list \<Rightarrow> workflow_catalog" where
  "healthy_catalog i identity commit_sha ws =
     \<lparr>ca_repository_id = i, ca_repository_identity = identity, ca_commit_sha = trim_space commit_sha, ca_status = ''healthy'',
      ca_error = '''', ca_synced_at = None, ca_workflows = ws, ca_diagnostics = []\<rparr>"

definition build_repository_workflow_catalog ::
  "(string \<Rightarrow> string + workflow_frontmatter) \<Rightarrow> (string \<Rightarrow> bool) \<Rightarrow> (string \<Rightarrow> string) \<Rightarrow> ident \<Rightarrow> string \<Rightarrow> string \<Rightarrow>
   (string \<times> string) list \<Rightarrow> workflow_catalog \<times> string option" where
  "build_repository_workflow_catalog yaml printable lower i identity commit_sha files =
     (let paths = workflow_files files in
      if max_repository_workflow_files < length paths
      then (healthy_catalog i identity commit_sha [], Some ''workflow catalog exceeds 100 files'')
      else (case read_workflows yaml printable lower commit_sha 0 [] paths of
          (ws, Some e) \<Rightarrow> (healthy_catalog i identity commit_sha ws, Some e)
        | (ws, None) \<Rightarrow> (healthy_catalog i identity commit_sha
            (if list_ex (\<lambda>w. rf_id w = workflow_fallback) ws then ws
             else ws @ [fallback_workflow (trim_space commit_sha)]), None)))"

subsection \<open>Routing of issues\<close>

datatype match_failure = AmbiguousWorkflows "string list" | NoImplementationWorkflow

fun match_failure_text :: "match_failure \<Rightarrow> string" where
  "match_failure_text (AmbiguousWorkflows ids) =
     ''multiple workflows match issue labels: '' @ concat (map (\<lambda>(k, i). (if k = 0 then '''' else '', '') @ i) (enumerate 0 ids))"
| "match_failure_text NoImplementationWorkflow = ''implementation workflow is unavailable''"

definition labels_match :: "(string \<Rightarrow> string) \<Rightarrow> string list \<Rightarrow> repository_workflow \<Rightarrow> bool" where
  "labels_match lower labels w \<longleftrightarrow> rf_labels_all w \<noteq> [] \<and> rf_id w \<noteq> workflow_fallback \<and>
     list_all (\<lambda>l. to_lower lower l \<in> set (map (\<lambda>l. to_lower lower (trim_space l)) labels)) (rf_labels_all w)"

definition match_issue_labels ::
  "(string \<Rightarrow> string) \<Rightarrow> repository_workflow list \<Rightarrow> string list \<Rightarrow> match_failure + repository_workflow" where
  "match_issue_labels lower ws labels =
     (case filter (labels_match lower labels) ws of
        [w] \<Rightarrow> Inr w
      | [] \<Rightarrow>
          (case find (\<lambda>w. rf_id w = workflow_fallback) ws of
             Some w \<Rightarrow> Inr w
           | None \<Rightarrow> Inl NoImplementationWorkflow)
      | matches \<Rightarrow> Inl (AmbiguousWorkflows (map rf_id matches)))"

definition workflow_snapshot_view :: "repository_workflow \<Rightarrow> workflow_snapshot" where
  "workflow_snapshot_view w =
     no_workflow\<lparr>wf_id := rf_id w, wf_title := rf_title w, wf_description := rf_description w, wf_path := rf_path w,
       wf_commit_sha := rf_commit_sha w, wf_digest := rf_digest w, wf_instructions := rf_instructions w\<rparr>"

subsection \<open>The stored catalog\<close>

text \<open>An error that is no \<^verbatim>\<open>ServiceError\<close>.\<close>

definition plain_error :: "string \<Rightarrow> service_error" where
  "plain_error message = \<lparr>se_code = '''', se_message = message, se_status = 0\<rparr>"

definition workflow_catalog_bytes :: "repository_workflow list \<Rightarrow> nat" where
  "workflow_catalog_bytes ws = sum_list (map (length \<circ> rf_instructions) ws)"

text \<open>The unique keys of the entries are the workflow id and the path within a repository.\<close>

definition save_workflow_catalog_tx :: "int \<Rightarrow> workflow_catalog \<Rightarrow> db \<Rightarrow> db result" where
  "save_workflow_catalog_tx now c d =
     (let i = ca_repository_id c;
          row = \<lparr>wc_repository_id = i, wc_commit_sha = ca_commit_sha c, wc_status = ca_status c, wc_error = ca_error c,
            wc_synced_at = unix_milli (coalesce (ca_synced_at c) now), wc_total_bytes = workflow_catalog_bytes (ca_workflows c)\<rparr>;
          d1 = d\<lparr>workflow_catalogs :=
              (if list_ex (\<lambda>x. wc_repository_id x = i) (workflow_catalogs d)
               then update_where (\<lambda>x. wc_repository_id x = i) (\<lambda>_. row) (workflow_catalogs d)
               else workflow_catalogs d @ [row]),
            workflow_entries := filter (\<lambda>e. we_repository_id e \<noteq> i) (workflow_entries d)\<rparr> in
      if ca_status c \<noteq> ''healthy'' then Inr d1
      else if \<not> distinct (map rf_id (ca_workflows c)) \<or> \<not> distinct (map rf_path (ca_workflows c)) then Inl unavailable
      else Inr (d1\<lparr>workflow_entries := workflow_entries d1 @ map (\<lambda>w.
        \<lparr>we_repository_id = i, we_workflow = workflow_snapshot_view w, we_labels = rf_labels_all w\<rparr>) (ca_workflows c)\<rparr>))"

definition save_workflow_catalog :: "int \<Rightarrow> workflow_catalog \<Rightarrow> service_error option \<Rightarrow> db \<Rightarrow> service_error option \<times> db" where
  "save_workflow_catalog now c sync_error d =
     (case save_workflow_catalog_tx now c d of Inl e \<Rightarrow> (Some e, d) | Inr d' \<Rightarrow> (sync_error, d'))"

record workflow_runtime =
  wt_yaml :: "string \<Rightarrow> string + workflow_frontmatter"
  wt_printable :: "string \<Rightarrow> bool"
  wt_lower :: "string \<Rightarrow> string"

text \<open>The files of a repository at the head of its default branch, where the source of issues has workflows.\<close>

type_synonym workflow_source = "string \<Rightarrow> string + (string \<times> (string \<times> string) list)"

definition no_catalog :: workflow_catalog where
  "no_catalog = \<lparr>ca_repository_id = '''', ca_repository_identity = '''', ca_commit_sha = '''', ca_status = '''', ca_error = '''',
     ca_synced_at = None, ca_workflows = [], ca_diagnostics = []\<rparr>"

definition built_catalog ::
  "workflow_runtime \<Rightarrow> int \<Rightarrow> ident \<Rightarrow> string \<Rightarrow> string \<Rightarrow> (string \<times> string) list \<Rightarrow> workflow_catalog \<times> string option" where
  "built_catalog rt now i identity commit_sha files =
     (case build_repository_workflow_catalog (wt_yaml rt) (wt_printable rt) (wt_lower rt) i identity commit_sha files of
        (c, None) \<Rightarrow> (c\<lparr>ca_synced_at := Some now\<rparr>, None)
      | (c, Some e) \<Rightarrow> (c\<lparr>ca_synced_at := Some now, ca_status := ''invalid'', ca_error := e\<rparr>, Some e))"

definition saved :: "int \<Rightarrow> db \<Rightarrow> workflow_catalog \<times> string option \<Rightarrow> (workflow_catalog \<times> service_error option) \<times> db" where
  "saved now d built =
     (case built of (c, e) \<Rightarrow> case save_workflow_catalog now c (map_option plain_error e) d of (err, d') \<Rightarrow> ((c, err), d'))"

definition refresh_repository_workflow_catalog ::
  "workflow_runtime \<Rightarrow> workflow_source option \<Rightarrow> int \<Rightarrow> db \<Rightarrow> ident \<Rightarrow> (workflow_catalog \<times> service_error option) \<times> db" where
  "refresh_repository_workflow_catalog rt source now d i =
     (case find_repository d i of
        None \<Rightarrow> ((no_catalog, Some err_not_found), d)
      | Some r \<Rightarrow>
          if \<not> rp_centrally_managed r then saved now d (built_catalog rt now i '''' '''' [])
          else if \<not> rp_enabled r
          then ((no_catalog, Some (conflict ''repository_not_managed'' ''repository is not an enabled managed repository'')), d)
          else (case source of
              None \<Rightarrow> saved now d
                (build_repository_workflow_catalog (wt_yaml rt) (wt_printable rt) (wt_lower rt) i (rp_remote_identity r) '''' [])
            | Some list_files \<Rightarrow>
                (case list_files (rp_remote_identity r) of
                   Inl e \<Rightarrow> saved now d
                     ((healthy_catalog i (rp_remote_identity r) '''' [])\<lparr>ca_status := ''unavailable'', ca_error := e,
                       ca_synced_at := Some now\<rparr>, Some e)
                 | Inr (commit_sha, files) \<Rightarrow> saved now d (built_catalog rt now i (rp_remote_identity r) commit_sha files))))"

text \<open>The stored catalog, without the instructions; the first read of a repository makes it.\<close>

definition stored_workflows :: "db \<Rightarrow> ident \<Rightarrow> repository_workflow list" where
  "stored_workflows d i =
     map (\<lambda>e. let w = we_workflow e in
         \<lparr>rf_id = wf_id w, rf_title = wf_title w, rf_description = wf_description w, rf_path = wf_path w,
          rf_commit_sha = wf_commit_sha w, rf_digest = wf_digest w, rf_labels_all = we_labels e, rf_instructions = ''''\<rparr>)
       (sort_key (\<lambda>e. (wf_path (we_workflow e), wf_id (we_workflow e))) (filter (\<lambda>e. we_repository_id e = i) (workflow_entries d)))"

definition stored_diagnostics :: "db \<Rightarrow> ident \<Rightarrow> workflow_diagnostic list" where
  "stored_diagnostics d i =
     map (\<lambda>x. \<lparr>dg_issue_number = wd_issue_number x, dg_issue_url = wd_issue_url x, dg_code = wd_code x, dg_message = wd_message x,
          dg_workflow_ids = wd_workflow_ids x, dg_updated_at = from_millis (wd_updated_at x)\<rparr>)
       (sort_key wd_issue_number (filter (\<lambda>x. wd_repository_id x = i) (workflow_diagnostics d)))"

definition read_workflow_catalog ::
  "workflow_runtime \<Rightarrow> workflow_source option \<Rightarrow> int \<Rightarrow> db \<Rightarrow> ident \<Rightarrow> (workflow_catalog \<times> service_error option) \<times> db" where
  "read_workflow_catalog rt source now d i =
     (case find (\<lambda>c. wc_repository_id c = i) (workflow_catalogs d) of
        None \<Rightarrow> refresh_repository_workflow_catalog rt source now d i
      | Some c \<Rightarrow>
          let stored = \<lparr>ca_repository_id = i, ca_repository_identity = '''', ca_commit_sha = wc_commit_sha c, ca_status = wc_status c,
            ca_error = wc_error c, ca_synced_at = Some (from_millis (wc_synced_at c)), ca_workflows = [], ca_diagnostics = []\<rparr> in
          (case find_repository d i of
             None \<Rightarrow> ((stored, Some unavailable), d)
           | Some r \<Rightarrow> ((stored\<lparr>ca_repository_identity := rp_remote_identity r, ca_workflows := stored_workflows d i,
               ca_diagnostics := stored_diagnostics d i\<rparr>, None), d)))"

subsection \<open>The workflows that selected repositories share\<close>

record workflow_option =
  wfo_id :: string
  wfo_title :: string
  wfo_description :: string
  wfo_repository_count :: nat

type_synonym option_counts = "(string \<times> workflow_option) list"

definition first_option :: "repository_workflow \<Rightarrow> workflow_option" where
  "first_option w = \<lparr>wfo_id = rf_id w, wfo_title = rf_title w, wfo_description = rf_description w, wfo_repository_count = 1\<rparr>"

definition count_first :: "repository_workflow list \<Rightarrow> option_counts" where
  "count_first ws = fold (\<lambda>w counts. AList.update (rf_id w) (first_option w) counts) ws []"

definition count_one :: "repository_workflow \<Rightarrow> string list \<times> option_counts \<Rightarrow> string list \<times> option_counts" where
  "count_one w = (\<lambda>(seen, counts).
     case map_of counts (rf_id w) of
       None \<Rightarrow> (seen, counts)
     | Some x \<Rightarrow> (rf_id w # seen, AList.update (rf_id w) (x\<lparr>wfo_repository_count := wfo_repository_count x + 1\<rparr>) counts))"

definition count_next :: "nat \<Rightarrow> repository_workflow list \<Rightarrow> option_counts \<Rightarrow> option_counts" where
  "count_next index ws counts =
     (case fold count_one ws ([], counts) of
        (seen, counts) \<Rightarrow> filter (\<lambda>(i, x). wfo_repository_count x = index + 1 \<and> i \<in> set seen) counts)"

fun collect_options ::
  "workflow_runtime \<Rightarrow> workflow_source option \<Rightarrow> int \<Rightarrow> nat \<Rightarrow> ident list \<Rightarrow> option_counts \<Rightarrow> db \<Rightarrow> option_counts result \<times> db" where
  "collect_options rt source now index [] counts d = (Inr counts, d)"
| "collect_options rt source now index (i # ids) counts d =
     (case read_workflow_catalog rt source now d i of
        ((c, Some e), d1) \<Rightarrow> (Inl e, d1)
      | ((c, None), d1) \<Rightarrow>
          if ca_status c \<noteq> ''healthy''
          then (Inl (conflict ''workflow_catalog_unavailable'' ''every selected repository must have a healthy workflow catalog''), d1)
          else collect_options rt source now (index + 1) ids
            (if index = 0 then count_first (ca_workflows c) else count_next index (ca_workflows c) counts) d1)"

definition workflow_options ::
  "workflow_runtime \<Rightarrow> workflow_source option \<Rightarrow> int \<Rightarrow> db \<Rightarrow> ident list \<Rightarrow> workflow_option list result \<times> db" where
  "workflow_options rt source now d ids =
     (if ids = [] then (Inr [], d)
      else if max_task_repositories < length ids
      then (Inl (invalid ''too_many_task_repositories'' ''a Task is limited to 100 repositories''), d)
      else if \<not> distinct ids then (Inl (invalid ''duplicate_task_repository'' ''each repository may be selected once''), d)
      else (case collect_options rt source now 0 ids [] d of
          (Inl e, d') \<Rightarrow> (Inl e, d')
        | (Inr counts, d') \<Rightarrow> (Inr (sort_key wfo_id (map snd counts)), d')))"

subsection \<open>What a catalog holds\<close>

lemma split_on_nonempty [simp]: "split_on c s \<noteq> []"
  by (induction s) (auto split: list.splits)

lemma normalize_labels_from_Inr:
  "normalize_labels_from printable lower seen ls = Inr rs \<Longrightarrow>
   distinct rs \<and> set rs \<inter> set seen = {} \<and> (\<forall>l \<in> set rs. l \<noteq> '''' \<and> length l \<le> max_workflow_label_bytes) \<and> length rs = length ls"
proof (induction ls arbitrary: seen rs)
  case (Cons l ls)
  let ?l = "to_lower lower (trim_space l)"
  from Cons.prems obtain rs' where l: "?l \<noteq> ''''" "length ?l \<le> max_workflow_label_bytes" "?l \<notin> set seen"
    and rest: "normalize_labels_from printable lower (?l # seen) ls = Inr rs'" and rs: "rs = ?l # rs'"
    by (auto simp: Let_def not_less split: if_splits sum.splits)
  from Cons.IH [OF rest] l rs show ?case by auto
qed simp

definition workflow_ok :: "repository_workflow \<Rightarrow> bool" where
  "workflow_ok w \<longleftrightarrow> rf_id w \<noteq> '''' \<and> length (rf_id w) \<le> 100 \<and> list_all workflow_segment (split_on (CHR ''/'') (rf_id w)) \<and>
     rf_title w \<noteq> '''' \<and> length (rf_title w) \<le> max_workflow_title_bytes \<and>
     length (rf_description w) \<le> max_workflow_description_bytes \<and>
     rf_instructions w \<noteq> '''' \<and> length (rf_labels_all w) \<le> max_workflow_labels \<and> distinct (rf_labels_all w) \<and>
     (\<forall>l \<in> set (rf_labels_all w). l \<noteq> '''' \<and> length l \<le> max_workflow_label_bytes) \<and>
     prefix repository_workflow_dir (rf_path w) \<and> suffix ''.md'' (rf_path w)"

lemma workflow_fallback_ok:
  "list_all workflow_segment (split_on (CHR ''/'') workflow_fallback)" "length workflow_fallback \<le> 100" "workflow_fallback \<noteq> ''''"
  "prefix repository_workflow_dir workflow_fallback_path" "suffix ''.md'' workflow_fallback_path"
  unfolding workflow_fallback_def workflow_fallback_path_def repository_workflow_dir_def by code_simp+

lemma described_workflow_ok:
  assumes "described_workflow printable lower m instructions w = Inr w'" "prefix repository_workflow_dir (rf_path w)" "suffix ''.md'' (rf_path w)"
  shows "workflow_ok w' \<and> rf_path w' = rf_path w"
proof -
  from assms(1) obtain i labels where i: "normalize_workflow_id printable (fm_id m) = Inr i"
    and labels: "workflow_labels printable lower (fm_labels_all m) = Inr labels"
    and w': "w' = w\<lparr>rf_id := i, rf_title := trim_space (fm_title m), rf_description := trim_space (fm_description m),
        rf_labels_all := labels, rf_instructions := trim_space instructions\<rparr>"
      "trim_space (fm_title m) \<noteq> ''''" "length (trim_space (fm_title m)) \<le> max_workflow_title_bytes"
      "length (trim_space (fm_description m)) \<le> max_workflow_description_bytes" "trim_space instructions \<noteq> ''''"
    by (auto simp: described_workflow_def Let_def not_less split: if_splits sum.splits)
  have "i \<noteq> ''''" "length i \<le> 100" "list_all workflow_segment (split_on (CHR ''/'') i)"
    using i by (auto simp: normalize_workflow_id_def Let_def workflow_segment_def split: if_splits)
  moreover have "length labels \<le> max_workflow_labels \<and> distinct labels \<and> (\<forall>l \<in> set labels. l \<noteq> '''' \<and> length l \<le> max_workflow_label_bytes)"
    using labels by (auto simp: workflow_labels_def normalize_workflow_labels_def not_less split: option.splits if_splits
        dest: normalize_labels_from_Inr)
  ultimately show ?thesis using w' assms(2,3) by (simp add: workflow_ok_def)
qed

lemma parse_repository_workflow_ok:
  assumes "parse_repository_workflow yaml printable lower p commit_sha content = Inr w"
  shows "workflow_ok w \<and> rf_path w = p"
proof -
  have p: "prefix repository_workflow_dir p" "suffix ''.md'' p"
    using assms by (auto simp: parse_repository_workflow_def validate_workflow_path_def split: if_splits sum.splits)
  let ?w = "\<lparr>rf_id = '''', rf_title = '''', rf_description = '''', rf_path = p, rf_commit_sha = trim_space commit_sha,
      rf_digest = digest_bytes content, rf_labels_all = [], rf_instructions = ''''\<rparr>"
  have "read_workflow yaml printable lower p content ?w = Inr w"
    using assms by (auto simp: parse_repository_workflow_def split: if_splits sum.splits)
  then consider "w = ?w\<lparr>rf_id := workflow_fallback, rf_title := ''Implementation'', rf_instructions := trim_space content\<rparr>"
      "trim_space content \<noteq> ''''"
    | m instructions where "described_workflow printable lower m instructions ?w = Inr w"
    by (auto simp: read_workflow_def split: sum.splits option.splits if_splits)
  then show ?thesis
  proof cases
    case 1
    then show ?thesis
      using p workflow_fallback_ok by (simp add: workflow_ok_def max_workflow_title_bytes_def max_workflow_description_bytes_def max_workflow_labels_def)
  next
    case (2 m instructions)
    then show ?thesis using described_workflow_ok [of printable lower m instructions ?w w] p by simp
  qed
qed

lemma read_workflows_Inr:
  "read_workflows yaml printable lower commit_sha bytes ws files = (ws', None) \<Longrightarrow> distinct (map rf_id ws) \<Longrightarrow>
   \<exists>new. ws' = ws @ new \<and> map rf_path new = map fst files \<and> distinct (map rf_id ws') \<and> (\<forall>w \<in> set new. workflow_ok w) \<and>
     bytes + (\<Sum>f\<leftarrow>files. length (snd f)) \<le> max bytes max_repository_workflow_catalog"
proof (induction files arbitrary: bytes ws)
  case (Cons f files)
  obtain p content where f: "f = (p, content)" by (cases f)
  from Cons.prems(1) obtain w where size: "bytes + length content \<le> max_repository_workflow_catalog"
    and w: "parse_repository_workflow yaml printable lower p commit_sha content = Inr w"
    and fresh: "find (\<lambda>x. rf_id x = rf_id w) ws = None"
    and rest: "read_workflows yaml printable lower commit_sha (bytes + length content) (ws @ [w]) files = (ws', None)"
    by (auto simp: f split: if_splits sum.splits option.splits)
  have "distinct (map rf_id (ws @ [w]))" using Cons.prems(2) fresh by (auto simp: find_None_iff)
  from Cons.IH [OF rest this] obtain new where new: "ws' = ws @ w # new" "map rf_path new = map fst files" "distinct (map rf_id ws')"
    "\<forall>w \<in> set new. workflow_ok w"
    "bytes + length content + (\<Sum>f\<leftarrow>files. length (snd f)) \<le> max (bytes + length content) max_repository_workflow_catalog"
    by auto
  then show ?case using parse_repository_workflow_ok [OF w] size by (intro exI [of _ "w # new"]) (simp add: f max_def split: if_splits)
qed simp

subsection \<open>The tables that a refresh writes\<close>

definition catalog_tables_only :: "db \<Rightarrow> db \<Rightarrow> bool" where
  "catalog_tables_only d d' \<longleftrightarrow> d' = d\<lparr>workflow_catalogs := workflow_catalogs d', workflow_entries := workflow_entries d'\<rparr>"

lemma catalog_tables_only_refl [simp]: "catalog_tables_only d d" by (simp add: catalog_tables_only_def)

lemma catalog_tables_only_trans:
  assumes "catalog_tables_only d e" "catalog_tables_only e f"
  shows "catalog_tables_only d f"
proof -
  have "f = (d\<lparr>workflow_catalogs := workflow_catalogs e, workflow_entries := workflow_entries e\<rparr>)
      \<lparr>workflow_catalogs := workflow_catalogs f, workflow_entries := workflow_entries f\<rparr>"
    using assms unfolding catalog_tables_only_def by metis
  then show ?thesis by (simp add: catalog_tables_only_def)
qed

lemma save_workflow_catalog_tables:
  assumes "save_workflow_catalog now c e d = (r, d')"
  shows "catalog_tables_only d d'"
  using assms by (auto simp: save_workflow_catalog_def save_workflow_catalog_tx_def catalog_tables_only_def Let_def split: sum.splits if_splits)

lemma saved_tables: "saved now d built = (r, d') \<Longrightarrow> catalog_tables_only d d'"
  by (auto simp: saved_def dest: save_workflow_catalog_tables split: prod.splits)

lemma refresh_repository_workflow_catalog_tables:
  "refresh_repository_workflow_catalog rt source now d i = (r, d') \<Longrightarrow> catalog_tables_only d d'"
  by (auto simp: refresh_repository_workflow_catalog_def dest: saved_tables split: option.splits if_splits sum.splits prod.splits)

lemma read_workflow_catalog_tables:
  "read_workflow_catalog rt source now d i = (r, d') \<Longrightarrow> catalog_tables_only d d'"
  by (auto simp: read_workflow_catalog_def Let_def dest: refresh_repository_workflow_catalog_tables split: option.splits)

lemma collect_options_tables:
  "collect_options rt source now index ids counts d = (r, d') \<Longrightarrow> catalog_tables_only d d'"
proof (induction ids arbitrary: index counts d)
  case (Cons i ids)
  obtain c e d1 where read: "read_workflow_catalog rt source now d i = ((c, e), d1)" by (metis surj_pair)
  from read_workflow_catalog_tables [OF read] Cons read show ?case
    by (auto split: option.splits if_splits intro: catalog_tables_only_trans)
qed simp

lemma workflow_options_tables: "workflow_options rt source now d ids = (r, d') \<Longrightarrow> catalog_tables_only d d'"
  by (auto simp: workflow_options_def dest: collect_options_tables split: if_splits prod.splits sum.splits)

end
