(* ===== verification/Procedures.thy ===== *)
theory Procedures
  imports Fleet_Targets
begin

text \<open>
  Procedure Runs (protocol/procedures.go, procedures.go): a saved Task, which operators call a Procedure, is run over all
  managed repositories or over the ones the request names. A rebuild links each Work to the one it does again.
\<close>

subsection \<open>The request\<close>

record procedure_run_request =
  pc_request_key :: string
  pc_procedure :: string
  pc_repositories :: "string list"
  pc_all_repositories :: bool
  pc_rebuild :: bool

record procedure_run_admission =
  pd_result :: admission_result
  pd_request_key :: string
  pd_run :: run_detail

record procedure_run_input =
  ni_procedure :: string
  ni_repositories :: "string list"
  ni_all_repositories :: bool
  ni_rebuild :: bool

definition normalize_github_repository :: "string \<Rightarrow> string + string" where
  "normalize_github_repository raw =
     (let parts = split_on (CHR ''/'') (trim_suffix (trim_space raw) ''.git'') in
      if length parts \<noteq> 3 \<or> to_lower_ascii (parts ! 0) \<noteq> ''github.com'' \<or>
         \<not> valid_github_owner (parts ! 1) \<or> \<not> valid_github_repository (parts ! 2)
      then Inl ''repository must use github.com/owner/repository''
      else Inr (to_lower_ascii (join_with (CHR ''/'') parts)))"

text \<open>The repositories a request names, with the ones before them.\<close>

fun normalize_run_repositories :: "(string \<Rightarrow> bool) \<Rightarrow> string list \<Rightarrow> string list \<Rightarrow> string + string list" where
  "normalize_run_repositories printable seen [] = Inr []"
| "normalize_run_repositories printable seen (raw # raws) =
     (case normalize_github_repository raw of
        Inl e \<Rightarrow> Inl (''invalid repository '' @ go_quote printable raw @ '': '' @ e)
      | Inr r \<Rightarrow>
          if r \<in> set seen then Inl (''repository '' @ r @ '' appears more than once'')
          else (case normalize_run_repositories printable (r # seen) raws of Inl e \<Rightarrow> Inl e | Inr rs \<Rightarrow> Inr (r # rs)))"

definition normalize_procedure_run_request ::
  "(string \<Rightarrow> bool) \<Rightarrow> (string \<Rightarrow> string) \<Rightarrow> procedure_run_request \<Rightarrow> string + procedure_run_input" where
  "normalize_procedure_run_request printable lower input =
     (let procedure = trim_space (pc_procedure input);
          n = \<lparr>ni_procedure = normalize_title_key lower procedure, ni_repositories = [],
            ni_all_repositories = pc_all_repositories input, ni_rebuild = pc_rebuild input\<rparr> in
      if procedure = '''' \<or> 200 < rune_count procedure
      then Inl ''procedure is required and limited to 200 characters''
      else if pc_all_repositories input
      then if pc_repositories input \<noteq> [] then Inl ''--repos all cannot be combined with explicit repositories'' else Inr n
      else if length (pc_repositories input) < 1 \<or> max_work_targets < length (pc_repositories input)
      then Inl ''run requires between 1 and 100 repositories''
      else (case normalize_run_repositories printable [] (pc_repositories input) of
              Inl e \<Rightarrow> Inl e
            | Inr rs \<Rightarrow> Inr (n\<lparr>ni_repositories := rs\<rparr>)))"

text \<open>A list that was never appended to is \<^verbatim>\<open>null\<close>; one with members is an array.\<close>

definition procedure_run_fingerprint :: "procedure_run_input \<Rightarrow> digest" where
  "procedure_run_fingerprint n = sum256 (json_object
     (json_field ''operation'' (json_string ''run_procedure'') @ json_field ''procedure'' (json_string (ni_procedure n)) @
      json_field ''repositories'' (if ni_repositories n = [] then ''null'' else json_array (map json_string (ni_repositories n))) @
      json_field ''all_repositories'' (json_bool (ni_all_repositories n)) @
      json_field ''rebuild'' (json_bool (ni_rebuild n))))"

definition canonical_procedure_run_request ::
  "(string \<Rightarrow> bool) \<Rightarrow> (string \<Rightarrow> string) \<Rightarrow> procedure_run_request \<Rightarrow>
   string + (procedure_run_request \<times> procedure_run_input \<times> digest)" where
  "canonical_procedure_run_request printable lower input =
     (case normalize_procedure_run_request printable lower input of
        Inl e \<Rightarrow> Inl e
      | Inr n \<Rightarrow> Inr (\<lparr>pc_request_key = trim_space (pc_request_key input), pc_procedure = ni_procedure n,
          pc_repositories = ni_repositories n, pc_all_repositories = ni_all_repositories n, pc_rebuild = ni_rebuild n\<rparr>,
          n, procedure_run_fingerprint n))"

subsection \<open>The Procedure and its targets\<close>

definition procedure_snapshot :: "task_row \<Rightarrow> pipeline_snapshot \<Rightarrow> task_snapshot" where
  "procedure_snapshot t p =
     \<lparr>ts_id = tk_id t, ts_name = tk_name t, ts_prompt = tk_prompt t, ts_runtime = tk_runtime t,
      ts_execution_profile_id = coalesce (tk_execution_profile_id t) '''', ts_workflow_id = tk_workflow_id t,
      ts_timeout_seconds = tk_timeout_seconds t, ts_concurrency_limit = tk_concurrency_limit t,
      ts_generation = tk_generation t, ts_outcome_contract = tk_outcome_contract t, ts_workflow = no_workflow,
      ts_repository_workflows = [], ts_pipeline = p, ts_repositories = [], ts_schedule_cron = '''', ts_schedule_timezone = ''''\<rparr>"

definition load_procedure_snapshot :: "db \<Rightarrow> string \<Rightarrow> task_snapshot result" where
  "load_procedure_snapshot d name_key =
     (case find (\<lambda>t. tk_name_key t = name_key) (task_rows d) of
        None \<Rightarrow> Inl (invalid ''procedure_not_found'' (''Procedure '' @ name_key @ '' does not exist''))
      | Some t \<Rightarrow>
          if tk_migration_only t \<or> tk_read_only t
          then Inl (conflict ''procedure_read_only'' ''read-only Procedures cannot start fleet Runs'')
          else if tk_archived t then Inl (conflict ''procedure_archived'' ''archived Procedures cannot start Runs'')
          else and_then (load_pipeline_snapshot d (task_pipeline_id t)) (\<lambda>p. Inr (procedure_snapshot t p)))"

record procedure_target =
  rt_repository :: task_repository
  rt_predecessor :: string

definition target_of_repository :: "repository \<Rightarrow> procedure_target" where
  "target_of_repository r = \<lparr>rt_repository = \<lparr>tr_id = rp_id r, tr_remote_identity = rp_remote_identity r\<rparr>, rt_predecessor = ''''\<rparr>"

definition find_managed_repository :: "db \<Rightarrow> string \<Rightarrow> repository option" where
  "find_managed_repository d identity =
     find (\<lambda>r. to_lower_ascii (rp_remote_identity r) = to_lower_ascii identity \<and> rp_centrally_managed r \<and> rp_enabled r) (repositories d)"

definition not_in_catalog :: "string \<Rightarrow> service_error" where
  "not_in_catalog identity = conflict ''repository_not_managed''
     (''repository '' @ identity @ '' is not enabled in the managed repository catalog'')"

fun resolve_named_targets :: "db \<Rightarrow> string list \<Rightarrow> procedure_target list result" where
  "resolve_named_targets d [] = Inr []"
| "resolve_named_targets d (identity # identities) =
     (case find_managed_repository d identity of
        None \<Rightarrow> Inl (not_in_catalog identity)
      | Some r \<Rightarrow> and_then (resolve_named_targets d identities) (\<lambda>ts. Inr (target_of_repository r # ts)))"

definition resolve_procedure_targets :: "db \<Rightarrow> procedure_run_input \<Rightarrow> procedure_target list result" where
  "resolve_procedure_targets d n =
     (if ni_all_repositories n then
        let rs = sort_key (\<lambda>r. (to_lower_ascii (rp_remote_identity r), rp_id r))
              (filter (\<lambda>r. rp_centrally_managed r \<and> rp_enabled r) (repositories d)) in
        if max_work_targets < length rs
        then Inl (conflict ''too_many_procedure_targets'' ''a Procedure Run is limited to 100 repositories'')
        else if rs = [] then Inl (conflict ''procedure_repositories_empty'' ''no enabled managed repositories are available'')
        else Inr (map target_of_repository rs)
      else resolve_named_targets d (ni_repositories n))"

subsection \<open>Predecessors\<close>

text \<open>The Work that was admitted last, and among such the one with the greatest id.\<close>

definition latest_work :: "(session \<Rightarrow> bool) \<Rightarrow> db \<Rightarrow> session option" where
  "latest_work P d =
     (case rev (sort_key (\<lambda>s. (ss_admitted_at s, ss_id s)) (filter P (sessions d))) of [] \<Rightarrow> None | s # _ \<Rightarrow> Some s)"

definition has_successor :: "db \<Rightarrow> session \<Rightarrow> bool" where
  "has_successor d s \<longleftrightarrow> list_ex (\<lambda>c. ss_predecessor_work_id c = Some (ss_id s)) (sessions d)"

definition procedure_work :: "db \<Rightarrow> ident \<Rightarrow> ident \<Rightarrow> session \<Rightarrow> bool" where
  "procedure_work d procedure_id repository_id s \<longleftrightarrow>
     map_option run_task_id (find_run d (ss_run_id s)) = Some procedure_id \<and> ss_repository_id s = repository_id \<and>
     tg_target_kind (ss_target s) = ''repository''"

fun select_procedure_predecessors ::
  "db \<Rightarrow> ident \<Rightarrow> bool \<Rightarrow> procedure_target list \<Rightarrow> procedure_target list result" where
  "select_procedure_predecessors d procedure_id rebuild [] = Inr []"
| "select_procedure_predecessors d procedure_id rebuild (t # ts) =
     (if \<not> rebuild then Inr (t # ts)
      else
        let work = procedure_work d procedure_id (tr_id (rt_repository t)) in
        case latest_work (\<lambda>s. work s \<and> session_nonterminal (ss_state s)) d of
          Some s \<Rightarrow> Inl (conflict ''procedure_rebuild_active'' (''matching Work '' @ ss_id s @ '' is still nonterminal''))
        | None \<Rightarrow>
            (case latest_work (\<lambda>s. work s \<and> replaceable (ss_state s) \<and> \<not> has_successor d s) d of
               None \<Rightarrow> Inl (conflict ''rebuild_predecessor_not_found'' (''repository '' @
                 tr_remote_identity (rt_repository t) @ '' has no terminal predecessor for Procedure rebuild''))
             | Some s \<Rightarrow> and_then (select_procedure_predecessors d procedure_id rebuild ts) (\<lambda>ts.
                 Inr (t\<lparr>rt_predecessor := ss_id s\<rparr> # ts))))"

subsection \<open>Admission\<close>

definition procedure_concurrency_blocked_reason :: string where
  "procedure_concurrency_blocked_reason = ''Waiting for an available Procedure concurrency slot.''"

definition select_procedure_workflow :: "(string \<Rightarrow> bool) \<Rightarrow> db \<Rightarrow> task_snapshot \<Rightarrow> task_snapshot result" where
  "select_procedure_workflow printable d t =
     and_then (validate_task_workflow d (map tr_id (ts_repositories t)) (ts_workflow_id t)) (\<lambda>_.
       if ts_workflow_id t = '''' then Inr t
       else and_then (load_workflow_snapshot printable d (tr_id (hd (ts_repositories t))) (ts_workflow_id t)) (\<lambda>w.
         Inr (t\<lparr>ts_workflow := w\<rparr>)))"

definition procedure_plan ::
  "(string \<Rightarrow> bool) \<Rightarrow> db \<Rightarrow> procedure_run_input \<Rightarrow>
   (task_snapshot \<times> procedure_target list \<times> execution_snapshot \<times> bool \<times> string) result"
where
  "procedure_plan printable d n =
     and_then (load_procedure_snapshot d (ni_procedure n)) (\<lambda>t.
       if ts_concurrency_limit t < 1 \<or> max_work_targets < ts_concurrency_limit t
       then Inl (conflict ''invalid_procedure_concurrency'' ''the Procedure concurrency limit must be between 1 and 100'')
       else
         and_then (resolve_procedure_targets d n) (\<lambda>targets.
         and_then (select_procedure_predecessors d (ts_id t) (ni_rebuild n) targets) (\<lambda>targets.
         and_then (select_procedure_workflow printable d (t\<lparr>ts_repositories := map rt_repository targets\<rparr>)) (\<lambda>t.
         and_then (load_execution_snapshot t '''') (\<lambda>(e, ready, reason).
         and_then (check_backend t e) (\<lambda>_. Inr (t, targets, e, ready, reason)))))))"

definition admit_procedure_target ::
  "(string \<Rightarrow> bool) \<Rightarrow> admission \<Rightarrow> nat \<Rightarrow> procedure_target \<Rightarrow> nat \<Rightarrow> db \<Rightarrow> ((run_target \<times> bool) \<times> db) result" where
  "admit_procedure_target printable am position r materialized d =
     (let t = am_snapshot am; target = admission_target (ai_work (am_ids am) position) position (rt_repository r) in
      and_then (if ts_workflow_id t = '''' then Inr (ts_workflow t)
                else load_workflow_snapshot printable d (tr_id (rt_repository r)) (ts_workflow_id t)) (\<lambda>workflow.
        let prompt = resolve_task_workflow_prompt (am_prompt am) workflow (ts_workflow_id t \<noteq> '''') in
        if max_resolved_prompt_bytes < length prompt
        then Inl (conflict ''resolved_prompt_too_large'' ''the frozen Procedure prompt exceeds 64 KiB'')
        else
          and_then (resolve_session_stages t prompt (ai_run (am_ids am)) target) (\<lambda>stages.
          and_then (route_target am procedure_concurrency_blocked_reason (rt_repository r) materialized d) (\<lambda>((reason, worker), d1).
            insert_successor am target workflow prompt stages (rt_predecessor r) reason worker d1))))"

definition admit_procedure_run_tx ::
  "(string \<Rightarrow> bool) \<Rightarrow> int \<Rightarrow> admission_ids \<Rightarrow> db \<Rightarrow> string \<Rightarrow> procedure_run_input \<Rightarrow> digest \<Rightarrow>
   ((admission_result \<times> ident) \<times> db) result"
where
  "admit_procedure_run_tx printable now ids d key n fingerprint =
     (case find_run_by_key d key of
        Some r \<Rightarrow>
          if run_request_digest r \<noteq> fingerprint
          then Inl (conflict ''request_key_conflict'' ''request_key was already used with different Procedure Run inputs'')
          else Inr ((AdmissionReplayed, run_id r), d)
      | None \<Rightarrow>
          and_then (procedure_plan printable d n) (\<lambda>(t, targets, e, ready, reason).
          let am = \<lparr>am_now = unix_milli now, am_ids = ids, am_snapshot = t, am_execution = e, am_prompt = ts_prompt t,
            am_profile_ready = ready, am_profile_reason = reason\<rparr> in
          and_then (admit_fleet am (admit_procedure_target printable am) key fingerprint targets d) (\<lambda>(i, d1).
            Inr ((AdmissionAdmitted, i), d1))))"

definition admit_procedure_run ::
  "(string \<Rightarrow> bool) \<Rightarrow> (string \<Rightarrow> string) \<Rightarrow> int \<Rightarrow> admission_ids \<Rightarrow> db \<Rightarrow> procedure_run_request \<Rightarrow>
   procedure_run_admission result \<times> db"
where
  "admit_procedure_run printable lower now ids d input =
     (case canonical_procedure_run_request printable lower input of
        Inl e \<Rightarrow> (Inl (invalid ''invalid_procedure_run'' e), d)
      | Inr (request, n, fingerprint) \<Rightarrow>
          let key = pc_request_key request in
          if key = '''' \<or> 200 < length key
          then (Inl (invalid ''invalid_request_key'' ''request_key is required and limited to 200 bytes''), d)
          else if prefix ''schedule:'' key
          then (Inl (invalid ''reserved_request_key'' ''request_key uses a reserved internal prefix''), d)
          else committed d (admit_procedure_run_tx printable now ids d key n fingerprint) (\<lambda>d' (outcome, i).
            and_then (run_reply now d' i) (\<lambda>v. Inr \<lparr>pd_result = outcome, pd_request_key = key, pd_run = v\<rparr>)))"

subsection \<open>Procedures add Work as fleets do\<close>

definition does_target :: "procedure_target \<Rightarrow> session \<Rightarrow> bool" where
  "does_target r s \<longleftrightarrow> ss_repository_id s = tr_id (rt_repository r) \<and> ss_predecessor_work_id s = null_string (rt_predecessor r) \<and>
     tg_target_kind (ss_target s) = ''repository''"

lemma admit_procedure_target_adds:
  assumes "admit_procedure_target printable am position r m d = Inr ((target, queued), d')"
  shows "\<exists>s. adds_work am position m queued d d' s \<and> does_target r s"
proof -
  let ?target = "admission_target (ai_work (am_ids am) position) position (rt_repository r)"
  from assms obtain workflow prompt stages reason worker d1 where
    route: "route_target am procedure_concurrency_blocked_reason (rt_repository r) m d = Inr ((reason, worker), d1)"
    and row: "insert_successor am ?target workflow prompt stages (rt_predecessor r) reason worker d1 = Inr ((target, queued), d')"
    by (auto simp: admit_procedure_target_def Let_def and_then_Inr split: if_splits)
  have "adds_work am position m queued d d' ((admitted_session am ?target workflow prompt reason worker)
      \<lparr>ss_predecessor_work_id := null_string (rt_predecessor r)\<rparr>)"
    by (rule insert_successor_adds [OF row route_target_same [OF route] _ _ route_target_limit [OF route], THEN conjunct2])
      (simp_all add: admission_target_def)
  moreover have "does_target r ((admitted_session am ?target workflow prompt reason worker)
      \<lparr>ss_predecessor_work_id := null_string (rt_predecessor r)\<rparr>)"
    by (simp add: does_target_def admission_target_def admitted_session_def work_target.defs)
  ultimately show ?thesis by blast
qed

lemma does_target_items:
  assumes "fleet_rows am m d d' new es" "list_all2 does_target rs new" "one_open_item d"
  shows "one_open_item d'"
proof (rule one_open_item_append_repositories [OF assms(3)])
  show "sessions d' = sessions d @ new" using assms(1) by (auto simp: fleet_rows_def)
  show "tg_target_kind (ss_target s) = ''repository''" if "s \<in> set new" for s
    using work_of_list_all2 [OF assms(2) that] by (auto simp: does_target_def)
qed

interpretation procedure_work: work_adder am "admit_procedure_target printable am" does_target for am printable
  by unfold_locales (rule admit_procedure_target_adds)

lemma normalize_run_repositories_Inr:
  "normalize_run_repositories printable seen raws = Inr rs \<Longrightarrow>
   list_all2 (\<lambda>raw r. normalize_github_repository raw = Inr r) raws rs \<and> distinct rs \<and> set rs \<inter> set seen = {} \<and>
   map to_lower_ascii rs = rs"
proof (induction raws arbitrary: seen rs)
  case (Cons raw raws)
  then obtain r rs' where r: "normalize_github_repository raw = Inr r" "r \<notin> set seen"
    and rest: "normalize_run_repositories printable (r # seen) raws = Inr rs'" and rs: "rs = r # rs'"
    by (auto split: sum.splits if_splits)
  have "to_lower_ascii r = r" using r(1) by (auto simp: normalize_github_repository_def Let_def to_lower_ascii_idem split: if_splits)
  with Cons.IH [OF rest] r rs show ?case by auto
qed simp

lemma resolve_named_targets_Inr:
  "resolve_named_targets d identities = Inr ts \<Longrightarrow>
   \<exists>rs. ts = map target_of_repository rs \<and> map (\<lambda>r. to_lower_ascii (rp_remote_identity r)) rs = map to_lower_ascii identities \<and>
     (\<forall>r \<in> set rs. r \<in> set (repositories d) \<and> rp_centrally_managed r \<and> rp_enabled r)"
proof (induction identities arbitrary: ts)
  case (Cons identity identities)
  then obtain r ts' where r: "find_managed_repository d identity = Some r" and rest: "resolve_named_targets d identities = Inr ts'"
    and ts: "ts = target_of_repository r # ts'"
    by (auto simp: and_then_Inr split: option.splits)
  from Cons.IH [OF rest] obtain rs where "ts' = map target_of_repository rs"
    "map (\<lambda>r. to_lower_ascii (rp_remote_identity r)) rs = map to_lower_ascii identities"
    "\<forall>r \<in> set rs. r \<in> set (repositories d) \<and> rp_centrally_managed r \<and> rp_enabled r" by blast
  with r ts show ?case
    by (intro exI [of _ "r # rs"]) (auto simp: find_managed_repository_def dest: find_Some_set)
qed simp

text \<open>The targets are managed repositories, each of them once.\<close>

lemma resolve_procedure_targets_Inr:
  assumes "resolve_procedure_targets d n = Inr ts" "distinct (ni_repositories n)" "map to_lower_ascii (ni_repositories n) = ni_repositories n"
    and keys: "distinct (map rp_id (repositories d))"
  obtains rs where "ts = map target_of_repository rs" "distinct (map rp_id rs)"
    "\<And>r. r \<in> set rs \<Longrightarrow> r \<in> set (repositories d) \<and> rp_centrally_managed r \<and> rp_enabled r"
    "ni_all_repositories n \<Longrightarrow> rs \<noteq> [] \<and> set rs = {r \<in> set (repositories d). rp_centrally_managed r \<and> rp_enabled r}"
    "\<not> ni_all_repositories n \<Longrightarrow> map (\<lambda>r. to_lower_ascii (rp_remote_identity r)) rs = ni_repositories n"
proof (cases "ni_all_repositories n")
  case True
  let ?rs = "sort_key (\<lambda>r. (to_lower_ascii (rp_remote_identity r), rp_id r))
      (filter (\<lambda>r. rp_centrally_managed r \<and> rp_enabled r) (repositories d))"
  have "distinct (map rp_id ?rs)"
    using keys by (simp add: distinct_map distinct_map_filter inj_on_def)
  moreover have "ts = map target_of_repository ?rs" "?rs \<noteq> []"
    using assms(1) True by (auto simp: resolve_procedure_targets_def Let_def split: if_splits)
  ultimately show thesis using True by (intro that [of ?rs]) auto
next
  case False
  with assms(1) resolve_named_targets_Inr [of d "ni_repositories n" ts] obtain rs where
    rs: "ts = map target_of_repository rs" "map (\<lambda>r. to_lower_ascii (rp_remote_identity r)) rs = ni_repositories n"
      "\<And>r. r \<in> set rs \<Longrightarrow> r \<in> set (repositories d) \<and> rp_centrally_managed r \<and> rp_enabled r"
    by (auto simp: resolve_procedure_targets_def assms(3))
  have "distinct (map (\<lambda>r. to_lower_ascii (rp_remote_identity r)) rs)" using assms(2) rs(2) by simp
  then have "distinct rs" by (simp add: distinct_map)
  moreover have "inj_on rp_id (set rs)"
    using keys rs(3) by (auto simp: distinct_map intro: inj_on_subset)
  ultimately have "distinct (map rp_id rs)" by (simp add: distinct_map)
  then show thesis using False rs by (intro that [of rs]) auto
qed

lemma latest_work_cases:
  obtains "latest_work P d = None" "\<forall>s \<in> set (sessions d). \<not> P s"
  | s where "latest_work P d = Some s" "s \<in> set (sessions d)" "P s"
proof -
  define ss where "ss = rev (sort_key (\<lambda>s. (ss_admitted_at s, ss_id s)) (filter P (sessions d)))"
  have "set ss = {s \<in> set (sessions d). P s}" by (auto simp: ss_def)
  then show thesis
    by (cases ss) (use that in \<open>auto simp: latest_work_def simp flip: ss_def\<close>)
qed

lemma latest_work_Some: "latest_work P d = Some s \<Longrightarrow> s \<in> set (sessions d) \<and> P s"
  by (rule latest_work_cases [of P d]) auto

lemma latest_work_None: "latest_work P d = None \<longleftrightarrow> (\<forall>s \<in> set (sessions d). \<not> P s)"
  by (rule latest_work_cases [of P d]) auto

text \<open>A rebuild finds for each target the Work it does again.\<close>

definition rebuilds :: "db \<Rightarrow> ident \<Rightarrow> procedure_target \<Rightarrow> bool" where
  "rebuilds d procedure_id t \<longleftrightarrow>
     (\<exists>p \<in> set (sessions d). rt_predecessor t = ss_id p \<and> procedure_work d procedure_id (tr_id (rt_repository t)) p \<and>
        replaceable (ss_state p) \<and> \<not> has_successor d p) \<and>
     (\<forall>s \<in> set (sessions d). procedure_work d procedure_id (tr_id (rt_repository t)) s \<longrightarrow> \<not> session_nonterminal (ss_state s))"

lemma select_procedure_predecessors_Inr:
  "select_procedure_predecessors d i rebuild ts = Inr ts' \<Longrightarrow>
   map rt_repository ts' = map rt_repository ts \<and> (if rebuild then \<forall>t \<in> set ts'. rebuilds d i t else ts' = ts)"
proof (induction ts arbitrary: ts')
  case (Cons t ts)
  show ?case
  proof (cases rebuild)
    case True
    let ?work = "procedure_work d i (tr_id (rt_repository t))"
    from Cons.prems True obtain p ts1 where none: "latest_work (\<lambda>s. ?work s \<and> session_nonterminal (ss_state s)) d = None"
      and p: "latest_work (\<lambda>s. ?work s \<and> replaceable (ss_state s) \<and> \<not> has_successor d s) d = Some p"
      and rest: "select_procedure_predecessors d i rebuild ts = Inr ts1" "ts' = t\<lparr>rt_predecessor := ss_id p\<rparr> # ts1"
      by (auto simp: Let_def and_then_Inr split: option.splits)
    have "rebuilds d i (t\<lparr>rt_predecessor := ss_id p\<rparr>)"
      using none latest_work_Some [OF p] by (auto simp: rebuilds_def latest_work_None)
    then show ?thesis using Cons.IH [OF rest(1)] True rest(2) by auto
  qed (use Cons.prems in auto)
qed simp

text \<open>An accepted request and what its transaction does.\<close>

lemma admit_procedure_run_Inr:
  assumes "admit_procedure_run printable lower now ids d input = (Inr v, d')"
  obtains n i where "normalize_procedure_run_request printable lower input = Inr n"
    "pd_request_key v = trim_space (pc_request_key input)"
    "admit_procedure_run_tx printable now ids d (pd_request_key v) n (procedure_run_fingerprint n) = Inr ((pd_result v, i), d')"
  using assms
  by (auto simp: admit_procedure_run_def canonical_procedure_run_request_def Let_def committed_def and_then_Inr
      split: sum.splits if_splits)

lemma normalize_procedure_run_request_Inr:
  assumes "normalize_procedure_run_request printable lower input = Inr n"
  shows "ni_all_repositories n = pc_all_repositories input" "ni_rebuild n = pc_rebuild input"
    "distinct (ni_repositories n)" "map to_lower_ascii (ni_repositories n) = ni_repositories n"
    "\<not> ni_all_repositories n \<Longrightarrow> ni_repositories n \<noteq> [] \<and>
       list_all2 (\<lambda>raw r. normalize_github_repository raw = Inr r) (pc_repositories input) (ni_repositories n)"
  using assms
  by (auto simp: normalize_procedure_run_request_def Let_def Suc_le_eq dest: normalize_run_repositories_Inr split: if_splits sum.splits)

definition repository_of_target :: "repository \<Rightarrow> task_repository" where
  "repository_of_target r = \<lparr>tr_id = rp_id r, tr_remote_identity = rp_remote_identity r\<rparr>"

lemma procedure_plan_targets:
  assumes "procedure_plan printable d n = Inr (t, targets, e, ready, reason)" "ni_all_repositories n \<or> ni_repositories n \<noteq> []"
  shows "targets \<noteq> []"
proof -
  from assms(1) obtain ts i where ts: "resolve_procedure_targets d n = Inr ts"
    "select_procedure_predecessors d i (ni_rebuild n) ts = Inr targets"
    by (auto simp: procedure_plan_def and_then_Inr split: if_splits)
  have "ts \<noteq> []"
    using ts(1) assms(2) resolve_named_targets_Inr [of d "ni_repositories n" ts]
    by (auto simp: resolve_procedure_targets_def Let_def split: if_splits)
  then show ?thesis using select_procedure_predecessors_Inr [OF ts(2)] by auto
qed

lemma procedure_plan_Inr:
  assumes plan: "procedure_plan printable d n = Inr (t, targets, e, ready, reason)"
    and n: "distinct (ni_repositories n)" "map to_lower_ascii (ni_repositories n) = ni_repositories n"
      "ni_all_repositories n \<or> ni_repositories n \<noteq> []"
    and keys: "distinct (map rp_id (repositories d))"
  obtains rs where "map rt_repository targets = map repository_of_target rs" "rs \<noteq> []" "distinct (map rp_id rs)"
    "\<And>r. r \<in> set rs \<Longrightarrow> r \<in> set (repositories d) \<and> rp_centrally_managed r \<and> rp_enabled r"
    "ni_all_repositories n \<Longrightarrow> set rs = {r \<in> set (repositories d). rp_centrally_managed r \<and> rp_enabled r}"
    "\<not> ni_all_repositories n \<Longrightarrow> map (\<lambda>r. to_lower_ascii (rp_remote_identity r)) rs = ni_repositories n"
    "1 \<le> ts_concurrency_limit t" "ts_concurrency_limit t \<le> max_work_targets"
    "\<And>x. x \<in> set targets \<Longrightarrow> if ni_rebuild n then rebuilds d (ts_id t) x else rt_predecessor x = ''''"
proof -
  from plan obtain t0 ts where t0: "0 < ts_concurrency_limit t0" "ts_concurrency_limit t0 \<le> max_work_targets"
    and ts: "resolve_procedure_targets d n = Inr ts"
    and chosen: "select_procedure_predecessors d (ts_id t0) (ni_rebuild n) ts = Inr targets"
    and flow: "select_procedure_workflow printable d (t0\<lparr>ts_repositories := map rt_repository targets\<rparr>) = Inr t"
    by (auto simp: procedure_plan_def and_then_Inr not_less Suc_le_eq split: if_splits)
  have same: "ts_id t = ts_id t0" "ts_concurrency_limit t = ts_concurrency_limit t0"
    using flow by (auto simp: select_procedure_workflow_def and_then_Inr split: if_splits)
  from ts n(1,2) keys obtain rs where rs: "ts = map target_of_repository rs" "distinct (map rp_id rs)"
    "\<And>r. r \<in> set rs \<Longrightarrow> r \<in> set (repositories d) \<and> rp_centrally_managed r \<and> rp_enabled r"
    "ni_all_repositories n \<Longrightarrow> rs \<noteq> [] \<and> set rs = {r \<in> set (repositories d). rp_centrally_managed r \<and> rp_enabled r}"
    "\<not> ni_all_repositories n \<Longrightarrow> map (\<lambda>r. to_lower_ascii (rp_remote_identity r)) rs = ni_repositories n"
    by (rule resolve_procedure_targets_Inr) blast
  note picked = select_procedure_predecessors_Inr [OF chosen]
  have "map rt_repository targets = map repository_of_target rs"
    using picked rs(1) by (simp add: comp_def target_of_repository_def repository_of_target_def)
  moreover have "rs \<noteq> []" using rs(4,5) n(3) by (cases "ni_all_repositories n") auto
  moreover have "if ni_rebuild n then rebuilds d (ts_id t) x else rt_predecessor x = ''''" if "x \<in> set targets" for x
    using picked that rs(1) same(1) by (auto simp: target_of_repository_def split: if_splits)
  ultimately show thesis using rs t0 same(2) by (intro that [of rs]) (simp_all add: Suc_le_eq)
qed

lemma admit_procedure_run_tx_Inr:
  assumes "admit_procedure_run_tx printable now ids d key n fingerprint = Inr ((outcome, i), d')"
  obtains (again) r where "find_run_by_key d key = Some r" "outcome = AdmissionReplayed" "d' = d"
    | (new) t targets e ready reason am where "find_run_by_key d key = None" "outcome = AdmissionAdmitted"
      "procedure_plan printable d n = Inr (t, targets, e, ready, reason)" "am_snapshot am = t" "am_ids am = ids"
      "admit_fleet am (admit_procedure_target printable am) key fingerprint targets d = Inr (i, d')"
proof (cases "find_run_by_key d key")
  case None
  with assms obtain t targets e ready reason where plan: "procedure_plan printable d n = Inr (t, targets, e, ready, reason)"
    and run: "outcome = AdmissionAdmitted"
      "admit_fleet \<lparr>am_now = unix_milli now, am_ids = ids, am_snapshot = t, am_execution = e, am_prompt = ts_prompt t,
            am_profile_ready = ready, am_profile_reason = reason\<rparr>
          (admit_procedure_target printable \<lparr>am_now = unix_milli now, am_ids = ids, am_snapshot = t, am_execution = e,
            am_prompt = ts_prompt t, am_profile_ready = ready, am_profile_reason = reason\<rparr>) key fingerprint targets d = Inr (i, d')"
    by (auto simp: admit_procedure_run_tx_def and_then_Inr Let_def)
  show thesis by (rule new [OF None run(1) plan _ _ run(2)]) simp_all
next
  case (Some r)
  with assms show thesis by (intro again) (auto simp: admit_procedure_run_tx_def split: if_splits)
qed

end
