(* ===== verification/Build_References.thy ===== *)
theory Build_References
  imports Workflow_Catalogs Procedures
begin

text \<open>
  The request of a Build (protocol/build.go): references to work items, which are GitHub issue URLs or opaque names, and
  their canonical form. The part of Go's \<^verbatim>\<open>net/url\<close> that decides which URLs are accepted is spelled out: an accepted
  URL has the scheme https, the host github.com, no user, port, query or fragment.
\<close>

subsection \<open>Percent encoding\<close>

definition hex_digit :: "char \<Rightarrow> bool" where
  "hex_digit c \<longleftrightarrow> is_decimal c \<or> in_range 97 102 c \<or> in_range 65 70 c"

definition hex_value :: "char \<Rightarrow> nat" where
  "hex_value c = (if is_decimal c then byte c - 48 else if in_range 97 102 c then byte c - 87 else byte c - 55)"

fun url_unescape :: "string \<Rightarrow> string option" where
  "url_unescape [] = Some []"
| "url_unescape (c # s) =
     (if c = CHR ''%'' then
        (case s of
           a # b # rest \<Rightarrow>
             if hex_digit a \<and> hex_digit b
             then map_option (Cons (char_of (16 * hex_value a + hex_value b))) (url_unescape rest) else None
         | _ \<Rightarrow> None)
      else map_option (Cons c) (url_unescape s))"

text \<open>The bytes that \<^verbatim>\<open>url.URL.EscapedPath\<close> writes as they are, and those it accepts in a path as it was given.\<close>

definition path_unescaped :: "char \<Rightarrow> bool" where
  "path_unescaped c \<longleftrightarrow> is_lower c \<or> is_upper c \<or> is_decimal c \<or> c \<in> set ''-_.~$&+,/:;=@''"

definition path_accepted :: "char \<Rightarrow> bool" where
  "path_accepted c \<longleftrightarrow> path_unescaped c \<or> c \<in> set ''!()*[]%'' \<or> byte c = 39"

definition upper_hex :: "nat \<Rightarrow> char" where
  "upper_hex n = char_of (if n < 10 then n + 48 else n + 55)"

definition escape_path :: "string \<Rightarrow> string" where
  "escape_path p = concat (map (\<lambda>c. if path_unescaped c then [c] else [CHR ''%'', upper_hex (byte c div 16), upper_hex (byte c mod 16)]) p)"

definition escaped_path :: "string \<Rightarrow> string option" where
  "escaped_path p = map_option (\<lambda>q. if list_all path_accepted p then p else escape_path q) (url_unescape p)"

text \<open>
  The escaped path of an accepted URL. Of two or more question marks the first begins a query that is not empty, and so
  does one that something follows.
\<close>

definition github_path :: "string \<Rightarrow> string option" where
  "github_path raw =
     (let u = takeWhile (\<lambda>c. c \<noteq> CHR ''#'') raw; fragment = drop (length u + 1) raw;
          rest = drop 6 u; body = trim_suffix rest ''?'' in
      if list_ex (\<lambda>c. byte c < 32 \<or> byte c = 127) u \<or> fragment \<noteq> '''' \<or> to_lower_ascii (take 6 u) \<noteq> ''https:'' \<or>
         CHR ''?'' \<in> set body \<or> \<not> prefix ''//'' body
      then None
      else
        let host = takeWhile (\<lambda>c. c \<noteq> CHR ''/'') (drop 2 body) in
        if to_lower_ascii host \<noteq> ''github.com'' then None else escaped_path (drop (2 + length host) body))"

text \<open>\<^verbatim>\<open>strings.Trim\<close> of slashes.\<close>

definition trim_slashes :: "string \<Rightarrow> string" where
  "trim_slashes p = rev (dropWhile (\<lambda>c. c = CHR ''/'') (rev (dropWhile (\<lambda>c. c = CHR ''/'') p)))"

text \<open>\<^verbatim>\<open>strconv.ParseUint\<close> with base 10 and 64 bits.\<close>

definition parse_uint :: "string \<Rightarrow> nat option" where
  "parse_uint s =
     (if s = '''' \<or> \<not> list_all is_decimal s then None
      else let n = foldl (\<lambda>n c. 10 * n + (byte c - 48)) 0 s in if n < 2 ^ 64 then Some n else None)"

subsection \<open>References\<close>

record normalized_build_reference =
  nb_reference :: string
  nb_source_kind :: string
  nb_source_key :: string
  nb_repository_identity :: string

definition github_issue_reference :: "string \<Rightarrow> nat \<Rightarrow> normalized_build_reference" where
  "github_issue_reference identity number =
     (let path = drop (length ''github.com/'') identity in
      \<lparr>nb_reference = ''https://github.com/'' @ path @ ''/issues/'' @ show_nat number, nb_source_kind = ''github_issue'',
       nb_source_key = ''github:'' @ path @ '':issue:'' @ show_nat number, nb_repository_identity = identity\<rparr>)"

definition github_issue_parts :: "string list \<Rightarrow> normalized_build_reference option" where
  "github_issue_parts parts =
     (case parts of
        [owner, repository, issues, number] \<Rightarrow>
          if issues \<noteq> ''issues'' then None
          else
            Option.bind (url_unescape owner) (\<lambda>owner.
            Option.bind (url_unescape repository) (\<lambda>repository.
              case normalize_github_repository (''github.com/'' @ owner @ ''/'' @ repository) of
                Inl _ \<Rightarrow> None
              | Inr identity \<Rightarrow>
                  (case parse_uint number of
                     None \<Rightarrow> None
                   | Some n \<Rightarrow> if n = 0 then None else Some (github_issue_reference identity n))))
      | _ \<Rightarrow> None)"

definition normalize_github_issue_url :: "(string \<Rightarrow> bool) \<Rightarrow> string \<Rightarrow> string + normalized_build_reference" where
  "normalize_github_issue_url printable raw =
     (case Option.bind (github_path raw) (\<lambda>p. github_issue_parts (split_on (CHR ''/'') (trim_slashes p))) of
        None \<Rightarrow> Inl (''invalid GitHub issue URL '' @ go_quote printable raw)
      | Some r \<Rightarrow> Inr r)"

definition valid_opaque_reference :: "string \<Rightarrow> bool" where
  "valid_opaque_reference value \<longleftrightarrow> value \<noteq> '''' \<and>
     list_all (\<lambda>(index, c). is_lower c \<or> is_upper c \<or> is_decimal c \<or> 0 < index \<and> (c = CHR ''.'' \<or> c = CHR ''_'' \<or> c = CHR ''-''))
       (enumerate 0 value)"

definition normalize_build_reference :: "(string \<Rightarrow> bool) \<Rightarrow> string \<Rightarrow> string + normalized_build_reference" where
  "normalize_build_reference printable raw =
     (if trim_space raw \<noteq> raw then Inl ''build references must not contain leading or trailing whitespace''
      else if raw = '''' then Inl ''build references must not be empty''
      else if 2048 < length raw then Inl ''build reference exceeds 2048 bytes''
      else if contains ''://'' raw then normalize_github_issue_url printable raw
      else if 64 < length raw \<or> \<not> valid_opaque_reference raw
      then Inl (''invalid work-item reference '' @ go_quote printable raw @
        '': use an HTTPS GitHub issue URL or 1 to 64 ASCII letters, digits, dots, underscores, or hyphens'')
      else Inr \<lparr>nb_reference = raw, nb_source_kind = ''opaque'', nb_source_key = raw, nb_repository_identity = ''''\<rparr>)"

subsection \<open>The request\<close>

record build_request =
  bq_request_key :: string
  bq_references :: "string list"
  bq_repository :: string
  bq_repository_specified :: bool
  bq_runtime :: string
  bq_runtime_specified :: bool
  bq_workflow :: string
  bq_workflow_specified :: bool
  bq_rebuild :: bool

record build_admission =
  ba_result :: admission_result
  ba_request_key :: string
  ba_run :: run_detail

record build_input =
  bi_references :: "normalized_build_reference list"
  bi_repository :: string
  bi_repository_specified :: bool
  bi_runtime :: string
  bi_runtime_specified :: bool
  bi_workflow :: string
  bi_workflow_specified :: bool
  bi_rebuild :: bool

definition build_repository :: "build_request \<Rightarrow> string + string" where
  "build_repository input =
     (if bq_repository_specified input then
        (case normalize_github_repository (bq_repository input) of
           Inl e \<Rightarrow> Inl (''invalid repository: '' @ e)
         | Inr r \<Rightarrow> Inr r)
      else if trim_space (bq_repository input) \<noteq> ''''
      then Inl ''repository_specified must be true when repository is provided''
      else Inr '''')"

definition build_runtime :: "(string \<Rightarrow> string) \<Rightarrow> build_request \<Rightarrow> string + string" where
  "build_runtime lower input =
     (if bq_runtime_specified input then
        let v = to_lower lower (trim_space (bq_runtime input)) in
        if v = '''' then Inl ''runtime must not be empty'' else Inr v
      else if trim_space (bq_runtime input) \<noteq> ''''
      then Inl ''runtime_specified must be true when runtime is provided''
      else Inr '''')"

definition build_workflow :: "(string \<Rightarrow> bool) \<Rightarrow> build_request \<Rightarrow> string + string" where
  "build_workflow printable input =
     (if bq_workflow_specified input then normalize_workflow_id printable (bq_workflow input)
      else if trim_space (bq_workflow input) \<noteq> ''''
      then Inl ''workflow_specified must be true when workflow is provided''
      else Inr '''')"

text \<open>An opaque reference is about the repository of the request; a GitHub reference must agree with it.\<close>

definition bind_build_reference ::
  "(string \<Rightarrow> bool) \<Rightarrow> bool \<Rightarrow> string \<Rightarrow> normalized_build_reference \<Rightarrow> string + normalized_build_reference" where
  "bind_build_reference printable specified repository r =
     (if nb_source_kind r = ''opaque'' then
        if \<not> specified then Inl (''opaque reference '' @ go_quote printable (nb_reference r) @ '' requires --repo'')
        else Inr (r\<lparr>nb_repository_identity := repository\<rparr>)
      else if specified \<and> nb_repository_identity r \<noteq> repository
      then Inl (''GitHub reference '' @ go_quote printable (nb_reference r) @ '' does not match --repo '' @ repository)
      else Inr r)"

fun build_references ::
  "(string \<Rightarrow> bool) \<Rightarrow> bool \<Rightarrow> string \<Rightarrow> string list \<Rightarrow> string + normalized_build_reference list" where
  "build_references printable specified repository [] = Inr []"
| "build_references printable specified repository (raw # raws) =
     (case normalize_build_reference printable raw of
        Inl e \<Rightarrow> Inl e
      | Inr r \<Rightarrow>
          (case bind_build_reference printable specified repository r of
             Inl e \<Rightarrow> Inl e
           | Inr r \<Rightarrow>
               (case build_references printable specified repository raws of Inl e \<Rightarrow> Inl e | Inr rs \<Rightarrow> Inr (r # rs))))"

definition normalize_build_request ::
  "(string \<Rightarrow> bool) \<Rightarrow> (string \<Rightarrow> string) \<Rightarrow> build_request \<Rightarrow> string + build_input" where
  "normalize_build_request printable lower input =
     (if length (bq_references input) < 1 \<or> max_work_targets < length (bq_references input)
      then Inl ''build requires between 1 and 100 references''
      else (case build_repository input of
          Inl e \<Rightarrow> Inl e
        | Inr repository \<Rightarrow>
            (case build_runtime lower input of
               Inl e \<Rightarrow> Inl e
             | Inr runtime \<Rightarrow>
                 (case build_workflow printable input of
                    Inl e \<Rightarrow> Inl e
                  | Inr workflow \<Rightarrow>
                      (case build_references printable (bq_repository_specified input) repository (bq_references input) of
                         Inl e \<Rightarrow> Inl e
                       | Inr rs \<Rightarrow> Inr
                           \<lparr>bi_references = rs, bi_repository = repository,
                            bi_repository_specified = bq_repository_specified input, bi_runtime = runtime,
                            bi_runtime_specified = bq_runtime_specified input, bi_workflow = workflow,
                            bi_workflow_specified = bq_workflow_specified input, bi_rebuild = bq_rebuild input\<rparr>)))))"

definition build_fingerprint :: "build_input \<Rightarrow> digest" where
  "build_fingerprint n = sum256 (json_object
     (json_field ''operation'' (json_string ''build'') @
      json_field ''references'' (json_array (map (json_string \<circ> nb_reference) (bi_references n))) @
      json_field ''repository_specified'' (json_bool (bi_repository_specified n)) @
      json_field ''repository'' (json_string (bi_repository n)) @
      json_field ''runtime_specified'' (json_bool (bi_runtime_specified n)) @
      json_field ''runtime'' (json_string (bi_runtime n)) @
      json_field ''workflow_specified'' (json_bool (bi_workflow_specified n)) @
      json_field ''workflow'' (json_string (bi_workflow n)) @
      json_field ''rebuild'' (json_bool (bi_rebuild n))))"

definition canonical_build_request ::
  "(string \<Rightarrow> bool) \<Rightarrow> (string \<Rightarrow> string) \<Rightarrow> build_request \<Rightarrow> string + (build_request \<times> build_input \<times> digest)" where
  "canonical_build_request printable lower input =
     (case normalize_build_request printable lower input of
        Inl e \<Rightarrow> Inl e
      | Inr n \<Rightarrow> Inr (\<lparr>bq_request_key = trim_space (bq_request_key input), bq_references = map nb_reference (bi_references n),
          bq_repository = bi_repository n, bq_repository_specified = bi_repository_specified n, bq_runtime = bi_runtime n,
          bq_runtime_specified = bi_runtime_specified n, bq_workflow = bi_workflow n,
          bq_workflow_specified = bi_workflow_specified n, bq_rebuild = bi_rebuild n\<rparr>, n, build_fingerprint n))"

end
