(* ===== verification/Builds.thy ===== *)
theory Builds
  imports Build_References
begin

text \<open>
  The admission of Builds (build.go): a request that names work items is resolved to managed repositories, each work item
  that has no open Work gets Work of its own, and a rebuild links it to the Work it does again. The default runtime, the
  titles that the intake of issues knows, and the workflows it has selected are arguments, as is the source of workflow files.
\<close>

subsection \<open>Targets\<close>

definition max_source_title_bytes :: nat where "max_source_title_bytes = 1024"
definition standard_build_timeout_seconds :: nat where "standard_build_timeout_seconds = 7200"
definition standard_build_concurrency_limit :: nat where "standard_build_concurrency_limit = 10"

record build_target =
  bt_reference :: normalized_build_reference
  bt_repository :: task_repository
  bt_target_key :: string
  bt_predecessor :: string
  bt_source_title :: string

fun resolve_build_targets :: "db \<Rightarrow> string list \<Rightarrow> normalized_build_reference list \<Rightarrow> build_target list result" where
  "resolve_build_targets d seen [] = Inr []"
| "resolve_build_targets d seen (r # rs) =
     (case find_managed_repository d (nb_repository_identity r) of
        None \<Rightarrow> Inl (not_in_catalog (nb_repository_identity r))
      | Some x \<Rightarrow>
          let key = rp_id x @ '':'' @ nb_source_kind r @ '':'' @ nb_source_key r in
          if key \<in> set seen
          then Inl (conflict ''duplicate_build_target'' (''reference '' @ nb_reference r @ '' appears more than once in this Build''))
          else and_then (resolve_build_targets d (key # seen) rs) (\<lambda>ts. Inr (
            \<lparr>bt_reference = r, bt_repository = \<lparr>tr_id = rp_id x, tr_remote_identity = rp_remote_identity x\<rparr>, bt_target_key = key,
             bt_predecessor = '''', bt_source_title = ''''\<rparr> # ts)))"

text \<open>Work of the same source in the same repository.\<close>

definition source_work :: "ident \<Rightarrow> string \<Rightarrow> string \<Rightarrow> session \<Rightarrow> bool" where
  "source_work repository_id kind key s \<longleftrightarrow>
     ss_repository_id s = repository_id \<and> tg_source_kind (ss_target s) = kind \<and> tg_source_key (ss_target s) = key"

fun select_build_predecessors :: "db \<Rightarrow> bool \<Rightarrow> build_target list \<Rightarrow> build_target list result" where
  "select_build_predecessors d rebuild [] = Inr []"
| "select_build_predecessors d rebuild (t # ts) =
     (let r = bt_reference t; work = source_work (tr_id (bt_repository t)) (nb_source_kind r) (nb_source_key r) in
      case latest_work (\<lambda>s. work s \<and> session_nonterminal (ss_state s)) d of
        Some s \<Rightarrow> Inl (conflict ''duplicate_build_active'' (''matching Work '' @ ss_id s @ '' is still nonterminal''))
      | None \<Rightarrow>
          (case latest_work (\<lambda>s. work s \<and> replaceable (ss_state s) \<and> \<not> has_successor d s) d of
             None \<Rightarrow>
               if rebuild
               then Inl (conflict ''rebuild_predecessor_not_found''
                 (''reference '' @ nb_reference r @ '' has no terminal predecessor to rebuild''))
               else and_then (select_build_predecessors d rebuild ts) (\<lambda>ts. Inr (t # ts))
           | Some s \<Rightarrow>
               if \<not> rebuild
               then Inl (conflict ''rebuild_required''
                 (''reference '' @ nb_reference r @ '' was already built; use --rebuild with a new request key''))
               else and_then (select_build_predecessors d rebuild ts) (\<lambda>ts. Inr (t\<lparr>bt_predecessor := ss_id s\<rparr> # ts))))"

definition title_build_targets :: "(string \<rightharpoonup> string) \<Rightarrow> build_target list \<Rightarrow> build_target list result" where
  "title_build_targets titles ts =
     (let ts = map (\<lambda>t. t\<lparr>bt_source_title := coalesce (titles (nb_reference (bt_reference t))) ''''\<rparr>) ts in
      if list_ex (\<lambda>t. max_source_title_bytes < length (bt_source_title t)) ts
      then Inl (invalid ''invalid_source_title'' ''source title exceeds 1024 bytes'')
      else Inr ts)"

text \<open>The repositories of the targets, each at its first place.\<close>

definition build_repositories :: "build_target list \<Rightarrow> task_repository list" where
  "build_repositories ts = foldl (\<lambda>rs t. if tr_id (bt_repository t) \<in> tr_id ` set rs then rs else rs @ [bt_repository t]) [] ts"

subsection \<open>The plan of a Build\<close>

definition build_snapshot :: "string \<Rightarrow> outcome_contract \<Rightarrow> pipeline_snapshot \<Rightarrow> build_target list \<Rightarrow> workflow_snapshot \<Rightarrow> task_snapshot" where
  "build_snapshot runtime contract p ts workflow =
     \<lparr>ts_id = standard_build_procedure_id, ts_name = ''standard-build'', ts_prompt = standard_build_prompt, ts_runtime = runtime,
      ts_execution_profile_id = persistent_auto_profile_id, ts_workflow_id = wf_id workflow,
      ts_timeout_seconds = standard_build_timeout_seconds, ts_concurrency_limit = standard_build_concurrency_limit,
      ts_generation = 1, ts_outcome_contract = contract, ts_workflow = workflow, ts_repository_workflows = [], ts_pipeline = p,
      ts_repositories = build_repositories ts, ts_schedule_cron = '''', ts_schedule_timezone = ''''\<rparr>"

definition build_execution :: "string \<Rightarrow> execution_snapshot" where
  "build_execution runtime =
     \<lparr>es_profile_id = persistent_auto_profile_id, es_profile_version = 1, es_backend = BackendPersistent, es_runtime = runtime,
      es_provider = ''worker'', es_model = ''worker-default'', es_timeout_seconds = standard_build_timeout_seconds,
      es_resource_class = ''worker'', es_commit_resolution_policy = commit_resolve_per_attempt\<rparr>"

definition build_workflow_snapshot ::
  "(string \<Rightarrow> bool) \<Rightarrow> db \<Rightarrow> (ident \<rightharpoonup> workflow_snapshot) \<Rightarrow> ident \<Rightarrow> string \<Rightarrow> workflow_snapshot result" where
  "build_workflow_snapshot printable d selected repository_id workflow_id =
     (case selected repository_id of
        Some w \<Rightarrow>
          if wf_id w \<noteq> workflow_id
          then Inl (conflict ''workflow_selection_conflict'' ''the selected repository workflow does not match the Build request'')
          else Inr w
      | None \<Rightarrow> load_workflow_snapshot printable d repository_id workflow_id)"

text \<open>What the intake of GitHub issues adds to a request: titles of references and workflows of repositories.\<close>

record build_context =
  bc_contract :: outcome_contract
  bc_titles :: "(string \<times> string) list"
  bc_workflows :: "(ident \<times> workflow_snapshot) list"

definition build_workflow_id :: "build_input \<Rightarrow> string" where
  "build_workflow_id n = (if bi_workflow n = '''' then workflow_fallback else bi_workflow n)"

definition build_plan ::
  "(string \<Rightarrow> bool) \<Rightarrow> string \<Rightarrow> build_context \<Rightarrow> db \<Rightarrow> build_input \<Rightarrow> (task_snapshot \<times> build_target list \<times> execution_snapshot) result" where
  "build_plan printable default_runtime context d n =
     (let runtime = (if bi_runtime_specified n then bi_runtime n else default_runtime) in
      if \<not> supported_runtime runtime
      then Inl (invalid ''invalid_runtime'' ''runtime must be one of pi, codex, claude-code'')
      else
        and_then (resolve_build_targets d [] (bi_references n)) (\<lambda>ts.
        and_then (select_build_predecessors d (bi_rebuild n) ts) (\<lambda>ts.
        and_then (title_build_targets (map_of (bc_titles context)) ts) (\<lambda>ts.
        and_then (load_pipeline_snapshot d default_pipeline_id) (\<lambda>p.
        and_then (if ts = [] then Inr (no_workflow\<lparr>wf_id := workflow_fallback\<rparr>)
                  else build_workflow_snapshot printable d (map_of (bc_workflows context)) (tr_id (bt_repository (hd ts))) (build_workflow_id n))
          (\<lambda>workflow. Inr (build_snapshot runtime (bc_contract context) p ts workflow, ts, build_execution runtime)))))))"

subsection \<open>Admission\<close>

definition build_run_target :: "ident \<Rightarrow> nat \<Rightarrow> build_target \<Rightarrow> run_target" where
  "build_run_target w position t =
     \<lparr>tg_position = position, tg_target_key = bt_target_key t, tg_target_kind = ''work_item'',
      tg_source_kind = nb_source_kind (bt_reference t), tg_source_key = nb_source_key (bt_reference t),
      tg_source_reference = nb_reference (bt_reference t), tg_source_title = bt_source_title t, tg_context_snapshot = '''',
      tg_publish_branch = work_publish_branch w,
      rg_id = w, rg_repository_id = tr_id (bt_repository t), rg_repository_identity = tr_remote_identity (bt_repository t)\<rparr>"

definition blank_line :: string where "blank_line = [CHR 10, CHR 10]"

definition resolve_standard_build_prompt :: "run_target \<Rightarrow> workflow_snapshot \<Rightarrow> string" where
  "resolve_standard_build_prompt target workflow =
     standard_build_prompt @
     (if wf_id workflow \<noteq> workflow_fallback \<or> wf_instructions workflow \<noteq> standard_build_prompt
      then blank_line @ ''Trusted repository workflow '' @ wf_id workflow @ '' ('' @ wf_path workflow @ '' @ '' @ wf_commit_sha workflow @
        ''):'' @ blank_line @ wf_instructions workflow
      else '''') @
     blank_line @ ''Untrusted work-item context:'' @ blank_line @
     ''Repository: '' @ rg_repository_identity target @ [CHR 10] @
     ''Reference: '' @ tg_source_reference target @ [CHR 10] @
     ''Source kind: '' @ tg_source_kind target @ [CHR 10] @
     ''Factory publish branch: '' @ tg_publish_branch target"

definition admit_build_target ::
  "(string \<Rightarrow> bool) \<Rightarrow> (ident \<rightharpoonup> workflow_snapshot) \<Rightarrow> string \<Rightarrow> admission \<Rightarrow> nat \<Rightarrow> build_target \<Rightarrow> nat \<Rightarrow> db \<Rightarrow>
   ((run_target \<times> bool) \<times> db) result" where
  "admit_build_target printable selected workflow_id am position t materialized d =
     (let target = build_run_target (ai_work (am_ids am) position) position t in
      and_then (build_workflow_snapshot printable d selected (tr_id (bt_repository t)) workflow_id) (\<lambda>workflow.
      let prompt = resolve_standard_build_prompt target workflow in
      and_then (resolve_session_stages (am_snapshot am) prompt (ai_run (am_ids am)) target) (\<lambda>stages.
      and_then (route_target am task_concurrency_blocked_reason (bt_repository t) materialized d) (\<lambda>((reason, worker), d1).
        insert_successor am target workflow prompt stages (bt_predecessor t) reason worker d1))))"

definition build_key_conflict :: service_error where
  "build_key_conflict = conflict ''request_key_conflict'' ''request_key was already used with different Build inputs''"

definition admit_build_tx ::
  "(string \<Rightarrow> bool) \<Rightarrow> string \<Rightarrow> build_context \<Rightarrow> int \<Rightarrow> admission_ids \<Rightarrow> db \<Rightarrow> string \<Rightarrow> build_input \<Rightarrow> digest \<Rightarrow>
   ((admission_result \<times> ident) \<times> db) result"
where
  "admit_build_tx printable default_runtime context now ids d key n fingerprint =
     (case find_run_by_key d key of
        Some r \<Rightarrow> if run_request_digest r \<noteq> fingerprint then Inl build_key_conflict else Inr ((AdmissionReplayed, run_id r), d)
      | None \<Rightarrow>
          and_then (build_plan printable default_runtime context d n) (\<lambda>(t, targets, e).
          let am = \<lparr>am_now = unix_milli now, am_ids = ids, am_snapshot = t, am_execution = e, am_prompt = ts_prompt t,
            am_profile_ready = True, am_profile_reason = ''''\<rparr> in
          and_then (admit_fleet am (admit_build_target printable (map_of (bc_workflows context)) (build_workflow_id n) am) key
              fingerprint targets d) (\<lambda>(i, d1).
            Inr ((AdmissionAdmitted, i), d1))))"

text \<open>A replay is answered before anything else is read; \<open>None\<close> where the key is new.\<close>

definition replay_build :: "int \<Rightarrow> db \<Rightarrow> string \<Rightarrow> digest \<Rightarrow> build_admission option result" where
  "replay_build now d key fingerprint =
     (case find_run_by_key d key of
        None \<Rightarrow> Inr None
      | Some r \<Rightarrow>
          if run_request_digest r \<noteq> fingerprint then Inl build_key_conflict
          else and_then (run_reply now d (run_id r)) (\<lambda>v.
            Inr (Some \<lparr>ba_result = AdmissionReplayed, ba_request_key = key, ba_run = v\<rparr>)))"

text \<open>The catalogs of the repositories that the references name are refreshed, each once.\<close>

fun refresh_build_workflows ::
  "workflow_runtime \<Rightarrow> workflow_source \<Rightarrow> int \<Rightarrow> string list \<Rightarrow> normalized_build_reference list \<Rightarrow> db \<Rightarrow> service_error option \<times> db" where
  "refresh_build_workflows rt files now seen [] d = (None, d)"
| "refresh_build_workflows rt files now seen (r # rs) d =
     (let identity = nb_repository_identity r in
      if identity \<in> set seen then refresh_build_workflows rt files now seen rs d
      else (case find_managed_repository d identity of
          None \<Rightarrow> (Some (not_in_catalog identity), d)
        | Some x \<Rightarrow>
            (case refresh_repository_workflow_catalog rt (Some files) now d (rp_id x) of
               ((_, Some e), d1) \<Rightarrow> (Some e, d1)
             | ((_, None), d1) \<Rightarrow> refresh_build_workflows rt files now (identity # seen) rs d1)))"

definition refresh_before_build ::
  "workflow_runtime \<Rightarrow> workflow_source option \<Rightarrow> build_context \<Rightarrow> int \<Rightarrow> build_input \<Rightarrow> db \<Rightarrow> service_error option \<times> db" where
  "refresh_before_build rt source context now n d =
     (case source of
        Some files \<Rightarrow> if bc_workflows context = [] then refresh_build_workflows rt files now [] (bi_references n) d else (None, d)
      | None \<Rightarrow> (None, d))"

definition admit_build_with ::
  "workflow_runtime \<Rightarrow> workflow_source option \<Rightarrow> string \<Rightarrow> build_context \<Rightarrow> int \<Rightarrow> admission_ids \<Rightarrow> db \<Rightarrow> build_request \<Rightarrow>
   build_admission result \<times> db"
where
  "admit_build_with rt source default_runtime context now ids d input =
     (case canonical_build_request (wt_printable rt) (wt_lower rt) input of
        Inl e \<Rightarrow> (Inl (invalid ''invalid_build'' e), d)
      | Inr (request, n, fingerprint) \<Rightarrow>
          let key = bq_request_key request in
          if key = '''' \<or> 200 < length key
          then (Inl (invalid ''invalid_request_key'' ''request_key is required and limited to 200 bytes''), d)
          else if prefix ''schedule:'' key
          then (Inl (invalid ''reserved_request_key'' ''request_key uses a reserved internal prefix''), d)
          else (case replay_build now d key fingerprint of
              Inl e \<Rightarrow> (Inl e, d)
            | Inr (Some v) \<Rightarrow> (Inr v, d)
            | Inr None \<Rightarrow>
                (case refresh_before_build rt source context now n d of
                   (Some e, d1) \<Rightarrow> (Inl e, d1)
                 | (None, d1) \<Rightarrow>
                     committed d1 (admit_build_tx (wt_printable rt) default_runtime context now ids d1 key n fingerprint)
                       (\<lambda>d' (outcome, i). and_then (run_reply now d' i) (\<lambda>v.
                         Inr \<lparr>ba_result = outcome, ba_request_key = key, ba_run = v\<rparr>)))))"

text \<open>The operator's Build, and the two that the intake of GitHub issues admits. Their request names one reference.\<close>

definition admit_build ::
  "workflow_runtime \<Rightarrow> workflow_source option \<Rightarrow> string \<Rightarrow> int \<Rightarrow> admission_ids \<Rightarrow> db \<Rightarrow> build_request \<Rightarrow> build_admission result \<times> db"
where
  "admit_build rt source default_runtime =
     admit_build_with rt source default_runtime \<lparr>bc_contract = OutcomeAgentUpdate, bc_titles = [], bc_workflows = []\<rparr>"

definition admit_github_issue_build ::
  "workflow_runtime \<Rightarrow> workflow_source option \<Rightarrow> string \<Rightarrow> int \<Rightarrow> admission_ids \<Rightarrow> db \<Rightarrow> build_request \<Rightarrow> string \<Rightarrow>
   build_admission result \<times> db"
where
  "admit_github_issue_build rt source default_runtime now ids d input title =
     admit_build_with rt source default_runtime
       \<lparr>bc_contract = OutcomeProcessExit, bc_titles = [(hd (bq_references input), title)], bc_workflows = []\<rparr> now ids d input"

definition admit_github_issue_build_with_workflow ::
  "workflow_runtime \<Rightarrow> workflow_source option \<Rightarrow> string \<Rightarrow> int \<Rightarrow> admission_ids \<Rightarrow> db \<Rightarrow> build_request \<Rightarrow> string \<Rightarrow> ident \<Rightarrow>
   repository_workflow \<Rightarrow> build_admission result \<times> db"
where
  "admit_github_issue_build_with_workflow rt source default_runtime now ids d input title repository_id workflow =
     admit_build_with rt source default_runtime
       \<lparr>bc_contract = OutcomeProcessExit, bc_titles = [(hd (bq_references input), title)],
        bc_workflows = [(repository_id, workflow_snapshot_view workflow)]\<rparr> now ids d input"

subsection \<open>Builds add Work as fleets do\<close>

definition builds_target :: "build_target \<Rightarrow> session \<Rightarrow> bool" where
  "builds_target t s \<longleftrightarrow> ss_repository_id s = tr_id (bt_repository t) \<and> ss_predecessor_work_id s = null_string (bt_predecessor t) \<and>
     (\<exists>w position. ss_target s = work_target.truncate (build_run_target w position t))"

lemma admit_build_target_adds:
  assumes "admit_build_target printable selected workflow_id am position t m d = Inr ((target, queued), d')"
  shows "\<exists>s. adds_work am position m queued d d' s \<and> builds_target t s"
proof -
  let ?target = "build_run_target (ai_work (am_ids am) position) position t"
  from assms obtain workflow prompt stages reason worker d1 where
    route: "route_target am task_concurrency_blocked_reason (bt_repository t) m d = Inr ((reason, worker), d1)"
    and row: "insert_successor am ?target workflow prompt stages (bt_predecessor t) reason worker d1 = Inr ((target, queued), d')"
    by (auto simp: admit_build_target_def Let_def and_then_Inr)
  have "adds_work am position m queued d d' ((admitted_session am ?target workflow prompt reason worker)
      \<lparr>ss_predecessor_work_id := null_string (bt_predecessor t)\<rparr>)"
    by (rule insert_successor_adds [OF row route_target_same [OF route] _ _ route_target_limit [OF route], THEN conjunct2])
      (simp_all add: build_run_target_def)
  moreover have "builds_target t ((admitted_session am ?target workflow prompt reason worker)
      \<lparr>ss_predecessor_work_id := null_string (bt_predecessor t)\<rparr>)"
    unfolding builds_target_def by (auto simp: admitted_session_def build_run_target_def)
  ultimately show ?thesis by blast
qed

interpretation build_work: work_adder am "admit_build_target printable selected workflow_id am" builds_target
  for am printable selected workflow_id
  by unfold_locales (rule admit_build_target_adds)

subsection \<open>What the plan of a Build says of its targets\<close>

definition build_target_key :: "ident \<Rightarrow> normalized_build_reference \<Rightarrow> string" where
  "build_target_key i r = i @ '':'' @ nb_source_kind r @ '':'' @ nb_source_key r"

definition target_source :: "build_target \<Rightarrow> session \<Rightarrow> bool" where
  "target_source t = source_work (tr_id (bt_repository t)) (nb_source_kind (bt_reference t)) (nb_source_key (bt_reference t))"

definition resolved_target :: "db \<Rightarrow> normalized_build_reference \<Rightarrow> build_target \<Rightarrow> bool" where
  "resolved_target d r t \<longleftrightarrow>
     bt_reference t = r \<and> bt_target_key t = build_target_key (tr_id (bt_repository t)) r \<and>
     (\<exists>x \<in> set (repositories d). rp_centrally_managed x \<and> rp_enabled x \<and> bt_repository t = repository_of_target x \<and>
        to_lower_ascii (rp_remote_identity x) = to_lower_ascii (nb_repository_identity r))"

text \<open>No Work of the source is open; a rebuild follows ended Work that nothing follows, and only a rebuild may.\<close>

definition free_target :: "db \<Rightarrow> bool \<Rightarrow> build_target \<Rightarrow> bool" where
  "free_target d rebuild t \<longleftrightarrow>
     (\<forall>s \<in> set (sessions d). target_source t s \<longrightarrow> \<not> session_nonterminal (ss_state s)) \<and>
     (if rebuild
      then \<exists>p \<in> set (sessions d). bt_predecessor t = ss_id p \<and> target_source t p \<and> replaceable (ss_state p) \<and> \<not> has_successor d p
      else bt_predecessor t = '''' \<and> (\<forall>p \<in> set (sessions d). target_source t p \<longrightarrow> has_successor d p))"

lemma resolve_build_targets_Inr:
  "resolve_build_targets d seen rs = Inr ts \<Longrightarrow>
   list_all2 (resolved_target d) rs ts \<and> distinct (map bt_target_key ts) \<and> set (map bt_target_key ts) \<inter> set seen = {} \<and>
   (\<forall>t \<in> set ts. bt_predecessor t = '''')"
proof (induction rs arbitrary: seen ts)
  case (Cons r rs)
  from Cons.prems obtain x ts1 where x: "find_managed_repository d (nb_repository_identity r) = Some x"
    "build_target_key (rp_id x) r \<notin> set seen"
    and rest: "resolve_build_targets d (build_target_key (rp_id x) r # seen) rs = Inr ts1"
    and ts: "ts = \<lparr>bt_reference = r, bt_repository = repository_of_target x, bt_target_key = build_target_key (rp_id x) r,
             bt_predecessor = '''', bt_source_title = ''''\<rparr> # ts1"
    by (auto simp: Let_def and_then_Inr build_target_key_def repository_of_target_def split: option.splits if_splits)
  have "resolved_target d r (hd ts)"
    using x(1) by (auto simp: ts resolved_target_def repository_of_target_def find_managed_repository_def dest!: find_Some_set)
  with Cons.IH [OF rest] x(2) show ?case by (auto simp: ts)
qed simp

lemma ended_is_replaceable: "\<not> session_nonterminal st \<longleftrightarrow> replaceable st"
  by (cases st) (auto simp: replaceable_def state_predicates)

definition same_target :: "build_target \<Rightarrow> build_target \<Rightarrow> bool" where
  "same_target t t' \<longleftrightarrow> bt_reference t' = bt_reference t \<and> bt_repository t' = bt_repository t \<and> bt_target_key t' = bt_target_key t"

lemma select_build_predecessors_Cons:
  assumes "select_build_predecessors d rebuild (t # ts) = Inr ts'"
  shows "latest_work (\<lambda>s. target_source t s \<and> session_nonterminal (ss_state s)) d = None \<and>
    (\<exists>ts1. select_build_predecessors d rebuild ts = Inr ts1 \<and>
       (case latest_work (\<lambda>s. target_source t s \<and> replaceable (ss_state s) \<and> \<not> has_successor d s) d of
          None \<Rightarrow> \<not> rebuild \<and> ts' = t # ts1
        | Some s \<Rightarrow> rebuild \<and> ts' = t\<lparr>bt_predecessor := ss_id s\<rparr> # ts1))"
  using assms by (auto simp: Let_def target_source_def and_then_Inr split: option.splits if_splits)

lemma select_build_predecessors_Inr:
  "select_build_predecessors d rebuild ts = Inr ts' \<Longrightarrow> (\<forall>t \<in> set ts. bt_predecessor t = '''') \<Longrightarrow>
   list_all2 same_target ts ts' \<and> (\<forall>t \<in> set ts'. free_target d rebuild t)"
proof (induction ts arbitrary: ts')
  case (Cons t ts)
  let ?ended = "\<lambda>s. target_source t s \<and> replaceable (ss_state s) \<and> \<not> has_successor d s"
  from select_build_predecessors_Cons [OF Cons.prems(1)] obtain ts1 where
    none: "\<forall>s \<in> set (sessions d). target_source t s \<longrightarrow> \<not> session_nonterminal (ss_state s)"
    and rest: "select_build_predecessors d rebuild ts = Inr ts1"
    and ts': "case latest_work ?ended d of None \<Rightarrow> \<not> rebuild \<and> ts' = t # ts1
        | Some s \<Rightarrow> rebuild \<and> ts' = t\<lparr>bt_predecessor := ss_id s\<rparr> # ts1"
    by (auto simp: latest_work_None)
  have ih: "list_all2 same_target ts ts1" "\<forall>t \<in> set ts1. free_target d rebuild t"
    using Cons.IH [OF rest] Cons.prems(2) by simp_all
  show ?case
  proof (cases "latest_work ?ended d")
    case None
    with ts' have ts1: "\<not> rebuild" "ts' = t # ts1" by simp_all
    have "free_target d rebuild t"
      using None none Cons.prems(2) ts1(1) by (auto simp: free_target_def latest_work_None ended_is_replaceable)
    moreover have "same_target t t" by (simp add: same_target_def)
    ultimately show ?thesis using ts1(2) ih by simp
  next
    case (Some s)
    with ts' have ts1: rebuild "ts' = t\<lparr>bt_predecessor := ss_id s\<rparr> # ts1" by simp_all
    have "free_target d rebuild (t\<lparr>bt_predecessor := ss_id s\<rparr>)"
      using latest_work_Some [OF Some] none ts1(1) by (auto simp: free_target_def target_source_def)
    moreover have "same_target t (t\<lparr>bt_predecessor := ss_id s\<rparr>)" by (simp add: same_target_def)
    ultimately show ?thesis using ts1(2) ih by simp
  qed
qed simp

definition planned_target :: "db \<Rightarrow> bool \<Rightarrow> normalized_build_reference \<Rightarrow> build_target \<Rightarrow> bool" where
  "planned_target d rebuild r t \<longleftrightarrow> resolved_target d r t \<and> free_target d rebuild t"

lemma planned_targetsI:
  assumes "list_all2 (resolved_target d) rs ts" "list_all2 same_target ts ts1"
    "\<forall>t \<in> set ts1. free_target d rebuild t"
    and ts2: "ts2 = map (\<lambda>t. t\<lparr>bt_source_title := title t\<rparr>) ts1"
  shows "list_all2 (planned_target d rebuild) rs ts2" "map bt_target_key ts2 = map bt_target_key ts"
proof -
  have len: "length rs = length ts" "length ts = length ts1" using assms(1,2) by (simp_all add: list_all2_lengthD)
  have same: "same_target (ts ! k) (ts1 ! k)" "resolved_target d (rs ! k) (ts ! k)" if "k < length ts1" for k
    using assms(1,2) that len by (simp_all add: list_all2_conv_all_nth)
  show "map bt_target_key ts2 = map bt_target_key ts"
    by (rule nth_equalityI) (use same(1) len in \<open>simp_all add: ts2 same_target_def\<close>)
  have "planned_target d rebuild (rs ! k) (ts2 ! k)" if "k < length ts1" for k
  proof -
    have "resolved_target d (rs ! k) (ts2 ! k)"
      using same [OF that] that unfolding resolved_target_def same_target_def ts2 by simp
    moreover have "free_target d rebuild (ts1 ! k)" using assms(3) that by simp
    moreover have "free_target d rebuild (ts2 ! k) = free_target d rebuild (ts1 ! k)"
      using that unfolding free_target_def target_source_def by (simp add: ts2)
    ultimately show ?thesis by (simp add: planned_target_def)
  qed
  then show "list_all2 (planned_target d rebuild) rs ts2" using len by (simp add: list_all2_conv_all_nth ts2)
qed

lemma build_plan_Inr:
  assumes "build_plan printable default_runtime context d n = Inr (t, targets, e)"
  shows "list_all2 (planned_target d (bi_rebuild n)) (bi_references n) targets" "distinct (map bt_target_key targets)"
    "ts_concurrency_limit t = standard_build_concurrency_limit" "ts_id t = standard_build_procedure_id"
    "ts_outcome_contract t = bc_contract context"
proof -
  from assms obtain ts ts1 p workflow where ts: "resolve_build_targets d [] (bi_references n) = Inr ts"
    "select_build_predecessors d (bi_rebuild n) ts = Inr ts1" "title_build_targets (map_of (bc_titles context)) ts1 = Inr targets"
    and t: "t = build_snapshot (ts_runtime t) (bc_contract context) p targets workflow"
    by (auto simp: build_plan_def Let_def and_then_Inr build_snapshot_def split: if_splits)
  note r = resolve_build_targets_Inr [OF ts(1)]
  note s = select_build_predecessors_Inr [OF ts(2)]
  from ts(3) have "targets = map (\<lambda>t. t\<lparr>bt_source_title := coalesce (map_of (bc_titles context) (nb_reference (bt_reference t))) ''''\<rparr>) ts1"
    by (auto simp: title_build_targets_def Let_def split: if_splits)
  note planned = planned_targetsI [OF _ _ _ this, of d "bi_references n" ts "bi_rebuild n"]
  show "list_all2 (planned_target d (bi_rebuild n)) (bi_references n) targets" using planned(1) r s by blast
  have "map bt_target_key targets = map bt_target_key ts" using planned(2) r s by blast
  with r show "distinct (map bt_target_key targets)" by simp
  show "ts_concurrency_limit t = standard_build_concurrency_limit" "ts_id t = standard_build_procedure_id"
    "ts_outcome_contract t = bc_contract context"
    by (subst t; simp add: build_snapshot_def)+
qed

text \<open>What a Build adds is open Work of sources that had none.\<close>

lemma builds_target_source:
  assumes "builds_target t s"
  shows "work_source s = (tr_id (bt_repository t), nb_source_kind (bt_reference t), nb_source_key (bt_reference t))"
  using assms by (auto simp: builds_target_def work_source_def build_run_target_def work_target.defs)

lemma target_source_work: "target_source t s \<longleftrightarrow>
    work_source s = (tr_id (bt_repository t), nb_source_kind (bt_reference t), nb_source_key (bt_reference t))"
  by (auto simp: target_source_def source_work_def work_source_def)

lemma builds_target_items:
  assumes rows: "fleet_rows am m d d' new es" and work: "list_all2 builds_target ts new"
    and plan: "list_all2 (planned_target d rebuild) rs ts" "distinct (map bt_target_key ts)" and ok: "one_open_item d"
  shows "one_open_item d'"
proof (rule one_open_item_append [OF ok])
  show "sessions d' = sessions d @ new" using rows by (auto simp: fleet_rows_def)
  have planned: "\<exists>r. planned_target d rebuild r t" if "t \<in> set ts" for t
    using plan(1) that by (auto simp: list_all2_conv_all_nth in_set_conv_nth)
  show "work_source s \<noteq> work_source q" if "s \<in> set new" "q \<in> set (sessions d)" "open_item q" for s q
  proof -
    obtain t where t: "t \<in> set ts" "builds_target t s" using work_of_list_all2 [OF work \<open>s \<in> set new\<close>] .
    obtain r where "planned_target d rebuild r t" using planned [OF t(1)] ..
    then have "target_source t q \<longrightarrow> \<not> session_nonterminal (ss_state q)" using \<open>q \<in> set (sessions d)\<close> by (simp add: planned_target_def free_target_def)
    then show ?thesis using builds_target_source [OF t(2)] \<open>open_item q\<close> by (auto simp: target_source_work open_item_def)
  qed
  show "ss_id s = ss_id q" if "s \<in> set new" "q \<in> set new" "work_source s = work_source q" for s q
  proof -
    obtain i j where i: "i < length new" "s = new ! i" and j: "j < length new" "q = new ! j"
      using \<open>s \<in> set new\<close> \<open>q \<in> set new\<close> by (auto simp: in_set_conv_nth)
    have len: "length ts = length new" using work by (rule list_all2_lengthD)
    have key: "bt_target_key (ts ! k) = build_target_key (tr_id (bt_repository (ts ! k))) (bt_reference (ts ! k))" if "k < length ts" for k
      using planned [OF nth_mem [OF that]] by (auto simp: planned_target_def resolved_target_def)
    have source: "work_source (new ! k) = (tr_id (bt_repository (ts ! k)), nb_source_kind (bt_reference (ts ! k)), nb_source_key (bt_reference (ts ! k)))"
      if "k < length new" for k
      by (rule builds_target_source) (use list_all2_nthD2 [OF work that] in simp)
    then have "bt_target_key (ts ! i) = bt_target_key (ts ! j)"
      using key [of i] key [of j] source [OF i(1)] source [OF j(1)] i j \<open>work_source s = work_source q\<close> by (simp add: len build_target_key_def)
    then have "i = j" using plan(2) i(1) j(1) by (auto simp: len distinct_conv_nth)
    with i j show ?thesis by simp
  qed
qed

text \<open>An accepted request and what its transaction does.\<close>

lemma refresh_build_workflows_tables:
  "refresh_build_workflows rt files now seen rs d = (e, d') \<Longrightarrow> catalog_tables_only d d'"
proof (induction rs arbitrary: seen d)
  case (Cons r rs)
  show ?case
  proof (cases "nb_repository_identity r \<in> set seen")
    case False
    show ?thesis
    proof (cases "find_managed_repository d (nb_repository_identity r)")
      case (Some x)
      obtain c f d1 where one: "refresh_repository_workflow_catalog rt (Some files) now d (rp_id x) = ((c, f), d1)" by (metis surj_pair)
      from refresh_repository_workflow_catalog_tables [OF one] Cons False Some one show ?thesis
        by (auto split: option.splits intro: catalog_tables_only_trans)
    qed (use Cons.prems False in simp)
  qed (use Cons in simp)
qed simp

lemma refresh_before_build_tables: "refresh_before_build rt source context now n d = (e, d') \<Longrightarrow> catalog_tables_only d d'"
  by (auto simp: refresh_before_build_def dest: refresh_build_workflows_tables split: option.splits if_splits)

lemma admit_build_with_cases:
  assumes "admit_build_with rt source default_runtime context now ids d input = (v, d')"
  obtains (unchanged) "d' = d"
    | (refreshed) "catalog_tables_only d d'"
    | (run) n d1 key f where "normalize_build_request (wt_printable rt) (wt_lower rt) input = Inr n" "catalog_tables_only d d1"
        "key = trim_space (bq_request_key input)"
        "committed d1 (admit_build_tx (wt_printable rt) default_runtime context now ids d1 key n (build_fingerprint n)) f = (v, d')"
proof (cases "normalize_build_request (wt_printable rt) (wt_lower rt) input")
  case (Inl e)
  then show thesis using assms unchanged by (simp add: admit_build_with_def canonical_build_request_def)
next
  case (Inr n)
  let ?key = "trim_space (bq_request_key input)"
  show thesis
  proof (cases "replay_build now d ?key (build_fingerprint n) = Inr None \<and> \<not> (?key = '''' \<or> 200 < length ?key \<or> prefix ''schedule:'' ?key)")
    case False
    then show thesis using assms unchanged
      by (auto simp: admit_build_with_def canonical_build_request_def Inr Let_def split: sum.splits option.splits if_splits)
  next
    case True
    obtain e d1 where e: "refresh_before_build rt source context now n d = (e, d1)" by (cases "refresh_before_build rt source context now n d")
    note tables = refresh_before_build_tables [OF e]
    show thesis
    proof (cases e)
      case None
      then show thesis using assms True e run [OF Inr tables refl]
        by (simp add: admit_build_with_def canonical_build_request_def Inr Let_def)
    next
      case (Some x)
      then show thesis using assms True e refreshed tables
        by (simp add: admit_build_with_def canonical_build_request_def Inr Let_def)
    qed
  qed
qed

lemma admit_build_tx_Inr:
  assumes "admit_build_tx printable default_runtime context now ids d key n fingerprint = Inr ((outcome, i), d')"
  obtains (again) r where "find_run_by_key d key = Some r" "outcome = AdmissionReplayed" "d' = d"
    | (new) t targets e am where "find_run_by_key d key = None" "outcome = AdmissionAdmitted"
      "build_plan printable default_runtime context d n = Inr (t, targets, e)" "am_snapshot am = t" "am_ids am = ids"
      "admit_fleet am (admit_build_target printable (map_of (bc_workflows context)) (build_workflow_id n) am) key fingerprint targets d =
         Inr (i, d')"
proof (cases "find_run_by_key d key")
  case None
  with assms obtain t targets e where plan: "build_plan printable default_runtime context d n = Inr (t, targets, e)"
    and run: "outcome = AdmissionAdmitted"
      "admit_fleet \<lparr>am_now = unix_milli now, am_ids = ids, am_snapshot = t, am_execution = e, am_prompt = ts_prompt t,
            am_profile_ready = True, am_profile_reason = ''''\<rparr>
          (admit_build_target printable (map_of (bc_workflows context)) (build_workflow_id n) \<lparr>am_now = unix_milli now, am_ids = ids,
            am_snapshot = t, am_execution = e, am_prompt = ts_prompt t, am_profile_ready = True, am_profile_reason = ''''\<rparr>)
          key fingerprint targets d = Inr (i, d')"
    by (auto simp: admit_build_tx_def and_then_Inr Let_def)
  show thesis by (rule new [OF None run(1) plan _ _ run(2)]) simp_all
next
  case (Some r)
  with assms show thesis by (intro again) (auto simp: admit_build_tx_def split: if_splits)
qed

lemma normalize_build_request_Inr:
  assumes "normalize_build_request printable lower input = Inr n"
  shows "bi_rebuild n = bq_rebuild input" "bi_references n \<noteq> []"
    "length (bi_references n) = length (bq_references input)" "length (bi_references n) \<le> max_work_targets"
proof -
  have "build_references printable specified repository raws = Inr rs \<Longrightarrow> length rs = length raws" for specified repository raws rs
    by (induction raws arbitrary: rs) (auto split: sum.splits)
  with assms show "length (bi_references n) = length (bq_references input)"
    by (auto simp: normalize_build_request_def split: if_splits sum.splits)
  with assms show "bi_references n \<noteq> []" "length (bi_references n) \<le> max_work_targets" "bi_rebuild n = bq_rebuild input"
    by (auto simp: normalize_build_request_def split: if_splits sum.splits)
qed

end
