(* ===== verification/Reachable.thy ===== *)
theory Reachable
  imports Lifecycle Registration Credentials Replacement Builds
begin

text \<open>
  The store as a transition system: one rule for every operation that changes it, with its reply left open. The ids
  that an operation draws are new where the operation relies on that. What is reachable from a store without Runs is
  well formed, and every execution of the store is one of the board.
\<close>

subsection \<open>Steps\<close>

inductive store_step :: "step_kind \<Rightarrow> db \<Rightarrow> db \<Rightarrow> bool" where
  heartbeats: "heartbeat now d i token = (r, d') \<Longrightarrow> store_step Reports d d'"
| starts_stage: "start_stage now position d i g = (r, d') \<Longrightarrow> store_step Reports d d'"
| completes_stage: "complete_stage now position d i h = (r, d') \<Longrightarrow> store_step Reports d d'"
| appends_events: "append_events now d i batch = (r, d') \<Longrightarrow> store_step Reports d d'"
| reports: "append_agent_update now j d i report = (r, d') \<Longrightarrow> j \<notin> wu_id ` set (work_updates d) \<Longrightarrow> store_step Reports d d'"
| starts: "start_attempt now d i start = (r, d') \<Longrightarrow> store_step Starts d d'"
| ends: "complete_attempt now d i completion = (r, d') \<Longrightarrow> store_step Ends d d'"
| sweeps: "sweep_expired now d = (r, d') \<Longrightarrow> store_step Loses d d'"
| claims: "store_claim now i x d worker request = (r, d') \<Longrightarrow> i \<notin> at_id ` set (attempts d) \<Longrightarrow>
    x \<notin> ex_id ` set (executions d) \<Longrightarrow> store_step Claims d d'"
| enables: "set_managed_repository_enabled now d i enabled = (r, d') \<Longrightarrow> store_step Disables d d'"
| cancels_run: "cancel_run now d i = (r, d') \<Longrightarrow> store_step Cancels d d'"
| cancels_work: "cancel_session now d i w = (r, d') \<Longrightarrow> store_step Cancels d d'"
| retries: "retry_session now x d i w = (r, d') \<Longrightarrow> x \<notin> ex_id ` set (executions d) \<Longrightarrow> store_step Retries d d'"
| answers: "answer_work now j x d w answer = (r, d') \<Longrightarrow> x \<notin> ex_id ` set (executions d) \<Longrightarrow> store_step Answers d d'"
| runs_task: "run_task printable now ids d i key profile = (r, d') \<Longrightarrow> fresh_admission ids d \<Longrightarrow> store_step Admits d d'"
| admits_occurrence: "admit_occurrence printable now ids d i due snapshot = (r, d') \<Longrightarrow> fresh_admission ids d \<Longrightarrow>
    store_step Admits d d'"
| registers: "register_worker lower equal_fold now rids d i registration = (r, d') \<Longrightarrow> store_step Plans d d'"
| worker_heartbeats: "heartbeat_worker now d i = (r, d') \<Longrightarrow> store_step Plans d d'"
| enrolls_worker: "create_worker_enrollment now j random d i = (r, d') \<Longrightarrow> store_step Plans d d'"
| exchanges_enrollment: "exchange_worker_enrollment now d i token credential = (r, d') \<Longrightarrow> store_step Plans d d'"
| authenticates_worker: "authenticate_worker_credential now d credential = (r, d') \<Longrightarrow> store_step Plans d d'"
| replaces: "replace_work now pids d replacement = (r, d') \<Longrightarrow> fresh_replacement pids d \<Longrightarrow> store_step Admits d d'"
| runs_procedure: "admit_procedure_run printable lower now ids d procedure_run = (r, d') \<Longrightarrow> fresh_admission ids d \<Longrightarrow>
    store_step Admits d d'"
| admits_build: "admit_build_with wrt files runtime cx now ids d build = (r, d') \<Longrightarrow> fresh_admission ids d \<Longrightarrow>
    store_step Admits d d'"
| refreshes: "refresh_repository_workflow_catalog wrt files now d i = (r, d') \<Longrightarrow> store_step Plans d d'"
| reads_workflows: "read_workflow_catalog wrt files now d i = (r, d') \<Longrightarrow> store_step Plans d d'"
| offers_workflows: "workflow_options wrt files now d is = (r, d') \<Longrightarrow> store_step Plans d d'"
| creates_repository: "create_managed_repository now j d remote = (r, d') \<Longrightarrow> store_step Plans d d'"
| sets_intake: "set_managed_repository_issue_intake now d i enabled = (r, d') \<Longrightarrow> store_step Plans d d'"
| creates_pipeline: "create_pipeline lower now j d pipeline = (r, d') \<Longrightarrow> store_step Plans d d'"
| updates_pipeline: "update_pipeline lower now d i pipeline = (r, d') \<Longrightarrow> store_step Plans d d'"
| deletes_pipeline: "delete_pipeline d i = (r, d') \<Longrightarrow> store_step Plans d d'"
| creates_task: "create_task rt now j d task = (r, d') \<Longrightarrow> j \<notin> tk_id ` set (task_rows d) \<Longrightarrow> store_step Plans d d'"
| updates_task: "update_task rt now d i task = (r, d') \<Longrightarrow> store_step Plans d d'"
| archives_task: "set_task_archived now d i archived generation = (r, d') \<Longrightarrow> store_step Plans d d'"
| converts_task: "set_task_outcome_contract now d i contract generation = (r, d') \<Longrightarrow> store_step Plans d d'"
| claims_occurrence: "claim_due_task now d = (r, d') \<Longrightarrow> store_step Plans d d'"
| freezes: "freeze_pending_task_workflows printable d i due snapshot = (r, d') \<Longrightarrow> store_step Plans d d'"
| finishes: "finish_task_occurrence crt now d i due failure = (r, d') \<Longrightarrow> store_step Plans d d'"
| discards: "discard_task_occurrence crt now d i requested = (r, d') \<Longrightarrow> store_step Plans d d'"

text \<open>A trace is the list of the kinds of its steps.\<close>

inductive store_run :: "step_kind list \<Rightarrow> db \<Rightarrow> db \<Rightarrow> bool" where
  store_stops [intro!]: "store_run [] d d"
| store_goes: "store_step k d e \<Longrightarrow> store_run ks e f \<Longrightarrow> store_run (k # ks) d f"

inductive board_run :: "step_kind list \<Rightarrow> board \<Rightarrow> board \<Rightarrow> bool" where
  board_stops [intro!]: "board_run [] b b"
| board_goes: "board_step k b c \<Longrightarrow> board_run ks c e \<Longrightarrow> board_run (k # ks) b e"

inductive_cases store_run_elims [elim!]: "store_run [] d d'" "store_run (k # ks) d d'"
inductive_simps board_run_simps [simp]: "board_run [] b b'" "board_run (k # ks) b b'"

text \<open>A store into which nothing has been admitted; its catalog is arbitrary.\<close>

definition initial_store :: "db \<Rightarrow> bool" where
  "initial_store d \<longleftrightarrow> runs d = [] \<and> sessions d = [] \<and> executions d = [] \<and> attempts d = [] \<and> session_stages d = [] \<and>
     work_updates d = [] \<and> distinct (map tk_id (task_rows d))"

inductive reachable :: "db \<Rightarrow> bool" where
  reach_initial: "initial_store d \<Longrightarrow> reachable d"
| reach_step: "reachable d \<Longrightarrow> store_step k d d' \<Longrightarrow> reachable d'"

lemma initial_sound: "initial_store d \<Longrightarrow> sound d"
  by (simp add: initial_store_def sound_def store_ok_def core_ok_def keys_ok_def refs_ok_def lifecycle_ok_def session_rows_ok_def
      runs_ok_def history_ok_def outcome_count_def progress_count_def count_where_def)

subsection \<open>The operations on the catalog\<close>

lemma task_ids_update: "(\<And>t. tk_id (f t) = tk_id t) \<Longrightarrow> distinct (map tk_id (update_where P f ts)) = distinct (map tk_id ts)"
  by (simp add: map_update_where)

lemma good_create_repository:
  assumes "sound d" "create_managed_repository now j d remote = (r, d')"
  shows "good_step Plans d d'"
  using assms(2) unfolding create_managed_repository_def
proof (rule good_step_committed [OF _ assms(1)])
  fix x assume "create_managed_repository_tx (unix_milli now) j d remote = Inr (x, d')"
  then have "d' = d\<lparr>repositories := repositories d'\<rparr>" by (rule create_managed_repository_tables)
  then obtain rs where "d' = d\<lparr>repositories := rs\<rparr>" by blast
  then show ?thesis by (intro good_catalog [OF assms(1)]) (use soundD(5) [OF assms(1)] in \<open>simp_all add: same_work_def\<close>)
qed

lemma good_set_intake:
  assumes "sound d" "set_managed_repository_issue_intake now d i enabled = (r, d')"
  shows "good_step Plans d d'"
  by (rule good_catalog [OF assms(1)])
    (use assms(2) soundD(5) [OF assms(1)] in \<open>auto simp: set_managed_repository_issue_intake_def Let_def same_work_def split: if_splits\<close>)

lemma good_create_pipeline:
  assumes "sound d" "create_pipeline lower now j d pipeline = (r, d')"
  shows "good_step Plans d d'"
  using assms(2) unfolding create_pipeline_def
proof (rule good_step_committed [OF _ assms(1)])
  fix x assume "create_pipeline_tx lower now j d pipeline = Inr (x, d')"
  then obtain ps qs where "d' = d\<lparr>pipelines := ps, pipeline_stages := qs\<rparr>"
    by (auto simp: create_pipeline_tx_def and_then_Inr Let_def replace_pipeline_stages_def split: if_splits)
  then show ?thesis by (intro good_catalog [OF assms(1)]) (use soundD(5) [OF assms(1)] in \<open>simp_all add: same_work_def\<close>)
qed

lemma good_update_pipeline:
  assumes "sound d" "update_pipeline lower now d i pipeline = (r, d')"
  shows "good_step Plans d d'"
  using assms(2) unfolding update_pipeline_def
proof (rule good_step_committed [OF _ assms(1)])
  fix x assume "update_pipeline_tx lower now d i pipeline = Inr (x, d')"
  then obtain ps qs where "d' = d\<lparr>pipelines := ps, pipeline_stages := qs\<rparr>"
    by (auto simp: update_pipeline_tx_def and_then_Inr Let_def replace_pipeline_stages_def split: if_splits)
  then show ?thesis by (intro good_catalog [OF assms(1)]) (use soundD(5) [OF assms(1)] in \<open>simp_all add: same_work_def\<close>)
qed

lemma good_delete_pipeline:
  assumes "sound d" "delete_pipeline d i = (r, d')"
  shows "good_step Plans d d'"
  using assms(2) unfolding delete_pipeline_def
proof (rule good_step_committed [OF _ assms(1)])
  fix x assume "delete_pipeline_tx d i = Inr (x, d')"
  then obtain ps qs where "d' = d\<lparr>pipelines := ps, pipeline_stages := qs\<rparr>"
    by (auto simp: delete_pipeline_tx_def and_then_Inr Let_def replace_pipeline_stages_def split: if_splits)
  then show ?thesis by (intro good_catalog [OF assms(1)]) (use soundD(5) [OF assms(1)] in \<open>simp_all add: same_work_def\<close>)
qed

lemma good_task_change:
  assumes "sound d" "d' = d\<lparr>task_rows := update_where P f (task_rows d), task_repositories := ts\<rparr>" "\<And>t. tk_id (f t) = tk_id t"
  shows "good_step Plans d d'"
  by (rule good_catalog [OF assms(1)]) (use soundD(5) [OF assms(1)] in \<open>simp_all add: assms(2,3) same_work_def task_ids_update\<close>)

lemma good_create_task:
  assumes "sound d" "create_task rt now j d task = (r, d')" "j \<notin> tk_id ` set (task_rows d)"
  shows "good_step Plans d d'"
  using assms(2) unfolding create_task_def
proof (rule good_step_committed [OF _ assms(1)])
  fix x assume "create_task_tx rt now j d task = Inr (x, d')"
  then obtain v ts where "d' = d\<lparr>task_rows := task_rows d @ [new_task_row j (unix_milli now) v], task_repositories := ts\<rparr>"
    by (auto simp: create_task_tx_def and_then_Inr replace_task_repositories_def split: if_splits)
  then show ?thesis
    by (intro good_catalog [OF assms(1)]) (use assms(3) soundD(5) [OF assms(1)] in \<open>auto simp: same_work_def new_task_row_def\<close>)
qed

lemma good_update_task:
  assumes "sound d" "update_task rt now d i task = (r, d')"
  shows "good_step Plans d d'"
  using assms(2) unfolding update_task_def
proof (rule good_step_committed [OF _ assms(1)])
  fix x assume "update_task_tx rt now d i task = Inr (x, d')"
  then obtain v c ts where
    "d' = d\<lparr>task_rows := update_where (\<lambda>x. tk_id x = i) (update_task_row (unix_milli now) v c) (task_rows d), task_repositories := ts\<rparr>"
    by (auto simp: update_task_tx_def Let_def and_then_Inr replace_task_repositories_def split: if_splits option.splits)
  then show ?thesis by (rule good_task_change [OF assms(1)]) (simp add: update_task_row_def Let_def)
qed

lemma good_task_rows:
  assumes "sound d" "d' = d\<lparr>task_rows := update_where P f (task_rows d)\<rparr>" "\<And>t. tk_id (f t) = tk_id t"
  shows "good_step Plans d d'"
  by (rule good_task_change [OF assms(1) _ assms(3), where ts = "task_repositories d"]) (simp add: assms(2))

lemma good_archive_task:
  assumes "sound d" "set_task_archived now d i archived generation = (r, d')"
  shows "good_step Plans d d'"
  using assms(2) unfolding set_task_archived_def
proof (rule good_step_committed [OF _ assms(1)])
  fix x assume "set_task_archived_tx now d i archived generation = Inr (x, d')"
  then obtain a where "d' = d\<lparr>task_rows := update_where (\<lambda>x. tk_id x = i) (archive_task_row a (unix_milli now)) (task_rows d)\<rparr>"
    by (auto simp: set_task_archived_tx_def split: if_splits option.splits)
  then show ?thesis by (rule good_task_rows [OF assms(1)]) (simp add: archive_task_row_def)
qed

lemma good_convert_task:
  assumes "sound d" "set_task_outcome_contract now d i contract generation = (r, d')"
  shows "good_step Plans d d'"
  using assms(2) unfolding set_task_outcome_contract_def
proof (rule good_step_committed [OF _ assms(1)])
  fix x assume "set_task_outcome_contract_tx now d i contract generation = Inr (x, d')"
  then consider "d' = d" | c where "d' = d\<lparr>task_rows := update_where (\<lambda>x. tk_id x = i)
      (\<lambda>x. x\<lparr>tk_outcome_contract := c, tk_generation := tk_generation x + 1, tk_updated_at := unix_milli now\<rparr>) (task_rows d)\<rparr>"
    by (auto simp: set_task_outcome_contract_tx_def and_then_Inr split: if_splits option.splits sum.splits)
  then show ?thesis by cases (use good_step_refl [OF assms(1)] good_task_rows [OF assms(1)] in simp_all)
qed

lemma good_claim_occurrence:
  assumes "sound d" "claim_due_task now d = (r, d')"
  shows "good_step Plans d d'"
  using assms(2) unfolding claim_due_task_def
proof (rule good_step_committed [OF _ assms(1)])
  fix x assume "claim_due_task_tx now d = Inr (x, d')"
  then consider "d' = d" | t :: task_row and s where
      "d' = d\<lparr>task_rows := update_where (\<lambda>y. tk_id y = tk_id t) (pend_occurrence (unix_milli now) s) (task_rows d)\<rparr>"
    by (auto simp: claim_due_task_tx_def and_then_Inr split: option.splits)
  then show ?thesis by cases (use good_step_refl [OF assms(1)] good_task_rows [OF assms(1)] in \<open>simp_all add: pend_occurrence_def\<close>)
qed

lemma good_freeze:
  assumes "sound d" "freeze_pending_task_workflows printable d i due snapshot = (r, d')"
  shows "good_step Plans d d'"
  using assms(2) unfolding freeze_pending_task_workflows_def
proof (rule good_step_committed [OF _ assms(1)])
  fix x assume "freeze_pending_task_workflows_tx printable d i due snapshot = Inr (x, d')"
  then consider "d' = d" | s where "d' = d\<lparr>task_rows := update_where (\<lambda>t. tk_id t = i \<and> tk_pending_due_at t = Some due)
      (\<lambda>t. t\<lparr>tk_pending_snapshot := Some s, tk_pending_repository_ids := []\<rparr>) (task_rows d)\<rparr>"
    by (auto simp: freeze_pending_task_workflows_tx_def Let_def and_then_Inr split: option.splits if_splits)
  then show ?thesis by cases (use good_step_refl [OF assms(1)] good_task_rows [OF assms(1)] in simp_all)
qed

lemma good_finish:
  assumes "sound d" "finish_task_occurrence crt now d i due failure = (r, d')"
  shows "good_step Plans d d'"
  using assms(2) unfolding finish_task_occurrence_def
proof (rule good_step_committed [OF _ assms(1)])
  fix x assume "finish_task_occurrence_tx crt now d i due failure = Inr (x, d')"
  then consider "d' = d" | f where "d' = d\<lparr>task_rows := update_where (\<lambda>x. tk_id x = i \<and> tk_pending_due_at x = Some due) f (task_rows d)\<rparr>"
      "\<And>t. tk_id (f t) = tk_id t"
    by (auto simp: finish_task_occurrence_tx_def Let_def and_then_Inr admitted_occurrence_def blocked_occurrence_def
        retried_occurrence_def split: option.splits if_splits)
  then show ?thesis by cases (use good_step_refl [OF assms(1)] good_task_rows [OF assms(1)] in simp_all)
qed

lemma good_discard:
  assumes "sound d" "discard_task_occurrence crt now d i requested = (r, d')"
  shows "good_step Plans d d'"
  using assms(2) unfolding discard_task_occurrence_def
proof (rule good_step_committed [OF _ assms(1)])
  fix x assume "discard_task_occurrence_tx crt now d i requested = Inr (x, d')"
  then consider "d' = d" | due n where "d' = d\<lparr>task_rows := update_where (\<lambda>x. tk_id x = i \<and> tk_pending_due_at x = Some due)
      (discarded_occurrence (unix_milli now) n) (task_rows d)\<rparr>"
    by (auto simp: discard_task_occurrence_tx_def and_then_Inr split: option.splits if_splits)
  then show ?thesis by cases (use good_step_refl [OF assms(1)] good_task_rows [OF assms(1)] in \<open>simp_all add: discarded_occurrence_def\<close>)
qed

lemma good_register_worker:
  assumes "sound d" "register_worker lower equal_fold now rids d i registration = (r, d')"
  shows "good_step Plans d d'"
proof -
  from assms(2) consider "d' = d" | n where
    "committed d (register_worker_tx (unix_milli now) rids (trim_space i) n d) (\<lambda>d' _. worker_reply now d' (trim_space i)) = (r, d')"
    by (auto simp: register_worker_def Let_def split: if_splits sum.splits)
  then show ?thesis
  proof cases
    case 2
    then show ?thesis
    proof (rule good_step_committed [OF _ assms(1)])
      fix x assume tx: "register_worker_tx (unix_milli now) rids (trim_space i) n d = Inr (x, d')"
      then have "moves_work Plans d d' \<and> keeps d d'" by (rule register_worker_tx_Inr) (simp add: keepsI)
      then show ?thesis by (rule good_keeps [OF assms(1)]) (simp_all add: register_worker_tx_ok [OF soundD(1) [OF assms(1)] tx])
    qed
  qed (simp add: good_step_refl assms(1))
qed

lemma good_heartbeat_worker:
  assumes "sound d" "heartbeat_worker now d i = (r, d')"
  shows "good_step Plans d d'"
proof -
  obtain ws where "d' = d\<lparr>workers := ws\<rparr>" using heartbeat_worker_tables [OF assms(2)] by blast
  then show ?thesis by (intro good_catalog [OF assms(1)]) (use soundD(5) [OF assms(1)] in \<open>simp_all add: same_work_def\<close>)
qed

lemma good_credentials:
  assumes "sound d" "d' = d\<lparr>worker_enrollments := worker_enrollments d', worker_credentials := worker_credentials d'\<rparr>"
  shows "good_step Plans d d'"
proof -
  obtain es cs where "d' = d\<lparr>worker_enrollments := es, worker_credentials := cs\<rparr>" using assms(2) by blast
  then show ?thesis by (intro good_catalog [OF assms(1)]) (use soundD(5) [OF assms(1)] in \<open>simp_all add: same_work_def\<close>)
qed

lemma good_enroll_worker:
  assumes "sound d" "create_worker_enrollment now j random d i = (r, d')"
  shows "good_step Plans d d'"
proof -
  obtain es where "d' = d\<lparr>worker_enrollments := es\<rparr>" using create_worker_enrollment_tables [OF assms(2)] by blast
  then show ?thesis by (intro good_credentials [OF assms(1)]) simp
qed

lemma good_exchange_enrollment:
  assumes "sound d" "exchange_worker_enrollment now d i token credential = (r, d')"
  shows "good_step Plans d d'"
  by (rule good_credentials [OF assms(1) exchange_worker_enrollment_tables [OF assms(2)]])

lemma good_authenticate_worker:
  assumes "sound d" "authenticate_worker_credential now d credential = (r, d')"
  shows "good_step Plans d d'"
proof -
  obtain cs where "d' = d\<lparr>worker_credentials := cs\<rparr>" using authenticate_worker_credential_tables [OF assms(2)] by blast
  then show ?thesis by (intro good_credentials [OF assms(1)]) simp
qed

lemma good_workflow_catalogs:
  assumes "sound d" "catalog_tables_only d d'"
  shows "good_step Plans d d'"
proof -
  obtain cs es where "d' = d\<lparr>workflow_catalogs := cs, workflow_entries := es\<rparr>" using assms(2) unfolding catalog_tables_only_def by blast
  then show ?thesis by (intro good_catalog [OF assms(1)]) (use soundD(5) [OF assms(1)] in \<open>simp_all add: same_work_def\<close>)
qed

lemmas good_refreshes =
  good_workflow_catalogs [OF _ refresh_repository_workflow_catalog_tables]
  good_workflow_catalogs [OF _ read_workflow_catalog_tables] good_workflow_catalogs [OF _ workflow_options_tables]

lemmas catalog_good =
  good_refreshes
  good_enroll_worker good_exchange_enrollment good_authenticate_worker
  good_register_worker good_heartbeat_worker
  good_create_repository good_set_intake good_create_pipeline good_update_pipeline good_delete_pipeline good_create_task
  good_update_task good_archive_task good_convert_task good_claim_occurrence good_freeze good_finish good_discard

subsection \<open>The operations on Work\<close>

lemma good_work:
  assumes "committed d tx f = (r, d')" "sound d" "\<And>x. tx = Inr (x, d') \<Longrightarrow> moves_work k d d' \<and> keeps d d'"
    "\<And>x. tx = Inr (x, d') \<Longrightarrow> store_ok d'" "\<And>x. tx = Inr (x, d') \<Longrightarrow> k = Retries \<Longrightarrow> one_open_item d \<Longrightarrow> one_open_item d'"
  shows "good_step k d d'"
  using assms(1,2) by (rule good_step_committed) (rule good_keeps [OF assms(2-5)])

lemma good_admit_task:
  assumes "sound d" "fresh_admission ids d"
    and "admit_task printable now ids d task_id source key scheduled frozen profile = (r, d')"
  shows "good_step Admits d d'"
  using assms(3) unfolding admit_task_def
  by (rule good_step_committed [OF _ assms(1)]) (rule good_admission [OF assms(1,2)])

lemma good_replace_work:
  assumes ok: "sound d" and fresh: "fresh_replacement ids d" and step: "replace_work now ids d replacement = (r, d')"
  shows "good_step Admits d d'"
proof -
  let ?key = "trim_space (pq_request_key replacement)" and ?w = "trim_space (pq_work_id replacement)"
  from step consider "d' = d"
    | f where "committed d (replace_work_tx (unix_milli now) ids d ?key ?w) f = (r, d')"
    by (auto simp: replace_work_def Let_def split: if_splits)
  then show ?thesis
  proof cases
    case 2
    then show ?thesis
    proof (rule good_step_committed [OF _ ok])
      fix x assume "replace_work_tx (unix_milli now) ids d ?key ?w = Inr (x, d')"
      then obtain outcome i where tx: "replace_work_tx (unix_milli now) ids d ?key ?w = Inr ((outcome, i), d')" by (cases x) simp
      from tx show ?thesis
      proof (cases rule: replace_work_tx_Inr)
        case again
        with ok show ?thesis by (simp add: good_step_refl)
      next
        case (new s q prompt stages worker reason es ws)
        have "board_step Admits (board_of d) (board_of d')"
          by (rule board_step_new_work) (auto simp: new(11))
        moreover have "sound d'"
          using soundD [OF ok] replace_work_tx_ok [OF soundD(1) [OF ok] fresh tx] new(1) fresh
            history_ok_frame [OF soundD(2) [OF ok], of d']
          by (auto simp: sound_def new(11) find_run_by_key_def find_None_set fresh_replacement_def)
        moreover have "one_open_item d'" if "one_open_item d"
          by (rule replacement_open_item [OF soundD(1) [OF ok] new(2,4,5) that]) (simp add: new(11))
        ultimately show ?thesis by (simp add: good_step_def)
      qed
    qed
  qed (simp add: good_step_refl ok)
qed

lemma good_admit_procedure_run:
  assumes ok: "sound d" and fresh: "fresh_admission ids d"
    and step: "admit_procedure_run printable lower now ids d request = (r, d')"
  shows "good_step Admits d d'"
proof -
  from step consider "d' = d"
    | n f key where "normalize_procedure_run_request printable lower request = Inr n"
      "committed d (admit_procedure_run_tx printable now ids d key n (procedure_run_fingerprint n)) f = (r, d')"
    by (auto simp: admit_procedure_run_def canonical_procedure_run_request_def Let_def split: sum.splits if_splits)
  then show ?thesis
  proof cases
    case (2 n f key)
    note input = normalize_procedure_run_request_Inr [OF 2(1)]
    from 2(2) show ?thesis
    proof (rule good_step_committed [OF _ ok])
      fix x assume "admit_procedure_run_tx printable now ids d key n (procedure_run_fingerprint n) = Inr (x, d')"
      then obtain outcome i where tx: "admit_procedure_run_tx printable now ids d key n (procedure_run_fingerprint n) = Inr ((outcome, i), d')"
        by (cases x) simp
      from tx show ?thesis
      proof (cases rule: admit_procedure_run_tx_Inr)
        case again
        with ok show ?thesis by (simp add: good_step_refl)
      next
        case (new t targets e ready reason am)
        have named: "ni_all_repositories n \<or> ni_repositories n \<noteq> []" using input(5) by blast
        have "fresh_admission (am_ids am) d" "targets \<noteq> []"
          using fresh new(5) procedure_plan_targets [OF new(3) named] by simp_all
        then show ?thesis by (rule procedure_work.fleet [OF new(6) ok _ new(1) _ does_target_items]) simp_all
      qed
    qed
  qed (simp add: good_step_refl ok)
qed

lemma catalog_tables_onlyD:
  assumes "catalog_tables_only d d1"
  shows "same_work d d1" "task_rows d1 = task_rows d" "sound d1 = sound d" "fresh_admission ids d1 = fresh_admission ids d"
    "board_of d1 = board_of d" "one_open_item d1 = one_open_item d" "repositories d1 = repositories d"
proof -
  obtain cs es where d1: "d1 = d\<lparr>workflow_catalogs := cs, workflow_entries := es\<rparr>" using assms unfolding catalog_tables_only_def by blast
  have same: "same_work d d1" "task_rows d1 = task_rows d" by (simp_all add: d1 same_work_def)
  then show "same_work d d1" "task_rows d1 = task_rows d" by simp_all
  have "same_work d1 d" using same(1) by (simp add: same_work_def)
  have "sound d1" if "sound d"
    using good_catalog [OF that same(1), of Plans] soundD(5) [OF that] same(2) by (simp add: good_step_def)
  moreover have "sound d" if "sound d1"
    using good_catalog [OF that \<open>same_work d1 d\<close>, of Plans] soundD(5) [OF that] same(2) by (simp add: good_step_def)
  ultimately show "sound d1 = sound d" by blast
  show "fresh_admission ids d1 = fresh_admission ids d" "board_of d1 = board_of d" "repositories d1 = repositories d"
    by (simp_all add: d1 fresh_admission_def fresh_ids_def board_of_def find_session_def)
  show "one_open_item d1 = one_open_item d" by (rule one_open_item_same) (simp add: d1)
qed

lemma good_admit_build:
  assumes ok: "sound d" and fresh: "fresh_admission ids d"
    and step: "admit_build_with wrt files runtime cx now ids d build = (r, d')"
  shows "good_step Admits d d'"
  using step
proof (cases rule: admit_build_with_cases)
  case unchanged
  with ok show ?thesis by (simp add: good_step_refl)
next
  case refreshed
  then show ?thesis using good_catalog [OF ok catalog_tables_onlyD(1) [OF refreshed]] catalog_tables_onlyD(2) [OF refreshed] soundD(5) [OF ok] by simp
next
  case (run n d1 key f)
  note same = catalog_tables_onlyD [OF run(2)]
  have ok1: "sound d1" "fresh_admission ids d1" using ok fresh same(3,4) by simp_all
  from run(4) have "good_step Admits d1 d'"
  proof (rule good_step_committed [OF _ ok1(1)])
    fix x assume "admit_build_tx (wt_printable wrt) runtime cx now ids d1 key n (build_fingerprint n) = Inr (x, d')"
    then obtain outcome i where tx: "admit_build_tx (wt_printable wrt) runtime cx now ids d1 key n (build_fingerprint n) =
        Inr ((outcome, i), d')" by (cases x) simp
    from tx show "good_step Admits d1 d'"
    proof (cases rule: admit_build_tx_Inr)
      case again
      with ok1(1) show ?thesis by (simp add: good_step_refl)
    next
      case (new t targets e am)
      note plan = build_plan_Inr [OF new(3)]
      have "fresh_admission (am_ids am) d1" "targets \<noteq> []"
        using ok1(2) new(5) plan(1) normalize_build_request_Inr(2) [OF run(1)] by auto
      then show ?thesis
        by (rule build_work.fleet [OF new(6) ok1(1) _ new(1) _ builds_target_items [OF _ _ plan(1,2)]])
    qed
  qed
  then show ?thesis by (simp add: good_step_def same(5,6))
qed

lemma good_store_step:
  assumes "store_step k d d'" "sound d"
  shows "good_step k d d'"
  using assms(1)
proof cases
  case (heartbeats now i token r)
  from heartbeats(2) show ?thesis unfolding heartbeat_def heartbeats(1)
    by (rule good_work [OF _ assms(2)]) (use soundD [OF assms(2)] heartbeat_moves heartbeat_ok in blast | simp)+
next
  case (starts_stage now position i g r)
  from starts_stage(2) show ?thesis unfolding start_stage_def starts_stage(1)
    by (rule good_work [OF _ assms(2)]) (use soundD [OF assms(2)] start_stage_moves start_stage_ok in blast | simp)+
next
  case (completes_stage now position i h r)
  from completes_stage(2) show ?thesis unfolding complete_stage_def completes_stage(1)
    by (rule good_work [OF _ assms(2)]) (use soundD [OF assms(2)] complete_stage_moves complete_stage_ok in blast | simp)+
next
  case (appends_events now i batch r)
  from appends_events(2) show ?thesis unfolding append_events_def appends_events(1)
    by (rule good_work [OF _ assms(2)]) (use soundD [OF assms(2)] append_events_moves append_events_ok in blast | simp)+
next
  case (reports now j i report r)
  from reports(2) show ?thesis unfolding append_agent_update_def reports(1)
    by (rule good_step_committed [OF _ assms(2)])
      (metis good_moves step_kind.distinct assms(2) append_agent_update_moves append_agent_update_ok append_agent_update_history soundD(1,2) reports(3))
next
  case (starts now i start r)
  from starts(2) show ?thesis unfolding start_attempt_def starts(1)
    by (rule good_work [OF _ assms(2)]) (use soundD [OF assms(2)] start_attempt_moves start_attempt_ok in blast | simp)+
next
  case (ends now i completion r)
  from ends(2) show ?thesis unfolding complete_attempt_def ends(1)
    by (rule good_work [OF _ assms(2)]) (use soundD [OF assms(2)] complete_attempt_moves complete_attempt_ok in blast | simp)+
next
  case (sweeps now r)
  from sweeps(2) show ?thesis unfolding sweep_expired_def sweeps(1)
    by (rule good_work [OF _ assms(2)]) (use soundD [OF assms(2)] sweep_expired_moves sweep_expired_ok in blast | simp)+
next
  case (claims now i x worker request r)
  from claims(2) show ?thesis unfolding store_claim_def claims(1)
    by (rule good_work [OF _ assms(2)]) (use soundD [OF assms(2)] claims(3,4) claim_moves claim_tx_ok in blast | simp)+
next
  case (enables now i enabled r)
  from enables(2) show ?thesis unfolding set_managed_repository_enabled_def enables(1)
    by (rule good_work [OF _ assms(2)]) (use soundD [OF assms(2)] set_enabled_moves set_managed_repository_enabled_ok in blast | simp)+
next
  case (cancels_run now i r)
  from cancels_run(2) show ?thesis unfolding cancel_run_def cancels_run(1)
    by (rule good_work [OF _ assms(2)]) (use soundD [OF assms(2)] cancel_run_moves cancel_run_ok in blast | simp)+
next
  case (cancels_work now i w r)
  from cancels_work(2) show ?thesis unfolding cancel_session_def cancels_work(1)
    by (rule good_work [OF _ assms(2)]) (use soundD [OF assms(2)] cancel_session_moves cancel_session_ok in blast | simp)+
next
  case (retries now x i w r)
  from retries(2) show ?thesis unfolding retry_session_def retries(1)
    by (rule good_work [OF _ assms(2)])
      (rule retry_session_moves [OF soundD(1) [OF assms(2)]] retry_session_ok [OF soundD(1) [OF assms(2)] retries(3)]
        retry_open_item [OF soundD(1) [OF assms(2)]]; assumption)+
next
  case (answers now j x w answer r)
  from answers(2) show ?thesis unfolding answer_work_def answers(1)
    by (rule good_work [OF _ assms(2)]) (use soundD [OF assms(2)] answers(3) answer_work_moves answer_work_ok in blast | simp)+
next
  case (runs_task printable now ids i key profile r)
  from runs_task(2) have "d' = d \<or> admit_task printable now ids d i ''manual'' (trim_space key) None None (trim_space profile) = (r, d')"
    by (auto simp: run_task_def Let_def split: if_splits)
  then show ?thesis
    using good_admit_task [OF assms(2) runs_task(3)] good_step_refl [OF assms(2)] unfolding runs_task(1) by blast
next
  case (runs_procedure printable lower now ids request r)
  from good_admit_procedure_run [OF assms(2) runs_procedure(3,2)] show ?thesis unfolding runs_procedure(1) .
next
  case (admits_build wrt files runtime cx now ids build r)
  from good_admit_build [OF assms(2) admits_build(3,2)] show ?thesis unfolding admits_build(1) .
next
  case (replaces now pids replacement r)
  from good_replace_work [OF assms(2) replaces(3,2)] show ?thesis unfolding replaces(1) .
next
  case (admits_occurrence printable now ids i due snapshot r)
  from admits_occurrence(2) show ?thesis
    unfolding admit_occurrence_def admits_occurrence(1) by (rule good_admit_task [OF assms(2) admits_occurrence(3)])
qed (hypsubst, erule catalog_good [OF assms(2)], assumption?)+

lemma store_step_sound: "store_step k d d' \<Longrightarrow> sound d \<Longrightarrow> sound d'"
  using good_store_step by (simp add: good_step_def)

lemma reachable_is_sound: "reachable d \<Longrightarrow> sound d"
  by (induction rule: reachable.induct) (auto intro: initial_sound store_step_sound)

lemma initial_one_open_item: "initial_store d \<Longrightarrow> one_open_item d"
  by (simp add: initial_store_def one_open_item_def)

lemma reachable_one_open_item: "reachable d \<Longrightarrow> one_open_item d"
proof (induction rule: reachable.induct)
  case (reach_step d k d')
  have "good_step k d d'" by (rule good_store_step [OF reach_step.hyps(2) reachable_is_sound [OF reach_step.hyps(1)]])
  with reach_step.IH show ?case by (simp add: good_step_def)
qed (rule initial_one_open_item)

subsection \<open>What holds in every reachable store\<close>

lemma active_attempts_of_work:
  assumes ok: "store_ok d" and s: "s \<in> set (sessions d)"
  shows "count_where (\<lambda>a. is_active (at_state a) \<and> attempt_session d a = Some s) (attempts d) =
    (if session_executing (ss_state s) then 1 else 0)"
proof -
  note ok' = store_okD [OF ok]
  let ?P = "\<lambda>a. is_active (at_state a) \<and> attempt_session d a = Some s"
  have owner: "\<exists>e \<in> set (executions d). ex_id e = at_execution_id a \<and> ex_session_id e = ss_id s" if "?P a" for a
    using that by (auto simp: attempt_session_def attempt_execution_def dest!: find_execution_Some find_session_Some split: option.splits)
  have executing: "session_executing (ss_state s)" if a: "a \<in> set (attempts d)" "?P a" for a
  proof -
    obtain e where e: "e \<in> set (executions d)" "ex_id e = at_execution_id a" "ex_session_id e = ss_id s" using owner [OF a(2)] by blast
    then have "execution_executing (ex_state e)"
      using lifecycle_attempt_execution [OF ok'(3) a(1) e(1,2)] a(2) execution_of_active by metis
    then show ?thesis using states_agree_executing lifecycle_states_agree [OF ok'(3) e(1) s] e(3) by metis
  qed
  have "count_where ?P (attempts d) \<le> 1"
  proof (rule count_key_le_one [where k = at_id])
    show "distinct (map at_id (attempts d))" using ok'(1) by (simp add: keys_ok_def)
    fix a b assume a: "a \<in> set (attempts d)" "?P a" and b: "b \<in> set (attempts d)" "?P b"
    have "at_execution_id a = at_execution_id b"
      using owner [OF a(2)] owner [OF b(2)] execution_session_unique [OF ok'(1)] by metis
    then show "at_id a = at_id b" using lifecycle_one_active [OF ok'(3) a(1) b(1)] a(2) b(2) by blast
  qed
  moreover have "count_where ?P (attempts d) \<noteq> 0" if "session_executing (ss_state s)"
  proof -
    have "session_occupies_slot (ss_state s)" using that by (simp add: session_occupies_slot_def)
    then obtain e where e: "e \<in> set (executions d)" "ex_session_id e = ss_id s"
      by (rule lifecycle_slot_execution [OF ok'(3) s])
    then have "execution_executing (ex_state e)"
      using states_agree_executing [OF lifecycle_states_agree [OF ok'(3) e(1) s e(2) [symmetric]]] that by simp
    then obtain a where "a \<in> set (attempts d)" "at_execution_id a = ex_id e" "is_active (at_state a)"
      by (rule lifecycle_executing_attempt [OF ok'(3) e(1)])
    then show ?thesis
      using find_execution_in [OF ok'(1) e(1)] find_session_in [OF ok'(1) s] e(2)
      by (auto simp: count_where_eq_0 attempt_session_def attempt_execution_def)
  qed
  ultimately show ?thesis using executing by (auto simp: count_where_eq_0 le_Suc_eq)
qed

text \<open>C1. Whatever operations the Workers, the operators, the schedule and the sweeper perform, in any order and with
  any arguments, on a store into which nothing had been admitted: the store is well formed (keys are unique, references
  resolve, the three levels of an execution agree, row constraints hold, a Run is terminal exactly when its Work is), its
  history of reports is well formed, no request key admitted two Runs, and Work that runs is held by exactly one active
  Attempt, other Work by none.\<close>

theorem reachable_stores_are_well_formed:
  assumes "reachable d"
  shows "store_ok d \<and> history_ok d \<and> distinct (map run_request_key (runs d)) \<and> distinct (map tk_id (task_rows d)) \<and>
    (\<forall>s \<in> set (sessions d).
       count_where (\<lambda>a. is_active (at_state a) \<and> attempt_session d a = Some s) (attempts d) =
       (if session_executing (ss_state s) then 1 else 0))"
  using soundD [OF reachable_is_sound [OF assms]] active_attempts_of_work by blast

lemma store_run_refines: "store_run ks d d' \<Longrightarrow> sound d \<Longrightarrow> board_run ks (board_of d) (board_of d')"
proof (induction rule: store_run.induct)
  case (store_goes k d e ks f)
  then have "good_step k d e" by (intro good_store_step)
  with store_goes show ?case by (auto simp: good_step_def)
qed simp

lemma board_run_delivered: "board_run ks b b' \<Longrightarrow> b i = Some st \<Longrightarrow> delivered st \<Longrightarrow> b' i = Some st"
  by (induction rule: board_run.induct) (simp_all add: board_step_delivered)

lemma board_run_keeps: "board_run ks b b' \<Longrightarrow> b i \<noteq> None \<Longrightarrow> b' i \<noteq> None"
proof (induction rule: board_run.induct)
  case (board_goes k b c ks e)
  then obtain st where "b i = Some st" by blast
  with board_goes.hyps(1) [unfolded board_step_def, THEN spec, of i] have "c i \<noteq> None" by auto
  with board_goes.IH show ?case .
qed

text \<open>C2. The store refines the board, the abstract specification of the life of Work: for every trace of operations
  from a reachable store, forgetting all but the state of each Work item gives a trace of the board with the same kinds of
  steps, whose moves are those of its table only. So Work is never lost, and Work that was delivered (ready for review,
  succeeded or without change) stays as it is, whatever follows.\<close>

theorem store_refines_board:
  assumes "reachable d" "store_run ks d d'"
  shows "board_run ks (board_of d) (board_of d') \<and>
    (\<forall>i. board_of d i \<noteq> None \<longrightarrow> board_of d' i \<noteq> None) \<and>
    (\<forall>i st. board_of d i = Some st \<longrightarrow> delivered st \<longrightarrow> board_of d' i = Some st)"
  using store_run_refines [OF assms(2) reachable_is_sound [OF assms(1)]] board_run_keeps board_run_delivered by blast

subsection \<open>An example\<close>

text \<open>The catalog of the example store with its scheduled Task, before anything is admitted.\<close>

definition demo_new_db :: db where
  "demo_new_db = (demo_scheduled_db [demo_scheduled_task])\<lparr>runs := [], sessions := [], executions := [], attempts := [],
     session_stages := [], work_updates := []\<rparr>"

lemma demo_new_initial: "initial_store demo_new_db"
  by (simp add: initial_store_def demo_new_db_def demo_scheduled_db_def)

lemma demo_new_live: "live_snapshot demo_new_db ''task-1'' = Inr demo_admitted_snapshot"
proof -
  let ?d = "demo_scheduled_db [demo_scheduled_task]"
  have rows: "stages_of_pipeline demo_new_db = stages_of_pipeline ?d" "find_pipeline demo_new_db = find_pipeline ?d"
    "current_task_snapshot demo_new_db = current_task_snapshot ?d" "find_task demo_new_db = find_task ?d"
    by (simp_all add: fun_eq_iff demo_new_db_def find_pipeline_def stages_of_pipeline_def find_task_def current_task_snapshot_def
        selected_repositories_def find_repository_def)
  have pipeline: "load_pipeline_snapshot demo_new_db = load_pipeline_snapshot ?d"
    unfolding load_pipeline_snapshot_def fun_eq_iff by (simp only: rows) simp
  show ?thesis using demo_live unfolding live_snapshot_def rows pipeline .
qed

lemma demo_new_plan: "\<exists>e. admission_plan printable demo_new_db ''task-1'' None None '''' = Inr (demo_admitted_snapshot, e, True, '''')"
proof -
  have "validate_frozen_repositories demo_new_db (ts_repositories demo_admitted_snapshot) = Inr ()"
    by (simp add: find_repository_def repository_unusable_def demo_new_db_def demo_scheduled_defs)
  then show ?thesis
    by (simp add: admission_plan_def demo_new_live select_workflows_def load_execution_snapshot_def check_backend_def Let_def
        demo_admitted_snapshot_def demo_snapshot_def)
qed

lemma demo_new_route:
  "select_session_route (demo_new_db\<lparr>runs := rs\<rparr>) ''repo-1'' ''git.example.com/team/app'' 1000001 '''' ''codex'' =
     Inr (demo_candidate, demo_new_db\<lparr>runs := rs\<rparr>)"
proof (rule demo_route_idle)
  show "retention_use (demo_new_db\<lparr>runs := rs\<rparr>) ''worker-1'' ''repo-1'' < max_retained_per_repo"
    "queued_count (demo_new_db\<lparr>runs := rs\<rparr>) ''worker-1'' = 0"
    by (simp_all add: retention_use_def find_worker_repository_def queued_count_def demo_new_db_def demo_scheduled_defs
        protocol_limits)
qed (simp_all add: demo_new_db_def demo_scheduled_defs protocol_limits)

lemma demo_new_run:
  obtains r d' where "run_task printable demo_now demo_ids demo_new_db ''task-1'' ''key-2'' '''' = (r, d')"
    "\<exists>s. sessions d' = [s] \<and> ss_id s = ''x'' \<and> ss_run_id s = ''run-2'' \<and> ss_state s = SessionQueued"
proof -
  obtain e where plan: "admission_plan printable demo_new_db ''task-1'' None None '''' = Inr (demo_admitted_snapshot, e, True, '''')"
    using demo_new_plan by blast
  let ?t = demo_admitted_snapshot and ?r = "\<lparr>tr_id = ''repo-1'', tr_remote_identity = ''git.example.com/team/app''\<rparr>"
  let ?d1 = "demo_new_db\<lparr>runs := [admitted_run 1000001 ''run-2'' ''task-1'' ''manual'' ''key-2'' None '''' ?t e]\<rparr>"
  have row: "ts_workflow_id ?t = ''''" "ts_concurrency_limit ?t = 1" "ts_runtime ?t = ''codex''" "ts_repositories ?t = [?r]"
      "ts_prompt ?t = ''Fix it''"
    by (simp_all add: demo_admitted_snapshot_def demo_snapshot_def)
  have ids: "unix_milli demo_now = 1000001" "ai_run demo_ids = ''run-2''" "ai_work demo_ids 0 = ''x''"
    by (simp_all add: demo_now_def unix_milli_def demo_ids_def)
  let ?am = "\<lparr>am_now = 1000001, am_ids = demo_ids, am_snapshot = ?t, am_execution = e, am_prompt = ''Fix it'',
          am_profile_ready = True, am_profile_reason = ''''\<rparr>"
  obtain g where g: "resolve_session_stages ?t ''Fix it'' ''run-2'' (admission_target ''x'' 0 ?r) = Inr [g]"
    by (rule demo_stages [of ?t]) simp
  have route: "route_admitted ?am ?r 0 ?d1 = Inr (('''', Some (rc_worker_id demo_candidate)), ?d1)"
    by (simp add: route_admitted_def row demo_new_route)
  have none: "find_run_by_key demo_new_db key = None" "runs demo_new_db = []" "sessions ?d1 = []" for key
    by (simp_all add: find_run_by_key_def demo_new_db_def)
  have "\<exists>x d2. admit_target ?am 0 ?r 0 ?d1 = Inr ((x, True), d2) \<and> sessions d2 =
      [admitted_session ?am (admission_target ''x'' 0 ?r) (ts_workflow ?t) ''Fix it'' '''' (Some (rc_worker_id demo_candidate))]"
    by (simp add: admit_target_def Let_def target_workflow_def row resolve_task_workflow_prompt_def ids g route
        insert_target_def insert_session_stages_def queue_admitted_def none)
  then obtain x d2 where d2: "admit_targets ?am 0 (ts_repositories ?t) 0 ?d1 = Inr ([x], d2)" "sessions d2 =
      [admitted_session ?am (admission_target ''x'' 0 ?r) (ts_workflow ?t) ''Fix it'' '''' (Some (rc_worker_id demo_candidate))]"
    by (auto simp: row and_then_Inr)
  then obtain d' where "admit_run demo_now demo_ids demo_new_db ''task-1'' ''manual'' ''key-2'' None '''' ?t e True '''' =
      Inr ((''run-2'', True), d')" "sessions d' = sessions d2"
    by (simp add: admit_run_def Let_def ids row(5) none resolved_prompt_def max_resolved_prompt_bytes_def)
  then obtain r where "admit_task printable demo_now demo_ids demo_new_db ''task-1'' ''manual'' ''key-2'' None None '''' = (r, d')"
    by (simp add: admit_task_def admit_task_tx_def plan none)
  moreover have "trim_space ''key-2'' = ''key-2''" by (rule trim_space_visible; simp add: in_range_def byte_def)
  moreover have "trim_space '''' = ''''" by code_simp
  ultimately have "run_task printable demo_now demo_ids demo_new_db ''task-1'' ''key-2'' '''' = (r, d')"
    by (simp add: run_task_def Let_def prefix_def)
  then show thesis
    by (rule that) (simp add: \<open>sessions d' = sessions d2\<close> d2(2) admitted_session_def admission_target_def ids(2))
qed

lemma demo_new_step:
  obtains d' where "store_step Admits demo_new_db d'"
    "\<exists>s. sessions d' = [s] \<and> ss_id s = ''x'' \<and> ss_run_id s = ''run-2'' \<and> ss_state s = SessionQueued"
proof -
  have fresh: "fresh_admission demo_ids demo_new_db"
    by (auto simp: fresh_admission_def fresh_ids_def demo_ids_def demo_new_db_def inj_on_def)
  show thesis
    by (rule demo_new_run [where printable = "\<lambda>_. True"]) (blast intro: that runs_task fresh)
qed

lemma reachable_stores_are_well_formed_witness:
  "\<exists>d. store_ok d \<and> history_ok d \<and> map ss_state (sessions d) = [SessionQueued] \<and>
     count_where (\<lambda>a. is_active (at_state a) \<and> attempt_session d a = Some (hd (sessions d))) (attempts d) = 0"
proof -
  obtain d s where step: "store_step Admits demo_new_db d" and s: "sessions d = [s]" "ss_state s = SessionQueued"
    by (rule demo_new_step) blast
  from reachable_stores_are_well_formed [OF reach_step [OF reach_initial [OF demo_new_initial] step]] s
  show ?thesis by (intro exI [of _ d]) (auto simp: state_predicates)
qed

lemma store_refines_board_witness:
  "\<exists>d d' r. cancel_run demo_now d ''run-2'' = (r, d') \<and> board_of d ''x'' = Some SessionQueued \<and>
     board_run [Admits, Cancels] (board_of demo_new_db) (board_of d')"
proof -
  obtain d where step: "store_step Admits demo_new_db d"
    and d: "\<exists>s. sessions d = [s] \<and> ss_id s = ''x'' \<and> ss_run_id s = ''run-2'' \<and> ss_state s = SessionQueued"
    by (rule demo_new_step)
  obtain r d' where cancel: "cancel_run demo_now d ''run-2'' = (r, d')" by (cases "cancel_run demo_now d ''run-2''")
  have "store_run [Admits, Cancels] demo_new_db d'"
    by (intro store_goes [OF step] store_goes [OF cancels_run [OF cancel]] store_stops)
  with reach_initial [OF demo_new_initial] have "board_run [Admits, Cancels] (board_of demo_new_db) (board_of d')"
    by (rule store_refines_board [THEN conjunct1])
  moreover have "board_of d ''x'' = Some SessionQueued" using d by (auto simp: board_of_def find_session_def)
  ultimately show ?thesis using cancel by blast
qed

end
