(* ===== verification/Registration_Properties.thy ===== *)
theory Registration_Properties
  imports Registration Example_Store
begin

text \<open>
  What a registration guarantees: the row of the Worker is in normal form, other Workers keep theirs, and capacity is
  acknowledged only for Attempts that the Worker accounts for.
\<close>

subsection \<open>The normal form of a report\<close>

definition capability_key :: "capability \<Rightarrow> string \<times> string" where
  "capability_key c = (cap_kind c, cap_name c)"

lemma normalize_capability_kind:
  "normalize_capability lower c = Inr c' \<Longrightarrow> cap_kind c' = ''tool'' \<or> cap_kind c' = capability_kind_runtime"
  by (auto simp: normalize_capability_def Let_def split: if_splits)

lemma capability_keys_differ:
  assumes "cap_kind c = ''tool'' \<or> cap_kind c = capability_kind_runtime"
    and "cap_kind x = ''tool'' \<or> cap_kind x = capability_kind_runtime" "capability_key c = capability_key x"
  shows "cap_kind c @ '':'' @ cap_name c = cap_kind x @ '':'' @ cap_name x"
  using assms by (simp add: capability_key_def)

lemma normalize_capabilities_Inr:
  "normalize_capabilities lower seen cs = Inr cs' \<Longrightarrow>
   distinct (map capability_key cs') \<and> (\<forall>c \<in> set cs'. cap_kind c @ '':'' @ cap_name c \<notin> seen)"
proof (induction cs arbitrary: seen cs')
  case (Cons c cs)
  then obtain c' cs'' where c: "normalize_capability lower c = Inr c'" "cap_kind c' @ '':'' @ cap_name c' \<notin> seen"
    and rest: "normalize_capabilities lower (insert (cap_kind c' @ '':'' @ cap_name c') seen) cs = Inr cs''"
    and cs': "cs' = c' # cs''"
    by (auto simp: and_then_Inr Let_def split: if_splits)
  from Cons.IH [OF rest] c(2) show ?case by (auto simp: cs' capability_key_def)
qed simp

lemma normalize_worker_capabilities_Inr:
  assumes "normalize_worker_capabilities lower r = Inr cs"
  shows "distinct (map capability_key cs) \<and> (capability_kind_runtime, wi_runtime r) \<in> capability_key ` set cs"
proof (cases "wi_capabilities r = []")
  case True
  with assms show ?thesis by (auto simp: normalize_worker_capabilities_def capability_key_def)
next
  case False
  with assms have "normalize_capabilities lower {} (wi_capabilities r) = Inr cs"
    "list_ex (\<lambda>c. cap_kind c = capability_kind_runtime \<and> cap_name c = wi_runtime r) cs"
    by (auto simp: normalize_worker_capabilities_def and_then_Inr split: if_splits)
  then show ?thesis
    using normalize_capabilities_Inr [of lower "{}"] by (force simp: list_ex_iff capability_key_def image_iff)
qed

definition fields_ok :: "worker_registration \<Rightarrow> bool" where
  "fields_ok r \<longleftrightarrow> 1 \<le> wi_capacity r \<and> wi_capacity r \<le> 100 \<and> 0 \<le> wi_active_count r \<and> wi_active_count r \<le> wi_capacity r \<and>
     wi_name r \<noteq> '''' \<and> length (wi_name r) \<le> 200 \<and> supported_runtime (wi_runtime r) \<and>
     wi_claim_protocol_version r = int claim_protocol_version \<and> distinct (map capability_key (wi_capabilities r)) \<and>
     (capability_kind_runtime, wi_runtime r) \<in> capability_key ` set (wi_capabilities r) \<and> length (wi_labels r) \<le> 20"

lemma check_worker_fields_Inr:
  assumes "check_worker_fields lower r = Inr r'"
  shows "fields_ok r'" "wi_active_count r' = wi_active_count r" "wi_capacity_handoff_version r' = wi_capacity_handoff_version r"
    "wi_disposed_attempt_ids r' = wi_disposed_attempt_ids r" "wi_retained_worktrees r' = wi_retained_worktrees r"
proof -
  define runtime where "runtime = (if trim_space (wi_runtime r) = '''' then ''codex'' else trim_space (wi_runtime r))"
  from assms obtain labels cs r0 where labels: "normalize_worker_labels (wi_labels r) = Inr labels"
    and r0: "r0 = r\<lparr>wi_name := trim_space (wi_name r), wi_labels := labels, wi_runtime := runtime,
      wi_runtime_version := trim_space (wi_runtime_version r)\<rparr>"
    and cs: "normalize_worker_capabilities lower r0 = Inr cs" and r': "r' = r0\<lparr>wi_capabilities := cs\<rparr>"
    and ok: "trim_space (wi_name r) \<noteq> ''''" "length (trim_space (wi_name r)) \<le> 200"
      "wi_claim_protocol_version r = int claim_protocol_version" "supported_runtime runtime"
      "min_worker_capacity \<le> wi_capacity r" "wi_capacity r \<le> max_worker_capacity" "0 \<le> wi_active_count r"
      "wi_active_count r \<le> wi_capacity r"
    by (auto simp: check_worker_fields_def Let_def and_then_Inr runtime_def split: if_splits option.splits)
  have "length labels \<le> 20" using labels by (auto simp: normalize_worker_labels_def split: if_splits)
  with ok normalize_worker_capabilities_Inr [OF cs] show "fields_ok r'"
    by (simp add: fields_ok_def r' r0 min_worker_capacity_def max_worker_capacity_def)
qed (use assms in \<open>auto simp: check_worker_fields_def Let_def and_then_Inr split: if_splits option.splits\<close>)

lemma normalize_managed_ids_Inr:
  "normalize_managed_ids d seen is = Inr is' \<Longrightarrow>
   distinct is' \<and> (\<forall>i \<in> set is'. valid_uuid i \<and> i \<notin> seen) \<and> length is' = length is"
  by (induction "is" arbitrary: seen is') (fastforce simp: and_then_Inr Let_def split: if_splits)+

lemma normalize_disposed_Inr:
  "normalize_disposed found xs = Inr ys \<Longrightarrow> set ys = set found \<union> trim_space ` set xs"
  by (induction xs arbitrary: found) (auto simp: Let_def split: if_splits)

lemma retained_evidence_worktrees:
  "set (fst (retained_evidence ws)) \<subseteq> (\<lambda>w. (rw_attempt_id w, rw_repository_id w)) ` set ws"
proof -
  have "set (fst (fold count_worktree ws p)) \<subseteq> set (fst p) \<union> (\<lambda>w. (rw_attempt_id w, rw_repository_id w)) ` set ws" for ws p
  proof (induction ws arbitrary: p)
    case (Cons w ws)
    have "set (fst (count_worktree w p)) \<subseteq> insert (rw_attempt_id w, rw_repository_id w) (set (fst p))"
      by (cases p) (auto simp: count_worktree_def split: option.splits)
    with Cons.IH [of "count_worktree w p"] show ?case by auto
  qed simp
  from this [of ws "([], False)"] show ?thesis by (simp add: retained_evidence_def)
qed

lemma normalize_registration_Inr:
  assumes "normalize_registration lower equal_fold d r = Inr n"
  shows "fields_ok (nr_report n)" "distinct (wi_managed_repository_ids (nr_report n))"
    "list_all valid_uuid (wi_managed_repository_ids (nr_report n))" "length (wi_managed_repository_ids (nr_report n)) \<le> 100"
    "set (nr_disposed n) = trim_space ` set (wi_disposed_attempt_ids r)"
    "set (nr_evidence n) \<subseteq> (\<lambda>w. (rw_attempt_id w, rw_repository_id w)) ` resolve_worktree d ` set (wi_retained_worktrees r)"
    "wi_active_count (nr_report n) = wi_active_count r"
    "wi_capacity_handoff_version (nr_report n) = wi_capacity_handoff_version r"
proof -
  from assms obtain r' where fields: "check_worker_fields lower r = Inr r'"
    by (auto simp: normalize_registration_def and_then_Inr)
  obtain evidence u where evidence: "retained_evidence (map (resolve_worktree d) (wi_retained_worktrees r')) = (evidence, u)"
    by fastforce
  from assms obtain is' access rs disposed where
    bound: "length (wi_managed_repository_ids r') \<le> max_repository_cache_entries"
    and ids: "normalize_managed_ids d {} (wi_managed_repository_ids r') = Inr is'"
    and disposed: "normalize_disposed [] (wi_disposed_attempt_ids r') = Inr disposed"
    and n: "n = \<lparr>nr_report = r'\<lparr>wi_managed_repository_ids := is', wi_source_access := access,
        wi_retained_worktrees := map (resolve_worktree d) (wi_retained_worktrees r')\<rparr>,
      nr_repositories = rs, nr_evidence = evidence, nr_unattributed = u, nr_disposed = disposed\<rparr>"
    by (auto simp: normalize_registration_def fields evidence and_then_Inr Let_def split: if_splits)
  note f = check_worker_fields_Inr [OF fields]
  show "fields_ok (nr_report n)" using f(1) by (simp add: n fields_ok_def)
  show "distinct (wi_managed_repository_ids (nr_report n))" "list_all valid_uuid (wi_managed_repository_ids (nr_report n))"
    "length (wi_managed_repository_ids (nr_report n)) \<le> 100"
    using normalize_managed_ids_Inr [OF ids] bound by (auto simp: n list_all_iff max_repository_cache_entries_def)
  show "set (nr_disposed n) = trim_space ` set (wi_disposed_attempt_ids r)"
    using normalize_disposed_Inr [OF disposed] f(4) by (simp add: n)
  show "set (nr_evidence n) \<subseteq> (\<lambda>w. (rw_attempt_id w, rw_repository_id w)) ` resolve_worktree d ` set (wi_retained_worktrees r)"
    using retained_evidence_worktrees [of "map (resolve_worktree d) (wi_retained_worktrees r')"] by (simp add: evidence n f(5) [symmetric])
  show "wi_active_count (nr_report n) = wi_active_count r"
    "wi_capacity_handoff_version (nr_report n) = wi_capacity_handoff_version r"
    using f(2,3) by (simp_all add: n)
qed

subsection \<open>The stored report\<close>

lemma register_worker_Inr:
  assumes "register_worker lower equal_fold now ids d worker_id r = (Inr view, d')"
  obtains n where "normalize_registration lower equal_fold d r = Inr n" "\<not> synthetic_worker d (trim_space worker_id)"
    "register_worker_tx (unix_milli now) ids (trim_space worker_id) n d = Inr ((), d')"
    "worker_reply now d' (trim_space worker_id) = Inr view"
  using assms by (auto simp: register_worker_def Let_def committed_def split: if_splits sum.splits)

lemma find_upserted:
  assumes "wk_id w = i"
  shows "find (\<lambda>x. wk_id x = j) (workers (upsert_worker w d)) =
     (if j \<noteq> i then find_worker d j
      else case find_worker d i of None \<Rightarrow> Some w
        | Some x \<Rightarrow> Some (w\<lparr>wk_runtime := wk_runtime x, wk_synthetic := wk_synthetic x, wk_registered_at := wk_registered_at x\<rparr>))"
proof (cases "find_worker d i")
  case None
  then show ?thesis using assms by (simp add: upsert_worker_def find_append) (simp add: find_worker_def split: option.split)
next
  case (Some x)
  let ?f = "\<lambda>x. w\<lparr>wk_runtime := wk_runtime x, wk_synthetic := wk_synthetic x, wk_registered_at := wk_registered_at x\<rparr>"
  have "workers (upsert_worker w d) = update_where (\<lambda>x. wk_id x = i) ?f (workers d)"
    using Some assms by (simp add: upsert_worker_def)
  then have "find (\<lambda>x. wk_id x = j) (workers (upsert_worker w d)) =
      map_option (\<lambda>x. if wk_id x = i then ?f x else x) (find_worker d j)"
    unfolding find_worker_def using assms by (simp only:) (rule find_update_where, simp)
  then show ?thesis using Some find_worker_Some [of d] by (cases "find_worker d j") fastforce+
qed

text \<open>The row that a registration stores, against the row that the Worker had before.\<close>

definition worker_row_ok :: "millis \<Rightarrow> worker option \<Rightarrow> worker \<Rightarrow> bool" where
  "worker_row_ok now before w \<longleftrightarrow>
     1 \<le> wk_capacity w \<and> wk_capacity w \<le> 100 \<and> wk_active_count w \<le> wk_capacity w \<and>
     wk_name w \<noteq> '''' \<and> supported_runtime (wk_runtime w) \<and> \<not> wk_synthetic w \<and>
     wk_claim_protocol_version w = claim_protocol_version \<and> wk_last_heartbeat w = now \<and>
     distinct (map capability_key (wk_capabilities w)) \<and>
     (capability_kind_runtime, wk_runtime w) \<in> capability_key ` set (wk_capabilities w) \<and>
     distinct (wk_managed_repository_ids w) \<and> list_all valid_uuid (wk_managed_repository_ids w) \<and>
     length (wk_managed_repository_ids w) \<le> 100 \<and>
     (case before of None \<Rightarrow> wk_registered_at w = now
      | Some x \<Rightarrow> wk_registered_at w = wk_registered_at x \<and> wk_runtime w = wk_runtime x)"

text \<open>C32. An accepted registration stores the Worker in normal form: capacity 1 to 100 and not exceeded, a supported
  runtime, which is among its capabilities and is the one it registered with first, capabilities unique by kind and name,
  at most 100 distinct cached repositories, the instant of the first registration kept. No other Worker's row changes.\<close>

theorem registered_worker_is_normal:
  assumes "register_worker lower equal_fold now ids d worker_id registration = (Inr view, d')"
  shows "(\<exists>w. find_worker d' (trim_space worker_id) = Some w \<and>
      worker_row_ok (unix_milli now) (find_worker d (trim_space worker_id)) w \<and> view = scan_worker now d' w) \<and>
    (\<forall>j. j \<noteq> trim_space worker_id \<longrightarrow> find_worker d' j = find_worker d j)"
proof -
  let ?i = "trim_space worker_id"
  obtain n where n: "normalize_registration lower equal_fold d registration = Inr n" "\<not> synthetic_worker d ?i"
    and tx: "register_worker_tx (unix_milli now) ids ?i n d = Inr ((), d')" and view: "worker_reply now d' ?i = Inr view"
    using assms by (rule register_worker_Inr)
  let ?w = "worker_row_of (unix_milli now) ?i (nr_report n)"
  note ok = normalize_registration_Inr [OF n(1)]
  from tx obtain runtime: "\<And>w. find_worker d ?i = Some w \<Longrightarrow> wk_runtime w = wi_runtime (nr_report n)"
    and workers: "workers d' = workers (upsert_worker ?w d)"
    by (rule register_worker_tx_Inr) simp
  have found: "find_worker d' j = (if j \<noteq> ?i then find_worker d j
      else case find_worker d ?i of None \<Rightarrow> Some ?w
        | Some x \<Rightarrow> Some (?w\<lparr>wk_runtime := wk_runtime x, wk_synthetic := wk_synthetic x, wk_registered_at := wk_registered_at x\<rparr>))" for j
    using find_upserted [of ?w ?i j d] by (simp add: find_worker_def workers worker_row_of_def)
  then have "\<forall>j. j \<noteq> ?i \<longrightarrow> find_worker d' j = find_worker d j" by simp
  moreover have "\<exists>w. find_worker d' ?i = Some w \<and> worker_row_ok (unix_milli now) (find_worker d ?i) w \<and> view = scan_worker now d' w"
    using found [of ?i] view ok(1-4) n(2) runtime
    by (cases "find_worker d ?i")
      (auto simp: worker_reply_def worker_row_ok_def fields_ok_def worker_row_of_def synthetic_worker_def nat_le_iff)
  ultimately show ?thesis by blast
qed

subsection \<open>Which capacity is acknowledged\<close>

text \<open>What the request itself says of an Attempt.\<close>

definition reported :: "db \<Rightarrow> ident \<Rightarrow> worker_registration \<Rightarrow> attempt \<Rightarrow> bool" where
  "reported d i r a \<longleftrightarrow> at_worker_id a = i \<and>
     (at_id a \<in> trim_space ` set (wi_disposed_attempt_ids r) \<or>
      is_terminal (at_state a) \<and>
        ((\<exists>w \<in> set (wi_retained_worktrees r). at_id a = trim_space (rw_attempt_id w) \<and>
            attempt_uses_repository d i (rw_repository_id (resolve_worktree d w)) a) \<or>
         wi_active_count r = 0 \<and> wi_capacity_handoff_version r = 0))"

lemma accounts_for_reported:
  assumes "normalize_registration lower equal_fold d r = Inr n" "accounts_for d i n a"
  shows "reported d i r a"
proof -
  have "\<exists>w \<in> set (wi_retained_worktrees r). j = trim_space (rw_attempt_id w) \<and> x = rw_repository_id (resolve_worktree d w)"
    if "(j, x) \<in> set (nr_evidence n)" for j x
    using that normalize_registration_Inr(6) [OF assms(1)] by (fastforce simp: resolve_worktree_def Let_def)
  then show ?thesis
    using assms(2) normalize_registration_Inr(5,7,8) [OF assms(1)] unfolding accounts_for_def reported_def by metis
qed

text \<open>C33. A registration changes Attempts in one way only: it acknowledges the capacity of Attempts of that Worker which
  the request accounts for, by naming them as disposed of or, once they are terminal, by naming their retained worktree in
  the repository of their Work or by a Worker that runs nothing and does not hand over single Attempts. Runs, Work,
  executions and stages stay as they are.\<close>

theorem registration_acknowledges_reported_attempts:
  assumes "store_ok d" "register_worker lower equal_fold now ids d worker_id registration = (Inr view, d')"
  shows "(\<exists>P. attempts d' = update_where P acknowledged (attempts d) \<and>
      (\<forall>a \<in> set (attempts d). P a \<longrightarrow> reported d (trim_space worker_id) registration a)) \<and>
    store_ok d' \<and> runs d' = runs d \<and> sessions d' = sessions d \<and> executions d' = executions d \<and>
    session_stages d' = session_stages d"
proof -
  let ?i = "trim_space worker_id"
  obtain n where n: "normalize_registration lower equal_fold d registration = Inr n"
    and tx: "register_worker_tx (unix_milli now) ids ?i n d = Inr ((), d')"
    using assms(2) by (rule register_worker_Inr)
  have "\<exists>P. attempts d' = update_where P acknowledged (attempts d) \<and>
      (\<forall>a \<in> set (attempts d). P a \<longrightarrow> reported d ?i registration a)"
    using tx by (rule register_worker_tx_Inr)
      (use store_okD(1) [OF assms(1)] accounts_for_reported [OF n] in \<open>auto intro!: exI\<close>)
  moreover have "runs d' = runs d \<and> sessions d' = sessions d \<and> executions d' = executions d \<and> session_stages d' = session_stages d"
    using tx by (rule register_worker_tx_Inr) simp
  ultimately show ?thesis using register_worker_tx_ok [OF assms(1) tx] by blast
qed

subsection \<open>An example\<close>

text \<open>An Attempt of the example store has failed; its Worker registers again and names the worktree it retains.\<close>

definition demo_ended_db :: db where
  "demo_ended_db = (demo_db AttemptRunning [] StageRunning StagePending)\<lparr>
     sessions := [(demo_session ''work-1'' 0 SessionFailed ExecutionOwnerNone)\<lparr>ss_terminal_at := Some 2\<rparr>,
       demo_session ''work-2'' 1 SessionBlocked ExecutionOwnerNone],
     executions := [demo_execution ExecutionFailed], attempts := [demo_attempt AttemptFailed]\<rparr>"

definition demo_registration :: worker_registration where
  "demo_registration = \<lparr>wi_name = ''builder'', wi_labels = [], wi_worker_version = ''1.1'', wi_claim_protocol_version = 5,
     wi_runtime = '''', wi_runtime_version = '''', wi_capabilities = [], wi_capacity = 2, wi_active_count = 1,
     wi_health = ''healthy'',
     wi_repositories = [\<lparr>rr_key = ''app'', rr_remote_identity = ''git.example.com/team/app'', rr_retained_count = 0\<rparr>],
     wi_source_access = [], wi_accepts_managed_repositories = False, wi_managed_repository_ids = [],
     wi_retained_worktrees = [\<lparr>rw_attempt_id = ''00000000-0000-4000-8000-00000000000a'', rw_repository_id = ''repo-1'',
       rw_path = ''/work/1'', rw_reason = ''failed'', rw_cleanup_command = ''''\<rparr>],
     wi_capacity_handoff_version = 1, wi_disposed_attempt_ids = [], wi_weekly_limit = None\<rparr>"

definition demo_worktree :: retained_worktree where
  "demo_worktree = \<lparr>rw_attempt_id = ''00000000-0000-4000-8000-00000000000a'', rw_repository_id = ''repo-1'',
     rw_path = ''/work/1'', rw_reason = ''failed'', rw_cleanup_command = ''''\<rparr>"

definition demo_capability :: capability where
  "demo_capability = \<lparr>cap_kind = ''runtime'', cap_name = ''codex'', cap_status = ''ready'', cap_version = '''', cap_message = ''''\<rparr>"

lemma demo_report_trimmed:
  "trim_space ''builder'' = ''builder''" "trim_space ''worker-1'' = ''worker-1''" "trim_space ''app'' = ''app''"
  "trim_space ''repo-1'' = ''repo-1''" "trim_space ''git.example.com/team/app'' = ''git.example.com/team/app''"
  "trim_space ''00000000-0000-4000-8000-00000000000a'' = ''00000000-0000-4000-8000-00000000000a''"
  by (rule trim_space_visible; simp add: in_range_def byte_def)+

lemma demo_report_small:
  "length (json_array (map json_retained_worktree [demo_worktree])) < 200"
  "length (json_array (map json_capability [demo_capability])) < 200"
  by code_simp+

definition demo_report :: worker_registration where
  "demo_report = demo_registration\<lparr>wi_runtime := ''codex'', wi_capabilities := [demo_capability]\<rparr>"

lemma demo_normalizes:
  "normalize_registration (\<lambda>s. s) (=) demo_ended_db demo_registration = Inr \<lparr>nr_report = demo_report,
     nr_repositories = [(hd (wi_repositories demo_registration), ''git.example.com/team/app'')],
     nr_evidence = [(''00000000-0000-4000-8000-00000000000a'', ''repo-1'')], nr_unattributed = False, nr_disposed = []\<rparr>"
proof -
  have fields: "check_worker_fields (\<lambda>s. s) demo_registration = Inr demo_report"
    by (simp add: check_worker_fields_def demo_registration_def demo_report_def demo_report_trimmed normalize_worker_labels_def Let_def
        normalize_worker_capabilities_def min_worker_capacity_def max_worker_capacity_def claim_protocol_version_def
        supported_runtime_def demo_capability_def capability_kind_runtime_def capability_ready_def)
  have worktree: "resolve_worktree demo_ended_db demo_worktree = demo_worktree"
    by (simp add: resolve_worktree_def demo_worktree_def demo_report_trimmed resolve_repository_alias_def demo_ended_db_def demo_db_def)
  have evidence: "retained_evidence [demo_worktree] = ([(''00000000-0000-4000-8000-00000000000a'', ''repo-1'')], False)"
    by (simp add: retained_evidence_def count_worktree_def demo_worktree_def)
  have remote: "normalize_registered_remote ''git.example.com/team/app'' = ''git.example.com/team/app''"
    unfolding normalize_registered_remote_def normalize_remote_def demo_report_trimmed by code_simp
  have access: "normalize_source_access [] = Inr []" by code_simp
  have report: "wi_retained_worktrees demo_report = [demo_worktree]" "wi_capabilities demo_report = [demo_capability]"
    "wi_capacity_handoff_version demo_report = 1" "wi_managed_repository_ids demo_report = []" "wi_source_access demo_report = []"
    "wi_disposed_attempt_ids demo_report = []" "wi_repositories demo_report = [hd (wi_repositories demo_registration)]"
    by (simp_all add: demo_report_def demo_registration_def demo_worktree_def)
  have repositories: "normalize_repositories (=) {} [] [hd (wi_repositories demo_registration)] =
      Inr [(hd (wi_repositories demo_registration), ''git.example.com/team/app'')]"
    by (simp add: demo_registration_def normalize_remote_def remote demo_report_trimmed merge_spelling_def Let_def)
  have "demo_report\<lparr>wi_managed_repository_ids := [], wi_source_access := [], wi_retained_worktrees := [demo_worktree]\<rparr> = demo_report"
    by (simp add: demo_report_def demo_registration_def demo_worktree_def)
  then show ?thesis
    using demo_report_small
    by (simp add: normalize_registration_def fields worktree evidence report repositories access max_body_bytes_def
        del: normalize_repositories.simps)
qed

lemma demo_ended_ok: "store_ok demo_ended_db"
  by (simp add: demo_ended_db_def demo_db_def demo_rows store_ok_defs)

lemma demo_registers:
  obtains view d' where
    "register_worker (\<lambda>s. s) (=) demo_now ids demo_ended_db ''worker-1'' demo_registration = (Inr view, d')"
    "map at_capacity_acknowledged (attempts d') = [True]"
proof -
  let ?r = "\<lparr>rr_key = ''app'', rr_remote_identity = ''git.example.com/team/app'', rr_retained_count = 0\<rparr>"
  have rows: "synthetic_worker demo_ended_db ''worker-1'' = False" "find_worker demo_ended_db ''worker-1'' = Some demo_worker"
    "wk_runtime demo_worker = ''codex''" "wi_runtime demo_report = ''codex''"
    by (simp_all add: synthetic_worker_def find_worker_def demo_ended_db_def demo_db_def demo_worker_def demo_report_def)
  have repo: "hd (wi_repositories demo_registration) = ?r" by (simp add: demo_registration_def)
  let ?n = "\<lparr>nr_report = demo_report, nr_repositories = [(?r, ''git.example.com/team/app'')],
     nr_evidence = [(''00000000-0000-4000-8000-00000000000a'', ''repo-1'')], nr_unattributed = False, nr_disposed = []\<rparr>"
  let ?e = "[(''00000000-0000-4000-8000-00000000000a'', ''repo-1'')]"
  let ?d0 = "hide_repositories (unix_milli demo_now) ''worker-1'' (wi_accepts_managed_repositories demo_report)
    (upsert_worker (worker_row_of (unix_milli demo_now) ''worker-1'' demo_report) demo_ended_db)"
  have keys: "check_repository_keys demo_ended_db ''worker-1'' [(?r, ''git.example.com/team/app'')] = Inr ()"
    unfolding check_repository_keys.simps
    by (simp add: demo_ended_db_def demo_db_def demo_worker_repository_def find_repository_def demo_repository_def)
  have d0: "repositories ?d0 = [demo_repository]" "\<exists>x. worker_repositories ?d0 = [x] \<and> wr_worker_id x = ''worker-1'' \<and> \<not> wr_dynamic x"
    by (simp_all add: hide_repositories_def upsert_worker_def demo_ended_db_def demo_db_def demo_worker_repository_def)
  have id: "register_repository_id (unix_milli demo_now) (ids 0) ''git.example.com/team/app'' ?d0 = Inr (''repo-1'', ?d0)"
    by (simp add: register_repository_id_def d0(1)) (simp add: demo_repository_def)
  define d1 where "d1 = map_repository (unix_milli demo_now) ''worker-1'' ''app'' ''git.example.com/team/app'' 1 ''repo-1'' ?d0"
  have d1: "register_repositories (unix_milli demo_now) ids 0 ''worker-1'' ?e [(?r, ''git.example.com/team/app'')] [] ?d0 = Inr ([''repo-1''], d1)"
    by (simp add: id d1_def retained_in_def count_where_def)
  have "refresh_dynamic_repositories (unix_milli demo_now) ''worker-1'' demo_report ?e ([''repo-1''], d1) = ([''repo-1''], d1)"
    using d0(2) by (auto simp: refresh_dynamic_repositories_def d1_def map_repository_def Let_def)
  then have tx: "register_worker_tx (unix_milli demo_now) ids ''worker-1'' ?n demo_ended_db = Inr ((), acknowledge_capacity ''worker-1'' ?n [''repo-1''] d1)"
    by (simp add: register_worker_tx_def rows keys d1 Let_def del: register_repositories.simps check_repository_keys.simps)
  have "attempts d1 = attempts demo_ended_db" "sessions d1 = sessions demo_ended_db" "executions d1 = executions demo_ended_db"
    by (simp_all add: d1_def map_repository_def Let_def hide_repositories_def upsert_worker_def)
  then have acknowledged: "map at_capacity_acknowledged (attempts (acknowledge_capacity ''worker-1'' ?n [''repo-1''] d1)) = [True]"
    by (simp add: acknowledge_capacity_def acknowledge_repository_eq acknowledges_def accounted_def ended_in_def
        attempt_uses_repository_def attempt_session_def attempt_execution_def find_execution_def find_session_def
        demo_ended_db_def demo_rows is_terminal_def)
  let ?d' = "acknowledge_capacity ''worker-1'' ?n [''repo-1''] d1"
  have "workers ?d' = workers (upsert_worker (worker_row_of (unix_milli demo_now) ''worker-1'' demo_report) demo_ended_db)"
    using tx by (rule register_worker_tx_Inr) simp
  then have "find_worker ?d' ''worker-1'' \<noteq> None"
    using find_upserted [of "worker_row_of (unix_milli demo_now) ''worker-1'' demo_report" "''worker-1''" "''worker-1''" demo_ended_db]
    by (simp add: find_worker_def [of ?d'] rows worker_row_of_def)
  then obtain view where "worker_reply demo_now ?d' ''worker-1'' = Inr view" by (auto simp: worker_reply_def)
  with tx have "register_worker (\<lambda>s. s) (=) demo_now ids demo_ended_db ''worker-1'' demo_registration = (Inr view, ?d')"
    by (simp add: register_worker_def demo_report_trimmed rows demo_normalizes repo committed_def)
  then show thesis using acknowledged by (rule that)
qed

lemma registered_worker_is_normal_witness:
  "\<exists>w d'. find_worker d' ''worker-1'' = Some w \<and> worker_row_ok (unix_milli demo_now) (Some demo_worker) w \<and>
     find_worker d' ''worker-2'' = None"
proof -
  obtain view d' where r: "register_worker (\<lambda>s. s) (=) demo_now (\<lambda>_. ''repo-9'') demo_ended_db ''worker-1'' demo_registration = (Inr view, d')"
    by (rule demo_registers)
  have before: "find_worker demo_ended_db ''worker-1'' = Some demo_worker" "find_worker demo_ended_db ''worker-2'' = None"
    by (simp_all add: find_worker_def demo_ended_db_def demo_db_def demo_worker_def)
  obtain w where "find_worker d' ''worker-1'' = Some w" "worker_row_ok (unix_milli demo_now) (Some demo_worker) w"
    and others: "\<forall>j. j \<noteq> ''worker-1'' \<longrightarrow> find_worker d' j = find_worker demo_ended_db j"
    using registered_worker_is_normal [OF r] before(1) unfolding demo_report_trimmed by auto
  moreover have "find_worker d' ''worker-2'' = None" using others [THEN spec, of "''worker-2''"] before(2) by simp
  ultimately show ?thesis by blast
qed

lemma registration_acknowledges_reported_attempts_witness:
  "\<exists>d' :: db. map at_capacity_acknowledged (attempts d') = [True] \<and> sessions d' = sessions demo_ended_db \<and>
     reported demo_ended_db ''worker-1'' demo_registration (demo_attempt AttemptFailed)"
proof -
  obtain view d' where r: "register_worker (\<lambda>s. s) (=) demo_now (\<lambda>_. ''repo-9'') demo_ended_db ''worker-1'' demo_registration = (Inr view, d')"
    and a: "map at_capacity_acknowledged (attempts d') = [True]"
    by (rule demo_registers)
  obtain P where P: "attempts d' = update_where P acknowledged (attempts demo_ended_db)"
    "\<forall>a \<in> set (attempts demo_ended_db). P a \<longrightarrow> reported demo_ended_db ''worker-1'' demo_registration a"
    using registration_acknowledges_reported_attempts [OF demo_ended_ok r] unfolding demo_report_trimmed by blast
  have "attempts demo_ended_db = [demo_attempt AttemptFailed]" "\<not> at_capacity_acknowledged (demo_attempt AttemptFailed)"
    by (simp_all add: demo_ended_db_def demo_attempt_def)
  with P a have "reported demo_ended_db ''worker-1'' demo_registration (demo_attempt AttemptFailed)"
    by (auto split: if_splits)
  then show ?thesis using a registration_acknowledges_reported_attempts [OF demo_ended_ok r] by (intro exI [of _ d']) simp
qed

end
