(* ===== verification/Replacement_Properties.thy ===== *)
theory Replacement_Properties
  imports Replacement Admission_Properties
begin

text \<open>What the replacement of Work guarantees.\<close>

text \<open>C36. Work is replaced at most once. An admitted replacement of Work, which has ended and has no successor, adds one
  Run with one Work item that names its predecessor and repeats its repository, runtime, workflow and task; it changes no
  other Work, no Attempt and no Run. Afterwards no request for the same Work changes the store, and only a request with a
  key used for it is answered, with the Run it admitted.\<close>

theorem work_is_replaced_once:
  assumes "store_ok d" "fresh_replacement ids d" "replace_work now ids d input = (Inr v, d')" "px_result v = AdmissionAdmitted"
  shows "\<exists>s r s' r'. s \<in> set (sessions d) \<and> ss_id s = trim_space (pq_work_id input) \<and> replaceable (ss_state s) \<and>
      (\<forall>x \<in> set (sessions d). ss_predecessor_work_id x \<noteq> Some (ss_id s)) \<and>
      find_run d (ss_run_id s) = Some r \<and> store_ok d' \<and>
      runs d' = runs d @ [r'] \<and> run_request_key r' = px_request_key v \<and> run_task_snapshot r' = run_task_snapshot r \<and>
      sessions d' = sessions d @ [s'] \<and> ss_run_id s' = run_id r' \<and> ss_predecessor_work_id s' = Some (ss_id s) \<and>
      ss_repository_id s' = ss_repository_id s \<and> ss_required_runtime s' = ss_required_runtime s \<and>
      ss_workflow s' = ss_workflow s \<and> ss_state s' \<in> {SessionQueued, SessionBlocked} \<and> attempts d' = attempts d \<and>
      (\<forall>later ids' again. trim_space (pq_work_id again) = ss_id s \<longrightarrow>
        snd (replace_work later ids' d' again) = d' \<and>
        (\<forall>v' d''. replace_work later ids' d' again = (Inr v', d'') \<longrightarrow> px_result v' = AdmissionReplayed))"
proof -
  obtain i where tx: "replace_work_tx (unix_milli now) ids d (trim_space (pq_request_key input)) (trim_space (pq_work_id input)) =
      Inr ((AdmissionAdmitted, i), d')" and key: "px_request_key v = trim_space (pq_request_key input)"
    using replace_work_Inr [OF assms(3)] assms(4) by metis
  note ok' = replace_work_tx_ok [OF assms(1,2) tx]
  from tx show ?thesis
  proof (cases rule: replace_work_tx_Inr)
    case (new s r prompt stages worker reason es ws)
    let ?target = "replacement_target (pi_work ids) s"
    let ?s = "replacement_session (unix_milli now) (pi_run ids) s ?target prompt worker reason"
    have s: "s \<in> set (sessions d)" "ss_id s = trim_space (pq_work_id input)" using find_session_Some [OF new(2)] by simp_all
    have alone: "\<forall>x \<in> set (sessions d). ss_predecessor_work_id x \<noteq> Some (ss_id s)"
      using new(5) by (auto simp: validate_work_retry_guards_def count_where_eq_0 split: if_splits)
    have rows: "find_session d' (ss_id s) = Some s" "find_run d' (ss_run_id s) = Some r"
      using new(2,3) s(2) by (simp_all add: new(11) find_session_def find_run_def find_append)
    have new_row: "?s \<in> set (sessions d')" "ss_predecessor_work_id ?s = Some (ss_id s)" by (simp_all add: new(11))
    have once: "snd (replace_work later ids' d' again) = d' \<and>
        (\<forall>v' d''. replace_work later ids' d' again = (Inr v', d'') \<longrightarrow> px_result v' = AdmissionReplayed)"
      if "trim_space (pq_work_id again) = ss_id s" for later ids' again
      using replaced_work_stays [OF rows new(4) new_row] that by blast
    show ?thesis
      by (rule exI [of _ s], rule exI [of _ r], rule exI [of _ ?s],
          rule exI [of _ "replacement_run (unix_milli now) (pi_run ids) (trim_space (pq_request_key input)) r s ?target"])
        (use s alone new(3,4) ok' once key in \<open>simp add: new(11) replacement_run_def replacement_session_def\<close>)
  qed simp
qed

subsection \<open>An example\<close>

lemma resolve_session_stages_target:
  assumes "rg_repository_identity target = rg_repository_identity other" "tg_publish_branch target = tg_publish_branch other"
  shows "resolve_session_stages t prompt run target = resolve_session_stages t prompt run other"
proof -
  have "stage_values t prompt run target = stage_values t prompt run other" by (simp add: stage_values_def assms)
  moreover have "stage_prompt_fits t target = stage_prompt_fits t other"
    by (intro ext) (simp add: stage_prompt_fits_def assms)
  ultimately have "resolve_stages t prompt run target gs = resolve_stages t prompt run other gs" for gs
    by (induction gs) (simp_all add: Let_def)
  then show ?thesis by (simp add: resolve_session_stages_def)
qed

text \<open>The failed Work of the example store, alone and with an id that a request may name.\<close>

definition demo_work_id :: ident where
  "demo_work_id = ''00000000-0000-4000-8000-00000000000b''"

definition demo_failed_work :: session where
  "demo_failed_work = (demo_session demo_work_id 0 SessionFailed ExecutionOwnerNone)\<lparr>ss_terminal_at := Some 1000000\<rparr>"

definition demo_process_run :: run where
  "demo_process_run = (demo_run (Some 1000000))\<lparr>run_task_snapshot := demo_admitted_snapshot, run_outcome_contract := OutcomeProcessExit\<rparr>"

definition demo_failed_work_db :: db where
  "demo_failed_work_db = (demo_db AttemptFailed [] StageFailed StageFailed)\<lparr>runs := [demo_process_run],
     sessions := [demo_failed_work], executions := [], attempts := [], session_stages := []\<rparr>"

definition demo_replacement_ids :: replacement_ids where
  "demo_replacement_ids = \<lparr>pi_run = ''run-2'', pi_work = ''x'', pi_execution = ''execution-2''\<rparr>"

lemmas demo_failed_work_defs = demo_failed_work_db_def demo_failed_work_def demo_process_run_def demo_db_def demo_rows demo_replacement_ids_def

lemma demo_failed_work_ok: "store_ok demo_failed_work_db" "fresh_replacement demo_replacement_ids demo_failed_work_db"
  by (simp_all add: demo_failed_work_defs store_ok_defs fresh_replacement_def demo_work_id_def)

lemma demo_failed_work_route:
  "resume_route demo_failed_work_db demo_failed_work 1000001 = Inr ((''worker-1'', ''''), demo_failed_work_db)"
proof -
  have "select_session_route demo_failed_work_db ''repo-1'' ''git.example.com/team/app'' 1000001 '''' ''codex'' =
      Inr (demo_candidate, demo_failed_work_db)"
  proof (rule demo_route_idle)
    show "retention_use demo_failed_work_db ''worker-1'' ''repo-1'' < max_retained_per_repo"
      "queued_count demo_failed_work_db ''worker-1'' = 0"
      by (simp_all add: retention_use_def find_worker_repository_def queued_count_def demo_failed_work_defs protocol_limits)
  qed (simp_all add: demo_failed_work_defs protocol_limits)
  then show ?thesis by (simp add: resume_route_def demo_failed_work_def demo_session_def demo_candidate_def)
qed

lemma work_is_replaced_once_witness:
  "\<exists>v d'. replace_work demo_now demo_replacement_ids demo_failed_work_db \<lparr>pq_request_key = ''again'', pq_work_id = demo_work_id\<rparr> = (Inr v, d') \<and>
     map ss_predecessor_work_id (sessions d') = [None, Some demo_work_id] \<and>
     snd (replace_work demo_now demo_replacement_ids d' \<lparr>pq_request_key = ''other'', pq_work_id = demo_work_id\<rparr>) = d'"
proof -
  let ?d = demo_failed_work_db and ?s = demo_failed_work and ?r = demo_process_run
  let ?input = "\<lparr>pq_request_key = ''again'', pq_work_id = demo_work_id\<rparr>"
  have trim: "trim_space ''again'' = ''again''" "trim_space demo_work_id = demo_work_id"
    by (rule trim_space_visible; simp add: in_range_def byte_def demo_work_id_def)+
  have uuid: "valid_uuid demo_work_id" unfolding demo_work_id_def by code_simp
  have now: "unix_milli demo_now = 1000001" by (simp add: demo_now_def unix_milli_def)
  have rows: "find_session ?d demo_work_id = Some ?s" "find_run ?d (ss_run_id ?s) = Some ?r" "find_run_by_key ?d ''again'' = None"
    "run_task_id ?r = ''task-1''" "run_task_snapshot ?r = demo_admitted_snapshot" "run_outcome_contract ?r = OutcomeProcessExit"
    "ss_repository_id ?s = ''repo-1''" "ss_repository_identity ?s = ''git.example.com/team/app''" "replaceable (ss_state ?s)"
    by (simp_all add: find_session_def find_run_def find_run_by_key_def demo_failed_work_defs replaceable_def)
  have guard: "validate_work_retry_guards ?d ?s = Inr ()"
    by (simp add: validate_work_retry_guards_def Let_def lineage_def lineage_level.simps demo_failed_work_defs count_where_def)
  have eligible: "validate_replacement_eligibility ?d ''task-1'' ''repo-1'' ''git.example.com/team/app'' OutcomeProcessExit (ss_execution ?s) = Inr ()"
    by (simp add: validate_replacement_eligibility_def find_task_def demo_failed_work_defs demo_task_def)
  obtain g where "resolve_session_stages demo_admitted_snapshot (ss_resolved_prompt ?s) ''run-2''
      (admission_target ''x'' 0 \<lparr>tr_id = ''repo-1'', tr_remote_identity = ''git.example.com/team/app''\<rparr>) = Inr [g]"
    by (rule demo_stages [of demo_admitted_snapshot]) simp
  moreover have "resolve_session_stages demo_admitted_snapshot (ss_resolved_prompt ?s) ''run-2'' (replacement_target ''x'' ?s) =
      resolve_session_stages demo_admitted_snapshot (ss_resolved_prompt ?s) ''run-2''
        (admission_target ''x'' 0 \<lparr>tr_id = ''repo-1'', tr_remote_identity = ''git.example.com/team/app''\<rparr>)"
    by (rule resolve_session_stages_target)
      (simp_all add: replacement_target_def admission_target_def work_target.defs demo_failed_work_def demo_session_def)
  ultimately have stages: "resolve_session_stages demo_admitted_snapshot (ss_resolved_prompt ?s) ''run-2'' (replacement_target ''x'' ?s) = Inr [g]"
    by simp
  have build: "replacement_prompt ''task-1'' ''x'' ?s = ss_resolved_prompt ?s"
    by (simp add: replacement_prompt_def standard_build_procedure_id_def)
  have ids: "pi_run demo_replacement_ids = ''run-2''" "pi_work demo_replacement_ids = ''x''" by (simp_all add: demo_replacement_ids_def)
  obtain d' where tx: "replace_work_tx (unix_milli demo_now) demo_replacement_ids ?d ''again'' demo_work_id =
      Inr ((AdmissionAdmitted, ''run-2''), d')" and runs: "\<exists>r. find_run d' ''run-2'' = Some r"
    by (simp add: replace_work_tx_def rows guard eligible build ids stages now demo_failed_work_route insert_replacement_def
        insert_session_stages_def Let_def)
      (simp add: find_run_def demo_failed_work_defs replacement_run_def)
  then obtain detail where "run_reply demo_now d' ''run-2'' = Inr detail" by (auto simp: run_reply_def Let_def)
  then obtain v where v: "replace_work demo_now demo_replacement_ids ?d ?input = (Inr v, d')" "px_result v = AdmissionAdmitted"
    using tx by (simp add: replace_work_def Let_def trim uuid prefix_def committed_def)
  from work_is_replaced_once [OF demo_failed_work_ok v(1,2)] obtain s' where
    "sessions d' = [?s, s']" "ss_predecessor_work_id s' = Some demo_work_id"
    "snd (replace_work demo_now demo_replacement_ids d' \<lparr>pq_request_key = ''other'', pq_work_id = demo_work_id\<rparr>) = d'"
    by (auto simp: trim demo_failed_work_db_def)
  with v(1) show ?thesis by (auto simp: demo_failed_work_def demo_session_def)
qed

end
