(* ===== verification/Procedure_Properties.thy ===== *)
theory Procedure_Properties
  imports Procedures Replacement_Properties
begin

text \<open>What a Procedure Run guarantees.\<close>

lemma fleet_key_taken:
  assumes "find_run_by_key d key = None" "runs d' = runs d @ [r]" "run_request_key r = key"
  shows "find_run_by_key d' key = Some r"
  using assms by (simp add: find_run_by_key_def find_append)

lemma procedure_run_replayed:
  assumes "normalize_procedure_run_request printable lower input = Inr n"
    "find_run_by_key d (trim_space (pc_request_key input)) = Some r" "run_request_digest r = procedure_run_fingerprint n"
  shows "snd (admit_procedure_run printable lower now ids d input) = d"
    "admit_procedure_run printable lower now ids d input = (Inr v, d') \<Longrightarrow> pd_result v = AdmissionReplayed"
  using assms by (auto simp: admit_procedure_run_def canonical_procedure_run_request_def admit_procedure_run_tx_def Let_def
      committed_def and_then_Inr split: sum.splits if_splits)

text \<open>C35. A Procedure Run covers its repositories. An admitted request adds one Run with one Work item per repository: for
  all repositories, the enabled managed ones and no other; for named ones, in the order of the request, the enabled managed
  repository that each name stands for. At most as many Work items are queued as the Procedure allows. A rebuild links each
  Work item to ended Work of the Procedure in the same repository that nothing follows yet, and is refused while Work of the
  Procedure is open there; without a rebuild nothing is linked. The same request again is answered with this Run and changes
  nothing.\<close>

theorem procedure_run_covers_repositories:
  assumes "sound d" "distinct (map rp_id (repositories d))" "fresh_admission ids d"
    and "admit_procedure_run printable lower now ids d input = (Inr v, d')" "pd_result v = AdmissionAdmitted"
  shows "\<exists>r new. sound d' \<and> runs d' = runs d @ [r] \<and> run_request_key r = pd_request_key v \<and>
      sessions d' = sessions d @ new \<and> new \<noteq> [] \<and> attempts d' = attempts d \<and>
      distinct (map ss_repository_id new) \<and> queued_work new \<le> ts_concurrency_limit (run_task_snapshot r) \<and>
      ts_concurrency_limit (run_task_snapshot r) \<le> max_work_targets \<and>
      (if pc_all_repositories input
       then ss_repository_id ` set new = rp_id ` {x \<in> set (repositories d). rp_centrally_managed x \<and> rp_enabled x}
       else list_all2 (\<lambda>raw s. \<exists>x \<in> set (repositories d). rp_id x = ss_repository_id s \<and> rp_centrally_managed x \<and> rp_enabled x \<and>
              normalize_github_repository raw = Inr (to_lower_ascii (rp_remote_identity x))) (pc_repositories input) new) \<and>
      (\<forall>s \<in> set new. ss_run_id s = run_id r \<and> (ss_state s = SessionQueued \<or> ss_state s = SessionBlocked) \<and>
        (if pc_rebuild input
         then (\<exists>p \<in> set (sessions d). ss_predecessor_work_id s = Some (ss_id p) \<and> replaceable (ss_state p) \<and> \<not> has_successor d p \<and>
                 procedure_work d (run_task_id r) (ss_repository_id s) p) \<and>
              (\<forall>q \<in> set (sessions d). procedure_work d (run_task_id r) (ss_repository_id s) q \<longrightarrow> \<not> session_nonterminal (ss_state q))
         else ss_predecessor_work_id s = None)) \<and>
      (\<forall>later ids'. snd (admit_procedure_run printable lower later ids' d' input) = d' \<and>
        (\<forall>v' d''. admit_procedure_run printable lower later ids' d' input = (Inr v', d'') \<longrightarrow> pd_result v' = AdmissionReplayed))"
proof -
  obtain n i where n: "normalize_procedure_run_request printable lower input = Inr n"
    and key: "pd_request_key v = trim_space (pc_request_key input)"
    and tx: "admit_procedure_run_tx printable now ids d (pd_request_key v) n (procedure_run_fingerprint n) = Inr ((AdmissionAdmitted, i), d')"
    using admit_procedure_run_Inr [OF assms(4)] assms(5) by metis
  note input = normalize_procedure_run_request_Inr [OF n]
  from tx show ?thesis
  proof (cases rule: admit_procedure_run_tx_Inr)
    case (new t targets e ready reason am)
    have named: "ni_all_repositories n \<or> ni_repositories n \<noteq> []" using input(5) by blast
    obtain rs where rs: "map rt_repository targets = map repository_of_target rs" "rs \<noteq> []" "distinct (map rp_id rs)"
      "\<And>r. r \<in> set rs \<Longrightarrow> r \<in> set (repositories d) \<and> rp_centrally_managed r \<and> rp_enabled r"
      "ni_all_repositories n \<Longrightarrow> set rs = {r \<in> set (repositories d). rp_centrally_managed r \<and> rp_enabled r}"
      "\<not> ni_all_repositories n \<Longrightarrow> map (\<lambda>r. to_lower_ascii (rp_remote_identity r)) rs = ni_repositories n"
      "1 \<le> ts_concurrency_limit t" "ts_concurrency_limit t \<le> max_work_targets"
      "\<And>x. x \<in> set targets \<Longrightarrow> if ni_rebuild n then rebuilds d (ts_id t) x else rt_predecessor x = ''''"
      by (rule procedure_plan_Inr [OF new(3) input(3,4) named assms(2)]) (rule that)
    have fresh: "fresh_admission (am_ids am) d" and some: "targets \<noteq> []" using assms(3) new(5) rs(1,2) by auto
    obtain r d1 ws es where r: "run_id r = i" "run_request_key r = pd_request_key v" "run_request_digest r = procedure_run_fingerprint n"
        "run_task_id r = ts_id t" "run_task_snapshot r = t" "d' = d1\<lparr>runs := runs d @ [r]\<rparr>" "i = ai_run ids"
      and rows: "fleet_rows am 0 d d1 ws es" "list_all2 does_target targets ws" and good: "good_step Admits d d'"
      by (rule procedure_work.fleet [OF new(6) assms(1) fresh new(1) some does_target_items]) (use new(4,5) in \<open>simp_all add: that\<close>)
    have tables: "runs d' = runs d @ [r]" "sessions d' = sessions d @ ws" "attempts d' = attempts d"
      using rows(1) by (auto simp: fleet_rows_def r(6))
    have repos: "map ss_repository_id ws = map rp_id rs"
    proof -
      have "map ss_repository_id ws = map (\<lambda>x. tr_id (rt_repository x)) targets"
        using rows(2) by (induction rule: list_all2_induct) (simp_all add: does_target_def)
      also have "\<dots> = map rp_id rs"
        using arg_cong [OF rs(1), of "map tr_id"] by (simp add: comp_def repository_of_target_def)
      finally show ?thesis .
    qed
    have covered: "if pc_all_repositories input
       then ss_repository_id ` set ws = rp_id ` {x \<in> set (repositories d). rp_centrally_managed x \<and> rp_enabled x}
       else list_all2 (\<lambda>raw s. \<exists>x \<in> set (repositories d). rp_id x = ss_repository_id s \<and> rp_centrally_managed x \<and> rp_enabled x \<and>
              normalize_github_repository raw = Inr (to_lower_ascii (rp_remote_identity x))) (pc_repositories input) ws"
    proof (cases "pc_all_repositories input")
      case True
      with repos rs(5) input(1) show ?thesis by (metis list.set_map)
    next
      case False
      then have "list_all2 (\<lambda>raw r. normalize_github_repository raw = Inr r) (pc_repositories input)
          (map (\<lambda>r. to_lower_ascii (rp_remote_identity r)) rs)"
        using input(1,5) rs(6) by simp
      then have names: "length (pc_repositories input) = length rs"
          "\<And>k. k < length rs \<Longrightarrow> normalize_github_repository (pc_repositories input ! k) = Inr (to_lower_ascii (rp_remote_identity (rs ! k)))"
        by (auto simp: list_all2_conv_all_nth)
      have len: "length ws = length rs" using repos by (metis length_map)
      have "\<exists>x \<in> set (repositories d). rp_id x = ss_repository_id (ws ! k) \<and> rp_centrally_managed x \<and> rp_enabled x \<and>
          normalize_github_repository (pc_repositories input ! k) = Inr (to_lower_ascii (rp_remote_identity x))" if "k < length rs" for k
      proof -
        have "ss_repository_id (ws ! k) = rp_id (rs ! k)" using repos len that by (metis nth_map)
        then show ?thesis using rs(4) [OF nth_mem [OF that]] names(2) [OF that] by (intro bexI [of _ "rs ! k"]) simp_all
      qed
      with False names(1) len show ?thesis by (simp add: list_all2_conv_all_nth)
    qed
    have links: "if pc_rebuild input
         then (\<exists>p \<in> set (sessions d). ss_predecessor_work_id s = Some (ss_id p) \<and> replaceable (ss_state p) \<and> \<not> has_successor d p \<and>
                 procedure_work d (run_task_id r) (ss_repository_id s) p) \<and>
              (\<forall>q \<in> set (sessions d). procedure_work d (run_task_id r) (ss_repository_id s) q \<longrightarrow> \<not> session_nonterminal (ss_state q))
         else ss_predecessor_work_id s = None" if "s \<in> set ws" for s
    proof -
      obtain x where "x \<in> set targets" and x: "does_target x s"
        using rows(2) \<open>s \<in> set ws\<close> by (metis in_set_conv_nth list_all2_lengthD list_all2_nthD2 nth_mem)
      then have "if pc_rebuild input then rebuilds d (ts_id t) x else rt_predecessor x = ''''" using rs(9) input(2) by simp
      moreover have "\<forall>p \<in> set (sessions d). '''' \<noteq> ss_id p" using soundD(3) [OF assms(1)] by (metis imageI)
      ultimately show ?thesis using x by (auto simp: rebuilds_def does_target_def null_string_def r(4) split: if_splits)
    qed
    have taken: "find_run_by_key d' (trim_space (pc_request_key input)) = Some r"
      using fleet_key_taken [OF new(1) tables(1) r(2)] key by simp
    have work: "ss_run_id s = run_id r \<and> (ss_state s = SessionQueued \<or> ss_state s = SessionBlocked)" if "s \<in> set ws" for s
      using rows(1) that new(5) by (simp add: fleet_rows_def r(1,7))
    have limit: "queued_work ws \<le> ts_concurrency_limit t" using rows(1) new(4) by (auto simp: fleet_rows_def)
    have "ws \<noteq> []" using rows(2) some by auto
    then show ?thesis
      using good repos rs(3,8) covered links work limit r(2,5) procedure_run_replayed [OF n taken r(3)]
      unfolding good_step_def by (intro exI [of _ r] exI [of _ ws]) (simp add: tables)
  qed simp
qed

subsection \<open>An example\<close>

text \<open>The store of the failed Work with its repository in the managed catalog and without Workers.\<close>

definition demo_managed :: repository where
  "demo_managed = demo_repository\<lparr>rp_remote_identity := ''github.com/team/app'', rp_centrally_managed := True\<rparr>"

definition demo_catalog_db :: db where
  "demo_catalog_db = demo_failed_work_db\<lparr>workers := [], repositories := [demo_managed],
     task_rows := [demo_task\<lparr>tk_outcome_contract := OutcomeProcessExit\<rparr>],
     pipeline_stages := [\<lparr>ps_pipeline_id = default_pipeline_id,
       ps_stage = \<lparr>pg_position = 0, pg_name = ''Do the task'', pg_prompt = ''Do it''\<rparr>\<rparr>]\<rparr>"

definition demo_procedure_request :: procedure_run_request where
  "demo_procedure_request = \<lparr>pc_request_key = ''again'', pc_procedure = ''Fix'', pc_repositories = [''github.com/team/app''],
     pc_all_repositories = False, pc_rebuild = True\<rparr>"

lemma demo_catalog_sound: "sound demo_catalog_db"
proof -
  have "store_ok demo_catalog_db" by (rule store_ok_cong [OF demo_failed_work_ok(1)]) (simp_all add: demo_catalog_db_def)
  then show ?thesis
    by (simp add: sound_def demo_catalog_db_def demo_failed_work_defs history_ok_def outcome_count_def progress_count_def count_where_def demo_work_id_def)
qed

lemma demo_catalog_fresh: "fresh_admission demo_ids demo_catalog_db"
  by (auto simp: fresh_admission_def fresh_ids_def demo_ids_def demo_catalog_db_def demo_failed_work_defs demo_work_id_def inj_on_def)

lemma demo_managed_found:
  "find_repository demo_catalog_db ''repo-1'' = Some demo_managed"
  "find_managed_repository demo_catalog_db ''github.com/team/app'' = Some demo_managed"
  "rp_id demo_managed = ''repo-1''" "rp_remote_identity demo_managed = ''github.com/team/app''" "rp_enabled demo_managed"
  by (simp_all add: find_repository_def find_managed_repository_def demo_catalog_db_def demo_managed_def demo_repository_def)

lemma demo_github_repository: "normalize_github_repository ''github.com/team/app'' = Inr ''github.com/team/app''"
proof -
  have "trim_space ''github.com/team/app'' = ''github.com/team/app''"
    by (rule trim_space_visible) (simp_all add: in_range_def byte_def)
  moreover have "trim_suffix ''github.com/team/app'' ''.git'' = ''github.com/team/app''"
    "split_on (CHR ''/'') ''github.com/team/app'' = [''github.com'', ''team'', ''app'']"
    "to_lower_ascii ''github.com'' = ''github.com''" "valid_github_owner ''team''" "valid_github_repository ''app''"
    "to_lower_ascii (join_with (CHR ''/'') [''github.com'', ''team'', ''app'']) = ''github.com/team/app''"
    by code_simp+
  ultimately show ?thesis by (simp add: normalize_github_repository_def)
qed

lemma demo_procedure_input:
  "normalize_procedure_run_request (\<lambda>_. True) id demo_procedure_request =
     Inr \<lparr>ni_procedure = ''fix'', ni_repositories = [''github.com/team/app''], ni_all_repositories = False, ni_rebuild = True\<rparr>"
proof -
  have trim: "trim_space ''Fix'' = ''Fix''" by (rule trim_space_visible) (simp_all add: in_range_def byte_def)
  have "utf8_chunks ''Fix'' = [''F'', ''i'', ''x'']" by (subst utf8_chunks_ascii) (simp_all add: ascii_def byte_def)
  moreover have "ascii_lower (CHR ''F'') = CHR ''f''" "ascii_lower (CHR ''i'') = CHR ''i''" "ascii_lower (CHR ''x'') = CHR ''x''"
    by code_simp+
  ultimately have "normalize_title_key id ''Fix'' = ''fix''" "rune_count ''Fix'' = 3"
    by (simp_all add: normalize_title_key_def lower_title_chunk_def trim byte_def rune_count_def)
  then show ?thesis
    by (simp add: normalize_procedure_run_request_def demo_procedure_request_def Let_def trim demo_github_repository max_work_targets_def)
qed

text \<open>Where there is no Worker the Work waits.\<close>

lemma route_without_workers:
  assumes "workers d = []" "repositories d = [demo_managed]"
  shows "route_target am busy (repository_of_target demo_managed) m d = Inr ((if \<not> am_profile_ready am then am_profile_reason am
      else if m < ts_concurrency_limit (am_snapshot am) then waiting_for_worker else busy, None), d)"
proof -
  have "session_run_route demo_managed ''github.com/team/app'' =
      Inr \<lparr>rr_repository_remote_identity = ''github.com/team/app'', rr_source_access = github_access\<rparr>"
    using session_run_route_github [of demo_managed] demo_github_remote by (simp add: demo_managed_def)
  then have "\<exists>e. select_session_route d ''repo-1'' ''github.com/team/app'' now '''' runtime = Inl (no_eligible_worker e)" for now runtime
    by (intro exI [of _ "session_requires_github demo_managed ''github.com/team/app''"])
      (simp add: select_session_route_def demo_managed_found select_run_route_def Let_def route_candidates_def find_repository_def
        route_repository_def assms List.map_filter_def)
  then have "\<exists>e. select_session_route d ''repo-1'' ''github.com/team/app'' (am_now am) '''' (ts_runtime (am_snapshot am)) =
      Inl (no_eligible_worker e)" by blast
  then show ?thesis
    by (auto simp: route_target_def repository_of_target_def demo_managed_found no_eligible_worker_def conflict_def service_error_code_def)
qed

lemma demo_procedure_plan:
  obtains t e where "procedure_plan printable demo_catalog_db
      \<lparr>ni_procedure = ''fix'', ni_repositories = [''github.com/team/app''], ni_all_repositories = False, ni_rebuild = True\<rparr> =
        Inr (t, [\<lparr>rt_repository = repository_of_target demo_managed, rt_predecessor = demo_work_id\<rparr>], e, True, '''')"
    "ts_workflow_id t = ''''" "ts_prompt t = ''Fix it''" "ts_name t = ''Fix''" "ts_outcome_contract t = OutcomeProcessExit"
    "pn_stages (ts_pipeline t) = [\<lparr>pg_position = 0, pg_name = ''Do the task'', pg_prompt = ''Do it''\<rparr>]"
proof -
  let ?d = demo_catalog_db
  let ?row = "demo_task\<lparr>tk_outcome_contract := OutcomeProcessExit\<rparr>"
  let ?p = "\<lparr>pn_id = default_pipeline_id, pn_name = ''Single agent'', pn_generation = 1,
    pn_stages = [\<lparr>pg_position = 0, pg_name = ''Do the task'', pg_prompt = ''Do it''\<rparr>]\<rparr>"
  let ?t = "(procedure_snapshot ?row ?p)\<lparr>ts_repositories := [repository_of_target demo_managed]\<rparr>"
  have "load_pipeline_snapshot ?d default_pipeline_id = Inr ?p"
    by (simp add: load_pipeline_snapshot_def Let_def find_pipeline_def stages_of_pipeline_def demo_pipeline_def demo_catalog_db_def demo_failed_work_defs)
  then have t: "load_procedure_snapshot ?d ''fix'' = Inr (procedure_snapshot ?row ?p)"
    by (simp add: load_procedure_snapshot_def demo_catalog_db_def demo_task_def task_pipeline_id_def coalesce_def)
  have work: "procedure_work ?d ''task-1'' ''repo-1'' demo_failed_work"
    by (simp add: procedure_work_def find_run_def demo_catalog_db_def demo_failed_work_defs)
  have rows: "sessions ?d = [demo_failed_work]" "ss_state demo_failed_work = SessionFailed" "ss_id demo_failed_work = demo_work_id"
    "ss_predecessor_work_id demo_failed_work = None"
    by (simp_all add: demo_catalog_db_def demo_failed_work_defs)
  have "select_procedure_predecessors ?d ''task-1'' True [\<lparr>rt_repository = repository_of_target demo_managed, rt_predecessor = ''''\<rparr>] =
      Inr [\<lparr>rt_repository = repository_of_target demo_managed, rt_predecessor = demo_work_id\<rparr>]"
    by (simp add: Let_def latest_work_def rows work has_successor_def repository_of_target_def demo_managed_found
        state_predicates replaceable_def)
  then have chosen: "select_procedure_predecessors ?d ''task-1'' True [target_of_repository demo_managed] =
      Inr [\<lparr>rt_repository = repository_of_target demo_managed, rt_predecessor = demo_work_id\<rparr>]"
    by (simp add: target_of_repository_def repository_of_target_def)
  have row: "ts_id ?t = ''task-1''" "ts_workflow_id ?t = ''''" "ts_concurrency_limit ?t = 1" "ts_execution_profile_id ?t = ''''"
    "ts_prompt ?t = ''Fix it''" "ts_name ?t = ''Fix''" "ts_outcome_contract ?t = OutcomeProcessExit"
    by (simp_all add: procedure_snapshot_def demo_task_def coalesce_def)
  have "\<exists>e. procedure_plan printable ?d
      \<lparr>ni_procedure = ''fix'', ni_repositories = [''github.com/team/app''], ni_all_repositories = False, ni_rebuild = True\<rparr> =
        Inr (?t, [\<lparr>rt_repository = repository_of_target demo_managed, rt_predecessor = demo_work_id\<rparr>], e, True, '''')"
    using row by (simp add: procedure_plan_def t resolve_procedure_targets_def demo_managed_found chosen max_work_targets_def
        select_procedure_workflow_def validate_task_workflow_def load_execution_snapshot_def check_backend_def Let_def
        del: select_procedure_predecessors.simps)
  then obtain e where e: "procedure_plan printable ?d
      \<lparr>ni_procedure = ''fix'', ni_repositories = [''github.com/team/app''], ni_all_repositories = False, ni_rebuild = True\<rparr> =
        Inr (?t, [\<lparr>rt_repository = repository_of_target demo_managed, rt_predecessor = demo_work_id\<rparr>], e, True, '''')" by blast
  show thesis by (rule that [OF e row(2,5-7)]) (simp add: procedure_snapshot_def)
qed

lemma procedure_run_covers_repositories_witness:
  "\<exists>v d'. admit_procedure_run (\<lambda>_. True) id demo_now demo_ids demo_catalog_db demo_procedure_request = (Inr v, d') \<and>
     pd_result v = AdmissionAdmitted \<and> sound d' \<and>
     (\<exists>s. sessions d' = sessions demo_catalog_db @ [s] \<and> ss_repository_id s = ''repo-1'' \<and> ss_predecessor_work_id s = Some demo_work_id) \<and>
     snd (admit_procedure_run (\<lambda>_. True) id (2 * demo_now) demo_ids d' demo_procedure_request) = d'"
proof -
  let ?d = demo_catalog_db and ?r = "\<lparr>rt_repository = repository_of_target demo_managed, rt_predecessor = demo_work_id\<rparr>"
  let ?n = "\<lparr>ni_procedure = ''fix'', ni_repositories = [''github.com/team/app''], ni_all_repositories = False, ni_rebuild = True\<rparr>"
  obtain t e where plan: "procedure_plan (\<lambda>_. True) ?d ?n = Inr (t, [?r], e, True, '''')"
    and t: "ts_workflow_id t = ''''" "ts_prompt t = ''Fix it''" "ts_name t = ''Fix''" "ts_outcome_contract t = OutcomeProcessExit"
    "pn_stages (ts_pipeline t) = [\<lparr>pg_position = 0, pg_name = ''Do the task'', pg_prompt = ''Do it''\<rparr>]"
    by (rule demo_procedure_plan)
  define am where "am = \<lparr>am_now = unix_milli demo_now, am_ids = demo_ids, am_snapshot = t, am_execution = e, am_prompt = ''Fix it'',
    am_profile_ready = True, am_profile_reason = ''''\<rparr>"
  have am: "am_snapshot am = t" "am_ids am = demo_ids" "am_prompt am = ''Fix it''" by (simp_all add: am_def)
  let ?target = "admission_target (ai_work demo_ids 0) 0 (repository_of_target demo_managed)"
  have "agent_prompt_fits ''Fix'' ''github.com/team/app'' ''Do it''"
    by (simp add: agent_prompt_fits_def format_agent_prompt_def newline_def max_agent_prompt_bytes_def)
  then have "stage_prompt_fits t ?target True ''Do it''"
    by (simp add: stage_prompt_fits_def admission_target_def repository_of_target_def demo_managed_found t)
  with t(5) obtain g where g: "resolve_session_stages t ''Fix it'' (ai_run demo_ids) ?target = Inr [g]" by (rule plain_stages)
  let ?started = "?d\<lparr>runs := runs ?d @ [fleet_run (am_now am) (ai_run demo_ids) ''again'' (procedure_run_fingerprint ?n) t (am_execution am)]\<rparr>"
  have rows: "workers ?started = []" "repositories ?started = [demo_managed]" "\<forall>s \<in> set (sessions ?started). ss_run_id s \<noteq> ai_run demo_ids"
    by (simp_all add: demo_catalog_db_def demo_failed_work_defs demo_ids_def)
  have "\<exists>d1. admit_procedure_target (\<lambda>_. True) am 0 ?r 0 ?started = Inr ((?target, False), d1)"
    using rows(3) by (auto simp: admit_procedure_target_def Let_def am t g resolve_task_workflow_prompt_def max_resolved_prompt_bytes_def
        route_without_workers [OF rows(1,2)] insert_successor_def insert_session_stages_def list_ex_iff)
  then obtain d1 where one: "admit_procedure_target (\<lambda>_. True) am 0 ?r 0 ?started = Inr ((?target, False), d1)" by blast
  obtain i d' where run: "admit_fleet am (admit_procedure_target (\<lambda>_. True) am) ''again'' (procedure_run_fingerprint ?n) [?r] ?d = Inr (i, d')"
    using one by (simp add: admit_fleet_def Let_def am)
  have key: "find_run_by_key ?d ''again'' = None" by (simp add: find_run_by_key_def demo_catalog_db_def demo_failed_work_defs)
  then have tx: "admit_procedure_run_tx (\<lambda>_. True) demo_now demo_ids ?d ''again'' ?n (procedure_run_fingerprint ?n) =
      Inr ((AdmissionAdmitted, i), d')"
    using plan run by (simp add: admit_procedure_run_tx_def Let_def t(2) am_def)
  have fresh: "fresh_admission (am_ids am) ?d" using demo_catalog_fresh am(2) by simp
  obtain r d2 where "run_id r = i" "d' = d2\<lparr>runs := runs ?d @ [r]\<rparr>"
    by (rule procedure_work.fleet [OF run demo_catalog_sound fresh key _ does_target_items]) (simp_all add: that)
  then obtain detail where "run_reply demo_now d' i = Inr detail"
    using run_reply_found [of r d' demo_now] by (cases "run_reply demo_now d' i") auto
  moreover have "trim_space ''again'' = ''again''" by (rule trim_space_visible) (simp_all add: in_range_def byte_def)
  then have "trim_space (pc_request_key demo_procedure_request) = ''again''" by (simp add: demo_procedure_request_def)
  ultimately obtain v where v: "admit_procedure_run (\<lambda>_. True) id demo_now demo_ids ?d demo_procedure_request = (Inr v, d')"
      "pd_result v = AdmissionAdmitted"
    using tx by (simp add: admit_procedure_run_def canonical_procedure_run_request_def demo_procedure_input Let_def committed_def
        prefix_def)
  have keys: "distinct (map rp_id (repositories ?d))" by (simp add: demo_catalog_db_def)
  have request: "\<not> pc_all_repositories demo_procedure_request" "pc_rebuild demo_procedure_request"
    "pc_repositories demo_procedure_request = [''github.com/team/app'']"
    by (simp_all add: demo_procedure_request_def)
  have tables: "repositories ?d = [demo_managed]" "sessions ?d = [demo_failed_work]" "ss_id demo_failed_work = demo_work_id"
    by (simp_all add: demo_catalog_db_def demo_failed_work_defs)
  from procedure_run_covers_repositories [OF demo_catalog_sound keys demo_catalog_fresh v] show ?thesis
    using v by (auto simp: request tables demo_managed_found list_all2_Cons1)
qed

end
