(* ===== verification/Workflow_Properties.thy ===== *)
theory Workflow_Properties
  imports Workflow_Catalogs
begin

text \<open>What the workflow catalogs of repositories guarantee.\<close>

subsection \<open>Catalogs\<close>

text \<open>C38. A catalog that is built without an error is healthy and well formed: at most a hundred files of together at most
  2 MiB, each workflow with the id, the title and the labels in their bounds, ids that are unique, and among them the
  implementation workflow, which is added where no file declares it.\<close>

theorem built_catalog_is_well_formed:
  assumes "build_repository_workflow_catalog yaml printable lower i identity commit_sha files = (c, None)"
  shows "ca_status c = ''healthy'' \<and> length (workflow_files files) \<le> max_repository_workflow_files \<and>
    (\<Sum>f\<leftarrow>workflow_files files. length (snd f)) \<le> max_repository_workflow_catalog \<and>
    (\<forall>w \<in> set (ca_workflows c). workflow_ok w) \<and> distinct (map rf_id (ca_workflows c)) \<and>
    workflow_fallback \<in> rf_id ` set (ca_workflows c) \<and>
    (map rf_path (ca_workflows c) = map fst (workflow_files files) \<or>
     map rf_path (ca_workflows c) = map fst (workflow_files files) @ [workflow_fallback_path])"
proof -
  from assms obtain ws where few: "length (workflow_files files) \<le> max_repository_workflow_files"
    and read: "read_workflows yaml printable lower commit_sha 0 [] (workflow_files files) = (ws, None)"
    and c: "c = healthy_catalog i identity commit_sha (if list_ex (\<lambda>w. rf_id w = workflow_fallback) ws then ws
        else ws @ [fallback_workflow (trim_space commit_sha)])"
    by (auto simp: build_repository_workflow_catalog_def Let_def not_less split: if_splits prod.splits option.splits)
  from read_workflows_Inr [OF read] have ws: "map rf_path ws = map fst (workflow_files files)" "distinct (map rf_id ws)"
      "\<forall>w \<in> set ws. workflow_ok w" "(\<Sum>f\<leftarrow>workflow_files files. length (snd f)) \<le> max_repository_workflow_catalog"
    by simp_all
  have "standard_build_prompt \<noteq> ''''" by (simp add: standard_build_prompt_def)
  then have "workflow_ok (fallback_workflow commit)" for commit
    using workflow_fallback_ok by (simp add: workflow_ok_def fallback_workflow_def max_workflow_title_bytes_def
        max_workflow_description_bytes_def max_workflow_labels_def)
  then show ?thesis
    using few ws by (auto simp: c healthy_catalog_def list_ex_iff fallback_workflow_def intro: rev_image_eqI)
qed

lemma built_catalog_is_well_formed_witness:
  "\<exists>c. build_repository_workflow_catalog (\<lambda>_. Inl ''unused'') (\<lambda>_. True) id ''repo-1'' ''github.com/team/app'' ''''
     [(''README.md'', ''Hello'')] = (c, None) \<and> map rf_id (ca_workflows c) = [workflow_fallback] \<and> workflow_ok (hd (ca_workflows c))"
proof -
  have "workflow_files [(''README.md'', ''Hello'')] = []" by (simp add: workflow_files_def repository_workflow_dir_def)
  then obtain c where c: "build_repository_workflow_catalog (\<lambda>_. Inl ''unused'') (\<lambda>_. True) id ''repo-1'' ''github.com/team/app'' ''''
      [(''README.md'', ''Hello'')] = (c, None)" "map rf_id (ca_workflows c) = [workflow_fallback]"
    by (simp add: build_repository_workflow_catalog_def healthy_catalog_def fallback_workflow_def)
  have "\<forall>w \<in> set (ca_workflows c). workflow_ok w" using built_catalog_is_well_formed [OF c(1)] by blast
  moreover have "ca_workflows c \<noteq> []" using c(2) by (metis list.simps(8) list.distinct(1))
  ultimately have "workflow_ok (hd (ca_workflows c))" using hd_in_set by blast
  with c show ?thesis by (intro exI [of _ c] conjI)
qed

subsection \<open>Options\<close>

lemma map_of_filter_keys:
  "distinct (map fst al) \<Longrightarrow> map_of (filter (\<lambda>(i, x). Q i x) al) i =
     (case map_of al i of None \<Rightarrow> None | Some x \<Rightarrow> if Q i x then Some x else None)"
proof (induction al)
  case (Cons a al)
  then show ?case by (cases a) (auto split: option.splits simp: map_of_eq_None_iff dest: map_of_SomeD image_eqI [where f = fst])
qed simp

lemma count_one_simps:
  "map_of counts (rf_id w) = None \<Longrightarrow> count_one w (seen, counts) = (seen, counts)"
  "map_of counts (rf_id w) = Some x \<Longrightarrow> count_one w (seen, counts) =
     (rf_id w # seen, AList.update (rf_id w) (x\<lparr>wfo_repository_count := wfo_repository_count x + 1\<rparr>) counts)"
  by (simp_all add: count_one_def)

lemma fold_count_one:
  assumes "distinct (map rf_id ws)" "distinct (map fst counts)" "fold count_one ws (seen, counts) = (seen', counts')"
  shows "distinct (map fst counts') \<and> set seen' = set seen \<union> {i \<in> rf_id ` set ws. map_of counts i \<noteq> None} \<and>
    (\<forall>i. map_of counts' i = (if i \<in> rf_id ` set ws
       then map_option (\<lambda>x. x\<lparr>wfo_repository_count := wfo_repository_count x + 1\<rparr>) (map_of counts i) else map_of counts i))"
  using assms
proof (induction ws arbitrary: seen counts)
  case (Cons w ws)
  show ?case
  proof (cases "map_of counts (rf_id w)")
    case None
    then have "fold count_one ws (seen, counts) = (seen', counts')" using Cons.prems(3) by (simp add: count_one_simps(1))
    with Cons.IH [OF _ Cons.prems(2) this] Cons.prems(1) None show ?thesis by auto
  next
    case (Some x)
    let ?c = "AList.update (rf_id w) (x\<lparr>wfo_repository_count := wfo_repository_count x + 1\<rparr>) counts"
    have step: "fold count_one ws (rf_id w # seen, ?c) = (seen', counts')" using Cons.prems(3) by (simp add: count_one_simps(2) [OF Some])
    have "distinct (map fst ?c)" using Cons.prems(2) by (rule distinct_update)
    from Cons.IH [OF _ this step] Cons.prems(1) Some show ?thesis by (auto simp: update_conv' split: if_splits)
  qed
qed simp

definition counted :: "nat \<Rightarrow> option_counts \<Rightarrow> bool" where
  "counted n counts \<longleftrightarrow> distinct (map fst counts) \<and> (\<forall>(i, x) \<in> set counts. wfo_id x = i \<and> wfo_repository_count x = n)"

lemma counted_iff:
  "distinct (map fst counts) \<Longrightarrow> counted n counts \<longleftrightarrow> (\<forall>i x. map_of counts i = Some x \<longrightarrow> wfo_id x = i \<and> wfo_repository_count x = n)"
  by (auto simp: counted_def map_of_eq_Some_iff)

lemma count_next_shared:
  assumes "distinct (map rf_id ws)" "counted index counts"
  shows "counted (index + 1) (count_next index ws counts)"
    "map_of (count_next index ws counts) i = (case map_of counts i of None \<Rightarrow> None
       | Some x \<Rightarrow> if i \<in> rf_id ` set ws then Some (x\<lparr>wfo_repository_count := index + 1\<rparr>) else None)"
proof -
  obtain seen counts' where f: "fold count_one ws ([], counts) = (seen, counts')" by (cases "fold count_one ws ([], counts)")
  have keys: "distinct (map fst counts)" using assms(2) by (simp add: counted_def)
  from fold_count_one [OF assms(1) keys f] have c: "distinct (map fst counts')" "set seen = {i \<in> rf_id ` set ws. map_of counts i \<noteq> None}"
    "\<And>i. map_of counts' i = (if i \<in> rf_id ` set ws
       then map_option (\<lambda>x. x\<lparr>wfo_repository_count := wfo_repository_count x + 1\<rparr>) (map_of counts i) else map_of counts i)"
    by auto
  have old: "map_of counts i = Some x \<Longrightarrow> wfo_id x = i \<and> wfo_repository_count x = index" for i x
    using assms(2) keys counted_iff by blast
  have look: "map_of (count_next index ws counts) i = (case map_of counts i of None \<Rightarrow> None
       | Some x \<Rightarrow> if i \<in> rf_id ` set ws then Some (x\<lparr>wfo_repository_count := index + 1\<rparr>) else None)" for i
  proof (cases "map_of counts i")
    case None
    then show ?thesis by (simp add: count_next_def f map_of_filter_keys [OF c(1)] c(3))
  next
    case (Some x)
    with old [OF Some] show ?thesis by (simp add: count_next_def f map_of_filter_keys [OF c(1)] c(2,3))
  qed
  then show "map_of (count_next index ws counts) i = (case map_of counts i of None \<Rightarrow> None
       | Some x \<Rightarrow> if i \<in> rf_id ` set ws then Some (x\<lparr>wfo_repository_count := index + 1\<rparr>) else None)" .
  have "distinct (map fst (count_next index ws counts))"
    using c(1) by (simp add: count_next_def f distinct_map_filter)
  then show "counted (index + 1) (count_next index ws counts)"
    unfolding counted_iff [OF \<open>distinct (map fst (count_next index ws counts))\<close>] look
    using old by (auto split: option.splits if_splits)
qed

lemma count_first_shared:
  assumes "distinct (map rf_id ws)"
  shows "counted 1 (count_first ws)"
    "map_of (count_first ws) i = map_option first_option (find (\<lambda>w. rf_id w = i) ws)"
proof -
  have fold: "distinct (map fst (fold (\<lambda>w counts. AList.update (rf_id w) (first_option w) counts) ws al)) \<and>
      map_of (fold (\<lambda>w counts. AList.update (rf_id w) (first_option w) counts) ws al) i =
        (case find (\<lambda>w. rf_id w = i) ws of None \<Rightarrow> map_of al i | Some w \<Rightarrow> Some (first_option w))"
    if "distinct (map fst al)" "distinct (map rf_id ws)" for al i
    using that
  proof (induction ws arbitrary: al)
    case (Cons w ws)
    have "find (\<lambda>x. rf_id x = rf_id w) ws = None" using Cons.prems(2) by (auto simp: find_None_iff image_iff)
    then show ?case
      using Cons.IH [of "AList.update (rf_id w) (first_option w) al"] Cons.prems distinct_update [OF Cons.prems(1)]
      by (auto simp: update_conv' split: option.splits)
  qed simp
  show look: "map_of (count_first ws) i = map_option first_option (find (\<lambda>w. rf_id w = i) ws)" for i
    using fold [of "[]" i] assms by (simp add: count_first_def split: option.splits)
  have keys: "distinct (map fst (count_first ws))" using fold [of "[]"] assms by (simp add: count_first_def)
  show "counted 1 (count_first ws)"
    unfolding counted_iff [OF keys] look by (auto simp: first_option_def dest: find_Some_set)
qed

text \<open>The catalog of a repository is stored: reading it does not refresh it.\<close>

definition catalog_stored :: "db \<Rightarrow> ident \<Rightarrow> bool" where
  "catalog_stored d i \<longleftrightarrow> find (\<lambda>c. wc_repository_id c = i) (workflow_catalogs d) \<noteq> None \<and> find_repository d i \<noteq> None \<and>
     distinct (map rf_id (stored_workflows d i))"

lemma read_stored_catalog:
  assumes "catalog_stored d i"
  obtains c where "read_workflow_catalog rt source now d i = ((c, None), d)" "ca_workflows c = stored_workflows d i"
    "find (\<lambda>c. wc_repository_id c = i) (workflow_catalogs d) = Some x \<Longrightarrow> ca_status c = wc_status x"
  using assms by (auto simp: catalog_stored_def read_workflow_catalog_def Let_def)

lemma collect_options_shared:
  assumes "collect_options rt source now index ids counts d = (Inr counts', d')" "counted index counts" "0 < index"
    and "\<And>i. i \<in> set ids \<Longrightarrow> catalog_stored d i"
  shows "d' = d \<and> counted (index + length ids) counts' \<and>
    (\<forall>i. map_of counts' i = (case map_of counts i of None \<Rightarrow> None
       | Some x \<Rightarrow> if \<forall>r \<in> set ids. i \<in> rf_id ` set (stored_workflows d r)
           then Some (x\<lparr>wfo_repository_count := index + length ids\<rparr>) else None))"
  using assms
proof (induction ids arbitrary: index counts)
  case Nil
  then have "x\<lparr>wfo_repository_count := index\<rparr> = x" if "map_of counts i = Some x" for i x
    using that counted_iff [of counts index] by (auto simp: counted_def)
  with Nil show ?case by (auto split: option.splits)
next
  case (Cons r ids)
  obtain c where c: "read_workflow_catalog rt source now d r = ((c, None), d)" "ca_workflows c = stored_workflows d r"
    by (rule read_stored_catalog [OF Cons.prems(4)]) auto
  let ?ws = "stored_workflows d r"
  have ws: "distinct (map rf_id ?ws)" using Cons.prems(4) by (simp add: catalog_stored_def)
  have rest: "collect_options rt source now (index + 1) ids (count_next index ?ws counts) d = (Inr counts', d')"
    using Cons.prems(1,3) c by (auto split: if_splits)
  note next' = count_next_shared [OF ws Cons.prems(2)]
  have stored: "i \<in> set ids \<Longrightarrow> catalog_stored d i" for i using Cons.prems(4) by simp
  from Cons.IH [OF rest next'(1) _ stored] show ?case
    by (auto simp: next'(2) split: option.splits)
qed

text \<open>C39. The options for several repositories are the workflows they share. Where the catalog of every selected repository is
  stored, reading the options changes nothing, needs every catalog to be healthy, and answers, in the order of their ids, each
  workflow id that all of them declare exactly once, with the title and description of the first repository and the number of
  repositories.\<close>

theorem options_are_shared:
  assumes "workflow_options rt source now d ids = (Inr os, d')" "ids \<noteq> []" "\<And>i. i \<in> set ids \<Longrightarrow> catalog_stored d i"
  shows "d' = d \<and> sorted (map wfo_id os) \<and> distinct (map wfo_id os) \<and>
    wfo_id ` set os = {w. \<forall>r \<in> set ids. w \<in> rf_id ` set (stored_workflows d r)} \<and>
    (\<forall>x \<in> set os. wfo_repository_count x = length ids \<and>
       (\<exists>w \<in> set (stored_workflows d (hd ids)). rf_id w = wfo_id x \<and> rf_title w = wfo_title x \<and> rf_description w = wfo_description x))"
proof -
  from assms(2) obtain i rest where ids: "ids = i # rest" by (cases ids) auto
  obtain c where c: "read_workflow_catalog rt source now d i = ((c, None), d)" "ca_workflows c = stored_workflows d i"
    by (rule read_stored_catalog [of d i]) (use assms(3) ids in auto)
  let ?ws = "stored_workflows d i"
  have ws: "distinct (map rf_id ?ws)" using assms(3) [of i] by (simp add: ids catalog_stored_def)
  from assms(1) obtain counts where run: "collect_options rt source now 1 rest (count_first ?ws) d = (Inr counts, d')"
    and os: "os = sort_key wfo_id (map snd counts)"
    by (auto simp: workflow_options_def ids c split: if_splits prod.splits sum.splits)
  have stored: "r \<in> set rest \<Longrightarrow> catalog_stored d r" for r using assms(3) ids by simp
  note first = count_first_shared [OF ws]
  have len: "length ids = 1 + length rest" by (simp add: ids)
  have done': "d' = d" "counted (length ids) counts"
    and look: "\<And>w. map_of counts w = (case map_option first_option (find (\<lambda>x. rf_id x = w) ?ws) of None \<Rightarrow> None
      | Some x \<Rightarrow> if \<forall>r \<in> set rest. w \<in> rf_id ` set (stored_workflows d r) then Some (x\<lparr>wfo_repository_count := length ids\<rparr>) else None)"
    using collect_options_shared [OF run first(1) _ stored] unfolding first(2) len by simp_all
  have keys: "distinct (map fst counts)" "map wfo_id (map snd counts) = map fst counts"
    using done'(2) by (auto simp: counted_def)
  have all: "(w \<in> fst ` set counts) \<longleftrightarrow> (\<forall>r \<in> set ids. w \<in> rf_id ` set (stored_workflows d r))" for w
  proof -
    have "w \<in> fst ` set counts \<longleftrightarrow> map_of counts w \<noteq> None" by (simp add: map_of_eq_None_iff)
    also have "\<dots> \<longleftrightarrow> find (\<lambda>x. rf_id x = w) ?ws \<noteq> None \<and> (\<forall>r \<in> set rest. w \<in> rf_id ` set (stored_workflows d r))"
      by (auto simp: look split: option.splits)
    also have "find (\<lambda>x. rf_id x = w) ?ws \<noteq> None \<longleftrightarrow> w \<in> rf_id ` set ?ws" by (auto simp: find_None_iff image_iff)
    finally show ?thesis by (simp add: ids)
  qed
  have "wfo_id ` set os = fst ` set counts"
    using arg_cong [OF keys(2), of set] by (simp add: os image_image)
  then have shared: "wfo_id ` set os = {w. \<forall>r \<in> set ids. w \<in> rf_id ` set (stored_workflows d r)}" using all by (simp add: set_eq_iff)
  have each: "wfo_repository_count x = length ids \<and>
      (\<exists>w \<in> set ?ws. rf_id w = wfo_id x \<and> rf_title w = wfo_title x \<and> rf_description w = wfo_description x)" if "x \<in> set os" for x
  proof -
    from that have "x \<in> snd ` set counts" by (simp add: os)
    then obtain k where "(k, x) \<in> set counts" by auto
    then have "map_of counts k = Some x" using keys(1) by simp
    then obtain w where "find (\<lambda>x. rf_id x = k) ?ws = Some w" "x = (first_option w)\<lparr>wfo_repository_count := length ids\<rparr>"
      by (auto simp: look split: option.splits if_splits)
    then show ?thesis by (intro conjI bexI [of _ w]) (auto simp: first_option_def dest: find_Some_set)
  qed
  have "distinct (map wfo_id os)"
  proof -
    have "distinct (map wfo_id (map snd counts))" unfolding keys(2) by (rule keys(1))
    then have one: "distinct counts" "inj_on (wfo_id \<circ> snd) (set counts)" by (simp_all add: distinct_map)
    have "inj_on snd (set counts)" "inj_on wfo_id (snd ` set counts)"
      by (rule inj_on_imageI2 [OF one(2)], rule inj_on_imageI [OF one(2)])
    then show ?thesis using one(1) by (simp add: os distinct_map)
  qed
  with done'(1) shared each show ?thesis by (simp add: os ids)
qed

subsection \<open>A refresh that cannot succeed\<close>

lemma read_workflows_from:
  "read_workflows yaml printable lower commit_sha bytes ws files = (ws', e) \<Longrightarrow> w \<in> set ws' \<Longrightarrow>
   w \<in> set ws \<or> (\<exists>(p, content) \<in> set files. parse_repository_workflow yaml printable lower p commit_sha content = Inr w)"
  by (induction files arbitrary: bytes ws) (fastforce split: if_splits sum.splits option.splits)+

lemma built_for_repository:
  "build_repository_workflow_catalog yaml printable lower i identity commit_sha files = (c, fault) \<Longrightarrow> ca_repository_id c = i"
  by (auto simp: build_repository_workflow_catalog_def healthy_catalog_def Let_def split: if_splits prod.splits option.splits)

text \<open>The file of the implementation workflow is there, and no file declares that workflow.\<close>

definition fallback_path_occupied :: "workflow_runtime \<Rightarrow> string \<times> (string \<times> string) list \<Rightarrow> bool" where
  "fallback_path_occupied rt listed \<longleftrightarrow> (case listed of (commit_sha, files) \<Rightarrow>
     workflow_fallback_path \<in> fst ` set (workflow_files files) \<and>
     (\<forall>(p, content) \<in> set (workflow_files files).
        case parse_repository_workflow (wt_yaml rt) (wt_printable rt) (wt_lower rt) p commit_sha content of
          Inl _ \<Rightarrow> True | Inr w \<Rightarrow> rf_id w \<noteq> workflow_fallback))"

lemma occupied_path_unsaved:
  assumes "build_repository_workflow_catalog (wt_yaml rt) (wt_printable rt) (wt_lower rt) i identity commit_sha files = (c, None)"
    and "fallback_path_occupied rt (commit_sha, files)"
  shows "ca_status c = ''healthy''" "save_workflow_catalog_tx now (c\<lparr>ca_synced_at := Some now\<rparr>) d = Inl unavailable"
proof -
  from assms(1) obtain ws where
    read: "read_workflows (wt_yaml rt) (wt_printable rt) (wt_lower rt) commit_sha 0 [] (workflow_files files) = (ws, None)"
    and c: "c = healthy_catalog i identity commit_sha (if list_ex (\<lambda>w. rf_id w = workflow_fallback) ws then ws
        else ws @ [fallback_workflow (trim_space commit_sha)])"
    by (auto simp: build_repository_workflow_catalog_def Let_def split: if_splits prod.splits option.splits)
  have "\<not> list_ex (\<lambda>w. rf_id w = workflow_fallback) ws"
    using read_workflows_from [OF read] assms(2) by (fastforce simp: list_ex_iff fallback_path_occupied_def)
  then have "ca_workflows c = ws @ [fallback_workflow (trim_space commit_sha)]" by (simp add: c healthy_catalog_def)
  moreover have "map rf_path ws = map fst (workflow_files files)" using read_workflows_Inr [OF read] by auto
  then have paths: "rf_path ` set ws = fst ` set (workflow_files files)" by (metis list.set_map)
  have "workflow_fallback_path \<in> fst ` set (workflow_files files)" using assms(2) by (simp only: fallback_path_occupied_def prod.case)
  then have "rf_path (fallback_workflow (trim_space commit_sha)) \<in> rf_path ` set ws"
    by (simp only: paths fallback_workflow_def repository_workflow.select_convs)
  ultimately have "\<not> distinct (map rf_path (ca_workflows c))" by simp
  moreover show "ca_status c = ''healthy''" by (simp add: c healthy_catalog_def)
  ultimately show "save_workflow_catalog_tx now (c\<lparr>ca_synced_at := Some now\<rparr>) d = Inl unavailable"
    by (simp add: save_workflow_catalog_tx_def Let_def)
qed

text \<open>What a saved catalog that is not healthy leaves behind: its status in the row of the repository, and no workflow.\<close>

lemma saved_unhealthy:
  assumes "ca_status c \<noteq> ''healthy''"
  obtains d' where "saved now d (c, Some e) = ((c, Some (plain_error e)), d')" "stored_workflows d' (ca_repository_id c) = []"
    "\<exists>x \<in> set (workflow_catalogs d'). wc_repository_id x = ca_repository_id c \<and> wc_status x = ca_status c"
proof -
  obtain d' where tx: "save_workflow_catalog_tx now c d = Inr d'" using assms by (simp add: save_workflow_catalog_tx_def Let_def)
  have "stored_workflows d' (ca_repository_id c) = []"
    using tx assms by (auto simp: save_workflow_catalog_tx_def Let_def stored_workflows_def filter_empty_conv)
  moreover define row where "row = \<lparr>wc_repository_id = ca_repository_id c, wc_commit_sha = ca_commit_sha c, wc_status = ca_status c,
    wc_error = ca_error c, wc_synced_at = unix_milli (coalesce (ca_synced_at c) now), wc_total_bytes = workflow_catalog_bytes (ca_workflows c)\<rparr>"
  have "row \<in> set (workflow_catalogs d')"
    using tx assms by (auto simp: save_workflow_catalog_tx_def Let_def list_ex_iff set_update_where row_def)
  then have "\<exists>x \<in> set (workflow_catalogs d'). wc_repository_id x = ca_repository_id c \<and> wc_status x = ca_status c"
    by (rule bexI [rotated]) (simp add: row_def)
  ultimately show thesis using that tx by (simp add: saved_def save_workflow_catalog_def)
qed

text \<open>C40. The path of the implementation workflow cannot hold another workflow. As long as the files that GitHub lists for an
  enabled managed repository, whenever it lists them, include implement.md and none of them declares the id of the
  implementation workflow, no refresh of the catalog succeeds. Where the files cannot be listed, or no catalog can be built
  from them, the catalog is stored as unavailable or invalid, without workflows. Where the catalog is built without an
  error, its table has one row per path and the added implementation workflow has the path of that file: the refresh is
  answered with the failure of the storage and changes nothing.\<close>

theorem occupied_fallback_path_fails:
  assumes "find_repository d i = Some r" "rp_centrally_managed r" "rp_enabled r"
    and "\<forall>listed. list_files (rp_remote_identity r) = Inr listed \<longrightarrow> fallback_path_occupied rt listed"
    and "refresh_repository_workflow_catalog rt (Some list_files) now d i = ((c, outcome), d')"
  shows "case list_files (rp_remote_identity r) of
      Inl e \<Rightarrow> outcome = Some (plain_error e) \<and> ca_status c = ''unavailable'' \<and> stored_workflows d' i = [] \<and>
        (\<exists>x \<in> set (workflow_catalogs d'). wc_repository_id x = i \<and> wc_status x = ''unavailable'')
    | Inr (commit_sha, files) \<Rightarrow>
        (case build_repository_workflow_catalog (wt_yaml rt) (wt_printable rt) (wt_lower rt) i (rp_remote_identity r) commit_sha files of
           (_, Some e) \<Rightarrow> outcome = Some (plain_error e) \<and> ca_status c = ''invalid'' \<and> stored_workflows d' i = [] \<and>
             (\<exists>x \<in> set (workflow_catalogs d'). wc_repository_id x = i \<and> wc_status x = ''invalid'')
         | (_, None) \<Rightarrow> outcome = Some unavailable \<and> ca_status c = ''healthy'' \<and> d' = d)"
proof (cases "list_files (rp_remote_identity r)")
  case (Inl e)
  let ?c = "(healthy_catalog i (rp_remote_identity r) '''' [])\<lparr>ca_status := ''unavailable'', ca_error := e, ca_synced_at := Some now\<rparr>"
  have "saved now d (?c, Some e) = ((c, outcome), d')"
    using assms(1-3,5) Inl by (simp add: refresh_repository_workflow_catalog_def)
  moreover obtain d1 where "saved now d (?c, Some e) = ((?c, Some (plain_error e)), d1)" "stored_workflows d1 (ca_repository_id ?c) = []"
    "\<exists>x \<in> set (workflow_catalogs d1). wc_repository_id x = ca_repository_id ?c \<and> wc_status x = ca_status ?c"
    by (rule saved_unhealthy [of ?c now d e]) simp_all
  ultimately show ?thesis using Inl by (auto simp: healthy_catalog_def)
next
  case (Inr listed)
  obtain commit_sha files where listed: "listed = (commit_sha, files)" by (metis surj_pair)
  note list = Inr [unfolded listed]
  have run: "saved now d (built_catalog rt now i (rp_remote_identity r) commit_sha files) = ((c, outcome), d')"
    using assms(1-3,5) list by (simp add: refresh_repository_workflow_catalog_def)
  obtain c0 fault where built: "build_repository_workflow_catalog (wt_yaml rt) (wt_printable rt) (wt_lower rt) i (rp_remote_identity r) commit_sha files = (c0, fault)"
    by (metis surj_pair)
  show ?thesis
  proof (cases fault)
    case None
    have "fallback_path_occupied rt (commit_sha, files)" using assms(4) list by blast
    note unsaved = occupied_path_unsaved [OF built [unfolded None] this]
    show ?thesis using run unsaved by (auto simp: list built None built_catalog_def saved_def save_workflow_catalog_def)
  next
    case (Some e)
    let ?c = "c0\<lparr>ca_synced_at := Some now, ca_status := ''invalid'', ca_error := e\<rparr>"
    have "ca_repository_id c0 = i" using built by (rule built_for_repository)
    then obtain d1 where "saved now d (?c, Some e) = ((?c, Some (plain_error e)), d1)" "stored_workflows d1 i = []"
      "\<exists>x \<in> set (workflow_catalogs d1). wc_repository_id x = i \<and> wc_status x = ''invalid''"
      using saved_unhealthy [of ?c now d e] by auto
    then show ?thesis using run by (auto simp: list built Some built_catalog_def)
  qed
qed

subsection \<open>Examples\<close>

text \<open>Two repositories that share the implementation workflow, one of which declares another.\<close>

definition demo_entry :: "ident \<Rightarrow> string \<Rightarrow> workflow_entry_row" where
  "demo_entry i w = \<lparr>we_repository_id = i, we_workflow = no_workflow\<lparr>wf_id := w, wf_title := w, wf_path := w\<rparr>, we_labels = []\<rparr>"

definition demo_catalog_row :: "ident \<Rightarrow> workflow_catalog_row" where
  "demo_catalog_row i = \<lparr>wc_repository_id = i, wc_commit_sha = '''', wc_status = ''healthy'', wc_error = '''', wc_synced_at = 0,
     wc_total_bytes = 0\<rparr>"

definition demo_workflows_db :: db where
  "demo_workflows_db = demo_queued_db\<lparr>repositories := [demo_repository, demo_repository\<lparr>rp_id := ''repo-2''\<rparr>],
     workflow_catalogs := [demo_catalog_row ''repo-1'', demo_catalog_row ''repo-2''],
     workflow_entries := [demo_entry ''repo-1'' ''implement'', demo_entry ''repo-1'' ''review'', demo_entry ''repo-2'' ''implement'']\<rparr>"

definition demo_workflow_runtime :: workflow_runtime where
  "demo_workflow_runtime = \<lparr>wt_yaml = (\<lambda>_. Inr \<lparr>fm_id = ''deploy'', fm_title = ''Deploy'', fm_description = '''', fm_labels_all = None\<rparr>),
     wt_printable = (\<lambda>_. True), wt_lower = id\<rparr>"

lemma demo_workflows_stored: "i \<in> {''repo-1'', ''repo-2''} \<Longrightarrow> catalog_stored demo_workflows_db i"
  by (auto simp: catalog_stored_def stored_workflows_def demo_workflows_db_def demo_catalog_row_def demo_entry_def find_repository_def demo_repository_def)

lemma options_are_shared_witness:
  "\<exists>os. workflow_options demo_workflow_runtime None demo_now demo_workflows_db [''repo-1'', ''repo-2''] = (Inr os, demo_workflows_db) \<and>
     wfo_id ` set os = {w. \<forall>r \<in> {''repo-1'', ''repo-2''}. w \<in> rf_id ` set (stored_workflows demo_workflows_db r)} \<and>
     map wfo_id os = [''implement'']"
proof -
  have "\<exists>os. workflow_options demo_workflow_runtime None demo_now demo_workflows_db [''repo-1'', ''repo-2''] = (Inr os, demo_workflows_db) \<and>
      map wfo_id os = [''implement'']"
    by (simp add: workflow_options_def max_task_repositories_def read_workflow_catalog_def stored_workflows_def demo_workflows_db_def
        demo_catalog_row_def demo_entry_def find_repository_def demo_repository_def count_first_def count_next_def count_one_def first_option_def)
  then obtain os where os: "workflow_options demo_workflow_runtime None demo_now demo_workflows_db [''repo-1'', ''repo-2''] = (Inr os, demo_workflows_db)"
    "map wfo_id os = [''implement'']" by (elim exE conjE) (rule that)
  have stored: "catalog_stored demo_workflows_db i" if "i \<in> set [''repo-1'', ''repo-2'']" for i
    using that unfolding list.set by (rule demo_workflows_stored)
  note all = options_are_shared [OF os(1) list.distinct(2) stored]
  have "wfo_id ` set os = {w. \<forall>r \<in> set [''repo-1'', ''repo-2'']. w \<in> rf_id ` set (stored_workflows demo_workflows_db r)}"
    by (rule conjunct1 [OF conjunct2 [OF conjunct2 [OF conjunct2 [OF all]]]])
  then have "wfo_id ` set os = {w. \<forall>r \<in> {''repo-1'', ''repo-2''}. w \<in> rf_id ` set (stored_workflows demo_workflows_db r)}"
    unfolding list.set .
  with os show ?thesis by (intro exI conjI)
qed

definition demo_workflow_file :: string where
  "demo_workflow_file = ''---'' @ [CHR 10] @ ''id: deploy'' @ [CHR 10] @ ''---'' @ [CHR 10] @ ''Do it''"

lemma demo_workflow_parsed:
  "parse_repository_workflow (wt_yaml demo_workflow_runtime) (\<lambda>_. True) id workflow_fallback_path '''' demo_workflow_file =
     Inr \<lparr>rf_id = ''deploy'', rf_title = ''Deploy'', rf_description = '''', rf_path = workflow_fallback_path, rf_commit_sha = '''',
       rf_digest = digest_bytes demo_workflow_file, rf_labels_all = [], rf_instructions = ''Do it''\<rparr>"
proof -
  have trim: "trim_space ''deploy'' = ''deploy''" "trim_space ''Deploy'' = ''Deploy''" "trim_space ''Do it'' = ''Do it''"
    by (rule trim_space_visible; simp add: in_range_def byte_def)+
  have "path_clean workflow_fallback_path = workflow_fallback_path" unfolding workflow_fallback_path_def by code_simp
  then have "validate_workflow_path (\<lambda>_. True) workflow_fallback_path = Inr ()"
    using workflow_fallback_ok(4,5) by (simp add: validate_workflow_path_def)
  moreover have "split_workflow_frontmatter demo_workflow_file = Inr (Some ''id: deploy'', ''Do it'')"
    unfolding demo_workflow_file_def by code_simp
  moreover have "length demo_workflow_file \<le> max_repository_workflow_bytes"
    by (simp add: demo_workflow_file_def max_repository_workflow_bytes_def)
  moreover have "list_all workflow_segment (split_on (CHR ''/'') ''deploy'')" by code_simp
  then have "normalize_workflow_id (\<lambda>_. True) ''deploy'' = Inr ''deploy''" by (simp add: normalize_workflow_id_def trim Let_def)
  ultimately show ?thesis
    by (simp add: parse_repository_workflow_def read_workflow_def demo_workflow_runtime_def described_workflow_def trim Let_def
        workflow_labels_def max_workflow_title_bytes_def)
qed

lemma occupied_fallback_path_fails_witness:
  "\<exists>c'. refresh_repository_workflow_catalog demo_workflow_runtime (Some (\<lambda>_. Inr ('''', [(workflow_fallback_path, demo_workflow_file)])))
     demo_now (demo_workflows_db\<lparr>repositories := [demo_repository\<lparr>rp_centrally_managed := True\<rparr>]\<rparr>) ''repo-1'' =
     ((c', Some unavailable), demo_workflows_db\<lparr>repositories := [demo_repository\<lparr>rp_centrally_managed := True\<rparr>]\<rparr>)"
proof -
  let ?r = "demo_repository\<lparr>rp_centrally_managed := True\<rparr>" and ?files = "[(workflow_fallback_path, demo_workflow_file)]"
  let ?d = "demo_workflows_db\<lparr>repositories := [?r]\<rparr>" and ?list = "\<lambda>_. Inr ('''', [(workflow_fallback_path, demo_workflow_file)])"
  have r: "find_repository ?d ''repo-1'' = Some ?r" "rp_centrally_managed ?r" "rp_enabled ?r"
    by (simp_all add: find_repository_def demo_repository_def)
  have files: "workflow_files ?files = ?files" using workflow_fallback_ok(4,5) by (simp add: workflow_files_def)
  have rt: "wt_printable demo_workflow_runtime = (\<lambda>_. True)" "wt_lower demo_workflow_runtime = id" by (simp_all add: demo_workflow_runtime_def)
  have "length demo_workflow_file \<le> max_repository_workflow_catalog"
    by (simp add: demo_workflow_file_def max_repository_workflow_catalog_def)
  then obtain c where c: "build_repository_workflow_catalog (wt_yaml demo_workflow_runtime) (wt_printable demo_workflow_runtime)
      (wt_lower demo_workflow_runtime) ''repo-1'' (rp_remote_identity ?r) '''' ?files = (c, None)"
    by (simp add: build_repository_workflow_catalog_def files rt demo_workflow_parsed max_repository_workflow_files_def)
  obtain c' outcome d' where refreshed: "refresh_repository_workflow_catalog demo_workflow_runtime (Some ?list) demo_now ?d ''repo-1'' = ((c', outcome), d')"
    by (metis surj_pair)
  have "fallback_path_occupied demo_workflow_runtime ('''', ?files)"
    by (simp add: fallback_path_occupied_def files rt demo_workflow_parsed workflow_fallback_def)
  then have "\<forall>listed. ?list (rp_remote_identity ?r) = (Inr listed :: string + _) \<longrightarrow> fallback_path_occupied demo_workflow_runtime listed"
    by auto
  from occupied_fallback_path_fails [OF r this refreshed] have "outcome = Some unavailable \<and> d' = ?d" by (simp add: c [simplified])
  with refreshed show ?thesis by blast
qed

end
