(* ===== verification/Build_Properties.thy ===== *)
theory Build_Properties
  imports Reachable Procedure_Properties Workflow_Properties
begin

text \<open>What Builds guarantee: the Work they add, and that what is being done is not done a second time.\<close>

lemma admitted_build_Inr:
  assumes "admit_build_with rt source default_runtime cx now ids d input = (Inr v, d')" "ba_result v = AdmissionAdmitted"
  obtains n d1 i where "normalize_build_request (wt_printable rt) (wt_lower rt) input = Inr n" "catalog_tables_only d d1"
    "ba_request_key v = trim_space (bq_request_key input)"
    "\<not> (ba_request_key v = '''' \<or> 200 < length (ba_request_key v) \<or> prefix ''schedule:'' (ba_request_key v))"
    "admit_build_tx (wt_printable rt) default_runtime cx now ids d1 (ba_request_key v) n (build_fingerprint n) =
       Inr ((AdmissionAdmitted, i), d')"
proof (cases "normalize_build_request (wt_printable rt) (wt_lower rt) input")
  case (Inl e)
  then show thesis using assms by (simp add: admit_build_with_def canonical_build_request_def)
next
  case (Inr n)
  let ?key = "trim_space (bq_request_key input)"
  note run = assms(1) [unfolded admit_build_with_def canonical_build_request_def Inr sum.case prod.case Let_def build_request.select_convs]
  have key: "\<not> (?key = '''' \<or> 200 < length ?key \<or> prefix ''schedule:'' ?key)" using run by (auto split: if_splits)
  have replay: "replay_build now d ?key (build_fingerprint n) = Inr None"
    using run key assms(2) by (auto simp: replay_build_def and_then_Inr split: option.splits if_splits sum.splits)
  obtain e d1 where e: "refresh_before_build rt source cx now n d = (e, d1)" by (metis surj_pair)
  let ?run = "committed d1 (admit_build_tx (wt_printable rt) default_runtime cx now ids d1 ?key n (build_fingerprint n))
      (\<lambda>d' (outcome, i). and_then (run_reply now d' i) (\<lambda>v. Inr \<lparr>ba_result = outcome, ba_request_key = ?key, ba_run = v\<rparr>))"
  have whole: "admit_build_with rt source default_runtime cx now ids d input = (case e of Some e \<Rightarrow> (Inl e, d1) | None \<Rightarrow> ?run)"
    using key by (cases e; simp add: admit_build_with_def canonical_build_request_def Inr replay e Let_def)
  have step: "?run = (Inr v, d')" using assms(1) unfolding whole by (cases e) simp_all
  then obtain outcome i where "admit_build_tx (wt_printable rt) default_runtime cx now ids d1 ?key n (build_fingerprint n) = Inr ((outcome, i), d')"
    "ba_request_key v = ?key" "ba_result v = outcome"
    by (auto simp: committed_def and_then_Inr split: sum.splits)
  then show thesis using that [OF Inr refresh_before_build_tables [OF e]] key assms(2) by simp
qed

lemma build_replayed:
  assumes "normalize_build_request (wt_printable rt) (wt_lower rt) input = Inr n"
    "find_run_by_key d (trim_space (bq_request_key input)) = Some r" "run_request_digest r = build_fingerprint n"
  shows "snd (admit_build_with rt source default_runtime cx now ids d input) = d"
    "admit_build_with rt source default_runtime cx now ids d input = (Inr v, d') \<Longrightarrow> ba_result v = AdmissionReplayed"
  using assms by (auto simp: admit_build_with_def canonical_build_request_def replay_build_def Let_def and_then_Inr
      split: sum.splits if_splits option.splits)

text \<open>The Work that a Build adds for one reference to the store \<open>d\<close>.\<close>

definition builds_reference :: "db \<Rightarrow> bool \<Rightarrow> ident \<Rightarrow> normalized_build_reference \<Rightarrow> session \<Rightarrow> bool" where
  "builds_reference d rebuild i b s \<longleftrightarrow>
     ss_run_id s = i \<and> (ss_state s = SessionQueued \<or> ss_state s = SessionBlocked) \<and>
     tg_target_kind (ss_target s) = ''work_item'' \<and> tg_source_reference (ss_target s) = nb_reference b \<and>
     work_source s = (ss_repository_id s, nb_source_kind b, nb_source_key b) \<and>
     (\<exists>x \<in> set (repositories d). rp_id x = ss_repository_id s \<and> rp_centrally_managed x \<and> rp_enabled x \<and>
        to_lower_ascii (rp_remote_identity x) = to_lower_ascii (nb_repository_identity b)) \<and>
     (\<forall>q \<in> set (sessions d). work_source q = work_source s \<longrightarrow> \<not> session_nonterminal (ss_state q)) \<and>
     (if rebuild
      then \<exists>p \<in> set (sessions d). ss_predecessor_work_id s = Some (ss_id p) \<and> work_source p = work_source s \<and>
             replaceable (ss_state p) \<and> \<not> has_successor d p
      else ss_predecessor_work_id s = None \<and> (\<forall>p \<in> set (sessions d). work_source p = work_source s \<longrightarrow> has_successor d p))"

lemma planned_builds_reference:
  assumes "planned_target d rebuild b t" "builds_target t s" "'''' \<notin> ss_id ` set (sessions d)"
    and "ss_run_id s = i" "ss_state s = SessionQueued \<or> ss_state s = SessionBlocked"
  shows "builds_reference d rebuild i b s"
proof -
  note source = builds_target_source [OF assms(2)]
  have b: "bt_reference t = b" "ss_repository_id s = tr_id (bt_repository t)" "ss_predecessor_work_id s = null_string (bt_predecessor t)"
    "tg_target_kind (ss_target s) = ''work_item''" "tg_source_reference (ss_target s) = nb_reference b"
    using assms(1,2) by (auto simp: planned_target_def resolved_target_def builds_target_def build_run_target_def work_target.defs)
  have target: "target_source t q \<longleftrightarrow> work_source q = work_source s" for q by (simp add: target_source_work source)
  obtain x where x: "x \<in> set (repositories d)" "rp_centrally_managed x" "rp_enabled x" "bt_repository t = repository_of_target x"
    "to_lower_ascii (rp_remote_identity x) = to_lower_ascii (nb_repository_identity b)"
    using assms(1) by (auto simp: planned_target_def resolved_target_def)
  have free: "free_target d rebuild t" using assms(1) by (simp add: planned_target_def)
  have "if rebuild
      then \<exists>p \<in> set (sessions d). ss_predecessor_work_id s = Some (ss_id p) \<and> work_source p = work_source s \<and>
             replaceable (ss_state p) \<and> \<not> has_successor d p
      else ss_predecessor_work_id s = None \<and> (\<forall>p \<in> set (sessions d). work_source p = work_source s \<longrightarrow> has_successor d p)"
  proof (cases rebuild)
    case True
    then obtain p where p: "p \<in> set (sessions d)" "bt_predecessor t = ss_id p" "work_source p = work_source s" "replaceable (ss_state p)"
      "\<not> has_successor d p" using free by (auto simp: free_target_def target)
    moreover have "ss_id p \<noteq> ''''" using assms(3) p(1) by (metis imageI)
    ultimately show ?thesis using True b(3) by (auto simp: null_string_def)
  next
    case False
    then show ?thesis using free b(3) by (simp add: free_target_def target null_string_def)
  qed
  moreover have "\<forall>q \<in> set (sessions d). work_source q = work_source s \<longrightarrow> \<not> session_nonterminal (ss_state q)"
    using free by (simp add: free_target_def target)
  moreover have "rp_id x = ss_repository_id s" using x(4) b(2) by (simp add: repository_of_target_def)
  ultimately show ?thesis using x assms(4,5) b source unfolding builds_reference_def by auto
qed

text \<open>C4. A Build covers its references. An admitted request adds one Run with one Work item per reference, in the order of
  the request, in the enabled managed repository of the reference; at most ten of them are queued. No Work of the same source
  was open. A rebuild links each Work item to ended Work of the same source that nothing follows; without a rebuild no Work
  of the source may be the last of its line. The same request again is answered with this Run and changes nothing, whatever
  the files of the repositories are by then.\<close>

theorem build_covers_references:
  assumes "sound d" "one_open_item d" "fresh_admission ids d"
    and "admit_build_with rt source default_runtime cx now ids d input = (Inr v, d')" "ba_result v = AdmissionAdmitted"
  shows "\<exists>n r new. normalize_build_request (wt_printable rt) (wt_lower rt) input = Inr n \<and>
      sound d' \<and> one_open_item d' \<and> runs d' = runs d @ [r] \<and> run_request_key r = ba_request_key v \<and>
      ts_outcome_contract (run_task_snapshot r) = bc_contract cx \<and>
      sessions d' = sessions d @ new \<and> attempts d' = attempts d \<and> queued_work new \<le> standard_build_concurrency_limit \<and>
      list_all2 (builds_reference d (bq_rebuild input) (run_id r)) (bi_references n) new \<and>
      (\<forall>files later ids'. snd (admit_build_with rt files default_runtime cx later ids' d' input) = d' \<and>
        (\<forall>v' d''. admit_build_with rt files default_runtime cx later ids' d' input = (Inr v', d'') \<longrightarrow>
           ba_result v' = AdmissionReplayed))"
proof -
  obtain n d1 i where n: "normalize_build_request (wt_printable rt) (wt_lower rt) input = Inr n" and d1: "catalog_tables_only d d1"
    and key: "ba_request_key v = trim_space (bq_request_key input)"
    and tx: "admit_build_tx (wt_printable rt) default_runtime cx now ids d1 (ba_request_key v) n (build_fingerprint n) =
       Inr ((AdmissionAdmitted, i), d')"
    by (rule admitted_build_Inr [OF assms(4,5)])
  note same = catalog_tables_onlyD [OF d1]
  have ok: "sound d1" "one_open_item d1" "fresh_admission ids d1" using assms(1-3) same by simp_all
  from tx show ?thesis
  proof (cases rule: admit_build_tx_Inr)
    case (new t targets e am)
    note plan = build_plan_Inr [OF new(3)]
    have "fresh_admission (am_ids am) d1" "targets \<noteq> []"
      using ok(3) new(5) plan(1) normalize_build_request_Inr(2) [OF n] by auto
    then obtain r d2 ws es where r: "i = ai_run (am_ids am)" "run_id r = i" "run_request_key r = ba_request_key v"
        "run_request_digest r = build_fingerprint n" "run_task_snapshot r = t" "d' = d2\<lparr>runs := runs d1 @ [r]\<rparr>"
      and rows: "fleet_rows am 0 d1 d2 ws es" "list_all2 builds_target targets ws" and good: "good_step Admits d1 d'"
      by (rule build_work.fleet [OF new(6) ok(1) _ new(1) _ builds_target_items [OF _ _ plan(1,2)]])
        (use new(4,5) in \<open>simp_all add: that\<close>)
    have tables: "runs d' = runs d @ [r]" "sessions d' = sessions d @ ws" "attempts d' = attempts d"
      using rows(1) same(1) by (auto simp: fleet_rows_def r(6) same_work_def)
    have ids: "'''' \<notin> ss_id ` set (sessions d1)" by (rule soundD(3) [OF ok(1)])
    have "list_all2 (builds_reference d1 (bi_rebuild n) (run_id r)) (bi_references n) ws"
    proof (rule list_all2_all_nthI)
      show len: "length (bi_references n) = length ws"
        using list_all2_lengthD [OF plan(1)] list_all2_lengthD [OF rows(2)] by simp
      fix k assume k: "k < length (bi_references n)"
      then have k': "k < length ws" "ws ! k \<in> set ws" using len by simp_all
      then have "ss_run_id (ws ! k) = run_id r" "ss_state (ws ! k) = SessionQueued \<or> ss_state (ws ! k) = SessionBlocked"
        using rows(1) new(5) by (auto simp: fleet_rows_def r(1,2))
      then show "builds_reference d1 (bi_rebuild n) (run_id r) (bi_references n ! k) (ws ! k)"
        by (rule planned_builds_reference [OF list_all2_nthD [OF plan(1) k] list_all2_nthD2 [OF rows(2) k'(1)] ids])
    qed
    moreover have "builds_reference d1 = builds_reference d"
      using same(1,7) unfolding builds_reference_def fun_eq_iff by (simp add: same_work_def has_successor_def)
    ultimately have work: "list_all2 (builds_reference d (bq_rebuild input) (run_id r)) (bi_references n) ws"
      using normalize_build_request_Inr(1) [OF n] by simp
    have "find_run_by_key d (ba_request_key v) = None" using new(1) same(1) by (simp add: find_run_by_key_def same_work_def)
    then have taken: "find_run_by_key d' (trim_space (bq_request_key input)) = Some r"
      using fleet_key_taken [OF _ tables(1) r(3)] key by simp
    have limit: "queued_work ws \<le> standard_build_concurrency_limit"
      using rows(1) new(4) plan(3) by (auto simp: fleet_rows_def)
    have "sound d'" "one_open_item d'" using good ok(2) by (simp_all add: good_step_def)
    then show ?thesis
      using tables r(3,5) work limit plan(5) build_replayed [OF n taken r(4)]
      by (intro exI [of _ n] exI [of _ r] exI [of _ ws]) (simp add: n)
  qed simp
qed

text \<open>C3. What is being done is not done a second time: whatever operations have been performed, of the Work items that are
  about the same source in the same repository (the same GitHub issue, the same opaque reference) at most one is open, be it
  through Builds, rebuilds, retries, answers or replacements.\<close>

theorem open_work_is_unique:
  assumes "reachable d"
  shows "count_where (\<lambda>s. open_item s \<and> work_source s = x) (sessions d) \<le> 1"
proof (rule count_key_le_one [where k = ss_id])
  show "distinct (map ss_id (sessions d))"
    using store_okD(1) [OF soundD(1) [OF reachable_is_sound [OF assms]]] by (simp add: keys_ok_def)
  fix s t assume "s \<in> set (sessions d)" "open_item s \<and> work_source s = x" "t \<in> set (sessions d)" "open_item t \<and> work_source t = x"
  then show "ss_id s = ss_id t" by (intro one_open_itemD [OF reachable_one_open_item [OF assms]]) simp_all
qed

subsection \<open>An example\<close>

text \<open>The managed repository without Workers, before anything is admitted, and a Build of one opaque reference.\<close>

definition demo_build_db :: db where
  "demo_build_db = demo_catalog_db\<lparr>runs := [], sessions := [], executions := [], attempts := [], session_stages := [], work_updates := []\<rparr>"

definition demo_build :: build_request where
  "demo_build = \<lparr>bq_request_key = ''build-1'', bq_references = [''ABC-1''], bq_repository = ''github.com/team/app'',
     bq_repository_specified = True, bq_runtime = '''', bq_runtime_specified = False, bq_workflow = '''', bq_workflow_specified = False,
     bq_rebuild = False\<rparr>"

definition demo_reference :: normalized_build_reference where
  "demo_reference = \<lparr>nb_reference = ''ABC-1'', nb_source_kind = ''opaque'', nb_source_key = ''ABC-1'',
     nb_repository_identity = ''github.com/team/app''\<rparr>"

definition demo_context :: build_context where
  "demo_context = \<lparr>bc_contract = OutcomeProcessExit, bc_titles = [], bc_workflows = []\<rparr>"

lemma demo_build_rows:
  "initial_store demo_build_db" "fresh_admission demo_ids demo_build_db" "sessions demo_build_db = []" "runs demo_build_db = []"
  "workers demo_build_db = []" "repositories demo_build_db = [demo_managed]" "workflow_entries demo_build_db = []"
  by (auto simp: initial_store_def fresh_admission_def fresh_ids_def demo_ids_def demo_build_db_def demo_catalog_db_def demo_failed_work_defs
      inj_on_def)

lemma demo_build_trims: "trim_space ''ABC-1'' = ''ABC-1''" "trim_space ''build-1'' = ''build-1''" "trim_space '''' = ''''"
proof -
  show "trim_space ''ABC-1'' = ''ABC-1''" by (rule trim_space_visible) (simp_all add: in_range_def byte_def)
  show "trim_space ''build-1'' = ''build-1''" by (rule trim_space_visible) (simp_all add: in_range_def byte_def)
  show "trim_space '''' = ''''" by code_simp
qed

lemma demo_build_input:
  "normalize_build_request printable lower demo_build = Inr
     \<lparr>bi_references = [demo_reference], bi_repository = ''github.com/team/app'', bi_repository_specified = True, bi_runtime = '''',
      bi_runtime_specified = False, bi_workflow = '''', bi_workflow_specified = False, bi_rebuild = False\<rparr>"
proof -
  have "\<not> contains ''://'' ''ABC-1''" "valid_opaque_reference ''ABC-1''" by code_simp+
  then have "normalize_build_reference printable ''ABC-1'' = Inr (demo_reference\<lparr>nb_repository_identity := ''''\<rparr>)"
    by (simp add: normalize_build_reference_def demo_build_trims demo_reference_def)
  then show ?thesis
    by (simp add: normalize_build_request_def demo_build_def build_repository_def demo_github_repository build_runtime_def
        build_workflow_def demo_build_trims max_work_targets_def bind_build_reference_def demo_reference_def)
qed

lemma demo_build_fields: "bq_request_key demo_build = ''build-1''" "bq_rebuild demo_build = False"
  by (simp_all add: demo_build_def)

lemma demo_build_plan:
  obtains t where "build_plan printable ''codex'' demo_context demo_build_db
      \<lparr>bi_references = [demo_reference], bi_repository = ''github.com/team/app'', bi_repository_specified = True, bi_runtime = '''',
       bi_runtime_specified = False, bi_workflow = '''', bi_workflow_specified = False, bi_rebuild = False\<rparr> =
        Inr (t, [\<lparr>bt_reference = demo_reference, bt_repository = repository_of_target demo_managed,
          bt_target_key = build_target_key ''repo-1'' demo_reference, bt_predecessor = '''', bt_source_title = ''''\<rparr>], build_execution ''codex'')"
    "ts_name t = ''standard-build''" "ts_outcome_contract t = OutcomeProcessExit"
    "pn_stages (ts_pipeline t) = [\<lparr>pg_position = 0, pg_name = ''Do the task'', pg_prompt = ''Do it''\<rparr>]"
proof -
  let ?d = demo_build_db
  let ?p = "\<lparr>pn_id = default_pipeline_id, pn_name = ''Single agent'', pn_generation = 1,
    pn_stages = [\<lparr>pg_position = 0, pg_name = ''Do the task'', pg_prompt = ''Do it''\<rparr>]\<rparr>"
  let ?b = "\<lparr>bt_reference = demo_reference, bt_repository = repository_of_target demo_managed,
          bt_target_key = build_target_key ''repo-1'' demo_reference, bt_predecessor = '''', bt_source_title = ''''\<rparr>"
  have p: "load_pipeline_snapshot ?d default_pipeline_id = Inr ?p"
    by (simp add: load_pipeline_snapshot_def Let_def find_pipeline_def stages_of_pipeline_def demo_pipeline_def demo_build_db_def
        demo_catalog_db_def demo_failed_work_defs)
  have "find_managed_repository ?d ''github.com/team/app'' = find_managed_repository demo_catalog_db ''github.com/team/app''"
    by (simp add: find_managed_repository_def demo_build_db_def)
  then have found: "find_managed_repository ?d ''github.com/team/app'' = Some demo_managed" using demo_managed_found(2) by simp
  have resolved: "resolve_build_targets ?d [] [demo_reference] = Inr [?b]"
    using found demo_managed_found(3,4) by (simp add: demo_reference_def Let_def build_target_key_def repository_of_target_def)
  have chosen: "select_build_predecessors ?d False [?b] = Inr [?b]"
    by (simp add: Let_def latest_work_def demo_build_rows(3))
  have titled: "title_build_targets (map_of (bc_titles demo_context)) [?b] = Inr [?b]"
    by (simp add: title_build_targets_def demo_context_def coalesce_def max_source_title_bytes_def)
  obtain w where w: "build_workflow_snapshot printable ?d (map_of (bc_workflows demo_context)) ''repo-1'' workflow_fallback = Inr w"
    by (simp add: build_workflow_snapshot_def demo_context_def load_workflow_snapshot_def find_workflow_entry_def demo_build_rows(7))
  show thesis
    by (rule that [of "build_snapshot ''codex'' OutcomeProcessExit ?p [?b] w"])
      (use p resolved chosen titled w in \<open>simp_all add: build_plan_def Let_def supported_runtime_def build_snapshot_def build_workflow_id_def
        repository_of_target_def demo_managed_found demo_context_def del: resolve_build_targets.simps select_build_predecessors.simps\<close>)
qed

lemma demo_build_admitted:
  obtains v d' s where "admit_build_with rt None ''codex'' demo_context demo_now demo_ids demo_build_db demo_build = (Inr v, d')"
    "ba_result v = AdmissionAdmitted" "sessions d' = [s]" "open_item s" "work_source s = (''repo-1'', ''opaque'', ''ABC-1'')"
proof -
  let ?d = demo_build_db
  let ?n = "\<lparr>bi_references = [demo_reference], bi_repository = ''github.com/team/app'', bi_repository_specified = True, bi_runtime = '''',
      bi_runtime_specified = False, bi_workflow = '''', bi_workflow_specified = False, bi_rebuild = False\<rparr>"
  let ?b = "\<lparr>bt_reference = demo_reference, bt_repository = repository_of_target demo_managed,
          bt_target_key = build_target_key ''repo-1'' demo_reference, bt_predecessor = '''', bt_source_title = ''''\<rparr>"
  obtain t where plan: "build_plan (wt_printable rt) ''codex'' demo_context ?d ?n = Inr (t, [?b], build_execution ''codex'')"
    and t: "ts_name t = ''standard-build''" "ts_outcome_contract t = OutcomeProcessExit"
      "pn_stages (ts_pipeline t) = [\<lparr>pg_position = 0, pg_name = ''Do the task'', pg_prompt = ''Do it''\<rparr>]"
    by (rule demo_build_plan)
  define am where "am = \<lparr>am_now = unix_milli demo_now, am_ids = demo_ids, am_snapshot = t, am_execution = build_execution ''codex'',
    am_prompt = ts_prompt t, am_profile_ready = True, am_profile_reason = ''''\<rparr>"
  have am: "am_snapshot am = t" "am_ids am = demo_ids" by (simp_all add: am_def)
  let ?target = "build_run_target (ai_work demo_ids 0) 0 ?b"
  have "agent_prompt_fits ''standard-build'' ''github.com/team/app'' ''Do it''"
    by (simp add: agent_prompt_fits_def format_agent_prompt_def newline_def max_agent_prompt_bytes_def)
  then have "stage_prompt_fits t ?target True ''Do it''"
    by (simp add: stage_prompt_fits_def build_run_target_def repository_of_target_def demo_managed_found t)
  note stages = plain_stages [OF t(3) this]
  let ?started = "?d\<lparr>runs := runs ?d @ [fleet_run (am_now am) (ai_run demo_ids) ''build-1'' (build_fingerprint ?n) t (am_execution am)]\<rparr>"
  obtain w where w: "build_workflow_snapshot (wt_printable rt) ?started (map_of (bc_workflows demo_context)) ''repo-1'' workflow_fallback = Inr w"
    by (simp add: build_workflow_snapshot_def demo_context_def load_workflow_snapshot_def find_workflow_entry_def demo_build_rows(7))
  obtain g where g: "resolve_session_stages t (resolve_standard_build_prompt ?target w) (ai_run demo_ids) ?target = Inr [g]" by (rule stages)
  have rows: "workers ?started = []" "repositories ?started = [demo_managed]" "sessions ?started = []" by (simp_all add: demo_build_rows)
  have "\<exists>d1. admit_build_target (wt_printable rt) (map_of (bc_workflows demo_context)) workflow_fallback am 0 ?b 0 ?started = Inr ((?target, False), d1)"
    using w g by (auto simp: admit_build_target_def Let_def am repository_of_target_def demo_managed_found(3,4)
        route_without_workers [OF rows(1,2), unfolded repository_of_target_def demo_managed_found(3,4)]
        insert_successor_def insert_session_stages_def rows(3))
  then obtain d1 where one: "admit_build_target (wt_printable rt) (map_of (bc_workflows demo_context)) workflow_fallback am 0 ?b 0 ?started =
      Inr ((?target, False), d1)" by blast
  obtain i d' where run: "admit_fleet am (admit_build_target (wt_printable rt) (map_of (bc_workflows demo_context)) workflow_fallback am)
      ''build-1'' (build_fingerprint ?n) [?b] ?d = Inr (i, d')"
    using one by (simp add: admit_fleet_def Let_def am)
  have key: "find_run_by_key ?d ''build-1'' = None" by (simp add: find_run_by_key_def demo_build_rows)
  then have tx: "admit_build_tx (wt_printable rt) ''codex'' demo_context demo_now demo_ids ?d ''build-1'' ?n (build_fingerprint ?n) =
      Inr ((AdmissionAdmitted, i), d')"
    using plan run by (simp add: admit_build_tx_def Let_def build_workflow_id_def am_def)
  have ok: "sound ?d" by (rule initial_sound [OF demo_build_rows(1)])
  have fresh: "fresh_admission (am_ids am) ?d" using demo_build_rows(2) am(2) by simp
  note planned = build_plan_Inr(1,2) [OF plan]
  obtain r d2 ws es where r: "run_id r = i" "d' = d2\<lparr>runs := runs ?d @ [r]\<rparr>" and ws: "fleet_rows am 0 ?d d2 ws es" "list_all2 builds_target [?b] ws"
    by (rule build_work.fleet [OF run ok fresh key _ builds_target_items [OF _ _ planned]]) (simp_all add: that)
  obtain detail where "run_reply demo_now d' i = Inr detail"
    using run_reply_found [of r d' demo_now] r by (cases "run_reply demo_now d' i") auto
  then obtain v where v: "admit_build_with rt None ''codex'' demo_context demo_now demo_ids ?d demo_build = (Inr v, d')" "ba_result v = AdmissionAdmitted"
    using tx key by (simp add: admit_build_with_def canonical_build_request_def demo_build_input Let_def committed_def replay_build_def
        refresh_before_build_def demo_build_fields demo_build_trims prefix_def)
  obtain s where s: "ws = [s]" "builds_target ?b s" using ws(2) by (auto simp: list_all2_Cons1)
  have "sessions d' = [s]" "ss_state s = SessionQueued \<or> ss_state s = SessionBlocked"
    using ws(1) s(1) by (auto simp: fleet_rows_def r(2) demo_build_rows(3))
  moreover have "tg_target_kind (ss_target s) = ''work_item''" using s(2) by (auto simp: builds_target_def build_run_target_def work_target.defs)
  ultimately show thesis
    using builds_target_source [OF s(2)] by (intro that [OF v]) (auto simp: open_item_def state_predicates repository_of_target_def
        demo_managed_found demo_reference_def)
qed

lemma build_covers_references_witness:
  "\<exists>v d' s. admit_build_with demo_workflow_runtime None ''codex'' demo_context demo_now demo_ids demo_build_db demo_build = (Inr v, d') \<and>
     sound d' \<and> sessions d' = [s] \<and> tg_source_reference (ss_target s) = ''ABC-1'' \<and> ss_repository_id s = ''repo-1'' \<and>
     snd (admit_build_with demo_workflow_runtime None ''codex'' demo_context (2 * demo_now) demo_ids d' demo_build) = d'"
proof -
  obtain v d' s where v: "admit_build_with demo_workflow_runtime None ''codex'' demo_context demo_now demo_ids demo_build_db demo_build = (Inr v, d')"
    "ba_result v = AdmissionAdmitted" and s: "sessions d' = [s]" "work_source s = (''repo-1'', ''opaque'', ''ABC-1'')"
    by (rule demo_build_admitted)
  from build_covers_references [OF initial_sound [OF demo_build_rows(1)] initial_one_open_item [OF demo_build_rows(1)] demo_build_rows(2) v]
  obtain r :: run where "sound d'" "list_all2 (builds_reference demo_build_db False (run_id r)) [demo_reference] [s]"
    "snd (admit_build_with demo_workflow_runtime None ''codex'' demo_context (2 * demo_now) demo_ids d' demo_build) = d'"
    using s(1) by (auto simp: demo_build_input demo_build_rows(3) demo_build_fields)
  then show ?thesis using v(1) s by (intro exI [of _ v] exI [of _ d'] exI [of _ s]) (auto simp: builds_reference_def demo_reference_def work_source_def)
qed

lemma open_work_is_unique_witness:
  "\<exists>(d :: db) s. sessions d = [s] \<and> open_item s \<and> count_where (\<lambda>s. open_item s \<and> work_source s = (''repo-1'', ''opaque'', ''ABC-1'')) (sessions d) \<le> 1"
proof -
  obtain v d' s where v: "admit_build_with demo_workflow_runtime None ''codex'' demo_context demo_now demo_ids demo_build_db demo_build = (Inr v, d')"
    and s: "sessions d' = [s]" "open_item s"
    by (rule demo_build_admitted)
  have "reachable d'" by (rule reach_step [OF reach_initial [OF demo_build_rows(1)] admits_build [OF v demo_build_rows(2)]])
  from open_work_is_unique [OF this, of "(''repo-1'', ''opaque'', ''ABC-1'')"] s show ?thesis by (intro exI [of _ d'] exI [of _ s] conjI)
qed

end
