(* ===== verification/Reference_Properties.thy ===== *)
theory Reference_Properties
  imports Build_References Cursor
begin

text \<open>The canonical form of the reference of a Build is a reference in canonical form.\<close>

subsection \<open>Repositories\<close>

lemma split_on_append: "c \<notin> set a \<Longrightarrow> split_on c (a @ c # b) = a # split_on c b"
  by (induction a) auto

lemma split_on_single: "c \<notin> set a \<Longrightarrow> split_on c a = [a]"
  by (induction a) auto

lemma ascii_lower_cases:
  obtains "in_range 65 90 c" "in_range 97 122 (ascii_lower c)" | "\<not> in_range 65 90 c" "ascii_lower c = c"
  by (cases "in_range 65 90 c") (auto simp: ascii_lower_def in_range_def byte_char_of)

lemma ascii_lower_fixes: "\<not> is_lower x \<Longrightarrow> ascii_lower c = x \<longleftrightarrow> c = x \<and> \<not> is_upper x"
  by (rule ascii_lower_cases [of c]) (auto simp: is_lower_def is_upper_def)

lemma lower_sublist:
  assumes "sublist q (map ascii_lower v)" "\<And>x. x \<in> set q \<Longrightarrow> \<not> is_lower x"
  shows "sublist q v"
proof -
  from assms(1) obtain a b where "map ascii_lower v = a @ q @ b" by (auto simp: sublist_def)
  then obtain a' q' b' where v: "v = a' @ q' @ b'" and q: "map ascii_lower q' = q" by (auto simp: map_eq_append_conv append_eq_map_conv)
  have "q' = q" unfolding q [symmetric] by (rule map_idI [symmetric]) (use assms(2) q ascii_lower_fixes in \<open>metis imageI list.set_map\<close>)
  with v show ?thesis by (auto simp: sublist_def)
qed

lemma lower_allowed: "is_lower c \<or> is_upper c \<or> is_decimal c \<or> c \<in> set q \<Longrightarrow> is_lower (ascii_lower c) \<or> is_decimal (ascii_lower c) \<or> ascii_lower c \<in> set q"
  by (rule ascii_lower_cases [of c]) (auto simp: is_lower_def is_upper_def)

lemma lower_owner:
  assumes "valid_github_owner v"
  shows "valid_github_owner (to_lower_ascii v)" "list_all (\<lambda>c. is_lower c \<or> is_decimal c \<or> c \<in> set ''-'') (to_lower_ascii v)"
proof -
  have v: "v \<noteq> ''''" "length v \<le> 39" "hd v \<noteq> CHR ''-''" "last v \<noteq> CHR ''-''" "\<not> sublist ''--'' v"
    "\<And>c. c \<in> set v \<Longrightarrow> is_lower c \<or> is_upper c \<or> is_decimal c \<or> c \<in> set ''-''"
    using assms by (auto simp: valid_github_owner_def list_all_iff)
  have "\<not> is_lower (CHR ''-'')" by (simp add: is_lower_def in_range_def byte_def)
  then have "\<not> sublist ''--'' (map ascii_lower v)" and dash: "\<And>c. ascii_lower c = CHR ''-'' \<Longrightarrow> c = CHR ''-''"
    using lower_sublist [of "''--''" v] v(5) ascii_lower_fixes by auto
  moreover have "hd (map ascii_lower v) \<noteq> CHR ''-''" using v(1,3) dash [of "hd v"] by (auto simp: hd_map)
  moreover have "last (map ascii_lower v) \<noteq> CHR ''-''" using v(1,4) dash [of "last v"] by (auto simp: last_map)
  moreover have "is_lower c \<or> is_decimal c \<or> c \<in> set ''-''" if "c \<in> set (map ascii_lower v)" for c
    using that lower_allowed [OF v(6)] by (metis imageE list.set_map)
  then show all: "list_all (\<lambda>c. is_lower c \<or> is_decimal c \<or> c \<in> set ''-'') (to_lower_ascii v)"
    by (simp only: list_all_iff to_lower_ascii_def) blast
  moreover have "1 \<le> length (map ascii_lower v)" "length (map ascii_lower v) \<le> 39" using v(1,2) by (simp_all add: Suc_le_eq)
  ultimately show "valid_github_owner (to_lower_ascii v)"
    unfolding valid_github_owner_def to_lower_ascii_def list_all_iff by simp blast
qed

lemma lower_repository:
  assumes "valid_github_repository v"
  shows "valid_github_repository (to_lower_ascii v)" "list_all (\<lambda>c. is_lower c \<or> is_decimal c \<or> c \<in> set ''-_.'') (to_lower_ascii v)"
proof -
  have v: "v \<noteq> ''''" "v \<noteq> ''.''" "v \<noteq> ''..''" "length v \<le> 100"
    "\<And>c. c \<in> set v \<Longrightarrow> is_lower c \<or> is_upper c \<or> is_decimal c \<or> c \<in> set ''-_.''"
    using assms by (auto simp: valid_github_repository_def list_all_iff)
  have dot: "ascii_lower c = CHR ''.'' \<Longrightarrow> c = CHR ''.''" for c
    using ascii_lower_fixes [of "CHR ''.''" c] by (simp add: is_lower_def in_range_def byte_def)
  have "map ascii_lower v \<noteq> ''.''" "map ascii_lower v \<noteq> ''..''" using v(2,3) by (auto dest: dot)
  moreover have "is_lower c \<or> is_decimal c \<or> c \<in> set ''-_.''" if "c \<in> set (map ascii_lower v)" for c
    using that lower_allowed [OF v(5)] by (metis imageE list.set_map)
  then show all: "list_all (\<lambda>c. is_lower c \<or> is_decimal c \<or> c \<in> set ''-_.'') (to_lower_ascii v)"
    by (simp only: list_all_iff to_lower_ascii_def) blast
  moreover have "1 \<le> length (map ascii_lower v)" "length (map ascii_lower v) \<le> 100" using v(1,4) by (simp_all add: Suc_le_eq)
  ultimately show "valid_github_repository (to_lower_ascii v)"
    unfolding valid_github_repository_def to_lower_ascii_def list_all_iff by simp blast
qed

lemma normalize_github_repository_Inr:
  assumes "normalize_github_repository raw = Inr identity"
  obtains owner repository where "identity = ''github.com/'' @ owner @ ''/'' @ repository"
    "valid_github_owner owner" "list_all (\<lambda>c. is_lower c \<or> is_decimal c \<or> c \<in> set ''-'') owner"
    "valid_github_repository repository" "list_all (\<lambda>c. is_lower c \<or> is_decimal c \<or> c \<in> set ''-_.'') repository"
proof -
  let ?parts = "split_on (CHR ''/'') (trim_suffix (trim_space raw) ''.git'')"
  from assms have parts: "length ?parts = 3" "to_lower_ascii (?parts ! 0) = ''github.com''" "valid_github_owner (?parts ! 1)"
    "valid_github_repository (?parts ! 2)" "identity = to_lower_ascii (join_with (CHR ''/'') ?parts)"
    by (auto simp: normalize_github_repository_def Let_def split: if_splits)
  obtain h o' r where p: "?parts = [h, o', r]" using parts(1) by (auto simp: length_Suc_conv eval_nat_numeral)
  have "ascii_lower (CHR ''/'') = CHR ''/''" by code_simp
  then have "identity = ''github.com/'' @ to_lower_ascii o' @ ''/'' @ to_lower_ascii r"
    using parts(2,5) by (simp add: p to_lower_ascii_def)
  with lower_owner [of o'] lower_repository [of r] parts(3,4) show thesis by (intro that) (auto simp: p)
qed

definition plain_char :: "char \<Rightarrow> bool" where
  "plain_char c \<longleftrightarrow> is_lower c \<or> is_decimal c \<or> c \<in> set ''-_./:''"

lemma plain_char_facts:
  "plain_char c \<Longrightarrow> in_range 33 126 c" "plain_char c \<Longrightarrow> c \<noteq> CHR ''?''" "plain_char c \<Longrightarrow> c \<noteq> CHR ''#''" "plain_char c \<Longrightarrow> c \<noteq> CHR ''%''"
  "plain_char c \<Longrightarrow> path_accepted c" "plain_char c \<Longrightarrow> ascii_lower c = c"
  by (auto simp: plain_char_def is_lower_def is_decimal_def in_range_def byte_def path_accepted_def path_unescaped_def ascii_lower_def)

lemma lower_plain: "list_all plain_char s \<Longrightarrow> to_lower_ascii s = s"
  by (auto simp: to_lower_ascii_def list_all_iff plain_char_facts(6) intro: map_idI)

lemma owner_plain: "list_all (\<lambda>c. is_lower c \<or> is_decimal c \<or> c \<in> set ''-'') s \<Longrightarrow> list_all plain_char s"
  "list_all (\<lambda>c. is_lower c \<or> is_decimal c \<or> c \<in> set ''-_.'') s \<Longrightarrow> list_all plain_char s"
  by (auto simp: list_all_iff plain_char_def)

lemma no_slash: "list_all (\<lambda>c. is_lower c \<or> is_decimal c \<or> c \<in> set ''-'') s \<Longrightarrow> CHR ''/'' \<notin> set s"
  "list_all (\<lambda>c. is_lower c \<or> is_decimal c \<or> c \<in> set ''-_.'') s \<Longrightarrow> CHR ''/'' \<notin> set s"
  "list_all is_decimal s \<Longrightarrow> CHR ''/'' \<notin> set s"
  by (auto simp: list_all_iff is_lower_def is_decimal_def in_range_def byte_def)

lemma plain_ends: "list_all plain_char s \<Longrightarrow> s \<noteq> '''' \<Longrightarrow> trim_space s = s"
  by (rule trim_space_visible) (auto simp: list_all_iff plain_char_facts(1))

text \<open>A canonical identity that does not end in \<^verbatim>\<open>.git\<close> is its own canonical form.\<close>

lemma normalize_github_repository_again:
  assumes "normalize_github_repository raw = Inr identity" "\<not> suffix ''.git'' identity"
  shows "normalize_github_repository identity = Inr identity"
  using assms(1)
proof (rule normalize_github_repository_Inr)
  fix owner repository
  assume i: "identity = ''github.com/'' @ owner @ ''/'' @ repository"
    and owner: "valid_github_owner owner" "list_all (\<lambda>c. is_lower c \<or> is_decimal c \<or> c \<in> set ''-'') owner"
    and repository: "valid_github_repository repository" "list_all (\<lambda>c. is_lower c \<or> is_decimal c \<or> c \<in> set ''-_.'') repository"
  have "list_all plain_char ''github.com/''" by (simp add: plain_char_def is_lower_def in_range_def byte_def)
  then have plain: "list_all plain_char identity"
    using owner_plain(1) [OF owner(2)] owner_plain(2) [OF repository(2)] by (simp add: i plain_char_def)
  have "split_on (CHR ''/'') identity = split_on (CHR ''/'') (''github.com'' @ CHR ''/'' # owner @ CHR ''/'' # repository)" by (simp add: i)
  also have "CHR ''/'' \<notin> set ''github.com''" by simp
  note split_on_append [OF this]
  also note split_on_append [OF no_slash(1) [OF owner(2)]]
  also note split_on_single [OF no_slash(2) [OF repository(2)]]
  finally have parts: "split_on (CHR ''/'') identity = [''github.com'', owner, repository]" .
  have join: "join_with (CHR ''/'') [''github.com'', owner, repository] = identity" by (simp add: i)
  moreover have "to_lower_ascii ''github.com'' = ''github.com''" by code_simp
  moreover have "identity \<noteq> ''''" by (simp add: i)
  ultimately show ?thesis
    using plain_ends [OF plain] lower_plain [OF plain] assms(2) owner(1) repository(1)
    by (simp add: normalize_github_repository_def parts trim_suffix_def join del: join_with.simps)
qed

subsection \<open>Numbers\<close>

lemma parse_uint_show: "n < 2 ^ 64 \<Longrightarrow> parse_uint (show_nat n) = Some n"
  using show_nat_digits [of n] by (simp add: parse_uint_def Cursor.digits_value_def foldl_map)

lemma length_show_nat: "n < 10 ^ Suc k \<Longrightarrow> length (show_nat n) \<le> Suc k"
proof (induction k arbitrary: n)
  case 0
  then show ?case by (simp add: show_nat_def base_digits.simps [of 10 n])
next
  case (Suc k)
  show ?case
  proof (cases "n < 10")
    case False
    have "n div 10 < 10 ^ Suc k" using Suc.prems by (simp add: div_less_iff_less_mult)
    from Suc.IH [OF this] show ?thesis using False by (simp add: show_nat_def base_digits.simps [of 10 n])
  qed (simp add: show_nat_def base_digits.simps [of 10 n])
qed

lemma parse_uint_bound: "parse_uint s = Some n \<Longrightarrow> n < 2 ^ 64"
  by (auto simp: parse_uint_def Let_def split: if_splits)

subsection \<open>URLs\<close>

lemma url_unescape_plain: "CHR ''%'' \<notin> set p \<Longrightarrow> url_unescape p = Some p"
  by (induction p) auto

lemma plain_literals: "list_all plain_char ''https://github.com/''" "list_all plain_char ''/issues/''"
  by (simp_all add: plain_char_def is_lower_def in_range_def byte_def)

lemma github_path_canonical:
  assumes q: "list_all plain_char q"
  shows "github_path (''https://github.com/'' @ q) = Some (''/'' @ q)"
proof -
  let ?raw = "''https://github.com/'' @ q"
  have plain: "list_all plain_char ?raw" using q plain_literals(1) by (simp only: list_all_append)
  have whole: "takeWhile (\<lambda>c. c \<noteq> CHR ''#'') ?raw = ?raw"
    by (subst takeWhile_eq_all_conv) (use plain plain_char_facts(3) in \<open>auto simp only: list_all_iff\<close>)
  have "CHR ''?'' \<notin> set ?raw" using plain plain_char_facts(2) by (auto simp only: list_all_iff)
  then have "CHR ''?'' \<notin> set (drop 6 ?raw)" "CHR ''?'' \<notin> set q" by simp_all
  then have "\<not> suffix ''?'' (drop 6 ?raw)" "CHR ''?'' \<notin> set q" using set_mono_suffix by fastforce+
  moreover have "\<not> list_ex (\<lambda>c. byte c < 32 \<or> byte c = 127) ?raw"
    using plain plain_char_facts(1) by (fastforce simp: list_all_iff list_ex_iff in_range_def)
  moreover have "to_lower_ascii ''https:'' = ''https:''" "to_lower_ascii ''github.com'' = ''github.com''" by code_simp+
  moreover have "escaped_path (CHR ''/'' # q) = Some (CHR ''/'' # q)"
  proof -
    have "list_all plain_char (CHR ''/'' # q)" using q by (simp add: plain_char_def)
    then show ?thesis
      using url_unescape_plain [of "CHR ''/'' # q"] plain_char_facts(4,5) by (auto simp: escaped_path_def list_all_iff)
  qed
  ultimately show ?thesis unfolding github_path_def whole by (simp add: Let_def trim_suffix_def)
qed

lemma github_issue_parts_cases:
  fixes parts :: "string list"
  obtains (four) o' r i digits where "parts = [o', r, i, digits]" | (other) "github_issue_parts parts = None"
proof (cases "\<exists>o' r i digits. parts = [o', r, i, digits]")
  case False
  then have "github_issue_parts parts = None" unfolding github_issue_parts_def by (simp split: list.splits)
  then show ?thesis by (rule other)
qed (use four in blast)

lemma github_issue_parts_Some:
  assumes "github_issue_parts parts = Some n"
  obtains raw identity digits number where "normalize_github_repository raw = Inr identity"
    "parse_uint digits = Some number" "number \<noteq> 0" "n = github_issue_reference identity number"
proof -
  from assms obtain o' r i digits where parts: "parts = [o', r, i, digits]"
    by (cases parts rule: github_issue_parts_cases) simp_all
  from assms obtain owner repository where p: "(case normalize_github_repository (''github.com/'' @ owner @ ''/'' @ repository) of
      Inl _ \<Rightarrow> None
    | Inr identity \<Rightarrow> (case parse_uint digits of None \<Rightarrow> None
        | Some n \<Rightarrow> if n = 0 then None else Some (github_issue_reference identity n))) = Some n"
    by (auto simp: parts github_issue_parts_def bind_eq_Some_conv simp del: append.simps split: if_splits)
  obtain raw where raw: "raw = ''github.com/'' @ owner @ ''/'' @ repository" by blast
  show thesis
    using p unfolding raw [symmetric] by (auto intro: that split: sum.splits option.splits if_splits)
qed

lemma trim_slashes_inner:
  assumes "a \<noteq> ''''" "hd a \<noteq> CHR ''/''" "last a \<noteq> CHR ''/''"
  shows "trim_slashes (CHR ''/'' # a) = a"
proof -
  have drop: "dropWhile (\<lambda>c. c = CHR ''/'') b = b" if "b \<noteq> ''''" "hd b \<noteq> CHR ''/''" for b :: string
    using that by (cases b) auto
  show ?thesis using drop [of a] drop [of "rev a"] assms by (simp add: trim_slashes_def hd_rev)
qed

text \<open>C37. The canonical form of a reference is stable: what the client sends after it has brought a reference into its
  canonical form is read by the control plane as the same work item of the same repository. This holds for every accepted
  GitHub issue URL, however it writes its path, and every opaque reference, unless the canonical repository still ends in
  .git; then the control plane reads another repository than the client did.\<close>

theorem canonical_reference_is_stable:
  assumes "normalize_build_reference printable raw = Inr n" "\<not> suffix ''.git'' (nb_repository_identity n)"
  shows "normalize_build_reference printable (nb_reference n) = Inr n"
proof (cases "contains ''://'' raw")
  case False
  then show ?thesis using assms(1) by (auto simp: normalize_build_reference_def split: if_splits)
next
  case True
  with assms(1) have "normalize_github_issue_url printable raw = Inr n" by (auto simp: normalize_build_reference_def split: if_splits)
  then obtain p where parts: "github_issue_parts (split_on (CHR ''/'') (trim_slashes p)) = Some n"
    by (auto simp: normalize_github_issue_url_def bind_eq_Some_conv split: option.splits)
  then obtain raw' identity digits number where i: "normalize_github_repository raw' = Inr identity"
    and number: "parse_uint digits = Some number" "number \<noteq> 0" and n: "n = github_issue_reference identity number"
    by (rule github_issue_parts_Some)
  have "\<not> suffix ''.git'' identity" using assms(2) by (simp add: n github_issue_reference_def Let_def)
  note again = normalize_github_repository_again [OF i this]
  from i obtain owner repository where identity: "identity = ''github.com/'' @ owner @ ''/'' @ repository"
    and owner: "valid_github_owner owner" "list_all (\<lambda>c. is_lower c \<or> is_decimal c \<or> c \<in> set ''-'') owner"
    and repository: "valid_github_repository repository" "list_all (\<lambda>c. is_lower c \<or> is_decimal c \<or> c \<in> set ''-_.'') repository"
    by (rule normalize_github_repository_Inr)
  let ?num = "show_nat number"
  have num: "list_all is_decimal ?num" "?num \<noteq> ''''" using show_nat_digits [of number] by simp_all
  let ?q = "owner @ ''/'' @ repository @ ''/issues/'' @ ?num"
  have reference: "nb_reference n = ''https://github.com/'' @ ?q"
    by (simp add: n github_issue_reference_def Let_def identity)
  have q: "list_all plain_char ?q"
    using owner_plain(1) [OF owner(2)] owner_plain(2) [OF repository(2)] num(1) plain_literals(2)
    by (auto simp: list_all_iff plain_char_def)
  have plain: "list_all plain_char (nb_reference n)" unfolding reference list_all_append using q plain_literals(1) by simp
  have some: "owner \<noteq> ''''" using owner(1) by (auto simp: valid_github_owner_def)
  have "hd ?q \<noteq> CHR ''/''" using some no_slash(1) [OF owner(2)] by (metis hd_append2 list.set_sel(1))
  moreover have "last ?q \<noteq> CHR ''/''" using num(2) no_slash(3) [OF num(1)] by (auto dest: last_in_set)
  ultimately have trimmed: "trim_slashes (''/'' @ ?q) = ?q" using trim_slashes_inner [of ?q] some by simp
  have "split_on (CHR ''/'') ?q = split_on (CHR ''/'') (owner @ CHR ''/'' # repository @ CHR ''/'' # ''issues'' @ CHR ''/'' # ?num)" by simp
  also note split_on_append [OF no_slash(1) [OF owner(2)]]
  also note split_on_append [OF no_slash(2) [OF repository(2)]]
  also have "split_on (CHR ''/'') (''issues'' @ CHR ''/'' # ?num) = [''issues'', ?num]"
    using split_on_append [of "CHR ''/''" "''issues''" ?num] split_on_single [OF no_slash(3) [OF num(1)]] by simp
  finally have split: "split_on (CHR ''/'') ?q = [owner, repository, ''issues'', ?num]" .
  have unescaped: "url_unescape owner = Some owner" "url_unescape repository = Some repository"
    using owner_plain(1) [OF owner(2)] owner_plain(2) [OF repository(2)] plain_char_facts(4)
    by (auto simp: list_all_iff intro!: url_unescape_plain)
  have "github_issue_parts [owner, repository, ''issues'', ?num] = Some n"
    using again parse_uint_show [OF parse_uint_bound [OF number(1)]] number(2) unescaped
    by (simp add: github_issue_parts_def identity n del: append.simps)
  then have url: "normalize_github_issue_url printable (nb_reference n) = Inr n"
    unfolding normalize_github_issue_url_def reference github_path_canonical [OF q] by (simp add: trimmed [simplified] split [simplified])
  have "length owner \<le> 39" "length repository \<le> 100" using owner(1) repository(1) by (simp_all add: valid_github_owner_def valid_github_repository_def)
  moreover have "number < 10 ^ Suc 19" using parse_uint_bound [OF number(1)] by simp
  then have "length ?num \<le> Suc 19" by (rule length_show_nat)
  ultimately have length: "length (nb_reference n) \<le> 2048" by (simp add: reference)
  have "contains ''://'' (nb_reference n)" by (simp add: reference)
  with url length plain_ends [OF plain] show ?thesis by (simp add: normalize_build_reference_def reference)
qed

theorem canonical_reference_is_stable_witness:
  "normalize_build_reference (\<lambda>_. True) (nb_reference \<lparr>nb_reference = ''ABC-1'', nb_source_kind = ''opaque'',
       nb_source_key = ''ABC-1'', nb_repository_identity = ''''\<rparr>)
     = Inr \<lparr>nb_reference = ''ABC-1'', nb_source_kind = ''opaque'', nb_source_key = ''ABC-1'', nb_repository_identity = ''''\<rparr>"
proof (rule canonical_reference_is_stable [where raw = "''ABC-1''"])
  show "normalize_build_reference (\<lambda>_. True) ''ABC-1'' = Inr \<lparr>nb_reference = ''ABC-1'', nb_source_kind = ''opaque'',
    nb_source_key = ''ABC-1'', nb_repository_identity = ''''\<rparr>" by code_simp
qed (simp add: suffix_def)

text \<open>The exception is real: one \<^verbatim>\<open>.git\<close> is removed at a time.\<close>

lemma git_suffix_is_removed_once:
  "normalize_github_repository ''github.com/o/r.git.git'' = Inr ''github.com/o/r.git''"
  "normalize_github_repository ''github.com/o/r.git'' = Inr ''github.com/o/r''"
  by code_simp+

end
