(* ===== verification/Spec2Isabelle.thy ===== *)
theory Spec2Isabelle
  imports Stage_Properties Report_Properties Routing_Properties Run_Properties
    Operator_Properties Claim_Properties Schedule_Properties Reachable Registration_Properties Credentials Replacement_Properties Procedure_Properties
    Workflow_Properties Build_Properties Reference_Properties
begin

text \<open>
  A model of the control plane of Agent Factory (\<^verbatim>\<open>internal/controlplane\<close> and
  \<^verbatim>\<open>internal/protocol\<close>) and of the properties that make it a durable coordinator of agents.

  \<^bold>\<open>The program.\<close> The control plane keeps its state in one SQLite database. An operator or a schedule
  admits a Run of a Task; a Run has one Work item (a \<^verbatim>\<open>sessions\<close> row) per target. A Work item that a
  Worker may execute has an \<^verbatim>\<open>executions\<close> row assigned to that Worker. A Worker claims it, which makes
  an \<^verbatim>\<open>attempts\<close> row under a lease, and then reports through the lease: it starts the Attempt, starts
  and completes the stages of its pipeline, sends events and semantic updates, and completes the Attempt.
  A sweep turns Attempts whose lease has run out into lost ones.

  \<^bold>\<open>The theories.\<close>
  \<^item> Factory\_Prelude: results, transactions, list tables and their rewriting lemmas.
  \<^item> Go\_Strings, Sha256, Go\_Json: UTF-8, SHA-256 and JSON of the Go standard library, as the code uses them.
  \<^item> Protocol, Identity: \<^verbatim>\<open>protocol/types.go\<close>, \<^verbatim>\<open>protocol/tasks.go\<close> and the validators.
  \<^item> Store\_Schema, Store\_Invariant: the tables, one record per row, and their well-formedness.
  \<^item> Leases, Stages, Work\_History, Completion: state.go and stage\_runs.go.
  \<^item> Paging, Events, Agent\_Updates: state.go, work.go: the reports a Worker sends and their pages.
  \<^item> Prompts, Continuation: protocol/prompt.go and the continuation prompt of resume.go.
  \<^item> Routing, Repositories: the placement of Work on Workers and the managed repositories of store.go.
  \<^item> Runs, Cursor, Run\_Pages: what the operator reads of Runs (tasks.go).
  \<^item> Operator: cancelling, retrying and answering (tasks.go, work.go, resume.go).
  \<^item> Candidate\_Scan, Claims: claiming, with its two searches by pages (state.go, task\_claim.go).
  \<^item> Calendar, Cron: the proleptic calendar in a time zone and schedule\_cron.go.
  \<^item> Pipelines, Tasks, Admission, Scheduler: pipelines.go, tasks.go, task\_scheduler.go, repository\_workflows.go.
  \<^item> Registration, Credentials: the registration, heartbeat and listing of Workers (store.go) and worker\_auth.go.
  \<^item> Replacement: replace.go.
  \<^item> Fleet\_Targets, Procedures: procedures.go and protocol/procedures.go; the interface \<^verbatim>\<open>work_adder\<close> of whoever adds the Work of one target.
  \<^item> Workflow\_Catalogs: the workflow files of a repository, their catalog and what operators read of it (repository\_workflows.go).
  \<^item> Build\_References, Builds: protocol/build.go and build.go: the references and requests of Builds, and their admission, which
    provides \<^verbatim>\<open>work_adder\<close> too.
  \<^item> Lifecycle, Reachable: the board of Work, all operations as one step relation, its invariant and refinement; at most one
    open Work item per source.
  \<^item> Example\_Store and the theories \<^verbatim>\<open>..._Properties\<close>: a small store and the properties of the components.

  \<^bold>\<open>How operations are modelled.\<close> An operation \<^verbatim>\<open>X\<close> is a transaction \<^verbatim>\<open>X_tx\<close>, a function from the database to
  an error or a value with the new database, and the operation itself, which keeps the old database on an error and
  reads its reply from the new one. The clock (in nanoseconds), the ids that \<^verbatim>\<open>newID\<close> draws, the time zone database
  and the Unicode tables of Go are arguments. A constraint of the schema that can fire is a branch. Loops that page
  through candidates have as fuel the number of rows they page through, and are proved to look at every one.

  \<^bold>\<open>What is shown.\<close> Reachable states the invariant that all operations keep together and the refinement of the board;
  the other properties are about one component each: completions are final and cancellation prevails, reports are only
  added, placement respects limits and is least loaded, pages neither skip nor repeat rows, claims respect limits and are
  replayed, schedules find the earliest instant and admit an occurrence once, admission creates all Work or none, a
  registered Worker is in normal form and frees only capacity it accounts for, an enrolment is exchanged once, Work is
  replaced once, a Procedure Run covers its repositories and links what it rebuilds, a catalog of workflows is well
  formed and the workflows offered for several repositories are those they share, a Build covers its references, canonical
  references are stable, and no two open Work items are about the same source.

  \<^bold>\<open>Not modelled.\<close> Opening and migrating the database, storage failures and the text of the errors they wrap;
  the insertion of the built-in Procedure, whose row is taken as present; GitHub intake and recovery; HTTP decoding; the ticker of the scheduler; the Worker process, the command line client and the release builder.
\<close>

end
